(* ===== verification/Prelude.thy ===== *)
theory Prelude
  imports Complex_Main "HOL-Library.Signed_Division"
begin

text \<open>
  Shared ground of the development: results with errors, the JavaScript values and number
  functions the sources use, ASCII strings, digits, and the named collections of simplification
  rules that the component theories extend.

  A JavaScript \<^verbatim>\<open>Number\<close> is a rational here. Every number the modelled code computes with is an
  integer, a half-integral day count, or a quotient that is only compared with or rounded to such
  values, and those are exact in binary64 far beyond the magnitudes of a payroll. A \<^verbatim>\<open>BigInt\<close> is an
  \<open>int\<close>; its \<^verbatim>\<open>/\<close> and \<^verbatim>\<open>%\<close> truncate, as \<open>sdiv\<close> and \<open>smod\<close> do. A \<^verbatim>\<open>Date\<close> is its number of
  milliseconds since the epoch.
\<close>

named_theorems result_simps \<open>unfolding and inversion of results\<close>
named_theorems money_simps \<open>the money library on values known to be well formed\<close>

section \<open>Results\<close>

text \<open>
  The errors the sources throw: a plain \<^verbatim>\<open>Error\<close> whose message starts with \<^verbatim>\<open>HR-n\<close>, an
  \<^verbatim>\<open>AppError\<close> with its HTTP status and code, or an error known by its message or name only.
\<close>

datatype hr_error =
    HRError nat
  | AppError nat string
  | PlainError string

text \<open>A call that may throw returns \<open>Inl\<close> of the error or \<open>Inr\<close> of the value.\<close>

fun rbind :: "'e + 'a \<Rightarrow> ('a \<Rightarrow> 'e + 'b) \<Rightarrow> 'e + 'b" where
  "rbind (Inl e) f = Inl e"
| "rbind (Inr x) f = f x"

text \<open>\<open>ensure b e\<close> is the statement \<^verbatim>\<open>if (!b) throw e\<close>.\<close>

definition ensure :: "bool \<Rightarrow> 'e \<Rightarrow> 'e + unit" where
  "ensure b e = (if b then Inr () else Inl e)"

text \<open>\<open>require o e\<close> is the value found, where finding nothing throws.\<close>

definition require :: "'a option \<Rightarrow> 'e \<Rightarrow> 'e + 'a" where
  "require x e = (case x of None \<Rightarrow> Inl e | Some y \<Rightarrow> Inr y)"

text \<open>A loop whose body may throw.\<close>

fun rfold :: "('a \<Rightarrow> 's \<Rightarrow> 'e + 's) \<Rightarrow> 'a list \<Rightarrow> 's \<Rightarrow> 'e + 's" where
  "rfold f [] s = Inr s"
| "rfold f (x # xs) s = rbind (f x s) (rfold f xs)"

fun rmap :: "('a \<Rightarrow> 'e + 'b) \<Rightarrow> 'a list \<Rightarrow> 'e + 'b list" where
  "rmap f [] = Inr []"
| "rmap f (x # xs) = rbind (f x) (\<lambda>y. rbind (rmap f xs) (\<lambda>ys. Inr (y # ys)))"

lemma rbind_cong [fundef_cong]:
  "m = m' \<Longrightarrow> (\<And>x. m' = Inr x \<Longrightarrow> f x = g x) \<Longrightarrow> rbind m f = rbind m' g"
  by (cases m') auto

lemma rbind_Inr_iff [result_simps]: "rbind m f = Inr y \<longleftrightarrow> (\<exists>x. m = Inr x \<and> f x = Inr y)"
  by (cases m) auto

lemma rbind_Inl_iff [result_simps]:
  "rbind m f = Inl e \<longleftrightarrow> m = Inl e \<or> (\<exists>x. m = Inr x \<and> f x = Inl e)"
  by (cases m) auto

lemma ensure_Inr_iff [simp]: "ensure b e = Inr u \<longleftrightarrow> b"
  by (simp add: ensure_def)

lemma ensure_Inl_iff [simp]: "ensure b e = Inl e' \<longleftrightarrow> \<not> b \<and> e = e'"
  by (auto simp: ensure_def)

lemma ensure_bind [simp]: "rbind (ensure b e) f = (if b then f () else Inl e)"
  by (simp add: ensure_def)

lemma require_Inr_iff [simp]: "require x e = Inr y \<longleftrightarrow> x = Some y"
  by (simp add: require_def split: option.split)

lemma require_simps [simp]: "require None e = Inl e" "require (Some y) e = Inr y"
  by (simp_all add: require_def)

lemma rbind_assoc: "rbind (rbind m f) g = rbind m (\<lambda>x. rbind (f x) g)"
  by (cases m) auto

lemma rmap_Inr: "(\<And>x. x \<in> set xs \<Longrightarrow> f x = Inr (g x)) \<Longrightarrow> rmap f xs = Inr (map g xs)"
  by (induction xs) auto

lemma rmap_Inr_all2: "rmap f xs = Inr ys \<Longrightarrow> list_all2 (\<lambda>x y. f x = Inr y) xs ys"
  by (induction xs arbitrary: ys) (auto simp: result_simps)

lemma rmap_append: "rmap f (xs @ ys) = rbind (rmap f xs) (\<lambda>a. rbind (rmap f ys) (\<lambda>b. Inr (a @ b)))"
proof (induction xs)
  case Nil
  then show ?case by (cases "rmap f ys") simp_all
next
  case (Cons x xs)
  then show ?case by (cases "f x"; cases "rmap f xs"; cases "rmap f ys") simp_all
qed

lemma rmap_length: "rmap f xs = Inr ys \<Longrightarrow> length ys = length xs"
  using rmap_Inr_all2 list_all2_lengthD by fastforce

lemma rmap_nth: "rmap f xs = Inr ys \<Longrightarrow> i < length xs \<Longrightarrow> f (xs ! i) = Inr (ys ! i)"
  using rmap_Inr_all2 list_all2_nthD by fastforce

lemma rmap_set: "rmap f xs = Inr ys \<Longrightarrow> y \<in> set ys \<Longrightarrow> \<exists>x \<in> set xs. f x = Inr y"
  by (induction xs arbitrary: ys) (auto simp: result_simps)

lemma rmap_update:
  assumes "rmap f xs = Inr ys" and "i < length xs" and "f x = Inr y"
  shows "rmap f (xs[i := x]) = Inr (ys[i := y])"
  using assms
proof (induction xs arbitrary: ys i)
  case (Cons z zs)
  then show ?case by (cases i) (auto simp: result_simps)
qed simp

lemma rfold_invariant:
  assumes "rfold f xs s = Inr s'" and "P s"
    and step: "\<And>x s s'. x \<in> set xs \<Longrightarrow> P s \<Longrightarrow> f x s = Inr s' \<Longrightarrow> P s'"
  shows "P s'"
  using assms
proof (induction xs arbitrary: s)
  case (Cons x xs)
  then obtain t where t: "f x s = Inr t" "rfold f xs t = Inr s'"
    by (auto simp: result_simps)
  have "P t" using Cons.prems(2,3) t(1) by (meson list.set_intros(1))
  then show ?case using Cons.IH t(2) Cons.prems(3) by (meson list.set_intros(2))
qed simp

lemma rfold_append: "rfold f (xs @ ys) s = rbind (rfold f xs s) (rfold f ys)"
proof (induction xs arbitrary: s)
  case (Cons x xs)
  then show ?case by (cases "f x s") simp_all
qed simp

section \<open>JavaScript values and numbers\<close>

datatype js_value =
    JUndefined
  | JNull
  | JBigInt int
  | JNumber rat
  | JNonFinite
  | JString string

definition js_isInteger :: "rat \<Rightarrow> bool" where
  "js_isInteger x \<longleftrightarrow> snd (quotient_of x) = 1"

definition js_isSafeInteger :: "rat \<Rightarrow> bool" where
  "js_isSafeInteger x \<longleftrightarrow> js_isInteger x \<and> \<bar>x\<bar> \<le> 9007199254740991"

definition js_round :: "rat \<Rightarrow> int" where
  "js_round x = \<lfloor>x + 1/2\<rfloor>"

lemma js_isInteger_of_int [simp]: "js_isInteger (of_int n)"
  by (simp add: js_isInteger_def)

lemma js_isInteger_iff: "js_isInteger x \<longleftrightarrow> of_int \<lfloor>x\<rfloor> = x"
proof
  assume "js_isInteger x"
  then obtain p where "quotient_of x = (p, 1)"
    by (cases "quotient_of x") (simp add: js_isInteger_def)
  then have "x = of_int p"
    using quotient_of_div by fastforce
  then show "of_int \<lfloor>x\<rfloor> = x" by simp
next
  assume "of_int \<lfloor>x\<rfloor> = x"
  then show "js_isInteger x" by (metis js_isInteger_of_int)
qed

lemma js_isInteger_numeral [simp]:
  "js_isInteger 0" "js_isInteger 1" "js_isInteger (numeral k)" "js_isInteger (- numeral k)"
  by (simp_all add: js_isInteger_iff)

lemma js_round_of_int [simp]: "js_round (of_int n) = n"
  by (simp add: js_round_def floor_eq_iff)

lemma js_round_mono: "x \<le> y \<Longrightarrow> js_round x \<le> js_round y"
  by (simp add: js_round_def floor_mono)

lemma js_round_bounds: "of_int (js_round x) \<le> x + 1/2" "x - 1/2 < of_int (js_round x)"
  unfolding js_round_def by linarith+

section \<open>Truncating division\<close>

lemma sdiv_pos [simp]: "0 \<le> a \<Longrightarrow> 0 < b \<Longrightarrow> a sdiv b = a div (b::int)"
  by (cases "a = 0") (simp_all add: signed_divide_int_def)

lemma sdiv_neg: "a < 0 \<Longrightarrow> 0 < b \<Longrightarrow> a sdiv b = - (- a div (b::int))"
  by (simp add: signed_divide_int_def)

lemma smod_pos [simp]: "0 \<le> a \<Longrightarrow> 0 < b \<Longrightarrow> a smod b = a mod (b::int)"
  by (cases "a = 0") (simp_all add: signed_modulo_int_def)

lemma smod_neg: "a < 0 \<Longrightarrow> 0 < b \<Longrightarrow> a smod b = - (- a mod (b::int))"
  by (simp add: signed_modulo_int_def)

lemma sdiv_nonneg: "0 \<le> a \<Longrightarrow> 0 < b \<Longrightarrow> 0 \<le> a sdiv (b::int)"
  by (simp add: pos_imp_zdiv_nonneg_iff)

lemma sdiv_mono:
  assumes "a \<le> a'" and "0 < b"
  shows "a sdiv b \<le> a' sdiv (b::int)"
proof -
  consider "0 \<le> a" | "a < 0" "0 \<le> a'" | "a' < 0" by linarith
  then show ?thesis
  proof cases
    case 1
    then show ?thesis using assms by (simp add: zdiv_mono1)
  next
    case 2
    then have "0 \<le> - a div b" "0 \<le> a' div b"
      using assms by (simp_all add: pos_imp_zdiv_nonneg_iff)
    then show ?thesis using 2 assms by (simp add: sdiv_neg)
  next
    case 3
    then show ?thesis using assms by (simp add: sdiv_neg zdiv_mono1)
  qed
qed

section \<open>Strings\<close>

definition is_digit :: "char \<Rightarrow> bool" where
  "is_digit c \<longleftrightarrow> 48 \<le> (of_char c :: nat) \<and> (of_char c :: nat) \<le> 57"

definition digit_val :: "char \<Rightarrow> nat" where
  "digit_val c = of_char c - 48"

definition digit_char :: "nat \<Rightarrow> char" where
  "digit_char n = char_of (48 + n)"

definition is_space :: "char \<Rightarrow> bool" where
  "is_space c \<longleftrightarrow> of_char c = (32::nat) \<or> (9 \<le> (of_char c :: nat) \<and> (of_char c :: nat) \<le> 13)"

definition js_trim :: "string \<Rightarrow> string" where
  "js_trim s = rev (dropWhile is_space (rev (dropWhile is_space s)))"

definition upper_char :: "char \<Rightarrow> char" where
  "upper_char c = (if 97 \<le> (of_char c :: nat) \<and> (of_char c :: nat) \<le> 122
     then char_of ((of_char c :: nat) - 32) else c)"

definition js_toUpper :: "string \<Rightarrow> string" where
  "js_toUpper = map upper_char"

definition lower_char :: "char \<Rightarrow> char" where
  "lower_char c = (if 65 \<le> (of_char c :: nat) \<and> (of_char c :: nat) \<le> 90
     then char_of ((of_char c :: nat) + 32) else c)"

definition js_toLower :: "string \<Rightarrow> string" where
  "js_toLower = map lower_char"

definition parse_nat :: "string \<Rightarrow> nat" where
  "parse_nat s = foldl (\<lambda>a c. 10 * a + digit_val c) 0 s"

fun show_nat :: "nat \<Rightarrow> string" where
  "show_nat n = (if n < 10 then [digit_char n] else show_nat (n div 10) @ [digit_char (n mod 10)])"

declare show_nat.simps [simp del]

definition pad_start :: "nat \<Rightarrow> char \<Rightarrow> string \<Rightarrow> string" where
  "pad_start n c s = replicate (n - length s) c @ s"

lemma of_char_digit_char: "n < 10 \<Longrightarrow> of_char (digit_char n) = 48 + n"
  by (simp add: digit_char_def)

lemma is_digit_digit_char [simp]: "n < 10 \<Longrightarrow> is_digit (digit_char n)"
  by (simp add: is_digit_def of_char_digit_char)

lemma digit_val_digit_char [simp]: "n < 10 \<Longrightarrow> digit_val (digit_char n) = n"
  by (simp add: digit_val_def of_char_digit_char)

lemma parse_nat_append: "parse_nat (s @ [c]) = 10 * parse_nat s + digit_val c"
  by (simp add: parse_nat_def)

lemma parse_nat_show_nat [simp]: "parse_nat (show_nat n) = n"
proof (induction n rule: show_nat.induct)
  case (1 n)
  show ?case
  proof (cases "n < 10")
    case True
    then show ?thesis by (subst show_nat.simps) (simp add: parse_nat_def)
  next
    case False
    then have "parse_nat (show_nat (n div 10)) = n div 10" using "1" by simp
    then show ?thesis using False
      by (subst show_nat.simps) (simp add: parse_nat_append)
  qed
qed

lemma show_nat_digits [simp]: "c \<in> set (show_nat n) \<Longrightarrow> is_digit c"
proof (induction n arbitrary: c rule: show_nat.induct)
  case (1 n)
  then show ?case
    by (subst (asm) (2) show_nat.simps) (auto split: if_splits)
qed

lemma show_nat_nonempty [simp]: "show_nat n \<noteq> []"
  by (subst show_nat.simps) simp

lemma foldl_zeros: "foldl (\<lambda>a c. 10 * a + digit_val c) 0 (replicate k CHR ''0'') = 0"
  by (induction k) (simp_all add: digit_val_def)

lemma parse_nat_pad_start [simp]: "parse_nat (pad_start n CHR ''0'' s) = parse_nat s"
  by (simp add: pad_start_def foldl_zeros parse_nat_def)

lemma pad_start_digits:
  "list_all is_digit s \<Longrightarrow> list_all is_digit (pad_start n CHR ''0'' s)"
  by (auto simp: pad_start_def list_all_iff is_digit_def)

lemma length_pad_start: "length (pad_start n c s) = max n (length s)"
  by (simp add: pad_start_def)

lemma is_digit_not_special [simp]:
  "\<not> is_digit CHR ''.''" "\<not> is_digit CHR ''-''" "\<not> is_digit CHR ''+''"
  "\<not> is_digit CHR ''e''" "\<not> is_digit CHR ''E''" "\<not> is_digit CHR ''I''"
  by (simp_all add: is_digit_def)

lemma is_digit_not_space: "is_digit c \<Longrightarrow> \<not> is_space c"
  by (auto simp: is_digit_def is_space_def)

lemma js_trim_id: "list_all (\<lambda>c. \<not> is_space c) s \<Longrightarrow> js_trim s = s"
proof -
  assume s: "list_all (\<lambda>c. \<not> is_space c) s"
  then have d: "dropWhile is_space s = s"
    by (cases s) auto
  from s have "dropWhile is_space (rev s) = rev s"
    by (cases "rev s") (auto simp: list_all_iff dest!: arg_cong [of _ _ set])
  with d show ?thesis by (simp add: js_trim_def)
qed

lemma takeWhile_all: "list_all P s \<Longrightarrow> takeWhile P s = s"
  by (induction s) auto

lemma dropWhile_all: "list_all P s \<Longrightarrow> dropWhile P s = []"
  by (induction s) auto

lemma takeWhile_stop: "list_all P s \<Longrightarrow> \<not> P c \<Longrightarrow> takeWhile P (s @ c # t) = s"
  by (induction s) auto

lemma dropWhile_stop: "list_all P s \<Longrightarrow> \<not> P c \<Longrightarrow> dropWhile P (s @ c # t) = c # t"
  by (induction s) auto

lemmas while_simps = takeWhile_all dropWhile_all takeWhile_stop dropWhile_stop

section \<open>Sets and maps in insertion order\<close>

lemma find_map_same:
  assumes "\<And>x. P (f x) = P x"
  shows "find P (map f xs) = map_option f (find P xs)"
  using assms by (induction xs) auto

text \<open>
  A JavaScript \<^verbatim>\<open>Set\<close> or \<^verbatim>\<open>Map\<close> iterates in the order its keys were first inserted: \<open>nub\<close> is
  \<^verbatim>\<open>[...new Set(xs)]\<close>, \<open>dedupe_by\<close> the loop that skips a key already seen, and \<open>alist_upd\<close> an update
  of an entry in place or at the end.
\<close>

definition nub :: "'a list \<Rightarrow> 'a list" where
  "nub xs = rev (remdups (rev xs))"

fun dedupe_by :: "('a \<Rightarrow> 'k) \<Rightarrow> 'k list \<Rightarrow> 'a list \<Rightarrow> 'a list" where
  "dedupe_by key seen [] = []"
| "dedupe_by key seen (x # xs) =
     (if key x \<in> set seen then dedupe_by key seen xs else x # dedupe_by key (key x # seen) xs)"

fun alist_upd :: "'k \<Rightarrow> ('v option \<Rightarrow> 'v) \<Rightarrow> ('k \<times> 'v) list \<Rightarrow> ('k \<times> 'v) list" where
  "alist_upd k f [] = [(k, f None)]"
| "alist_upd k f ((k', v) # kvs) =
     (if k' = k then (k, f (Some v)) # kvs else (k', v) # alist_upd k f kvs)"

lemma set_nub [simp]: "set (nub xs) = set xs"
  by (simp add: nub_def)

lemma distinct_nub [simp]: "distinct (nub xs)"
  by (simp add: nub_def)

lemma dedupe_by_subset: "set (dedupe_by key seen xs) \<subseteq> set xs"
  by (induction key seen xs rule: dedupe_by.induct) auto

lemma dedupe_by_distinct: "distinct xs \<Longrightarrow> distinct (dedupe_by key seen xs)"
  by (induction key seen xs rule: dedupe_by.induct) (auto dest: dedupe_by_subset [THEN subsetD])

lemma dedupe_by_fresh: "x \<in> set (dedupe_by key seen xs) \<Longrightarrow> key x \<notin> set seen"
proof (induction xs arbitrary: seen)
  case (Cons y ys)
  show ?case
  proof (cases "key y \<in> set seen")
    case True
    then show ?thesis using Cons by simp
  next
    case False
    then show ?thesis using Cons.prems Cons.IH [of "key y # seen"] by auto
  qed
qed simp

lemma dedupe_by_keys: "distinct (map key (dedupe_by key seen xs))"
proof (induction xs arbitrary: seen)
  case (Cons y ys)
  show ?case
  proof (cases "key y \<in> set seen")
    case True
    then show ?thesis using Cons by simp
  next
    case False
    have "key y \<notin> key ` set (dedupe_by key (key y # seen) ys)"
      by (metis dedupe_by_fresh image_iff list.set_intros(1))
    then show ?thesis using False Cons.IH [of "key y # seen"] by simp
  qed
qed simp

lemma dedupe_by_keeps_key:
  "x \<in> set xs \<Longrightarrow> key x \<in> set seen \<union> key ` set (dedupe_by key seen xs)"
proof (induction xs arbitrary: seen)
  case (Cons y ys)
  then show ?case using Cons.IH [of seen] Cons.IH [of "key y # seen"] by auto
qed simp

lemma map_of_alist_upd: "map_of (alist_upd k f kvs) = (map_of kvs)(k \<mapsto> f (map_of kvs k))"
  by (induction k f kvs rule: alist_upd.induct) auto

lemma alist_upd_keys: "fst ` set (alist_upd k f kvs) = insert k (fst ` set kvs)"
  by (induction k f kvs rule: alist_upd.induct) auto

lemma alist_upd_distinct: "distinct (map fst kvs) \<Longrightarrow> distinct (map fst (alist_upd k f kvs))"
proof (induction k f kvs rule: alist_upd.induct)
  case (2 k f k' v kvs)
  have "fst ` set (alist_upd k f kvs) = insert k (fst ` set kvs)" by (rule alist_upd_keys)
  then show ?case using 2 by auto
qed simp

lemma filter_length_le:
  "(\<And>x. x \<in> set xs \<Longrightarrow> Q x \<Longrightarrow> P x) \<Longrightarrow> length (filter Q xs) \<le> length (filter P xs)"
  by (induction xs) (simp_all add: le_SucI)

lemma filter_length_less:
  assumes "\<And>x. x \<in> set xs \<Longrightarrow> Q x \<Longrightarrow> P x" and "y \<in> set xs" and "P y" and "\<not> Q y"
  shows "length (filter Q xs) < length (filter P xs)"
proof -
  obtain as bs where xs: "xs = as @ y # bs" using assms(2) by (auto dest: split_list)
  have "length (filter Q as) \<le> length (filter P as)" "length (filter Q bs) \<le> length (filter P bs)"
    using assms(1) xs by (auto intro!: filter_length_le)
  then show ?thesis using xs assms(3,4) by simp
qed

section \<open>Numbers that may be missing\<close>

text \<open>What \<^verbatim>\<open>Number(v)\<close> gives: a finite number, or \<^verbatim>\<open>NaN\<close> or an infinity.\<close>

datatype js_number = Finite rat | NonFinite

definition half_integral :: "rat \<Rightarrow> bool" where
  "half_integral x \<longleftrightarrow> js_isInteger (x * 2)"

lemma half_integral_iff: "half_integral x \<longleftrightarrow> (\<exists>n. x * 2 = of_int n)"
  unfolding half_integral_def js_isInteger_iff by (metis floor_of_int)

lemma half_integral_add: "half_integral x \<Longrightarrow> half_integral y \<Longrightarrow> half_integral (x + y)"
  unfolding half_integral_iff by (metis distrib_right of_int_add)

lemma half_integral_0 [simp]: "half_integral 0"
  by (simp add: half_integral_def)

lemma half_integral_sum_list: "(\<And>x. x \<in> set xs \<Longrightarrow> half_integral x) \<Longrightarrow> half_integral (sum_list xs)"
  by (induction xs) (auto intro: half_integral_add)

section \<open>Calendar days\<close>

text \<open>
  \<^verbatim>\<open>new Date(v).toISOString().slice(0, 10)\<close> names the UTC calendar day of an instant. The code only
  compares these names with \<^verbatim>\<open><\<close>, \<^verbatim>\<open><=\<close> and \<^verbatim>\<open>===\<close>; on the years 0 to 9999 that is the comparison of
  the day numbers.
\<close>

definition day_ms :: int where
  "day_ms = 86400000"

definition keyDate :: "int \<Rightarrow> int" where
  "keyDate ms = ms div day_ms"

text \<open>\<^verbatim>\<open>+new Date(v)\<close> of a nullable timestamp column: \<^verbatim>\<open>new Date(null)\<close> is the epoch.\<close>

definition date_ms :: "int option \<Rightarrow> int" where
  "date_ms v = (case v of None \<Rightarrow> 0 | Some t \<Rightarrow> t)"

lemma keyDate_mono: "a \<le> b \<Longrightarrow> keyDate a \<le> keyDate b"
  by (simp add: keyDate_def day_ms_def zdiv_mono1)

section \<open>Transition systems\<close>

text \<open>The states a component can reach, and the contract of an invariant.\<close>

inductive reach :: "('s \<Rightarrow> bool) \<Rightarrow> ('s \<Rightarrow> 's \<Rightarrow> bool) \<Rightarrow> 's \<Rightarrow> bool" for init step where
  start: "init s \<Longrightarrow> reach init step s"
| more: "reach init step s \<Longrightarrow> step s t \<Longrightarrow> reach init step t"

locale invariant_system =
  fixes init :: "'s \<Rightarrow> bool" and step :: "'s \<Rightarrow> 's \<Rightarrow> bool" and inv :: "'s \<Rightarrow> bool"
  assumes init_inv: "init s \<Longrightarrow> inv s"
    and step_inv: "inv s \<Longrightarrow> step s t \<Longrightarrow> inv t"
begin

lemma reach_inv: "reach init step s \<Longrightarrow> inv s"
  by (induction rule: reach.induct) (auto intro: init_inv step_inv)

lemma reach_steps: "step\<^sup>*\<^sup>* s t \<Longrightarrow> reach init step s \<Longrightarrow> inv t"
  by (induction rule: rtranclp_induct) (auto dest: reach_inv intro: step_inv)

end

text \<open>
  Functional simulation: a concrete system whose states map to those of an abstract one, each concrete
  step, under the concrete invariant, being an abstract step or none.
\<close>

locale refinement_map = invariant_system init step inv
  for init :: "'s \<Rightarrow> bool" and step :: "'s \<Rightarrow> 's \<Rightarrow> bool" and inv :: "'s \<Rightarrow> bool" +
  fixes ainit :: "'t \<Rightarrow> bool" and astep :: "'t \<Rightarrow> 't \<Rightarrow> bool" and abs_of :: "'s \<Rightarrow> 't"
  assumes init_abs: "init s \<Longrightarrow> ainit (abs_of s)"
    and step_abs: "inv s \<Longrightarrow> step s t \<Longrightarrow> abs_of s = abs_of t \<or> astep (abs_of s) (abs_of t)"
begin

lemma reach_abs: "reach init step s \<Longrightarrow> reach ainit astep (abs_of s)"
proof (induction rule: reach.induct)
  case (more s t)
  then show ?case using step_abs [OF reach_inv [OF more.hyps(1)] more.hyps(2)] by (auto intro: reach.more)
qed (auto intro: reach.start init_abs)

lemma abs_steps: "step\<^sup>*\<^sup>* s t \<Longrightarrow> reach init step s \<Longrightarrow> astep\<^sup>*\<^sup>* (abs_of s) (abs_of t)"
proof (induction rule: rtranclp_induct)
  case (step t u)
  have "inv t" by (rule reach_steps [OF step.hyps(1) step.prems])
  then show ?case using step step_abs [of t u] by (metis rtranclp.rtrancl_into_rtrancl)
qed simp

end

end
