(* ===== verification/Money.thy ===== *)
theory Money
  imports Prelude
begin

text \<open>
  The money library, \<^verbatim>\<open>src/src/lib/money.js\<close>. Amounts are \<^verbatim>\<open>BigInt\<close> minor units, hence \<open>int\<close>;
  decimal values at the database and on the wire are texts. A decimal argument of the code may be a
  string, a number or a \<^verbatim>\<open>Decimal\<close> object and is read through its text, so it is a \<open>string option\<close>
  here, \<open>None\<close> for \<^verbatim>\<open>null\<close> and \<^verbatim>\<open>undefined\<close>. Scientific exponents are unbounded in the model.
\<close>

section \<open>Definitions\<close>

definition CURRENCY_EXPONENT :: "(string \<times> nat) list" where
  "CURRENCY_EXPONENT =
    [(''USD'', 2), (''EUR'', 2), (''GBP'', 2), (''PKR'', 2), (''AED'', 2), (''SAR'', 2),
     (''JPY'', 0), (''KWD'', 3), (''BHD'', 3)]"

definition DECIMAL_SCALE :: nat where
  "DECIMAL_SCALE = 4"

definition show_int :: "int \<Rightarrow> string" where
  "show_int n = (if n < 0 then CHR ''-'' # show_nat (nat (- n)) else show_nat (nat n))"

definition split_sign :: "string \<Rightarrow> bool \<times> string" where
  "split_sign s = (case s of
     [] \<Rightarrow> (False, [])
   | c # cs \<Rightarrow> if c = CHR ''-'' then (True, cs) else if c = CHR ''+'' then (False, cs) else (False, s))"

definition assertMinor :: "js_value \<Rightarrow> hr_error + int" where
  "assertMinor v = (case v of
     JBigInt n \<Rightarrow> Inr n
   | JNumber x \<Rightarrow> if js_isSafeInteger x then Inr \<lfloor>x\<rfloor> else Inl (HRError 2002)
   | JString s \<Rightarrow>
       (case s of
          CHR ''-'' # ds \<Rightarrow>
            if ds \<noteq> [] \<and> list_all is_digit ds then Inr (- int (parse_nat ds)) else Inl (HRError 2002)
        | ds \<Rightarrow>
            if ds \<noteq> [] \<and> list_all is_digit ds then Inr (int (parse_nat ds)) else Inl (HRError 2002))
   | _ \<Rightarrow> Inl (HRError 2002))"

definition exponentOf :: "string option \<Rightarrow> hr_error + nat" where
  "exponentOf currency =
    (case map_of CURRENCY_EXPONENT (js_toUpper (case currency of None \<Rightarrow> [] | Some c \<Rightarrow> c)) of
       None \<Rightarrow> Inl (HRError 2008)
     | Some e \<Rightarrow> Inr e)"

text \<open>The regular expression of \<^verbatim>\<open>decimalParts\<close>: sign, whole digits, fraction digits, exponent.\<close>

definition match_exponent :: "string \<Rightarrow> int option" where
  "match_exponent s = (case s of
     [] \<Rightarrow> Some 0
   | c # cs \<Rightarrow>
       let (neg, ds) = split_sign cs in
       if (c = CHR ''e'' \<or> c = CHR ''E'') \<and> ds \<noteq> [] \<and> list_all is_digit ds
       then Some (if neg then - int (parse_nat ds) else int (parse_nat ds))
       else None)"

definition match_decimal :: "string \<Rightarrow> (bool \<times> string \<times> string \<times> int) option" where
  "match_decimal s =
    (let (neg, rest) = split_sign s;
         whole = takeWhile is_digit rest;
         after = dropWhile is_digit rest;
         (fraction, tl_text) =
           (case after of
              [] \<Rightarrow> ([], [])
            | c # cs \<Rightarrow>
                if c = CHR ''.'' then (takeWhile is_digit cs, dropWhile is_digit cs) else ([], after))
     in if whole = [] then None
        else (case match_exponent tl_text of
                None \<Rightarrow> None
              | Some e \<Rightarrow> Some (neg, whole, fraction, e)))"

definition decimalParts :: "string option \<Rightarrow> hr_error + int \<times> nat" where
  "decimalParts value = (case value of
     None \<Rightarrow> Inl (HRError 2001)
   | Some raw \<Rightarrow>
       if raw = [] then Inl (HRError 2001)
       else (case match_decimal (js_trim raw) of
          None \<Rightarrow> Inl (HRError 2001)
        | Some (neg, whole, fraction, scientific) \<Rightarrow>
            let sign = (if neg then -1 else 1);
                coefficient = int (parse_nat (whole @ fraction)) * sign;
                scale = int (length fraction) - scientific
            in if scale < 0 then Inr (coefficient * 10 ^ nat (- scale), 0)
               else Inr (coefficient, nat scale)))"

definition divideHalfEven :: "int \<Rightarrow> int \<Rightarrow> hr_error + int" where
  "divideHalfEven numerator denominator =
    (if denominator = 0 then Inl (HRError 2006)
     else
       let q = numerator sdiv denominator;
           r = numerator smod denominator;
           twice = 2 * (if r < 0 then - r else r);
           divisor = (if denominator < 0 then - denominator else denominator);
           away = (if (numerator < 0) \<noteq> (denominator < 0) then -1 else 1)
       in if twice > divisor \<or> (twice = divisor \<and> (if q < 0 then - q else q) smod 2 = 1)
          then Inr (q + away) else Inr q)"

definition rescale :: "int \<Rightarrow> nat \<Rightarrow> nat \<Rightarrow> hr_error + int" where
  "rescale coefficient fromScale toScale =
    (if fromScale = toScale then Inr coefficient
     else if fromScale < toScale then Inr (coefficient * 10 ^ (toScale - fromScale))
     else divideHalfEven coefficient (10 ^ (fromScale - toScale)))"

definition fixedDecimal :: "int \<Rightarrow> nat \<Rightarrow> string" where
  "fixedDecimal coefficient scale =
    (let negative = coefficient < 0;
         digits = pad_start (scale + 1) CHR ''0''
           (show_nat (nat (if negative then - coefficient else coefficient)));
         whole = (if scale = 0 then digits else take (length digits - scale) digits);
         fraction = (if scale = 0 then [] else CHR ''.'' # drop (length digits - scale) digits)
     in (if negative then ''-'' else []) @ whole @ fraction)"

definition decimalToMinor :: "string option \<Rightarrow> string option \<Rightarrow> hr_error + int" where
  "decimalToMinor value currency =
    rbind (decimalParts value) (\<lambda>(coefficient, scale).
    rbind (exponentOf currency) (\<lambda>e. rescale coefficient scale e))"

definition decimalToPersistence :: "string option \<Rightarrow> hr_error + string" where
  "decimalToPersistence value =
    rbind (decimalParts value) (\<lambda>(coefficient, scale).
    rbind (rescale coefficient scale DECIMAL_SCALE) (\<lambda>persisted.
      let integerDigits = int (length (show_int (if persisted < 0 then - persisted else persisted)))
                            - int DECIMAL_SCALE
      in if integerDigits > 14 then Inl (HRError 2009)
         else Inr (fixedDecimal persisted DECIMAL_SCALE)))"

definition minorToDecimal :: "js_value \<Rightarrow> string option \<Rightarrow> hr_error + string" where
  "minorToDecimal minor currency =
    rbind (exponentOf currency) (\<lambda>e.
      if e > DECIMAL_SCALE then Inl (HRError 2009)
      else rbind (assertMinor minor) (\<lambda>m.
        Inr (fixedDecimal (m * 10 ^ (DECIMAL_SCALE - e)) DECIMAL_SCALE)))"

definition minorToWire :: "js_value \<Rightarrow> hr_error + string" where
  "minorToWire minor = rbind (assertMinor minor) (\<lambda>m. Inr (show_int m))"

definition minorToWireDecimal :: "js_value \<Rightarrow> string option \<Rightarrow> hr_error + string" where
  "minorToWireDecimal minor currency =
    rbind (assertMinor minor) (\<lambda>m. rbind (exponentOf currency) (\<lambda>e. Inr (fixedDecimal m e)))"

definition money_add :: "js_value \<Rightarrow> js_value \<Rightarrow> hr_error + int" where
  "money_add a b = rbind (assertMinor a) (\<lambda>x. rbind (assertMinor b) (\<lambda>y. Inr (x + y)))"

definition money_sub :: "js_value \<Rightarrow> js_value \<Rightarrow> hr_error + int" where
  "money_sub a b = rbind (assertMinor a) (\<lambda>x. rbind (assertMinor b) (\<lambda>y. Inr (x - y)))"

definition money_sum :: "js_value list \<Rightarrow> hr_error + int" where
  "money_sum values =
    rfold (\<lambda>v total. rbind (assertMinor v) (\<lambda>m. Inr (total + m))) values 0"

definition mulRate :: "js_value \<Rightarrow> string option \<Rightarrow> hr_error + int" where
  "mulRate minor rate =
    rbind (assertMinor minor) (\<lambda>amount.
    rbind (decimalParts rate) (\<lambda>(coefficient, scale).
      divideHalfEven (amount * coefficient) (10 ^ scale)))"

definition scaleRational :: "js_value \<Rightarrow> js_value \<Rightarrow> js_value \<Rightarrow> hr_error + int" where
  "scaleRational minor numerator denominator =
    rbind (assertMinor minor) (\<lambda>m.
    rbind (assertMinor numerator) (\<lambda>n.
    rbind (assertMinor denominator) (\<lambda>d. divideHalfEven (m * n) d)))"

definition allocateEvenly :: "js_value \<Rightarrow> rat \<Rightarrow> hr_error + int list" where
  "allocateEvenly minor parts =
    rbind (assertMinor minor) (\<lambda>amount.
      if \<not> js_isInteger parts \<or> parts \<le> 0 then Inl (HRError 2005)
      else
        let count = \<lfloor>parts\<rfloor>;
            sign = (if amount < 0 then -1 else 1);
            absolute = (if amount < 0 then - amount else amount);
            base = absolute sdiv count;
            remainder = absolute smod count
        in Inr (map (\<lambda>index. sign * (base + (if int index < remainder then 1 else 0)))
                 [0..<nat count]))"

definition compareDecimal :: "string option \<Rightarrow> string option \<Rightarrow> hr_error + int" where
  "compareDecimal left right =
    rbind (decimalParts left) (\<lambda>(ac, asc).
    rbind (decimalParts right) (\<lambda>(bc, bsc).
      let scale = max asc bsc in
      rbind (rescale ac asc scale) (\<lambda>av.
      rbind (rescale bc bsc scale) (\<lambda>bv.
        Inr (if av < bv then -1 else if av > bv then 1 else 0)))))"

text \<open>
  The values \<^verbatim>\<open>serializePayrollMoney\<close> walks over. A \<^verbatim>\<open>Decimal\<close> is kept by its coefficient and scale;
  its \<^verbatim>\<open>toFixed\<close> belongs to the database client and is a parameter.
\<close>

datatype json =
    JsonNull
  | JsonBool bool
  | JsonNumber rat
  | JsonString string
  | JsonBigInt int
  | JsonDate int
  | JsonDecimal int nat
  | JsonArray "json list"
  | JsonObject "(string \<times> json) list"

fun serializePayrollMoney :: "(int \<Rightarrow> nat \<Rightarrow> nat \<Rightarrow> string) \<Rightarrow> json \<Rightarrow> json" where
  "serializePayrollMoney toFixed (JsonDecimal c k) = JsonString (toFixed c k DECIMAL_SCALE)"
| "serializePayrollMoney toFixed (JsonArray vs) = JsonArray (map (serializePayrollMoney toFixed) vs)"
| "serializePayrollMoney toFixed (JsonObject kvs) =
     JsonObject (map (\<lambda>kv. (fst kv, serializePayrollMoney toFixed (snd kv))) kvs)"
| "serializePayrollMoney toFixed (JsonBigInt n) = JsonString (show_int n)"
| "serializePayrollMoney toFixed v = v"

fun json_safe :: "json \<Rightarrow> bool" where
  "json_safe (JsonDecimal c k) = False"
| "json_safe (JsonBigInt n) = False"
| "json_safe (JsonArray vs) = list_all json_safe vs"
| "json_safe (JsonObject kvs) = list_all (\<lambda>kv. json_safe (snd kv)) kvs"
| "json_safe v = True"

text \<open>The rational number a pair of coefficient and scale stands for.\<close>

definition dec_value :: "int \<times> nat \<Rightarrow> rat" where
  "dec_value p = of_int (fst p) / 10 ^ snd p"

section \<open>Half-even division\<close>

text \<open>\<open>half_even n d q\<close>: \<open>q\<close> is a nearest integer to \<open>n / d\<close>, and the even one of two.\<close>

definition half_even :: "int \<Rightarrow> int \<Rightarrow> int \<Rightarrow> bool" where
  "half_even n d q \<longleftrightarrow> 2 * \<bar>n - q * d\<bar> \<le> \<bar>d\<bar> \<and> (2 * \<bar>n - q * d\<bar> = \<bar>d\<bar> \<longrightarrow> even q)"

lemma half_even_unique:
  assumes "d \<noteq> 0" and "half_even n d q" and "half_even n d q'"
  shows "q = q'"
proof (rule ccontr)
  assume ne: "q \<noteq> q'"
  have tri: "\<bar>q - q'\<bar> * \<bar>d\<bar> \<le> \<bar>n - q * d\<bar> + \<bar>n - q' * d\<bar>"
    by (simp flip: abs_mult add: left_diff_distrib)
  have near: "2 * \<bar>n - q * d\<bar> \<le> \<bar>d\<bar>" "2 * \<bar>n - q' * d\<bar> \<le> \<bar>d\<bar>"
    using assms by (simp_all add: half_even_def)
  then have "\<bar>q - q'\<bar> * \<bar>d\<bar> \<le> \<bar>d\<bar>"
    using tri by linarith
  then have one: "\<bar>q - q'\<bar> = 1"
    using ne assms(1) by (simp add: mult_le_cancel_right1)
  then have "2 * \<bar>n - q * d\<bar> = \<bar>d\<bar>" "2 * \<bar>n - q' * d\<bar> = \<bar>d\<bar>"
    using tri near by auto
  then have "even q" "even q'" using assms by (simp_all add: half_even_def)
  then show False using one by presburger
qed

lemma half_even_pos:
  fixes N D :: int
  assumes "0 \<le> N" and "0 < D"
  shows "half_even N D (N div D + (if 2 * (N mod D) > D \<or> (2 * (N mod D) = D \<and> odd (N div D)) then 1 else 0))"
proof -
  define Q R where "Q = N div D" and "R = N mod D"
  have N: "N = Q * D + R" and R: "0 \<le> R" "R < D"
    using assms by (simp_all add: Q_def R_def)
  have e: "Q * D + R - Q * D = R" "Q * D + R - (Q + 1) * D = R - D"
    by (simp_all add: algebra_simps)
  consider "2 * R > D \<or> (2 * R = D \<and> odd Q)" | "2 * R < D" | "2 * R = D" "even Q"
    by linarith
  then have "half_even (Q * D + R) D (Q + (if 2 * R > D \<or> (2 * R = D \<and> odd Q) then 1 else 0))"
  proof cases
    case 1
    then have "half_even (Q * D + R) D (Q + 1)" unfolding half_even_def e using R by auto
    with 1 show ?thesis by simp
  next
    case 2
    then have "half_even (Q * D + R) D Q" unfolding half_even_def e using R by auto
    with 2 show ?thesis by simp
  next
    case 3
    then have "half_even (Q * D + R) D Q" unfolding half_even_def e using R by auto
    with 3 show ?thesis by simp
  qed
  then show ?thesis
    by (simp only: N [symmetric]) (simp only: Q_def R_def)
qed

lemma half_even_neg_numerator: "half_even (- n) d (- q) \<longleftrightarrow> half_even n d q"
  by (simp add: half_even_def abs_minus_commute)

lemma half_even_neg_denominator: "half_even n (- d) (- q) \<longleftrightarrow> half_even n d q"
  by (simp add: half_even_def)

lemma half_even_signed:
  "half_even \<bar>n\<bar> \<bar>d\<bar> h \<Longrightarrow> half_even n d (if (n < 0) \<noteq> (d < 0) then - h else h)"
  using half_even_neg_numerator [of n d "- h"] half_even_neg_denominator [of n d "- h"]
    half_even_neg_numerator [of n "- d" "- h"] half_even_neg_denominator [of n d h]
  by (cases "n < 0"; cases "d < 0") simp_all

lemma odd_iff_mod_1: "0 \<le> a \<Longrightarrow> a smod 2 = 1 \<longleftrightarrow> odd (a::int)"
  by (simp add: odd_iff_mod_2_eq_one)

lemma abs_sdiv: "\<bar>n sdiv d\<bar> = \<bar>n\<bar> div \<bar>d::int\<bar>"
proof -
  have "0 \<le> \<bar>n\<bar> div \<bar>d\<bar>" by (cases "d = 0") (simp_all add: pos_imp_zdiv_nonneg_iff)
  then show ?thesis
    by (cases "n = 0"; cases "d = 0") (simp_all add: signed_divide_int_def abs_mult)
qed

lemma abs_smod: "d \<noteq> 0 \<Longrightarrow> \<bar>n smod d\<bar> = \<bar>n\<bar> mod \<bar>d::int\<bar>"
  by (cases "n = 0") (simp_all add: signed_modulo_int_def abs_mult)

lemma sdiv_signed:
  "n sdiv d = (if (n < 0) \<noteq> (d < 0) then - (\<bar>n\<bar> div \<bar>d\<bar>) else \<bar>n\<bar> div \<bar>d::int\<bar>)"
  by (cases "n = 0"; cases "d = 0") (simp_all add: signed_divide_int_def sgn_if)

lemma if_neg_abs: "(if x < 0 then - x else x) = \<bar>x::int\<bar>"
  by simp

lemma divideHalfEven_sign:
  fixes n d :: int
  assumes "d \<noteq> 0"
  defines "h \<equiv> \<bar>n\<bar> div \<bar>d\<bar> +
    (if 2 * (\<bar>n\<bar> mod \<bar>d\<bar>) > \<bar>d\<bar> \<or> (2 * (\<bar>n\<bar> mod \<bar>d\<bar>) = \<bar>d\<bar> \<and> odd (\<bar>n\<bar> div \<bar>d\<bar>)) then 1 else 0)"
  shows "divideHalfEven n d = Inr (if (n < 0) \<noteq> (d < 0) then - h else h)"
proof -
  have "0 \<le> \<bar>n\<bar> div \<bar>d\<bar>" using assms(1) by (simp add: pos_imp_zdiv_nonneg_iff)
  then have "\<bar>n\<bar> div \<bar>d\<bar> smod 2 = 1 \<longleftrightarrow> odd (\<bar>n\<bar> div \<bar>d\<bar>)" by (rule odd_iff_mod_1)
  then show ?thesis
    unfolding divideHalfEven_def Let_def if_neg_abs abs_sdiv h_def
    using assms(1) by (simp add: abs_smod) (simp add: sdiv_signed)
qed

lemma divideHalfEven_half_even:
  assumes "d \<noteq> 0"
  shows "\<exists>q. divideHalfEven n d = Inr q \<and> half_even n d q"
proof -
  have "half_even \<bar>n\<bar> \<bar>d\<bar> (\<bar>n\<bar> div \<bar>d\<bar> +
    (if 2 * (\<bar>n\<bar> mod \<bar>d\<bar>) > \<bar>d\<bar> \<or> (2 * (\<bar>n\<bar> mod \<bar>d\<bar>) = \<bar>d\<bar> \<and> odd (\<bar>n\<bar> div \<bar>d\<bar>)) then 1 else 0))"
    (is "half_even _ _ ?h")
    using assms by (intro half_even_pos) auto
  then have "half_even n d (if (n < 0) \<noteq> (d < 0) then - ?h else ?h)"
    by (rule half_even_signed)
  then show ?thesis using divideHalfEven_sign [OF assms] by blast
qed

lemma divideHalfEven_Inr: "divideHalfEven n d = Inr q \<longleftrightarrow> d \<noteq> 0 \<and> half_even n d q"
proof
  assume q: "divideHalfEven n d = Inr q"
  then have "d \<noteq> 0" by (auto simp: divideHalfEven_def)
  then show "d \<noteq> 0 \<and> half_even n d q" using divideHalfEven_half_even [of d n] q by auto
next
  assume "d \<noteq> 0 \<and> half_even n d q"
  then show "divideHalfEven n d = Inr q"
    using divideHalfEven_half_even [of d n] half_even_unique by blast
qed

lemma half_even_mono:
  assumes "0 < d" and "n \<le> n'" and "half_even n d q" and "half_even n' d q'"
  shows "q \<le> q'"
proof (cases "n = n'")
  case True
  then have "q = q'" using half_even_unique [of d n q q'] assms by simp
  then show ?thesis by simp
next
  case False
  have "2 * \<bar>n - q * d\<bar> \<le> d" "2 * \<bar>n' - q' * d\<bar> \<le> d"
    using assms by (simp_all add: half_even_def)
  then have "2 * (n - q * d) \<ge> - d" "2 * (n' - q' * d) \<le> d"
    using abs_ge_minus_self [of "n - q * d"] abs_ge_self [of "n' - q' * d"] by simp_all
  then have "(q - q') * d < 1 * d" using False assms(2) by (simp add: algebra_simps)
  then show ?thesis using assms(1) by (simp add: mult_less_cancel_right)
qed

lemma half_even_near:
  assumes "d \<noteq> 0" and "half_even n d q"
  shows "\<bar>rat_of_int q - of_int n / of_int d\<bar> \<le> 1 / 2"
proof -
  have "2 * \<bar>rat_of_int n - of_int q * of_int d\<bar> \<le> \<bar>of_int d\<bar>"
    using assms(2) unfolding half_even_def
    by (metis (mono_tags, opaque_lifting) of_int_abs of_int_diff of_int_le_iff of_int_mult of_int_numeral)
  moreover have "rat_of_int n - of_int q * of_int d = - (of_int q - of_int n / of_int d) * of_int d"
    using assms(1) by (simp add: field_simps)
  ultimately have "(2 * \<bar>rat_of_int q - of_int n / of_int d\<bar>) * \<bar>of_int d\<bar> \<le> 1 * \<bar>of_int d\<bar>"
    by (simp only: abs_mult abs_minus_cancel mult.assoc mult_1)
  then show ?thesis using assms(1) by (simp add: mult_le_cancel_right)
qed

section \<open>The contract of a rounding division\<close>

text \<open>What the callers of \<^verbatim>\<open>divideHalfEven\<close> rely on, whatever the tie rule.\<close>

locale rounding_division =
  fixes rd :: "int \<Rightarrow> int \<Rightarrow> hr_error + int"
  assumes total: "d \<noteq> 0 \<Longrightarrow> \<exists>q. rd n d = Inr q"
    and near: "rd n d = Inr q \<Longrightarrow> 2 * \<bar>n - q * d\<bar> \<le> \<bar>d\<bar>"
    and mono: "0 < d \<Longrightarrow> n \<le> n' \<Longrightarrow> rd n d = Inr q \<Longrightarrow> rd n' d = Inr q' \<Longrightarrow> q \<le> q'"
begin

lemma exact:
  assumes "d \<noteq> 0"
  shows "rd (k * d) d = Inr k"
proof -
  obtain q where q: "rd (k * d) d = Inr q" using total assms by blast
  have "2 * (\<bar>k - q\<bar> * \<bar>d\<bar>) \<le> \<bar>d\<bar>"
    using near [OF q] by (simp flip: abs_mult add: left_diff_distrib)
  then have "(2 * \<bar>k - q\<bar>) * \<bar>d\<bar> \<le> 1 * \<bar>d\<bar>" by (simp add: mult.assoc)
  then have "2 * \<bar>k - q\<bar> \<le> 1" using assms by (simp add: mult_le_cancel_right)
  then have "k = q" by presburger
  then show ?thesis using q by simp
qed

lemma upper: "0 < d \<Longrightarrow> n \<le> k * d \<Longrightarrow> rd n d = Inr q \<Longrightarrow> q \<le> k"
  using mono [of d n "k * d" q k] exact [of d k] by simp

lemma lower: "0 < d \<Longrightarrow> k * d \<le> n \<Longrightarrow> rd n d = Inr q \<Longrightarrow> k \<le> q"
  using mono [of d "k * d" n k q] exact [of d k] by simp

lemma nonneg: "0 < d \<Longrightarrow> 0 \<le> n \<Longrightarrow> rd n d = Inr q \<Longrightarrow> 0 \<le> q"
  using lower [of d 0 n q] by simp

lemma share:
  assumes "0 < d" and "0 \<le> a" and "0 \<le> n" and "n \<le> d" and "rd (a * n) d = Inr q"
  shows "0 \<le> q \<and> q \<le> a"
proof -
  have "a * n \<le> a * d" using assms by (simp add: mult_left_mono)
  then show ?thesis using assms upper [of d "a * n" a q] nonneg [of d "a * n" q] by simp
qed

end

interpretation half_even: rounding_division divideHalfEven
proof
  show "d \<noteq> 0 \<Longrightarrow> \<exists>q. divideHalfEven n d = Inr q" for n d
    using divideHalfEven_half_even by blast
  show "divideHalfEven n d = Inr q \<Longrightarrow> 2 * \<bar>n - q * d\<bar> \<le> \<bar>d\<bar>" for n d q
    by (simp add: divideHalfEven_Inr half_even_def)
  show "0 < d \<Longrightarrow> n \<le> n' \<Longrightarrow> divideHalfEven n d = Inr q \<Longrightarrow> divideHalfEven n' d = Inr q' \<Longrightarrow> q \<le> q'"
    for d n n' q q'
    using half_even_mono by (auto simp: divideHalfEven_Inr)
qed

section \<open>Decimal texts\<close>

lemma fixedDecimal_digits:
  fixes c :: int and k :: nat
  defines "digits \<equiv> pad_start (k + 1) CHR ''0'' (show_nat (nat \<bar>c\<bar>))"
  shows "list_all is_digit digits" "k < length digits" "parse_nat digits = nat \<bar>c\<bar>"
    "fixedDecimal c k = (if c < 0 then ''-'' else []) @ take (length digits - k) digits @
       (if k = 0 then [] else CHR ''.'' # drop (length digits - k) digits)"
proof -
  show "list_all is_digit digits"
    unfolding digits_def by (rule pad_start_digits) (simp add: list_all_iff)
  show "k < length digits" by (simp add: digits_def length_pad_start)
  show "parse_nat digits = nat \<bar>c\<bar>" by (simp add: digits_def)
  show "fixedDecimal c k = (if c < 0 then ''-'' else []) @ take (length digits - k) digits @
       (if k = 0 then [] else CHR ''.'' # drop (length digits - k) digits)"
    by (simp add: fixedDecimal_def Let_def if_neg_abs digits_def)
qed

lemma split_sign_digit: "s \<noteq> [] \<Longrightarrow> list_all is_digit s \<Longrightarrow> split_sign (s @ t) = (False, s @ t)"
  by (cases s) (auto simp: split_sign_def)

lemma match_decimal_plain:
  assumes "list_all is_digit w" "w \<noteq> []" "list_all is_digit f" and "f = [] \<Longrightarrow> dot = []" "f \<noteq> [] \<Longrightarrow> dot = ''.''"
  shows "match_decimal ((if neg then ''-'' else []) @ w @ dot @ f) = Some (neg, w, f, 0)"
proof -
  have "split_sign ((if neg then ''-'' else []) @ w @ dot @ f) = (neg, w @ dot @ f)"
    using assms split_sign_digit by (cases neg) (simp_all add: split_sign_def)
  then show ?thesis
    using assms by (cases f) (simp_all add: match_decimal_def match_exponent_def while_simps)
qed

lemma not_space_sign: "\<not> is_space CHR ''-''" "\<not> is_space CHR ''.''"
  by (simp_all add: is_space_def)

lemma decimalParts_fixedDecimal [money_simps]: "decimalParts (Some (fixedDecimal c k)) = Inr (c, k)"
proof -
  define ds where "ds = pad_start (k + 1) CHR ''0'' (show_nat (nat \<bar>c\<bar>))"
  define w f where "w = take (length ds - k) ds" and "f = drop (length ds - k) ds"
  note ds = fixedDecimal_digits [where c = c and k = k, folded ds_def, folded w_def f_def]
  have wf: "ds = w @ f" and lf: "length f = k" and "w \<noteq> []"
    using ds(2) by (auto simp: w_def f_def)
  have dig: "list_all is_digit w" "list_all is_digit f" using ds(1) wf by simp_all
  define dot where "dot = (if k = 0 then [] else ''.'')"
  have lit: "fixedDecimal c k = (if c < 0 then ''-'' else []) @ w @ dot @ f"
    using ds(4) lf by (auto simp: dot_def)
  have "match_decimal (fixedDecimal c k) = Some (c < 0, w, f, 0)"
    unfolding lit by (rule match_decimal_plain) (use dig \<open>w \<noteq> []\<close> lf in \<open>auto simp: dot_def\<close>)
  moreover have "list_all (\<lambda>x. \<not> is_space x) (fixedDecimal c k)"
    unfolding lit using dig by (auto simp: list_all_iff is_digit_not_space not_space_sign dot_def split: if_splits)
  then have "js_trim (fixedDecimal c k) = fixedDecimal c k" by (rule js_trim_id)
  moreover have "fixedDecimal c k \<noteq> []" using lit \<open>w \<noteq> []\<close> by simp
  ultimately show ?thesis
    using ds(3) wf lf by (auto simp: decimalParts_def)
qed

lemma assertMinor_BigInt [simp]: "assertMinor (JBigInt n) = Inr n"
  by (simp add: assertMinor_def)

lemma exponentOf_bound: "exponentOf cur = Inr e \<Longrightarrow> e \<le> 3"
  by (auto simp: exponentOf_def CURRENCY_EXPONENT_def split: option.splits if_splits)

lemma rescale_self [simp]: "rescale c k k = Inr c"
  by (simp add: rescale_def)

lemma rescale_up: "j \<le> k \<Longrightarrow> rescale c j k = Inr (c * 10 ^ (k - j))"
  by (auto simp: rescale_def)

lemma rescale_down_exact: "j \<le> k \<Longrightarrow> rescale (c * 10 ^ (k - j)) k j = Inr c"
  using half_even.exact [of "10 ^ (k - j)" c] by (auto simp: rescale_def)

lemma rescale_near:
  "\<exists>m. rescale c j k = Inr m \<and> \<bar>of_int m - dec_value (c, j) * 10 ^ k\<bar> \<le> 1 / 2"
proof (cases "j \<le> k")
  case True
  then have "(10::rat) ^ k = 10 ^ (k - j) * 10 ^ j" by (simp flip: power_add)
  then show ?thesis using True by (simp add: rescale_up dec_value_def)
next
  case False
  then obtain m where m: "divideHalfEven c (10 ^ (j - k)) = Inr m" "half_even c (10 ^ (j - k)) m"
    using divideHalfEven_half_even [of "10 ^ (j - k)" c] by auto
  have "(10::rat) ^ j = 10 ^ (j - k) * 10 ^ k" using False by (simp flip: power_add)
  then have "dec_value (c, j) * 10 ^ k = of_int c / of_int (10 ^ (j - k))"
    by (simp add: dec_value_def)
  then show ?thesis using m False half_even_near [OF _ m(2)] by (auto simp: rescale_def)
qed

lemma serializePayrollMoney_safe: "json_safe (serializePayrollMoney toFixed v)"
  by (induction toFixed v rule: serializePayrollMoney.induct) (auto simp: list_all_iff)

lemma length_show_nat: "0 < k \<Longrightarrow> length (show_nat n) \<le> k \<longleftrightarrow> n < 10 ^ k"
proof (induction k arbitrary: n)
  case (Suc k)
  show ?case
  proof (cases "n < 10")
    case True
    have "(10::nat) \<le> 10 ^ Suc k" by simp
    with True have "n < 10 ^ Suc k" by linarith
    then show ?thesis using True by (subst show_nat.simps) simp
  next
    case False
    then have "length (show_nat n) = Suc (length (show_nat (n div 10)))"
      by (subst show_nat.simps) simp
    moreover have "0 < length (show_nat (n div 10))" by simp
    moreover have "n div 10 < 10 ^ k \<longleftrightarrow> n < 10 ^ Suc k"
      by (simp add: less_mult_imp_div_less div_less_iff_less_mult mult.commute)
    ultimately show ?thesis using Suc.IH [of "n div 10"] False by (cases k) auto
  qed
qed simp

lemma sum_first: "0 \<le> r \<Longrightarrow> sum_list (map (\<lambda>i. if int i < r then 1 else (0::int)) [0..<k]) = min r (int k)"
  by (induction k) auto

lemma dec_value_rescale_up:
  assumes "j \<le> k" and "rescale a j k = Inr x"
  shows "dec_value (a, j) = of_int x / 10 ^ k"
proof -
  have p: "(10::rat) ^ k = 10 ^ (k - j) * 10 ^ j" using assms(1) by (simp flip: power_add)
  have "x = a * 10 ^ (k - j)" using assms by (simp add: rescale_up)
  then show ?thesis by (simp add: dec_value_def p)
qed

lemma rescale_compare:
  assumes "rescale a j (max j k) = Inr x" and "rescale b k (max j k) = Inr y"
  shows "x < y \<longleftrightarrow> dec_value (a, j) < dec_value (b, k)" "y < x \<longleftrightarrow> dec_value (b, k) < dec_value (a, j)"
  using dec_value_rescale_up [OF _ assms(1)] dec_value_rescale_up [OF _ assms(2)]
  by (simp_all add: divide_less_cancel)

lemma compareDecimal_value:
  assumes "decimalParts a = Inr p" and "decimalParts b = Inr q"
  shows "compareDecimal a b =
    Inr (if dec_value p < dec_value q then - 1 else if dec_value q < dec_value p then 1 else 0)"
proof -
  obtain c j d k where pq: "p = (c, j)" "q = (d, k)" by (cases p, cases q)
  obtain x y where "rescale c j (max j k) = Inr x" "rescale d k (max j k) = Inr y"
    by (simp add: rescale_up)
  then show ?thesis
    using assms pq rescale_compare [of c j k x d y] by (simp add: compareDecimal_def Let_def)
qed

lemma compareDecimal_Inr:
  "compareDecimal a b = Inr n \<longleftrightarrow> (\<exists>p q. decimalParts a = Inr p \<and> decimalParts b = Inr q \<and>
    n = (if dec_value p < dec_value q then - 1 else if dec_value q < dec_value p then 1 else 0))"
proof
  assume n: "compareDecimal a b = Inr n"
  then obtain p q where "decimalParts a = Inr p" "decimalParts b = Inr q"
    by (auto simp: compareDecimal_def result_simps)
  then show "\<exists>p q. decimalParts a = Inr p \<and> decimalParts b = Inr q \<and>
      n = (if dec_value p < dec_value q then - 1 else if dec_value q < dec_value p then 1 else 0)"
    using compareDecimal_value n by auto
qed (auto simp: compareDecimal_value)

text \<open>Evaluation of the text functions on literals.\<close>

lemmas decimal_eval = decimalToPersistence_def decimalParts_def match_decimal_def js_trim_def
  is_space_def split_sign_def is_digit_def match_exponent_def parse_nat_def digit_val_def
  rescale_def DECIMAL_SCALE_def divideHalfEven_def Let_def show_int_def
  show_nat.simps [of 0] show_nat.simps [of 1] show_nat.simps [of "numeral w" for w]
  fixedDecimal_def pad_start_def digit_char_def char_of_def

section \<open>Properties\<close>

text \<open>C1. Division of minor units rounds half to even: it returns \<open>q\<close> exactly when the divisor is
  not zero, \<open>q\<close> is a nearest integer to the quotient, and \<open>q\<close> is even on a tie. So a result exists, is
  unique, and the only error is a zero divisor.\<close>

theorem divideHalfEven_correct:
  "divideHalfEven n d = Inr q \<longleftrightarrow>
     d \<noteq> 0 \<and> 2 * \<bar>n - q * d\<bar> \<le> \<bar>d\<bar> \<and> (2 * \<bar>n - q * d\<bar> = \<bar>d\<bar> \<longrightarrow> even q)"
  by (simp add: divideHalfEven_Inr half_even_def)

theorem divideHalfEven_correct_witness:
  "divideHalfEven (- 5) 2 = Inr (- 2) \<and> divideHalfEven 7 2 = Inr 4 \<and> divideHalfEven 7 2 \<noteq> Inr 3"
  using divideHalfEven_correct [of "- 5" 2 "- 2"] divideHalfEven_correct [of 7 2 4]
    divideHalfEven_correct [of 7 2 3] by simp

text \<open>An amount of minor units survives the trip through its database text and through its wire
  text: reading either text back in the same supported currency gives the amount.\<close>

theorem minor_text_roundtrip:
  assumes "exponentOf cur = Inr e"
  shows "\<exists>t w. minorToDecimal (JBigInt m) cur = Inr t \<and> decimalToMinor (Some t) cur = Inr m \<and>
    minorToWireDecimal (JBigInt m) cur = Inr w \<and> decimalToMinor (Some w) cur = Inr m"
proof -
  have e: "e \<le> DECIMAL_SCALE" using exponentOf_bound [OF assms] by (simp add: DECIMAL_SCALE_def)
  then have "rescale (m * 10 ^ (DECIMAL_SCALE - e)) DECIMAL_SCALE e = Inr m" by (rule rescale_down_exact)
  then show ?thesis
    using assms e by (simp add: minorToDecimal_def minorToWireDecimal_def decimalToMinor_def money_simps)
qed

theorem minor_text_roundtrip_witness:
  "\<exists>t w. minorToDecimal (JBigInt (- 1250)) (Some ''kwd'') = Inr t \<and>
    decimalToMinor (Some t) (Some ''kwd'') = Inr (- 1250) \<and>
    minorToWireDecimal (JBigInt (- 1250)) (Some ''kwd'') = Inr w \<and>
    decimalToMinor (Some w) (Some ''kwd'') = Inr (- 1250)"
proof -
  have "exponentOf (Some ''kwd'') = Inr 3" by code_simp
  then show ?thesis by (rule minor_text_roundtrip)
qed

text \<open>Reading a decimal text as minor units is correct to half a minor unit, and multiplying an
  amount by a decimal rate is correct to half a minor unit of the exact product.\<close>

theorem money_rounding_error:
  assumes "decimalParts v = Inr p" and "exponentOf cur = Inr e"
  shows "\<exists>m r. decimalToMinor v cur = Inr m \<and> \<bar>of_int m - dec_value p * 10 ^ e\<bar> \<le> 1 / 2 \<and>
    mulRate (JBigInt a) v = Inr r \<and> \<bar>of_int r - of_int a * dec_value p\<bar> \<le> 1 / 2"
proof -
  obtain c k where p: "p = (c, k)" by (cases p)
  obtain m where "rescale c k e = Inr m" "\<bar>of_int m - dec_value (c, k) * 10 ^ e\<bar> \<le> 1 / 2"
    using rescale_near by blast
  moreover obtain r where "divideHalfEven (a * c) (10 ^ k) = Inr r" "half_even (a * c) (10 ^ k) r"
    using divideHalfEven_half_even [of "10 ^ k" "a * c"] by auto
  moreover from this have "\<bar>rat_of_int r - of_int a * dec_value (c, k)\<bar> \<le> 1 / 2"
    using half_even_near [of "10 ^ k" "a * c" r] by (simp add: dec_value_def)
  ultimately show ?thesis using assms p by (simp add: decimalToMinor_def mulRate_def)
qed

theorem money_rounding_error_witness:
  "\<exists>m r. decimalToMinor (Some ''12.345'') (Some ''USD'') = Inr m \<and>
    \<bar>of_int m - dec_value (12345, 3) * 10 ^ 2\<bar> \<le> 1 / 2 \<and>
    mulRate (JBigInt 1001) (Some ''12.345'') = Inr r \<and>
    \<bar>of_int r - of_int 1001 * dec_value (12345, 3)\<bar> \<le> 1 / 2"
proof -
  have "decimalParts (Some ''12.345'') = Inr (12345, 3)" "exponentOf (Some ''USD'') = Inr 2"
    by code_simp+
  then show ?thesis by (rule money_rounding_error)
qed

text \<open>\<^verbatim>\<open>compareDecimal\<close> orders two readable decimal texts as the rational numbers they name, whatever
  their scales and exponents.\<close>

theorem compareDecimal_order:
  assumes "decimalParts a = Inr p" and "decimalParts b = Inr q"
  shows "compareDecimal a b =
    Inr (if dec_value p < dec_value q then - 1 else if dec_value q < dec_value p then 1 else 0)"
  by (rule compareDecimal_value [OF assms])

theorem compareDecimal_order_witness:
  "compareDecimal (Some ''1.5e1'') (Some ''+15.000'') = Inr 0"
proof -
  have "decimalParts (Some ''1.5e1'') = Inr (15, 0)" "decimalParts (Some ''+15.000'') = Inr (15000, 3)"
    by code_simp+
  from compareDecimal_order [OF this] show ?thesis by (simp add: dec_value_def)
qed

text \<open>What is written to a \<^verbatim>\<open>Decimal(18,4)\<close> column fits it and is canonical: the text has four
  decimals, its coefficient has at most eighteen digits, and persisting it again changes nothing.\<close>

theorem decimalToPersistence_canonical:
  assumes "decimalToPersistence v = Inr t"
  shows "decimalToPersistence (Some t) = Inr t \<and>
    (\<exists>c. decimalParts (Some t) = Inr (c, 4) \<and> \<bar>c\<bar> < 10 ^ 18)"
proof -
  obtain c where t: "t = fixedDecimal c 4" and len: "length (show_int \<bar>c\<bar>) \<le> 18"
    using assms
    by (auto simp: decimalToPersistence_def result_simps Let_def if_neg_abs DECIMAL_SCALE_def split: if_splits)
  have "nat \<bar>c\<bar> < 10 ^ 18" using len length_show_nat [of 18 "nat \<bar>c\<bar>"] by (simp add: show_int_def)
  then have "\<bar>c\<bar> < 10 ^ 18" by (simp add: nat_less_iff)
  then show ?thesis
    using t len by (simp add: decimalToPersistence_def DECIMAL_SCALE_def Let_def if_neg_abs money_simps)
qed

theorem decimalToPersistence_canonical_witness:
  "decimalToPersistence (Some ''0.2345'') = Inr ''0.2345'' \<and>
    (\<exists>c. decimalParts (Some ''0.2345'') = Inr (c, 4) \<and> \<bar>c\<bar> < 10 ^ 18)"
proof -
  have "decimalToPersistence (Some ''0.23445001'') = Inr ''0.2345''"
    by (simp add: decimal_eval bit_0)
  then show ?thesis by (rule decimalToPersistence_canonical)
qed

text \<open>Splitting an amount into \<open>n > 0\<close> parts loses nothing and is as even as possible: there are
  \<open>n\<close> parts, they add up to the amount, and any two of them differ by at most one minor unit.\<close>

theorem allocateEvenly_fair:
  assumes "0 < n"
  shows "\<exists>ps. allocateEvenly (JBigInt m) (of_nat n) = Inr ps \<and> length ps = n \<and> sum_list ps = m \<and>
    (\<forall>x \<in> set ps. \<forall>y \<in> set ps. \<bar>x - y\<bar> \<le> 1)"
proof -
  define s where "s = (if m < 0 then - 1 else 1 :: int)"
  define b r where "b = \<bar>m\<bar> div int n" and "r = \<bar>m\<bar> mod int n"
  define ps where "ps = map (\<lambda>i. s * (b + (if int i < r then 1 else 0))) [0..<n]"
  have int: "js_isInteger (rat_of_nat n)" using js_isInteger_of_int [of "int n"] by simp
  have r: "0 \<le> r" "r < int n" using assms by (simp_all add: r_def)
  have ok: "allocateEvenly (JBigInt m) (of_nat n) = Inr ps"
    using assms int by (simp add: allocateEvenly_def Let_def if_neg_abs ps_def s_def b_def r_def)
  have "sum_list ps = s * (int n * b + r)"
    using r by (simp add: ps_def sum_list_const_mult sum_list_addf sum_first sum_list_triv)
  also have "int n * b + r = \<bar>m\<bar>" by (simp add: b_def r_def)
  finally have "sum_list ps = m" by (simp add: s_def)
  moreover have "\<forall>x \<in> set ps. \<forall>y \<in> set ps. \<bar>x - y\<bar> \<le> 1" by (auto simp: ps_def s_def)
  ultimately show ?thesis using ok by (simp add: ps_def)
qed

theorem allocateEvenly_fair_witness:
  "\<exists>ps. allocateEvenly (JBigInt (- 1000)) (of_nat 3) = Inr ps \<and> length ps = 3 \<and> sum_list ps = - 1000 \<and>
    (\<forall>x \<in> set ps. \<forall>y \<in> set ps. \<bar>x - y\<bar> \<le> 1)"
  by (rule allocateEvenly_fair) simp

end
