(* ===== verification/Proration.thy ===== *)
theory Proration
  imports Money
begin

text \<open>
  Civil dates, the payroll month and the share of a payroll period an employee is paid for:
  \<^verbatim>\<open>src/src/lib/monthlyPayrollAttendance.js\<close>, \<^verbatim>\<open>src/src/services/payrollCycleDates.js\<close> and
  \<^verbatim>\<open>computeProrationFactor\<close>, \<^verbatim>\<open>applyProration\<close> of \<^verbatim>\<open>src/src/services/payrollService.js\<close>. Instants are UTC
  milliseconds. Where the code truncates an instant to midnight and counts in steps of a day, the
  model counts day numbers.
\<close>

section \<open>Civil dates\<close>

text \<open>
  The proleptic Gregorian calendar behind \<^verbatim>\<open>Date.UTC\<close> and the \<^verbatim>\<open>getUTC\<close> accessors: day number to year,
  month, day and back, with years starting in March so that the leap day comes last.
\<close>

definition civil_of_mp :: "int \<Rightarrow> int \<Rightarrow> int \<Rightarrow> int \<times> int \<times> int" where
  "civil_of_mp y doy mp =
    (if mp < 10 then y else y + 1, if mp < 10 then mp + 3 else mp - 9, doy - (153 * mp + 2) div 5 + 1)"

definition civil_of_doy :: "int \<Rightarrow> int \<Rightarrow> int \<times> int \<times> int" where
  "civil_of_doy y doy = civil_of_mp y doy ((5 * doy + 2) div 153)"

definition civil_of_yoe :: "int \<Rightarrow> int \<Rightarrow> int \<Rightarrow> int \<times> int \<times> int" where
  "civil_of_yoe era doe yoe = civil_of_doy (yoe + era * 400) (doe - (365 * yoe + yoe div 4 - yoe div 100))"

definition civil_of_doe :: "int \<Rightarrow> int \<Rightarrow> int \<times> int \<times> int" where
  "civil_of_doe era doe =
    civil_of_yoe era doe ((doe - doe div 1460 + doe div 36524 - doe div 146096) div 365)"

definition civil_from_days :: "int \<Rightarrow> int \<times> int \<times> int" where
  "civil_from_days n = civil_of_doe ((n + 719468) div 146097) ((n + 719468) mod 146097)"

lemmas civil_eval = civil_from_days_def civil_of_doe_def civil_of_yoe_def civil_of_doy_def civil_of_mp_def

definition days_from_civil :: "int \<Rightarrow> int \<Rightarrow> int \<Rightarrow> int" where
  "days_from_civil y m d =
    (let y' = (if m \<le> 2 then y - 1 else y);
         era = y' div 400;
         yoe = y' mod 400;
         doy = (153 * (if m > 2 then m - 3 else m + 9) + 2) div 5 + d - 1;
         doe = yoe * 365 + yoe div 4 - yoe div 100 + doy
     in era * 146097 + doe - 719468)"

definition civil :: "int \<Rightarrow> int \<times> int \<times> int" where
  "civil ms = civil_from_days (keyDate ms)"

section \<open>The payroll month\<close>

definition parse_month :: "string \<Rightarrow> (int \<times> int) option" where
  "parse_month s =
    (if length s = 7 \<and> list_all is_digit (take 4 s) \<and> s ! 4 = CHR ''-'' \<and> list_all is_digit (drop 5 s)
     then Some (int (parse_nat (take 4 s)), int (parse_nat (drop 5 s))) else None)"

definition month_key :: "int \<Rightarrow> string" where
  "month_key ms = (case civil ms of (y, m, d) \<Rightarrow>
     pad_start 4 CHR ''0'' (show_nat (nat y)) @ ''-'' @ pad_start 2 CHR ''0'' (show_nat (nat m)))"

record month_calendar =
  mc_start :: int
  mc_end :: int
  mc_days :: int

definition payrollMonth :: "string option \<Rightarrow> hr_error + month_calendar" where
  "payrollMonth month =
    (case parse_month (case month of None \<Rightarrow> [] | Some s \<Rightarrow> s) of
       None \<Rightarrow> Inl (AppError 400 ''Use YYYY-MM for the payroll month'')
     | Some (y, m) \<Rightarrow>
         if m < 1 \<or> m > 12 then Inl (AppError 400 ''Use YYYY-MM for the payroll month'')
         else if y < 1900 then Inl (AppError 400 ''Invalid payroll year'')
         else
           let start = days_from_civil y m 1;
               next = (if m = 12 then days_from_civil (y + 1) 1 1 else days_from_civil y (m + 1) 1);
               end = next * day_ms - 1
           in Inr \<lparr>mc_start = start * day_ms, mc_end = end, mc_days = snd (snd (civil end))\<rparr>)"

definition validatePayableDays :: "string option \<Rightarrow> js_number option \<Rightarrow> hr_error + rat" where
  "validatePayableDays month value =
    rbind (payrollMonth month) (\<lambda>c.
      case value of
        Some (Finite x) \<Rightarrow>
          if x < 0 \<or> x > of_int (mc_days c) \<or> \<not> js_isInteger (x * 2)
          then Inl (AppError 400 ''Payable days out of range'') else Inr x
      | _ \<Rightarrow> Inl (AppError 400 ''Payable days out of range''))"

record manual_input =
  mi_month :: string
  mi_payableDays :: "js_number option"

definition isManualMonthlyEmployee :: "string option \<Rightarrow> bool" where
  "isManualMonthlyEmployee attendanceInputMode \<longleftrightarrow> attendanceInputMode = Some ''MANUAL_MONTHLY''"

definition manualAttendanceFactor ::
  "string option \<Rightarrow> int \<Rightarrow> int \<Rightarrow> manual_input option \<Rightarrow> int \<Rightarrow> hr_error + int" where
  "manualAttendanceFactor mode periodStart periodEnd input employmentFactor =
    (if \<not> isManualMonthlyEmployee mode then Inr employmentFactor
     else
       let month = month_key periodStart in
       rbind (payrollMonth (Some month)) (\<lambda>calendar.
         if civil periodStart \<noteq> civil (mc_start calendar) \<or> civil periodEnd \<noteq> civil (mc_end calendar)
         then Inl (AppError 400 ''Manual monthly attendance requires a full calendar-month payroll'')
         else
           case input of
             None \<Rightarrow> Inl (AppError 409 ''MONTHLY_ATTENDANCE_REQUIRED'')
           | Some i \<Rightarrow>
               if mi_month i \<noteq> month then Inl (AppError 400 ''Monthly payable days are missing'')
               else rbind (validatePayableDays (Some month) (mi_payableDays i)) (\<lambda>days.
                 if days > of_int employmentFactor * of_int (mc_days calendar) / 1000000 + 1 / 10000
                 then Inl (AppError 400 ''Payable days exceed employment days'')
                 else Inr (js_round (days / of_int (mc_days calendar) * 1000000)))))"

definition PKT_OFFSET_MS :: int where
  "PKT_OFFSET_MS = 5 * 60 * 60 * 1000"

definition daysInMonth :: "int \<Rightarrow> int \<Rightarrow> int" where
  "daysInMonth year month1 =
    snd (snd (civil_from_days
      ((if month1 = 12 then days_from_civil (year + 1) 1 1 else days_from_civil year (month1 + 1) 1) - 1)))"

text \<open>A stored \<^verbatim>\<open>Date\<close> is valid here; the month text is matched but its month number is not
  checked. Years below 100, which \<^verbatim>\<open>Date.UTC\<close> moves to the twentieth century, are not covered.\<close>

definition cycleInstantForMonth :: "int option \<Rightarrow> string \<Rightarrow> int option" where
  "cycleInstantForMonth stored month =
    (case (stored, parse_month month) of
       (Some stamp, Some (year, mon)) \<Rightarrow>
         let wall = stamp + PKT_OFFSET_MS;
             monthAfter = mon + 1;
             targetYear = year + (monthAfter - 1) div 12;
             targetMonth = (monthAfter - 1) mod 12 + 1;
             day = min (snd (snd (civil wall))) (daysInMonth targetYear targetMonth);
             local = days_from_civil targetYear targetMonth day * day_ms + wall mod day_ms
         in Some (local - PKT_OFFSET_MS)
     | _ \<Rightarrow> None)"

section \<open>Proration\<close>

record employment_period =
  ep_startDate :: "int option"
  ep_endDate :: "int option"

datatype hire_arg = Periods "employment_period option list" | HireDate "int option" "int option"

definition hire_periods :: "hire_arg \<Rightarrow> employment_period option list" where
  "hire_periods h = (case h of
     Periods ps \<Rightarrow> ps
   | HireDate hire term \<Rightarrow> [Some \<lparr>ep_startDate = hire, ep_endDate = term\<rparr>])"

definition clip_span :: "int \<Rightarrow> int \<Rightarrow> employment_period \<Rightarrow> int \<times> int" where
  "clip_span pStart pEnd p =
    ((case ep_startDate p of None \<Rightarrow> pStart | Some s \<Rightarrow> max pStart (keyDate s)),
     (case ep_endDate p of None \<Rightarrow> pEnd | Some e \<Rightarrow> min pEnd (keyDate e)))"

fun merge_spans :: "int \<times> int \<Rightarrow> (int \<times> int) list \<Rightarrow> (int \<times> int) list" where
  "merge_spans cur [] = [cur]"
| "merge_spans (s0, e0) ((s, e) # rest) =
     (if s \<le> e0 + 1 then merge_spans (s0, max e0 e) rest else (s0, e0) # merge_spans (s, e) rest)"

definition span_days :: "(int \<times> int) list \<Rightarrow> int" where
  "span_days spans = sum_list (map (\<lambda>p. snd p - fst p + 1) spans)"

definition computeProrationFactor :: "int \<Rightarrow> int \<Rightarrow> hire_arg \<Rightarrow> int" where
  "computeProrationFactor periodStart periodEnd hireDateOrPeriods =
    (let pStart = keyDate periodStart; pEnd = keyDate periodEnd in
     if pEnd < pStart then 1000000
     else
       let totalDays = max 1 (pEnd - pStart + 1);
           periods = hire_periods hireDateOrPeriods
       in if periods = [] then 1000000
          else
            let spans = filter (\<lambda>p. snd p \<ge> fst p)
                  (map (clip_span pStart pEnd) (map the (filter (\<lambda>p. p \<noteq> None) periods)))
            in case sort_key fst spans of
                 [] \<Rightarrow> 0
               | first # rest \<Rightarrow>
                   let activeDays = span_days (merge_spans first rest) in
                   if activeDays \<ge> totalDays then 1000000
                   else js_round (of_int activeDays / of_int totalDays * 1000000))"

definition applyProration :: "int \<Rightarrow> int \<Rightarrow> int" where
  "applyProration amountMinor factor =
    (if factor \<ge> 1000000 then amountMinor else (amountMinor * factor) sdiv 1000000)"

section \<open>Merging counts each day once\<close>

lemma merge_spans_card:
  assumes "fst first \<le> snd first" and "\<forall>p \<in> set rest. fst first \<le> fst p \<and> fst p \<le> snd p"
    and "sorted (map fst rest)"
  shows "span_days (merge_spans first rest) = int (card (\<Union>p \<in> set (first # rest). {fst p..snd p}))"
  using assms
proof (induction first rest rule: merge_spans.induct)
  case (1 cur)
  then show ?case by (simp add: span_days_def)
next
  case (2 s0 e0 s e rest)
  show ?case
  proof (cases "s \<le> e0 + 1")
    case True
    have "{s0..e0} \<union> {s..e} = {s0..max e0 e}" using 2 True by auto
    then have "(\<Union>p \<in> set ((s0, e0) # (s, e) # rest). {fst p..snd p}) =
        (\<Union>p \<in> set ((s0, max e0 e) # rest). {fst p..snd p})" by auto
    then show ?thesis using 2 True by simp
  next
    case False
    let ?U = "\<Union>p \<in> set ((s, e) # rest). {fst p..snd p}"
    have "\<forall>p \<in> set rest. s \<le> fst p" using 2 by (auto simp: sorted_wrt_map)
    then have "{s0..e0} \<inter> ?U = {}" using False by force
    moreover have "finite ?U" by simp
    ultimately have "card ({s0..e0} \<union> ?U) = card {s0..e0} + card ?U" by (simp add: card_Un_disjoint)
    moreover have "span_days (merge_spans (s, e) rest) = int (card ?U)"
      using 2 False by (auto simp: sorted_wrt_map)
    ultimately show ?thesis using 2 False by (simp add: span_days_def)
  qed
qed

section \<open>Properties\<close>

text \<open>The days of the run on which some period on file employs the person.\<close>

definition employed_on :: "employment_period option list \<Rightarrow> int \<Rightarrow> bool" where
  "employed_on periods d \<longleftrightarrow>
    list_ex (\<lambda>p. case p of None \<Rightarrow> False | Some q \<Rightarrow>
      (case ep_startDate q of None \<Rightarrow> True | Some s \<Rightarrow> keyDate s \<le> d) \<and>
      (case ep_endDate q of None \<Rightarrow> True | Some e \<Rightarrow> d \<le> keyDate e)) periods"

definition employed_days :: "int \<Rightarrow> int \<Rightarrow> employment_period option list \<Rightarrow> int" where
  "employed_days pStart pEnd periods = int (card {d \<in> {pStart..pEnd}. employed_on periods d})"

definition valid_spans :: "int \<Rightarrow> int \<Rightarrow> employment_period option list \<Rightarrow> (int \<times> int) list" where
  "valid_spans pStart pEnd periods = filter (\<lambda>p. snd p \<ge> fst p)
     (map (clip_span pStart pEnd) (map the (filter (\<lambda>p. p \<noteq> None) periods)))"

lemma clip_span_days:
  "{fst (clip_span a b p)..snd (clip_span a b p)} = {d \<in> {a..b}. employed_on [Some p] d}"
  by (auto simp: clip_span_def employed_on_def split: option.splits)

lemma valid_spans_days:
  "(\<Union>p \<in> set (valid_spans a b periods). {fst p..snd p}) = {d \<in> {a..b}. employed_on periods d}"
proof (induction periods)
  case Nil
  then show ?case by (simp add: valid_spans_def employed_on_def)
next
  case (Cons p periods)
  have split: "employed_on (p # periods) d \<longleftrightarrow> employed_on [p] d \<or> employed_on periods d" for d
    by (simp add: employed_on_def)
  show ?case
  proof (cases p)
    case None
    then have "employed_on (p # periods) d \<longleftrightarrow> employed_on periods d" for d
      by (simp add: employed_on_def)
    then show ?thesis using Cons None by (simp add: valid_spans_def)
  next
    case (Some q)
    let ?c = "clip_span a b q"
    have "(\<Union>p \<in> set (valid_spans a b (p # periods)). {fst p..snd p}) =
        {fst ?c..snd ?c} \<union> (\<Union>p \<in> set (valid_spans a b periods). {fst p..snd p})"
      using Some by (auto simp: valid_spans_def)
    also have "\<dots> = {d \<in> {a..b}. employed_on [p] d} \<union> {d \<in> {a..b}. employed_on periods d}"
      using Cons Some by (simp add: clip_span_days)
    finally show ?thesis by (auto simp: split)
  qed
qed

lemma merged_days:
  assumes "sort_key fst (valid_spans a b periods) = first # rest"
  shows "span_days (merge_spans first rest) = employed_days a b periods"
proof -
  have set: "set (first # rest) = set (valid_spans a b periods)"
    unfolding assms [symmetric] by (rule set_sort)
  have sorted: "sorted (map fst (first # rest))"
    unfolding assms [symmetric] by (rule sorted_sort_key)
  have ok: "\<forall>p \<in> set (first # rest). fst p \<le> snd p"
    unfolding set by (simp add: valid_spans_def)
  have "span_days (merge_spans first rest) = int (card (\<Union>p \<in> set (first # rest). {fst p..snd p}))"
    by (rule merge_spans_card) (use ok sorted in auto)
  then show ?thesis unfolding set valid_spans_days by (simp add: employed_days_def)
qed

lemma employed_days_bounds: "0 \<le> employed_days a b ps" "a \<le> b \<Longrightarrow> employed_days a b ps \<le> b - a + 1"
proof -
  show "0 \<le> employed_days a b ps" by (simp add: employed_days_def)
  have "card {d \<in> {a..b}. employed_on ps d} \<le> card {a..b}" by (rule card_mono) auto
  then show "a \<le> b \<Longrightarrow> employed_days a b ps \<le> b - a + 1" by (simp add: employed_days_def)
qed

lemma js_round_million:
  assumes "0 \<le> x" and "x \<le> 1"
  shows "0 \<le> js_round (x * 1000000)" "js_round (x * 1000000) \<le> 1000000"
  using js_round_mono [of 0 "x * 1000000"] js_round_mono [of "x * 1000000" 1000000]
    js_round_of_int [of 0] js_round_of_int [of 1000000] assms by simp_all

lemma js_round_share:
  assumes "0 \<le> n" and "n \<le> t" and "0 < t"
  shows "0 \<le> js_round (of_int n / of_int t * 1000000)" "js_round (of_int n / of_int t * 1000000) \<le> 1000000"
  by (rule js_round_million; use assms in \<open>simp add: divide_le_eq_1\<close>)+

text \<open>The proration factor is the share of the run's calendar days on which the person was employed,
  in millionths and rounded: every employed day counts once however the periods overlap or touch, an
  employee with no period on file is paid in full, and one employed on no day is paid nothing.\<close>

theorem computeProrationFactor_share:
  assumes "keyDate ps \<le> keyDate pe" and "periods \<noteq> []"
  defines "tot \<equiv> keyDate pe - keyDate ps + 1"
    and "n \<equiv> employed_days (keyDate ps) (keyDate pe) periods"
  shows "computeProrationFactor ps pe (Periods periods) =
      (if n = tot then 1000000 else js_round (of_int n / of_int tot * 1000000)) \<and>
    0 \<le> computeProrationFactor ps pe (Periods periods) \<and>
    computeProrationFactor ps pe (Periods periods) \<le> 1000000"
proof -
  let ?spans = "valid_spans (keyDate ps) (keyDate pe) periods"
  have t: "0 < tot" "max 1 tot = tot" using assms(1) by (simp_all add: tot_def)
  have n: "0 \<le> n" "n \<le> tot" unfolding n_def tot_def using employed_days_bounds assms(1) by auto
  have eq: "computeProrationFactor ps pe (Periods periods) =
      (if n = tot then 1000000 else js_round (of_int n / of_int tot * 1000000))"
  proof (cases "sort_key fst ?spans")
    case Nil
    then have "?spans = []" by (metis length_0_conv length_sort)
    then have "n = 0"
      unfolding n_def employed_days_def valid_spans_days [symmetric] by simp
    then show ?thesis
      using Nil assms(1,2) t js_round_of_int [of 0]
      by (simp add: computeProrationFactor_def hire_periods_def Let_def valid_spans_def)
  next
    case (Cons first rest)
    then have "span_days (merge_spans first rest) = n" unfolding n_def by (rule merged_days)
    then show ?thesis
      using Cons assms(1,2) t n
      by (simp add: computeProrationFactor_def hire_periods_def Let_def valid_spans_def tot_def)
  qed
  then show ?thesis using js_round_share [OF n t(1)] by simp
qed

theorem computeProrationFactor_share_witness:
  "computeProrationFactor 0 (30 * day_ms) (Periods
      [Some \<lparr>ep_startDate = Some (10 * day_ms), ep_endDate = None\<rparr>,
       Some \<lparr>ep_startDate = Some (5 * day_ms), ep_endDate = Some (12 * day_ms)\<rparr>]) = 838710 \<and>
   computeProrationFactor 0 (30 * day_ms) (Periods
      [Some \<lparr>ep_startDate = Some (10 * day_ms), ep_endDate = None\<rparr>,
       Some \<lparr>ep_startDate = Some (5 * day_ms), ep_endDate = Some (12 * day_ms)\<rparr>]) \<le> 1000000"
proof -
  let ?ps = "[Some \<lparr>ep_startDate = Some (10 * day_ms), ep_endDate = None\<rparr>,
       Some \<lparr>ep_startDate = Some (5 * day_ms), ep_endDate = Some (12 * day_ms)\<rparr>]"
  have "computeProrationFactor 0 (30 * day_ms) (Periods ?ps) = 838710"
    by (simp add: computeProrationFactor_def hire_periods_def clip_span_def keyDate_def day_ms_def
        span_days_def js_round_def Let_def floor_eq_iff)
  moreover have "computeProrationFactor 0 (30 * day_ms) (Periods ?ps) \<le> 1000000"
    using computeProrationFactor_share [of 0 "30 * day_ms" ?ps] by (simp add: keyDate_def day_ms_def)
  ultimately show ?thesis by simp
qed

text \<open>For an employee whose month is entered by hand the factor is the entered number of payable days
  over the days of the calendar month, which is half-integral and within the month, and never leaves
  the range from nothing to the full month; any other employee keeps the employment factor.\<close>

theorem manualAttendanceFactor_range:
  assumes "manualAttendanceFactor mode ps pe input ef = Inr f"
  shows "if isManualMonthlyEmployee mode
    then 0 \<le> f \<and> f \<le> 1000000 \<and>
      (\<exists>c i x. payrollMonth (Some (month_key ps)) = Inr c \<and> input = Some i \<and> mi_payableDays i = Some (Finite x) \<and>
        half_integral x \<and> 0 \<le> x \<and> x \<le> of_int (mc_days c) \<and>
        x \<le> of_int ef * of_int (mc_days c) / 1000000 + 1 / 10000 \<and>
        f = js_round (x / of_int (mc_days c) * 1000000))
    else f = ef"
proof (cases "isManualMonthlyEmployee mode")
  case True
  obtain c where c: "payrollMonth (Some (month_key ps)) = Inr c"
    using assms True by (cases "payrollMonth (Some (month_key ps))") (simp_all add: manualAttendanceFactor_def Let_def)
  then obtain i where i: "input = Some i" "mi_month i = month_key ps"
    using assms True by (cases input) (auto simp: manualAttendanceFactor_def Let_def split: if_splits)
  obtain x where v: "validatePayableDays (Some (month_key ps)) (mi_payableDays i) = Inr x"
    using assms True c i by (cases "validatePayableDays (Some (month_key ps)) (mi_payableDays i)")
      (auto simp: manualAttendanceFactor_def Let_def split: if_splits)
  then have f: "f = js_round (x / of_int (mc_days c) * 1000000)"
      and limit: "x \<le> of_int ef * of_int (mc_days c) / 1000000 + 1 / 10000"
    using assms True c i by (auto simp: manualAttendanceFactor_def Let_def split: if_splits)
  have x: "mi_payableDays i = Some (Finite x)" "0 \<le> x" "x \<le> of_int (mc_days c)" "half_integral x"
    using v c by (auto simp: validatePayableDays_def half_integral_def split: if_splits option.splits js_number.splits)
  have "0 \<le> x / of_int (mc_days c)" "x / of_int (mc_days c) \<le> 1"
    using x by (auto simp: divide_le_eq_1 zero_le_divide_iff)
  then have "0 \<le> f" "f \<le> 1000000" unfolding f by (rule js_round_million)+
  then show ?thesis using True c i x f limit by auto
next
  case False
  then show ?thesis using assms by (simp add: manualAttendanceFactor_def)
qed

theorem manualAttendanceFactor_range_witness:
  "manualAttendanceFactor (Some ''MANUAL_MONTHLY'') (20606 * day_ms) (20633 * day_ms)
      (Some \<lparr>mi_month = ''2026-06'', mi_payableDays = Some (Finite (15 / 2))\<rparr>) 1000000 =
     Inl (AppError 400 ''Manual monthly attendance requires a full calendar-month payroll'') \<and>
   (\<exists>f. manualAttendanceFactor (Some ''MANUAL_MONTHLY'') (20605 * day_ms) (20634 * day_ms)
      (Some \<lparr>mi_month = ''2026-06'', mi_payableDays = Some (Finite (15 / 2))\<rparr>) 1000000 = Inr f \<and>
      0 \<le> f \<and> f \<le> 1000000)"
proof -
  let ?i = "Some \<lparr>mi_month = ''2026-06'', mi_payableDays = Some (Finite (15 / 2))\<rparr>"
  have civil: "civil (20605 * day_ms) = (2026, 6, 1)" "civil (20634 * day_ms) = (2026, 6, 30)"
    "civil (20606 * day_ms) = (2026, 6, 2)" "civil (20635 * day_ms - 1) = (2026, 6, 30)"
    by (simp_all add: civil_def keyDate_def civil_eval day_ms_def)
  have first: "days_from_civil 2026 6 1 = 20605" "days_from_civil 2026 7 1 = 20635"
    by (simp_all add: days_from_civil_def)
  have key: "month_key (20605 * day_ms) = ''2026-06''" "month_key (20606 * day_ms) = ''2026-06''"
    by (simp_all add: month_key_def civil decimal_eval bit_0)
  have "parse_month ''2026-06'' = Some (2026, 6)"
    by (simp add: parse_month_def is_digit_def parse_nat_def digit_val_def)
  then have month: "payrollMonth (Some ''2026-06'') =
      Inr \<lparr>mc_start = 20605 * day_ms, mc_end = 20635 * day_ms - 1, mc_days = 30\<rparr>"
    by (simp add: payrollMonth_def first civil Let_def)
  have "manualAttendanceFactor (Some ''MANUAL_MONTHLY'') (20606 * day_ms) (20633 * day_ms) ?i 1000000 =
      Inl (AppError 400 ''Manual monthly attendance requires a full calendar-month payroll'')"
    by (simp add: manualAttendanceFactor_def isManualMonthlyEmployee_def key month civil Let_def)
  moreover obtain f where "manualAttendanceFactor (Some ''MANUAL_MONTHLY'') (20605 * day_ms) (20634 * day_ms) ?i 1000000 = Inr f"
    by (simp add: manualAttendanceFactor_def isManualMonthlyEmployee_def validatePayableDays_def key month civil Let_def)
  moreover from manualAttendanceFactor_range [OF this] have "0 \<le> f \<and> f \<le> 1000000"
    by (simp add: isManualMonthlyEmployee_def)
  ultimately show ?thesis by blast
qed

end
