(* ===== verification/AnomalyRules.thy ===== *)
theory AnomalyRules
  imports Prelude "HOL-Library.Product_Lexorder" "HOL-Library.Multiset"
begin

text \<open>
  The attendance anomaly rules, \<^verbatim>\<open>src/src/lib/attendanceAnomalyRules.js\<close>: the grace an employee has on
  a shift, the anomalies a closed day gives rise to, the verdict on the day, and the days of salary
  a set of decided cases costs. Timestamps are milliseconds; a nullable column is an option, and a
  null date reads as the epoch, as \<^verbatim>\<open>new Date(null)\<close> does. Minutes and days are rationals.
\<close>

section \<open>Grace\<close>

record grace_rule =
  gr_id :: int
  gr_scope :: string
  gr_scopeKey :: string
  gr_effectiveFrom :: int
  gr_version :: "int option"
  gr_checkIn :: "int option"
  gr_checkOut :: "int option"

record grace_context =
  gc_shiftKey :: "string option"
  gc_employeeKey :: string
  gc_teamKey :: "string option"
  gc_departmentKey :: "string option"
  gc_date :: int

definition grace_levels :: "grace_context \<Rightarrow> (string \<times> string) list" where
  "grace_levels c =
    filter (\<lambda>l. snd l \<noteq> [])
      (map (\<lambda>l. (fst l, case snd l of None \<Rightarrow> [] | Some k \<Rightarrow> k))
        [(''SHIFT'', gc_shiftKey c), (''EMPLOYEE'', Some (gc_employeeKey c)), (''TEAM'', gc_teamKey c),
         (''DEPARTMENT'', gc_departmentKey c), (''COMPANY'', Some ''*'')])"

text \<open>The rule in force at one level: the latest start date, then the highest version.\<close>

definition grace_row :: "grace_rule list \<Rightarrow> int \<Rightarrow> string \<times> string \<Rightarrow> grace_rule option" where
  "grace_row rules date l =
    (case sort_key (\<lambda>r. (- gr_effectiveFrom r, - (case gr_version r of None \<Rightarrow> 0 | Some v \<Rightarrow> v)))
        (filter (\<lambda>r. gr_scope r = fst l \<and> gr_scopeKey r = snd l \<and>
                     keyDate (gr_effectiveFrom r) \<le> keyDate date) rules) of
       [] \<Rightarrow> None
     | r # _ \<Rightarrow> Some r)"

fun grace_field :: "(grace_rule \<Rightarrow> int option) \<Rightarrow> grace_rule list \<Rightarrow> int \<Rightarrow>
    (string \<times> string) list \<Rightarrow> int \<times> (string \<times> grace_rule) option" where
  "grace_field field rules date [] = (0, None)"
| "grace_field field rules date (l # ls) =
    (case grace_row rules date l of
       None \<Rightarrow> grace_field field rules date ls
     | Some row \<Rightarrow>
         (case field row of
            None \<Rightarrow> grace_field field rules date ls
          | Some minutes \<Rightarrow> (minutes, Some (fst l, row))))"

record grace =
  checkInMinutes :: int
  checkOutMinutes :: int
  checkInSource :: "(string \<times> grace_rule) option"
  checkOutSource :: "(string \<times> grace_rule) option"

definition resolveGrace :: "grace_rule list \<Rightarrow> grace_context \<Rightarrow> grace" where
  "resolveGrace rules c =
    (let (i, is) = grace_field gr_checkIn rules (gc_date c) (grace_levels c);
         (out, os) = grace_field gr_checkOut rules (gc_date c) (grace_levels c)
     in \<lparr>checkInMinutes = i, checkOutMinutes = out, checkInSource = is, checkOutSource = os\<rparr>)"

section \<open>Facts of a day\<close>

datatype anomaly_type =
    MISSING_CHECKIN | MISSING_CHECKOUT | ABSENT | LATE_CHECKIN | EARLY_CHECKOUT | OtherType string

datatype severity = MAJOR | MINOR

record fact =
  f_type :: anomaly_type
  f_expectedTime :: "int option"
  f_actualTime :: "int option"
  f_minutes :: "rat option"
  f_severity :: "severity option"
  f_reason :: "string option"

record shift =
  sh_start :: "int option"
  sh_end :: "int option"

definition mk_fact :: "anomaly_type \<Rightarrow> int option \<Rightarrow> int option \<Rightarrow> rat option \<Rightarrow> fact" where
  "mk_fact type expected actual minutes =
    \<lparr>f_type = type, f_expectedTime = expected, f_actualTime = actual, f_minutes = minutes,
     f_severity = (case minutes of None \<Rightarrow> None | Some m \<Rightarrow> Some (if m > 30 then MAJOR else MINOR)),
     f_reason = None\<rparr>"

definition minutes_between :: "int option \<Rightarrow> int option \<Rightarrow> rat" where
  "minutes_between from to =
    (case (from, to) of (Some a, Some b) \<Rightarrow> of_int (b - a) / 60000 | _ \<Rightarrow> 0)"

definition anomalyFacts ::
  "int option \<Rightarrow> int option \<Rightarrow> shift \<Rightarrow> int \<Rightarrow> int \<Rightarrow> bool \<Rightarrow> rat option \<Rightarrow> rat \<Rightarrow> fact list" where
  "anomalyFacts checkIn checkOut shift graceIn graceOut isClosed workedPercent halfDayMinPercent =
    (let missing =
           (if \<not> isClosed then []
            else if checkIn = None \<and> checkOut = None then [mk_fact ABSENT (sh_start shift) None None]
            else if checkIn = None then [mk_fact MISSING_CHECKIN (sh_start shift) None None]
            else if checkOut = None then [mk_fact MISSING_CHECKOUT (sh_end shift) None None]
            else []);
         late = minutes_between (sh_start shift) checkIn;
         early = minutes_between checkOut (sh_end shift);
         lates = (if \<lfloor>late\<rfloor> > graceIn then [mk_fact LATE_CHECKIN (sh_start shift) checkIn (Some late)] else [])
     in if early > of_int graceOut then
          if isClosed \<and> (case workedPercent of None \<Rightarrow> False | Some w \<Rightarrow> w < halfDayMinPercent)
          then [\<lparr>f_type = ABSENT, f_expectedTime = sh_start shift, f_actualTime = checkOut,
                 f_minutes = None, f_severity = None,
                 f_reason = Some ''EARLY_CHECKOUT_BEFORE_HALF_DAY''\<rparr>]
          else missing @ lates @ [mk_fact EARLY_CHECKOUT (sh_end shift) checkOut (Some early)]
        else missing @ lates)"

record day_result =
  res_status :: string
  res_checkIn :: "int option"
  res_checkOut :: "int option"
  res_inProgress :: bool
  res_workedPercent :: "rat option"
  res_rulesVersion :: "int option"
  res_anomalies :: "fact list"
  res_dayCredit :: "rat option"
  res_processingState :: string
  res_requiresRegularization :: bool

record anomaly_policy =
  ap_resolvedGrace :: "grace option"
  ap_graceMinutes :: "int option"
  ap_earlyLeaveGraceMin :: "int option"
  ap_halfDayMinPercent :: "rat option"

definition anomaly_status :: "fact list \<Rightarrow> string option" where
  "anomaly_status fs =
    map_option snd (find (\<lambda>p. fst p \<in> f_type ` set fs)
      [(ABSENT, ''ABSENT''), (MISSING_CHECKIN, ''MISSING_CHECKIN''),
       (MISSING_CHECKOUT, ''MISSING_CHECKOUT''), (EARLY_CHECKOUT, ''EARLY_CHECKOUT''),
       (LATE_CHECKIN, ''LATE'')])"

definition ANOMALY_RULE_VERSION :: int where
  "ANOMALY_RULE_VERSION = 2"

definition applyAnomalyRules :: "day_result \<Rightarrow> shift \<Rightarrow> anomaly_policy \<Rightarrow> day_result" where
  "applyAnomalyRules result shift policy =
    (if res_status result = ''PUNCH_CONFLICT'' then result
     else
       let (graceIn, graceOut) =
             (case ap_resolvedGrace policy of
                Some g \<Rightarrow> (checkInMinutes g, checkOutMinutes g)
              | None \<Rightarrow> (case ap_graceMinutes policy of None \<Rightarrow> 0 | Some m \<Rightarrow> m,
                         case ap_earlyLeaveGraceMin policy of None \<Rightarrow> 0 | Some m \<Rightarrow> m));
           anomalies = anomalyFacts (res_checkIn result) (res_checkOut result) shift graceIn graceOut
             (\<not> res_inProgress result) (res_workedPercent result)
             (case ap_halfDayMinPercent policy of None \<Rightarrow> 50 | Some p \<Rightarrow> p)
       in result
           \<lparr>res_rulesVersion := Some ANOMALY_RULE_VERSION,
            res_anomalies := anomalies,
            res_status := (case anomaly_status anomalies of
                Some s \<Rightarrow> s
              | None \<Rightarrow> if res_inProgress result \<and> res_checkIn result = None
                  then ''PENDING_ATTENDANCE'' else ''PRESENT''),
            res_dayCredit := (if res_inProgress result \<or> anomalies \<noteq> [] then None else Some 1),
            res_processingState := (if res_inProgress result then ''OPEN''
              else if anomalies \<noteq> [] then ''NEEDS_REVIEW'' else ''FINALIZED''),
            res_requiresRegularization := (anomalies \<noteq> [])\<rparr>)"

section \<open>Pricing\<close>

record deduction_rules =
  dr_majorThresholdMinutes :: rat
  dr_poolSize :: nat
  dr_absentDays :: rat
  dr_missingPunchDays :: rat
  dr_missingPoolSize :: nat
  dr_majorTimingDays :: rat
  dr_pooledMinorDays :: rat

definition DEFAULT_DEDUCTION_RULES :: deduction_rules where
  "DEFAULT_DEDUCTION_RULES =
    \<lparr>dr_majorThresholdMinutes = 30, dr_poolSize = 3, dr_absentDays = 1, dr_missingPunchDays = 1,
     dr_missingPoolSize = 3, dr_majorTimingDays = 1 / 2, dr_pooledMinorDays = 1\<rparr>"

text \<open>A policy row; \<open>None\<close> is a column that is null or absent.\<close>

record policy_row =
  pr_deductMajorThresholdMinutes :: "js_number option"
  pr_deductPoolSize :: "js_number option"
  pr_deductAbsentDays :: "js_number option"
  pr_deductMissingPunchDays :: "js_number option"
  pr_deductMissingPoolSize :: "js_number option"
  pr_deductMajorTimingDays :: "js_number option"
  pr_deductPooledMinorDays :: "js_number option"

definition policy_number :: "js_number option \<Rightarrow> rat \<Rightarrow> rat" where
  "policy_number v d = (case v of Some (Finite x) \<Rightarrow> if x < 0 then d else x | _ \<Rightarrow> d)"

definition policy_pool :: "js_number option \<Rightarrow> nat \<Rightarrow> nat" where
  "policy_pool v d =
    (case v of Some (Finite x) \<Rightarrow> if x < 0 \<or> \<not> js_isInteger x \<or> x < 1 then d else nat \<lfloor>x\<rfloor> | _ \<Rightarrow> d)"

definition deductionRulesFromPolicy :: "policy_row \<Rightarrow> deduction_rules" where
  "deductionRulesFromPolicy p =
    (let d = DEFAULT_DEDUCTION_RULES in
     \<lparr>dr_majorThresholdMinutes = policy_number (pr_deductMajorThresholdMinutes p) (dr_majorThresholdMinutes d),
      dr_poolSize = policy_pool (pr_deductPoolSize p) (dr_poolSize d),
      dr_absentDays = policy_number (pr_deductAbsentDays p) (dr_absentDays d),
      dr_missingPunchDays = policy_number (pr_deductMissingPunchDays p) (dr_missingPunchDays d),
      dr_missingPoolSize = policy_pool (pr_deductMissingPoolSize p) (dr_missingPoolSize d),
      dr_majorTimingDays = policy_number (pr_deductMajorTimingDays p) (dr_majorTimingDays d),
      dr_pooledMinorDays = policy_number (pr_deductPooledMinorDays p) (dr_pooledMinorDays d)\<rparr>)"

definition manualDeductionDays :: "js_number option \<Rightarrow> hr_error + rat option" where
  "manualDeductionDays value =
    (case value of
       None \<Rightarrow> Inr None
     | Some (Finite x) \<Rightarrow>
         if x \<in> {1 / 2, 1, 2} then Inr (Some x)
         else Inl (PlainError ''Invalid manual attendance deduction'')
     | Some NonFinite \<Rightarrow> Inl (PlainError ''Invalid manual attendance deduction''))"

datatype anomaly_state = PENDING | APPROVED | REJECTED | OtherState string

record anomaly =
  an_id :: int
  an_employeeId :: int
  an_type :: anomaly_type
  an_status :: anomaly_state
  an_date :: "int option"
  an_rulesVersion :: int
  an_decisionRole :: "string option"
  an_evidenceState :: string
  an_sessionKey :: "string option"
  an_lapsed :: bool
  an_measuredMinutes :: "rat option"
  an_actualTime :: "int option"
  an_expectedTime :: "int option"
  an_manualDeductionDays :: "js_number option"

record rule_line =
  rl_ids :: "int list"
  rl_days :: rat
  rl_date :: int
  rl_manual :: bool
  rl_pooled :: bool

record rule_assessment =
  ra_days :: rat
  ra_minorCount :: nat
  ra_minorRemainder :: nat
  ra_missingCount :: nat
  ra_missingRemainder :: nat
  ra_lines :: "rule_line list"

definition an_day :: "anomaly \<Rightarrow> int" where
  "an_day a = keyDate (date_ms (an_date a))"

definition inPeriod :: "int option \<Rightarrow> int option \<Rightarrow> anomaly \<Rightarrow> bool" where
  "inPeriod from to a \<longleftrightarrow>
    \<not> ((case from of None \<Rightarrow> False | Some f \<Rightarrow> an_day a < keyDate f) \<or>
       (case to of None \<Rightarrow> False | Some t \<Rightarrow> an_day a > keyDate t))"

definition shiftKey :: "anomaly \<Rightarrow> int \<times> int" where
  "shiftKey a = (an_employeeId a, an_day a)"

definition excusedDays :: "anomaly list \<Rightarrow> (int \<times> int) list" where
  "excusedDays as = map shiftKey (filter (\<lambda>a. an_status a = APPROVED \<and> an_date a \<noteq> None) as)"

record manual_mark =
  mm_days :: rat
  mm_date :: int
  mm_ids :: "int list"

definition markable :: "int option \<Rightarrow> int option \<Rightarrow> anomaly \<Rightarrow> bool" where
  "markable from to a \<longleftrightarrow> an_rulesVersion a = 2 \<and> an_status a = REJECTED \<and>
     an_decisionRole a = Some ''Management'' \<and> an_evidenceState a = ''ACTIVE'' \<and>
     an_date a \<noteq> None \<and> inPeriod from to a"

definition add_mark :: "anomaly \<Rightarrow> rat \<Rightarrow> manual_mark option \<Rightarrow> manual_mark" where
  "add_mark a days m =
    (case m of
       Some mark \<Rightarrow> mark\<lparr>mm_days := max (mm_days mark) days,
                          mm_ids := (if an_id a \<in> set (mm_ids mark) then mm_ids mark
                                     else mm_ids mark @ [an_id a])\<rparr>
     | None \<Rightarrow> \<lparr>mm_days = days, mm_date = an_day a, mm_ids = [an_id a]\<rparr>)"

definition mark_step :: "int option \<Rightarrow> int option \<Rightarrow> anomaly \<Rightarrow>
    ((int \<times> int) \<times> manual_mark) list \<Rightarrow> hr_error + ((int \<times> int) \<times> manual_mark) list" where
  "mark_step from to a marks =
    (if \<not> markable from to a then Inr marks
     else rbind (manualDeductionDays (an_manualDeductionDays a)) (\<lambda>d.
       case d of
         None \<Rightarrow> Inr marks
       | Some days \<Rightarrow> Inr (alist_upd (shiftKey a) (add_mark a days) marks)))"

definition manualMarks :: "int option \<Rightarrow> int option \<Rightarrow> anomaly list \<Rightarrow>
    hr_error + ((int \<times> int) \<times> manual_mark) list" where
  "manualMarks from to as = rfold (mark_step from to) as []"

definition priced :: "anomaly \<Rightarrow> bool" where
  "priced a \<longleftrightarrow> an_rulesVersion a = 2 \<and> an_evidenceState a = ''ACTIVE'' \<and>
     ((an_status a = REJECTED \<and> an_decisionRole a = Some ''Management'') \<or>
      (an_status a = PENDING \<and> an_lapsed a))"

definition caseKey :: "anomaly \<Rightarrow> int \<times> int \<times> string option \<times> anomaly_type" where
  "caseKey a = (an_employeeId a, an_day a, an_sessionKey a, an_type a)"

text \<open>The cases the pricing loop reaches, in the order it reaches them.\<close>

definition pricedCases :: "int option \<Rightarrow> int option \<Rightarrow> (int \<times> int) list \<Rightarrow> (int \<times> int) list \<Rightarrow>
    anomaly list \<Rightarrow> anomaly list" where
  "pricedCases from to marked excused as =
    dedupe_by caseKey []
      (filter (\<lambda>a. priced a \<and> inPeriod from to a \<and> shiftKey a \<notin> set marked \<and> shiftKey a \<notin> set excused)
        (sort_key (\<lambda>a. (date_ms (an_date a), an_id a)) as))"

definition timing_minutes :: "anomaly \<Rightarrow> rat" where
  "timing_minutes a =
    (case an_measuredMinutes a of
       Some m \<Rightarrow> m
     | None \<Rightarrow> (if an_type a = LATE_CHECKIN then 1 else - 1) *
         of_int (date_ms (an_actualTime a) - date_ms (an_expectedTime a)) / 60000)"

record pricing =
  pg_lines :: "rule_line list"
  pg_missing :: "anomaly list"
  pg_minors :: "anomaly list"

definition single_line :: "anomaly \<Rightarrow> rat \<Rightarrow> rule_line" where
  "single_line a days =
    \<lparr>rl_ids = [an_id a], rl_days = days, rl_date = an_day a, rl_manual = False, rl_pooled = False\<rparr>"

definition price_case :: "deduction_rules \<Rightarrow> anomaly \<Rightarrow> pricing \<Rightarrow> hr_error + pricing" where
  "price_case r a p =
    (case an_type a of
       ABSENT \<Rightarrow> Inr (p\<lparr>pg_lines := pg_lines p @ [single_line a (dr_absentDays r)]\<rparr>)
     | MISSING_CHECKIN \<Rightarrow> Inr (p\<lparr>pg_missing := pg_missing p @ [a]\<rparr>)
     | MISSING_CHECKOUT \<Rightarrow> Inr (p\<lparr>pg_missing := pg_missing p @ [a]\<rparr>)
     | OtherType _ \<Rightarrow> Inr p
     | _ \<Rightarrow>
         if timing_minutes a \<le> 0
         then Inl (PlainError ''Timing evidence is required before pricing an anomaly'')
         else if timing_minutes a > dr_majorThresholdMinutes r
         then Inr (p\<lparr>pg_lines := pg_lines p @ [single_line a (dr_majorTimingDays r)]\<rparr>)
         else Inr (p\<lparr>pg_minors := pg_minors p @ [a]\<rparr>))"

text \<open>
  The pooling loop \<^verbatim>\<open>for (i = 0; i + size <= own.length; i += size)\<close>. It would not end for a size of
  zero, which \<open>deductionRulesFromPolicy\<close> excludes.
\<close>

fun pool_chunks :: "nat \<Rightarrow> 'a list \<Rightarrow> 'a list list" where
  "pool_chunks psize xs =
    (if psize = 0 \<or> length xs < psize then [] else take psize xs # pool_chunks psize (drop psize xs))"

declare pool_chunks.simps [simp del]

definition pool_line :: "rat \<Rightarrow> anomaly list \<Rightarrow> rule_line" where
  "pool_line days chunk =
    \<lparr>rl_ids = map an_id chunk, rl_days = days, rl_date = an_day (last chunk),
     rl_manual = False, rl_pooled = True\<rparr>"

definition own_cases :: "anomaly list \<Rightarrow> int \<Rightarrow> anomaly list" where
  "own_cases as i = filter (\<lambda>a. an_employeeId a = i) as"

definition pool_lines :: "nat \<Rightarrow> rat \<Rightarrow> anomaly list \<Rightarrow> rule_line list" where
  "pool_lines psize days as =
    concat (map (\<lambda>i. map (pool_line days) (pool_chunks psize (own_cases as i))) (nub (map an_employeeId as)))"

definition pool_remainder :: "nat \<Rightarrow> anomaly list \<Rightarrow> nat" where
  "pool_remainder psize as =
    sum_list (map (\<lambda>i. length (own_cases as i) mod psize) (nub (map an_employeeId as)))"

definition mark_line :: "manual_mark \<Rightarrow> rule_line" where
  "mark_line m = \<lparr>rl_ids = mm_ids m, rl_days = mm_days m, rl_date = mm_date m,
                  rl_manual = True, rl_pooled = False\<rparr>"

definition ruleDeductions :: "anomaly list \<Rightarrow> int option \<Rightarrow> int option \<Rightarrow> deduction_rules option \<Rightarrow>
    hr_error + rule_assessment" where
  "ruleDeductions as from to rules =
    (let r = (case rules of None \<Rightarrow> DEFAULT_DEDUCTION_RULES | Some r \<Rightarrow> r) in
     rbind (manualMarks from to as) (\<lambda>marks.
     rbind (rfold (price_case r) (pricedCases from to (map fst marks) (excusedDays as) as)
             \<lparr>pg_lines = map (mark_line \<circ> snd) marks, pg_missing = [], pg_minors = []\<rparr>) (\<lambda>p.
       let lines = pg_lines p
             @ pool_lines (dr_missingPoolSize r) (dr_missingPunchDays r) (pg_missing p)
             @ pool_lines (dr_poolSize r) (dr_pooledMinorDays r) (pg_minors p)
       in Inr \<lparr>ra_days = sum_list (map rl_days lines),
               ra_minorCount = length (pg_minors p),
               ra_minorRemainder = pool_remainder (dr_poolSize r) (pg_minors p),
               ra_missingCount = length (pg_missing p),
               ra_missingRemainder = pool_remainder (dr_missingPoolSize r) (pg_missing p),
               ra_lines = lines\<rparr>)))"

section \<open>Roles\<close>

definition isManagement :: "string list \<Rightarrow> bool" where
  "isManagement names \<longleftrightarrow> ''management'' \<in> set names"

definition isAttendanceHr :: "string list \<Rightarrow> bool" where
  "isAttendanceHr names \<longleftrightarrow> isManagement names \<or>
    list_ex (\<lambda>r. r \<in> {''hr'', ''hr manager'', ''hr admin'', ''human resources''}) names"

section \<open>Pools\<close>

lemma pool_chunks_concat: "0 < k \<Longrightarrow> concat (pool_chunks k xs) = take (length xs div k * k) xs"
proof (induction k xs rule: pool_chunks.induct)
  case (1 k xs)
  show ?case
  proof (cases "length xs < k")
    case True
    then show ?thesis by (subst pool_chunks.simps) simp
  next
    case False
    then have d: "length xs div k = Suc ((length xs - k) div k)"
      using "1.prems" by (simp add: le_div_geq)
    have "concat (pool_chunks k xs) = take k xs @ take ((length xs - k) div k * k) (drop k xs)"
      using 1 False by (subst pool_chunks.simps) simp
    also have "\<dots> = take (k + (length xs - k) div k * k) xs" by (simp add: take_add)
    finally show ?thesis using d by simp
  qed
qed

lemma pool_chunks_length: "0 < k \<Longrightarrow> length (pool_chunks k xs) = length xs div k"
proof (induction k xs rule: pool_chunks.induct)
  case (1 k xs)
  then show ?case by (subst pool_chunks.simps) (simp add: le_div_geq)
qed

lemma pool_chunks_subset: "0 < k \<Longrightarrow> c \<in> set (pool_chunks k xs) \<Longrightarrow> set c \<subseteq> set xs"
proof -
  assume "0 < k" and c: "c \<in> set (pool_chunks k xs)"
  then have "set (concat (pool_chunks k xs)) \<subseteq> set xs"
    by (metis pool_chunks_concat set_take_subset)
  then show ?thesis using c by auto
qed

definition line_ids :: "rule_line list \<Rightarrow> int multiset" where
  "line_ids ls = mset (concat (map rl_ids ls))"

lemma line_ids_append [simp]: "line_ids (xs @ ys) = line_ids xs + line_ids ys"
  by (simp add: line_ids_def)

lemma line_ids_simps [simp]: "line_ids [] = {#}" "line_ids (l # ls) = mset (rl_ids l) + line_ids ls"
  by (simp_all add: line_ids_def)

lemma line_ids_pool_line: "line_ids (map (pool_line d) cs) = mset (map an_id (concat cs))"
  by (induction cs) (simp_all add: pool_line_def)

lemma mset_take_subset: "mset (take n xs) \<subseteq># mset xs"
  by (metis append_take_drop_id mset_append mset_subset_eq_add_left)

lemma line_ids_chunks: "line_ids (map (pool_line d) (pool_chunks k xs)) \<subseteq># mset (map an_id xs)"
proof (cases "k = 0")
  case True
  then show ?thesis by (simp add: pool_chunks.simps)
next
  case False
  then show ?thesis
    by (simp add: line_ids_pool_line pool_chunks_concat image_mset_subseteq_mono mset_take_subset)
qed

text \<open>The cases of a duplicate-free list of employees are part of all cases.\<close>

lemma own_cases_mset:
  "distinct is \<Longrightarrow> sum_list (map (\<lambda>i. mset (own_cases as i)) is) = mset (filter (\<lambda>a. an_employeeId a \<in> set is) as)"
proof (induction "is")
  case (Cons i "is")
  have "mset (filter (\<lambda>a. an_employeeId a \<in> set (i # is)) as) =
      mset (own_cases as i) + mset (filter (\<lambda>a. an_employeeId a \<in> set is) as)"
    using Cons.prems by (induction as) (auto simp: own_cases_def)
  then show ?case using Cons by simp
qed simp

lemma line_ids_pool_lines: "line_ids (pool_lines k d as) \<subseteq># mset (map an_id as)"
proof -
  have "line_ids (concat (map (\<lambda>i. map (pool_line d) (pool_chunks k (own_cases as i))) is))
      \<subseteq># image_mset an_id (sum_list (map (\<lambda>i. mset (own_cases as i)) is))" for "is"
  proof (induction "is")
    case (Cons i "is")
    then show ?case using line_ids_chunks [of d k "own_cases as i"]
      by (simp add: subset_mset.add_mono)
  qed simp
  from this [of "nub (map an_employeeId as)"] show ?thesis
    by (simp add: pool_lines_def own_cases_mset)
qed

section \<open>Marks and the pricing loop\<close>

definition mark_ids :: "((int \<times> int) \<times> manual_mark) list \<Rightarrow> int multiset" where
  "mark_ids marks = mset (concat (map (mm_ids \<circ> snd) marks))"

lemma mark_ids_upd:
  "mark_ids (alist_upd k (add_mark a d) marks) \<subseteq># add_mset (an_id a) (mark_ids marks)"
proof (induction marks)
  case (Cons m marks)
  obtain k' v where "m = (k', v)" by (cases m)
  then show ?case using Cons by (auto simp: mark_ids_def add_mark_def subset_mset.add_mono)
qed (simp add: mark_ids_def add_mark_def)

lemma line_ids_mark_lines: "line_ids (map (mark_line \<circ> snd) marks) = mark_ids marks"
  by (induction marks) (simp_all add: mark_ids_def mark_line_def)

text \<open>The ids on the marks are ids of cases on marked shifts, each at most once.\<close>

lemma manualMarks_ids:
  "manualMarks from to as = Inr marks \<Longrightarrow>
     mark_ids marks \<subseteq># mset (map an_id (filter (\<lambda>a. shiftKey a \<in> fst ` set marks) as))"
proof (induction as arbitrary: marks rule: rev_induct)
  case (snoc a as)
  then obtain ms where ms: "manualMarks from to as = Inr ms" "mark_step from to a ms = Inr marks"
    by (auto simp: manualMarks_def rfold_append result_simps)
  note IH = snoc.IH [OF ms(1)]
  show ?case
  proof (cases "marks = ms")
    case True
    then show ?thesis using IH by (auto intro: subset_mset.trans)
  next
    case False
    then obtain d where marks: "marks = alist_upd (shiftKey a) (add_mark a d) ms"
      using ms(2) by (auto simp: mark_step_def result_simps split: if_splits option.splits)
    then have keys: "fst ` set marks = insert (shiftKey a) (fst ` set ms)" by (simp add: alist_upd_keys)
    have "mset (filter (\<lambda>b. shiftKey b \<in> fst ` set ms) as) \<subseteq># mset (filter (\<lambda>b. shiftKey b \<in> fst ` set marks) as)"
      unfolding keys by (induction as) (auto intro: subset_mset.trans)
    then have "mset (map an_id (filter (\<lambda>b. shiftKey b \<in> fst ` set ms) as)) \<subseteq>#
        mset (map an_id (filter (\<lambda>b. shiftKey b \<in> fst ` set marks) as))"
      by (simp add: image_mset_subseteq_mono)
    with IH have "mark_ids ms \<subseteq># mset (map an_id (filter (\<lambda>b. shiftKey b \<in> fst ` set marks) as))"
      by (rule subset_mset.trans)
    then have "add_mset (an_id a) (mark_ids ms) \<subseteq>#
        mset (map an_id (filter (\<lambda>b. shiftKey b \<in> fst ` set marks) (as @ [a])))"
      using keys by simp
    with mark_ids_upd [of "shiftKey a" a d ms] show ?thesis
      unfolding marks [symmetric] by (rule subset_mset.trans)
  qed
qed (simp add: manualMarks_def mark_ids_def)

lemma add_mark_good:
  assumes "d \<in> D" and "an_id a \<in> I"
    and "\<And>m. v = Some m \<Longrightarrow> mm_days m \<in> D \<and> set (mm_ids m) \<subseteq> I"
  shows "mm_days (add_mark a d v) \<in> D \<and> set (mm_ids (add_mark a d v)) \<subseteq> I"
  using assms by (cases v) (auto simp: add_mark_def max_def)

lemma alist_upd_all:
  assumes "\<And>v. (\<And>w. v = Some w \<Longrightarrow> P w) \<Longrightarrow> P (f v)" and "\<forall>kv \<in> set kvs. P (snd kv)"
  shows "\<forall>kv \<in> set (alist_upd k f kvs). P (snd kv)"
  using assms(2)
proof (induction kvs)
  case Nil
  then show ?case using assms(1) [of None] by simp
next
  case (Cons kv kvs)
  obtain k' v where kv: "kv = (k', v)" by (cases kv)
  then have "P (f (Some v))" using Cons.prems assms(1) [of "Some v"] by simp
  then show ?case using Cons kv by simp
qed

lemma manualMarks_lines:
  assumes "manualMarks from to as = Inr marks" and "m \<in> set marks"
  shows "mm_days (snd m) \<in> {1 / 2, 1, 2} \<and> set (mm_ids (snd m)) \<subseteq> an_id ` {a \<in> set as. markable from to a}"
proof -
  have "\<forall>m \<in> set marks. mm_days (snd m) \<in> {1 / 2, 1, 2} \<and>
      set (mm_ids (snd m)) \<subseteq> an_id ` {a \<in> set as. markable from to a}" (is "?P marks")
  proof (rule rfold_invariant [where P = ?P and s = "[]" and f = "mark_step from to" and xs = as])
    show "rfold (mark_step from to) as [] = Inr marks" using assms(1) by (simp add: manualMarks_def)
    fix a s s' assume a: "a \<in> set as" and P: "?P s" and step: "mark_step from to a s = Inr s'"
    show "?P s'"
    proof (cases "s' = s")
      case False
      then obtain d where s': "s' = alist_upd (shiftKey a) (add_mark a d) s" and d: "d \<in> {1 / 2, 1, 2}"
        and mk: "markable from to a"
        using step by (auto simp: mark_step_def manualDeductionDays_def result_simps
            split: if_splits option.splits js_number.splits)
      have "mm_days (add_mark a d v) \<in> {1 / 2, 1, 2} \<and>
          set (mm_ids (add_mark a d v)) \<subseteq> an_id ` {a \<in> set as. markable from to a}"
        if "\<And>m. v = Some m \<Longrightarrow> mm_days m \<in> {1 / 2, 1, 2} \<and>
          set (mm_ids m) \<subseteq> an_id ` {a \<in> set as. markable from to a}" for v
        by (rule add_mark_good [OF d _ that]) (use mk a in auto)
      then show ?thesis unfolding s'
        by (rule alist_upd_all [where f = "add_mark a d", OF _ P])
    qed (use P in simp)
  qed simp
  then show ?thesis using assms(2) by blast
qed

definition pg_ids :: "pricing \<Rightarrow> int multiset" where
  "pg_ids p = line_ids (pg_lines p) + mset (map an_id (pg_missing p)) + mset (map an_id (pg_minors p))"

lemma price_case_ids: "price_case r a p = Inr p' \<Longrightarrow> pg_ids p' \<subseteq># add_mset (an_id a) (pg_ids p)"
  by (auto simp: price_case_def pg_ids_def single_line_def split: anomaly_type.splits if_splits)

lemma price_fold_ids:
  "rfold (price_case r) cs p = Inr p' \<Longrightarrow> pg_ids p' \<subseteq># pg_ids p + mset (map an_id cs)"
proof (induction cs arbitrary: p)
  case (Cons a cs)
  then obtain q where q: "price_case r a p = Inr q" "rfold (price_case r) cs q = Inr p'"
    by (auto simp: result_simps)
  have "pg_ids p' \<subseteq># pg_ids q + mset (map an_id cs)" by (rule Cons.IH [OF q(2)])
  also have "\<dots> \<subseteq># add_mset (an_id a) (pg_ids p) + mset (map an_id cs)"
    by (rule subset_mset.add_right_mono [OF price_case_ids [OF q(1)]])
  finally show ?case by simp
qed simp

lemma ruleDeductions_cases:
  assumes "ruleDeductions as from to rules = Inr ra"
  obtains r marks p where
    "r = (case rules of None \<Rightarrow> DEFAULT_DEDUCTION_RULES | Some r \<Rightarrow> r)"
    "manualMarks from to as = Inr marks"
    "rfold (price_case r) (pricedCases from to (map fst marks) (excusedDays as) as)
       \<lparr>pg_lines = map (mark_line \<circ> snd) marks, pg_missing = [], pg_minors = []\<rparr> = Inr p"
    "ra_lines ra = pg_lines p @ pool_lines (dr_missingPoolSize r) (dr_missingPunchDays r) (pg_missing p)
       @ pool_lines (dr_poolSize r) (dr_pooledMinorDays r) (pg_minors p)"
    "ra_days ra = sum_list (map rl_days (ra_lines ra))"
    "ra_minorCount ra = length (pg_minors p)" "ra_missingCount ra = length (pg_missing p)"
    "ra_minorRemainder ra = pool_remainder (dr_poolSize r) (pg_minors p)"
    "ra_missingRemainder ra = pool_remainder (dr_missingPoolSize r) (pg_missing p)"
  using assms by (auto simp: ruleDeductions_def result_simps Let_def)

lemma mset_dedupe_by: "mset (dedupe_by k seen xs) \<subseteq># mset xs"
proof (induction xs arbitrary: seen)
  case (Cons x xs)
  have "mset xs \<subseteq># add_mset x (mset xs)" by simp
  with Cons [of seen] have "mset (dedupe_by k seen xs) \<subseteq># add_mset x (mset xs)"
    by (rule subset_mset.trans)
  then show ?case using Cons by simp
qed simp

lemma pricedCases_mset:
  "mset (pricedCases from to marked excused as) \<subseteq># mset (filter (\<lambda>a. shiftKey a \<notin> set marked) as)"
proof -
  let ?ok = "\<lambda>a. priced a \<and> inPeriod from to a \<and> shiftKey a \<notin> set marked \<and> shiftKey a \<notin> set excused"
  have "mset (pricedCases from to marked excused as) \<subseteq># filter_mset ?ok (mset as)"
    unfolding pricedCases_def by (rule subset_mset.trans [OF mset_dedupe_by]) simp
  also have "\<dots> \<subseteq># filter_mset (\<lambda>a. shiftKey a \<notin> set marked) (mset as)"
    by (induction as) (auto intro: subset_mset.trans)
  finally show ?thesis by simp
qed

lemma pricedCases_ok:
  "a \<in> set (pricedCases from to marked excused as) \<Longrightarrow>
     a \<in> set as \<and> priced a \<and> inPeriod from to a \<and> shiftKey a \<notin> set excused"
  using dedupe_by_subset by (fastforce simp: pricedCases_def)

lemma ruleDeductions_ids:
  assumes "ruleDeductions as from to rules = Inr ra"
  shows "line_ids (ra_lines ra) \<subseteq># mset (map an_id as)"
proof -
  obtain r marks p where marks: "manualMarks from to as = Inr marks"
    and fold: "rfold (price_case r) (pricedCases from to (map fst marks) (excusedDays as) as)
       \<lparr>pg_lines = map (mark_line \<circ> snd) marks, pg_missing = [], pg_minors = []\<rparr> = Inr p"
    and lines: "ra_lines ra = pg_lines p @ pool_lines (dr_missingPoolSize r) (dr_missingPunchDays r) (pg_missing p)
       @ pool_lines (dr_poolSize r) (dr_pooledMinorDays r) (pg_minors p)"
    using assms by (rule ruleDeductions_cases)
  let ?K = "\<lambda>a. shiftKey a \<in> fst ` set marks"
  have "line_ids (ra_lines ra) \<subseteq># pg_ids p"
    unfolding lines pg_ids_def line_ids_append add.assoc [symmetric]
    by (intro subset_mset.add_mono line_ids_pool_lines subset_mset.order_refl)
  also have "\<dots> \<subseteq># mark_ids marks + mset (map an_id (pricedCases from to (map fst marks) (excusedDays as) as))"
    using price_fold_ids [OF fold] by (simp add: pg_ids_def line_ids_mark_lines)
  also have "\<dots> \<subseteq># mset (map an_id (filter ?K as)) + mset (map an_id (filter (\<lambda>a. \<not> ?K a) as))"
    using manualMarks_ids [OF marks] pricedCases_mset [of "from" to "map fst marks" "excusedDays as" as]
    by (intro subset_mset.add_mono) (simp_all add: image_mset_subseteq_mono)
  also have "\<dots> = mset (map an_id as)"
    by (induction as) auto
  finally show ?thesis .
qed

text \<open>A predicate of lines that holds of every line the loop writes holds of every line.\<close>

lemma ruleDeductions_lines:
  assumes "ruleDeductions as from to rules = Inr ra"
    and r: "r = (case rules of None \<Rightarrow> DEFAULT_DEDUCTION_RULES | Some r \<Rightarrow> r)"
    and mark: "\<And>m. mm_days m \<in> {1 / 2, 1, 2} \<Longrightarrow>
      set (mm_ids m) \<subseteq> an_id ` {a \<in> set as. markable from to a} \<Longrightarrow> P (mark_line m)"
    and single: "\<And>a d. Q a \<Longrightarrow> d \<in> {dr_absentDays r, dr_majorTimingDays r} \<Longrightarrow> P (single_line a d)"
    and pool: "\<And>c d. (\<And>a. a \<in> set c \<Longrightarrow> Q a) \<Longrightarrow> d \<in> {dr_missingPunchDays r, dr_pooledMinorDays r} \<Longrightarrow> P (pool_line d c)"
    and Q: "\<And>a. a \<in> set as \<Longrightarrow> priced a \<Longrightarrow> inPeriod from to a \<Longrightarrow> shiftKey a \<notin> set (excusedDays as) \<Longrightarrow> Q a"
    and l: "l \<in> set (ra_lines ra)"
  shows "P l"
proof -
  obtain marks p where marks: "manualMarks from to as = Inr marks"
    and fold: "rfold (price_case r) (pricedCases from to (map fst marks) (excusedDays as) as)
       \<lparr>pg_lines = map (mark_line \<circ> snd) marks, pg_missing = [], pg_minors = []\<rparr> = Inr p"
    and lines: "ra_lines ra = pg_lines p @ pool_lines (dr_missingPoolSize r) (dr_missingPunchDays r) (pg_missing p)
       @ pool_lines (dr_poolSize r) (dr_pooledMinorDays r) (pg_minors p)"
    using assms(1) unfolding r by (rule ruleDeductions_cases) blast
  let ?I = "\<lambda>p. (\<forall>l \<in> set (pg_lines p). P l) \<and> (\<forall>a \<in> set (pg_missing p) \<union> set (pg_minors p). Q a)"
  have I: "?I p"
  proof (rule rfold_invariant [OF fold])
    show "?I \<lparr>pg_lines = map (mark_line \<circ> snd) marks, pg_missing = [], pg_minors = []\<rparr>"
      using manualMarks_lines [OF marks] mark by auto
    fix a s s' assume "a \<in> set (pricedCases from to (map fst marks) (excusedDays as) as)"
      and I: "?I s" and step: "price_case r a s = Inr s'"
    then have "Q a" using pricedCases_ok Q by blast
    then show "?I s'" using I step single
      by (auto simp: price_case_def split: anomaly_type.splits if_splits)
  qed
  have "P l" if "l \<in> set (pool_lines k d as')" "\<forall>a \<in> set as'. Q a"
    "d \<in> {dr_missingPunchDays r, dr_pooledMinorDays r}" for k d as'
  proof -
    from that(1) have "\<exists>i c. l = pool_line d c \<and> c \<in> set (pool_chunks k (own_cases as' i))"
      by (auto simp: pool_lines_def)
    then obtain i c where c: "l = pool_line d c" "c \<in> set (pool_chunks k (own_cases as' i))"
      by blast
    then have "0 < k" by (subst (asm) pool_chunks.simps) (auto split: if_splits)
    then have "set c \<subseteq> set as'" using pool_chunks_subset [OF _ c(2)] by (auto simp: own_cases_def)
    then show ?thesis using c(1) pool [of c d] that(2,3) by blast
  qed
  then show ?thesis using l I unfolding lines by auto
qed

lemma pool_chunks_eval:
  "length xs < k \<Longrightarrow> pool_chunks k xs = []"
  "0 < k \<Longrightarrow> k \<le> length xs \<Longrightarrow> pool_chunks k xs = take k xs # pool_chunks k (drop k xs)"
  by (subst pool_chunks.simps; simp)+

lemma markable_priced: "markable from to a \<Longrightarrow> priced a \<and> inPeriod from to a"
  by (simp add: markable_def priced_def)

definition rules_half_integral :: "deduction_rules \<Rightarrow> bool" where
  "rules_half_integral r \<longleftrightarrow>
    list_all (\<lambda>x. 0 \<le> x \<and> half_integral x)
      [dr_absentDays r, dr_missingPunchDays r, dr_majorTimingDays r, dr_pooledMinorDays r]"

lemma half_integral_marks: "x \<in> {1 / 2, 1, 2} \<Longrightarrow> 0 \<le> x \<and> half_integral x"
  by (auto simp: half_integral_def)

lemma ruleDeductions_half_days:
  assumes "ruleDeductions as from to rules = Inr ra"
    and "rules_half_integral (case rules of None \<Rightarrow> DEFAULT_DEDUCTION_RULES | Some r \<Rightarrow> r)"
  shows "0 \<le> ra_days ra \<and> half_integral (ra_days ra)"
proof -
  have days: "ra_days ra = sum_list (map rl_days (ra_lines ra))"
    using assms(1) by (rule ruleDeductions_cases)
  have "0 \<le> rl_days l \<and> half_integral (rl_days l)" if "l \<in> set (ra_lines ra)" for l
    by (rule ruleDeductions_lines [OF assms(1) refl, where Q = "\<lambda>_. True"])
      (use that assms(2) half_integral_marks in \<open>auto simp: mark_line_def single_line_def pool_line_def rules_half_integral_def\<close>)
  then show ?thesis unfolding days
    by (auto intro!: sum_list_nonneg half_integral_sum_list)
qed

lemma price_case_total:
  assumes "an_type a \<in> {LATE_CHECKIN, EARLY_CHECKOUT} \<Longrightarrow> 0 < timing_minutes a"
  shows "\<exists>p'. price_case r a p = Inr p'"
  using assms by (cases "an_type a") (simp_all add: price_case_def)

lemma price_fold_total:
  assumes "\<And>a. a \<in> set cs \<Longrightarrow> an_type a \<in> {LATE_CHECKIN, EARLY_CHECKOUT} \<Longrightarrow> 0 < timing_minutes a"
  shows "\<exists>p'. rfold (price_case r) cs p = Inr p'"
  using assms
proof (induction cs arbitrary: p)
  case (Cons a cs)
  obtain q where q: "price_case r a p = Inr q"
    using price_case_total [of a r p] Cons.prems by auto
  have "\<exists>p'. rfold (price_case r) cs q = Inr p'" using Cons.IH Cons.prems by simp
  then show ?case using q by simp
qed simp

lemma mark_step_total:
  assumes "markable from to a \<Longrightarrow> \<exists>d. manualDeductionDays (an_manualDeductionDays a) = Inr d"
  shows "\<exists>ms'. mark_step from to a ms = Inr ms'"
proof (cases "markable from to a")
  case True
  then obtain d where "manualDeductionDays (an_manualDeductionDays a) = Inr d" using assms by blast
  then show ?thesis by (cases d) (simp_all add: mark_step_def)
qed (simp add: mark_step_def)

lemma manualMarks_total:
  assumes "\<And>a. a \<in> set as \<Longrightarrow> markable from to a \<Longrightarrow> \<exists>d. manualDeductionDays (an_manualDeductionDays a) = Inr d"
  shows "\<exists>ms'. rfold (mark_step from to) as ms = Inr ms'"
  using assms
proof (induction as arbitrary: ms)
  case (Cons a as)
  obtain q where q: "mark_step from to a ms = Inr q"
    using mark_step_total [of "from" to a ms] Cons.prems by auto
  have "\<exists>ms'. rfold (mark_step from to) as q = Inr ms'" using Cons.IH Cons.prems by simp
  then show ?case using q by simp
qed simp

lemma mset_subset_distinct:
  assumes "mset xs \<subseteq># mset ys" and "distinct ys"
  shows "distinct xs"
proof -
  obtain zs where "mset ys = mset xs + mset zs"
    using assms(1) by (metis ex_mset mset_subset_eq_exists_conv)
  then have "mset ys = mset (xs @ zs)" by simp
  then have "distinct (xs @ zs)" using assms(2) mset_eq_imp_distinct_iff by blast
  then show ?thesis by simp
qed

lemma distinct_singleton_list: "distinct xs \<Longrightarrow> set xs = {e} \<Longrightarrow> xs = [e]"
  by (cases xs; cases "tl xs") auto

lemma pool_lines_single:
  assumes "\<And>a. a \<in> set as \<Longrightarrow> an_employeeId a = e" and "0 < k"
  shows "length (pool_lines k d as) = length as div k \<and> pool_remainder k as = length as mod k"
proof (cases "as = []")
  case True
  then show ?thesis by (simp add: pool_lines_def pool_remainder_def nub_def)
next
  case False
  then have "set (nub (map an_employeeId as)) = {e}" using assms(1) by (cases as) auto
  then have "nub (map an_employeeId as) = [e]" by (intro distinct_singleton_list) simp_all
  moreover have "own_cases as e = as" using assms(1) by (simp add: own_cases_def)
  ultimately show ?thesis
    using assms(2) by (simp add: pool_lines_def pool_remainder_def pool_chunks_length)
qed

lemma price_fold_shape:
  assumes "rfold (price_case r) cs \<lparr>pg_lines = map (mark_line \<circ> snd) marks, pg_missing = [], pg_minors = []\<rparr> = Inr p"
  shows "(\<forall>l \<in> set (pg_lines p). \<not> rl_pooled l) \<and> set (pg_missing p) \<union> set (pg_minors p) \<subseteq> set cs"
    (is "?I p")
proof (rule rfold_invariant [OF assms])
  show "?I \<lparr>pg_lines = map (mark_line \<circ> snd) marks, pg_missing = [], pg_minors = []\<rparr>"
    by (auto simp: mark_line_def)
  show "?I s'" if "a \<in> set cs" "?I s" "price_case r a s = Inr s'" for a s s'
    using that by (auto simp: price_case_def single_line_def split: anomaly_type.splits if_splits)
qed

lemma pool_lines_pooled: "filter rl_pooled (pool_lines k d as) = pool_lines k d as"
  by (rule filter_True) (auto simp: pool_lines_def pool_line_def)

lemma policy_pool_pos: "0 < d \<Longrightarrow> 0 < policy_pool v d"
  by (auto simp: policy_pool_def split: option.splits js_number.splits)

lemma grace_row_in_force:
  assumes "grace_row rules date l = Some row"
  shows "row \<in> set rules \<and> gr_scope row = fst l \<and> gr_scopeKey row = snd l \<and>
    keyDate (gr_effectiveFrom row) \<le> keyDate date \<and>
    (\<forall>r \<in> set rules. gr_scope r = fst l \<and> gr_scopeKey r = snd l \<and> keyDate (gr_effectiveFrom r) \<le> keyDate date
       \<longrightarrow> gr_effectiveFrom r \<le> gr_effectiveFrom row)"
proof -
  let ?key = "\<lambda>r. (- gr_effectiveFrom r, - (case gr_version r of None \<Rightarrow> 0 | Some v \<Rightarrow> v))"
  let ?ok = "\<lambda>r. gr_scope r = fst l \<and> gr_scopeKey r = snd l \<and> keyDate (gr_effectiveFrom r) \<le> keyDate date"
  obtain rest where sorted: "sort_key ?key (filter ?ok rules) = row # rest"
    using assms by (auto simp: grace_row_def split: list.splits)
  have mem: "set (row # rest) = set (filter ?ok rules)"
    unfolding sorted [symmetric] by (rule set_sort)
  have "sorted (map ?key (row # rest))"
    unfolding sorted [symmetric] by (rule sorted_sort_key)
  then have "gr_effectiveFrom r \<le> gr_effectiveFrom row" if "r \<in> set rest" for r
  proof -
    have "?key row \<le> ?key r" using \<open>sorted (map ?key (row # rest))\<close> that by simp
    then show ?thesis by (auto simp: less_eq_prod_def)
  qed
  then have "gr_effectiveFrom r \<le> gr_effectiveFrom row" if "r \<in> set (filter ?ok rules)" for r
    using that unfolding mem [symmetric] by auto
  moreover have "row \<in> set (filter ?ok rules)" unfolding mem [symmetric] by simp
  ultimately show ?thesis by auto
qed

lemma grace_field_None: "grace_field field rules date ls = (m, None) \<Longrightarrow> m = 0"
  by (induction ls) (auto split: option.splits)

lemma grace_field_Some:
  "grace_field field rules date ls = (m, Some (scope, row)) \<Longrightarrow>
     \<exists>l \<in> set ls. fst l = scope \<and> grace_row rules date l = Some row \<and> field row = Some m"
  by (induction ls) (auto split: option.splits)

section \<open>Properties\<close>


text \<open>A day's cases for the witnesses: employee 7, day 1, decided by Management.\<close>

definition sample_case :: "int \<Rightarrow> anomaly_type \<Rightarrow> anomaly_state \<Rightarrow> int \<Rightarrow> js_number option \<Rightarrow> anomaly" where
  "sample_case i type state date mark =
    \<lparr>an_id = i, an_employeeId = 7, an_type = type, an_status = state, an_date = Some (date * day_ms),
     an_rulesVersion = 2, an_decisionRole = Some ''Management'', an_evidenceState = ''ACTIVE'',
     an_sessionKey = None, an_lapsed = False, an_measuredMinutes = Some 45, an_actualTime = None,
     an_expectedTime = None, an_manualDeductionDays = mark\<rparr>"

definition sample_cases :: "anomaly list" where
  "sample_cases = [sample_case 1 ABSENT REJECTED 3 None, sample_case 2 LATE_CHECKIN REJECTED 1 None,
     sample_case 3 MISSING_CHECKOUT APPROVED 1 None, sample_case 4 LATE_CHECKIN REJECTED 2 (Some (Finite 2))]"

lemmas rule_eval = ruleDeductions_def manualMarks_def mark_step_def markable_def inPeriod_def an_day_def
  date_ms_def manualDeductionDays_def add_mark_def shiftKey_def pricedCases_def priced_def caseKey_def
  excusedDays_def price_case_def timing_minutes_def single_line_def mark_line_def pool_lines_def
  pool_remainder_def DEFAULT_DEDUCTION_RULES_def keyDate_def day_ms_def nub_def Let_def

lemma sample_assessment:
  "ruleDeductions sample_cases (Some 0) (Some (30 * day_ms)) None =
    Inr \<lparr>ra_days = 3, ra_minorCount = 0, ra_minorRemainder = 0, ra_missingCount = 0, ra_missingRemainder = 0,
         ra_lines = [\<lparr>rl_ids = [4], rl_days = 2, rl_date = 2, rl_manual = True, rl_pooled = False\<rparr>,
                     \<lparr>rl_ids = [1], rl_days = 1, rl_date = 3, rl_manual = False, rl_pooled = False\<rparr>]\<rparr>"
  by (simp add: sample_cases_def sample_case_def rule_eval)


text \<open>Pricing never fails on decided cases that carry positive timing evidence and a valid marking
  or none, and under rules whose amounts are whole or half days its total is a non-negative multiple
  of half a day, which is what the payroll engine can price.\<close>

theorem ruleDeductions_total_half_days:
  assumes "\<And>a. a \<in> set as \<Longrightarrow> priced a \<Longrightarrow> an_type a \<in> {LATE_CHECKIN, EARLY_CHECKOUT} \<Longrightarrow> 0 < timing_minutes a"
    and "\<And>a. a \<in> set as \<Longrightarrow> markable from to a \<Longrightarrow> \<exists>d. manualDeductionDays (an_manualDeductionDays a) = Inr d"
    and "rules_half_integral (case rules of None \<Rightarrow> DEFAULT_DEDUCTION_RULES | Some r \<Rightarrow> r)"
  shows "\<exists>ra. ruleDeductions as from to rules = Inr ra \<and> 0 \<le> ra_days ra \<and> half_integral (ra_days ra)"
proof -
  let ?r = "case rules of None \<Rightarrow> DEFAULT_DEDUCTION_RULES | Some r \<Rightarrow> r"
  obtain marks where marks: "manualMarks from to as = Inr marks"
    using manualMarks_total [of as "from" to] assms(2) unfolding manualMarks_def by blast
  obtain p where "rfold (price_case ?r) (pricedCases from to (map fst marks) (excusedDays as) as)
      \<lparr>pg_lines = map (mark_line \<circ> snd) marks, pg_missing = [], pg_minors = []\<rparr> = Inr p"
    using price_fold_total assms(1) pricedCases_ok by blast
  then obtain ra where "ruleDeductions as from to rules = Inr ra"
    using marks by (simp add: ruleDeductions_def Let_def)
  then show ?thesis using ruleDeductions_half_days assms(3) by blast
qed

theorem ruleDeductions_total_half_days_witness:
  "\<exists>ra. ruleDeductions sample_cases (Some 0) None None = Inr ra \<and> 0 \<le> ra_days ra \<and> half_integral (ra_days ra)"
  by (rule ruleDeductions_total_half_days)
    (auto simp: sample_cases_def sample_case_def timing_minutes_def manualDeductionDays_def
      rules_half_integral_def DEFAULT_DEDUCTION_RULES_def half_integral_def)

text \<open>For one employee the pools are exact: the number of pooled lines is the number of full pools of
  missing punches plus the number of full pools of minor timing cases, and the leftovers reported are
  the rests of the two divisions. A tenant's policy never yields a pool of size zero.\<close>

theorem ruleDeductions_pools:
  assumes "ruleDeductions as from to (Some (deductionRulesFromPolicy pol)) = Inr ra"
    and "\<And>a. a \<in> set as \<Longrightarrow> an_employeeId a = e"
  shows "length (filter rl_pooled (ra_lines ra)) =
      ra_missingCount ra div dr_missingPoolSize (deductionRulesFromPolicy pol) +
      ra_minorCount ra div dr_poolSize (deductionRulesFromPolicy pol) \<and>
    ra_missingRemainder ra = ra_missingCount ra mod dr_missingPoolSize (deductionRulesFromPolicy pol) \<and>
    ra_minorRemainder ra = ra_minorCount ra mod dr_poolSize (deductionRulesFromPolicy pol) \<and>
    0 < dr_missingPoolSize (deductionRulesFromPolicy pol) \<and> 0 < dr_poolSize (deductionRulesFromPolicy pol)"
proof -
  let ?r = "deductionRulesFromPolicy pol"
  have pos: "0 < dr_missingPoolSize ?r" "0 < dr_poolSize ?r"
    by (simp_all add: deductionRulesFromPolicy_def Let_def DEFAULT_DEDUCTION_RULES_def policy_pool_pos)
  obtain marks p where
    fold: "rfold (price_case ?r) (pricedCases from to (map fst marks) (excusedDays as) as)
       \<lparr>pg_lines = map (mark_line \<circ> snd) marks, pg_missing = [], pg_minors = []\<rparr> = Inr p"
    and lines: "ra_lines ra = pg_lines p @ pool_lines (dr_missingPoolSize ?r) (dr_missingPunchDays ?r) (pg_missing p)
       @ pool_lines (dr_poolSize ?r) (dr_pooledMinorDays ?r) (pg_minors p)"
    and counts: "ra_minorCount ra = length (pg_minors p)" "ra_missingCount ra = length (pg_missing p)"
      "ra_minorRemainder ra = pool_remainder (dr_poolSize ?r) (pg_minors p)"
      "ra_missingRemainder ra = pool_remainder (dr_missingPoolSize ?r) (pg_missing p)"
    using assms(1) by (rule ruleDeductions_cases) simp
  note shape = price_fold_shape [OF fold]
  have "filter rl_pooled (pg_lines p) = []" using shape by simp
  moreover have "an_employeeId a = e" if "a \<in> set (pg_missing p) \<union> set (pg_minors p)" for a
    using that shape pricedCases_ok assms(2) by blast
  ultimately show ?thesis
    using pos pool_lines_single [of "pg_missing p" e] pool_lines_single [of "pg_minors p" e] counts
    by (simp add: lines pool_lines_pooled)
qed

definition sample_policy :: policy_row where
  "sample_policy =
    \<lparr>pr_deductMajorThresholdMinutes = Some (Finite 60), pr_deductPoolSize = Some (Finite 2),
     pr_deductAbsentDays = None, pr_deductMissingPunchDays = Some NonFinite,
     pr_deductMissingPoolSize = Some (Finite 0), pr_deductMajorTimingDays = None, pr_deductPooledMinorDays = None\<rparr>"

definition sample_minors :: "anomaly list" where
  "sample_minors = [sample_case 1 LATE_CHECKIN REJECTED 1 None, sample_case 2 LATE_CHECKIN REJECTED 2 None,
     sample_case 3 EARLY_CHECKOUT REJECTED 2 None]"

theorem ruleDeductions_pools_witness:
  "\<exists>ra. ruleDeductions sample_minors None None (Some (deductionRulesFromPolicy sample_policy)) = Inr ra \<and>
     length (filter rl_pooled (ra_lines ra)) = 1 \<and> ra_minorRemainder ra = 1"
proof -
  let ?r = "deductionRulesFromPolicy sample_policy"
  have r: "dr_poolSize ?r = 2" "dr_missingPoolSize ?r = 3"
    by (simp_all add: deductionRulesFromPolicy_def sample_policy_def policy_pool_def Let_def DEFAULT_DEDUCTION_RULES_def)
  obtain ra where ra: "ruleDeductions sample_minors None None (Some ?r) = Inr ra"
    and n: "ra_minorCount ra = 3" "ra_missingCount ra = 0"
    by (simp add: sample_minors_def sample_case_def rule_eval deductionRulesFromPolicy_def sample_policy_def policy_number_def)
  have "an_employeeId a = 7" if "a \<in> set sample_minors" for a
    using that by (auto simp: sample_minors_def sample_case_def)
  from ruleDeductions_pools [OF ra this] show ?thesis using ra n r by simp
qed

text \<open>A day is judged once: with non-negative grace, an absence is the only fact of its day, no two
  facts of a day have the same type, and every timing fact is past the grace and marked major exactly
  when it is longer than thirty minutes.\<close>

theorem anomalyFacts_once:
  assumes "0 \<le> graceIn" and "0 \<le> graceOut"
    and "fs = anomalyFacts checkIn checkOut shift graceIn graceOut isClosed workedPercent halfDayMin"
  shows "distinct (map f_type fs) \<and> (ABSENT \<in> f_type ` set fs \<longrightarrow> length fs = 1) \<and>
    (\<forall>f \<in> set fs. \<forall>m. f_minutes f = Some m \<longrightarrow> 0 < m \<and> f_severity f = Some (if m > 30 then MAJOR else MINOR))"
proof -
  have pos: "0 < minutes_between a b \<Longrightarrow> a \<noteq> None \<and> b \<noteq> None" for a b
    by (cases a; cases b) (simp_all add: minutes_between_def)
  have late: "\<lfloor>minutes_between a b\<rfloor> > graceIn \<Longrightarrow> 0 < minutes_between a b \<and> a \<noteq> None \<and> b \<noteq> None" for a b
  proof -
    assume "\<lfloor>minutes_between a b\<rfloor> > graceIn"
    then have "0 < minutes_between a b" using assms(1) by linarith
    then show ?thesis using pos by blast
  qed
  have early: "minutes_between a b > of_int graceOut \<Longrightarrow> 0 < minutes_between a b \<and> a \<noteq> None \<and> b \<noteq> None" for a b
  proof -
    assume "minutes_between a b > of_int graceOut"
    moreover have "(0::rat) \<le> of_int graceOut" using assms(2) by simp
    ultimately have "0 < minutes_between a b" by linarith
    then show ?thesis using pos by blast
  qed
  show ?thesis
    using late [of "sh_start shift" checkIn] early [of checkOut "sh_end shift"]
    unfolding assms(3) anomalyFacts_def Let_def by (auto simp: mk_fact_def)
qed

theorem anomalyFacts_once_witness:
  "\<exists>f. anomalyFacts (Some (9 * 3600000)) (Some (10 * 3600000)) \<lparr>sh_start = Some (8 * 3600000), sh_end = Some (17 * 3600000)\<rparr>
      5 0 True (Some 11) 50 = [f] \<and> f_type f = ABSENT"
proof -
  let ?fs = "anomalyFacts (Some (9 * 3600000)) (Some (10 * 3600000)) \<lparr>sh_start = Some (8 * 3600000), sh_end = Some (17 * 3600000)\<rparr>
      5 0 True (Some 11) 50"
  have "ABSENT \<in> f_type ` set ?fs"
    by (simp add: anomalyFacts_def minutes_between_def)
  then have "length ?fs = 1" "ABSENT \<in> f_type ` set ?fs"
    using anomalyFacts_once [of 5 0 ?fs] by simp_all
  then show ?thesis by (auto simp: length_Suc_conv)
qed

text \<open>The grace used on a shift is that of the most specific scope that sets it: the source row is
  one of the tenant's rules for that scope and key, in force on the date, and no rule of its scope and
  key in force starts later. Without a source the grace is zero.\<close>

theorem resolveGrace_in_force:
  assumes "resolveGrace rules c = g"
  shows "case checkInSource g of
      None \<Rightarrow> checkInMinutes g = 0
    | Some (scope, row) \<Rightarrow> row \<in> set rules \<and> gr_checkIn row = Some (checkInMinutes g) \<and>
        (scope, gr_scopeKey row) \<in> set (grace_levels c) \<and> gr_scope row = scope \<and>
        keyDate (gr_effectiveFrom row) \<le> keyDate (gc_date c) \<and>
        (\<forall>r \<in> set rules. gr_scope r = scope \<and> gr_scopeKey r = gr_scopeKey row \<and>
           keyDate (gr_effectiveFrom r) \<le> keyDate (gc_date c) \<longrightarrow> gr_effectiveFrom r \<le> gr_effectiveFrom row)"
proof (cases "checkInSource g")
  case None
  then have "grace_field gr_checkIn rules (gc_date c) (grace_levels c) = (checkInMinutes g, None)"
    using assms by (auto simp: resolveGrace_def split: prod.splits)
  then show ?thesis using None grace_field_None by fastforce
next
  case (Some sr)
  obtain scope row where sr: "sr = (scope, row)" by (cases sr)
  then have "grace_field gr_checkIn rules (gc_date c) (grace_levels c) = (checkInMinutes g, Some (scope, row))"
    using assms Some by (auto simp: resolveGrace_def split: prod.splits)
  then obtain l where l: "l \<in> set (grace_levels c)" "fst l = scope" "grace_row rules (gc_date c) l = Some row"
      "gr_checkIn row = Some (checkInMinutes g)"
    using grace_field_Some by blast
  note row = grace_row_in_force [OF l(3)]
  then have "(scope, gr_scopeKey row) = l" using l(2) by (cases l) auto
  then show ?thesis using Some sr l row by auto
qed

definition sample_grace :: "string \<Rightarrow> string \<Rightarrow> int \<Rightarrow> int option \<Rightarrow> grace_rule" where
  "sample_grace scope key since minutes =
    \<lparr>gr_id = 1, gr_scope = scope, gr_scopeKey = key, gr_effectiveFrom = since * day_ms, gr_version = None,
     gr_checkIn = minutes, gr_checkOut = None\<rparr>"

theorem resolveGrace_in_force_witness:
  "checkInSource (resolveGrace [sample_grace ''COMPANY'' ''*'' 0 (Some 5), sample_grace ''COMPANY'' ''*'' 3 (Some 9),
       sample_grace ''TEAM'' ''A'' 1 None]
      \<lparr>gc_shiftKey = None, gc_employeeKey = ''7'', gc_teamKey = Some ''A'', gc_departmentKey = None, gc_date = 4 * day_ms\<rparr>)
    = Some (''COMPANY'', sample_grace ''COMPANY'' ''*'' 3 (Some 9)) \<and>
   keyDate (gr_effectiveFrom (sample_grace ''COMPANY'' ''*'' 3 (Some 9))) \<le> keyDate (4 * day_ms)"
proof -
  let ?rules = "[sample_grace ''COMPANY'' ''*'' 0 (Some 5), sample_grace ''COMPANY'' ''*'' 3 (Some 9),
       sample_grace ''TEAM'' ''A'' 1 None]"
  let ?c = "\<lparr>gc_shiftKey = None, gc_employeeKey = ''7'', gc_teamKey = Some ''A'', gc_departmentKey = None, gc_date = 4 * day_ms\<rparr>"
  have "checkInSource (resolveGrace ?rules ?c) = Some (''COMPANY'', sample_grace ''COMPANY'' ''*'' 3 (Some 9))"
    by (simp add: resolveGrace_def grace_levels_def grace_row_def sample_grace_def keyDate_def day_ms_def)
  then show ?thesis using resolveGrace_in_force [OF refl, of ?rules ?c] by simp
qed

end
