(* ===== verification/PayrollEngine.thy ===== *)
theory PayrollEngine
  imports Proration AnomalyRules
begin

text \<open>
  The deterministic payslip engine of \<^verbatim>\<open>src/src/services/payrollService.js\<close> and the day pricing of
  \<^verbatim>\<open>src/src/services/attendanceRulePayroll.service.js\<close>. \<open>buildPayslipFromInputs\<close> is the code's function of
  that name, cut at its numbered steps: each step takes and returns the accumulators of the code as
  one record. A line is identified by its position, where the code uses object identity as a map key.
  The digest of the tax rules is a parameter. Descriptions, which are text for the reader, and the
  paid-days figure read back from them are not modelled.
\<close>

section \<open>Inputs\<close>

record employment_term =
  et_baseSalary :: "string option"
  et_currency :: "string option"
  et_payFrequency :: string
  et_baseSalaryEarningTypeId :: "int option"

record payroll_run =
  run_periodStart :: int
  run_periodEnd :: int
  run_currencyCode :: "string option"
  run_countryCode :: "string option"

type_synonym iso_date = "int \<times> int \<times> int"

record nil_estimate =
  ne_estimatedAnnualTaxableSalary :: string
  ne_monthlyTaxableSalary :: string
  ne_otherSalaryIncomeConfirmed :: bool
  ne_periodStart :: "iso_date option"
  ne_periodEnd :: "iso_date option"
  ne_taxYearStart :: "iso_date option"
  ne_taxYearEnd :: "iso_date option"

record employee =
  em_id :: int
  em_employmentPeriods :: "employment_period option list"
  em_hireDate :: "int option"
  em_attendanceInputMode :: "string option"
  em_tax_exempt :: bool
  em_nilTaxEstimate :: "nil_estimate option"

record earning_type =
  ety_id :: int
  ety_code :: string
  ety_isTaxable :: "bool option"

record deduction_type =
  dty_id :: int
  dty_code :: string

record assignment =
  as_earningType :: "earning_type option"
  as_deductionType :: "deduction_type option"
  as_amount :: "string option"
  as_rate :: "string option"

record tax_row =
  tr_countryCode :: string
  tr_status :: "string option"
  tr_effectiveFrom :: int
  tr_effectiveTo :: "int option"
  tr_bracketMin :: "string option"
  tr_bracketMax :: "string option"
  tr_rate :: "string option"

record overtime_line =
  ot_hours :: rat
  ot_rate :: "rat option"

record benefit_line =
  be_employerContributionMinor :: int
  be_employeeContributionMinor :: int

record loan_line =
  lo_loanId :: int
  lo_amountMinor :: "int option"
  lo_outstandingMinor :: "int option"

record adjustment_line =
  aj_id :: int
  aj_amountMinor :: int

record bridges =
  br_overtimeLines :: "overtime_line list"
  br_benefitLines :: "benefit_line list"
  br_loanLines :: "loan_line list"
  br_lwpDays :: rat
  br_anomalyRows :: "anomaly list"
  br_deductionRules :: "deduction_rules option"
  br_attendanceAdjustments :: "adjustment_line list"
  br_manualAttendance :: "manual_input option"

record rule_config =
  rc_midMonthJoinerProration :: "bool option"
  rc_eobiEnabled :: bool
  rc_eobiWageCeilingMinor :: "int option"
  rc_eobiEmployeeRatePct :: "rat option"
  rc_garnishmentRecovery :: "bool option"
  rc_garnishmentCapPct :: "rat option"
  rc_lwpRecovery :: "bool option"

record pay_line =
  pl_typeId :: "int option"
  pl_code :: "string option"
  pl_amount :: string
  pl_loanId :: "int option"

text \<open>The accumulators of the function.\<close>

record slip =
  sl_earnings :: "pay_line list"
  sl_deductions :: "pay_line list"
  sl_monthly :: "(nat \<times> int) list"
  sl_loans :: "(nat \<times> int) list"
  sl_gross :: int
  sl_taxable :: int
  sl_uplift :: int
  sl_contractual :: int

definition empty_slip :: slip where
  "empty_slip = \<lparr>sl_earnings = [], sl_deductions = [], sl_monthly = [], sl_loans = [],
     sl_gross = 0, sl_taxable = 0, sl_uplift = 0, sl_contractual = 0\<rparr>"

text \<open>\<open>a || b\<close> on nullable texts.\<close>

definition or_text :: "string option \<Rightarrow> string option \<Rightarrow> string option" where
  "or_text a b = (case a of None \<Rightarrow> b | Some s \<Rightarrow> if s = [] then b else Some s)"

definition or_zero :: "string option \<Rightarrow> string option" where
  "or_zero a = or_text a (Some ''0'')"

definition amt :: "string option \<Rightarrow> int \<Rightarrow> hr_error + string" where
  "amt currency m = minorToDecimal (JBigInt m) currency"

definition isoDate :: "int \<Rightarrow> iso_date" where
  "isoDate ms = civil ms"

section \<open>Salary, tax and statutory rules\<close>

definition calculatePeriodSalaryMinor :: "employment_term \<Rightarrow> payroll_run \<Rightarrow> hr_error + int" where
  "calculatePeriodSalaryMinor t run =
    (let currency = or_text (et_currency t) (or_text (run_currencyCode run) (Some ''USD'')) in
     rbind (decimalToMinor (et_baseSalary t) currency) (\<lambda>monthly.
       if et_payFrequency t = ''MONTHLY'' then Inr monthly
       else if et_payFrequency t = ''SEMI_MONTHLY'' then
         rbind (allocateEvenly (JBigInt monthly) 2) (\<lambda>parts. Inr (hd parts))
       else if et_payFrequency t = ''BI_WEEKLY'' then
         scaleRational (JBigInt monthly) (JNumber 12) (JNumber 26)
       else if et_payFrequency t = ''WEEKLY'' then
         scaleRational (JBigInt monthly) (JNumber 12) (JNumber 52)
       else Inr monthly))"

definition tax_effective :: "string option \<Rightarrow> int \<Rightarrow> tax_row \<Rightarrow> bool" where
  "tax_effective country asOf r \<longleftrightarrow>
    Some (tr_countryCode r) = country \<and>
    (tr_status r = None \<or> tr_status r = Some ''ACTIVE'') \<and>
    tr_effectiveFrom r \<le> asOf \<and> (case tr_effectiveTo r of None \<Rightarrow> True | Some t \<Rightarrow> t \<ge> asOf)"

text \<open>The comparator of the sort throws on an unreadable bound; it is called on every row as soon as
  there are two.\<close>

definition selectEffectiveTaxRates :: "tax_row list \<Rightarrow> string option \<Rightarrow> int \<Rightarrow> hr_error + tax_row list" where
  "selectEffectiveTaxRates rows country asOf =
    (let rs = filter (tax_effective country asOf) rows in
     if length rs \<le> 1 then Inr rs
     else rbind (rmap (\<lambda>r. rbind (decimalParts (tr_bracketMin r)) (\<lambda>p. Inr (dec_value p, r))) rs)
       (\<lambda>ps. Inr (map snd (sort_key fst ps))))"

definition tax_step :: "string option \<Rightarrow> int \<Rightarrow> tax_row \<Rightarrow> int \<Rightarrow> hr_error + int" where
  "tax_step currency gross row tax =
    rbind (decimalToMinor (tr_bracketMin row) currency) (\<lambda>low.
    rbind (case tr_bracketMax row of
             None \<Rightarrow> Inr None
           | Some t \<Rightarrow> rbind (decimalToMinor (Some t) currency) (\<lambda>h. Inr (Some h))) (\<lambda>high.
      if gross \<le> low then Inr tax
      else
        let upper = (case high of None \<Rightarrow> gross | Some h \<Rightarrow> if gross < h then gross else h);
            slice = upper - low
        in if slice \<le> 0 then Inr tax
           else rbind (mulRate (JBigInt slice) (tr_rate row)) (\<lambda>t. Inr (tax + t))))"

definition computeProgressiveTaxMinor :: "int \<Rightarrow> tax_row list \<Rightarrow> string option \<Rightarrow> hr_error + int" where
  "computeProgressiveTaxMinor gross rows currency = rfold (tax_step currency gross) rows 0"

text \<open>\<open>sha\<close> is the digest of the JSON text of the instant and the rows' bounds, rates and windows.\<close>

definition computeRuleVersion :: "(int \<Rightarrow> tax_row list \<Rightarrow> string) \<Rightarrow> tax_row list \<Rightarrow> int \<Rightarrow> string" where
  "computeRuleVersion sha rows asOf = ''v1:'' @ take 16 (sha asOf rows)"

definition EOBI_DEFAULT_CEILING_MINOR :: int where
  "EOBI_DEFAULT_CEILING_MINOR = 1700000"

definition EOBI_DEFAULT_EMPLOYEE_RATE_PCT :: rat where
  "EOBI_DEFAULT_EMPLOYEE_RATE_PCT = 1"

definition stat_line :: "string option \<Rightarrow> string \<Rightarrow> int \<Rightarrow> hr_error + pay_line" where
  "stat_line currency code m =
    rbind (amt currency m) (\<lambda>a. Inr \<lparr>pl_typeId = None, pl_code = Some code, pl_amount = a, pl_loanId = None\<rparr>)"

definition computeStatutoryDeductions ::
  "int \<Rightarrow> string option \<Rightarrow> string option \<Rightarrow> rule_config \<Rightarrow> hr_error + pay_line list" where
  "computeStatutoryDeductions gross countryCode currency rc =
    (let cc = js_toUpper (case countryCode of None \<Rightarrow> [] | Some c \<Rightarrow> c) in
     if gross \<le> 0 then Inr []
     else if cc = ''PK'' then
       (if rc_eobiEnabled rc then
          let ceiling = (case rc_eobiWageCeilingMinor rc of None \<Rightarrow> EOBI_DEFAULT_CEILING_MINOR | Some c \<Rightarrow> c);
              ratePct = (case rc_eobiEmployeeRatePct rc of None \<Rightarrow> EOBI_DEFAULT_EMPLOYEE_RATE_PCT | Some p \<Rightarrow> p);
              assessable = (if gross > ceiling then ceiling else gross);
              eobi = (assessable * js_round (ratePct * 100)) sdiv 10000
          in if eobi > 0 then rbind (stat_line currency ''EOBI_EMPLOYEE'' eobi) (\<lambda>l. Inr [l]) else Inr []
        else Inr [])
     else if cc = ''US'' then
       rbind (decimalToMinor (Some ''176100'') (Some ''USD'')) (\<lambda>ssCap.
         let taxable = (if gross * 12 > ssCap then ssCap sdiv 12 else gross) in
         rbind (stat_line currency ''FICA_SOCIAL_SECURITY'' ((taxable * 620) sdiv 10000)) (\<lambda>ss.
         rbind (stat_line currency ''FICA_MEDICARE'' ((gross * 145) sdiv 10000)) (\<lambda>medicare.
           Inr [ss, medicare])))
     else if cc = ''GB'' then
       rbind (decimalToMinor (Some ''12570'') (Some ''GBP'')) (\<lambda>lower.
       rbind (decimalToMinor (Some ''50270'') (Some ''GBP'')) (\<lambda>upper.
         let annualized = gross * 12;
             annualExcess = (if annualized > lower then annualized - lower else 0);
             annualCap = upper - lower;
             niable = (if annualExcess > annualCap then annualCap else annualExcess);
             ni = ((niable * 8) sdiv 100) sdiv 12
         in if ni > 0 then rbind (stat_line currency ''NATIONAL_INSURANCE'' ni) (\<lambda>l. Inr [l]) else Inr []))
     else if cc = ''IN'' then
       rbind (stat_line currency ''EPF'' ((gross * 12) sdiv 100)) (\<lambda>epf.
       rbind (decimalToMinor (Some ''21000'') (Some ''INR'')) (\<lambda>esiCap.
         if gross < esiCap
         then rbind (stat_line currency ''ESI'' ((gross * 175) sdiv 10000)) (\<lambda>esi. Inr [epf, esi])
         else Inr [epf]))
     else Inr [])"

definition currency_unit :: "string \<Rightarrow> int" where
  "currency_unit code = 10 ^ (case map_of CURRENCY_EXPONENT code of None \<Rightarrow> 2 | Some e \<Rightarrow> e)"

definition priceRuleDays :: "rat \<Rightarrow> int \<Rightarrow> int \<Rightarrow> string \<Rightarrow> hr_error + int" where
  "priceRuleDays days basisMinor periodDays currency =
    (if days < 0 \<or> \<not> js_isInteger (days * 2) \<or> periodDays \<le> 0 \<or> basisMinor < 0
     then Inl (PlainError ''Invalid attendance pricing basis'')
     else
       let minor = (basisMinor * js_round (days * 2)) sdiv (2 * periodDays);
           unit = currency_unit currency
       in Inr (((minor + unit sdiv 2) sdiv unit) * unit))"

definition roundToWholeMajorHalfUp :: "int \<Rightarrow> string \<Rightarrow> int" where
  "roundToWholeMajorHalfUp value currency =
    (let unit = currency_unit (js_toUpper currency);
         sign = (if value < 0 then -1 else 1);
         absolute = (if value < 0 then - value else value)
     in sign * ((absolute + unit sdiv 2) sdiv unit) * unit)"

section \<open>The steps of the payslip\<close>

definition add_earning :: "pay_line \<Rightarrow> int \<Rightarrow> bool \<Rightarrow> slip \<Rightarrow> slip" where
  "add_earning line m taxable st =
    st\<lparr>sl_earnings := sl_earnings st @ [line], sl_gross := sl_gross st + m,
       sl_taxable := (if taxable then sl_taxable st + m else sl_taxable st)\<rparr>"

definition add_deduction :: "pay_line \<Rightarrow> slip \<Rightarrow> slip" where
  "add_deduction line st = st\<lparr>sl_deductions := sl_deductions st @ [line]\<rparr>"

definition plain_line :: "string option \<Rightarrow> string \<Rightarrow> pay_line" where
  "plain_line code a = \<lparr>pl_typeId = None, pl_code = code, pl_amount = a, pl_loanId = None\<rparr>"

definition hire_argument :: "employee \<Rightarrow> hire_arg" where
  "hire_argument e =
    (if em_employmentPeriods e \<noteq> [] then Periods (em_employmentPeriods e) else HireDate (em_hireDate e) None)"

definition slip_proration :: "employee \<Rightarrow> payroll_run \<Rightarrow> bridges \<Rightarrow> rule_config \<Rightarrow> hr_error + int" where
  "slip_proration e run br rc =
    (let employment = computeProrationFactor (run_periodStart run) (run_periodEnd run) (hire_argument e);
         factor = (if rc_midMonthJoinerProration rc = Some False then 1000000 else employment)
     in manualAttendanceFactor (em_attendanceInputMode e) (run_periodStart run) (run_periodEnd run)
          (br_manualAttendance br)
          (if isManualMonthlyEmployee (em_attendanceInputMode e) then employment else factor))"

definition slip_base :: "employment_term option \<Rightarrow> payroll_run \<Rightarrow> string option \<Rightarrow> int \<Rightarrow> slip \<Rightarrow> hr_error + slip" where
  "slip_base term run currency factor st =
    (case term of
       None \<Rightarrow> Inr st
     | Some t \<Rightarrow>
         rbind (calculatePeriodSalaryMinor t run) (\<lambda>full.
           let isProrated = factor < 1000000;
               base = (if isProrated then applyProration full factor else full)
           in rbind (amt currency base) (\<lambda>a.
             let st1 = add_earning \<lparr>pl_typeId = et_baseSalaryEarningTypeId t, pl_code = None,
                                    pl_amount = a, pl_loanId = None\<rparr> base True st
             in Inr (st1\<lparr>sl_monthly := sl_monthly st @ [(length (sl_earnings st), full)],
                          sl_contractual := sl_contractual st + full,
                          sl_uplift := (if isProrated \<and> full > base then sl_uplift st + (full - base)
                                        else sl_uplift st)\<rparr>))))"

definition overtime_step :: "string option \<Rightarrow> int \<Rightarrow> overtime_line \<Rightarrow> slip \<Rightarrow> hr_error + slip" where
  "overtime_step currency hourly ot st =
    (let rate = (case ot_rate ot of None \<Rightarrow> 3 / 2 | Some r \<Rightarrow> if r = 0 then 3 / 2 else r);
         m = js_round (ot_hours ot * of_int hourly * rate)
     in if m > 0 then rbind (amt currency m) (\<lambda>a. Inr (add_earning (plain_line None a) m True st)) else Inr st)"

definition slip_overtime :: "employment_term option \<Rightarrow> string option \<Rightarrow> bridges \<Rightarrow> slip \<Rightarrow> hr_error + slip" where
  "slip_overtime term currency br st =
    (case term of
       None \<Rightarrow> Inr st
     | Some t \<Rightarrow>
         if br_overtimeLines br = [] then Inr st
         else rbind (decimalToMinor (or_zero (et_baseSalary t)) currency) (\<lambda>monthly.
           rfold (overtime_step currency (monthly sdiv 176)) (br_overtimeLines br) st))"

definition employer_step :: "string option \<Rightarrow> benefit_line \<Rightarrow> slip \<Rightarrow> hr_error + slip" where
  "employer_step currency b st =
    (let m = be_employerContributionMinor b in
     if m > 0 then rbind (amt currency m) (\<lambda>a. Inr (add_earning (plain_line None a) m True st)) else Inr st)"

definition assignment_minor :: "assignment \<Rightarrow> string option \<Rightarrow> int \<Rightarrow> hr_error + int" where
  "assignment_minor a currency gross =
    (case as_amount a of
       Some v \<Rightarrow> decimalToMinor (Some v) currency
     | None \<Rightarrow> mulRate (JBigInt gross) (or_zero (as_rate a)))"

definition assignment_step :: "string option \<Rightarrow> int \<Rightarrow> assignment \<Rightarrow> slip \<Rightarrow> hr_error + slip" where
  "assignment_step currency factor a st =
    (case (as_earningType a, as_deductionType a) of
       (Some ety, _) \<Rightarrow>
         rbind (assignment_minor a currency (sl_gross st)) (\<lambda>full.
           let fixed = as_amount a \<noteq> None;
               m = (if fixed then applyProration full factor else full);
               taxable = (ety_isTaxable ety \<noteq> Some False)
           in rbind (amt currency m) (\<lambda>t.
             let st1 = add_earning \<lparr>pl_typeId = Some (ety_id ety), pl_code = Some (ety_code ety),
                                    pl_amount = t, pl_loanId = None\<rparr> m taxable st
             in Inr (st1\<lparr>sl_monthly := (if fixed then sl_monthly st @ [(length (sl_earnings st), full)]
                                         else sl_monthly st),
                          sl_uplift := (if taxable \<and> fixed \<and> m < full then sl_uplift st + (full - m)
                                        else sl_uplift st),
                          sl_contractual := sl_contractual st + (if fixed then full else m)\<rparr>)))
     | (None, Some dty) \<Rightarrow>
         rbind (assignment_minor a currency (sl_gross st)) (\<lambda>m.
         rbind (amt currency m) (\<lambda>t.
           Inr (add_deduction \<lparr>pl_typeId = Some (dty_id dty), pl_code = Some (dty_code dty),
                               pl_amount = t, pl_loanId = None\<rparr> st)))
     | (None, None) \<Rightarrow> Inr st)"

definition employee_benefit_step :: "string option \<Rightarrow> benefit_line \<Rightarrow> slip \<Rightarrow> hr_error + slip" where
  "employee_benefit_step currency b st =
    (let m = be_employeeContributionMinor b in
     if m > 0 then rbind (amt currency m) (\<lambda>a. Inr (add_deduction (plain_line (Some ''BENEFIT_CONTRIBUTION'') a) st))
     else Inr st)"

definition loan_step :: "string option \<Rightarrow> int \<Rightarrow> loan_line \<Rightarrow> slip \<times> int \<Rightarrow> hr_error + slip \<times> int" where
  "loan_step currency grossLimit loan acc =
    (case acc of (st, used) \<Rightarrow>
       let loanMinor = (case lo_amountMinor loan of None \<Rightarrow> 0 | Some m \<Rightarrow> m);
           capped = (if used + loanMinor > grossLimit then grossLimit - used else loanMinor)
       in if capped > 0 then
            rbind (amt currency capped) (\<lambda>a.
              let st1 = add_deduction \<lparr>pl_typeId = None, pl_code = Some ''LOAN_REPAYMENT'', pl_amount = a,
                                       pl_loanId = Some (lo_loanId loan)\<rparr> st
              in Inr (st1\<lparr>sl_loans := (case lo_outstandingMinor loan of
                             None \<Rightarrow> sl_loans st
                           | Some b \<Rightarrow> sl_loans st @ [(length (sl_deductions st), b)])\<rparr>, used + capped))
          else Inr (st, used))"

definition garnishment_limit :: "rule_config \<Rightarrow> int \<Rightarrow> int" where
  "garnishment_limit rc gross =
    (let capPct = (case rc_garnishmentCapPct rc of None \<Rightarrow> 33 | Some p \<Rightarrow> js_round p)
     in (gross * capPct) sdiv 100)"

definition slip_loans :: "string option \<Rightarrow> bridges \<Rightarrow> rule_config \<Rightarrow> slip \<Rightarrow> hr_error + slip" where
  "slip_loans currency br rc st =
    (if rc_garnishmentRecovery rc = Some False \<or> br_loanLines br = [] then Inr st
     else rbind (rfold (loan_step currency (garnishment_limit rc (sl_gross st))) (br_loanLines br) (st, 0))
       (\<lambda>acc. Inr (fst acc)))"

definition period_days :: "payroll_run \<Rightarrow> int" where
  "period_days run = max 1 (keyDate (run_periodEnd run) - keyDate (run_periodStart run) + 1)"

definition daysToMinor :: "int \<Rightarrow> int \<Rightarrow> rat \<Rightarrow> int" where
  "daysToMinor basis periodDays days = (basis * js_round (days * 100)) sdiv (100 * periodDays)"

text \<open>The step also fixes the basis and the divisor that later revisions of the days reuse.\<close>

definition slip_days :: "employment_term option \<Rightarrow> payroll_run \<Rightarrow> string option \<Rightarrow> bridges \<Rightarrow> rule_config \<Rightarrow>
    slip \<Rightarrow> hr_error + slip \<times> int \<times> int" where
  "slip_days term run currency br rc st =
    rbind (ruleDeductions (br_anomalyRows br) (Some (run_periodStart run)) (Some (run_periodEnd run))
             (br_deductionRules br)) (\<lambda>assessment.
      case term of
        None \<Rightarrow> Inr (st, 0, 1)
      | Some t \<Rightarrow>
          rbind (decimalToMinor (or_zero (et_baseSalary t)) currency) (\<lambda>baseMinor.
            let periodDays = period_days run;
                basis = (if sl_contractual st \<noteq> 0 then sl_contractual st else baseMinor);
                lwp = daysToMinor basis periodDays (br_lwpDays br)
            in
            rbind (if rc_lwpRecovery rc \<noteq> Some False \<and> br_lwpDays br > 0 \<and> lwp > 0
                   then rbind (amt currency lwp) (\<lambda>a. Inr (add_deduction (plain_line (Some ''LWP_RECOVERY'') a) st))
                   else Inr st) (\<lambda>st1.
            rbind (priceRuleDays (ra_days assessment) basis periodDays
                     (case currency of None \<Rightarrow> [] | Some c \<Rightarrow> c)) (\<lambda>ruleAmount.
            rbind (if ra_days assessment > 0
                   then rbind (amt currency ruleAmount)
                     (\<lambda>a. Inr (add_deduction (plain_line (Some ''ATTENDANCE_RULES_V2'') a) st1))
                   else Inr st1) (\<lambda>st2.
              Inr (st2, basis, periodDays))))))"

definition adjustment_step :: "string option \<Rightarrow> adjustment_line \<Rightarrow> slip \<Rightarrow> hr_error + slip" where
  "adjustment_step currency aj st =
    rbind (amt currency (aj_amountMinor aj)) (\<lambda>a.
      Inr (add_deduction (plain_line (Some ''ATTENDANCE_RULES_ADJUSTMENT'') a) st))"

definition nil_error :: hr_error where
  "nil_error = AppError 409 ''Annual nil-tax estimate is invalid or stale''"

definition positive_rate :: "tax_row \<Rightarrow> bool" where
  "positive_rate r \<longleftrightarrow> (case decimalParts (tr_rate r) of Inl _ \<Rightarrow> False | Inr p \<Rightarrow> dec_value p > 0)"

definition check_nil_estimate ::
  "nil_estimate \<Rightarrow> payroll_run \<Rightarrow> string option \<Rightarrow> tax_row list \<Rightarrow> int \<Rightarrow> hr_error + unit" where
  "check_nil_estimate ne run currency sortedRows taxBase =
    rbind (decimalToMinor (Some (ne_estimatedAnnualTaxableSalary ne)) currency) (\<lambda>annual.
      case (find positive_rate sortedRows, ne_taxYearStart ne, ne_taxYearEnd ne) of
        (Some firstTaxable, Some (ys, ms, ds), Some (ye, me, de)) \<Rightarrow>
          if run_countryCode run \<noteq> Some ''PK'' \<or> currency \<noteq> Some ''PKR'' \<or> \<not> ne_otherSalaryIncomeConfirmed ne \<or>
             ne_periodStart ne \<noteq> Some (isoDate (run_periodStart run)) \<or>
             ne_periodEnd ne \<noteq> Some (isoDate (run_periodEnd run)) \<or>
             (ys, ms, ds) > isoDate (run_periodStart run) \<or> (ye, me, de) < isoDate (run_periodEnd run) \<or>
             (ms, ds) \<noteq> (7, 1) \<or> (me, de) \<noteq> (6, 30) \<or> ye \<noteq> ys + 1
          then Inl nil_error
          else rbind (decimalToMinor (Some (ne_monthlyTaxableSalary ne)) currency) (\<lambda>monthly.
            if monthly \<noteq> taxBase \<or> annual < 0 then Inl nil_error
            else rbind (decimalToMinor (tr_bracketMin firstTaxable) currency) (\<lambda>low.
              ensure (annual \<le> low * 12) nil_error))
      | _ \<Rightarrow> Inl nil_error)"

definition slip_tax :: "(int \<Rightarrow> tax_row list \<Rightarrow> string) \<Rightarrow> employee \<Rightarrow> payroll_run \<Rightarrow> string option \<Rightarrow> int \<Rightarrow>
    tax_row list \<Rightarrow> int \<Rightarrow> slip \<Rightarrow> hr_error + slip \<times> string" where
  "slip_tax sha e run currency factor rows asOf st =
    rbind (selectEffectiveTaxRates rows (run_countryCode run) asOf) (\<lambda>sortedRows.
      let ruleVersion = computeRuleVersion sha sortedRows asOf;
          taxBase = (if em_tax_exempt e then 0
            else sl_taxable st + (if isManualMonthlyEmployee (em_attendanceInputMode e) \<and> factor = 0 then 0
                                  else sl_uplift st))
      in rbind (computeProgressiveTaxMinor taxBase sortedRows currency) (\<lambda>computed.
         rbind (case em_nilTaxEstimate e of
                  None \<Rightarrow> Inr computed
                | Some ne \<Rightarrow> rbind (check_nil_estimate ne run currency sortedRows taxBase) (\<lambda>_. Inr 0)) (\<lambda>tax.
           if tax > 0 \<or> sortedRows \<noteq> []
           then rbind (amt currency tax) (\<lambda>a.
             Inr (add_deduction (plain_line (Some ''INCOME_TAX'') a) st, ruleVersion))
           else Inr (st, ruleVersion))))"

section \<open>Rounding, presentation and totals\<close>

definition line_minor :: "string option \<Rightarrow> pay_line \<Rightarrow> hr_error + int" where
  "line_minor currency l = decimalToMinor (Some (pl_amount l)) currency"

definition set_amount :: "string option \<Rightarrow> int \<Rightarrow> pay_line \<Rightarrow> hr_error + pay_line" where
  "set_amount currency m l = rbind (amt currency m) (\<lambda>a. Inr (l\<lparr>pl_amount := a\<rparr>))"

definition whole_major :: "string option \<Rightarrow> int \<Rightarrow> int" where
  "whole_major currency m = roundToWholeMajorHalfUp m (case currency of None \<Rightarrow> [] | Some c \<Rightarrow> c)"

definition round_earning :: "string option \<Rightarrow> pay_line \<Rightarrow> hr_error + pay_line" where
  "round_earning currency l =
    rbind (line_minor currency l) (\<lambda>m. set_amount currency (whole_major currency m) l)"

definition round_deduction :: "string option \<Rightarrow> (nat \<times> int) list \<Rightarrow> nat \<times> pay_line \<Rightarrow> hr_error + pay_line" where
  "round_deduction currency balances il =
    rbind (line_minor currency (snd il)) (\<lambda>exact.
      let rounded = whole_major currency exact in
      set_amount currency
        (case map_of balances (fst il) of
           None \<Rightarrow> rounded
         | Some balance \<Rightarrow> if exact \<ge> balance \<or> rounded > balance then balance else rounded)
        (snd il))"

definition slip_round :: "string option \<Rightarrow> slip \<Rightarrow> hr_error + slip" where
  "slip_round currency st =
    rbind (rmap (round_earning currency) (sl_earnings st)) (\<lambda>es.
    rbind (rmap (round_deduction currency (sl_loans st)) (enumerate 0 (sl_deductions st))) (\<lambda>ds.
      Inr (st\<lparr>sl_earnings := es, sl_deductions := ds\<rparr>)))"

definition present_step :: "string option \<Rightarrow> nat \<times> int \<Rightarrow> pay_line list \<times> int \<Rightarrow> hr_error + pay_line list \<times> int" where
  "present_step currency mf acc =
    (case (mf, acc) of ((i, full), (es, adjustment)) \<Rightarrow>
       let amount = whole_major currency full in
       rbind (line_minor currency (es ! i)) (\<lambda>m.
       rbind (set_amount currency amount (es ! i)) (\<lambda>l.
         Inr (es[i := l], adjustment + (amount - m)))))"

definition slip_present :: "employment_term option \<Rightarrow> employee \<Rightarrow> string option \<Rightarrow> int \<Rightarrow> slip \<Rightarrow> hr_error + slip" where
  "slip_present term e currency factor st =
    (if (case term of None \<Rightarrow> False | Some t \<Rightarrow> et_payFrequency t = ''MONTHLY'') \<and>
        \<not> isManualMonthlyEmployee (em_attendanceInputMode e) \<and> factor > 0 \<and> factor < 1000000
     then
       rbind (rfold (present_step currency) (sl_monthly st) (sl_earnings st, 0)) (\<lambda>(es, adjustment).
         let st1 = st\<lparr>sl_earnings := es\<rparr> in
         if adjustment > 0
         then rbind (amt currency adjustment) (\<lambda>a.
           Inr (add_deduction (plain_line (Some ''EMPLOYMENT_PRORATION'') a) st1))
         else Inr st1)
     else Inr st)"

record payslip =
  ps_employeeId :: int
  ps_ruleVersion :: string
  ps_ratesEffectiveAt :: int
  ps_grossAmount :: string
  ps_totalDeductions :: string
  ps_netAmount :: string
  ps_prorationFactor :: rat
  ps_attendanceBasisMinor :: int
  ps_attendancePeriodDays :: int
  ps_earnings :: "pay_line list"
  ps_deductions :: "pay_line list"

definition lines_total :: "string option \<Rightarrow> pay_line list \<Rightarrow> hr_error + int" where
  "lines_total currency ls = rbind (rmap (line_minor currency) ls) (\<lambda>ms. money_sum (map JBigInt ms))"

record payslip_inputs =
  in_employee :: employee
  in_term :: "employment_term option"
  in_assignments :: "assignment list"
  in_run :: payroll_run
  in_taxRateRows :: "tax_row list"
  in_asOf :: "int option"
  in_bridges :: bridges
  in_ruleConfig :: rule_config

definition payslip_currency :: "payslip_inputs \<Rightarrow> string option" where
  "payslip_currency inp =
    or_text (run_currencyCode (in_run inp))
      (or_text (case in_term inp of None \<Rightarrow> None | Some t \<Rightarrow> et_currency t) (Some ''USD''))"

text \<open>The hand-entered month of a manual employee replaces the attendance inputs.\<close>

definition effective_bridges :: "employee \<Rightarrow> bridges \<Rightarrow> bridges" where
  "effective_bridges e br =
    (if isManualMonthlyEmployee (em_attendanceInputMode e)
     then br\<lparr>br_anomalyRows := [], br_lwpDays := 0\<rparr> else br)"

definition slip_lines :: "(int \<Rightarrow> tax_row list \<Rightarrow> string) \<Rightarrow> payslip_inputs \<Rightarrow> int \<Rightarrow>
    hr_error + slip \<times> string \<times> int \<times> int" where
  "slip_lines sha inp factor =
    (let e = in_employee inp; run = in_run inp; rc = in_ruleConfig inp; term = in_term inp;
         cur = payslip_currency inp; br = effective_bridges e (in_bridges inp);
         asOf = (case in_asOf inp of None \<Rightarrow> run_periodEnd run | Some t \<Rightarrow> t)
     in
     rbind (slip_base term run cur factor empty_slip) (\<lambda>st.
     rbind (slip_overtime term cur br st) (\<lambda>st.
     rbind (rfold (employer_step cur) (br_benefitLines br) st) (\<lambda>st.
     rbind (rfold (assignment_step cur factor) (in_assignments inp) st) (\<lambda>st.
     rbind (rfold (employee_benefit_step cur) (br_benefitLines br) st) (\<lambda>st.
     rbind (slip_loans cur br rc st) (\<lambda>st.
     rbind (slip_days term run cur br rc st) (\<lambda>(st, basis, days).
     rbind (rfold (adjustment_step cur) (br_attendanceAdjustments br) st) (\<lambda>st.
     rbind (computeStatutoryDeductions (sl_gross st) (run_countryCode run) cur rc) (\<lambda>stat.
     rbind (slip_tax sha e run cur factor (in_taxRateRows inp) asOf
              (st\<lparr>sl_deductions := sl_deductions st @ stat\<rparr>)) (\<lambda>(st, version).
       Inr (st, version, basis, days))))))))))))"

definition buildPayslipFromInputs :: "(int \<Rightarrow> tax_row list \<Rightarrow> string) \<Rightarrow> payslip_inputs \<Rightarrow> hr_error + payslip" where
  "buildPayslipFromInputs sha inp =
    (let e = in_employee inp; cur = payslip_currency inp;
         asOf = (case in_asOf inp of None \<Rightarrow> run_periodEnd (in_run inp) | Some t \<Rightarrow> t)
     in
     rbind (slip_proration e (in_run inp) (in_bridges inp) (in_ruleConfig inp)) (\<lambda>factor.
     rbind (slip_lines sha inp factor) (\<lambda>(st, version, basis, days).
     rbind (lines_total cur (sl_deductions st)) (\<lambda>_.
     rbind (slip_round cur st) (\<lambda>st.
     rbind (slip_present (in_term inp) e cur factor st) (\<lambda>st.
     rbind (lines_total cur (sl_earnings st)) (\<lambda>gross.
     rbind (lines_total cur (sl_deductions st)) (\<lambda>total_deductions.
     rbind (amt cur gross) (\<lambda>grossText.
     rbind (amt cur total_deductions) (\<lambda>deductionText.
     rbind (amt cur (gross - total_deductions)) (\<lambda>netText.
       Inr \<lparr>ps_employeeId = em_id e, ps_ruleVersion = version, ps_ratesEffectiveAt = asOf,
            ps_grossAmount = grossText, ps_totalDeductions = deductionText, ps_netAmount = netText,
            ps_prorationFactor = (if factor \<ge> 1000000 then 1 else of_int factor / 1000000),
            ps_attendanceBasisMinor = basis, ps_attendancePeriodDays = days,
            ps_earnings = sl_earnings st, ps_deductions = sl_deductions st\<rparr>)))))))))))"

section \<open>Around the engine\<close>

record repayment_plan_input =
  pi_existing :: bool
  pi_installmentMinor :: "int option"
  pi_grossLimitMinor :: "int option"
  pi_usedMinor :: "int option"

text \<open>\<open>None\<close> is \<^verbatim>\<open>{skip: true}\<close>.\<close>

definition planLoanRepayment :: "repayment_plan_input \<Rightarrow> int option" where
  "planLoanRepayment p =
    (if pi_existing p then None
     else
       let installment = (case pi_installmentMinor p of None \<Rightarrow> 0 | Some m \<Rightarrow> m) in
       if installment \<le> 0 then None
       else
         let limit = (case pi_grossLimitMinor p of None \<Rightarrow> 0 | Some m \<Rightarrow> m);
             used = (case pi_usedMinor p of None \<Rightarrow> 0 | Some m \<Rightarrow> m);
             remaining = limit - used
         in if remaining \<le> 0 then None
            else
              let amount = (if installment > remaining then remaining else installment) in
              if amount \<le> 0 then None else Some amount)"

definition BASE_DUPLICATE_CODES :: "string list" where
  "BASE_DUPLICATE_CODES = [''BASIC'', ''BASE_SALARY'']"

definition dedupeBaseSalaryAssignments :: "employment_term list \<Rightarrow> assignment list \<Rightarrow> assignment list \<times> nat" where
  "dedupeBaseSalaryAssignments terms assignments =
    (if terms = [] \<or> assignments = [] then (assignments, 0)
     else
       let kept = filter (\<lambda>a. \<not> (case as_earningType a of
               None \<Rightarrow> False | Some t \<Rightarrow> ety_code t \<in> set BASE_DUPLICATE_CODES)) assignments
       in (kept, length assignments - length kept))"

text \<open>Rows are kept by their dates; a spell of the history always has a start date.\<close>

definition scopeAttendanceToEmployment ::
  "(int \<times> int option) list \<Rightarrow> ('a \<Rightarrow> int) \<Rightarrow> int \<Rightarrow> 'a list \<Rightarrow> 'a list \<times> nat" where
  "scopeAttendanceToEmployment spells date periodEnd rows =
    (if spells = [] \<or> rows = [] then (rows, 0)
     else
       let kept = filter (\<lambda>r. list_ex (\<lambda>s. date r \<ge> fst s \<and>
             date r \<le> (case snd s of None \<Rightarrow> periodEnd | Some e \<Rightarrow> e)) spells) rows
       in (kept, length rows - length kept))"

section \<open>Amounts and totals\<close>

lemma amt_back:
  assumes "amt cur m = Inr t"
  shows "decimalToMinor (Some t) cur = Inr m"
proof -
  obtain e where e: "exponentOf cur = Inr e" "e \<le> DECIMAL_SCALE"
    and t: "t = fixedDecimal (m * 10 ^ (DECIMAL_SCALE - e)) DECIMAL_SCALE"
    using assms by (auto simp: amt_def minorToDecimal_def result_simps split: if_splits)
  then show ?thesis using rescale_down_exact [OF e(2), of m] by (simp add: decimalToMinor_def money_simps)
qed

lemma set_amount_minor: "set_amount cur m l = Inr l' \<Longrightarrow> line_minor cur l' = Inr m \<and> pl_code l' = pl_code l"
  by (auto simp: set_amount_def line_minor_def result_simps dest: amt_back)

lemma money_sum_BigInt: "money_sum (map JBigInt ms) = Inr (sum_list ms)"
proof -
  have "rfold (\<lambda>v t. rbind (assertMinor v) (\<lambda>m. Inr (t + m))) (map JBigInt ms) t = Inr (t + sum_list ms)" for t
    by (induction ms arbitrary: t) simp_all
  then show ?thesis by (simp add: money_sum_def)
qed

lemma lines_total_Inr [result_simps]:
  "lines_total cur ls = Inr t \<longleftrightarrow> (\<exists>ms. rmap (line_minor cur) ls = Inr ms \<and> t = sum_list ms)"
  by (auto simp: lines_total_def result_simps money_sum_BigInt)

lemma sum_list_int_update: "i < length xs \<Longrightarrow> sum_list (xs[i := v]) = sum_list xs + v - xs ! i" for xs :: "int list"
proof (induction xs arbitrary: i)
  case (Cons x xs)
  then show ?case by (cases i) simp_all
qed simp

section \<open>Whole currency units\<close>

lemma currency_unit_pos: "0 < currency_unit c"
  by (simp add: currency_unit_def)

definition round_half_up :: "int \<Rightarrow> int \<Rightarrow> int" where
  "round_half_up u a = ((a + u div 2) div u) * u"

lemma round_half_up_near:
  assumes "0 < u"
  shows "\<bar>round_half_up u a - a\<bar> * 2 \<le> u" "u dvd round_half_up u a"
proof -
  define h r where "h = u div 2" and "r = (a + h) mod u"
  have "round_half_up u a = a + h - r"
    unfolding round_half_up_def h_def [symmetric] r_def by (rule minus_mod_eq_div_mult [symmetric])
  moreover have "0 \<le> r" "r < u" using assms by (simp_all add: r_def)
  moreover have "h * 2 \<le> u" "u \<le> h * 2 + 1" unfolding h_def by presburger+
  ultimately show "\<bar>round_half_up u a - a\<bar> * 2 \<le> u" by (cases "r \<le> h") simp_all
  show "u dvd round_half_up u a" by (simp add: round_half_up_def)
qed

lemma round_half_up_mono: "0 < u \<Longrightarrow> a \<le> b \<Longrightarrow> round_half_up u a \<le> round_half_up u b"
  by (simp add: round_half_up_def zdiv_mono1)

lemma round_half_up_nonneg: "0 < u \<Longrightarrow> 0 \<le> a \<Longrightarrow> 0 \<le> round_half_up u a"
  by (simp add: round_half_up_def pos_imp_zdiv_nonneg_iff)

lemma round_half_up_exact: "0 < u \<Longrightarrow> u dvd a \<Longrightarrow> round_half_up u a = a"
  by (auto simp: round_half_up_def dvd_def)

lemma roundToWholeMajorHalfUp_eq:
  "roundToWholeMajorHalfUp v c = (if v < 0 then - 1 else 1) * round_half_up (currency_unit (js_toUpper c)) \<bar>v\<bar>"
proof -
  let ?u = "currency_unit (js_toUpper c)"
  have u: "0 < ?u" by (rule currency_unit_pos)
  then have "?u sdiv 2 = ?u div 2" "(\<bar>v\<bar> + ?u div 2) sdiv ?u = (\<bar>v\<bar> + ?u div 2) div ?u"
    by simp_all
  then show ?thesis by (simp add: roundToWholeMajorHalfUp_def round_half_up_def Let_def if_neg_abs)
qed

lemma whole_major_dvd: "currency_unit (js_toUpper (case cur of None \<Rightarrow> [] | Some c \<Rightarrow> c)) dvd whole_major cur m"
  unfolding whole_major_def roundToWholeMajorHalfUp_eq
  by (intro dvd_mult round_half_up_near(2) currency_unit_pos)

lemma whole_major_mono: "a \<le> b \<Longrightarrow> whole_major cur a \<le> whole_major cur b"
proof -
  assume ab: "a \<le> b"
  let ?u = "currency_unit (js_toUpper (case cur of None \<Rightarrow> [] | Some c \<Rightarrow> c))"
  have u: "0 < ?u" by (rule currency_unit_pos)
  have "0 \<le> round_half_up ?u \<bar>a\<bar>" "0 \<le> round_half_up ?u \<bar>b\<bar>" using u round_half_up_nonneg by simp_all
  then show ?thesis
    using ab round_half_up_mono [OF u, of "\<bar>a\<bar>" "\<bar>b\<bar>"] round_half_up_mono [OF u, of "\<bar>b\<bar>" "\<bar>a\<bar>"]
    unfolding whole_major_def roundToWholeMajorHalfUp_eq by (cases "a < 0"; cases "b < 0") auto
qed

section \<open>Loan lines\<close>

text \<open>The balances recorded for rounding belong to loan lines, through every step that appends.\<close>

definition loans_ok :: "slip \<Rightarrow> bool" where
  "loans_ok st \<longleftrightarrow> (\<forall>p \<in> set (sl_loans st). fst p < length (sl_deductions st) \<and>
     pl_code (sl_deductions st ! fst p) = Some ''LOAN_REPAYMENT'')"

lemma loans_ok_empty [simp]: "loans_ok empty_slip"
  by (simp add: loans_ok_def empty_slip_def)

lemma loans_ok_append:
  "loans_ok st \<Longrightarrow> sl_loans st' = sl_loans st \<Longrightarrow> sl_deductions st' = sl_deductions st @ ls \<Longrightarrow> loans_ok st'"
  by (auto simp: loans_ok_def nth_append)

lemma appends_earning [simp]:
  "sl_loans (add_earning l m t st) = sl_loans st" "sl_deductions (add_earning l m t st) = sl_deductions st"
  by (simp_all add: add_earning_def)

lemma appends_deduction [simp]:
  "sl_loans (add_deduction l st) = sl_loans st" "sl_deductions (add_deduction l st) = sl_deductions st @ [l]"
  by (simp_all add: add_deduction_def)

text \<open>A step that leaves the balances alone and only appends deductions.\<close>

definition appends :: "slip \<Rightarrow> slip \<Rightarrow> bool" where
  "appends st st' \<longleftrightarrow> sl_loans st' = sl_loans st \<and> (\<exists>ls. sl_deductions st' = sl_deductions st @ ls)"

lemma appends_loans_ok: "appends st st' \<Longrightarrow> loans_ok st \<Longrightarrow> loans_ok st'"
  by (auto simp: appends_def intro: loans_ok_append)

lemma appends_refl: "appends st st"
  by (simp add: appends_def)

lemma appends_trans: "appends a b \<Longrightarrow> appends b c \<Longrightarrow> appends a c"
  by (auto simp: appends_def)

lemma appends_rfold:
  assumes "rfold f xs st = Inr st'" and "\<And>x s s'. f x s = Inr s' \<Longrightarrow> appends s s'"
  shows "appends st st'"
  using assms(1)
  by (rule rfold_invariant [where P = "appends st"]) (auto intro: appends_refl appends_trans assms(2))

lemma appends_base: "slip_base term run cur f st = Inr st' \<Longrightarrow> appends st st'"
  by (auto simp: slip_base_def appends_def result_simps Let_def split: option.splits)

lemma appends_overtime_step: "overtime_step cur h ot st = Inr st' \<Longrightarrow> appends st st'"
  by (auto simp: overtime_step_def appends_def result_simps Let_def split: if_splits)

lemma appends_overtime: "slip_overtime term cur br st = Inr st' \<Longrightarrow> appends st st'"
  by (auto simp: slip_overtime_def appends_refl result_simps intro: appends_rfold appends_overtime_step
      split: option.splits if_splits)

lemma appends_employer: "employer_step cur b st = Inr st' \<Longrightarrow> appends st st'"
  by (auto simp: employer_step_def appends_def result_simps Let_def split: if_splits)

lemma appends_assignment: "assignment_step cur f a st = Inr st' \<Longrightarrow> appends st st'"
  by (auto simp: assignment_step_def appends_def result_simps Let_def split: option.splits)

lemma appends_employee_benefit: "employee_benefit_step cur b st = Inr st' \<Longrightarrow> appends st st'"
  by (auto simp: employee_benefit_step_def appends_def result_simps Let_def split: if_splits)

lemma appends_adjustment: "adjustment_step cur a st = Inr st' \<Longrightarrow> appends st st'"
  by (auto simp: adjustment_step_def appends_def result_simps)

lemma appends_tax: "slip_tax sha e run cur f rows asOf st = Inr (st', v) \<Longrightarrow> appends st st'"
  by (auto simp: slip_tax_def appends_def result_simps Let_def split: if_splits)

lemma appends_days: "slip_days term run cur br rc st = Inr (st', b, d) \<Longrightarrow> appends st st'"
  by (auto simp: slip_days_def appends_def result_simps Let_def split: option.splits if_splits)

lemma loan_step_shape:
  assumes "loan_step cur cap loan (st, used) = Inr (st', used')"
  shows "(st' = st \<and> used' = used) \<or>
    (\<exists>l extra. sl_deductions st' = sl_deductions st @ [l] \<and> pl_code l = Some ''LOAN_REPAYMENT'' \<and>
       line_minor cur l = Inr (used' - used) \<and> used < used' \<and> used' \<le> cap \<and>
       sl_monthly st' = sl_monthly st \<and> sl_earnings st' = sl_earnings st \<and>
       sl_loans st' = sl_loans st @ extra \<and> (\<forall>p \<in> set extra. fst p = length (sl_deductions st)))"
proof -
  let ?m = "case lo_amountMinor loan of None \<Rightarrow> 0 | Some m \<Rightarrow> m"
  let ?c = "if used + ?m > cap then cap - used else ?m"
  show ?thesis
  proof (cases "?c > 0")
    case False
    then show ?thesis using assms by (simp add: loan_step_def Let_def)
  next
    case True
    then obtain a where a: "amt cur ?c = Inr a" and used': "used' = used + ?c"
      and st': "st' = add_deduction \<lparr>pl_typeId = None, pl_code = Some ''LOAN_REPAYMENT'', pl_amount = a,
                                     pl_loanId = Some (lo_loanId loan)\<rparr> st
        \<lparr>sl_loans := (case lo_outstandingMinor loan of None \<Rightarrow> sl_loans st
                      | Some b \<Rightarrow> sl_loans st @ [(length (sl_deductions st), b)])\<rparr>"
      using assms by (auto simp: loan_step_def Let_def result_simps simp del: add_0)
    have "line_minor cur \<lparr>pl_typeId = None, pl_code = Some ''LOAN_REPAYMENT'', pl_amount = a,
        pl_loanId = Some (lo_loanId loan)\<rparr> = Inr (used' - used)"
      using amt_back [OF a] used' by (simp add: line_minor_def)
    moreover have "used < used'" "used' \<le> cap" using True used' by (auto split: if_splits)
    ultimately show ?thesis unfolding st' by (cases "lo_outstandingMinor loan") (auto simp: add_deduction_def)
  qed
qed

lemma loan_step_ok:
  assumes "loan_step cur cap loan (st, used) = Inr (st', used')" and "loans_ok st"
  shows "loans_ok st'"
  using loan_step_shape [OF assms(1)] assms(2) by (fastforce simp: loans_ok_def nth_append)

lemma slip_loans_ok: "slip_loans cur br rc st = Inr st' \<Longrightarrow> loans_ok st \<Longrightarrow> loans_ok st'"
proof -
  assume ok: "loans_ok st" and s: "slip_loans cur br rc st = Inr st'"
  show ?thesis
  proof (cases "rc_garnishmentRecovery rc = Some False \<or> br_loanLines br = []")
    case False
    then obtain u where "rfold (loan_step cur (garnishment_limit rc (sl_gross st))) (br_loanLines br) (st, 0) = Inr (st', u)"
      using s by (auto simp: slip_loans_def result_simps)
    then have "loans_ok (fst (st', u))"
      by (rule rfold_invariant [where P = "\<lambda>a. loans_ok (fst a)"]) (use ok loan_step_ok in fastforce)+
    then show ?thesis by simp
  qed (use s ok in \<open>simp add: slip_loans_def\<close>)
qed

lemma slip_lines_cases:
  assumes "slip_lines sha inp factor = Inr (st, v, b, d)"
  obtains br s1 s2 s3 s4 s5 s6 s7 s8 stat where
    "br = effective_bridges (in_employee inp) (in_bridges inp)"
    "slip_base (in_term inp) (in_run inp) (payslip_currency inp) factor empty_slip = Inr s1"
    "slip_overtime (in_term inp) (payslip_currency inp) br s1 = Inr s2"
    "rfold (employer_step (payslip_currency inp)) (br_benefitLines br) s2 = Inr s3"
    "rfold (assignment_step (payslip_currency inp) factor) (in_assignments inp) s3 = Inr s4"
    "rfold (employee_benefit_step (payslip_currency inp)) (br_benefitLines br) s4 = Inr s5"
    "slip_loans (payslip_currency inp) br (in_ruleConfig inp) s5 = Inr s6"
    "slip_days (in_term inp) (in_run inp) (payslip_currency inp) br (in_ruleConfig inp) s6 = Inr (s7, b, d)"
    "rfold (adjustment_step (payslip_currency inp)) (br_attendanceAdjustments br) s7 = Inr s8"
    "slip_tax sha (in_employee inp) (in_run inp) (payslip_currency inp) factor (in_taxRateRows inp)
      (case in_asOf inp of None \<Rightarrow> run_periodEnd (in_run inp) | Some t \<Rightarrow> t)
      (s8\<lparr>sl_deductions := sl_deductions s8 @ stat\<rparr>) = Inr (st, v)"
  using assms unfolding slip_lines_def Let_def by (auto simp: result_simps)

lemma slip_lines_loans_ok:
  assumes "slip_lines sha inp factor = Inr (st, v, b, d)"
  shows "loans_ok st"
  using assms
proof (rule slip_lines_cases)
  fix br s1 s2 s3 s4 s5 s6 s7 s8 stat
  assume s: "slip_base (in_term inp) (in_run inp) (payslip_currency inp) factor empty_slip = Inr s1"
    "slip_overtime (in_term inp) (payslip_currency inp) br s1 = Inr s2"
    "rfold (employer_step (payslip_currency inp)) (br_benefitLines br) s2 = Inr s3"
    "rfold (assignment_step (payslip_currency inp) factor) (in_assignments inp) s3 = Inr s4"
    "rfold (employee_benefit_step (payslip_currency inp)) (br_benefitLines br) s4 = Inr s5"
    "slip_loans (payslip_currency inp) br (in_ruleConfig inp) s5 = Inr s6"
    "slip_days (in_term inp) (in_run inp) (payslip_currency inp) br (in_ruleConfig inp) s6 = Inr (s7, b, d)"
    "rfold (adjustment_step (payslip_currency inp)) (br_attendanceAdjustments br) s7 = Inr s8"
    "slip_tax sha (in_employee inp) (in_run inp) (payslip_currency inp) factor (in_taxRateRows inp)
      (case in_asOf inp of None \<Rightarrow> run_periodEnd (in_run inp) | Some t \<Rightarrow> t)
      (s8\<lparr>sl_deductions := sl_deductions s8 @ stat\<rparr>) = Inr (st, v)"
  have "appends empty_slip s2" using appends_base [OF s(1)] appends_overtime [OF s(2)] by (rule appends_trans)
  then have "loans_ok s2" by (rule appends_loans_ok) simp
  then have "loans_ok s3" by (rule appends_loans_ok [rotated]) (rule appends_rfold [OF s(3)], rule appends_employer)
  then have "loans_ok s4" by (rule appends_loans_ok [rotated]) (rule appends_rfold [OF s(4)], rule appends_assignment)
  then have "loans_ok s5" by (rule appends_loans_ok [rotated]) (rule appends_rfold [OF s(5)], rule appends_employee_benefit)
  then have "loans_ok s6" by (rule slip_loans_ok [OF s(6)])
  then have "loans_ok s7" by (rule appends_loans_ok [OF appends_days [OF s(7)]])
  then have "loans_ok s8" by (rule appends_loans_ok [rotated]) (rule appends_rfold [OF s(8)], rule appends_adjustment)
  then have "loans_ok (s8\<lparr>sl_deductions := sl_deductions s8 @ stat\<rparr>)"
    by (rule appends_loans_ok [rotated]) (simp add: appends_def)
  then show ?thesis by (rule appends_loans_ok [OF appends_tax [OF s(9)]])
qed

text \<open>\<open>whole cur l\<close>: the line's amount is a whole number of major units.\<close>

definition whole :: "string option \<Rightarrow> pay_line \<Rightarrow> bool" where
  "whole cur l \<longleftrightarrow> (\<exists>m. line_minor cur l = Inr m \<and>
     currency_unit (js_toUpper (case cur of None \<Rightarrow> [] | Some c \<Rightarrow> c)) dvd m)"

lemma set_amount_whole: "set_amount cur (whole_major cur m) l = Inr l' \<Longrightarrow> whole cur l'"
  using set_amount_minor whole_major_dvd unfolding whole_def by blast

lemma round_earning_whole: "round_earning cur l = Inr l' \<Longrightarrow> whole cur l'"
  by (auto simp: round_earning_def result_simps intro: set_amount_whole)

lemma round_deduction_whole:
  assumes "round_deduction cur bal (i, l) = Inr l'" and "\<And>b. (i, b) \<in> set bal \<Longrightarrow> pl_code l = Some ''LOAN_REPAYMENT''"
  shows "pl_code l' = Some ''LOAN_REPAYMENT'' \<or> whole cur l'"
proof (cases "map_of bal i")
  case None
  then show ?thesis using assms(1)
    by (auto simp: round_deduction_def result_simps Let_def intro: set_amount_whole)
next
  case (Some b)
  then have "pl_code l = Some ''LOAN_REPAYMENT''" using assms(2) map_of_SomeD by fast
  moreover have "pl_code l' = pl_code l"
    using assms(1) set_amount_minor by (auto simp: round_deduction_def result_simps Let_def)
  ultimately show ?thesis by simp
qed

lemma slip_round_whole:
  assumes "slip_round cur st = Inr st'" and "loans_ok st"
  shows "(\<forall>l \<in> set (sl_earnings st'). whole cur l) \<and>
    (\<forall>l \<in> set (sl_deductions st'). pl_code l = Some ''LOAN_REPAYMENT'' \<or> whole cur l)"
proof -
  obtain es ds where es: "rmap (round_earning cur) (sl_earnings st) = Inr es"
    and ds: "rmap (round_deduction cur (sl_loans st)) (enumerate 0 (sl_deductions st)) = Inr ds"
    and st': "st' = st\<lparr>sl_earnings := es, sl_deductions := ds\<rparr>"
    using assms(1) by (auto simp: slip_round_def result_simps)
  have "whole cur l" if "l \<in> set es" for l
    using rmap_set [OF es that] round_earning_whole by blast
  moreover have "pl_code l = Some ''LOAN_REPAYMENT'' \<or> whole cur l" if "l \<in> set ds" for l
  proof -
    have "\<exists>il \<in> set (enumerate 0 (sl_deductions st)). round_deduction cur (sl_loans st) il = Inr l"
      using ds that by (rule rmap_set)
    then obtain il where "il \<in> set (enumerate 0 (sl_deductions st))" and r: "round_deduction cur (sl_loans st) il = Inr l"
      by blast
    then have i: "il = (fst il, sl_deductions st ! fst il)" "fst il < length (sl_deductions st)"
      by (simp_all add: in_set_enumerate_eq prod_eq_iff)
    have "round_deduction cur (sl_loans st) (fst il, sl_deductions st ! fst il) = Inr l"
      using r i(1) by simp
    then show ?thesis
      by (rule round_deduction_whole) (use assms(2) in \<open>auto simp: loans_ok_def\<close>)
  qed
  ultimately show ?thesis using st' by simp
qed

lemma present_step_inv:
  assumes "present_step cur mf (es, adj) = Inr (es', adj')"
    and "rmap (line_minor cur) es = Inr ms" and "fst mf < length es"
  shows "length es' = length es \<and> (\<exists>ms'. rmap (line_minor cur) es' = Inr ms' \<and>
    sum_list ms' - adj' = sum_list ms - adj)"
proof -
  obtain i full where mf: "mf = (i, full)" by (cases mf)
  obtain m l where m: "line_minor cur (es ! i) = Inr m" and l: "set_amount cur (whole_major cur full) (es ! i) = Inr l"
    and es': "es' = es[i := l]" and adj': "adj' = adj + (whole_major cur full - m)"
    using assms(1) mf by (auto simp: present_step_def result_simps Let_def)
  have i: "i < length es" "i < length ms" using assms mf rmap_length by fastforce+
  have "m = ms ! i" using rmap_nth [OF assms(2) i(1)] m by simp
  have "rmap (line_minor cur) es' = Inr (ms[i := whole_major cur full])"
    unfolding es' by (rule rmap_update [OF assms(2) i(1)]) (use set_amount_minor [OF l] in simp)
  moreover have "sum_list (ms[i := whole_major cur full]) = sum_list ms + whole_major cur full - ms ! i"
    using i(2) by (rule sum_list_int_update)
  ultimately show ?thesis using adj' es' \<open>m = ms ! i\<close> by simp
qed

lemma present_fold_inv:
  assumes "rfold (present_step cur) ps (es, adj) = Inr (es', adj')"
    and "rmap (line_minor cur) es = Inr ms" and "\<forall>p \<in> set ps. fst p < length es"
  shows "\<exists>ms'. rmap (line_minor cur) es' = Inr ms' \<and> sum_list ms' - adj' = sum_list ms - adj"
  using assms
proof (induction ps arbitrary: es adj ms)
  case (Cons p ps)
  then obtain es1 adj1 where s: "present_step cur p (es, adj) = Inr (es1, adj1)"
    "rfold (present_step cur) ps (es1, adj1) = Inr (es', adj')" by (auto simp: result_simps)
  obtain ms1 where "length es1 = length es" "rmap (line_minor cur) es1 = Inr ms1"
    "sum_list ms1 - adj1 = sum_list ms - adj"
    using present_step_inv [OF s(1) Cons.prems(2)] Cons.prems(3) by auto
  then show ?case using Cons.IH [OF s(2)] Cons.prems(3) by auto
qed simp

lemma present_fold_whole:
  assumes "rfold (present_step cur) ps (es, adj) = Inr (es', adj')"
    and "\<forall>l \<in> set es. whole cur l" and "\<forall>p \<in> set ps. fst p < length es"
    and "currency_unit (js_toUpper (case cur of None \<Rightarrow> [] | Some c \<Rightarrow> c)) dvd adj"
  shows "(\<forall>l \<in> set es'. whole cur l) \<and> currency_unit (js_toUpper (case cur of None \<Rightarrow> [] | Some c \<Rightarrow> c)) dvd adj'"
  using assms
proof (induction ps arbitrary: es adj)
  case (Cons p ps)
  obtain i full where p: "p = (i, full)" by (cases p)
  obtain es1 adj1 where s: "present_step cur p (es, adj) = Inr (es1, adj1)"
    "rfold (present_step cur) ps (es1, adj1) = Inr (es', adj')"
    using Cons.prems(1) by (auto simp: result_simps)
  then obtain m l where m: "line_minor cur (es ! i) = Inr m"
    and l: "set_amount cur (whole_major cur full) (es ! i) = Inr l"
    and es1: "es1 = es[i := l]" "adj1 = adj + (whole_major cur full - m)"
    using p by (auto simp: present_step_def result_simps Let_def)
  have rest: "rfold (present_step cur) ps (es[i := l], adj + (whole_major cur full - m)) = Inr (es', adj')"
    using s(2) es1 by simp
  have "whole cur (es ! i)" using Cons.prems(2,3) p by auto
  then have "currency_unit (js_toUpper (case cur of None \<Rightarrow> [] | Some c \<Rightarrow> c)) dvd m"
    using m by (auto simp: whole_def)
  moreover have "\<forall>x \<in> set (es[i := l]). whole cur x"
    using Cons.prems(2) set_amount_whole [OF l] set_update_subset_insert by fastforce
  ultimately show ?case
    using Cons.IH [OF rest] Cons.prems(3,4) whole_major_dvd by (simp add: dvd_add dvd_diff)
qed simp

text \<open>The positions recorded for the monthly presentation are positions of earnings.\<close>

definition monthly_ok :: "slip \<Rightarrow> bool" where
  "monthly_ok st \<longleftrightarrow> (\<forall>p \<in> set (sl_monthly st). fst p < length (sl_earnings st))"

definition earnings_grow :: "slip \<Rightarrow> slip \<Rightarrow> bool" where
  "earnings_grow st st' \<longleftrightarrow> (monthly_ok st \<longrightarrow> monthly_ok st')"

lemma monthly_empty [simp]: "monthly_ok empty_slip"
  by (simp add: monthly_ok_def empty_slip_def)

lemma monthly_deduction [simp]: "monthly_ok (add_deduction l st) = monthly_ok st"
  by (simp add: monthly_ok_def add_deduction_def)

lemma monthly_earning: "monthly_ok st \<Longrightarrow> monthly_ok (add_earning l m t st)"
  by (auto simp: monthly_ok_def add_earning_def intro: less_SucI dest: bspec)

lemma monthly_base: "slip_base term run cur f st = Inr st' \<Longrightarrow> monthly_ok st \<Longrightarrow> monthly_ok st'"
  by (auto simp: slip_base_def monthly_ok_def add_earning_def result_simps Let_def
      intro: less_SucI dest: bspec split: option.splits)

lemma monthly_rfold:
  assumes "rfold f xs st = Inr st'" and "\<And>x s s'. f x s = Inr s' \<Longrightarrow> monthly_ok s \<Longrightarrow> monthly_ok s'"
    and "monthly_ok st"
  shows "monthly_ok st'"
  using assms(1,3) by (rule rfold_invariant) (use assms(2) in blast)

lemma monthly_overtime_step: "overtime_step cur h ot st = Inr st' \<Longrightarrow> monthly_ok st \<Longrightarrow> monthly_ok st'"
  by (auto simp: overtime_step_def result_simps Let_def monthly_earning split: if_splits)

lemma monthly_overtime: "slip_overtime term cur br st = Inr st' \<Longrightarrow> monthly_ok st \<Longrightarrow> monthly_ok st'"
  by (auto simp: slip_overtime_def result_simps intro: monthly_rfold monthly_overtime_step
      split: option.splits if_splits)

lemma monthly_employer: "employer_step cur b st = Inr st' \<Longrightarrow> monthly_ok st \<Longrightarrow> monthly_ok st'"
  by (auto simp: employer_step_def result_simps Let_def monthly_earning split: if_splits)

lemma monthly_assignment: "assignment_step cur f a st = Inr st' \<Longrightarrow> monthly_ok st \<Longrightarrow> monthly_ok st'"
  by (auto simp: assignment_step_def monthly_ok_def add_earning_def add_deduction_def result_simps Let_def
      intro: less_SucI dest: bspec split: option.splits if_splits)

lemma monthly_employee_benefit: "employee_benefit_step cur b st = Inr st' \<Longrightarrow> monthly_ok st \<Longrightarrow> monthly_ok st'"
  by (auto simp: employee_benefit_step_def result_simps Let_def split: if_splits)

lemma monthly_adjustment: "adjustment_step cur a st = Inr st' \<Longrightarrow> monthly_ok st \<Longrightarrow> monthly_ok st'"
  by (auto simp: adjustment_step_def result_simps)

lemma monthly_tax: "slip_tax sha e run cur f rows asOf st = Inr (st', v) \<Longrightarrow> monthly_ok st \<Longrightarrow> monthly_ok st'"
  by (auto simp: slip_tax_def result_simps Let_def split: if_splits)

lemma monthly_days: "slip_days term run cur br rc st = Inr (st', b, d) \<Longrightarrow> monthly_ok st \<Longrightarrow> monthly_ok st'"
  by (auto simp: slip_days_def result_simps Let_def split: option.splits if_splits)

lemma monthly_loan_step:
  "loan_step cur cap loan (st, u) = Inr (st', u') \<Longrightarrow> monthly_ok st \<Longrightarrow> monthly_ok st'"
  using loan_step_shape by (fastforce simp: monthly_ok_def)

lemma slip_loans_fold:
  assumes "slip_loans cur br rc st = Inr st'"
  shows "st' = st \<or> (\<exists>u. rfold (loan_step cur (garnishment_limit rc (sl_gross st))) (br_loanLines br) (st, 0) = Inr (st', u))"
  using assms by (auto simp: slip_loans_def result_simps split: if_splits)

lemma monthly_loans:
  assumes "slip_loans cur br rc st = Inr st'" and "monthly_ok st"
  shows "monthly_ok st'"
  using slip_loans_fold [OF assms(1)]
proof
  assume "\<exists>u. rfold (loan_step cur (garnishment_limit rc (sl_gross st))) (br_loanLines br) (st, 0) = Inr (st', u)"
  then obtain u where "rfold (loan_step cur (garnishment_limit rc (sl_gross st))) (br_loanLines br) (st, 0) = Inr (st', u)" ..
  then have "monthly_ok (fst (st', u))"
    by (rule rfold_invariant [where P = "\<lambda>a. monthly_ok (fst a)"]) (use assms(2) monthly_loan_step in fastforce)+
  then show ?thesis by simp
qed (use assms(2) in simp)

lemma slip_lines_monthly_ok:
  assumes "slip_lines sha inp factor = Inr (st, v, b, d)"
  shows "monthly_ok st"
  using assms
proof (rule slip_lines_cases)
  fix br s1 s2 s3 s4 s5 s6 s7 s8 stat
  assume s: "slip_base (in_term inp) (in_run inp) (payslip_currency inp) factor empty_slip = Inr s1"
    "slip_overtime (in_term inp) (payslip_currency inp) br s1 = Inr s2"
    "rfold (employer_step (payslip_currency inp)) (br_benefitLines br) s2 = Inr s3"
    "rfold (assignment_step (payslip_currency inp) factor) (in_assignments inp) s3 = Inr s4"
    "rfold (employee_benefit_step (payslip_currency inp)) (br_benefitLines br) s4 = Inr s5"
    "slip_loans (payslip_currency inp) br (in_ruleConfig inp) s5 = Inr s6"
    "slip_days (in_term inp) (in_run inp) (payslip_currency inp) br (in_ruleConfig inp) s6 = Inr (s7, b, d)"
    "rfold (adjustment_step (payslip_currency inp)) (br_attendanceAdjustments br) s7 = Inr s8"
    "slip_tax sha (in_employee inp) (in_run inp) (payslip_currency inp) factor (in_taxRateRows inp)
      (case in_asOf inp of None \<Rightarrow> run_periodEnd (in_run inp) | Some t \<Rightarrow> t)
      (s8\<lparr>sl_deductions := sl_deductions s8 @ stat\<rparr>) = Inr (st, v)"
  have "monthly_ok s2" using monthly_overtime [OF s(2)] monthly_base [OF s(1)] by simp
  then have "monthly_ok s3" by (rule monthly_rfold [OF s(3), rotated]) (rule monthly_employer)
  then have "monthly_ok s4" by (rule monthly_rfold [OF s(4), rotated]) (rule monthly_assignment)
  then have "monthly_ok s5" by (rule monthly_rfold [OF s(5), rotated]) (rule monthly_employee_benefit)
  then have "monthly_ok s6" by (rule monthly_loans [OF s(6)])
  then have "monthly_ok s7" by (rule monthly_days [OF s(7)])
  then have "monthly_ok s8" by (rule monthly_rfold [OF s(8), rotated]) (rule monthly_adjustment)
  then have "monthly_ok (s8\<lparr>sl_deductions := sl_deductions s8 @ stat\<rparr>)" by (simp add: monthly_ok_def)
  then show ?thesis by (rule monthly_tax [OF s(9)])
qed

lemma slip_round_monthly:
  assumes "slip_round cur st = Inr st'"
  shows "sl_monthly st' = sl_monthly st \<and> length (sl_earnings st') = length (sl_earnings st)"
  using assms rmap_length by (fastforce simp: slip_round_def result_simps)

lemma slip_present_whole:
  assumes "slip_present term e cur f st = Inr st'" and "\<forall>l \<in> set (sl_earnings st). whole cur l" and "monthly_ok st"
    and "\<forall>l \<in> set (sl_deductions st). pl_code l = Some ''LOAN_REPAYMENT'' \<or> whole cur l"
  shows "(\<forall>l \<in> set (sl_earnings st'). whole cur l) \<and>
    (\<forall>l \<in> set (sl_deductions st'). pl_code l = Some ''LOAN_REPAYMENT'' \<or> whole cur l)"
proof (cases "st' = st")
  case False
  let ?u = "currency_unit (js_toUpper (case cur of None \<Rightarrow> [] | Some c \<Rightarrow> c))"
  obtain es adj where fold: "rfold (present_step cur) (sl_monthly st) (sl_earnings st, 0) = Inr (es, adj)"
    and st': "st' = st\<lparr>sl_earnings := es\<rparr> \<or> (\<exists>a. amt cur adj = Inr a \<and>
      st' = add_deduction (plain_line (Some ''EMPLOYMENT_PRORATION'') a) (st\<lparr>sl_earnings := es\<rparr>))"
    using assms(1) False by (auto simp: slip_present_def result_simps Let_def split: if_splits)
  have w: "\<forall>l \<in> set es. whole cur l" "?u dvd adj"
    using present_fold_whole [OF fold assms(2)] assms(3) by (auto simp: monthly_ok_def)
  have "whole cur (plain_line (Some ''EMPLOYMENT_PRORATION'') a)" if "amt cur adj = Inr a" for a
    using amt_back [OF that] w(2) by (simp add: whole_def line_minor_def plain_line_def)
  then show ?thesis using st' w(1) assms(4) by (auto simp: add_deduction_def)
qed (use assms in simp)

lemma buildPayslip_cases:
  assumes "buildPayslipFromInputs sha inp = Inr ps"
  obtains factor st v b d st1 st2 gross ded where
    "slip_proration (in_employee inp) (in_run inp) (in_bridges inp) (in_ruleConfig inp) = Inr factor"
    "slip_lines sha inp factor = Inr (st, v, b, d)" "slip_round (payslip_currency inp) st = Inr st1"
    "slip_present (in_term inp) (in_employee inp) (payslip_currency inp) factor st1 = Inr st2"
    "lines_total (payslip_currency inp) (sl_earnings st2) = Inr gross"
    "lines_total (payslip_currency inp) (sl_deductions st2) = Inr ded"
    "ps_earnings ps = sl_earnings st2" "ps_deductions ps = sl_deductions st2"
    "amt (payslip_currency inp) gross = Inr (ps_grossAmount ps)"
    "amt (payslip_currency inp) ded = Inr (ps_totalDeductions ps)"
    "amt (payslip_currency inp) (gross - ded) = Inr (ps_netAmount ps)"
  using assms unfolding buildPayslipFromInputs_def Let_def
  by (auto simp: result_simps simp del: lines_total_Inr)

lemma loan_fold_shape:
  assumes "rfold (loan_step cur cap) loans (st, used) = Inr (st', used')" and "used \<le> max 0 cap"
  shows "\<exists>ls ms. sl_deductions st' = sl_deductions st @ ls \<and> rmap (line_minor cur) ls = Inr ms \<and>
    used' = used + sum_list ms \<and> (\<forall>m \<in> set ms. 0 < m) \<and> used' \<le> max 0 cap"
  using assms
proof (induction loans arbitrary: st used)
  case (Cons loan loans)
  then obtain s1 u1 where s: "loan_step cur cap loan (st, used) = Inr (s1, u1)"
    "rfold (loan_step cur cap) loans (s1, u1) = Inr (st', used')" by (auto simp: result_simps)
  from loan_step_shape [OF s(1)] show ?case
  proof
    assume "s1 = st \<and> u1 = used"
    then show ?thesis using Cons.IH [OF s(2)] Cons.prems(2) by simp
  next
    assume "\<exists>l extra. sl_deductions s1 = sl_deductions st @ [l] \<and> pl_code l = Some ''LOAN_REPAYMENT'' \<and>
       line_minor cur l = Inr (u1 - used) \<and> used < u1 \<and> u1 \<le> cap \<and>
       sl_monthly s1 = sl_monthly st \<and> sl_earnings s1 = sl_earnings st \<and>
       sl_loans s1 = sl_loans st @ extra \<and> (\<forall>p \<in> set extra. fst p = length (sl_deductions st))"
    then obtain l where l: "sl_deductions s1 = sl_deductions st @ [l]" "line_minor cur l = Inr (u1 - used)" "used < u1" "u1 \<le> cap"
      by blast
    obtain ls ms where "sl_deductions st' = sl_deductions s1 @ ls" "rmap (line_minor cur) ls = Inr ms"
      "used' = u1 + sum_list ms" "\<forall>m \<in> set ms. 0 < m" "used' \<le> max 0 cap"
      using Cons.IH [OF s(2)] l(4) by (metis max.coboundedI2)
    then show ?thesis using l by (intro exI [of _ "l # ls"] exI [of _ "(u1 - used) # ms"]) simp
  qed
qed simp

lemma mulRate_mono:
  assumes "mulRate (JBigInt a) rate = Inr x" and "mulRate (JBigInt b) rate = Inr y" and "a \<le> b"
    and "decimalParts rate = Inr (c, k)" and "0 \<le> c"
  shows "x \<le> y"
  using assms half_even.mono [of "10 ^ k" "a * c" "b * c" x y] by (simp add: mulRate_def mult_right_mono)

lemma mulRate_nonneg:
  assumes "mulRate (JBigInt a) rate = Inr x" and "0 \<le> a" and "decimalParts rate = Inr (c, k)" and "0 \<le> c"
  shows "0 \<le> x"
  using assms half_even.nonneg [of "10 ^ k" "a * c" x] by (simp add: mulRate_def)

lemma mulRate_total: "decimalParts rate = Inr p \<Longrightarrow> \<exists>x. mulRate (JBigInt a) rate = Inr x"
  using half_even.total [of "10 ^ snd p" "a * fst p"] by (cases p) (simp add: mulRate_def)

text \<open>A readable row: its bounds are amounts and its rate a non-negative decimal.\<close>

definition tax_row_ok :: "string option \<Rightarrow> tax_row \<Rightarrow> bool" where
  "tax_row_ok cur r \<longleftrightarrow>
    (case decimalToMinor (tr_bracketMin r) cur of Inl _ \<Rightarrow> False | Inr _ \<Rightarrow> True) \<and>
    (case tr_bracketMax r of None \<Rightarrow> True
     | Some t \<Rightarrow> (case decimalToMinor (Some t) cur of Inl _ \<Rightarrow> False | Inr _ \<Rightarrow> True)) \<and>
    (case decimalParts (tr_rate r) of Inl _ \<Rightarrow> False | Inr (c, k) \<Rightarrow> 0 \<le> c)"

lemma tax_step_mono:
  assumes "tax_row_ok cur r" and "g \<le> g'"
  shows "\<exists>d d'. (\<forall>t. tax_step cur g r t = Inr (t + d)) \<and> (\<forall>t. tax_step cur g' r t = Inr (t + d')) \<and> 0 \<le> d \<and> d \<le> d'"
proof -
  obtain low where low: "decimalToMinor (tr_bracketMin r) cur = Inr low"
    using assms(1) by (auto simp: tax_row_ok_def split: sum.splits)
  obtain high where high: "(case tr_bracketMax r of None \<Rightarrow> Inr None
      | Some t \<Rightarrow> rbind (decimalToMinor (Some t) cur) (\<lambda>h. Inr (Some h))) = Inr high"
    using assms(1) by (cases "tr_bracketMax r") (auto simp: tax_row_ok_def split: sum.splits)
  obtain c k where rate: "decimalParts (tr_rate r) = Inr (c, k)" "0 \<le> c"
    using assms(1) by (auto simp: tax_row_ok_def split: sum.splits)
  define slice where "slice = (\<lambda>g. max 0 ((case high of None \<Rightarrow> g | Some h \<Rightarrow> min g h) - low))"
  have slice: "0 \<le> slice g" "slice g \<le> slice g'" using assms(2) by (auto simp: slice_def split: option.splits)
  obtain q where q: "mulRate (JBigInt m) (tr_rate r) = Inr (q m)" for m
    using mulRate_total [OF rate(1)] by metis
  have q0: "q 0 = 0" using q [of 0] rate by (simp add: mulRate_def divideHalfEven_def)
  have step: "tax_step cur g r t = Inr (t + q (slice g))" for g t
  proof (cases "slice g > 0")
    case True
    then have "\<not> g \<le> low" "(case high of None \<Rightarrow> g | Some h \<Rightarrow> if g < h then g else h) - low = slice g"
      by (auto simp: slice_def split: option.splits)
    then show ?thesis using low high q True by (simp add: tax_step_def Let_def)
  next
    case False
    then have s0: "slice g = 0" by (simp add: slice_def)
    then have "g \<le> low \<or> (case high of None \<Rightarrow> g | Some h \<Rightarrow> if g < h then g else h) - low \<le> 0"
      by (auto simp: slice_def split: option.splits)
    then show ?thesis using low high q0 s0 by (auto simp: tax_step_def Let_def)
  qed
  have "0 \<le> q (slice g)" using mulRate_nonneg [OF q slice(1) rate] .
  moreover have "q (slice g) \<le> q (slice g')" using mulRate_mono [OF q q slice(2) rate] .
  ultimately show ?thesis using step by blast
qed

lemma tax_fold_mono:
  assumes "\<forall>r \<in> set rows. tax_row_ok cur r" and "g \<le> g'"
  shows "\<exists>d d'. (\<forall>t. rfold (tax_step cur g) rows t = Inr (t + d)) \<and>
    (\<forall>t. rfold (tax_step cur g') rows t = Inr (t + d')) \<and> 0 \<le> d \<and> d \<le> d'"
  using assms(1)
proof (induction rows)
  case (Cons r rows)
  obtain a a' where a: "\<And>t. tax_step cur g r t = Inr (t + a)" "\<And>t. tax_step cur g' r t = Inr (t + a')" "0 \<le> a" "a \<le> a'"
    using tax_step_mono [of cur r g g'] Cons.prems assms(2) by auto
  obtain d d' where d: "\<And>t. rfold (tax_step cur g) rows t = Inr (t + d)"
    "\<And>t. rfold (tax_step cur g') rows t = Inr (t + d')" "0 \<le> d" "d \<le> d'"
    using Cons by auto
  show ?case using a d by (intro exI [of _ "a + d"] exI [of _ "a' + d'"]) (simp add: add.assoc)
qed auto

lemma priceRuleDays_eq:
  assumes "0 \<le> x" and "half_integral x" and "0 < n" and "0 \<le> basis"
  shows "priceRuleDays x basis n cur = Inr (round_half_up (currency_unit cur) (basis * js_round (x * 2) div (2 * n)))"
proof -
  have "0 \<le> js_round (x * 2)" using js_round_mono [of 0 "x * 2"] js_round_of_int [of 0] assms(1) by simp
  then have p: "0 \<le> basis * js_round (x * 2)" using assms(4) by simp
  then have "0 \<le> basis * js_round (x * 2) div (2 * n)" using assms(3) by (simp add: pos_imp_zdiv_nonneg_iff)
  moreover have u: "0 < currency_unit cur" by (rule currency_unit_pos)
  ultimately show ?thesis
    using assms p by (simp add: priceRuleDays_def half_integral_def round_half_up_def Let_def)
qed

section \<open>Properties\<close>

text \<open>A run of 31 days in rupees for a person hired on its sixteenth day, with one loan and one tax row.\<close>

definition sample_inputs :: payslip_inputs where
  "sample_inputs =
    \<lparr>in_employee = \<lparr>em_id = 7, em_employmentPeriods = [Some \<lparr>ep_startDate = Some (15 * day_ms), ep_endDate = None\<rparr>],
       em_hireDate = None, em_attendanceInputMode = None, em_tax_exempt = False, em_nilTaxEstimate = None\<rparr>,
     in_term = Some \<lparr>et_baseSalary = Some ''60000'', et_currency = Some ''PKR'', et_payFrequency = ''MONTHLY'',
       et_baseSalaryEarningTypeId = None\<rparr>,
     in_assignments = [\<lparr>as_earningType = None, as_deductionType = Some \<lparr>dty_id = 1, dty_code = ''CLUB''\<rparr>,
       as_amount = Some ''100.50'', as_rate = None\<rparr>],
     in_run = \<lparr>run_periodStart = 0, run_periodEnd = 31 * day_ms - 1, run_currencyCode = Some ''PKR'', run_countryCode = Some ''PK''\<rparr>,
     in_taxRateRows = [\<lparr>tr_countryCode = ''PK'', tr_status = None, tr_effectiveFrom = 0, tr_effectiveTo = None,
       tr_bracketMin = Some ''50000'', tr_bracketMax = None, tr_rate = Some ''0.01''\<rparr>],
     in_asOf = None,
     in_bridges = \<lparr>br_overtimeLines = [], br_benefitLines = [],
       br_loanLines = [\<lparr>lo_loanId = 3, lo_amountMinor = Some 500025, lo_outstandingMinor = Some 500025\<rparr>],
       br_lwpDays = 0, br_anomalyRows = [], br_deductionRules = None, br_attendanceAdjustments = [], br_manualAttendance = None\<rparr>,
     in_ruleConfig = \<lparr>rc_midMonthJoinerProration = None, rc_eobiEnabled = False, rc_eobiWageCeilingMinor = None,
       rc_eobiEmployeeRatePct = None, rc_garnishmentRecovery = None, rc_garnishmentCapPct = None, rc_lwpRecovery = None\<rparr>\<rparr>"

lemma rupee_texts:
  "amt (Some ''PKR'') m = Inr (fixedDecimal (m * 100) 4)"
  "decimalToMinor (Some (fixedDecimal (m * 100) 4)) (Some ''PKR'') = Inr m"
  "decimalToMinor (Some ''60000'') (Some ''PKR'') = Inr 6000000"
  "decimalToMinor (Some ''50000'') (Some ''PKR'') = Inr 5000000"
  "decimalToMinor (Some ''100.50'') (Some ''PKR'') = Inr 10050"
  "decimalParts (Some ''0.01'') = Inr (1, 2)"
proof -
  have e: "exponentOf (Some ''PKR'') = Inr 2" by code_simp
  then show amt: "amt (Some ''PKR'') m = Inr (fixedDecimal (m * 100) 4)"
    by (simp add: amt_def minorToDecimal_def DECIMAL_SCALE_def)
  show "decimalToMinor (Some (fixedDecimal (m * 100) 4)) (Some ''PKR'') = Inr m"
    by (rule amt_back [OF amt])
  have "decimalParts (Some ''60000'') = Inr (60000, 0)" "decimalParts (Some ''50000'') = Inr (50000, 0)"
    "decimalParts (Some ''100.50'') = Inr (10050, 2)" by (simp_all add: decimal_eval)
  then show "decimalToMinor (Some ''60000'') (Some ''PKR'') = Inr 6000000"
    "decimalToMinor (Some ''50000'') (Some ''PKR'') = Inr 5000000"
    "decimalToMinor (Some ''100.50'') (Some ''PKR'') = Inr 10050"
    using e by (simp_all add: decimalToMinor_def rescale_def)
  show "decimalParts (Some ''0.01'') = Inr (1, 2)" by (simp add: decimal_eval)
qed

lemma sample_currency: "payslip_currency sample_inputs = Some ''PKR''"
  by (simp add: payslip_currency_def sample_inputs_def or_text_def)

lemma sample_factor:
  "slip_proration (in_employee sample_inputs) (in_run sample_inputs) (in_bridges sample_inputs)
     (in_ruleConfig sample_inputs) = Inr 516129"
proof -
  have "computeProrationFactor 0 (31 * day_ms - 1)
      (Periods [Some \<lparr>ep_startDate = Some (15 * day_ms), ep_endDate = None\<rparr>]) = 516129"
    by (simp add: computeProrationFactor_def hire_periods_def clip_span_def keyDate_def day_ms_def
        span_days_def js_round_def Let_def floor_eq_iff)
  then show ?thesis
    by (simp add: slip_proration_def sample_inputs_def hire_argument_def manualAttendanceFactor_def
        isManualMonthlyEmployee_def Let_def)
qed

lemmas slip_eval = slip_base_def calculatePeriodSalaryMinor_def or_text_def or_zero_def applyProration_def
  add_earning_def add_deduction_def plain_line_def slip_overtime_def assignment_step_def assignment_minor_def
  slip_loans_def loan_step_def garnishment_limit_def slip_days_def period_days_def daysToMinor_def
  priceRuleDays_def currency_unit_def computeStatutoryDeductions_def slip_tax_def tax_step_def
  selectEffectiveTaxRates_def tax_effective_def computeProgressiveTaxMinor_def effective_bridges_def
  isManualMonthlyEmployee_def empty_slip_def

lemma sample_rules: "ruleDeductions [] f t None = Inr \<lparr>ra_days = 0, ra_minorCount = 0, ra_minorRemainder = 0,
    ra_missingCount = 0, ra_missingRemainder = 0, ra_lines = []\<rparr>"
  by (simp add: rule_eval)

definition sample_slip :: slip where
  "sample_slip =
    \<lparr>sl_earnings = [plain_line None (fixedDecimal (3096774 * 100) 4)],
     sl_deductions = [\<lparr>pl_typeId = Some 1, pl_code = Some ''CLUB'', pl_amount = fixedDecimal (10050 * 100) 4, pl_loanId = None\<rparr>,
       \<lparr>pl_typeId = None, pl_code = Some ''LOAN_REPAYMENT'', pl_amount = fixedDecimal (500025 * 100) 4, pl_loanId = Some 3\<rparr>,
       plain_line (Some ''INCOME_TAX'') (fixedDecimal (10000 * 100) 4)],
     sl_monthly = [(0, 6000000)], sl_loans = [(1, 500025)],
     sl_gross = 3096774, sl_taxable = 3096774, sl_uplift = 2903226, sl_contractual = 6000000\<rparr>"

lemma sample_lines: "\<exists>v b d. slip_lines sha sample_inputs 516129 = Inr (sample_slip, v, b, d)"
  by (simp add: slip_lines_def sample_currency)
     (simp add: sample_inputs_def sample_slip_def slip_eval rupee_texts sample_rules js_toUpper_def upper_char_def char_of_def
       keyDate_def day_ms_def js_isInteger_def CURRENCY_EXPONENT_def mulRate_def divideHalfEven_def Let_def)

lemma whole_rupee: "whole_major (Some ''PKR'') m = (if m < 0 then - 1 else 1) * round_half_up 100 \<bar>m\<bar>"
proof -
  have "currency_unit (js_toUpper ''PKR'') = 100" by code_simp
  then show ?thesis by (simp add: whole_major_def roundToWholeMajorHalfUp_eq)
qed

lemma rupee_line:
  "line_minor (Some ''PKR'') l = decimalToMinor (Some (pl_amount l)) (Some ''PKR'')"
  "set_amount (Some ''PKR'') m l = Inr (l\<lparr>pl_amount := fixedDecimal (m * 100) 4\<rparr>)"
  by (simp_all add: line_minor_def set_amount_def rupee_texts)

lemma sample_payslip: "\<exists>ps. buildPayslipFromInputs sha sample_inputs = Inr ps \<and> ps_deductions ps \<noteq> []"
proof -
  have texts: "decimalToMinor (Some (fixedDecimal (309677400) 4)) (Some ''PKR'') = Inr 3096774"
    "decimalToMinor (Some (fixedDecimal 1005000 4)) (Some ''PKR'') = Inr 10050"
    "decimalToMinor (Some (fixedDecimal 50002500 4)) (Some ''PKR'') = Inr 500025"
    "decimalToMinor (Some (fixedDecimal 1000000 4)) (Some ''PKR'') = Inr 10000"
    "decimalToMinor (Some (fixedDecimal 309680000 4)) (Some ''PKR'') = Inr 3096800"
    "decimalToMinor (Some (fixedDecimal 1010000 4)) (Some ''PKR'') = Inr 10100"
    "decimalToMinor (Some (fixedDecimal 600000000 4)) (Some ''PKR'') = Inr 6000000"
    "decimalToMinor (Some (fixedDecimal 290320000 4)) (Some ''PKR'') = Inr 2903200"
    using rupee_texts(2) [of 3096774] rupee_texts(2) [of 10050] rupee_texts(2) [of 500025] rupee_texts(2) [of 10000]
      rupee_texts(2) [of 3096800] rupee_texts(2) [of 10100] rupee_texts(2) [of 6000000] rupee_texts(2) [of 2903200]
    by simp_all
  have "slip_present (in_term sample_inputs) (in_employee sample_inputs) (Some ''PKR'') 516129 st =
      rbind (rfold (present_step (Some ''PKR'')) (sl_monthly st) (sl_earnings st, 0)) (\<lambda>(es, adjustment).
         if adjustment > 0
         then rbind (amt (Some ''PKR'') adjustment) (\<lambda>a.
           Inr (add_deduction (plain_line (Some ''EMPLOYMENT_PRORATION'') a) (st\<lparr>sl_earnings := es\<rparr>)))
         else Inr (st\<lparr>sl_earnings := es\<rparr>))" for st
    by (simp add: slip_present_def sample_inputs_def isManualMonthlyEmployee_def rupee_texts Let_def)
  moreover obtain v b d where "slip_lines sha sample_inputs 516129 = Inr (sample_slip, v, b, d)"
    using sample_lines by blast
  ultimately show ?thesis
    by (simp add: buildPayslipFromInputs_def sample_factor sample_currency sample_slip_def slip_round_def
        round_earning_def round_deduction_def present_step_def lines_total_def money_sum_def plain_line_def
        add_deduction_def rupee_line rupee_texts(1) texts whole_rupee round_half_up_def Let_def)
qed

text \<open>C23. A payslip foots: in its currency the gross is the sum of the earning lines, the deductions the
  sum of the deduction lines, and the net their difference, to the minor unit.\<close>

theorem payslip_foots:
  assumes "buildPayslipFromInputs sha inp = Inr ps"
  shows "\<exists>es ds. rmap (line_minor (payslip_currency inp)) (ps_earnings ps) = Inr es \<and>
    rmap (line_minor (payslip_currency inp)) (ps_deductions ps) = Inr ds \<and>
    decimalToMinor (Some (ps_grossAmount ps)) (payslip_currency inp) = Inr (sum_list es) \<and>
    decimalToMinor (Some (ps_totalDeductions ps)) (payslip_currency inp) = Inr (sum_list ds) \<and>
    decimalToMinor (Some (ps_netAmount ps)) (payslip_currency inp) = Inr (sum_list es - sum_list ds)"
proof -
  obtain st2 :: slip and gross ded where
    "lines_total (payslip_currency inp) (sl_earnings st2) = Inr gross"
    "lines_total (payslip_currency inp) (sl_deductions st2) = Inr ded"
    "ps_earnings ps = sl_earnings st2" "ps_deductions ps = sl_deductions st2"
    "amt (payslip_currency inp) gross = Inr (ps_grossAmount ps)"
    "amt (payslip_currency inp) ded = Inr (ps_totalDeductions ps)"
    "amt (payslip_currency inp) (gross - ded) = Inr (ps_netAmount ps)"
    using assms by (rule buildPayslip_cases) blast
  then show ?thesis by (auto simp: result_simps dest!: amt_back)
qed

theorem payslip_foots_witness:
  "\<exists>ps es ds. buildPayslipFromInputs (\<lambda>_ _. ''0f'') sample_inputs = Inr ps \<and>
    rmap (line_minor (Some ''PKR'')) (ps_earnings ps) = Inr es \<and> rmap (line_minor (Some ''PKR'')) (ps_deductions ps) = Inr ds \<and>
    decimalToMinor (Some (ps_netAmount ps)) (Some ''PKR'') = Inr (sum_list es - sum_list ds)"
proof -
  obtain ps where "buildPayslipFromInputs (\<lambda>_ _. ''0f'') sample_inputs = Inr ps" using sample_payslip by blast
  then show ?thesis using payslip_foots [of "\<lambda>_ _. ''0f''" sample_inputs ps] by (auto simp: sample_currency)
qed

text \<open>Every line of a payslip is a whole number of major currency units, except a loan line, which
  may keep the exact balance that clears the loan.\<close>

theorem payslip_whole_units:
  assumes "buildPayslipFromInputs sha inp = Inr ps"
  shows "(\<forall>l \<in> set (ps_earnings ps). whole (payslip_currency inp) l) \<and>
    (\<forall>l \<in> set (ps_deductions ps). pl_code l = Some ''LOAN_REPAYMENT'' \<or> whole (payslip_currency inp) l)"
  using assms
proof (rule buildPayslip_cases)
  fix factor st v b d and st1 st2 :: slip
  assume lines: "slip_lines sha inp factor = Inr (st, v, b, d)"
    and round: "slip_round (payslip_currency inp) st = Inr st1"
    and present: "slip_present (in_term inp) (in_employee inp) (payslip_currency inp) factor st1 = Inr st2"
    and ps: "ps_earnings ps = sl_earnings st2" "ps_deductions ps = sl_deductions st2"
  have "monthly_ok st1"
    using slip_lines_monthly_ok [OF lines] slip_round_monthly [OF round] by (simp add: monthly_ok_def)
  with slip_round_whole [OF round slip_lines_loans_ok [OF lines]] show ?thesis
    unfolding ps using slip_present_whole [OF present] by blast
qed

theorem payslip_whole_units_witness:
  "\<exists>ps. buildPayslipFromInputs (\<lambda>_ _. ''0f'') sample_inputs = Inr ps \<and> ps_deductions ps \<noteq> [] \<and>
    (\<forall>l \<in> set (ps_earnings ps). whole (Some ''PKR'') l)"
proof -
  obtain ps where "buildPayslipFromInputs (\<lambda>_ _. ''0f'') sample_inputs = Inr ps" "ps_deductions ps \<noteq> []"
    using sample_payslip by blast
  then show ?thesis using payslip_whole_units [of "\<lambda>_ _. ''0f''" sample_inputs ps] by (auto simp: sample_currency)
qed

text \<open>Showing a prorated month in full does not change the net: when no full amount is below the line
  it replaces, the earnings and the deductions grow by the same sum.\<close>

theorem slip_present_keeps_net:
  assumes "slip_present term e cur f st = Inr st'"
    and "lines_total cur (sl_earnings st) = Inr te" and "lines_total cur (sl_deductions st) = Inr td"
    and "monthly_ok st"
    and "\<And>es adj. rfold (present_step cur) (sl_monthly st) (sl_earnings st, 0) = Inr (es, adj) \<Longrightarrow> 0 \<le> adj"
  shows "\<exists>te' td'. lines_total cur (sl_earnings st') = Inr te' \<and> lines_total cur (sl_deductions st') = Inr td' \<and>
    te' - td' = te - td \<and> te \<le> te'"
proof (cases "st' = st")
  case False
  obtain es adj where fold: "rfold (present_step cur) (sl_monthly st) (sl_earnings st, 0) = Inr (es, adj)"
    and st': "if adj > 0 then \<exists>a. amt cur adj = Inr a \<and>
      st' = add_deduction (plain_line (Some ''EMPLOYMENT_PRORATION'') a) (st\<lparr>sl_earnings := es\<rparr>)
      else st' = st\<lparr>sl_earnings := es\<rparr>"
    using assms(1) False by (auto simp: slip_present_def result_simps Let_def split: if_splits)
  obtain ms ds where ms: "rmap (line_minor cur) (sl_earnings st) = Inr ms" "te = sum_list ms"
    and ds: "rmap (line_minor cur) (sl_deductions st) = Inr ds" "td = sum_list ds"
    using assms(2,3) by (auto simp: result_simps)
  obtain ms' where ms': "rmap (line_minor cur) es = Inr ms'" "sum_list ms' - adj = sum_list ms - 0"
    using present_fold_inv [OF fold ms(1)] assms(4) by (auto simp: monthly_ok_def)
  show ?thesis
  proof (cases "adj > 0")
    case True
    then obtain a where a: "amt cur adj = Inr a"
      and s: "st' = add_deduction (plain_line (Some ''EMPLOYMENT_PRORATION'') a) (st\<lparr>sl_earnings := es\<rparr>)"
      using st' by auto
    have "line_minor cur (plain_line (Some ''EMPLOYMENT_PRORATION'') a) = Inr adj"
      using amt_back [OF a] by (simp add: line_minor_def plain_line_def)
    then have "rmap (line_minor cur) (sl_deductions st') = Inr (ds @ [adj])"
      using s ds(1) by (simp add: rmap_append)
    moreover have "sl_earnings st' = es" using s by (simp add: add_deduction_def)
    ultimately show ?thesis using ms ms' ds True by (auto simp: result_simps)
  next
    case no: False
    moreover have "0 \<le> adj" by (rule assms(5) [OF fold])
    ultimately show ?thesis using st' ms ms' ds by (auto simp: result_simps)
  qed
qed (use assms in simp)

definition sample_rounded :: slip where
  "sample_rounded = sample_slip\<lparr>sl_earnings := [plain_line None (fixedDecimal (3096800 * 100) 4)]\<rparr>"

theorem slip_present_keeps_net_witness:
  "\<exists>st' te' td'. slip_present (in_term sample_inputs) (in_employee sample_inputs) (Some ''PKR'') 516129 sample_rounded = Inr st' \<and>
    lines_total (Some ''PKR'') (sl_earnings st') = Inr te' \<and> lines_total (Some ''PKR'') (sl_deductions st') = Inr td' \<and>
    te' - td' = 2576725"
proof -
  have texts: "decimalToMinor (Some (fixedDecimal 309680000 4)) (Some ''PKR'') = Inr 3096800"
    "decimalToMinor (Some (fixedDecimal 1005000 4)) (Some ''PKR'') = Inr 10050"
    "decimalToMinor (Some (fixedDecimal 50002500 4)) (Some ''PKR'') = Inr 500025"
    "decimalToMinor (Some (fixedDecimal 1000000 4)) (Some ''PKR'') = Inr 10000"
    using rupee_texts(2) [of 3096800] rupee_texts(2) [of 10050] rupee_texts(2) [of 500025] rupee_texts(2) [of 10000]
    by simp_all
  have fold: "rfold (present_step (Some ''PKR'')) (sl_monthly sample_rounded) (sl_earnings sample_rounded, 0) =
      Inr ([plain_line None (fixedDecimal (6000000 * 100) 4)], 2903200)"
    by (simp add: sample_rounded_def sample_slip_def present_step_def rupee_line texts plain_line_def whole_rupee
        round_half_up_def Let_def)
  then obtain st' where st': "slip_present (in_term sample_inputs) (in_employee sample_inputs) (Some ''PKR'') 516129 sample_rounded = Inr st'"
    by (simp add: slip_present_def sample_inputs_def isManualMonthlyEmployee_def rupee_texts(1) Let_def)
  have e: "lines_total (Some ''PKR'') (sl_earnings sample_rounded) = Inr 3096800"
    by (simp add: sample_rounded_def lines_total_def money_sum_def rupee_line plain_line_def texts)
  have d: "lines_total (Some ''PKR'') (sl_deductions sample_rounded) = Inr 520075"
    by (simp add: sample_rounded_def sample_slip_def lines_total_def money_sum_def rupee_line plain_line_def texts)
  have ok: "monthly_ok sample_rounded" by (simp add: monthly_ok_def sample_rounded_def sample_slip_def)
  from slip_present_keeps_net [OF st' e d ok] fold show ?thesis using st' by auto
qed

text \<open>Loan recovery respects the garnishment cap: the step appends loan lines of positive amounts whose
  sum, before whole-unit rounding, is at most the capped share of the gross (nothing if that is negative).\<close>

theorem slip_loans_capped:
  assumes "slip_loans cur br rc st = Inr st'"
  shows "\<exists>ls ms. sl_deductions st' = sl_deductions st @ ls \<and> rmap (line_minor cur) ls = Inr ms \<and>
    (\<forall>m \<in> set ms. 0 < m) \<and> sum_list ms \<le> max 0 (garnishment_limit rc (sl_gross st))"
  using slip_loans_fold [OF assms]
proof
  assume "\<exists>u. rfold (loan_step cur (garnishment_limit rc (sl_gross st))) (br_loanLines br) (st, 0) = Inr (st', u)"
  then show ?thesis using loan_fold_shape [of cur "garnishment_limit rc (sl_gross st)" "br_loanLines br" st 0 st'] by fastforce
qed (rule exI [of _ "[]"], simp)

theorem slip_loans_capped_witness:
  "\<exists>st' ls ms. slip_loans (Some ''PKR'') ((in_bridges sample_inputs)\<lparr>br_loanLines :=
        [\<lparr>lo_loanId = 3, lo_amountMinor = Some 5000, lo_outstandingMinor = None\<rparr>]\<rparr>) (in_ruleConfig sample_inputs)
        (empty_slip\<lparr>sl_gross := 10000\<rparr>) = Inr st' \<and>
     sl_deductions st' = ls \<and> rmap (line_minor (Some ''PKR'')) ls = Inr ms \<and> sum_list ms \<le> 3300"
proof -
  let ?br = "(in_bridges sample_inputs)\<lparr>br_loanLines := [\<lparr>lo_loanId = 3, lo_amountMinor = Some 5000, lo_outstandingMinor = None\<rparr>]\<rparr>"
  obtain st' where "slip_loans (Some ''PKR'') ?br (in_ruleConfig sample_inputs) (empty_slip\<lparr>sl_gross := 10000\<rparr>) = Inr st'"
    by (simp add: slip_loans_def sample_inputs_def loan_step_def garnishment_limit_def rupee_texts Let_def)
  from slip_loans_capped [OF this] this show ?thesis
    by (auto simp: garnishment_limit_def sample_inputs_def empty_slip_def)
qed

text \<open>On readable rows progressive tax always has a result, is never negative, and never falls when
  the taxable base rises.\<close>

theorem progressive_tax_monotone:
  assumes "\<And>r. r \<in> set rows \<Longrightarrow> tax_row_ok cur r" and "g \<le> g'"
  shows "\<exists>t t'. computeProgressiveTaxMinor g rows cur = Inr t \<and> computeProgressiveTaxMinor g' rows cur = Inr t' \<and>
    0 \<le> t \<and> t \<le> t'"
  using tax_fold_mono [of rows cur g g'] assms by (auto simp: computeProgressiveTaxMinor_def)

theorem progressive_tax_monotone_witness:
  "\<exists>t t'. computeProgressiveTaxMinor 4000000 (in_taxRateRows sample_inputs) (Some ''PKR'') = Inr t \<and>
    computeProgressiveTaxMinor 6000000 (in_taxRateRows sample_inputs) (Some ''PKR'') = Inr t' \<and> 0 \<le> t \<and> t \<le> t'"
  by (rule progressive_tax_monotone) (auto simp: sample_inputs_def tax_row_ok_def rupee_texts)

text \<open>A disapproved day is priced sanely: half-integral day counts over a non-empty period always have a
  price, a whole number of major units; more days never cost less, and no number of days up to the
  period's length costs more than the rounded salary itself.\<close>

theorem priceRuleDays_bounds:
  assumes "0 \<le> x" and "x \<le> y" and "y \<le> of_int n" and "half_integral x" and "half_integral y" and "0 < n" and "0 \<le> basis"
  shows "\<exists>p q. priceRuleDays x basis n cur = Inr p \<and> priceRuleDays y basis n cur = Inr q \<and>
    0 \<le> p \<and> p \<le> q \<and> q \<le> round_half_up (currency_unit cur) basis \<and> currency_unit cur dvd p"
proof -
  let ?u = "currency_unit cur"
  have u: "0 < ?u" by (rule currency_unit_pos)
  have r: "0 \<le> js_round (x * 2)" "js_round (x * 2) \<le> js_round (y * 2)" "js_round (y * 2) \<le> 2 * n"
    using js_round_mono [of 0 "x * 2"] js_round_mono [of "x * 2" "y * 2"] js_round_mono [of "y * 2" "of_int (2 * n)"]
      js_round_of_int [of 0] js_round_of_int [of "2 * n"] assms(1-3) by simp_all
  have "basis * js_round (x * 2) \<le> basis * js_round (y * 2)" "basis * js_round (y * 2) \<le> basis * (2 * n)"
    using r assms(7) by (simp_all add: mult_left_mono)
  then have m: "basis * js_round (x * 2) div (2 * n) \<le> basis * js_round (y * 2) div (2 * n)"
    "basis * js_round (y * 2) div (2 * n) \<le> basis"
    using zdiv_mono1 [of _ _ "2 * n"] assms(6) by (fastforce, fastforce)
  have "0 \<le> basis * js_round (x * 2) div (2 * n)" using r assms(6,7) by (simp add: pos_imp_zdiv_nonneg_iff)
  then show ?thesis
    using assms m u priceRuleDays_eq [of x n basis cur] priceRuleDays_eq [of y n basis cur]
    by (auto intro: round_half_up_mono round_half_up_nonneg round_half_up_near(2))
qed

theorem priceRuleDays_bounds_witness:
  "\<exists>p q. priceRuleDays (1 / 2) 6000000 31 ''PKR'' = Inr p \<and> priceRuleDays 2 6000000 31 ''PKR'' = Inr q \<and>
    0 \<le> p \<and> p \<le> q \<and> q \<le> round_half_up (currency_unit ''PKR'') 6000000 \<and> currency_unit ''PKR'' dvd p"
  by (rule priceRuleDays_bounds) (simp_all add: half_integral_def)

text \<open>C27. No Indian payslip with a positive gross can be computed: the contribution rule converts its
  threshold in rupees of India, a currency the money library does not know, and fails with HR-2008.\<close>

theorem indian_statutory_fails:
  assumes "0 < gross" and "exponentOf cur = Inr e"
  shows "computeStatutoryDeductions gross (Some ''IN'') cur rc = Inl (HRError 2008)"
proof -
  have "e \<le> DECIMAL_SCALE" using exponentOf_bound [OF assms(2)] by (simp add: DECIMAL_SCALE_def)
  then obtain l where l: "stat_line cur ''EPF'' ((gross * 12) sdiv 100) = Inr l"
    using assms(2) by (simp add: stat_line_def amt_def minorToDecimal_def)
  have "decimalParts (Some ''21000'') = Inr (21000, 0)" by (simp add: decimal_eval)
  moreover have "exponentOf (Some ''INR'') = Inl (HRError 2008)" "js_toUpper ''IN'' = ''IN''" by code_simp+
  ultimately show ?thesis using assms(1) l
    by (simp add: computeStatutoryDeductions_def decimalToMinor_def Let_def)
qed

theorem indian_statutory_fails_witness:
  "computeStatutoryDeductions 5000000 (Some ''IN'') (Some ''PKR'') (in_ruleConfig sample_inputs) = Inl (HRError 2008)"
proof -
  have "exponentOf (Some ''PKR'') = Inr 2" by code_simp
  then show ?thesis by (intro indian_statutory_fails) simp_all
qed

end
