(* ===== verification/ApprovalMatrix.thy ===== *)
theory ApprovalMatrix
  imports Prelude
begin

text \<open>
  The rules of the configurable approval matrix, \<^verbatim>\<open>src/src/lib/approvalMatrix.js\<close>, and of the fixed
  stages, \<^verbatim>\<open>src/src/lib/approvalStagePolicy.js\<close>: a tenant publishes an ordered route of levels, a
  submission seals it with the people who may act, and the engine walks the sealed levels.
\<close>

section \<open>Levels\<close>

datatype level_action = RECOMMEND | VERIFY | APPROVE
datatype approver_mode = NAMED | EMPLOYEE_MANAGER

record level =
  lv_name :: string
  lv_action :: level_action
  lv_required :: bool
  lv_paused :: bool
  lv_approverMode :: approver_mode
  lv_approverIds :: "int list"
  lv_canReject :: bool
  lv_canReturn :: bool
  lv_satisfiedByInitiator :: bool
  lv_allowSelf :: bool
  lv_thresholdAmount :: "rat option"

definition MATRIX_KINDS :: "string list" where
  "MATRIX_KINDS = [''ATTENDANCE'', ''PAYROLL'']"

definition MAX_LEVELS :: nat where
  "MAX_LEVELS = 8"

definition ACTIONS_BY_LEVEL :: "level_action \<Rightarrow> string list" where
  "ACTIONS_BY_LEVEL a = (case a of
     RECOMMEND \<Rightarrow> [''RECOMMEND_APPROVAL'', ''RECOMMEND_REJECTION'']
   | VERIFY \<Rightarrow> [''VERIFY'', ''REJECT'']
   | APPROVE \<Rightarrow> [''APPROVE'', ''REJECT''])"

definition PERMISSION_BY_ACTION :: "level_action \<Rightarrow> string" where
  "PERMISSION_BY_ACTION a = (case a of RECOMMEND \<Rightarrow> ''manager'' | VERIFY \<Rightarrow> ''verify'' | APPROVE \<Rightarrow> ''approve'')"

text \<open>The constraints of the input schema beyond the types of its fields.\<close>

definition level_schema :: "level \<Rightarrow> bool" where
  "level_schema l \<longleftrightarrow>
    1 \<le> length (js_trim (lv_name l)) \<and> length (js_trim (lv_name l)) \<le> 60 \<and>
    list_all (\<lambda>i. i > 0) (lv_approverIds l) \<and> length (lv_approverIds l) \<le> 20 \<and>
    (case lv_thresholdAmount l of None \<Rightarrow> True | Some t \<Rightarrow> t \<ge> 0)"

definition bad :: "string \<Rightarrow> hr_error" where
  "bad message = AppError 422 message"

definition check_level :: "string \<Rightarrow> nat \<Rightarrow> nat \<Rightarrow> level \<Rightarrow> hr_error + unit" where
  "check_level kind n i l =
    (let isLast = (Suc i = n) in
     rbind (ensure (\<not> (lv_action l = APPROVE \<and> \<not> isLast)) (bad ''only the last level can approve'')) (\<lambda>_.
     rbind (ensure (\<not> (isLast \<and> lv_action l \<noteq> APPROVE)) (bad ''the last level must approve'')) (\<lambda>_.
     rbind (ensure (\<not> (isLast \<and> lv_paused l)) (bad ''the deciding level cannot be paused'')) (\<lambda>_.
     rbind (ensure (\<not> (lv_approverMode l = NAMED \<and> lv_approverIds l = [] \<and> \<not> lv_paused l))
       (bad ''assign at least one approver'')) (\<lambda>_.
     rbind (ensure (\<not> (lv_approverMode l = EMPLOYEE_MANAGER \<and> lv_approverIds l \<noteq> []))
       (bad ''remove the named approvers or choose named approvers'')) (\<lambda>_.
     rbind (ensure (\<not> (lv_allowSelf l \<and> lv_action l \<noteq> VERIFY))
       (bad ''only a verification level can allow the employee to verify their own request'')) (\<lambda>_.
     rbind (ensure (\<not> (lv_allowSelf l \<and> lv_approverMode l \<noteq> NAMED))
       (bad ''choose named approvers to allow self verification'')) (\<lambda>_.
     rbind (ensure (\<not> (lv_action l = APPROVE \<and> lv_satisfiedByInitiator l))
       (bad ''the decision cannot be satisfied by the initiator'')) (\<lambda>_.
     rbind (ensure (\<not> (lv_action l = APPROVE \<and> \<not> lv_canReject l \<and> \<not> lv_canReturn l))
       (bad ''allow rejecting or returning'')) (\<lambda>_.
     rbind (ensure (\<not> (lv_thresholdAmount l \<noteq> None \<and> kind \<noteq> ''PAYROLL''))
       (bad ''amount thresholds apply to payroll only'')) (\<lambda>_.
     rbind (ensure (\<not> (lv_thresholdAmount l \<noteq> None \<and> lv_required l))
       (bad ''a required level cannot have a threshold'')) (\<lambda>_.
     ensure (\<not> (isLast \<and> \<not> lv_required l)) (bad ''the last level is always required'')))))))))))))"

definition assertKind :: "string \<Rightarrow> hr_error + unit" where
  "assertKind kind = ensure (kind \<in> set MATRIX_KINDS) (bad ''No approval matrix for this kind'')"

definition parseLevels :: "string \<Rightarrow> level list \<Rightarrow> hr_error + level list" where
  "parseLevels kind raw =
    rbind (assertKind kind) (\<lambda>_.
    rbind (ensure (raw \<noteq> [] \<and> length raw \<le> MAX_LEVELS \<and> list_all level_schema raw) (bad ''levels'')) (\<lambda>_.
      let levels = map (\<lambda>l. l\<lparr>lv_name := js_trim (lv_name l), lv_approverIds := nub (lv_approverIds l)\<rparr>) raw in
      rbind (rmap (\<lambda>il. check_level kind (length levels) (fst il) (snd il)) (enumerate 0 levels)) (\<lambda>_.
        Inr levels)))"

definition amountOf :: "string \<Rightarrow> rat option \<Rightarrow> rat" where
  "amountOf kind totalNet =
    (if kind = ''PAYROLL'' then (case totalNet of None \<Rightarrow> 0 | Some t \<Rightarrow> t) else 0)"

section \<open>Sealed routes\<close>

record sealed_level =
  se_index :: nat
  se_name :: string
  se_action :: level_action
  se_required :: bool
  se_canReject :: bool
  se_canReturn :: bool
  se_allowSelf :: bool
  se_approverCodes :: "string list"
  se_viaManager :: bool
  se_engaged :: bool
  se_auto :: bool
  se_skipped :: "string option"

record route =
  rt_kind :: string
  rt_matrixVersion :: int
  rt_levels :: "sealed_level list"
  rt_acted :: "(nat \<times> string) list"

definition uniq_codes :: "string list \<Rightarrow> string list" where
  "uniq_codes codes = nub (filter (\<lambda>c. c \<noteq> []) codes)"

definition seal_level :: "string \<Rightarrow> string \<Rightarrow> string \<Rightarrow> rat \<Rightarrow> (level \<Rightarrow> string list) \<Rightarrow> nat \<times> level \<Rightarrow>
    hr_error + sealed_level" where
  "seal_level kind initiator subject amount approvers il =
    (case il of (i, l) \<Rightarrow>
     let base = \<lparr>se_index = i, se_name = lv_name l, se_action = lv_action l, se_required = lv_required l,
                 se_canReject = lv_canReject l, se_canReturn = lv_canReturn l, se_allowSelf = False,
                 se_approverCodes = [], se_viaManager = (lv_approverMode l = EMPLOYEE_MANAGER),
                 se_engaged = False, se_auto = False, se_skipped = Some ''PAUSED''\<rparr>
     in
     if lv_paused l then Inr base
     else
       let assigned = uniq_codes (approvers l);
           eligible = (if lv_allowSelf l then assigned
                       else filter (\<lambda>c. c \<noteq> initiator \<and> c \<noteq> subject) assigned);
           out = base\<lparr>se_allowSelf := lv_allowSelf l, se_approverCodes := eligible,
                      se_engaged := True, se_skipped := None\<rparr>
       in if (case lv_thresholdAmount l of None \<Rightarrow> False | Some t \<Rightarrow> amount < t)
          then Inr (out\<lparr>se_engaged := False, se_skipped := Some ''BELOW_THRESHOLD''\<rparr>)
          else if (lv_satisfiedByInitiator l \<or> (lv_allowSelf l \<and> initiator = subject)) \<and>
                  lv_action l \<noteq> APPROVE \<and> initiator \<in> set assigned \<and>
                  (kind = ''PAYROLL'' \<or> initiator \<noteq> subject \<or> lv_allowSelf l)
          then Inr (out\<lparr>se_auto := True\<rparr>)
          else if eligible = [] then
            (if lv_required l then Inl (bad ''no active approver other than the initiator'')
             else Inr (out\<lparr>se_engaged := False, se_skipped := Some ''NO_APPROVER''\<rparr>))
          else Inr out)"

definition buildRoute :: "string \<Rightarrow> int \<Rightarrow> level list \<Rightarrow> string \<Rightarrow> string \<Rightarrow> rat \<Rightarrow> (level \<Rightarrow> string list) \<Rightarrow>
    hr_error + route" where
  "buildRoute kind matrixVersion levels initiator subject amount approvers =
    rbind (rmap (seal_level kind initiator subject amount approvers) (enumerate 0 levels)) (\<lambda>sealed.
      if sealed = [] then Inl (PlainError ''TypeError'')
      else if \<not> se_engaged (last sealed) \<or> se_action (last sealed) \<noteq> APPROVE
      then Inl (bad ''The approval matrix has no deciding level'')
      else Inr \<lparr>rt_kind = kind, rt_matrixVersion = matrixVersion, rt_levels = sealed, rt_acted = []\<rparr>)"

section \<open>Walking a route\<close>

definition level_eligible :: "string list \<Rightarrow> sealed_level \<Rightarrow> string list" where
  "level_eligible acted l = filter (\<lambda>c. c \<notin> set acted) (se_approverCodes l)"

fun next_in :: "string list \<Rightarrow> nat \<Rightarrow> sealed_level list \<Rightarrow> hr_error + (nat \<times> string list) option" where
  "next_in acted i [] = Inr None"
| "next_in acted i (l # ls) =
    (if \<not> se_engaged l \<or> se_auto l then next_in acted (Suc i) ls
     else if level_eligible acted l \<noteq> [] then Inr (Some (i, level_eligible acted l))
     else if se_required l then Inl (bad ''everyone assigned to this level has already acted on this request'')
     else next_in acted (Suc i) ls)"

definition nextActionable :: "route \<Rightarrow> nat \<Rightarrow> string list \<Rightarrow> hr_error + (nat \<times> string list) option" where
  "nextActionable route i acted = next_in acted i (drop i (rt_levels route))"

fun previousActionable :: "route \<Rightarrow> nat \<Rightarrow> nat option" where
  "previousActionable route 0 = None"
| "previousActionable route (Suc i) =
    (let l = rt_levels route ! i in
     if i < length (rt_levels route) \<and> se_engaged l \<and> \<not> se_auto l then Some i
     else previousActionable route i)"

definition levelActions :: "sealed_level \<Rightarrow> string list" where
  "levelActions l =
    (let filtered = filter (\<lambda>a.
           if se_action l = RECOMMEND \<and> a = ''RECOMMEND_REJECTION'' then se_canReject l
           else if (se_action l = APPROVE \<or> se_action l = VERIFY) \<and> a = ''REJECT'' then se_canReject l
           else True) (ACTIONS_BY_LEVEL (se_action l))
     in if se_canReturn l then filtered @ [''REVERT''] else filtered)"

section \<open>The fixed stages\<close>

text \<open>The stages of a request: the fixed ones, \<open>LEVEL\<close> for a sealed route, and the closed ones.\<close>

datatype stage = INITIATOR | LINE_MANAGER | HR | MANAGEMENT | LEVEL | APPROVED | REJECTED | WITHDRAWN

definition pausedStagesFor :: "string \<Rightarrow> stage list" where
  "pausedStagesFor kind = (if kind = ''ATTENDANCE'' then [LINE_MANAGER] else [])"

definition isStagePaused :: "string \<Rightarrow> stage \<Rightarrow> bool" where
  "isStagePaused kind s \<longleftrightarrow> s \<in> set (pausedStagesFor kind)"

definition stageAfterSubmission :: "string \<Rightarrow> stage" where
  "stageAfterSubmission kind = (if isStagePaused kind LINE_MANAGER then HR else LINE_MANAGER)"

definition requiresLineManager :: "string \<Rightarrow> bool" where
  "requiresLineManager kind \<longleftrightarrow> \<not> isStagePaused kind LINE_MANAGER"

definition skipsManagerWhenNone :: "string \<Rightarrow> bool" where
  "skipsManagerWhenNone kind \<longleftrightarrow> kind \<in> set [''LEAVE'', ''OVERTIME'', ''CLAIM'', ''LOAN'', ''SHIFT_SWAP'',
     ''TIME_CREDIT'', ''ATTENDANCE_CORRECTION'']"

definition isVerifiedOnBehalf :: "string \<Rightarrow> bool" where
  "isVerifiedOnBehalf kind \<longleftrightarrow> kind \<in> set [''ATTENDANCE'', ''CLAIM'', ''LOAN'']"

section \<open>Valid routes\<close>

definition levels_ok :: "level list \<Rightarrow> bool" where
  "levels_ok ls \<longleftrightarrow> ls \<noteq> [] \<and> length ls \<le> MAX_LEVELS \<and>
    lv_action (last ls) = APPROVE \<and> lv_required (last ls) \<and> \<not> lv_paused (last ls) \<and>
    lv_thresholdAmount (last ls) = None \<and> \<not> lv_satisfiedByInitiator (last ls) \<and>
    list_all (\<lambda>l. lv_action l \<noteq> APPROVE) (butlast ls) \<and>
    list_all (\<lambda>l. lv_allowSelf l \<longrightarrow> lv_action l = VERIFY) ls"

lemma check_level_Inr:
  "check_level kind n i l = Inr u \<longleftrightarrow>
    (lv_action l = APPROVE \<longleftrightarrow> Suc i = n) \<and> (Suc i = n \<longrightarrow> \<not> lv_paused l \<and> lv_required l) \<and>
    (lv_approverMode l = NAMED \<and> lv_approverIds l = [] \<longrightarrow> lv_paused l) \<and>
    (lv_approverMode l = EMPLOYEE_MANAGER \<longrightarrow> lv_approverIds l = []) \<and>
    (lv_allowSelf l \<longrightarrow> lv_action l = VERIFY \<and> lv_approverMode l = NAMED) \<and>
    (lv_action l = APPROVE \<longrightarrow> \<not> lv_satisfiedByInitiator l \<and> (lv_canReject l \<or> lv_canReturn l)) \<and>
    (lv_thresholdAmount l \<noteq> None \<longrightarrow> kind = ''PAYROLL'' \<and> \<not> lv_required l)"
  unfolding check_level_def Let_def by (auto simp: result_simps split: if_splits)

lemma check_levels_ok:
  assumes "rmap (\<lambda>il. check_level kind (length ls) (fst il) (snd il)) (enumerate 0 ls) = Inr us" and "i < length ls"
  shows "check_level kind (length ls) i (ls ! i) = Inr (us ! i)"
  using rmap_nth [OF assms(1), of i] assms(2) by (simp add: nth_enumerate_eq)

lemma check_levels_levels_ok:
  assumes "rmap (\<lambda>il. check_level kind (length ls) (fst il) (snd il)) (enumerate 0 ls) = Inr us"
    and "ls \<noteq> []" and "length ls \<le> MAX_LEVELS"
  shows "levels_ok ls"
proof -
  have c: "check_level kind (length ls) i (ls ! i) = Inr (us ! i)" if "i < length ls" for i
    using check_levels_ok [OF assms(1) that] .
  have "lv_action l \<noteq> APPROVE" if l: "l \<in> set (butlast ls)" for l
  proof -
    obtain i where "i < length ls - 1" "l = ls ! i" using l by (auto simp: in_set_conv_nth nth_butlast)
    then show ?thesis using c [of i] by (simp add: check_level_Inr)
  qed
  moreover have "lv_allowSelf l \<longrightarrow> lv_action l = VERIFY" if l: "l \<in> set ls" for l
  proof -
    obtain i where "i < length ls" "l = ls ! i" using l by (auto simp: in_set_conv_nth)
    then show ?thesis using c [of i] by (simp add: check_level_Inr)
  qed
  ultimately show ?thesis
    using c [of "length ls - 1"] assms(2,3)
    by (cases "lv_thresholdAmount (last ls)") (auto simp: levels_ok_def list_all_iff last_conv_nth check_level_Inr)
qed

lemma seal_level_ok:
  assumes "seal_level kind ini subj amount approvers (i, l) = Inr s"
  shows "se_index s = i \<and> se_action s = lv_action l \<and> se_required s = lv_required l \<and>
    (se_engaged s \<and> \<not> se_auto s \<longrightarrow> se_approverCodes s \<noteq> []) \<and>
    (\<not> lv_allowSelf l \<longrightarrow> ini \<notin> set (se_approverCodes s) \<and> subj \<notin> set (se_approverCodes s)) \<and>
    (lv_action l = APPROVE \<longrightarrow> \<not> se_auto s) \<and> (se_allowSelf s \<longrightarrow> lv_allowSelf l)"
  using assms by (auto simp: seal_level_def Let_def split: if_splits)

lemma buildRoute_cases:
  assumes "buildRoute kind v ls ini subj amount approvers = Inr r"
  shows "length (rt_levels r) = length ls \<and> rt_levels r \<noteq> [] \<and> rt_acted r = [] \<and>
    se_engaged (last (rt_levels r)) \<and> se_action (last (rt_levels r)) = APPROVE \<and>
    (\<forall>i < length ls. seal_level kind ini subj amount approvers (i, ls ! i) = Inr (rt_levels r ! i))"
proof -
  obtain sealed where m: "rmap (seal_level kind ini subj amount approvers) (enumerate 0 ls) = Inr sealed"
    and r: "sealed \<noteq> []" "se_engaged (last sealed)" "se_action (last sealed) = APPROVE"
      "rt_levels r = sealed" "rt_acted r = []"
    using assms by (auto simp: buildRoute_def result_simps split: if_splits)
  have "length sealed = length ls" using rmap_length [OF m] by simp
  moreover have "seal_level kind ini subj amount approvers (i, ls ! i) = Inr (sealed ! i)" if "i < length ls" for i
    using rmap_nth [OF m, of i] that by (simp add: nth_enumerate_eq)
  ultimately show ?thesis using r by simp
qed

text \<open>A route that can always be walked to a decision.\<close>

definition route_ok :: "route \<Rightarrow> bool" where
  "route_ok r \<longleftrightarrow> rt_levels r \<noteq> [] \<and> se_engaged (last (rt_levels r)) \<and> \<not> se_auto (last (rt_levels r)) \<and>
    se_required (last (rt_levels r)) \<and> se_action (last (rt_levels r)) = APPROVE \<and>
    list_all (\<lambda>l. se_engaged l \<and> \<not> se_auto l \<longrightarrow> se_approverCodes l \<noteq> []) (rt_levels r)"

lemma buildRoute_route_ok:
  assumes "buildRoute kind v ls ini subj amount approvers = Inr r" and "levels_ok ls"
  shows "route_ok r"
proof -
  note r = buildRoute_cases [OF assms(1)]
  let ?n = "length ls - 1"
  have ls: "ls \<noteq> []" and last: "last ls = ls ! ?n" "last (rt_levels r) = rt_levels r ! ?n"
    using assms(2) r by (simp_all add: levels_ok_def last_conv_nth)
  have "seal_level kind ini subj amount approvers (?n, ls ! ?n) = Inr (rt_levels r ! ?n)" using r ls by simp
  note d = seal_level_ok [OF this]
  have "se_engaged l \<and> \<not> se_auto l \<longrightarrow> se_approverCodes l \<noteq> []" if mem: "l \<in> set (rt_levels r)" for l
  proof -
    obtain i where i: "i < length (rt_levels r)" "rt_levels r ! i = l"
      using mem unfolding in_set_conv_nth by blast
    then have "seal_level kind ini subj amount approvers (i, ls ! i) = Inr l" using r by auto
    from seal_level_ok [OF this] show ?thesis by blast
  qed
  then show ?thesis using d r assms(2) last by (simp add: route_ok_def levels_ok_def list_all_iff)
qed

lemma next_in_Some:
  "next_in acted i ls = Inr (Some (j, codes)) \<Longrightarrow>
    \<exists>k < length ls. j = i + k \<and> se_engaged (ls ! k) \<and> \<not> se_auto (ls ! k) \<and> codes = level_eligible acted (ls ! k) \<and>
      codes \<noteq> [] \<and> (\<forall>m < k. \<not> se_engaged (ls ! m) \<or> se_auto (ls ! m) \<or>
        (\<not> se_required (ls ! m) \<and> level_eligible acted (ls ! m) = []))"
proof (induction ls arbitrary: i)
  case (Cons l ls)
  show ?case
  proof (cases "se_engaged l \<and> \<not> se_auto l \<and> level_eligible acted l \<noteq> []")
    case True
    then show ?thesis using Cons.prems by (intro exI [of _ 0]) auto
  next
    case False
    then have skip: "\<not> se_engaged l \<or> se_auto l \<or> (\<not> se_required l \<and> level_eligible acted l = [])"
      and rest: "next_in acted (Suc i) ls = Inr (Some (j, codes))"
      using Cons.prems by (auto split: if_splits)
    obtain k where k: "k < length ls" "j = Suc i + k" "se_engaged (ls ! k)" "\<not> se_auto (ls ! k)"
      "codes = level_eligible acted (ls ! k)" "codes \<noteq> []"
      "\<forall>m < k. \<not> se_engaged (ls ! m) \<or> se_auto (ls ! m) \<or> (\<not> se_required (ls ! m) \<and> level_eligible acted (ls ! m) = [])"
      using Cons.IH [OF rest] by blast
    have "\<forall>m < Suc k. \<not> se_engaged ((l # ls) ! m) \<or> se_auto ((l # ls) ! m) \<or>
        (\<not> se_required ((l # ls) ! m) \<and> level_eligible acted ((l # ls) ! m) = [])"
      using skip k(7) by (auto simp: less_Suc_eq_0_disj)
    then show ?thesis using k by (intro exI [of _ "Suc k"]) simp
  qed
qed simp

lemma next_in_not_None:
  "ls \<noteq> [] \<Longrightarrow> se_engaged (last ls) \<Longrightarrow> \<not> se_auto (last ls) \<Longrightarrow> se_required (last ls) \<Longrightarrow> next_in acted i ls \<noteq> Inr None"
  by (induction ls arbitrary: i) (auto split: if_splits)

definition sample_level :: "string \<Rightarrow> level_action \<Rightarrow> int list \<Rightarrow> level" where
  "sample_level name action ids =
    \<lparr>lv_name = name, lv_action = action, lv_required = True, lv_paused = False, lv_approverMode = NAMED,
     lv_approverIds = ids, lv_canReject = True, lv_canReturn = True, lv_satisfiedByInitiator = False,
     lv_allowSelf = False, lv_thresholdAmount = None\<rparr>"

definition sample_matrix :: "level list" where
  "sample_matrix = [sample_level ''HR'' VERIFY [1, 1], sample_level ''Board'' APPROVE [2, 3]]"

text \<open>The codes of the people assigned to a level: one letter per employee.\<close>

definition sample_approvers :: "level \<Rightarrow> string list" where
  "sample_approvers l = map (\<lambda>i. [digit_char (nat i)]) (lv_approverIds l)"

definition sample_levels :: "level list" where
  "sample_levels = [sample_level ''HR'' VERIFY [1], sample_level ''Board'' APPROVE [2, 3]]"

lemma sample_parse: "parseLevels ''PAYROLL'' sample_matrix = Inr sample_levels"
  by (simp add: parseLevels_def assertKind_def MATRIX_KINDS_def MAX_LEVELS_def level_schema_def sample_matrix_def
      sample_levels_def sample_level_def js_trim_def is_space_def nub_def check_level_def Let_def)

definition sample_sealed :: "nat \<Rightarrow> string \<Rightarrow> level_action \<Rightarrow> string list \<Rightarrow> sealed_level" where
  "sample_sealed i name action codes =
    \<lparr>se_index = i, se_name = name, se_action = action, se_required = True, se_canReject = True, se_canReturn = True,
     se_allowSelf = False, se_approverCodes = codes, se_viaManager = False, se_engaged = True, se_auto = False,
     se_skipped = None\<rparr>"

definition sample_route :: route where
  "sample_route = \<lparr>rt_kind = ''PAYROLL'', rt_matrixVersion = 1,
     rt_levels = [sample_sealed 0 ''HR'' VERIFY [''1''], sample_sealed 1 ''Board'' APPROVE [''2'']], rt_acted = []\<rparr>"

lemma sample_codes: "digit_char (nat 1) = CHR ''1''" "digit_char (nat 2) = CHR ''2''" "digit_char (nat 3) = CHR ''3''"
  by code_simp+

lemma sample_build: "buildRoute ''PAYROLL'' 1 sample_levels ''3'' ''4'' 0 sample_approvers = Inr sample_route"
  using sample_codes
  by (simp add: buildRoute_def seal_level_def sample_levels_def sample_level_def sample_approvers_def sample_route_def
      sample_sealed_def uniq_codes_def nub_def Let_def)

section \<open>Properties\<close>

text \<open>C28. A matrix that passes validation ends in exactly one deciding level, its last: that level is required,
  not paused, has no threshold and is not satisfied by the initiator; no earlier level approves, and
  only verification levels allow self verification. The route has between one and eight levels.\<close>

theorem parseLevels_sound:
  assumes "parseLevels kind raw = Inr ls"
  shows "levels_ok ls \<and> length ls = length raw \<and> kind \<in> set MATRIX_KINDS \<and>
    (\<forall>l \<in> set ls. distinct (lv_approverIds l))"
proof -
  have "raw \<noteq> []" "length raw \<le> MAX_LEVELS" "kind \<in> set MATRIX_KINDS"
    and ls: "ls = map (\<lambda>l. l\<lparr>lv_name := js_trim (lv_name l), lv_approverIds := nub (lv_approverIds l)\<rparr>) raw"
    and "\<exists>us. rmap (\<lambda>il. check_level kind (length ls) (fst il) (snd il)) (enumerate 0 ls) = Inr us"
    using assms by (auto simp: parseLevels_def assertKind_def result_simps Let_def split: if_splits)
  then have "levels_ok ls" using check_levels_levels_ok by auto
  then show ?thesis using ls \<open>kind \<in> set MATRIX_KINDS\<close> by auto
qed

theorem parseLevels_sound_witness:
  "\<exists>ls. parseLevels ''PAYROLL'' sample_matrix = Inr ls \<and> levels_ok ls \<and> length ls = 2"
  using parseLevels_sound [OF sample_parse] sample_parse by (auto simp: sample_matrix_def)

text \<open>C29. Nobody decides their own request: on a route sealed from a valid matrix the deciding level is
  engaged and cannot be skipped or satisfied automatically, it has somebody to act, and neither the
  initiator nor the subject is among them; at any level the two are excluded unless the level allows
  self verification, which a deciding level never does.\<close>

theorem buildRoute_independent:
  assumes "parseLevels kind raw = Inr ls" and "buildRoute kind v ls ini subj amount approvers = Inr r"
  shows "route_ok r \<and> se_approverCodes (last (rt_levels r)) \<noteq> [] \<and>
    ini \<notin> set (se_approverCodes (last (rt_levels r))) \<and> subj \<notin> set (se_approverCodes (last (rt_levels r))) \<and>
    (\<forall>i < length ls. \<not> lv_allowSelf (ls ! i) \<longrightarrow>
      ini \<notin> set (se_approverCodes (rt_levels r ! i)) \<and> subj \<notin> set (se_approverCodes (rt_levels r ! i)))"
proof -
  have "raw \<noteq> []" "length raw \<le> MAX_LEVELS"
    and "ls = map (\<lambda>l. l\<lparr>lv_name := js_trim (lv_name l), lv_approverIds := nub (lv_approverIds l)\<rparr>) raw"
    and "\<exists>us. rmap (\<lambda>il. check_level kind (length ls) (fst il) (snd il)) (enumerate 0 ls) = Inr us"
    using assms(1) by (auto simp: parseLevels_def assertKind_def result_simps Let_def split: if_splits)
  then have ls: "levels_ok ls" using check_levels_levels_ok by auto
  note r = buildRoute_cases [OF assms(2)]
  have ok: "route_ok r" by (rule buildRoute_route_ok [OF assms(2) ls])
  have each: "\<not> lv_allowSelf (ls ! i) \<longrightarrow>
      ini \<notin> set (se_approverCodes (rt_levels r ! i)) \<and> subj \<notin> set (se_approverCodes (rt_levels r ! i))"
    if "i < length ls" for i
    using r that seal_level_ok by blast
  have "\<not> lv_allowSelf (last ls)" using ls by (auto simp: levels_ok_def list_all_iff)
  moreover have "last ls = ls ! (length ls - 1)" "last (rt_levels r) = rt_levels r ! (length ls - 1)"
    using ls r by (simp_all add: levels_ok_def last_conv_nth)
  moreover have "se_approverCodes (last (rt_levels r)) \<noteq> []"
    using ok by (auto simp: route_ok_def list_all_iff)
  ultimately show ?thesis using ok each [of "length ls - 1"] each ls by (simp add: levels_ok_def)
qed

theorem buildRoute_independent_witness:
  "\<exists>r. buildRoute ''PAYROLL'' 1 sample_levels ''3'' ''4'' 0 sample_approvers = Inr r \<and> route_ok r \<and>
    se_approverCodes (last (rt_levels r)) = [''2'']"
  using buildRoute_independent [OF sample_parse sample_build] sample_build
  by (auto simp: sample_route_def sample_sealed_def)

text \<open>Walking a sealed route never loses a request: from any level there is a next level somebody can
  act on, or the walk stops with an error because everyone assigned to a required level has acted.
  The level found is engaged, its actors have not acted yet, and every level passed over is skipped,
  done by the initiator, or optional with nobody left.\<close>

theorem nextActionable_walk:
  assumes "route_ok r" and "i < length (rt_levels r)"
  shows "case nextActionable r i acted of
      Inl e \<Rightarrow> \<exists>j. i \<le> j \<and> j < length (rt_levels r) \<and> se_required (rt_levels r ! j) \<and>
        level_eligible acted (rt_levels r ! j) = []
    | Inr None \<Rightarrow> False
    | Inr (Some (j, codes)) \<Rightarrow> i \<le> j \<and> j < length (rt_levels r) \<and> se_engaged (rt_levels r ! j) \<and>
        \<not> se_auto (rt_levels r ! j) \<and> codes = level_eligible acted (rt_levels r ! j) \<and> codes \<noteq> [] \<and>
        (\<forall>m. i \<le> m \<and> m < j \<longrightarrow> \<not> se_engaged (rt_levels r ! m) \<or> se_auto (rt_levels r ! m) \<or>
          (\<not> se_required (rt_levels r ! m) \<and> level_eligible acted (rt_levels r ! m) = []))"
proof -
  let ?ls = "drop i (rt_levels r)"
  have ls: "?ls \<noteq> []" "last ?ls = last (rt_levels r)" using assms(2) by simp_all
  have err: "\<exists>j. j < length ls \<and> se_required (ls ! j) \<and> level_eligible acted (ls ! j) = []"
    if "next_in acted k ls = Inl e" for k ls e
    using that
  proof (induction ls arbitrary: k)
    case (Cons l ls)
    show ?case
    proof (cases "se_required l \<and> level_eligible acted l = []")
      case True
      then show ?thesis by (intro exI [of _ 0]) simp
    next
      case False
      then have "next_in acted (Suc k) ls = Inl e" using Cons.prems by (auto split: if_splits)
      then show ?thesis using Cons.IH by fastforce
    qed
  qed simp
  show ?thesis
  proof (cases "nextActionable r i acted")
    case (Inl e)
    then obtain j where "j < length ?ls" "se_required (?ls ! j)" "level_eligible acted (?ls ! j) = []"
      using err [of i ?ls e] by (auto simp: nextActionable_def)
    then have "i \<le> i + j \<and> i + j < length (rt_levels r) \<and> se_required (rt_levels r ! (i + j)) \<and>
        level_eligible acted (rt_levels r ! (i + j)) = []" by auto
    then show ?thesis unfolding Inl sum.case by blast
  next
    case (Inr res)
    show ?thesis
    proof (cases res)
      case None
      then show ?thesis using Inr next_in_not_None [OF ls(1), of acted i] assms(1) ls(2)
        by (simp add: nextActionable_def route_ok_def)
    next
      case (Some jc)
      obtain j codes where jc: "jc = (j, codes)" by (cases jc)
      have "next_in acted i ?ls = Inr (Some (j, codes))" using Inr Some jc by (simp add: nextActionable_def)
      from next_in_Some [OF this] obtain k where k: "k < length ?ls" "j = i + k" "se_engaged (?ls ! k)"
        "\<not> se_auto (?ls ! k)" "codes = level_eligible acted (?ls ! k)" "codes \<noteq> []"
        and passed: "\<forall>m < k. \<not> se_engaged (?ls ! m) \<or> se_auto (?ls ! m) \<or>
          (\<not> se_required (?ls ! m) \<and> level_eligible acted (?ls ! m) = [])" by blast
      have "\<not> se_engaged (rt_levels r ! m) \<or> se_auto (rt_levels r ! m) \<or>
          (\<not> se_required (rt_levels r ! m) \<and> level_eligible acted (rt_levels r ! m) = [])" if "i \<le> m" "m < j" for m
        using passed [rule_format, of "m - i"] that k(1,2) by simp
      then show ?thesis using Inr Some jc k by simp
    qed
  qed
qed

theorem nextActionable_walk_witness:
  "nextActionable sample_route 0 [''1''] = Inl (bad ''everyone assigned to this level has already acted on this request'') \<and>
   (\<exists>j < 2. \<exists>codes. nextActionable sample_route 0 [] = Inr (Some (j, codes)) \<and> codes \<noteq> [])"
proof -
  have "route_ok sample_route" by (simp add: route_ok_def sample_route_def sample_sealed_def)
  from nextActionable_walk [OF this, of 0 "[]"]
  have "case nextActionable sample_route 0 [] of Inl e \<Rightarrow> True | Inr None \<Rightarrow> False | Inr (Some (j, codes)) \<Rightarrow> j < 2 \<and> codes \<noteq> []"
    by (auto simp: sample_route_def split: sum.splits option.splits)
  moreover have "nextActionable sample_route 0 [] \<noteq> Inl e" for e
    by (simp add: nextActionable_def sample_route_def sample_sealed_def level_eligible_def)
  ultimately have "\<exists>j < 2. \<exists>codes. nextActionable sample_route 0 [] = Inr (Some (j, codes)) \<and> codes \<noteq> []"
    by (auto split: sum.splits option.splits)
  then show ?thesis
    by (simp add: nextActionable_def sample_route_def sample_sealed_def level_eligible_def)
qed

end
