(* ===== verification/ApprovalEngine.thy ===== *)
theory ApprovalEngine
  imports ApprovalMatrix
begin

text \<open>
  The approval centre, \<^verbatim>\<open>src/src/services/approval/service.js\<close>: who may do what with a request, how a
  request is submitted and moved along its route or through the fixed stages, and how a decision ends
  it. A request is a record; a command returns the new record, the audit entries it writes and the
  effects it has on the domain, which the adapters carry out (\<open>effect\<close>). What a command reads from
  the database besides the request is an argument: the source of the request with its digest, the
  people concerned, and the published matrix. The accepted action names, the action table and the revert targets of the fixed
  stages come from the contracts package and are parameters (\<open>contracts\<close>). The identity of an
  employee across code changes is that of \<^verbatim>\<open>src/src/services/separation/base.js\<close>.
\<close>

section \<open>Identity\<close>

text \<open>An alias \<open>(old, new)\<close> says that an employee code was replaced.\<close>

type_synonym aliases = "(string \<times> string) list"

definition alias_error :: hr_error where
  "alias_error = AppError 409 ''Employee code alias cycle requires HR review''"

function currentCode :: "aliases \<Rightarrow> string list \<Rightarrow> string \<Rightarrow> hr_error + string" where
  "currentCode aliases seen code =
    (if code \<in> set seen then Inl alias_error
     else case find (\<lambda>a. fst a = code) aliases of
        None \<Rightarrow> Inr code
      | Some a \<Rightarrow> currentCode aliases (code # seen) (snd a))"
  by pat_completeness auto

termination currentCode
proof (relation "measure (\<lambda>(aliases, seen, code). length (filter (\<lambda>a. fst a \<notin> set seen) aliases))")
  fix aliases :: aliases and seen code a
  assume "code \<notin> set seen" and f: "find (\<lambda>a. fst a = code) aliases = Some a"
  then have a: "a \<in> set aliases" "fst a = code"
    by (auto simp: find_Some_iff)
  have "length (filter (\<lambda>a. fst a \<notin> set (code # seen)) aliases) < length (filter (\<lambda>a. fst a \<notin> set seen) aliases)"
    by (rule filter_length_less [where y = a]) (use a \<open>code \<notin> set seen\<close> in auto)
  then show "((aliases, code # seen, snd a), aliases, seen, code) \<in>
      measure (\<lambda>(aliases, seen, code). length (filter (\<lambda>a. fst a \<notin> set seen) aliases))" by simp
qed simp

declare currentCode.simps [simp del]

definition alias_pass :: "aliases \<Rightarrow> string list \<Rightarrow> string list" where
  "alias_pass aliases codes =
    foldl (\<lambda>cs a. if snd a \<in> set cs \<and> fst a \<notin> set cs then cs @ [fst a] else cs) codes aliases"

lemma alias_pass_extends: "\<exists>ext. alias_pass aliases codes = codes @ ext \<and> set ext \<subseteq> fst ` set aliases - set codes"
proof -
  have "\<exists>ext. foldl (\<lambda>cs a. if snd a \<in> set cs \<and> fst a \<notin> set cs then cs @ [fst a] else cs) codes aliases = codes @ ext \<and>
      set ext \<subseteq> fst ` set aliases - set codes"
  proof (induction aliases rule: rev_induct)
    case (snoc a as)
    then obtain ext where "foldl (\<lambda>cs a. if snd a \<in> set cs \<and> fst a \<notin> set cs then cs @ [fst a] else cs) codes as = codes @ ext"
      "set ext \<subseteq> fst ` set as - set codes" by blast
    then show ?case by auto
  qed simp
  then show ?thesis by (simp add: alias_pass_def)
qed

function alias_close :: "aliases \<Rightarrow> string list \<Rightarrow> string list" where
  "alias_close aliases codes =
    (let next_codes = alias_pass aliases codes in
     if next_codes = codes then codes else alias_close aliases next_codes)"
  by pat_completeness auto

termination alias_close
proof (relation "measure (\<lambda>(aliases, codes). length (filter (\<lambda>a. fst a \<notin> set codes) aliases))")
  fix aliases :: aliases and codes x
  assume x: "x = alias_pass aliases codes" "x \<noteq> codes"
  then obtain ext where ext: "x = codes @ ext" "set ext \<subseteq> fst ` set aliases - set codes" "ext \<noteq> []"
    using alias_pass_extends [of aliases codes] by auto
  then obtain c where "c \<in> set ext" by (cases ext) auto
  then obtain a where a: "a \<in> set aliases" "fst a \<in> set ext" "fst a \<notin> set codes" using ext(2) by auto
  have "length (filter (\<lambda>a. fst a \<notin> set x) aliases) < length (filter (\<lambda>a. fst a \<notin> set codes) aliases)"
    by (rule filter_length_less [where y = a]) (use a ext in auto)
  then show "((aliases, x), aliases, codes) \<in>
      measure (\<lambda>(aliases, codes). length (filter (\<lambda>a. fst a \<notin> set codes) aliases))" by simp
qed simp

declare alias_close.simps [simp del]

definition employeeCodes :: "aliases \<Rightarrow> string \<Rightarrow> hr_error + string list" where
  "employeeCodes aliases code =
    rbind (currentCode aliases [] code) (\<lambda>current. Inr (alias_close aliases [current]))"

lemma alias_pass_fixed:
  assumes "alias_pass aliases codes = codes" and "(old, new) \<in> set aliases" and "new \<in> set codes"
  shows "old \<in> set codes"
proof -
  let ?f = "\<lambda>cs a. if snd a \<in> set cs \<and> fst a \<notin> set cs then cs @ [fst a] else cs"
  obtain as bs where split: "aliases = as @ (old, new) # bs" using assms(2) by (auto dest: split_list)
  obtain e1 where e1: "foldl ?f codes as = codes @ e1"
    using alias_pass_extends [of as codes] by (auto simp: alias_pass_def)
  obtain e2 where e2: "foldl ?f (?f (codes @ e1) (old, new)) bs = ?f (codes @ e1) (old, new) @ e2"
    using alias_pass_extends [of bs "?f (codes @ e1) (old, new)"] by (auto simp: alias_pass_def)
  have "foldl ?f codes aliases = ?f (codes @ e1) (old, new) @ e2" using split e1 e2 by simp
  then have "?f (codes @ e1) (old, new) @ e2 = codes" using assms(1) by (simp add: alias_pass_def)
  then have "e1 = []" and "?f (codes @ e1) (old, new) = codes" by (auto split: if_splits)
  then show ?thesis using assms(3) by (auto split: if_splits)
qed

lemma alias_pass_sound:
  assumes "\<And>c. c \<in> set codes \<Longrightarrow> (c, cur) \<in> (set aliases)\<^sup>*" and "set as \<subseteq> set aliases" and "x \<in> set (alias_pass as codes)"
  shows "(x, cur) \<in> (set aliases)\<^sup>*"
  using assms(2,3)
proof (induction as arbitrary: x rule: rev_induct)
  case Nil
  then show ?case using assms(1) by (simp add: alias_pass_def)
next
  case (snoc a as)
  show ?case
  proof (cases "x \<in> set (alias_pass as codes)")
    case True
    then show ?thesis using snoc by simp
  next
    case False
    then have "x = fst a" "snd a \<in> set (alias_pass as codes)"
      using snoc.prems(2) by (auto simp: alias_pass_def split: if_splits)
    then have "(snd a, cur) \<in> (set aliases)\<^sup>*" "(x, snd a) \<in> set aliases" using snoc by auto
    then show ?thesis by (rule converse_rtrancl_into_rtrancl [rotated])
  qed
qed

lemma alias_close_set:
  assumes "\<And>c. c \<in> set codes \<Longrightarrow> (c, cur) \<in> (set aliases)\<^sup>*" and "cur \<in> set codes"
  shows "set (alias_close aliases codes) = {c. (c, cur) \<in> (set aliases)\<^sup>*}"
  using assms
proof (induction aliases codes rule: alias_close.induct)
  case (1 aliases codes)
  show ?case
  proof (cases "alias_pass aliases codes = codes")
    case True
    have "c \<in> set codes" if "(c, cur) \<in> (set aliases)\<^sup>*" for c
      using that
    proof (induction rule: converse_rtrancl_induct)
      case (step y z)
      then show ?case using alias_pass_fixed [OF True] by blast
    qed (rule "1.prems"(2))
    then show ?thesis using True "1.prems"(1) by (subst alias_close.simps) auto
  next
    case False
    have "set codes \<subseteq> set (alias_pass aliases codes)" using alias_pass_extends [of aliases codes] by auto
    then show ?thesis
      using 1 False alias_pass_sound [of codes cur aliases aliases] by (subst alias_close.simps) auto
  qed
qed

section \<open>Requests and commands\<close>

record env =
  ev_code :: string
  ev_id :: int
  ev_permissions :: "string list"
  ev_identityCodes :: "string list"

record request =
  rq_kind :: string
  rq_sourceRef :: string
  rq_employeeCode :: string
  rq_stage :: stage
  rq_level :: "nat option"
  rq_pendingCodes :: "string list"
  rq_route :: "route option"
  rq_version :: nat
  rq_round :: nat
  rq_managerCode :: "string option"
  rq_managerActorCode :: "string option"
  rq_hrActorCode :: "string option"
  rq_recommendation :: "string option"
  rq_verification :: "string option"
  rq_sourceHash :: string
  rq_execution :: string

text \<open>
  What loading the source gives: the owner with the manager and, of the record itself, what the
  engine looks at. \<open>so_managerCode\<close> is the code of the manager's current employee row, if any.
\<close>

record source =
  so_employeeCode :: string
  so_managerId :: "int option"
  so_managerCode :: "string option"
  so_digest :: string
  so_hasLeavePolicy :: bool

datatype effect =
    OnSubmit string
  | OnReturn string stage
  | VerifyComment string bool
  | SetLeavePolicy string
  | WithdrawSource string
  | ApplyDecision bool string
  | RuleWithdrawn

record audit =
  au_version :: nat
  au_round :: nat
  au_actorCode :: string
  au_fromStage :: "stage \<times> nat option"
  au_toStage :: "stage \<times> nat option"
  au_action :: string
  au_reason :: "string option"
  au_sourceHash :: string

record contracts =
  ct_accepts :: "string \<Rightarrow> bool"
  ct_actions :: "stage \<Rightarrow> string list"
  ct_revertTarget :: "stage \<Rightarrow> stage"

definition fail_with :: "nat \<Rightarrow> string \<Rightarrow> hr_error + 'a" where
  "fail_with status message = Inl (AppError status message)"

definition permits :: "env \<Rightarrow> string \<Rightarrow> bool" where
  "permits env key \<longleftrightarrow> key \<in> set (ev_permissions env)"

definition ownsCode :: "env \<Rightarrow> string option \<Rightarrow> bool" where
  "ownsCode env code = (case code of None \<Rightarrow> False
     | Some c \<Rightarrow> c \<in> set (ev_identityCodes env) \<or> ev_code env = c)"

definition assertVersion :: "request \<Rightarrow> nat \<Rightarrow> hr_error + unit" where
  "assertVersion row version =
    ensure (rq_version row = version) (AppError 412 ''Request changed'')"

definition stageLabel :: "request \<Rightarrow> stage \<times> nat option" where
  "stageLabel row = (rq_stage row, if rq_stage row = LEVEL then rq_level row else None)"

definition mk_audit :: "env \<Rightarrow> request \<Rightarrow> request \<Rightarrow> string \<Rightarrow> string option \<Rightarrow> audit" where
  "mk_audit env before after action reason =
    \<lparr>au_version = rq_version after, au_round = rq_round after, au_actorCode = ev_code env,
     au_fromStage = stageLabel before, au_toStage = stageLabel after, au_action = action,
     au_reason = reason, au_sourceHash = rq_sourceHash after\<rparr>"

definition NO_NOTE :: string where
  "NO_NOTE = ''No note given''"

definition noteOf :: "string option \<Rightarrow> string" where
  "noteOf reason = (let t = js_trim (case reason of None \<Rightarrow> [] | Some r \<Rightarrow> r) in if t = [] then NO_NOTE else t)"

definition current_level :: "request \<Rightarrow> sealed_level option" where
  "current_level row = (case (rq_route row, rq_level row) of
     (Some r, Some i) \<Rightarrow> if i < length (rt_levels r) then Some (rt_levels r ! i) else None
   | _ \<Rightarrow> None)"

definition levelActionsFor :: "env \<Rightarrow> request \<Rightarrow> string list" where
  "levelActionsFor env row =
    (case current_level row of
       None \<Rightarrow> []
     | Some l \<Rightarrow>
         if \<not> list_ex (\<lambda>c. c \<in> set (rq_pendingCodes row)) (ev_identityCodes env) then []
         else
           let actions = (if permits env (PERMISSION_BY_ACTION (se_action l)) then levelActions l else [])
           in if rq_kind row = ''ATTENDANCE'' \<and> se_action l = VERIFY
              then filter (\<lambda>a. a \<noteq> ''REJECT'') actions else actions)"

definition acted_codes :: "(nat \<times> string) list \<Rightarrow> string list" where
  "acted_codes acted = map snd acted"

definition advancePatch :: "route \<Rightarrow> nat \<Rightarrow> (nat \<times> string) list \<Rightarrow> hr_error + nat \<times> string list" where
  "advancePatch route i acted =
    rbind (nextActionable route (Suc i) (acted_codes acted)) (\<lambda>next_level.
      case next_level of
        None \<Rightarrow> fail_with 409 ''The approval route has no level left to act''
      | Some p \<Rightarrow> Inr p)"

lemma next_in_bounds: "next_in acted i ls = Inr (Some (j, codes)) \<Longrightarrow> i \<le> j \<and> j < i + length ls"
  using next_in_Some [of acted i ls j codes] by auto

lemma advancePatch_bounds:
  "advancePatch r i acted = Inr (j, codes) \<Longrightarrow> i < j \<and> j < length (rt_levels r)"
  using next_in_bounds by (fastforce simp: advancePatch_def nextActionable_def fail_with_def result_simps split: option.splits)

definition routed_level :: "request \<Rightarrow> nat" where
  "routed_level row = (case (rq_route row, rq_level row) of
     (Some r, Some i) \<Rightarrow> length (rt_levels r) - i | _ \<Rightarrow> 0)"

text \<open>The levels the initiator satisfies by raising the request.\<close>

function settleAutoLevels :: "env \<Rightarrow> source \<Rightarrow> string option \<Rightarrow> request \<Rightarrow>
    hr_error + request \<times> audit list \<times> effect list" where
  "settleAutoLevels env source reason row =
    (case (rq_route row, rq_level row) of
       (Some route, Some i) \<Rightarrow>
         if i < length (rt_levels route) \<and> se_auto (rt_levels route ! i) then
           let l = rt_levels route ! i;
               acted = rt_acted route @ [(i, ev_code env)];
               verify = (se_action l = VERIFY)
           in
           rbind (advancePatch route i acted) (\<lambda>p.
             let updated = row\<lparr>rq_level := Some (fst p), rq_pendingCodes := snd p,
                               rq_route := Some (route\<lparr>rt_acted := acted\<rparr>),
                               rq_verification := (if verify then reason else rq_verification row),
                               rq_hrActorCode := (if verify then Some (ev_code env) else rq_hrActorCode row),
                               rq_recommendation := (if verify then rq_recommendation row else Some ''RECOMMEND_APPROVAL''),
                               rq_managerActorCode := (if verify then rq_managerActorCode row else Some (ev_code env)),
                               rq_managerCode := (if verify then rq_managerCode row else Some (ev_code env)),
                               rq_version := Suc (rq_version row)\<rparr>;
                 effects = (if verify \<and> rq_kind row = ''ATTENDANCE''
                   then [VerifyComment (noteOf reason) (so_employeeCode source \<noteq> ev_code env)] else []);
                 entry = mk_audit env row updated (if verify then ''VERIFY'' else ''RECOMMEND_APPROVAL'') reason
             in rbind (settleAutoLevels env source reason updated) (\<lambda>(final, audits, effs).
                  Inr (final, entry # audits, effects @ effs)))
         else Inr (row, [], [])
     | _ \<Rightarrow> Inr (row, [], []))"
  by pat_completeness auto

termination settleAutoLevels
  by (relation "measure (\<lambda>(env, source, reason, row). routed_level row)")
    (auto simp: routed_level_def dest!: advancePatch_bounds sym [of "Some _" "rq_route _"] sym [of "Some _" "rq_level _"])

declare settleAutoLevels.simps [simp del]

definition recommends :: "string \<Rightarrow> bool" where
  "recommends action \<longleftrightarrow> take 10 action = ''RECOMMEND_''"

definition levelTransition :: "env \<Rightarrow> request \<Rightarrow> route \<Rightarrow> nat \<Rightarrow> source \<Rightarrow> string \<Rightarrow> string option \<Rightarrow>
    hr_error + request \<times> effect list" where
  "levelTransition env row route i source action reason =
    (let l = rt_levels route ! i; me = ev_code env in
     if action = ''REVERT'' then
       (case previousActionable route i of
          None \<Rightarrow>
            Inr (row\<lparr>rq_stage := INITIATOR, rq_level := None, rq_pendingCodes := [], rq_recommendation := None,
                     rq_verification := None, rq_managerActorCode := None, rq_hrActorCode := None,
                     rq_route := Some (route\<lparr>rt_acted := []\<rparr>)\<rparr>, [OnReturn (rq_kind row) INITIATOR])
        | Some previous \<Rightarrow>
            let acted = filter (\<lambda>a. fst a < previous) (rt_acted route) in
            Inr (row\<lparr>rq_level := Some previous,
                     rq_pendingCodes := filter (\<lambda>c. c \<notin> set (acted_codes acted))
                       (se_approverCodes (rt_levels route ! previous)),
                     rq_route := Some (route\<lparr>rt_acted := acted\<rparr>),
                     rq_verification := None, rq_hrActorCode := None\<rparr>, []))
     else if so_digest source \<noteq> rq_sourceHash row
     then fail_with 422 ''The request or evidence changed''
     else if se_viaManager l \<and> (case se_approverCodes l of [] \<Rightarrow> so_managerCode source \<noteq> None
             | c # _ \<Rightarrow> so_managerCode source \<noteq> Some c)
     then fail_with 422 ''The line manager changed''
     else
       let acted = rt_acted route @ [(i, me)];
           moved = row\<lparr>rq_route := Some (route\<lparr>rt_acted := acted\<rparr>)\<rparr>
       in if recommends action then
            rbind (advancePatch route i acted) (\<lambda>p.
              Inr (moved\<lparr>rq_level := Some (fst p), rq_pendingCodes := snd p, rq_recommendation := Some action,
                         rq_managerActorCode := Some me, rq_managerCode := Some me\<rparr>, []))
          else if action = ''VERIFY'' then
            rbind (advancePatch route i acted) (\<lambda>p.
              Inr (moved\<lparr>rq_level := Some (fst p), rq_pendingCodes := snd p, rq_verification := reason,
                         rq_hrActorCode := Some me\<rparr>,
                   if rq_kind row = ''ATTENDANCE'' then [VerifyComment (noteOf reason) False] else []))
          else Inr (moved\<lparr>rq_stage := (if action = ''APPROVE'' then APPROVED else REJECTED),
                          rq_pendingCodes := []\<rparr>, []))"

section \<open>Who may act\<close>

definition verifierMayDecide :: "request \<Rightarrow> bool" where
  "verifierMayDecide row \<longleftrightarrow> rq_kind row = ''ATTENDANCE'' \<and> rq_route row = None"

definition mayDecide :: "env \<Rightarrow> request \<Rightarrow> bool" where
  "mayDecide env row \<longleftrightarrow>
    (if ownsCode env (rq_managerActorCode row) then False
     else verifierMayDecide row \<or> \<not> ownsCode env (rq_hrActorCode row))"

definition decidingLevelIndex :: "request \<Rightarrow> nat option" where
  "decidingLevelIndex row =
    (case rq_route row of
       None \<Rightarrow> None
     | Some r \<Rightarrow> find (\<lambda>i. let l = rt_levels r ! i in se_engaged l \<and> \<not> se_auto l \<and> se_action l = APPROVE)
         (rev [0..<length (rt_levels r)]))"

definition reservedForDecision :: "env \<Rightarrow> request \<Rightarrow> bool" where
  "reservedForDecision env row =
    (case (rq_stage row, rq_route row, decidingLevelIndex row, rq_level row) of
       (LEVEL, Some r, Some deciding, Some i) \<Rightarrow>
         if deciding \<le> i then False
         else if \<not> list_ex (\<lambda>c. ownsCode env (Some c)) (se_approverCodes (rt_levels r ! deciding)) then False
         else list_ex (\<lambda>c. \<not> ownsCode env (Some c)) (rq_pendingCodes row)
     | _ \<Rightarrow> False)"

definition closed_stage :: "stage \<Rightarrow> bool" where
  "closed_stage s \<longleftrightarrow> s \<in> {APPROVED, REJECTED, WITHDRAWN}"

text \<open>\<open>subjectManager\<close> is the manager of the employee the request is about.\<close>

definition actionsFor :: "contracts \<Rightarrow> env \<Rightarrow> int option \<Rightarrow> request \<Rightarrow> string list" where
  "actionsFor ct env subjectManager row =
    (if closed_stage (rq_stage row) then []
     else
       let self = ownsCode env (Some (rq_employeeCode row)) in
       if self \<and> rq_stage row = LEVEL \<and> (case current_level row of None \<Rightarrow> False | Some l \<Rightarrow> se_allowSelf l)
       then levelActionsFor env row
       else if self then
         (if permits env ''self'' then
            (if rq_stage row = INITIATOR then [''SUBMIT''] else []) @
            (if rq_kind row \<in> {''LEAVE'', ''OVERTIME'', ''CLAIM'', ''SHIFT_SWAP''} then [''WITHDRAW''] else [])
          else [])
       else case rq_stage row of
         LEVEL \<Rightarrow> if reservedForDecision env row then [] else levelActionsFor env row
       | LINE_MANAGER \<Rightarrow>
           if subjectManager = Some (ev_id env) \<and> permits env ''manager'' then ct_actions ct LINE_MANAGER else []
       | HR \<Rightarrow>
           if permits env ''verify'' \<and> \<not> ownsCode env (rq_managerActorCode row)
           then ct_actions ct HR @ (if rq_kind row = ''ATTENDANCE'' then [] else [''REJECT'']) else []
       | MANAGEMENT \<Rightarrow> if permits env ''approve'' \<and> mayDecide env row then ct_actions ct MANAGEMENT else []
       | _ \<Rightarrow> [])"

definition canRead :: "env \<Rightarrow> int option \<Rightarrow> request \<Rightarrow> bool" where
  "canRead env subjectManager row \<longleftrightarrow>
    ownsCode env (Some (rq_employeeCode row)) \<or> permits env ''read'' \<or> permits env ''verify'' \<or> permits env ''approve'' \<or>
    (rq_stage row = LEVEL \<and> list_ex (\<lambda>c. c \<in> set (rq_pendingCodes row)) (ev_identityCodes env)) \<or>
    (permits env ''manager'' \<and> subjectManager = Some (ev_id env))"

section \<open>Submission\<close>

record submit_input =
  si_kind :: string
  si_sourceRef :: string
  si_employeeCode :: string
  si_expectedVersion :: nat
  si_reason :: "string option"

record person =
  pe_id :: int
  pe_code :: "string option"
  pe_active :: bool

text \<open>The published matrix of a kind with its version, and the codes it gives each level.\<close>

record matrix =
  mx_version :: int
  mx_levels :: "level list"
  mx_approvers :: "level \<Rightarrow> string list"
  mx_amount :: rat

definition sealRoute :: "env \<Rightarrow> string \<Rightarrow> matrix \<Rightarrow> source \<Rightarrow> hr_error + route" where
  "sealRoute env kind m source =
    buildRoute kind (mx_version m) (mx_levels m) (ev_code env) (so_employeeCode source) (mx_amount m) (mx_approvers m)"

definition first_engaged :: "route \<Rightarrow> nat option" where
  "first_engaged r = find (\<lambda>i. se_engaged (rt_levels r ! i)) [0..<length (rt_levels r)]"

definition may_submit :: "env \<Rightarrow> submit_input \<Rightarrow> bool \<Rightarrow> bool \<Rightarrow> hr_error + unit" where
  "may_submit env input onBehalf allowManagerFiler =
    (if onBehalf
     then ensure (permits env ''verify'' \<or> allowManagerFiler) (AppError 403 ''Only HR may submit on behalf'')
     else ensure (permits env ''self'' \<and> ownsCode env (Some (si_employeeCode input)))
       (AppError 403 ''Only the employee initiator can submit''))"

definition check_prior :: "request option \<Rightarrow> submit_input \<Rightarrow> hr_error + unit" where
  "check_prior prior input =
    (case prior of
       Some row \<Rightarrow> rbind (assertVersion row (si_expectedVersion input)) (\<lambda>_.
         ensure (rq_stage row = INITIATOR) (AppError 422 ''Only a draft or returned request can be submitted''))
     | None \<Rightarrow> ensure (si_expectedVersion input = 0) (AppError 412 ''Request changed''))"

definition check_owner :: "env \<Rightarrow> submit_input \<Rightarrow> source \<Rightarrow> bool \<Rightarrow> hr_error + unit" where
  "check_owner env input source onBehalf =
    (if onBehalf then
       rbind (ensure (so_employeeCode source = si_employeeCode input)
         (AppError 403 ''The request belongs to another employee'')) (\<lambda>_.
         ensure (permits env ''verify'' \<or> so_managerId source = Some (ev_id env))
           (AppError 403 ''Only the line manager or HR may file this request''))
     else ensure (ownsCode env (Some (so_employeeCode source))) (AppError 403 ''Only the employee initiator can submit''))"

text \<open>\<open>matrix\<close> is given for the kinds that have one published; \<open>manager\<close> is the row of the owner's manager.\<close>

definition submitWithin :: "env \<Rightarrow> submit_input \<Rightarrow> bool \<Rightarrow> bool \<Rightarrow> request option \<Rightarrow> source \<Rightarrow> matrix option \<Rightarrow>
    person option \<Rightarrow> hr_error + request \<times> audit list \<times> effect list" where
  "submitWithin env input onBehalf allowManagerFiler prior source published manager =
    rbind (may_submit env input onBehalf allowManagerFiler) (\<lambda>_.
    rbind (check_prior prior input) (\<lambda>_.
    rbind (check_owner env input source onBehalf) (\<lambda>_.
      let kind = si_kind input;
          matrix = (if kind \<in> set MATRIX_KINDS then published else None);
          needsManager = (matrix = None \<and> requiresLineManager kind);
          noUsableManager = (needsManager \<and> (case manager of
              None \<Rightarrow> True
            | Some m \<Rightarrow> pe_code m = None \<or> pe_id m = ev_id env \<or> \<not> pe_active m));
          sentToHr = (noUsableManager \<and> skipsManagerWhenNone kind)
      in
      if noUsableManager \<and> \<not> sentToHr
      then fail_with 422 ''Configure an active independent line manager before submission''
      else
        rbind (case matrix of None \<Rightarrow> Inr None | Some m \<Rightarrow> rbind (sealRoute env kind m source) (\<lambda>r. Inr (Some r))) (\<lambda>route.
          let level = (case route of None \<Rightarrow> None | Some r \<Rightarrow> first_engaged r);
              row = \<lparr>rq_kind = kind, rq_sourceRef = si_sourceRef input, rq_employeeCode = so_employeeCode source,
                     rq_stage = (if route \<noteq> None then LEVEL else if sentToHr then HR else stageAfterSubmission kind),
                     rq_level = level,
                     rq_pendingCodes = (case (route, level) of
                         (Some r, Some i) \<Rightarrow> se_approverCodes (rt_levels r ! i) | _ \<Rightarrow> []),
                     rq_route = route,
                     rq_version = (case prior of None \<Rightarrow> 1 | Some p \<Rightarrow> Suc (rq_version p)),
                     rq_round = (case prior of None \<Rightarrow> 1 | Some p \<Rightarrow> Suc (rq_round p)),
                     rq_managerCode = (if sentToHr \<or> \<not> needsManager then None
                         else case manager of None \<Rightarrow> None | Some m \<Rightarrow> pe_code m),
                     rq_managerActorCode = None, rq_hrActorCode = None, rq_recommendation = None,
                     rq_verification = None, rq_sourceHash = so_digest source, rq_execution = ''PENDING''\<rparr>;
              before = (case prior of Some p \<Rightarrow> p | None \<Rightarrow> row\<lparr>rq_stage := INITIATOR\<rparr>);
              entry = mk_audit env before row ''SUBMIT'' (si_reason input)
          in
          if route \<noteq> None then
            rbind (settleAutoLevels env source (si_reason input) row) (\<lambda>(final, audits, effs).
              Inr (final, entry # audits, OnSubmit kind # effs))
          else if onBehalf \<and> isVerifiedOnBehalf kind \<and> rq_stage row = HR then
            let verified = row\<lparr>rq_stage := MANAGEMENT, rq_verification := si_reason input,
                               rq_hrActorCode := Some (ev_code env), rq_version := Suc (rq_version row)\<rparr>
            in Inr (verified, [entry, mk_audit env row verified ''VERIFY'' (si_reason input)],
                    OnSubmit kind # (if kind = ''ATTENDANCE'' then [VerifyComment (noteOf (si_reason input)) True] else []))
          else Inr (row, [entry], [OnSubmit kind])))))"

section \<open>Actions\<close>

record act_input =
  ai_action :: string
  ai_expectedVersion :: nat
  ai_reason :: "string option"
  ai_deductionDays :: "rat option"
  ai_leavePolicyRef :: "string option"

text \<open>
  Facts the command reads: the manager of the subject, the source, the attendance case behind an
  attendance request (its status), the identity of the recorded manager actor, whether the chosen
  leave policy is active, and the source digest after classifying a leave request.
\<close>

record act_facts =
  af_subjectManager :: "int option"
  af_source :: source
  af_caseStatus :: "string option"
  af_managerActorId :: "int option"
  af_policyActive :: bool
  af_reclassified :: source

text \<open>The test \<^verbatim>\<open>/management|mgmt/i\<close>.\<close>

definition contains :: "string \<Rightarrow> string \<Rightarrow> bool" where
  "contains p t \<longleftrightarrow> list_ex (\<lambda>i. take (length p) (drop i t) = p) [0..<Suc (length t)]"

definition mgmtName :: "string \<Rightarrow> bool" where
  "mgmtName n \<longleftrightarrow> contains ''MANAGEMENT'' (js_toUpper n) \<or> contains ''MGMT'' (js_toUpper n)"

definition atManagementDecisionLevel :: "request \<Rightarrow> bool" where
  "atManagementDecisionLevel row \<longleftrightarrow>
    (if rq_stage row = MANAGEMENT then True
     else if rq_stage row \<noteq> LEVEL then False
     else case current_level row of None \<Rightarrow> False | Some l \<Rightarrow> se_action l = APPROVE \<or> mgmtName (se_name l))"

definition check_deduction :: "request \<Rightarrow> act_input \<Rightarrow> hr_error + unit" where
  "check_deduction row input =
    (if ai_deductionDays input = None then Inr ()
     else rbind (ensure (rq_kind row = ''ATTENDANCE'' \<and> ai_action input = ''REJECT'')
       (AppError 422 ''Only the rejection of an attendance request can carry a salary deduction'')) (\<lambda>_.
       ensure (atManagementDecisionLevel row) (AppError 403 ''Only Management may set the salary deduction'')))"

definition classifyLeave :: "request \<Rightarrow> act_facts \<Rightarrow> act_input \<Rightarrow> hr_error + request \<times> source \<times> effect list" where
  "classifyLeave row facts input =
    (case ai_leavePolicyRef input of
       None \<Rightarrow> Inr (row, af_source facts, [])
     | Some ref \<Rightarrow>
         if rq_kind row \<noteq> ''LEAVE'' \<or> ai_action input \<noteq> ''VERIFY''
         then fail_with 403 ''Only HR verification may classify a leave request''
         else if \<not> af_policyActive facts then fail_with 422 ''Choose an active company leave policy''
         else Inr (row\<lparr>rq_sourceHash := so_digest (af_reclassified facts)\<rparr>, af_reclassified facts,
                   [SetLeavePolicy ref]))"

definition fixedTransition :: "contracts \<Rightarrow> env \<Rightarrow> request \<Rightarrow> act_facts \<Rightarrow> act_input \<Rightarrow> hr_error + request \<times> effect list" where
  "fixedTransition ct env row facts input =
    (let action = ai_action input; source = af_source facts in
     if action = ''REVERT'' then
       let target = ct_revertTarget ct (rq_stage row);
           back = row\<lparr>rq_stage := target, rq_verification := None, rq_hrActorCode := None\<rparr>
       in Inr (if target = INITIATOR then back\<lparr>rq_recommendation := None, rq_managerActorCode := None\<rparr> else back,
               [OnReturn (rq_kind row) target])
     else if rq_stage row \<noteq> LINE_MANAGER \<and> rq_managerActorCode row \<noteq> None \<and>
             af_managerActorId facts \<noteq> so_managerId source
     then fail_with 422 ''The line manager changed''
     else if so_digest source \<noteq> rq_sourceHash row then fail_with 422 ''The request or evidence changed''
     else
       rbind (classifyLeave row facts input) (\<lambda>(row1, source1, effs).
         if recommends action then
           Inr (row1\<lparr>rq_stage := HR, rq_recommendation := Some action, rq_managerActorCode := Some (ev_code env),
                     rq_managerCode := Some (ev_code env)\<rparr>, effs)
         else if action = ''VERIFY'' then
           (if rq_kind row = ''LEAVE'' \<and> \<not> so_hasLeavePolicy source1
            then fail_with 422 ''Select the leave policy before verification''
            else Inr (row1\<lparr>rq_stage := MANAGEMENT, rq_verification := ai_reason input,
                           rq_hrActorCode := Some (ev_code env)\<rparr>,
                      effs @ (if rq_kind row = ''ATTENDANCE'' then [VerifyComment (noteOf (ai_reason input)) False] else [])))
         else Inr (row1\<lparr>rq_stage := (if action = ''APPROVE'' then APPROVED else REJECTED)\<rparr>, effs)))"

text \<open>
  \<open>decide\<close> is the adapters' execution of a decision: its result is the new execution state. A case
  already closed under its request withdraws the request: the command then fails for its caller, but
  leaves the request withdrawn, which \<open>StaleCase\<close> carries.
\<close>

datatype act_result =
    Acted request "audit list" "effect list"
  | StaleCase request

definition act_move :: "contracts \<Rightarrow> env \<Rightarrow> request \<Rightarrow> act_facts \<Rightarrow> act_input \<Rightarrow> hr_error + request \<times> effect list" where
  "act_move ct env row facts input =
    (if ai_action input = ''WITHDRAW''
     then Inr (row\<lparr>rq_stage := WITHDRAWN, rq_execution := ''APPLIED''\<rparr>, [WithdrawSource (rq_kind row)])
     else if rq_stage row = LEVEL
     then case (rq_route row, rq_level row) of
            (Some r, Some i) \<Rightarrow> levelTransition env row r i (af_source facts) (ai_action input) (ai_reason input)
          | _ \<Rightarrow> Inl (PlainError ''TypeError'')
     else fixedTransition ct env row facts input)"

text \<open>The update of the row with its next version, the decision carried out, and the audit entry.\<close>

definition conclude :: "(request \<Rightarrow> bool \<Rightarrow> hr_error + string) \<Rightarrow> env \<Rightarrow> request \<Rightarrow> act_input \<Rightarrow> request \<Rightarrow>
    effect list \<Rightarrow> hr_error + act_result" where
  "conclude decide env row input moved effs =
    (let next_row = moved\<lparr>rq_version := Suc (rq_version row)\<rparr>;
         approved = (ai_action input = ''APPROVE'')
     in
     rbind (if approved \<or> ai_action input = ''REJECT''
            then rbind (decide row approved) (\<lambda>e.
              Inr (next_row\<lparr>rq_execution := e\<rparr>, effs @ [ApplyDecision approved (noteOf (ai_reason input))]))
            else Inr (next_row, effs)) (\<lambda>(final, all).
       Inr (Acted final [mk_audit env row final (ai_action input) (ai_reason input)] all)))"

definition actApproval :: "contracts \<Rightarrow> (request \<Rightarrow> bool \<Rightarrow> hr_error + string) \<Rightarrow> env \<Rightarrow>
    request \<Rightarrow> act_facts \<Rightarrow> act_input \<Rightarrow> hr_error + act_result" where
  "actApproval ct decide env row facts input =
    rbind (ensure (ct_accepts ct (ai_action input)) (PlainError ''ZodError'')) (\<lambda>_.
    rbind (ensure (canRead env (af_subjectManager facts) row) (AppError 404 ''Request not found'')) (\<lambda>_.
    rbind (assertVersion row (ai_expectedVersion input)) (\<lambda>_.
    rbind (ensure (ai_action input \<in> set (actionsFor ct env (af_subjectManager facts) row))
      (AppError 403 ''You cannot perform this action at the current stage'')) (\<lambda>_.
    rbind (check_deduction row input) (\<lambda>_.
      if rq_kind row = ''ATTENDANCE'' \<and> ai_action input \<noteq> ''WITHDRAW'' \<and>
         (case af_caseStatus facts of None \<Rightarrow> False | Some s \<Rightarrow> s \<noteq> ''PENDING'')
      then Inr (StaleCase (row\<lparr>rq_stage := WITHDRAWN, rq_execution := ''APPLIED'', rq_version := Suc (rq_version row)\<rparr>))
      else
        rbind (act_move ct env row facts input) (\<lambda>(moved, effs). conclude decide env row input moved effs))))))"

section \<open>Editing and consuming\<close>

record edit_case =
  ec_rulesVersion :: int
  ec_employeeId :: int
  ec_raisedById :: "int option"
  ec_raisedByName :: "string option"
  ec_subjectCode :: "string option"
  ec_subjectManager :: "int option"
  ec_filerCode :: "string option"

definition attendanceEditRefusal :: "env \<Rightarrow> request \<Rightarrow> edit_case \<Rightarrow> hr_error option" where
  "attendanceEditRefusal env row c =
    (let levels = (case rq_route row of None \<Rightarrow> [] | Some r \<Rightarrow> rt_levels r);
         acted = (case rq_route row of None \<Rightarrow> [] | Some r \<Rightarrow> rt_acted r)
     in
     if rq_kind row \<noteq> ''ATTENDANCE'' \<or> rq_execution row \<noteq> ''PENDING''
     then Some (AppError 409 ''already decided'')
     else if ec_rulesVersion c \<noteq> 2 then Some (AppError 409 ''Only a resolution request can be edited'')
     else if list_ex (\<lambda>l. se_action l = APPROVE \<and> se_engaged l \<and>
               list_ex (\<lambda>code. ownsCode env (Some code)) (se_approverCodes l)) levels
     then Some (AppError 403 ''Management decides this request and cannot edit it'')
     else if permits env ''verify'' then None
     else if ec_raisedById c = Some (ec_employeeId c) \<or> ec_raisedByName c = None \<or> ec_raisedByName c = Some [] then
       (if acted \<noteq> [] \<or> rq_managerActorCode row \<noteq> None \<or> rq_hrActorCode row \<noteq> None
        then Some (AppError 409 ''An approver has already decided this request'')
        else if ownsCode env (ec_subjectCode c) then None
        else Some (AppError 403 ''Only the employee who raised this request can edit it''))
     else
       let editable =
             (if rq_stage row = LEVEL \<and> rq_route row \<noteq> None then
                (case find (\<lambda>l. se_action l = VERIFY \<and> se_engaged l) levels of
                   None \<Rightarrow> False
                 | Some hr \<Rightarrow> (case rq_level row of None \<Rightarrow> False | Some i \<Rightarrow> i > se_index hr) \<and>
                     list_all (\<lambda>a. fst a \<le> se_index hr) acted)
              else rq_stage row = MANAGEMENT \<and> rq_route row = None)
       in if \<not> editable then Some (AppError 409 ''This request has moved past the step where it can be edited'')
          else if \<not> ownsCode env (ec_filerCode c) \<and> ec_subjectManager c \<noteq> Some (ev_id env)
          then Some (AppError 403 ''Only HR, the filer or the line manager can edit it'')
          else if ev_id env = ec_employeeId c then Some (AppError 403 ''You cannot edit a request about your own day'')
          else None)"

definition requireApproval :: "request option \<Rightarrow> string \<Rightarrow> bool \<Rightarrow> hr_error + request" where
  "requireApproval row digest approved =
    (case row of
       None \<Rightarrow> fail_with 422 ''Complete the approval workflow''
     | Some r \<Rightarrow>
         if rq_stage r \<noteq> (if approved then APPROVED else REJECTED) then fail_with 422 ''Complete the approval workflow''
         else if digest \<noteq> rq_sourceHash r then fail_with 422 ''The approved source changed''
         else Inr r)"

definition consumeApproval :: "request option \<Rightarrow> string \<Rightarrow> bool \<Rightarrow> hr_error + request" where
  "consumeApproval row digest approved =
    rbind (requireApproval row digest approved) (\<lambda>r. Inr (r\<lparr>rq_execution := ''APPLIED''\<rparr>))"

section \<open>The invariant of a request\<close>

text \<open>
  A request with a sealed route: the route can be walked to a decision, only its last level decides,
  and the subject is not among those who decide. At stage \<open>LEVEL\<close> it waits at a level that needs
  somebody, and whoever may act belongs to that level and has not acted in this round.
\<close>

definition sealed_ok :: "string \<Rightarrow> route \<Rightarrow> bool" where
  "sealed_ok subject r \<longleftrightarrow> route_ok r \<and> subject \<notin> set (se_approverCodes (last (rt_levels r))) \<and>
    \<not> se_allowSelf (last (rt_levels r)) \<and> list_all (\<lambda>l. se_action l \<noteq> APPROVE) (butlast (rt_levels r))"

definition waiting_ok :: "route \<Rightarrow> nat \<Rightarrow> string list \<Rightarrow> bool" where
  "waiting_ok r i pending \<longleftrightarrow> i < length (rt_levels r) \<and> se_engaged (rt_levels r ! i) \<and> \<not> se_auto (rt_levels r ! i) \<and>
    set pending \<subseteq> set (se_approverCodes (rt_levels r ! i)) \<and> set pending \<inter> set (acted_codes (rt_acted r)) = {}"

definition request_ok :: "request \<Rightarrow> bool" where
  "request_ok row \<longleftrightarrow>
    (case rq_route row of None \<Rightarrow> rq_stage row \<noteq> LEVEL
     | Some r \<Rightarrow> sealed_ok (rq_employeeCode row) r \<and>
         (rq_stage row = LEVEL \<longrightarrow> (case rq_level row of None \<Rightarrow> False | Some i \<Rightarrow> waiting_ok r i (rq_pendingCodes row))))"

lemma sealed_ok_acted [simp]: "sealed_ok s (r\<lparr>rt_acted := a\<rparr>) = sealed_ok s r"
  by (simp add: sealed_ok_def route_ok_def)

lemma advancePatch_waiting:
  assumes "advancePatch r i acted = Inr (j, codes)"
  shows "waiting_ok (r\<lparr>rt_acted := acted\<rparr>) j codes \<and> codes \<noteq> []"
proof -
  have "next_in (acted_codes acted) (Suc i) (drop (Suc i) (rt_levels r)) = Inr (Some (j, codes))"
    using assms by (auto simp: advancePatch_def nextActionable_def fail_with_def result_simps split: option.splits)
  from next_in_Some [OF this] show ?thesis by (auto simp: waiting_ok_def level_eligible_def)
qed

lemma previousActionable_Some:
  "previousActionable r i = Some j \<Longrightarrow> j < i \<and> j < length (rt_levels r) \<and> se_engaged (rt_levels r ! j) \<and> \<not> se_auto (rt_levels r ! j)"
  by (induction r i rule: previousActionable.induct) (auto simp: Let_def split: if_splits)

lemma buildRoute_sealed_ok:
  assumes "buildRoute kind v ls ini subj amount approvers = Inr r" and "levels_ok ls"
  shows "sealed_ok subj r"
proof -
  note r = buildRoute_cases [OF assms(1)]
  let ?n = "length ls - 1"
  have ls: "ls \<noteq> []" and lasts: "last ls = ls ! ?n" "last (rt_levels r) = rt_levels r ! ?n"
    using assms(2) r by (simp_all add: levels_ok_def last_conv_nth)
  have "seal_level kind ini subj amount approvers (?n, ls ! ?n) = Inr (rt_levels r ! ?n)" using r ls by simp
  note d = seal_level_ok [OF this]
  have "\<not> lv_allowSelf (last ls)" using assms(2) by (auto simp: levels_ok_def list_all_iff)
  moreover have "se_action l \<noteq> APPROVE" if mem: "l \<in> set (butlast (rt_levels r))" for l
  proof -
    obtain i where i: "i < length (rt_levels r) - 1" "butlast (rt_levels r) ! i = l"
      using mem unfolding in_set_conv_nth by auto
    then have "seal_level kind ini subj amount approvers (i, ls ! i) = Inr l" using r by (auto simp: nth_butlast)
    from seal_level_ok [OF this] have "se_action l = lv_action (ls ! i)" by blast
    moreover have "i < length (butlast ls)" using i r by simp
    then have "ls ! i \<in> set (butlast ls)" using nth_mem [of i "butlast ls"] by (simp add: nth_butlast)
    ultimately show ?thesis using assms(2) by (simp add: levels_ok_def list_all_iff)
  qed
  ultimately show ?thesis
    using d lasts buildRoute_route_ok [OF assms] by (auto simp: sealed_ok_def list_all_iff)
qed

lemma settle_ok:
  assumes "settleAutoLevels env source reason row = Inr (final, audits, effs)"
    and "rq_route row = Some r" and "rq_level row = Some i" and "rq_stage row = LEVEL"
    and "sealed_ok (rq_employeeCode row) r" and "i < length (rt_levels r)" and "se_engaged (rt_levels r ! i)"
    and "\<not> se_auto (rt_levels r ! i) \<Longrightarrow> waiting_ok r i (rq_pendingCodes row)"
  shows "request_ok final \<and> rq_version row \<le> rq_version final \<and> rq_employeeCode final = rq_employeeCode row"
  using assms
proof (induction env source reason row arbitrary: r i final audits effs rule: settleAutoLevels.induct)
  case (1 env source reason row)
  show ?case
  proof (cases "se_auto (rt_levels r ! i)")
    case False
    then show ?thesis using "1.prems" by (subst (asm) settleAutoLevels.simps) (simp add: request_ok_def)
  next
    case True
    let ?acted = "rt_acted r @ [(i, ev_code env)]" and ?verify = "se_action (rt_levels r ! i) = VERIFY"
    obtain j codes where p: "advancePatch r i ?acted = Inr (j, codes)"
      using "1.prems" True by (subst (asm) settleAutoLevels.simps) (auto simp: result_simps Let_def)
    define row' where "row' = row\<lparr>rq_level := Some j, rq_pendingCodes := codes,
        rq_route := Some (r\<lparr>rt_acted := ?acted\<rparr>),
        rq_verification := (if ?verify then reason else rq_verification row),
        rq_hrActorCode := (if ?verify then Some (ev_code env) else rq_hrActorCode row),
        rq_recommendation := (if ?verify then rq_recommendation row else Some ''RECOMMEND_APPROVAL''),
        rq_managerActorCode := (if ?verify then rq_managerActorCode row else Some (ev_code env)),
        rq_managerCode := (if ?verify then rq_managerCode row else Some (ev_code env)),
        rq_version := Suc (rq_version row)\<rparr>"
    obtain au ef where rest: "settleAutoLevels env source reason row' = Inr (final, au, ef)"
      using "1.prems" True p
      by (subst (asm) settleAutoLevels.simps) (auto simp: result_simps Let_def row'_def split: prod.splits)
    have w: "waiting_ok (r\<lparr>rt_acted := ?acted\<rparr>) j codes" using advancePatch_waiting [OF p] by simp
    have "request_ok final \<and> rq_version row' \<le> rq_version final \<and> rq_employeeCode final = rq_employeeCode row'"
    proof (rule "1.IH" [where r = "r\<lparr>rt_acted := ?acted\<rparr>" and i = j])
      show "settleAutoLevels env source reason row' = Inr (final, au, ef)" by (rule rest)
    qed (use "1.prems" True p w in \<open>auto simp: row'_def waiting_ok_def Let_def\<close>)
    then show ?thesis by (simp add: row'_def)
  qed
qed

end
