(* ===== verification/ApprovalFlow.thy ===== *)
theory ApprovalFlow
  imports ApprovalEngine
begin

text \<open>
  The life of a request: its commands as a step relation, the invariant every reachable request keeps,
  and what follows for the people who decide.
\<close>

section \<open>Steps\<close>

text \<open>
  What the engine relies on of the contracts package: reverting a fixed stage leads back to a fixed,
  open stage.
\<close>

definition contracts_ok :: "contracts \<Rightarrow> bool" where
  "contracts_ok ct \<longleftrightarrow> list_all (\<lambda>s. \<not> closed_stage (ct_revertTarget ct s) \<and> ct_revertTarget ct s \<noteq> LEVEL)
     [INITIATOR, LINE_MANAGER, HR, MANAGEMENT, LEVEL, APPROVED, REJECTED, WITHDRAWN]"

lemma contracts_okD:
  assumes "contracts_ok ct"
  shows "ct_revertTarget ct s \<noteq> LEVEL" "\<not> closed_stage (ct_revertTarget ct s)"
  using assms by (cases s; simp add: contracts_ok_def)+

definition matrix_ok :: "matrix option \<Rightarrow> bool" where
  "matrix_ok m = (case m of None \<Rightarrow> True | Some x \<Rightarrow> levels_ok (mx_levels x))"

inductive submitted :: "request \<Rightarrow> bool" where
  first: "submitWithin env input onBehalf filer None source published manager = Inr (row, audits, effs) \<Longrightarrow>
    matrix_ok published \<Longrightarrow> submitted row"

inductive approval_step :: "contracts \<Rightarrow> request \<Rightarrow> request \<Rightarrow> bool" for ct where
  acted: "actApproval ct decide env row facts input = Inr (Acted row' audits effs) \<Longrightarrow> approval_step ct row row'"
| stale: "actApproval ct decide env row facts input = Inr (StaleCase row') \<Longrightarrow> approval_step ct row row'"
| resubmitted: "submitWithin env input onBehalf filer (Some row) source published manager = Inr (row', audits, effs) \<Longrightarrow>
    matrix_ok published \<Longrightarrow> approval_step ct row row'"
| consumed: "consumeApproval (Some row) digest approved = Inr row' \<Longrightarrow> approval_step ct row row'"

section \<open>What a command does\<close>

lemma conclude_cases:
  assumes "conclude decide env row input moved effs = Inr res"
  shows "\<exists>final audits all e. res = Acted final audits all \<and>
    final = moved\<lparr>rq_version := Suc (rq_version row), rq_execution := e\<rparr>"
proof (cases "ai_action input = ''APPROVE'' \<or> ai_action input = ''REJECT''")
  case True
  then show ?thesis using assms by (auto simp: conclude_def result_simps Let_def)
next
  case False
  then have "res = Acted (moved\<lparr>rq_version := Suc (rq_version row)\<rparr>)
      [mk_audit env row (moved\<lparr>rq_version := Suc (rq_version row)\<rparr>) (ai_action input) (ai_reason input)] effs"
    using assms by (simp add: conclude_def Let_def result_simps)
  moreover have "moved\<lparr>rq_version := Suc (rq_version row)\<rparr> =
      moved\<lparr>rq_version := Suc (rq_version row), rq_execution := rq_execution moved\<rparr>" by simp
  ultimately show ?thesis by blast
qed

lemma actApproval_cases:
  assumes "actApproval ct decide env row facts input = Inr res"
  shows "canRead env (af_subjectManager facts) row \<and> rq_version row = ai_expectedVersion input \<and>
    ai_action input \<in> set (actionsFor ct env (af_subjectManager facts) row) \<and>
    ((res = StaleCase (row\<lparr>rq_stage := WITHDRAWN, rq_execution := ''APPLIED'', rq_version := Suc (rq_version row)\<rparr>)) \<or>
     (\<exists>moved effs final audits all. act_move ct env row facts input = Inr (moved, effs) \<and> res = Acted final audits all \<and>
       (\<exists>e. final = moved\<lparr>rq_version := Suc (rq_version row), rq_execution := e\<rparr>)))"
proof -
  have checks: "canRead env (af_subjectManager facts) row" "rq_version row = ai_expectedVersion input"
    "ai_action input \<in> set (actionsFor ct env (af_subjectManager facts) row)"
    using assms by (auto simp: actApproval_def assertVersion_def result_simps split: if_splits)
  show ?thesis
  proof (cases "rq_kind row = ''ATTENDANCE'' \<and> ai_action input \<noteq> ''WITHDRAW'' \<and>
         (case af_caseStatus facts of None \<Rightarrow> False | Some s \<Rightarrow> s \<noteq> ''PENDING'')")
    case True
    then have "res = StaleCase (row\<lparr>rq_stage := WITHDRAWN, rq_execution := ''APPLIED'', rq_version := Suc (rq_version row)\<rparr>)"
      using assms by (auto simp: actApproval_def result_simps split: if_splits)
    then show ?thesis using checks by blast
  next
    case False
    then obtain moved effs where m: "act_move ct env row facts input = Inr (moved, effs)"
      and rest: "conclude decide env row input moved effs = Inr res"
      using assms by (auto simp: actApproval_def result_simps split: if_splits)
    have "\<exists>final audits all e. res = Acted final audits all \<and>
        final = moved\<lparr>rq_version := Suc (rq_version row), rq_execution := e\<rparr>"
      by (rule conclude_cases [OF rest])
    then show ?thesis using checks m by blast
  qed
qed

lemma request_ok_version [simp]: "request_ok (row\<lparr>rq_version := v\<rparr>) = request_ok row"
  and request_ok_execution [simp]: "request_ok (row\<lparr>rq_execution := e\<rparr>) = request_ok row"
  by (simp_all add: request_ok_def split: option.split)

lemma request_ok_stage:
  "request_ok row \<Longrightarrow> s \<noteq> LEVEL \<Longrightarrow> request_ok (row\<lparr>rq_stage := s\<rparr>)"
  by (auto simp: request_ok_def split: option.splits)

lemma levelTransition_ok:
  assumes "levelTransition env row r i source action reason = Inr (moved, effs)"
    and "request_ok row" and "rq_route row = Some r" and "rq_stage row = LEVEL"
  shows "request_ok moved \<and> rq_employeeCode moved = rq_employeeCode row"
proof -
  have s: "sealed_ok (rq_employeeCode row) r" using assms by (simp add: request_ok_def)
  have revert: ?thesis if "action = ''REVERT''"
  proof (cases "previousActionable r i")
    case None
    then show ?thesis using assms that s by (auto simp: levelTransition_def Let_def request_ok_def)
  next
    case (Some j)
    then show ?thesis using assms that s previousActionable_Some [OF Some]
      by (auto simp: levelTransition_def Let_def request_ok_def waiting_ok_def)
  qed
  have advance: ?thesis if fwd: "action \<noteq> ''REVERT''" and step: "recommends action \<or> action = ''VERIFY''"
  proof -
    obtain j codes where "advancePatch r i (rt_acted r @ [(i, ev_code env)]) = Inr (j, codes)"
      and m: "rq_route moved = Some (r\<lparr>rt_acted := rt_acted r @ [(i, ev_code env)]\<rparr>)" "rq_level moved = Some j"
        "rq_pendingCodes moved = codes" "rq_employeeCode moved = rq_employeeCode row"
      using assms(1) fwd step by (auto simp: levelTransition_def Let_def fail_with_def result_simps split: if_splits)
    then show ?thesis using s advancePatch_waiting by (simp add: request_ok_def)
  qed
  have decide: ?thesis if "action \<noteq> ''REVERT''" "\<not> (recommends action \<or> action = ''VERIFY'')"
    using assms(1) that s by (auto simp: levelTransition_def Let_def fail_with_def request_ok_def split: if_splits)
  show ?thesis using revert advance decide by blast
qed

lemma fixedTransition_ok:
  assumes "fixedTransition ct env row facts input = Inr (moved, effs)"
    and "request_ok row" and "rq_stage row \<noteq> LEVEL" and "contracts_ok ct"
  shows "request_ok moved \<and> rq_employeeCode moved = rq_employeeCode row"
proof -
  have "rq_route moved = rq_route row \<and> rq_employeeCode moved = rq_employeeCode row \<and> rq_stage moved \<noteq> LEVEL"
  proof (cases "ai_action input = ''REVERT''")
    case True
    then show ?thesis using assms contracts_okD(1) [OF assms(4)] by (auto simp: fixedTransition_def Let_def split: if_splits)
  next
    case False
    then obtain row1 source1 effs1 where "classifyLeave row facts input = Inr (row1, source1, effs1)"
      and m: "\<exists>s\<noteq>LEVEL. rq_stage moved = s" "rq_route moved = rq_route row1" "rq_employeeCode moved = rq_employeeCode row1"
      using assms(1) by (auto simp: fixedTransition_def Let_def fail_with_def result_simps split: if_splits)
    then show ?thesis by (auto simp: classifyLeave_def fail_with_def split: option.splits if_splits)
  qed
  then show ?thesis using assms(2) by (auto simp: request_ok_def split: option.splits)
qed

lemma act_move_ok:
  assumes "act_move ct env row facts input = Inr (moved, effs)" and "request_ok row" and "contracts_ok ct"
  shows "request_ok moved \<and> rq_employeeCode moved = rq_employeeCode row"
proof (cases "ai_action input = ''WITHDRAW''")
  case True
  then show ?thesis using assms by (auto simp: act_move_def intro: request_ok_stage)
next
  case False
  then show ?thesis using assms fixedTransition_ok levelTransition_ok
    by (auto simp: act_move_def split: if_splits option.splits)
qed

lemma actApproval_ok:
  assumes "actApproval ct decide env row facts input = Inr (Acted row' audits effs) \<or>
      actApproval ct decide env row facts input = Inr (StaleCase row')"
    and "request_ok row" and "contracts_ok ct"
  shows "request_ok row' \<and> rq_employeeCode row' = rq_employeeCode row \<and> rq_version row' = Suc (rq_version row)"
  using assms(1)
proof
  assume "actApproval ct decide env row facts input = Inr (Acted row' audits effs)"
  from actApproval_cases [OF this] obtain moved ef e where
    "act_move ct env row facts input = Inr (moved, ef)" "row' = moved\<lparr>rq_version := Suc (rq_version row), rq_execution := e\<rparr>"
    by auto
  then show ?thesis using act_move_ok [OF _ assms(2,3)] by simp
next
  assume "actApproval ct decide env row facts input = Inr (StaleCase row')"
  from actApproval_cases [OF this]
  have "row' = row\<lparr>rq_stage := WITHDRAWN, rq_execution := ''APPLIED'', rq_version := Suc (rq_version row)\<rparr>" by auto
  then show ?thesis using request_ok_stage [OF assms(2), of WITHDRAWN] by simp
qed

lemma first_engaged_Some:
  assumes "route_ok r"
  shows "\<exists>i < length (rt_levels r). first_engaged r = Some i \<and> se_engaged (rt_levels r ! i)"
proof -
  let ?n = "length (rt_levels r) - 1"
  have "?n < length (rt_levels r)" "se_engaged (rt_levels r ! ?n)"
    using assms by (auto simp: route_ok_def last_conv_nth)
  then have "\<exists>i \<in> set [0..<length (rt_levels r)]. se_engaged (rt_levels r ! i)" unfolding set_upt by fastforce
  then have "first_engaged r \<noteq> None" unfolding first_engaged_def find_None_iff by blast
  then obtain i where i: "first_engaged r = Some i" by blast
  then show ?thesis by (intro exI [of _ i]) (auto simp: first_engaged_def find_Some_iff)
qed

lemma submitWithin_ok:
  assumes "submitWithin env input onBehalf filer prior source published manager = Inr (row, audits, effs)"
    and "matrix_ok published"
  shows "request_ok row \<and> rq_version row \<ge> (case prior of None \<Rightarrow> 1 | Some p \<Rightarrow> Suc (rq_version p)) \<and>
    check_prior prior input = Inr ()"
proof -
  define mx where "mx = (if si_kind input \<in> set MATRIX_KINDS then published else None)"
  have c: "check_prior prior input = Inr ()" using assms(1) by (auto simp: submitWithin_def result_simps)
  show ?thesis
  proof (cases mx)
    case None
    have "rq_route row = None \<and> rq_stage row \<noteq> LEVEL \<and>
        rq_version row \<ge> (case prior of None \<Rightarrow> 1 | Some p \<Rightarrow> Suc (rq_version p))"
      using assms(1) None unfolding submitWithin_def mx_def [symmetric] Let_def
      by (auto simp: result_simps fail_with_def stageAfterSubmission_def split: if_splits)
    then show ?thesis using c by (simp add: request_ok_def)
  next
    case (Some m)
    have lv: "levels_ok (mx_levels m)" using assms(2) Some by (auto simp: mx_def matrix_ok_def split: if_splits)
    obtain r row0 au ef where r: "sealRoute env (si_kind input) m source = Inr r"
      and settle: "settleAutoLevels env source (si_reason input) row0 = Inr (row, au, ef)"
      and row0: "rq_route row0 = Some r" "rq_level row0 = first_engaged r" "rq_stage row0 = LEVEL"
        "rq_employeeCode row0 = so_employeeCode source"
        "rq_pendingCodes row0 = (case first_engaged r of Some i \<Rightarrow> se_approverCodes (rt_levels r ! i) | None \<Rightarrow> [])"
        "rq_version row0 = (case prior of None \<Rightarrow> 1 | Some p \<Rightarrow> Suc (rq_version p))"
      using assms(1) Some unfolding submitWithin_def mx_def [symmetric] Let_def
      by (auto simp: result_simps fail_with_def split: if_splits)
    have ok: "sealed_ok (so_employeeCode source) r" "rt_acted r = []"
      using buildRoute_sealed_ok [OF _ lv] buildRoute_cases r by (auto simp: sealRoute_def)
    then obtain i where i: "i < length (rt_levels r)" "first_engaged r = Some i" "se_engaged (rt_levels r ! i)"
      using first_engaged_Some by (auto simp: sealed_ok_def)
    have "request_ok row \<and> rq_version row0 \<le> rq_version row \<and> rq_employeeCode row = rq_employeeCode row0"
      using settle_ok [OF settle row0(1) _ row0(3)] row0 ok i by (simp add: waiting_ok_def acted_codes_def)
    then show ?thesis using row0(6) c by simp
  qed
qed

section \<open>The system\<close>

lemma approval_step_ok:
  assumes "approval_step ct row row'" and "request_ok row" and "contracts_ok ct"
  shows "request_ok row'"
  using assms
proof (cases rule: approval_step.cases)
  case (consumed digest approved)
  then show ?thesis using assms(2) by (auto simp: consumeApproval_def result_simps requireApproval_def fail_with_def split: if_splits)
qed (use actApproval_ok submitWithin_ok assms in blast)+

text \<open>The contracts of the fixed stages as the engine uses them: forward through line manager, HR and management.\<close>

definition sample_contracts :: contracts where
  "sample_contracts = \<lparr>ct_accepts = (\<lambda>a. a \<noteq> ''SUBMIT''),
     ct_actions = (\<lambda>s. case s of LINE_MANAGER \<Rightarrow> [''RECOMMEND_APPROVAL'', ''RECOMMEND_REJECTION'', ''REVERT'']
       | HR \<Rightarrow> [''VERIFY'', ''REVERT''] | MANAGEMENT \<Rightarrow> [''APPROVE'', ''REJECT'', ''REVERT''] | _ \<Rightarrow> []),
     ct_revertTarget = (\<lambda>s. case s of MANAGEMENT \<Rightarrow> HR | HR \<Rightarrow> LINE_MANAGER | _ \<Rightarrow> INITIATOR)\<rparr>"

lemma sample_contracts_ok: "contracts_ok sample_contracts"
  by (simp add: contracts_ok_def sample_contracts_def closed_stage_def)

text \<open>
  The requests of the approval centre, for any contracts that behave: first submissions start, commands
  step, and \<^const>\<open>request_ok\<close> is invariant.
\<close>

interpretation approval: invariant_system submitted
  "\<lambda>row row'. \<exists>ct. contracts_ok ct \<and> approval_step ct row row'" request_ok
proof unfold_locales
  show "request_ok s" if "submitted s" for s
    using that submitWithin_ok by cases blast
  show "request_ok t" if "request_ok s" "\<exists>ct. contracts_ok ct \<and> approval_step ct s t" for s t
    using that approval_step_ok by blast
qed

lemma reach_mono:
  assumes "reach init step s" and "\<And>s t. step s t \<Longrightarrow> step' s t"
  shows "reach init step' s"
  using assms(1) by (induction rule: reach.induct) (auto intro: reach.intros assms(2))

lemma reachable_ok:
  assumes "reach submitted (approval_step ct) row" and "contracts_ok ct"
  shows "request_ok row"
  by (rule approval.reach_inv, rule reach_mono [OF assms(1)]) (use assms(2) in blast)

section \<open>Sample requests\<close>

definition sample_env :: "string \<Rightarrow> int \<Rightarrow> string list \<Rightarrow> env" where
  "sample_env code i perms = \<lparr>ev_code = code, ev_id = i, ev_permissions = perms, ev_identityCodes = [code]\<rparr>"

definition sample_source :: source where
  "sample_source = \<lparr>so_employeeCode = ''4'', so_managerId = None, so_managerCode = None, so_digest = ''d'',
     so_hasLeavePolicy = False\<rparr>"

definition sample_published :: "level list \<Rightarrow> matrix" where
  "sample_published ls = \<lparr>mx_version = 1, mx_levels = ls, mx_approvers = sample_approvers, mx_amount = 0\<rparr>"

definition sample_submit :: submit_input where
  "sample_submit = \<lparr>si_kind = ''PAYROLL'', si_sourceRef = ''7'', si_employeeCode = ''4'', si_expectedVersion = 0,
     si_reason = None\<rparr>"

definition sample_facts :: act_facts where
  "sample_facts = \<lparr>af_subjectManager = None, af_source = sample_source, af_caseStatus = None,
     af_managerActorId = None, af_policyActive = False, af_reclassified = sample_source\<rparr>"

definition sample_act :: "string \<Rightarrow> nat \<Rightarrow> act_input" where
  "sample_act action v = \<lparr>ai_action = action, ai_expectedVersion = v, ai_reason = None, ai_deductionDays = None,
     ai_leavePolicyRef = None\<rparr>"

definition sample_decide :: "request \<Rightarrow> bool \<Rightarrow> hr_error + string" where
  "sample_decide row approved = Inr ''APPLIED''"

definition sample_row :: "route \<Rightarrow> nat \<Rightarrow> string list \<Rightarrow> nat \<Rightarrow> request" where
  "sample_row r i pending v =
    \<lparr>rq_kind = ''PAYROLL'', rq_sourceRef = ''7'', rq_employeeCode = ''4'', rq_stage = LEVEL, rq_level = Some i,
     rq_pendingCodes = pending, rq_route = Some r, rq_version = v, rq_round = 1, rq_managerCode = None,
     rq_managerActorCode = None, rq_hrActorCode = None, rq_recommendation = None, rq_verification = None,
     rq_sourceHash = ''d'', rq_execution = ''PENDING''\<rparr>"

lemmas sample_defs = sample_env_def sample_source_def sample_published_def sample_submit_def sample_facts_def
  sample_act_def sample_decide_def sample_row_def sample_sealed_def sample_contracts_def

lemmas command_defs = actApproval_def conclude_def act_move_def levelTransition_def check_deduction_def assertVersion_def
  canRead_def actionsFor_def levelActionsFor_def current_level_def permits_def ownsCode_def closed_stage_def
  reservedForDecision_def decidingLevelIndex_def levelActions_def ACTIONS_BY_LEVEL_def PERMISSION_BY_ACTION_def
  advancePatch_def nextActionable_def level_eligible_def acted_codes_def recommends_def

lemma sample_submitted:
  assumes "buildRoute ''PAYROLL'' 1 ls ''3'' ''4'' 0 sample_approvers = Inr r" and "levels_ok ls"
    and "first_engaged r = Some 0" and "\<not> se_auto (rt_levels r ! 0)" and "rt_levels r \<noteq> []"
  shows "submitted (sample_row r 0 (se_approverCodes (rt_levels r ! 0)) 1)"
proof (rule submitted.first)
  show "matrix_ok (Some (sample_published ls))" using assms(2) by (simp add: matrix_ok_def sample_published_def)
  show "submitWithin (sample_env ''3'' 3 [''verify'']) sample_submit True False None sample_source
      (Some (sample_published ls)) None =
    Inr (sample_row r 0 (se_approverCodes (rt_levels r ! 0)) 1,
      [mk_audit (sample_env ''3'' 3 [''verify'']) ((sample_row r 0 (se_approverCodes (rt_levels r ! 0)) 1)\<lparr>rq_stage := INITIATOR\<rparr>)
        (sample_row r 0 (se_approverCodes (rt_levels r ! 0)) 1) ''SUBMIT'' None], [OnSubmit ''PAYROLL''])"
    using assms
    by (simp add: submitWithin_def may_submit_def check_prior_def check_owner_def sealRoute_def MATRIX_KINDS_def
        permits_def sample_defs settleAutoLevels.simps Let_def)
qed

definition verified_route :: route where
  "verified_route = sample_route\<lparr>rt_acted := [(0, ''1'')]\<rparr>"

definition verified_row :: request where
  "verified_row = (sample_row verified_route 1 [''2''] 2)\<lparr>rq_hrActorCode := Some ''1''\<rparr>"

lemma sample_levels_ok: "levels_ok sample_levels"
  by (simp add: levels_ok_def sample_levels_def sample_level_def MAX_LEVELS_def)

lemma sample_verify:
  "actApproval sample_contracts sample_decide (sample_env ''1'' 1 [''verify'']) (sample_row sample_route 0 [''1''] 1)
    sample_facts (sample_act ''VERIFY'' 1) =
   Inr (Acted verified_row [mk_audit (sample_env ''1'' 1 [''verify'']) (sample_row sample_route 0 [''1''] 1)
     verified_row ''VERIFY'' None] [])"
  by (simp add: command_defs sample_defs verified_row_def verified_route_def sample_route_def Let_def numeral_2_eq_2)

lemma sample_approve:
  "\<exists>row' au ef. actApproval sample_contracts sample_decide (sample_env ''2'' 2 [''approve'']) verified_row
    sample_facts (sample_act ''APPROVE'' 2) = Inr (Acted row' au ef)"
  by (simp add: command_defs sample_defs verified_row_def verified_route_def sample_route_def Let_def numeral_2_eq_2)

lemma verified_reachable: "reach submitted (approval_step sample_contracts) verified_row"
proof (rule reach.more)
  show "reach submitted (approval_step sample_contracts) (sample_row sample_route 0 [''1''] 1)"
    using sample_submitted [OF sample_build sample_levels_ok]
    by (intro reach.start) (simp add: first_engaged_def sample_route_def sample_sealed_def)
  show "approval_step sample_contracts (sample_row sample_route 0 [''1''] 1) verified_row"
    by (rule approval_step.acted [OF sample_verify])
qed

section \<open>Properties\<close>

text \<open>C30. Every request the commands can produce is well formed: its sealed route can be walked to a decision,
  only the last level decides and the subject is not among its approvers; at stage \<open>LEVEL\<close> it waits at
  an engaged level that nobody satisfied in advance, and whoever is pending is an approver of that
  level who has not acted in this round.\<close>

theorem reachable_requests_ok:
  assumes "reach submitted (approval_step ct) row" and "contracts_ok ct"
  shows "request_ok row"
  by (rule reachable_ok [OF assms])

theorem reachable_requests_ok_witness:
  "request_ok verified_row \<and> rq_pendingCodes verified_row = [''2'']"
  using reachable_requests_ok [OF verified_reachable sample_contracts_ok]
  by (simp add: verified_row_def sample_row_def)

lemma level_approve:
  assumes "request_ok row" and "rq_stage row = LEVEL" and "''APPROVE'' \<in> set (actionsFor ct env mgr row)"
  shows "\<exists>r. rq_route row = Some r \<and> rq_level row = Some (length (rt_levels r) - 1) \<and> permits env ''approve'' \<and>
    \<not> ownsCode env (Some (rq_employeeCode row)) \<and>
    (\<exists>c \<in> set (ev_identityCodes env). c \<in> set (se_approverCodes (last (rt_levels r))) \<and> c \<notin> set (acted_codes (rt_acted r)))"
proof -
  obtain r i where r: "rq_route row = Some r" "rq_level row = Some i" "sealed_ok (rq_employeeCode row) r"
    "waiting_ok r i (rq_pendingCodes row)"
    using assms(1,2) by (auto simp: request_ok_def split: option.splits)
  let ?l = "rt_levels r ! i"
  have i: "i < length (rt_levels r)" and cur: "current_level row = Some ?l"
    using r by (auto simp: waiting_ok_def current_level_def)
  have la: "''APPROVE'' \<in> set (levelActionsFor env row)"
    and self: "ownsCode env (Some (rq_employeeCode row)) \<Longrightarrow> se_allowSelf ?l"
    using assms(2,3) cur by (auto simp: actionsFor_def Let_def split: if_splits)
  then have l: "se_action ?l = APPROVE" "permits env ''approve''"
    "\<exists>c \<in> set (ev_identityCodes env). c \<in> set (rq_pendingCodes row)"
    using cur by (auto simp: levelActionsFor_def Let_def levelActions_def ACTIONS_BY_LEVEL_def PERMISSION_BY_ACTION_def
        list_ex_iff split: if_splits level_action.splits)
  have "i = length (rt_levels r) - 1"
  proof (rule ccontr)
    assume "i \<noteq> length (rt_levels r) - 1"
    then have "i < length (butlast (rt_levels r))" using i by simp
    then have "?l \<in> set (butlast (rt_levels r))" using nth_mem [of i "butlast (rt_levels r)"] by (simp add: nth_butlast)
    then show False using r(3) l(1) by (auto simp: sealed_ok_def list_all_iff)
  qed
  moreover from this have "?l = last (rt_levels r)" using i by (cases "rt_levels r") (simp_all add: last_conv_nth)
  ultimately show ?thesis using r l self by (auto simp: sealed_ok_def waiting_ok_def)
qed



text \<open>A closed request is final: no action is offered on it to anybody, every action on it and every
  resubmission of it is refused, whoever asks and whatever the published matrix says.\<close>

theorem closed_request_final:
  assumes "closed_stage (rq_stage row)"
  shows "actionsFor ct env mgr row = [] \<and> (\<forall>res. actApproval ct decide env row facts act \<noteq> Inr res) \<and>
    (\<forall>res. submitWithin env input onBehalf filer (Some row) source published manager \<noteq> Inr res)"
proof -
  have none: "actionsFor ct env m row = []" for m using assms by (simp add: actionsFor_def)
  have "actApproval ct decide env row facts act \<noteq> Inr res" for res
    using actApproval_cases [of ct decide env row facts act res] none by auto
  moreover have "submitWithin env input onBehalf filer (Some row) source published manager \<noteq> Inr res" for res
    using assms by (auto simp: submitWithin_def check_prior_def result_simps closed_stage_def)
  ultimately show ?thesis using none by blast
qed

theorem closed_request_final_witness:
  "actApproval sample_contracts sample_decide (sample_env ''2'' 2 [''approve'']) (verified_row\<lparr>rq_stage := APPROVED\<rparr>)
    sample_facts (sample_act ''APPROVE'' 2) \<noteq> Inr (StaleCase verified_row)"
  using closed_request_final [of "verified_row\<lparr>rq_stage := APPROVED\<rparr>"] by (simp add: closed_stage_def)

text \<open>Commands on a request are serialised by its version: once a command prepared on a version has been
  carried out, no other command prepared on that version succeeds, be it an action or a resubmission.\<close>

theorem stale_command_refused:
  assumes "actApproval ct decide env row facts input = Inr (Acted row' audits effs)"
    and "request_ok row" and "contracts_ok ct"
    and "ai_expectedVersion other = ai_expectedVersion input" and "si_expectedVersion again = ai_expectedVersion input"
  shows "actApproval ct decide' env' row' facts' other \<noteq> Inr res \<and>
    submitWithin env' again onBehalf filer (Some row') source published manager \<noteq> Inr res'"
proof -
  have v: "rq_version row = ai_expectedVersion input" using actApproval_cases [OF assms(1)] by blast
  have v': "rq_version row' = Suc (rq_version row)" using actApproval_ok [OF _ assms(2,3)] assms(1) by blast
  have "actApproval ct decide' env' row' facts' other \<noteq> Inr res"
    using actApproval_cases [of ct decide' env' row' facts' other res] v v' assms(4) by auto
  moreover have "submitWithin env' again onBehalf filer (Some row') source published manager \<noteq> Inr res'"
    using v v' assms(5) by (auto simp: submitWithin_def check_prior_def assertVersion_def result_simps)
  ultimately show ?thesis by blast
qed

theorem stale_command_refused_witness:
  "actApproval sample_contracts sample_decide (sample_env ''2'' 2 [''approve'']) verified_row
    sample_facts (sample_act ''APPROVE'' 1) \<noteq> Inr (StaleCase verified_row)"
proof -
  have "request_ok (sample_row sample_route 0 [''1''] 1)"
    by (simp add: request_ok_def sealed_ok_def route_ok_def waiting_ok_def acted_codes_def sample_row_def sample_route_def
        sample_sealed_def)
  then show ?thesis
    using stale_command_refused [OF sample_verify _ sample_contracts_ok,
        of "sample_act ''APPROVE'' 1" "sample_submit\<lparr>si_expectedVersion := 1\<rparr>"]
    by (simp add: sample_act_def sample_submit_def)
qed

text \<open>An optional level whose only approver is also the approver of the level before it.\<close>

definition strand_levels :: "level list" where
  "strand_levels = [sample_level ''HR'' VERIFY [1], (sample_level ''Lead'' RECOMMEND [1])\<lparr>lv_required := False\<rparr>,
     sample_level ''Board'' APPROVE [2]]"

definition strand_route :: route where
  "strand_route = \<lparr>rt_kind = ''PAYROLL'', rt_matrixVersion = 1,
     rt_levels = [sample_sealed 0 ''HR'' VERIFY [''1''], (sample_sealed 1 ''Lead'' RECOMMEND [''1''])\<lparr>se_required := False\<rparr>,
       sample_sealed 2 ''Board'' APPROVE [''2'']], rt_acted = []\<rparr>"

definition strand_verified :: request where
  "strand_verified = (sample_row (strand_route\<lparr>rt_acted := [(0, ''1'')]\<rparr>) 2 [''2''] 2)\<lparr>rq_hrActorCode := Some ''1''\<rparr>"

definition stranded :: request where
  "stranded = sample_row (strand_route\<lparr>rt_acted := [(0, ''1'')]\<rparr>) 1 [] 3"

lemma strand_build: "buildRoute ''PAYROLL'' 1 strand_levels ''3'' ''4'' 0 sample_approvers = Inr strand_route"
  using sample_codes
  by (simp add: buildRoute_def seal_level_def strand_levels_def sample_level_def sample_approvers_def strand_route_def
      sample_sealed_def uniq_codes_def nub_def Let_def)

lemma strand_verify:
  "approval_step sample_contracts (sample_row strand_route 0 [''1''] 1) strand_verified"
proof (rule approval_step.acted)
  show "actApproval sample_contracts sample_decide (sample_env ''1'' 1 [''verify'']) (sample_row strand_route 0 [''1''] 1)
      sample_facts (sample_act ''VERIFY'' 1) =
    Inr (Acted strand_verified [mk_audit (sample_env ''1'' 1 [''verify'']) (sample_row strand_route 0 [''1''] 1)
      strand_verified ''VERIFY'' None] [])"
    by (simp add: command_defs sample_defs strand_verified_def strand_route_def Let_def numeral_2_eq_2)
qed

lemma strand_revert: "approval_step sample_contracts strand_verified stranded"
proof (rule approval_step.acted)
  show "actApproval sample_contracts sample_decide (sample_env ''2'' 2 [''approve'']) strand_verified
      sample_facts (sample_act ''REVERT'' 2) =
    Inr (Acted stranded [mk_audit (sample_env ''2'' 2 [''approve'']) strand_verified stranded ''REVERT'' None] [])"
    by (simp add: command_defs sample_defs strand_verified_def stranded_def strand_route_def Let_def numeral_2_eq_2
        numeral_3_eq_3)
qed

text \<open>Returning a request can strand it. The walk forward passes over an optional level whose approvers
  have all acted, but the walk back does not: a request returned to such a level is open, pending with
  nobody, and offers no action to anybody, so no command can ever move it again.\<close>

theorem revert_strands_request:
  "\<exists>row. reach submitted (approval_step sample_contracts) row \<and> rq_stage row = LEVEL \<and> rq_pendingCodes row = [] \<and>
    (\<forall>ct env mgr. actionsFor ct env mgr row = []) \<and>
    (\<forall>ct decide env facts input res. actApproval ct decide env row facts input \<noteq> Inr res)"
proof (intro exI conjI allI)
  have start: "submitted (sample_row strand_route 0 [''1''] 1)"
    using sample_submitted [OF strand_build]
    by (simp add: levels_ok_def strand_levels_def sample_level_def MAX_LEVELS_def first_engaged_def strand_route_def
        sample_sealed_def)
  show "reach submitted (approval_step sample_contracts) stranded"
    using reach.start [where init = submitted, OF start] strand_verify strand_revert by (metis reach.more)
  show "rq_stage stranded = LEVEL" "rq_pendingCodes stranded = []" by (simp_all add: stranded_def sample_row_def)
  show none: "actionsFor ct env mgr stranded = []" for ct env mgr
    by (simp add: stranded_def strand_route_def command_defs sample_defs Let_def list_ex_iff)
  show "actApproval ct decide env stranded facts input \<noteq> Inr res" for ct decide env facts input res
    using actApproval_cases [of ct decide env stranded facts input res] none by auto
qed

lemma currentCode_sound:
  "currentCode aliases seen code = Inr cur \<Longrightarrow> (code, cur) \<in> (set aliases)\<^sup>* \<and> cur \<notin> fst ` set aliases"
proof (induction aliases seen code rule: currentCode.induct)
  case (1 aliases seen code)
  show ?case
  proof (cases "find (\<lambda>a. fst a = code) aliases")
    case None
    then have "cur = code" using "1.prems" by (subst (asm) currentCode.simps) (auto split: if_splits)
    then show ?thesis using None by (auto simp: find_None_iff)
  next
    case (Some a)
    then have "a \<in> set aliases" "fst a = code" by (auto simp: find_Some_iff)
    then have "(code, snd a) \<in> set aliases" by (cases a) auto
    moreover have "(snd a, cur) \<in> (set aliases)\<^sup>* \<and> cur \<notin> fst ` set aliases"
      using "1.prems" "1.IH" [OF _ Some] Some by (subst (asm) currentCode.simps) (auto split: if_splits)
    ultimately show ?thesis by (auto intro: converse_rtrancl_into_rtrancl)
  qed
qed

text \<open>The identity of an employee is complete: the codes found for any of an employee's codes are exactly
  those that lead, by replacements, to the current code; the code asked for is among them, and the
  current code itself was never replaced.\<close>

theorem employeeCodes_complete:
  assumes "employeeCodes aliases code = Inr codes"
  shows "\<exists>cur. currentCode aliases [] code = Inr cur \<and> cur \<notin> fst ` set aliases \<and> code \<in> set codes \<and>
    set codes = {c. (c, cur) \<in> (set aliases)\<^sup>*}"
proof -
  obtain cur where cur: "currentCode aliases [] code = Inr cur" "codes = alias_close aliases [cur]"
    using assms by (auto simp: employeeCodes_def result_simps)
  moreover have "set codes = {c. (c, cur) \<in> (set aliases)\<^sup>*}" using alias_close_set [of "[cur]" cur aliases] cur(2) by simp
  ultimately show ?thesis using currentCode_sound [OF cur(1)] by auto
qed

theorem employeeCodes_complete_witness:
  "\<exists>codes. employeeCodes [(''A'', ''B''), (''C'', ''B'')] ''A'' = Inr codes \<and> set codes = {''A'', ''B'', ''C''}"
proof -
  have e: "employeeCodes [(''A'', ''B''), (''C'', ''B'')] ''A'' = Inr [''B'', ''A'', ''C'']"
    by (simp add: employeeCodes_def currentCode.simps alias_close.simps alias_pass_def Let_def)
  show ?thesis using employeeCodes_complete [OF e] e by auto
qed

end
