(* ===== verification/Payments.thy ===== *)
theory Payments
  imports Money
begin

text \<open>
  Paying a finalised payroll, \<^verbatim>\<open>src/src/services/payrollPayments.service.js\<close>: HR records what the bank
  did with a payslip, or that payslips were handed over in cash. The evidence of a payslip is stored
  as encrypted JSON; the model holds the list of events it decrypts to. An event is compared through
  its JSON text, whose keys have a fixed order, so the comparison is equality of the events. Instants
  are milliseconds, and an instant the caller's text does not denote is \<open>None\<close>.
\<close>

section \<open>Payslips and evidence\<close>

record pay_event =
  pv_requestKey :: string
  pv_stage :: string
  pv_method :: "string option"
  pv_reference :: string
  pv_evidenceRef :: "string option"
  pv_receiptNumber :: "string option"
  pv_amount :: string
  pv_currency :: string
  pv_occurredAt :: int
  pv_actorCode :: string

record payslip =
  ps_id :: nat
  ps_employeeCode :: string
  ps_netAmount :: string
  ps_status :: string
  ps_paidAt :: "int option"
  ps_paymentReference :: "string option"
  ps_history :: "pay_event list"

record pay_run =
  pr_status :: string
  pr_currencyCode :: string
  pr_configVersion :: nat

text \<open>The data of one tenant and run: employees by code with their id, published payroll setups
  \<open>(version, cashDisbursement)\<close>, the run, its payslips in the order of their ids, and the audit log
  \<open>(payslip, employee, action)\<close>.\<close>

record pay_state =
  py_employees :: "(string \<times> int) list"
  py_configs :: "(nat \<times> bool) list"
  py_run :: "pay_run option"
  py_slips :: "payslip list"
  py_audit :: "(nat \<times> int \<times> string) list"

definition lastStage :: "pay_event list \<Rightarrow> string" where
  "lastStage history = (if history = [] then ''NOT_SUBMITTED'' else pv_stage (last history))"

text \<open>The setup the run was calculated with, or the newest one when the run records none (version 0).\<close>

definition newest_config :: "(nat \<times> bool) list \<Rightarrow> (nat \<times> bool) option" where
  "newest_config configs = fold (\<lambda>c best. case best of None \<Rightarrow> Some c
     | Some b \<Rightarrow> if fst b < fst c then Some c else Some b) configs None"

definition runPaysInCash :: "(nat \<times> bool) list \<Rightarrow> pay_run \<Rightarrow> bool" where
  "runPaysInCash configs run =
    (case newest_config (if pr_configVersion run \<noteq> 0
        then filter (\<lambda>c. fst c = pr_configVersion run) configs else configs) of
       None \<Rightarrow> False | Some c \<Rightarrow> snd c)"

definition pay_fail :: "nat \<Rightarrow> string \<Rightarrow> hr_error" where
  "pay_fail status message = AppError status message"

definition blank :: "string option \<Rightarrow> bool" where
  "blank s = (case s of None \<Rightarrow> True | Some t \<Rightarrow> js_trim t = [])"

definition allowed_after :: "string \<Rightarrow> string list" where
  "allowed_after previous =
    (if previous = ''NOT_SUBMITTED'' then [''SUBMITTED'']
     else if previous = ''SUBMITTED'' then [''ACKNOWLEDGED'', ''REJECTED'']
     else if previous = ''ACKNOWLEDGED'' then [''RECONCILED'', ''REJECTED'']
     else if previous = ''REJECTED'' then [''SUBMITTED'']
     else [])"

definition payable :: "payslip \<Rightarrow> bool" where
  "payable s \<longleftrightarrow> ps_status s \<in> {''FINALIZED'', ''DISTRIBUTED''}"

definition update_slip :: "nat \<Rightarrow> (payslip \<Rightarrow> payslip) \<Rightarrow> payslip list \<Rightarrow> payslip list" where
  "update_slip i f slips = map (\<lambda>s. if ps_id s = i then f s else s) slips"

section \<open>Bank evidence\<close>

record bank_input =
  bi_employeeCode :: string
  bi_actorCode :: "string option"
  bi_stage :: string
  bi_reference :: "string option"
  bi_evidenceRef :: "string option"
  bi_amount :: string
  bi_currency :: string
  bi_occurredAt :: "int option"
  bi_requestKey :: string

definition check_input :: "int \<Rightarrow> bank_input \<Rightarrow> hr_error + string \<times> string \<times> string \<times> int" where
  "check_input now input =
    (if blank (bi_actorCode input) then Inl (pay_fail 403 ''A verified employee code is required'')
     else if bi_stage input \<notin> set [''SUBMITTED'', ''ACKNOWLEDGED'', ''REJECTED'', ''RECONCILED'']
     then Inl (pay_fail 400 ''Invalid payment stage'')
     else if blank (bi_reference input) \<or> blank (bi_evidenceRef input) \<or> bi_requestKey input = []
     then Inl (pay_fail 400 ''References and request key are required'')
     else case (bi_actorCode input, bi_reference input, bi_evidenceRef input, bi_occurredAt input) of
       (Some actor, Some ref, Some evidence, Some occurred) \<Rightarrow>
         if occurred > now then Inl (pay_fail 400 ''Evidence date must be valid'')
         else Inr (actor, js_trim ref, js_trim evidence, occurred)
     | _ \<Rightarrow> Inl (pay_fail 400 ''Evidence date must be valid''))"

text \<open>\<^verbatim>\<open>Number(amount) <= 0\<close> on a text: false when the text is no number.\<close>

definition number_nonpos :: "string \<Rightarrow> bool" where
  "number_nonpos t = (case decimalParts (Some t) of Inl _ \<Rightarrow> False | Inr p \<Rightarrow> fst p \<le> 0)"

definition check_amount :: "pay_run \<Rightarrow> payslip \<Rightarrow> string \<Rightarrow> string \<Rightarrow> hr_error + unit" where
  "check_amount run slip amount currency =
    (if currency \<noteq> pr_currencyCode run then Inl (pay_fail 409 ''Bank amount and currency must match the net pay'')
     else
       rbind (decimalToMinor (Some amount) (Some currency)) (\<lambda>paid.
       rbind (decimalToMinor (Some (ps_netAmount slip)) (Some currency)) (\<lambda>net.
         ensure (paid = net \<and> \<not> number_nonpos amount)
           (pay_fail 409 ''Bank amount and currency must match the net pay''))))"

definition check_sequence :: "payslip \<Rightarrow> string \<Rightarrow> int \<Rightarrow> hr_error + unit" where
  "check_sequence slip s occurred =
    (if \<not> payable slip then Inl (pay_fail 409 ''Held or draft payslips cannot be paid'')
     else if s \<notin> set (allowed_after (lastStage (ps_history slip))) then Inl (pay_fail 409 ''Cannot record this stage'')
     else if ps_history slip \<noteq> [] \<and> occurred < pv_occurredAt (last (ps_history slip))
     then Inl (pay_fail 409 ''Evidence dates must follow the recorded payment sequence'')
     else Inr ())"

definition bank_event :: "bank_input \<Rightarrow> string \<times> string \<times> string \<times> int \<Rightarrow> pay_event" where
  "bank_event input c = (case c of (actor, ref, evidence, occurred) \<Rightarrow>
    \<lparr>pv_requestKey = bi_requestKey input, pv_stage = bi_stage input, pv_method = None, pv_reference = ref,
     pv_evidenceRef = Some evidence, pv_receiptNumber = None, pv_amount = bi_amount input,
     pv_currency = bi_currency input, pv_occurredAt = occurred, pv_actorCode = actor\<rparr>)"

definition add_evidence :: "pay_event \<Rightarrow> payslip \<Rightarrow> payslip" where
  "add_evidence event slip =
    (let s = slip\<lparr>ps_history := ps_history slip @ [event]\<rparr> in
     if pv_stage event = ''RECONCILED''
     then s\<lparr>ps_paidAt := Some (pv_occurredAt event), ps_paymentReference := Some (pv_reference event)\<rparr> else s)"

definition recordPayrollPayment :: "int \<Rightarrow> pay_state \<Rightarrow> bank_input \<Rightarrow> hr_error + pay_state \<times> string \<times> string" where
  "recordPayrollPayment now st input =
    rbind (check_input now input) (\<lambda>c.
    rbind (require (map_of (py_employees st) (fst c)) (pay_fail 403 ''A verified employee code is required'')) (\<lambda>actor.
    rbind (require (py_run st) (pay_fail 409 ''Finalize the approved payroll first'')) (\<lambda>run.
    rbind (ensure (pr_status run = ''FINALIZED'') (pay_fail 409 ''Finalize the approved payroll first'')) (\<lambda>_.
    rbind (ensure (\<not> runPaysInCash (py_configs st) run) (pay_fail 409 ''This company pays salaries in cash'')) (\<lambda>_.
    rbind (require (find (\<lambda>s. ps_employeeCode s = bi_employeeCode input) (py_slips st))
      (pay_fail 404 ''Employee code not found in this payroll'')) (\<lambda>slip.
      case find (\<lambda>e. pv_requestKey e = bi_requestKey input) (ps_history slip) of
        Some retry \<Rightarrow>
          rbind (ensure (retry = bank_event input c)
            (pay_fail 409 ''Request key was already used for different payment evidence'')) (\<lambda>_.
            Inr (st, bi_employeeCode input, bi_stage input))
      | None \<Rightarrow>
          rbind (check_amount run slip (bi_amount input) (bi_currency input)) (\<lambda>_.
          rbind (check_sequence slip (bi_stage input) (snd (snd (snd c)))) (\<lambda>_.
            Inr (st\<lparr>py_slips := update_slip (ps_id slip) (add_evidence (bank_event input c)) (py_slips st),
                    py_audit := py_audit st @ [(ps_id slip, actor, ''PAYMENT_'' @ bi_stage input)]\<rparr>,
                 bi_employeeCode input, bi_stage input)))))))))"

section \<open>Cash\<close>

record cash_input =
  ci_employeeCodes :: "string list"
  ci_actorCode :: "string option"
  ci_paidOn :: "int option"
  ci_receiptNumber :: "string option"
  ci_requestKey :: string

text \<open>\<open>iso_day\<close> is the date part of \<^verbatim>\<open>toISOString\<close>, used only inside the reference text.\<close>

definition cash_event :: "(int \<Rightarrow> string) \<Rightarrow> cash_input \<Rightarrow> string \<Rightarrow> int \<Rightarrow> pay_run \<Rightarrow> payslip \<Rightarrow> pay_event" where
  "cash_event iso_day input actor paid run slip =
    (let receipt = (case ci_receiptNumber input of None \<Rightarrow> None
          | Some r \<Rightarrow> if js_trim r = [] then None else Some (js_trim r))
     in \<lparr>pv_requestKey = ci_requestKey input, pv_stage = ''RECONCILED'', pv_method = Some ''CASH'',
         pv_reference = (case receipt of Some r \<Rightarrow> r | None \<Rightarrow> ''CASH-'' @ iso_day paid),
         pv_evidenceRef = None, pv_receiptNumber = receipt, pv_amount = ps_netAmount slip,
         pv_currency = pr_currencyCode run, pv_occurredAt = paid, pv_actorCode = actor\<rparr>)"

definition hasKey :: "string \<Rightarrow> payslip \<Rightarrow> bool" where
  "hasKey key slip \<longleftrightarrow> list_ex (\<lambda>e. pv_requestKey e = key) (ps_history slip)"

definition check_cash :: "int \<Rightarrow> cash_input \<Rightarrow> hr_error + string \<times> int" where
  "check_cash now input =
    (if blank (ci_actorCode input) then Inl (pay_fail 403 ''A verified employee code is required'')
     else if ci_employeeCodes input = [] \<or> \<not> distinct (ci_employeeCodes input)
     then Inl (pay_fail 400 ''Choose at least one payslip, each only once'')
     else if ci_requestKey input = [] then Inl (pay_fail 400 ''A request key is required'')
     else case (ci_actorCode input, ci_paidOn input) of
       (Some actor, Some paid) \<Rightarrow>
         if paid > now then Inl (pay_fail 400 ''The paid date must be valid'') else Inr (actor, paid)
     | _ \<Rightarrow> Inl (pay_fail 400 ''The paid date must be valid''))"

definition pay_cash_step :: "(payslip \<Rightarrow> pay_event) \<Rightarrow> int \<Rightarrow> payslip \<Rightarrow> pay_state \<Rightarrow> pay_state" where
  "pay_cash_step event actor slip st =
    st\<lparr>py_slips := update_slip (ps_id slip) (\<lambda>s. s\<lparr>ps_history := ps_history slip @ [event slip],
           ps_paidAt := Some (pv_occurredAt (event slip)),
           ps_paymentReference := Some (pv_reference (event slip))\<rparr>) (py_slips st),
       py_audit := py_audit st @ [(ps_id slip, actor, ''PAYMENT_CASH_PAID'')]\<rparr>"

definition markPayslipsCashPaid :: "(int \<Rightarrow> string) \<Rightarrow> int \<Rightarrow> pay_state \<Rightarrow> cash_input \<Rightarrow> hr_error + pay_state \<times> nat \<times> bool" where
  "markPayslipsCashPaid iso_day now st input =
    rbind (check_cash now input) (\<lambda>(actorCode, paid).
    rbind (require (map_of (py_employees st) actorCode) (pay_fail 403 ''A verified employee code is required'')) (\<lambda>actor.
    rbind (require (py_run st) (pay_fail 404 ''Payroll run not found'')) (\<lambda>run.
    rbind (ensure (pr_status run = ''FINALIZED'') (pay_fail 409 ''Finalize the approved payroll first'')) (\<lambda>_.
    rbind (ensure (runPaysInCash (py_configs st) run) (pay_fail 409 ''This company pays by bank'')) (\<lambda>_.
      let fresh = filter (\<lambda>s. ps_employeeCode s \<in> set (ci_employeeCodes input)) (py_slips st) in
      rbind (ensure (list_all (\<lambda>c. list_ex (\<lambda>s. ps_employeeCode s = c) fresh) (ci_employeeCodes input))
        (pay_fail 404 ''Not in this payroll'')) (\<lambda>_.
      if list_all (hasKey (ci_requestKey input)) fresh then Inr (st, length fresh, True)
      else
        rbind (ensure (\<not> list_ex (\<lambda>s. ps_paidAt s \<noteq> None \<or> \<not> payable s) fresh)
          (pay_fail 409 ''Already paid or not payable'')) (\<lambda>_.
          Inr (fold (pay_cash_step (cash_event iso_day input actorCode paid run) actor) fresh st,
               length fresh, False))))))))"

section \<open>What the evidence says\<close>

text \<open>
  An event may follow a history: a bank event in the bank's order and no earlier than the last one, a
  cash event as long as nothing was reconciled.
\<close>

definition follows :: "pay_event list \<Rightarrow> pay_event \<Rightarrow> bool" where
  "follows h e \<longleftrightarrow>
    (if pv_method e = None
     then pv_stage e \<in> set (allowed_after (lastStage h)) \<and> (h \<noteq> [] \<longrightarrow> pv_occurredAt (last h) \<le> pv_occurredAt e)
     else pv_stage e = ''RECONCILED'' \<and> lastStage h \<noteq> ''RECONCILED'')"

definition evidence_ok :: "pay_event list \<Rightarrow> bool" where
  "evidence_ok h \<longleftrightarrow> list_all (\<lambda>i. follows (take i h) (h ! i)) [0..<length h]"

text \<open>
  A payslip is in order: its evidence is a payment sequence for its net pay, and it counts as paid
  exactly when the last event reconciled it, at that event's time and under its reference.
\<close>

definition slip_ok :: "string \<Rightarrow> payslip \<Rightarrow> bool" where
  "slip_ok currency s \<longleftrightarrow> evidence_ok (ps_history s) \<and>
    list_all (\<lambda>e. pv_currency e = currency \<and>
      decimalToMinor (Some (pv_amount e)) (Some currency) = decimalToMinor (Some (ps_netAmount s)) (Some currency)) (ps_history s) \<and>
    (case ps_paidAt s of
       None \<Rightarrow> lastStage (ps_history s) \<noteq> ''RECONCILED''
     | Some t \<Rightarrow> lastStage (ps_history s) = ''RECONCILED'' \<and> pv_occurredAt (last (ps_history s)) = t \<and>
         ps_paymentReference s = Some (pv_reference (last (ps_history s))))"

definition pay_ok :: "pay_state \<Rightarrow> bool" where
  "pay_ok st \<longleftrightarrow> distinct (map ps_id (py_slips st)) \<and>
    (case py_run st of None \<Rightarrow> True | Some run \<Rightarrow> list_all (slip_ok (pr_currencyCode run)) (py_slips st))"

definition pay_init :: "pay_state \<Rightarrow> bool" where
  "pay_init st \<longleftrightarrow> distinct (map ps_id (py_slips st)) \<and> list_all (\<lambda>s. ps_history s = [] \<and> ps_paidAt s = None) (py_slips st)"

inductive pay_step :: "pay_state \<Rightarrow> pay_state \<Rightarrow> bool" where
  bank: "recordPayrollPayment now st input = Inr (st', res) \<Longrightarrow> pay_step st st'"
| cash: "markPayslipsCashPaid iso_day now st input = Inr (st', res) \<Longrightarrow> pay_step st st'"

lemma evidence_ok_snoc: "evidence_ok (h @ [e]) \<longleftrightarrow> evidence_ok h \<and> follows h e"
  by (auto simp: evidence_ok_def list_all_iff nth_append)

lemma lastStage_snoc [simp]: "lastStage (h @ [e]) = pv_stage e"
  by (simp add: lastStage_def)

lemma allowed_after_RECONCILED [simp]: "allowed_after ''RECONCILED'' = []"
  by (simp add: allowed_after_def)

lemma update_slip_ids [simp]: "(\<And>s. ps_id (f s) = ps_id s) \<Longrightarrow> map ps_id (update_slip i f slips) = map ps_id slips"
  by (simp add: update_slip_def)

lemma update_slip_set:
  assumes "distinct (map ps_id slips)" and "slip \<in> set slips" and "x \<in> set (update_slip (ps_id slip) f slips)"
  shows "x = f slip \<or> (x \<in> set slips \<and> ps_id x \<noteq> ps_id slip)"
  using assms by (auto simp: update_slip_def distinct_map inj_on_def)

lemma add_evidence_id [simp]: "ps_id (add_evidence e s) = ps_id s"
  by (simp add: add_evidence_def Let_def)

lemma add_evidence_ok:
  assumes "slip_ok cur s" and "follows (ps_history s) e" and "pv_currency e = cur"
    and "decimalToMinor (Some (pv_amount e)) (Some cur) = decimalToMinor (Some (ps_netAmount s)) (Some cur)"
  shows "slip_ok cur (add_evidence e s)"
proof -
  have "lastStage (ps_history s) \<noteq> ''RECONCILED''"
    using assms(2) by (auto simp: follows_def split: if_splits)
  then have "ps_paidAt s = None" using assms(1) by (auto simp: slip_ok_def split: option.splits)
  then show ?thesis using assms by (auto simp: slip_ok_def add_evidence_def Let_def evidence_ok_snoc)
qed

lemma check_input_Inr:
  "check_input now input = Inr c \<longleftrightarrow> (\<exists>actor ref evidence occurred.
    bi_actorCode input = Some actor \<and> js_trim actor \<noteq> [] \<and> bi_reference input = Some ref \<and> js_trim ref \<noteq> [] \<and>
    bi_evidenceRef input = Some evidence \<and> js_trim evidence \<noteq> [] \<and> bi_occurredAt input = Some occurred \<and> occurred \<le> now \<and>
    bi_stage input \<in> set [''SUBMITTED'', ''ACKNOWLEDGED'', ''REJECTED'', ''RECONCILED''] \<and> bi_requestKey input \<noteq> [] \<and>
    c = (actor, js_trim ref, js_trim evidence, occurred))"
  by (auto simp: check_input_def blank_def split: option.splits if_splits)

text \<open>A successful bank command either finds its event recorded or appends it to the payslip it names.\<close>

lemma recordPayrollPayment_cases:
  assumes "recordPayrollPayment now st input = Inr (st', res)"
  shows "\<exists>run slip c. py_run st = Some run \<and> \<not> runPaysInCash (py_configs st) run \<and> pr_status run = ''FINALIZED'' \<and>
    find (\<lambda>s. ps_employeeCode s = bi_employeeCode input) (py_slips st) = Some slip \<and> check_input now input = Inr c \<and>
    res = (bi_employeeCode input, bi_stage input) \<and>
    ((st' = st \<and> find (\<lambda>e. pv_requestKey e = bi_requestKey input) (ps_history slip) = Some (bank_event input c)) \<or>
     (find (\<lambda>e. pv_requestKey e = bi_requestKey input) (ps_history slip) = None \<and>
      check_amount run slip (bi_amount input) (bi_currency input) = Inr () \<and>
      check_sequence slip (bi_stage input) (snd (snd (snd c))) = Inr () \<and>
      py_slips st' = update_slip (ps_id slip) (add_evidence (bank_event input c)) (py_slips st) \<and>
      py_run st' = py_run st \<and> py_configs st' = py_configs st \<and> py_employees st' = py_employees st))"
proof -
  obtain c actor run slip where found: "check_input now input = Inr c" "py_run st = Some run" "pr_status run = ''FINALIZED''"
      "\<not> runPaysInCash (py_configs st) run"
      "find (\<lambda>s. ps_employeeCode s = bi_employeeCode input) (py_slips st) = Some slip"
    and rest: "(case find (\<lambda>e. pv_requestKey e = bi_requestKey input) (ps_history slip) of
        Some retry \<Rightarrow>
          rbind (ensure (retry = bank_event input c)
            (pay_fail 409 ''Request key was already used for different payment evidence'')) (\<lambda>_.
            Inr (st, bi_employeeCode input, bi_stage input))
      | None \<Rightarrow>
          rbind (check_amount run slip (bi_amount input) (bi_currency input)) (\<lambda>_.
          rbind (check_sequence slip (bi_stage input) (snd (snd (snd c)))) (\<lambda>_.
            Inr (st\<lparr>py_slips := update_slip (ps_id slip) (add_evidence (bank_event input c)) (py_slips st),
                    py_audit := py_audit st @ [(ps_id slip, actor, ''PAYMENT_'' @ bi_stage input)]\<rparr>,
                 bi_employeeCode input, bi_stage input)))) = Inr (st', res)"
    using assms unfolding recordPayrollPayment_def rbind_Inr_iff require_Inr_iff ensure_Inr_iff by blast
  show ?thesis
  proof (cases "find (\<lambda>e. pv_requestKey e = bi_requestKey input) (ps_history slip)")
    case None
    then show ?thesis using found rest by (intro exI [of _ run] exI [of _ slip] exI [of _ c]) (auto simp: result_simps)
  next
    case (Some retry)
    then show ?thesis using found rest
      by (intro exI [of _ run] exI [of _ slip] exI [of _ c]) (auto split: if_split_asm)
  qed
qed

lemma bank_event_follows:
  assumes "check_amount run slip (bi_amount input) (bi_currency input) = Inr ()"
    and "check_sequence slip (bi_stage input) (snd (snd (snd c))) = Inr ()"
  shows "follows (ps_history slip) (bank_event input c) \<and> pv_currency (bank_event input c) = pr_currencyCode run \<and>
    decimalToMinor (Some (pv_amount (bank_event input c))) (Some (pr_currencyCode run)) =
      decimalToMinor (Some (ps_netAmount slip)) (Some (pr_currencyCode run))"
  using assms
  by (auto simp: follows_def bank_event_def check_amount_def check_sequence_def result_simps split: if_splits prod.splits)

text \<open>The loop over the chosen payslips settles each of them once and leaves the others alone.\<close>

definition cash_paid :: "(payslip \<Rightarrow> pay_event) \<Rightarrow> payslip \<Rightarrow> payslip \<Rightarrow> payslip" where
  "cash_paid event s x = x\<lparr>ps_history := ps_history s @ [event s], ps_paidAt := Some (pv_occurredAt (event s)),
     ps_paymentReference := Some (pv_reference (event s))\<rparr>"

lemma cash_paid_id [simp]: "ps_id (cash_paid event s x) = ps_id x" "ps_employeeCode (cash_paid event s x) = ps_employeeCode x"
  by (simp_all add: cash_paid_def)

lemma fold_cash_slips:
  "distinct (map ps_id fresh) \<Longrightarrow> py_slips (fold (pay_cash_step event actor) fresh st) =
    map (\<lambda>x. case find (\<lambda>s. ps_id s = ps_id x) fresh of None \<Rightarrow> x | Some s \<Rightarrow> cash_paid event s x) (py_slips st)"
proof (induction fresh arbitrary: st)
  case (Cons s fresh)
  have none: "find (\<lambda>t. ps_id t = ps_id s) fresh = None" using Cons.prems unfolding find_None_iff by (auto simp: image_iff)
  have st: "py_slips (pay_cash_step event actor s st) = map (\<lambda>x. if ps_id x = ps_id s then cash_paid event s x else x) (py_slips st)"
    by (simp add: pay_cash_step_def update_slip_def cash_paid_def)
  show ?case using Cons none by (auto simp: st)
qed simp

lemma fold_cash_other:
  "py_run (fold (pay_cash_step event actor) fresh st) = py_run st \<and>
   py_configs (fold (pay_cash_step event actor) fresh st) = py_configs st \<and>
   py_employees (fold (pay_cash_step event actor) fresh st) = py_employees st"
  by (induction fresh arbitrary: st) (simp_all add: pay_cash_step_def)

lemma find_same_id:
  assumes "distinct (map ps_id slips)" and "x \<in> set slips"
  shows "find (\<lambda>s. ps_id s = ps_id x) (filter P slips) = (if P x then Some x else None)"
proof (cases "find (\<lambda>s. ps_id s = ps_id x) (filter P slips)")
  case None
  then show ?thesis using assms by (auto simp: find_None_iff)
next
  case (Some s)
  then have "s \<in> set (filter P slips)" "ps_id s = ps_id x" by (auto simp: find_Some_iff simp del: set_filter)
  then have "s \<in> set slips" "P s" by auto
  then have "s = x" using assms \<open>ps_id s = ps_id x\<close> by (auto simp: distinct_map inj_on_def)
  then show ?thesis using Some \<open>P s\<close> by simp
qed

lemma markPayslipsCashPaid_cases:
  assumes "markPayslipsCashPaid iso_day now st input = Inr (st', res)" and "distinct (map ps_id (py_slips st))"
  shows "\<exists>run actor paid. py_run st = Some run \<and> runPaysInCash (py_configs st) run \<and> check_cash now input = Inr (actor, paid) \<and>
    py_run st' = py_run st \<and> py_configs st' = py_configs st \<and> py_employees st' = py_employees st \<and>
    (st' = st \<or>
     (list_all (\<lambda>s. ps_employeeCode s \<in> set (ci_employeeCodes input) \<longrightarrow> ps_paidAt s = None \<and> payable s) (py_slips st) \<and>
      res = (length (filter (\<lambda>s. ps_employeeCode s \<in> set (ci_employeeCodes input)) (py_slips st)), False) \<and>
      py_slips st' = map (\<lambda>x. if ps_employeeCode x \<in> set (ci_employeeCodes input)
        then cash_paid (cash_event iso_day input actor paid run) x x else x) (py_slips st)))"
proof -
  let ?P = "\<lambda>s. ps_employeeCode s \<in> set (ci_employeeCodes input)"
  obtain actor paid actorId run where a: "check_cash now input = Inr (actor, paid)" "py_run st = Some run"
    "runPaysInCash (py_configs st) run"
    and cases: "st' = st \<or> (\<not> list_ex (\<lambda>s. ps_paidAt s \<noteq> None \<or> \<not> payable s) (filter ?P (py_slips st)) \<and>
      res = (length (filter ?P (py_slips st)), False) \<and>
      st' = fold (pay_cash_step (cash_event iso_day input actor paid run) actorId) (filter ?P (py_slips st)) st)"
    using assms(1) unfolding markPayslipsCashPaid_def
    by (auto simp: result_simps Let_def split: option.split_asm if_split_asm prod.split_asm)
  have d: "distinct (map ps_id (filter ?P (py_slips st)))" using assms(2) by (simp add: distinct_map_filter)
  have slips: "py_slips (fold (pay_cash_step ev actorId) (filter ?P (py_slips st)) st) =
      map (\<lambda>x. if ?P x then cash_paid ev x x else x) (py_slips st)" for ev
    unfolding fold_cash_slips [OF d] by (rule map_cong [OF refl]) (simp add: find_same_id [OF assms(2)])
  show ?thesis using a cases slips fold_cash_other [of "cash_event iso_day input actor paid run" actorId]
    by (intro exI [of _ run] exI [of _ actor] exI [of _ paid]) (auto simp: list_all_iff list_ex_iff)
qed

section \<open>The payment system\<close>

lemma cash_event_fields [simp]:
  "pv_stage (cash_event iso_day input actor paid run s) = ''RECONCILED''"
  "pv_method (cash_event iso_day input actor paid run s) = Some ''CASH''"
  "pv_amount (cash_event iso_day input actor paid run s) = ps_netAmount s"
  "pv_currency (cash_event iso_day input actor paid run s) = pr_currencyCode run"
  "pv_requestKey (cash_event iso_day input actor paid run s) = ci_requestKey input"
  by (simp_all add: cash_event_def Let_def)

lemma cash_paid_stage: "lastStage (ps_history (cash_paid ev s x)) = pv_stage (ev s)"
  by (simp add: cash_paid_def)

lemma cash_paid_ok:
  assumes "slip_ok (pr_currencyCode run) s" and "ps_paidAt s = None"
  shows "slip_ok (pr_currencyCode run) (cash_paid (cash_event iso_day input actor paid run) s s)"
  using assms by (auto simp: slip_ok_def cash_paid_def evidence_ok_snoc follows_def)

lemma pay_step_ok:
  assumes "pay_step st st'" and "pay_ok st"
  shows "pay_ok st'"
  using assms(1)
proof cases
  case (bank now input res)
  from recordPayrollPayment_cases [OF bank] obtain run slip c where run: "py_run st = Some run"
    and slip: "find (\<lambda>s. ps_employeeCode s = bi_employeeCode input) (py_slips st) = Some slip"
    and upd: "st' = st \<or> (check_amount run slip (bi_amount input) (bi_currency input) = Inr () \<and>
      check_sequence slip (bi_stage input) (snd (snd (snd c))) = Inr () \<and>
      py_slips st' = update_slip (ps_id slip) (add_evidence (bank_event input c)) (py_slips st) \<and> py_run st' = py_run st)"
    by blast
  have mem: "slip \<in> set (py_slips st)" using slip by (auto simp: find_Some_iff)
  have d: "distinct (map ps_id (py_slips st))" and ok: "\<And>s. s \<in> set (py_slips st) \<Longrightarrow> slip_ok (pr_currencyCode run) s"
    using assms(2) run by (auto simp: pay_ok_def list_all_iff)
  show ?thesis
  proof (cases "st' = st")
    case False
    then have ev: "slip_ok (pr_currencyCode run) (add_evidence (bank_event input c) slip)"
      using upd bank_event_follows add_evidence_ok ok mem by blast
    have "slip_ok (pr_currencyCode run) x" if "x \<in> set (py_slips st')" for x
    proof -
      have "x \<in> set (update_slip (ps_id slip) (add_evidence (bank_event input c)) (py_slips st))"
        using that upd False by auto
      from update_slip_set [OF d mem this] show ?thesis using ev ok by blast
    qed
    then show ?thesis using upd False d run by (auto simp: pay_ok_def list_all_iff)
  qed (use assms in simp)
next
  case (cash iso_day now input res)
  have d: "distinct (map ps_id (py_slips st))" using assms(2) by (simp add: pay_ok_def)
  from markPayslipsCashPaid_cases [OF cash d] obtain run actor paid where run: "py_run st = Some run" "py_run st' = py_run st"
    and upd: "st' = st \<or> (list_all (\<lambda>s. ps_employeeCode s \<in> set (ci_employeeCodes input) \<longrightarrow> ps_paidAt s = None \<and> payable s) (py_slips st) \<and>
      py_slips st' = map (\<lambda>x. if ps_employeeCode x \<in> set (ci_employeeCodes input)
        then cash_paid (cash_event iso_day input actor paid run) x x else x) (py_slips st))" by blast
  show ?thesis
  proof (cases "st' = st")
    case False
    then have sl: "py_slips st' = map (\<lambda>x. if ps_employeeCode x \<in> set (ci_employeeCodes input)
        then cash_paid (cash_event iso_day input actor paid run) x x else x) (py_slips st)" using upd by blast
    then have "map ps_id (py_slips st') = map ps_id (py_slips st)" by simp
    moreover have "\<forall>x \<in> set (py_slips st'). slip_ok (pr_currencyCode run) x"
      using assms(2) run upd False by (auto simp: sl pay_ok_def list_all_iff cash_paid_ok)
    ultimately show ?thesis using run d by (simp add: pay_ok_def list_all_iff)
  qed (use assms in simp)
qed

text \<open>
  What the payment component promises, without evidence: for each payslip the stage of its payment. A
  payment moves along the bank's stages, one payslip at a time, or a set of payslips is settled at
  once; what is reconciled stays so.
\<close>

type_synonym ledger = "nat \<rightharpoonup> string"

inductive ledger_step :: "ledger \<Rightarrow> ledger \<Rightarrow> bool" where
  move: "m i = Some s \<Longrightarrow> s' \<in> set (allowed_after s) \<Longrightarrow> ledger_step m (m(i \<mapsto> s'))"
| settle: "(\<And>i. i \<in> I \<Longrightarrow> \<exists>s. m i = Some s \<and> s \<noteq> ''RECONCILED'') \<Longrightarrow>
    ledger_step m (\<lambda>i. if i \<in> I then Some ''RECONCILED'' else m i)"

definition ledger_init :: "ledger \<Rightarrow> bool" where
  "ledger_init m \<longleftrightarrow> ran m \<subseteq> {''NOT_SUBMITTED''}"

definition ledger_of :: "pay_state \<Rightarrow> ledger" where
  "ledger_of st = map_of (map (\<lambda>s. (ps_id s, lastStage (ps_history s))) (py_slips st))"

lemma ledger_of_nth:
  assumes "distinct (map ps_id (py_slips st))" and "s \<in> set (py_slips st)"
  shows "ledger_of st (ps_id s) = Some (lastStage (ps_history s))"
  using assms unfolding ledger_of_def by (intro map_of_is_SomeI) (auto simp: comp_def)

lemma ledger_of_map:
  assumes "\<And>s. ps_id (f s) = ps_id s"
  shows "map_of (map (\<lambda>s. (ps_id s, lastStage (ps_history s))) (map f slips)) i =
    (case find (\<lambda>s. ps_id s = i) slips of None \<Rightarrow> None | Some s \<Rightarrow> Some (lastStage (ps_history (f s))))"
  using assms by (induction slips) auto

lemma ledger_of_find:
  "ledger_of st i = (case find (\<lambda>s. ps_id s = i) (py_slips st) of None \<Rightarrow> None | Some s \<Rightarrow> Some (lastStage (ps_history s)))"
  using ledger_of_map [of "\<lambda>s. s" "py_slips st" i] by (simp add: ledger_of_def)

lemma ledger_settle:
  assumes "\<And>s. s \<in> set slips \<Longrightarrow> P s \<Longrightarrow> lastStage (ps_history s) \<noteq> ''RECONCILED''"
    and "slips = py_slips st" and "py_slips st' = map (\<lambda>s. if P s then g s else s) slips"
    and "\<And>s. ps_id (g s) = ps_id s" and "\<And>s. lastStage (ps_history (g s)) = ''RECONCILED''"
    and d: "distinct (map ps_id slips)"
  shows "ledger_step (ledger_of st) (ledger_of st')"
proof -
  let ?I = "ps_id ` {s \<in> set slips. P s}"
  have "ledger_of st' i = (if i \<in> ?I then Some ''RECONCILED'' else ledger_of st i)" for i
  proof (cases "find (\<lambda>s. ps_id s = i) slips")
    case None
    then have "i \<notin> ?I" unfolding find_None_iff by auto
    then show ?thesis using None assms(2,3,4) ledger_of_map [of "\<lambda>s. if P s then g s else s" slips i]
      by (simp add: ledger_of_def [of st'] ledger_of_find [of st])
  next
    case (Some s)
    then have s: "s \<in> set slips" "ps_id s = i" by (auto simp: find_Some_iff)
    then have "i \<in> ?I \<longleftrightarrow> P s" using d by (auto simp: distinct_map inj_on_def)
    then show ?thesis using Some assms(2-5) ledger_of_map [of "\<lambda>s. if P s then g s else s" slips i]
      by (cases "P s") (simp_all add: ledger_of_def [of st'] ledger_of_find [of st])
  qed
  then have eq: "ledger_of st' = (\<lambda>i. if i \<in> ?I then Some ''RECONCILED'' else ledger_of st i)" by blast
  have "\<exists>s. ledger_of st i = Some s \<and> s \<noteq> ''RECONCILED''" if "i \<in> ?I" for i
    using that assms(1,2) ledger_of_nth d by auto
  then show ?thesis unfolding eq by (rule ledger_step.settle)
qed

lemma ledger_move:
  assumes "slip \<in> set (py_slips st)" and "distinct (map ps_id (py_slips st))"
    and "py_slips st' = update_slip (ps_id slip) (add_evidence e) (py_slips st)"
    and "pv_stage e \<in> set (allowed_after (lastStage (ps_history slip)))"
  shows "ledger_step (ledger_of st) (ledger_of st')"
proof -
  have "ledger_of st' i = ((ledger_of st)(ps_id slip \<mapsto> pv_stage e)) i" for i
  proof (cases "find (\<lambda>s. ps_id s = i) (py_slips st)")
    case None
    then have "i \<noteq> ps_id slip" using assms(1) unfolding find_None_iff by auto
    then show ?thesis using None assms(3)
        ledger_of_map [of "\<lambda>s. if ps_id s = ps_id slip then add_evidence e s else s" "py_slips st" i]
      by (simp add: ledger_of_def [of st'] ledger_of_find [of st] update_slip_def)
  next
    case (Some s)
    then have "ps_id s = i" by (auto simp: find_Some_iff)
    then show ?thesis using Some assms(3)
        ledger_of_map [of "\<lambda>s. if ps_id s = ps_id slip then add_evidence e s else s" "py_slips st" i]
      by (simp add: ledger_of_def [of st'] ledger_of_find [of st] update_slip_def add_evidence_def Let_def)
  qed
  then have "ledger_of st' = (ledger_of st)(ps_id slip \<mapsto> pv_stage e)" by blast
  then show ?thesis using ledger_step.move [of "ledger_of st" "ps_id slip"] ledger_of_nth [OF assms(2,1)] assms(4) by metis
qed

interpretation payments: refinement_map pay_init pay_step pay_ok ledger_init ledger_step ledger_of
proof unfold_locales
  show "pay_ok st" if "pay_init st" for st
    using that by (auto simp: pay_init_def pay_ok_def list_all_iff slip_ok_def evidence_ok_def lastStage_def split: option.split)
  show "pay_ok t" if "pay_ok s" "pay_step s t" for s t
    using pay_step_ok that by blast
  show "ledger_init (ledger_of st)" if "pay_init st" for st
    using that by (auto simp: ledger_init_def ledger_of_def pay_init_def list_all_iff lastStage_def ran_def dest!: map_of_SomeD)
  show "ledger_of s = ledger_of t \<or> ledger_step (ledger_of s) (ledger_of t)" if ok: "pay_ok s" and step: "pay_step s t" for s t
    using step
  proof cases
    case (bank now input res)
    have d: "distinct (map ps_id (py_slips s))" using ok by (simp add: pay_ok_def)
    from recordPayrollPayment_cases [OF bank] obtain slip c where
      slip: "find (\<lambda>s. ps_employeeCode s = bi_employeeCode input) (py_slips s) = Some slip"
      and upd: "t = s \<or> (check_sequence slip (bi_stage input) (snd (snd (snd c))) = Inr () \<and>
        py_slips t = update_slip (ps_id slip) (add_evidence (bank_event input c)) (py_slips s))" by blast
    have "slip \<in> set (py_slips s)" using slip by (auto simp: find_Some_iff)
    moreover have "pv_stage (bank_event input c) = bi_stage input" by (simp add: bank_event_def split: prod.split)
    ultimately show ?thesis using upd ledger_move [OF _ d, of slip t "bank_event input c"]
      by (auto simp: check_sequence_def split: if_splits)
  next
    case (cash iso_day now input res)
    have d: "distinct (map ps_id (py_slips s))" using ok by (simp add: pay_ok_def)
    from markPayslipsCashPaid_cases [OF cash d] obtain run actor paid where run: "py_run s = Some run"
      and upd: "t = s \<or> (list_all (\<lambda>s. ps_employeeCode s \<in> set (ci_employeeCodes input) \<longrightarrow> ps_paidAt s = None \<and> payable s) (py_slips s) \<and>
        py_slips t = map (\<lambda>x. if ps_employeeCode x \<in> set (ci_employeeCodes input)
          then cash_paid (cash_event iso_day input actor paid run) x x else x) (py_slips s))" by blast
    have unpaid: "lastStage (ps_history x) \<noteq> ''RECONCILED''" if "x \<in> set (py_slips s)" "ps_paidAt x = None" for x
      using ok run that by (auto simp: pay_ok_def list_all_iff slip_ok_def split: option.splits)
    show ?thesis
    proof (cases "t = s")
      case False
      then show ?thesis using upd unpaid
        by (intro disjI2 ledger_settle [OF _ refl, where P = "\<lambda>x. ps_employeeCode x \<in> set (ci_employeeCodes input)"
              and g = "\<lambda>x. cash_paid (cash_event iso_day input actor paid run) x x"])
          (auto simp: list_all_iff d cash_paid_stage)
    qed simp
  qed
qed

section \<open>Retries\<close>

lemma check_input_later: "check_input now input = Inr c \<Longrightarrow> now \<le> later \<Longrightarrow> check_input later input = Inr c"
  unfolding check_input_Inr by auto

lemma find_key_snoc:
  "find (\<lambda>e. pv_requestKey e = k) h = None \<Longrightarrow> pv_requestKey e = k \<Longrightarrow> find (\<lambda>e. pv_requestKey e = k) (h @ [e]) = Some e"
  by (induction h) auto

lemma bank_retry:
  assumes "recordPayrollPayment now st input = Inr (st', res)" and "now \<le> later"
  shows "recordPayrollPayment later st' input = Inr (st', res)"
proof -
  obtain run slip c where f: "py_run st = Some run" "\<not> runPaysInCash (py_configs st) run" "pr_status run = ''FINALIZED''"
    "find (\<lambda>s. ps_employeeCode s = bi_employeeCode input) (py_slips st) = Some slip" "check_input now input = Inr c"
    "res = (bi_employeeCode input, bi_stage input)"
    and alt: "(st' = st \<and> find (\<lambda>e. pv_requestKey e = bi_requestKey input) (ps_history slip) = Some (bank_event input c)) \<or>
     (find (\<lambda>e. pv_requestKey e = bi_requestKey input) (ps_history slip) = None \<and>
      py_slips st' = update_slip (ps_id slip) (add_evidence (bank_event input c)) (py_slips st) \<and>
      py_run st' = py_run st \<and> py_configs st' = py_configs st \<and> py_employees st' = py_employees st)"
    using recordPayrollPayment_cases [OF assms(1)] by blast
  obtain actor where actor: "map_of (py_employees st) (fst c) = Some actor"
    using assms(1) f(5) by (auto simp: recordPayrollPayment_def result_simps)
  have c: "check_input later input = Inr c" by (rule check_input_later [OF f(5) assms(2)])
  obtain slip' where slip': "find (\<lambda>s. ps_employeeCode s = bi_employeeCode input) (py_slips st') = Some slip'"
      "find (\<lambda>e. pv_requestKey e = bi_requestKey input) (ps_history slip') = Some (bank_event input c)"
    and same: "py_run st' = py_run st" "py_configs st' = py_configs st" "py_employees st' = py_employees st"
  proof (cases "st' = st")
    case True
    have "find (\<lambda>e. pv_requestKey e = bi_requestKey input) (ps_history slip) = Some (bank_event input c)"
    proof (rule ccontr)
      assume no: "\<not> ?thesis"
      then have "map (ps_history) (py_slips st) = map ps_history (update_slip (ps_id slip) (add_evidence (bank_event input c)) (py_slips st))"
        using alt True by auto
      moreover have "slip \<in> set (py_slips st)" using f(4) by (auto simp: find_Some_iff)
      ultimately have "ps_history slip = ps_history (add_evidence (bank_event input c) slip)"
        by (auto simp: update_slip_def)
      then show False by (simp add: add_evidence_def Let_def split: if_splits)
    qed
    then show ?thesis using True f(4) that by simp
  next
    case False
    have "pv_requestKey (bank_event input c) = bi_requestKey input" by (simp add: bank_event_def split: prod.split)
    then have "find (\<lambda>e. pv_requestKey e = bi_requestKey input) (ps_history (add_evidence (bank_event input c) slip)) =
        Some (bank_event input c)"
      using alt False find_key_snoc by (auto simp: add_evidence_def Let_def)
    moreover have "find (\<lambda>s. ps_employeeCode s = bi_employeeCode input) (py_slips st') = Some (add_evidence (bank_event input c) slip)"
      using alt False f(4) by (auto simp: update_slip_def find_map_same add_evidence_def Let_def)
    ultimately show ?thesis using alt False that by blast
  qed
  then show ?thesis using f c actor by (simp add: recordPayrollPayment_def)
qed

lemma check_cash_later: "check_cash now input = Inr c \<Longrightarrow> now \<le> later \<Longrightarrow> check_cash later input = Inr c"
  by (auto simp: check_cash_def split: option.split_asm if_split_asm)

lemma fold_cash_audit:
  "py_audit (fold (pay_cash_step ev i) fs st) = py_audit st @ map (\<lambda>s. (ps_id s, i, ''PAYMENT_CASH_PAID'')) fs"
  by (induction fs arbitrary: st) (simp_all add: pay_cash_step_def)

lemma cash_retry:
  assumes "markPayslipsCashPaid iso_day now st input = Inr (st', n, b)" and "now \<le> later"
    and "distinct (map ps_id (py_slips st))"
  shows "markPayslipsCashPaid iso_day later st' input = Inr (st', n, True)"
proof -
  let ?P = "\<lambda>s. ps_employeeCode s \<in> set (ci_employeeCodes input)"
  obtain run actor paid where r: "py_run st = Some run" "runPaysInCash (py_configs st) run" "check_cash now input = Inr (actor, paid)"
    and same: "py_run st' = py_run st" "py_configs st' = py_configs st" "py_employees st' = py_employees st"
    and alt: "st' = st \<or> py_slips st' = map (\<lambda>x. if ?P x then cash_paid (cash_event iso_day input actor paid run) x x else x) (py_slips st)"
    using markPayslipsCashPaid_cases [OF assms(1,3)] by blast
  obtain i where g: "map_of (py_employees st) actor = Some i" "pr_status run = ''FINALIZED''"
    and codes: "list_all (\<lambda>c. list_ex (\<lambda>s. ps_employeeCode s = c) (filter ?P (py_slips st))) (ci_employeeCodes input)"
    and n: "n = length (filter ?P (py_slips st))"
    and keyed: "st' = st \<Longrightarrow> filter ?P (py_slips st) \<noteq> [] \<Longrightarrow> list_all (hasKey (ci_requestKey input)) (filter ?P (py_slips st))"
  proof -
    obtain i where "map_of (py_employees st) actor = Some i" "pr_status run = ''FINALIZED''"
      "list_all (\<lambda>c. list_ex (\<lambda>s. ps_employeeCode s = c) (filter ?P (py_slips st))) (ci_employeeCodes input)"
      "n = length (filter ?P (py_slips st))"
      and k: "list_all (hasKey (ci_requestKey input)) (filter ?P (py_slips st)) \<or>
        st' = fold (pay_cash_step (cash_event iso_day input actor paid run) i) (filter ?P (py_slips st)) st"
      using assms(1) r by (auto simp: markPayslipsCashPaid_def result_simps Let_def split: if_split_asm)
    moreover have "list_all (hasKey (ci_requestKey input)) (filter ?P (py_slips st))"
      if same_state: "st' = st" and some: "filter ?P (py_slips st) \<noteq> []"
      using k
    proof
      assume "st' = fold (pay_cash_step (cash_event iso_day input actor paid run) i) (filter ?P (py_slips st)) st"
      then have "py_audit st = py_audit st @ map (\<lambda>s. (ps_id s, i, ''PAYMENT_CASH_PAID'')) (filter ?P (py_slips st))"
        using same_state fold_cash_audit by metis
      then show ?thesis using some by simp
    qed
    ultimately show ?thesis using that by blast
  qed
  have slips: "list_all (hasKey (ci_requestKey input)) (filter ?P (py_slips st')) \<and>
      map ps_employeeCode (py_slips st') = map ps_employeeCode (py_slips st)"
  proof (cases "st' = st")
    case True
    then show ?thesis using keyed by (cases "filter ?P (py_slips st) = []") auto
  next
    case False
    then show ?thesis using alt by (auto simp: list_all_iff hasKey_def cash_paid_def comp_def)
  qed
  have filt: "map ps_employeeCode (filter ?P (py_slips t)) = filter (\<lambda>c. c \<in> set (ci_employeeCodes input)) (map ps_employeeCode (py_slips t))" for t
    by (simp add: filter_map comp_def)
  have ex: "list_ex (\<lambda>s. ps_employeeCode s = c) fs \<longleftrightarrow> c \<in> set (map ps_employeeCode fs)" for c fs
    by (auto simp: list_ex_iff)
  have same_codes: "map ps_employeeCode (filter ?P (py_slips st')) = map ps_employeeCode (filter ?P (py_slips st))"
    using slips filt [of st] filt [of st'] by simp
  have "list_all (\<lambda>c. list_ex (\<lambda>s. ps_employeeCode s = c) (filter ?P (py_slips st'))) (ci_employeeCodes input)"
    using codes unfolding ex same_codes .
  moreover have "n = length (filter ?P (py_slips st'))" using n arg_cong [OF same_codes, of length] by simp
  ultimately show ?thesis
    using r g same slips check_cash_later [OF r(3) assms(2)] by (simp add: markPayslipsCashPaid_def Let_def)
qed

section \<open>Properties\<close>

definition sample_slip :: payslip where
  "sample_slip = \<lparr>ps_id = 1, ps_employeeCode = ''E1'', ps_netAmount = ''5'', ps_status = ''FINALIZED'', ps_paidAt = None,
     ps_paymentReference = None, ps_history = []\<rparr>"

definition sample_pay :: "bool \<Rightarrow> pay_state" where
  "sample_pay in_cash = \<lparr>py_employees = [(''HR1'', 9)], py_configs = [(1, in_cash)],
     py_run = Some \<lparr>pr_status = ''FINALIZED'', pr_currencyCode = ''PKR'', pr_configVersion = 1\<rparr>,
     py_slips = [sample_slip], py_audit = []\<rparr>"

definition sample_cash :: cash_input where
  "sample_cash = \<lparr>ci_employeeCodes = [''E1''], ci_actorCode = Some ''HR1'', ci_paidOn = Some 40, ci_receiptNumber = Some ''R'',
     ci_requestKey = ''k''\<rparr>"

definition sample_bank :: bank_input where
  "sample_bank = \<lparr>bi_employeeCode = ''E1'', bi_actorCode = Some ''HR1'', bi_stage = ''SUBMITTED'', bi_reference = Some ''B'',
     bi_evidenceRef = Some ''F'', bi_amount = ''5'', bi_currency = ''PKR'', bi_occurredAt = Some 40, bi_requestKey = ''k''\<rparr>"

lemmas sample_pay_defs = sample_pay_def sample_slip_def sample_cash_def sample_bank_def

lemma sample_init: "pay_init (sample_pay b)"
  by (simp add: pay_init_def sample_pay_defs)

lemma sample_paid: "\<exists>st' n. markPayslipsCashPaid (\<lambda>_. []) 50 (sample_pay True) sample_cash = Inr (st', n, False) \<and>
    py_run st' = py_run (sample_pay True) \<and> (\<exists>s. py_slips st' = [s] \<and> ps_paidAt s = Some 40)"
  by (simp add: markPayslipsCashPaid_def check_cash_def blank_def js_trim_def is_space_def runPaysInCash_def newest_config_def
      hasKey_def payable_def sample_pay_defs Let_def pay_cash_step_def update_slip_def cash_event_def)

lemma sample_pay_submitted: "\<exists>st' res. recordPayrollPayment 50 (sample_pay False) sample_bank = Inr (st', res)"
proof -
  have "decimalToMinor (Some ''5'') (Some ''PKR'') = Inr 500"
    by (simp add: decimalToMinor_def exponentOf_def CURRENCY_EXPONENT_def js_toUpper_def upper_char_def decimal_eval)
  moreover have "\<not> number_nonpos ''5''" by (simp add: number_nonpos_def decimal_eval)
  ultimately show ?thesis
    by (simp add: recordPayrollPayment_def check_input_def blank_def js_trim_def is_space_def runPaysInCash_def newest_config_def
        check_amount_def check_sequence_def payable_def allowed_after_def lastStage_def sample_pay_defs)
qed

text \<open>C32. Payments refine a ledger of stages: whatever the two commands record on the payslips of a run, with
  all evidence, retries and refusals, is for each payslip a walk along the bank's stages from
  \<open>NOT_SUBMITTED\<close>, or one settlement in cash of payslips not yet reconciled. In particular nothing
  leaves \<open>RECONCILED\<close>.\<close>

theorem payments_refine_ledger:
  assumes "reach pay_init pay_step st" and "pay_step\<^sup>*\<^sup>* st st'"
  shows "reach ledger_init ledger_step (ledger_of st) \<and> ledger_step\<^sup>*\<^sup>* (ledger_of st) (ledger_of st')"
  using payments.reach_abs [OF assms(1)] payments.abs_steps [OF assms(2,1)] by blast

theorem payments_refine_ledger_witness:
  "\<exists>st'. pay_step (sample_pay True) st' \<and> ledger_step\<^sup>*\<^sup>* (ledger_of (sample_pay True)) (ledger_of st')"
proof -
  obtain st' n where s: "markPayslipsCashPaid (\<lambda>_. []) 50 (sample_pay True) sample_cash = Inr (st', n, False)"
    using sample_paid by blast
  have step: "pay_step (sample_pay True) st'" by (rule pay_step.cash [OF s])
  have r: "reach pay_init pay_step (sample_pay True)" by (rule reach.start) (rule sample_init)
  show ?thesis using payments_refine_ledger [OF r, of st'] step by (intro exI [of _ st']) (simp add: r_into_rtranclp)
qed

lemma paid_slip_kept:
  assumes "pay_step st st'" and "pay_ok st" and "s \<in> set (py_slips st)" and "ps_paidAt s \<noteq> None"
  shows "s \<in> set (py_slips st')"
  using assms(1)
proof cases
  case (bank now input res)
  have d: "distinct (map ps_id (py_slips st))" using assms(2) by (simp add: pay_ok_def)
  obtain run slip c where run: "py_run st = Some run"
    and slip: "find (\<lambda>s. ps_employeeCode s = bi_employeeCode input) (py_slips st) = Some slip"
    and upd: "st' = st \<or> (check_sequence slip (bi_stage input) (snd (snd (snd c))) = Inr () \<and>
      py_slips st' = update_slip (ps_id slip) (add_evidence (bank_event input c)) (py_slips st))"
    using recordPayrollPayment_cases [OF bank] by blast
  have mem: "slip \<in> set (py_slips st)" using slip by (auto simp: find_Some_iff)
  show ?thesis
  proof (cases "st' = st")
    case False
    then have "lastStage (ps_history slip) \<noteq> ''RECONCILED''"
      using upd by (auto simp: check_sequence_def split: if_splits)
    moreover have "lastStage (ps_history s) = ''RECONCILED''"
      using assms run by (auto simp: pay_ok_def list_all_iff slip_ok_def split: option.splits)
    ultimately have "ps_id s \<noteq> ps_id slip" using d mem assms(3) by (auto simp: distinct_map inj_on_def)
    then show ?thesis using upd False assms(3) by (auto simp: update_slip_def intro: rev_image_eqI)
  qed (use assms in simp)
next
  case (cash iso_day now input res)
  have d: "distinct (map ps_id (py_slips st))" using assms(2) by (simp add: pay_ok_def)
  from markPayslipsCashPaid_cases [OF cash d] show ?thesis
    using assms(3,4) by (auto simp: list_all_iff intro!: rev_image_eqI)
qed

text \<open>C33. A payslip is paid exactly when its evidence ends in a reconciliation of its net pay: on every reachable
  state the evidence of each payslip is a proper sequence whose amounts equal the net pay in the
  currency of the run, and \<open>paidAt\<close> is the time of its final reconciliation. A paid payslip is never
  touched again, so nobody is paid twice.\<close>

theorem payslips_paid_once:
  assumes "reach pay_init pay_step st" and "py_run st = Some run" and "s \<in> set (py_slips st)"
  shows "slip_ok (pr_currencyCode run) s \<and>
    (ps_paidAt s \<noteq> None \<longrightarrow> (\<forall>st'. pay_step\<^sup>*\<^sup>* st st' \<longrightarrow> s \<in> set (py_slips st')))"
proof -
  have ok: "pay_ok st" by (rule payments.reach_inv [OF assms(1)])
  have "s \<in> set (py_slips st')" if paid: "ps_paidAt s \<noteq> None" and steps: "pay_step\<^sup>*\<^sup>* st st'" for st'
    using steps
  proof (induction rule: rtranclp_induct)
    case (step t u)
    have "pay_ok t" by (rule payments.reach_steps [OF step.hyps(1) assms(1)])
    then show ?case using step paid_slip_kept paid by blast
  qed (rule assms(3))
  then show ?thesis using ok assms(2,3) by (auto simp: pay_ok_def list_all_iff)
qed

theorem payslips_paid_once_witness:
  "\<exists>st' s. pay_step (sample_pay True) st' \<and> py_slips st' = [s] \<and> ps_paidAt s = Some 40 \<and> slip_ok ''PKR'' s"
proof -
  obtain st' n s where p: "markPayslipsCashPaid (\<lambda>_. []) 50 (sample_pay True) sample_cash = Inr (st', n, False)"
    and s: "py_run st' = py_run (sample_pay True)" "py_slips st' = [s]" "ps_paidAt s = Some 40"
    using sample_paid by blast
  have step: "pay_step (sample_pay True) st'" by (rule pay_step.cash [OF p])
  have "reach pay_init pay_step st'"
    using sample_init step by (metis reach.start reach.more)
  from payslips_paid_once [OF this, of _ s] s have "slip_ok ''PKR'' s" by (simp add: sample_pay_def)
  then show ?thesis using step s by blast
qed

text \<open>Recording a payment can be retried: repeating a bank command that succeeded, or a cash command that
  succeeded, at any later time succeeds with the same answer and changes nothing.\<close>

theorem payment_retry_safe:
  assumes "distinct (map ps_id (py_slips st))" and "now \<le> later"
  shows "(recordPayrollPayment now st input = Inr (st', res) \<longrightarrow> recordPayrollPayment later st' input = Inr (st', res)) \<and>
    (markPayslipsCashPaid iso_day now st cash = Inr (st', n, b) \<longrightarrow>
      markPayslipsCashPaid iso_day later st' cash = Inr (st', n, True))"
  using bank_retry cash_retry assms by blast

theorem payment_retry_safe_witness:
  "(\<exists>st' res. recordPayrollPayment 50 (sample_pay False) sample_bank = Inr (st', res) \<and>
      recordPayrollPayment 60 st' sample_bank = Inr (st', res)) \<and>
   (\<exists>st' n. markPayslipsCashPaid (\<lambda>_. []) 50 (sample_pay True) sample_cash = Inr (st', n, False) \<and>
      markPayslipsCashPaid (\<lambda>_. []) 60 st' sample_cash = Inr (st', n, True))"
proof -
  have d: "distinct (map ps_id (py_slips (sample_pay b)))" for b by (simp add: sample_pay_defs)
  have later: "(50::int) \<le> 60" by simp
  show ?thesis
    using payment_retry_safe [OF d later] sample_paid sample_pay_submitted by blast
qed

end
