(* ===== verification/BankFile.thy ===== *)
theory BankFile
  imports Proration Payments
begin

text \<open>
  The disbursement files of a finalised run: \<^verbatim>\<open>src/src/lib/bankFileFormats.js\<close>, which lays the rows out as a NACHA file or
  as a CSV text, and \<^verbatim>\<open>src/src/services/bankFileService.js\<close>, which chooses the rows. Texts are ASCII, amounts
  are minor units, and a missing text is \<open>None\<close>.
\<close>

section \<open>Fields\<close>

definition RECORD_LENGTH :: nat where "RECORD_LENGTH = 94"
definition BLOCKING_FACTOR :: nat where "BLOCKING_FACTOR = 10"

definition opt_text :: "string option \<Rightarrow> string" where
  "opt_text s = (case s of None \<Rightarrow> [] | Some t \<Rightarrow> t)"

text \<open>\<^verbatim>\<open>a || b\<close> on texts: the empty text counts as absent.\<close>

definition js_or :: "string option \<Rightarrow> string \<Rightarrow> string" where
  "js_or a b = (if opt_text a = [] then b else opt_text a)"

definition digitsOnly :: "string \<Rightarrow> string" where
  "digitsOnly s = filter is_digit s"

definition padRight :: "string \<Rightarrow> nat \<Rightarrow> string" where
  "padRight s n = (let t = take n s in t @ replicate (n - length t) CHR '' '')"

definition slice_end :: "nat \<Rightarrow> string \<Rightarrow> string" where
  "slice_end n s = drop (length s - n) s"

definition numField :: "string \<Rightarrow> nat \<Rightarrow> string" where
  "numField s n = pad_start n CHR ''0'' (slice_end n (digitsOnly s))"

definition alnum_char :: "char \<Rightarrow> bool" where
  "alnum_char c \<longleftrightarrow> is_digit c \<or> c = CHR '' '' \<or> (65 \<le> (of_char c :: nat) \<and> (of_char c :: nat) \<le> 90)"

definition alnumUpper :: "string \<Rightarrow> nat \<Rightarrow> string" where
  "alnumUpper s n = padRight (filter alnum_char (js_toUpper s)) n"

definition transactionCode :: "string option \<Rightarrow> string" where
  "transactionCode accountType = (if take 3 (js_toUpper (opt_text accountType)) = ''SAV'' then ''32'' else ''22'')"

definition two :: "int \<Rightarrow> string" where
  "two n = pad_start 2 CHR ''0'' (show_int n)"

definition yymmdd :: "int \<Rightarrow> string" where
  "yymmdd date = (case civil date of (y, m, d) \<Rightarrow> slice_end 2 (show_int y) @ two m @ two d)"

definition hhmm :: "int \<Rightarrow> string" where
  "hhmm date = two (date mod day_ms div 3600000) @ two (date mod 3600000 div 60000)"

section \<open>The NACHA file\<close>

record bank_row =
  br_employeeId :: "string option"
  br_name :: "string option"
  br_routingNumber :: "string option"
  br_accountNumber :: "string option"
  br_accountType :: "string option"
  br_amountMinor :: int
  br_currency :: "string option"

record file_opts =
  fo_companyName :: "string option"
  fo_companyId :: "string option"
  fo_originName :: "string option"
  fo_originatingDfi :: "string option"
  fo_immediateDestination :: "string option"
  fo_immediateOrigin :: "string option"
  fo_immediateDestinationName :: "string option"
  fo_entryDescription :: "string option"
  fo_effectiveDate :: "int option"
  fo_fileCreation :: "int option"
  fo_currency :: "string option"

definition odfi_of :: "file_opts \<Rightarrow> string" where
  "odfi_of opts = numField (js_or (fo_originatingDfi opts) (js_or (fo_immediateOrigin opts) ''000000000'')) 9"

definition file_header :: "file_opts \<Rightarrow> int \<Rightarrow> string" where
  "file_header opts created =
    (let immediateDest = (if opt_text (fo_immediateDestination opts) \<noteq> [] then padRight (opt_text (fo_immediateDestination opts)) 10
           else '' '' @ numField (js_or (fo_originatingDfi opts) ''000000000'') 9);
         immediateOrig = (if opt_text (fo_immediateOrigin opts) \<noteq> [] then padRight (opt_text (fo_immediateOrigin opts)) 10
           else '' '' @ numField (js_or (fo_companyId opts) (odfi_of opts)) 9)
     in ''1'' @ ''01'' @ immediateDest @ immediateOrig @ yymmdd created @ hhmm created @ ''A'' @ ''094'' @ ''10'' @ ''1'' @
        alnumUpper (js_or (fo_immediateDestinationName opts) (js_or (fo_companyName opts) ''BANK'')) 23 @
        alnumUpper (js_or (fo_originName opts) (js_or (fo_companyName opts) ''COMPANY'')) 23 @ padRight [] 8)"

definition batch_header :: "file_opts \<Rightarrow> int \<Rightarrow> int \<Rightarrow> string" where
  "batch_header opts created effective =
    ''5'' @ ''220'' @ alnumUpper (js_or (fo_companyName opts) ''COMPANY'') 16 @ padRight [] 20 @
    padRight (js_or (fo_companyId opts) (odfi_of opts)) 10 @ ''PPD'' @ alnumUpper (js_or (fo_entryDescription opts) ''PAYROLL'') 10 @
    yymmdd created @ yymmdd effective @ ''   '' @ ''1'' @ take 8 (odfi_of opts) @ numField ''1'' 7"

definition rdfi_of :: "bank_row \<Rightarrow> string" where
  "rdfi_of row = numField (opt_text (br_routingNumber row)) 9"

definition entry_detail :: "file_opts \<Rightarrow> nat \<Rightarrow> bank_row \<Rightarrow> string" where
  "entry_detail opts i row =
    ''6'' @ transactionCode (br_accountType row) @ take 8 (rdfi_of row) @ take 1 (drop 8 (rdfi_of row)) @
    padRight (opt_text (br_accountNumber row)) 17 @ numField (show_int (br_amountMinor row)) 10 @
    padRight (opt_text (br_employeeId row)) 15 @ alnumUpper (js_or (br_name row) []) 22 @ ''  '' @ ''0'' @
    take 8 (odfi_of opts) @ numField (show_nat (i + 1)) 7"

text \<open>Both control records carry the sum of the routing numbers and of the amounts.\<close>

definition entry_hash :: "bank_row list \<Rightarrow> nat" where
  "entry_hash rows = sum_list (map (\<lambda>row. parse_nat (take 8 (rdfi_of row))) rows)"

definition hash_field :: "bank_row list \<Rightarrow> string" where
  "hash_field rows = pad_start 10 CHR ''0'' (show_nat (entry_hash rows mod 10 ^ 10))"

definition credit_total :: "bank_row list \<Rightarrow> int" where
  "credit_total rows = sum_list (map br_amountMinor rows)"

definition batch_control :: "file_opts \<Rightarrow> bank_row list \<Rightarrow> string" where
  "batch_control opts rows =
    ''8'' @ ''220'' @ numField (show_nat (length rows)) 6 @ hash_field rows @ numField ''0'' 12 @
    numField (show_int (credit_total rows)) 12 @ padRight (js_or (fo_companyId opts) (odfi_of opts)) 10 @ padRight [] 19 @
    padRight [] 6 @ take 8 (odfi_of opts) @ numField ''1'' 7"

definition file_control :: "bank_row list \<Rightarrow> nat \<Rightarrow> string" where
  "file_control rows recordsBeforeFileCtrl =
    ''9'' @ numField ''1'' 6 @ numField (show_nat ((recordsBeforeFileCtrl + (BLOCKING_FACTOR - 1)) div BLOCKING_FACTOR)) 6 @
    numField (show_nat (length rows)) 8 @ hash_field rows @ numField ''0'' 12 @ numField (show_int (credit_total rows)) 12 @
    padRight [] 39"

text \<open>The loop that fills the last block with records of nines.\<close>

function pad_block :: "string list \<Rightarrow> string list" where
  "pad_block ls = (if length ls mod BLOCKING_FACTOR \<noteq> 0 then pad_block (ls @ [replicate RECORD_LENGTH CHR ''9'']) else ls)"
  by pat_completeness auto
termination
proof (relation "measure (\<lambda>ls. (BLOCKING_FACTOR - length ls mod BLOCKING_FACTOR) mod BLOCKING_FACTOR)")
  fix ls :: "string list"
  assume "length ls mod BLOCKING_FACTOR \<noteq> 0"
  moreover have "length ls mod 10 < 10" by simp
  ultimately show "(ls @ [replicate RECORD_LENGTH CHR ''9''], ls)
      \<in> measure (\<lambda>ls. (BLOCKING_FACTOR - length ls mod BLOCKING_FACTOR) mod BLOCKING_FACTOR)"
    by (auto simp: BLOCKING_FACTOR_def mod_Suc)
qed simp

declare pad_block.simps [simp del]

definition nacha_records :: "bank_row list \<Rightarrow> file_opts \<Rightarrow> int \<Rightarrow> string list" where
  "nacha_records rows opts now =
    (let created = (case fo_fileCreation opts of None \<Rightarrow> now | Some t \<Rightarrow> t);
         effective = (case fo_effectiveDate opts of None \<Rightarrow> created | Some t \<Rightarrow> t);
         ls = [file_header opts created, batch_header opts created effective] @
           map (\<lambda>(i, row). entry_detail opts i row) (enumerate 0 rows) @ [batch_control opts rows]
     in pad_block (ls @ [file_control rows (length ls + 1)]))"

fun join :: "string \<Rightarrow> string list \<Rightarrow> string" where
  "join sep [] = []"
| "join sep [s] = s"
| "join sep (s # t # ss) = s @ sep @ join sep (t # ss)"

definition buildNachaFile :: "bank_row list \<Rightarrow> file_opts \<Rightarrow> int \<Rightarrow> string" where
  "buildNachaFile rows opts now = join [CHR 0x0A] (nacha_records rows opts now)"

section \<open>The CSV file\<close>

definition csv_special :: "char \<Rightarrow> bool" where
  "csv_special c \<longleftrightarrow> c = CHR 0x22 \<or> c = CHR '','' \<or> c = CHR 0x0A"

definition csvEscape :: "string \<Rightarrow> string" where
  "csvEscape s =
    (if list_ex csv_special s
     then [CHR 0x22] @ concat (map (\<lambda>c. if c = CHR 0x22 then [CHR 0x22, CHR 0x22] else [c]) s) @ [CHR 0x22] else s)"

definition csv_line :: "string list \<Rightarrow> string" where
  "csv_line fs = join '','' (map csvEscape fs)"

definition CSV_HEADER :: "string list" where
  "CSV_HEADER = [''employee_code'', ''routing_number'', ''account_number'', ''account_type'', ''currency'', ''amount'']"

definition csv_fields :: "file_opts \<Rightarrow> bank_row \<Rightarrow> hr_error + string list" where
  "csv_fields opts r =
    (let currency = js_or (br_currency r) (js_or (fo_currency opts) ''USD'') in
     rbind (minorToWireDecimal (JBigInt (br_amountMinor r)) (Some currency)) (\<lambda>amount.
       Inr [opt_text (br_employeeId r), opt_text (br_routingNumber r), opt_text (br_accountNumber r),
         js_toUpper (js_or (br_accountType r) ''CHECKING''), currency, amount]))"

definition buildBankCsv :: "bank_row list \<Rightarrow> file_opts \<Rightarrow> hr_error + string" where
  "buildBankCsv rows opts =
    rbind (rmap (csv_fields opts) rows) (\<lambda>body. Inr (join [CHR 0x0A] (join '','' CSV_HEADER # map csv_line body)))"

text \<open>The registry: the name of a format selects its builder, extension and content type.\<close>

datatype builder = Nacha | Csv

definition FORMATTERS :: "(string \<times> builder \<times> string \<times> string) list" where
  "FORMATTERS = [(''nacha'', Nacha, ''ach'', ''text/plain''), (''ach'', Nacha, ''ach'', ''text/plain''), (''csv'', Csv, ''csv'', ''text/csv'')]"

definition isSupportedFormat :: "string \<Rightarrow> bool" where
  "isSupportedFormat format \<longleftrightarrow> js_toLower format \<in> fst ` set FORMATTERS"

definition build :: "builder \<Rightarrow> bank_row list \<Rightarrow> file_opts \<Rightarrow> int \<Rightarrow> hr_error + string" where
  "build b rows opts now = (case b of Nacha \<Rightarrow> Inr (buildNachaFile rows opts now) | Csv \<Rightarrow> buildBankCsv rows opts)"

section \<open>The rows of a run\<close>

definition maskAccount :: "string \<Rightarrow> string" where
  "maskAccount s = (if length s \<le> 4 then ''****'' else ''****'' @ slice_end 4 s)"

record bank_detail =
  bd_accountNumber :: "string option"
  bd_routingNumber :: "string option"
  bd_accountType :: "string option"
  bd_isPrimary :: bool

record export_slip = payslip +
  es_banks :: "bank_detail list"

record export_run = pay_run +
  xr_id :: nat
  xr_tenantId :: string
  xr_countryCode :: string
  xr_periodEnd :: int

definition primaryBankOf :: "export_slip \<Rightarrow> bank_detail option" where
  "primaryBankOf slip = find bd_isPrimary (es_banks slip)"

text \<open>\<^verbatim>\<open>x === 0\<close> compares types as well as values.\<close>

definition equals_zero :: "js_value \<Rightarrow> bool" where
  "equals_zero v \<longleftrightarrow> v = JNumber 0"

definition export_row :: "export_run \<Rightarrow> export_slip \<Rightarrow> bank_detail \<Rightarrow> int \<Rightarrow> bank_row" where
  "export_row run slip bank amount =
    \<lparr>br_employeeId = Some (ps_employeeCode slip), br_name = Some (ps_employeeCode slip), br_routingNumber = bd_routingNumber bank,
     br_accountNumber = bd_accountNumber bank, br_accountType = Some (js_or (bd_accountType bank) ''CHECKING''),
     br_amountMinor = amount, br_currency = Some (js_or (Some (pr_currencyCode run)) ''USD'')\<rparr>"

text \<open>The body of the loop over payslips; a code of an employee that is missing is the empty text.\<close>

definition export_step :: "export_run \<Rightarrow> export_slip \<Rightarrow> bank_row list \<times> string list \<Rightarrow> hr_error + bank_row list \<times> string list" where
  "export_step run slip acc =
    (case acc of (rows, missing) \<Rightarrow>
       rbind (decimalToMinor (Some (ps_netAmount slip)) (Some (pr_currencyCode run))) (\<lambda>amount.
       rbind (ensure (0 \<le> amount) (AppError 422 ''HR-1212'')) (\<lambda>_.
       if equals_zero (JBigInt amount) \<or> ps_paidAt slip \<noteq> None then Inr (rows, missing)
       else rbind (ensure (lastStage (ps_history slip) \<notin> {''SUBMITTED'', ''ACKNOWLEDGED''}) (AppError 409 ''HR-1211'')) (\<lambda>_.
         case primaryBankOf slip of
           None \<Rightarrow> Inr (rows, missing @ [js_or (Some (ps_employeeCode slip)) ''Employee code required''])
         | Some bank \<Rightarrow>
             if opt_text (bd_accountNumber bank) = [] \<or> opt_text (bd_routingNumber bank) = []
             then Inr (rows, missing @ [js_or (Some (ps_employeeCode slip)) ''Employee code required''])
             else
               rbind (ensure (ps_employeeCode slip \<noteq> []) (AppError 422 ''HR-1212'')) (\<lambda>_.
               rbind (ensure (ps_status slip \<in> {''FINALIZED'', ''DISTRIBUTED''}) (AppError 409 ''HR-1211'')) (\<lambda>_.
                 Inr (rows @ [export_row run slip bank amount], missing)))))))"

record disbursement =
  di_format :: string
  di_filename :: string
  di_contentType :: string
  di_content :: string
  di_rowCount :: nat
  di_totalMinor :: int
  di_currency :: string
  di_masked :: "string list"

text \<open>The caller's originator data override the options derived from the run.\<close>

definition export_opts :: "file_opts \<Rightarrow> export_run \<Rightarrow> file_opts" where
  "export_opts origin run =
    \<lparr>fo_companyName = Some (js_or (fo_companyName origin) (js_or (Some (xr_tenantId run)) ''COMPANY'')),
     fo_companyId = fo_companyId origin, fo_originName = fo_originName origin, fo_originatingDfi = fo_originatingDfi origin,
     fo_immediateDestination = fo_immediateDestination origin, fo_immediateOrigin = fo_immediateOrigin origin,
     fo_immediateDestinationName = None, fo_entryDescription = Some (js_or (fo_entryDescription origin) ''PAYROLL''),
     fo_effectiveDate = Some (case fo_effectiveDate origin of None \<Rightarrow> xr_periodEnd run | Some t \<Rightarrow> t), fo_fileCreation = None,
     fo_currency = Some (js_or (Some (pr_currencyCode run)) ''USD'')\<rparr>"

definition generateBankDisbursementFile :: "nat \<Rightarrow> export_run option \<Rightarrow> export_slip list \<Rightarrow> string \<Rightarrow> file_opts \<Rightarrow> int \<Rightarrow> hr_error + disbursement" where
  "generateBankDisbursementFile runId found payslips format origin now =
    (let fmt = js_toLower format in
     rbind (require (map_of FORMATTERS fmt) (AppError 400 ''HR-1213'')) (\<lambda>(builder, ext, contentType).
     rbind (require found (AppError 404 ''HR-1210'')) (\<lambda>run.
     rbind (ensure (pr_status run = ''FINALIZED'') (AppError 409 ''HR-1211'')) (\<lambda>_.
     rbind (ensure (fmt = ''csv'' \<or> xr_countryCode run = ''US'') (AppError 400 ''HR-1213'')) (\<lambda>_.
     rbind (rfold (export_step run) payslips ([], [])) (\<lambda>(rows, missing).
     rbind (ensure (missing = []) (AppError 422 ''HR-1212'')) (\<lambda>_.
     rbind (build builder rows (export_opts origin run) now) (\<lambda>content.
     rbind (money_sum (map (\<lambda>r. JBigInt (br_amountMinor r)) rows)) (\<lambda>totalMinor.
       Inr \<lparr>di_format = fmt, di_filename = ''disbursement-run-'' @ show_nat runId @ ''.'' @ ext, di_contentType = contentType,
         di_content = content, di_rowCount = length rows, di_totalMinor = totalMinor,
         di_currency = js_or (Some (pr_currencyCode run)) ''USD'',
         di_masked = map (\<lambda>r. maskAccount (opt_text (br_accountNumber r))) rows\<rparr>)))))))))"

section \<open>Widths\<close>

named_theorems width_simps \<open>the length of a field\<close>

lemma length_padRight [width_simps]: "length (padRight s n) = n"
  by (simp add: padRight_def Let_def)

lemma length_numField [width_simps]: "length (numField s n) = n"
  by (simp add: numField_def slice_end_def length_pad_start)

lemma length_alnumUpper [width_simps]: "length (alnumUpper s n) = n"
  by (simp add: alnumUpper_def length_padRight)

lemma length_transactionCode [width_simps]: "length (transactionCode t) = 2"
  by (simp add: transactionCode_def)

lemma length_rdfi [width_simps]: "length (rdfi_of r) = 9"
  by (simp add: rdfi_of_def length_numField)

lemma length_odfi [width_simps]: "length (odfi_of opts) = 9"
  by (simp add: odfi_of_def length_numField)

text \<open>The calendar gives years of at least two digits from 1970 on, and two-digit months and days.\<close>

lemma show_nat_length: "n < 10 ^ k \<Longrightarrow> 0 < k \<Longrightarrow> length (show_nat n) \<le> k"
proof (induction k arbitrary: n)
  case (Suc k)
  show ?case
  proof (cases "n < 10")
    case False
    then have "0 < k" "n div 10 < 10 ^ k" using Suc.prems(1) by (auto intro: Suc_leI gr0I)
    then have "length (show_nat (n div 10)) \<le> k" using Suc.IH by blast
    then show ?thesis using False by (subst show_nat.simps) simp
  qed (subst show_nat.simps, simp)
qed simp

lemma show_nat_two_digits: "10 \<le> n \<Longrightarrow> 2 \<le> length (show_nat n)"
proof -
  assume n: "10 \<le> n"
  have "show_nat (n div 10) \<noteq> []" by simp
  then have "1 \<le> length (show_nat (n div 10))" by (cases "show_nat (n div 10)") auto
  then show ?thesis using n by (subst show_nat.simps) simp
qed

lemma length_two: "0 \<le> n \<Longrightarrow> n < 100 \<Longrightarrow> length (two n) = 2"
proof -
  assume "0 \<le> n" "n < 100"
  then have "length (show_nat (nat n)) \<le> 2" by (intro show_nat_length) (auto simp: nat_less_iff)
  then show ?thesis using \<open>0 \<le> n\<close> by (simp add: two_def show_int_def length_pad_start)
qed

lemma civil_bounds:
  assumes "0 \<le> ms" and "civil ms = (y, m, d)"
  shows "1600 \<le> y" and "0 \<le> m" "m < 100" and "0 \<le> d" "d < 100"
proof -
  define n where "n = keyDate ms + 719468"
  define era doe where "era = n div 146097" and "doe = n mod 146097"
  define a b c where "a = doe div 1460" and "b = doe div 36524" and "c = doe div 146096"
  define yoe where "yoe = (doe - a + b - c) div 365"
  define doy where "doy = doe - (365 * yoe + yoe div 4 - yoe div 100)"
  define mp where "mp = (5 * doy + 2) div 153"
  have n: "719468 \<le> n" using assms(1) by (simp add: n_def keyDate_def day_ms_def)
  have doe: "0 \<le> doe" "doe < 146097" by (simp_all add: doe_def)
  have era: "4 \<le> era" using n by (simp add: era_def)
  have a: "1460 * a \<le> doe" "doe < 1460 * a + 1460" by (simp_all add: a_def)
  have b: "0 \<le> b" "b \<le> 4" using doe by (auto simp: b_def pos_imp_zdiv_nonneg_iff)
  have c: "0 \<le> c" "c \<le> 1" using doe by (auto simp: c_def pos_imp_zdiv_nonneg_iff)
  have yoe: "365 * yoe \<le> doe - a + b - c" "doe - a + b - c < 365 * yoe + 365" by (simp_all add: yoe_def)
  have y4: "4 * (yoe div 4) \<le> yoe" "yoe < 4 * (yoe div 4) + 4" and y100: "100 * (yoe div 100) \<le> yoe" "yoe < 100 * (yoe div 100) + 100"
    by simp_all
  have "0 \<le> a" using doe by (simp add: a_def pos_imp_zdiv_nonneg_iff)
  moreover have "c \<le> b" unfolding b_def c_def by (rule zdiv_mono2) (use doe in simp_all)
  ultimately have "0 \<le> doe - a + b - c" using a by linarith
  then have yoe0: "0 \<le> yoe" by (simp add: yoe_def pos_imp_zdiv_nonneg_iff)
  have doy: "- 20 \<le> doy" "doy < 3000" unfolding doy_def using yoe a b c y4 y100 doe by linarith+
  have mp: "153 * mp \<le> 5 * doy + 2" "5 * doy + 2 < 153 * mp + 153" by (simp_all add: mp_def)
  have dm: "5 * ((153 * mp + 2) div 5) \<le> 153 * mp + 2" "153 * mp + 2 < 5 * ((153 * mp + 2) div 5) + 5" by simp_all
  have date: "y = (if mp < 10 then yoe + era * 400 else yoe + era * 400 + 1)" "m = (if mp < 10 then mp + 3 else mp - 9)"
      "d = doy - (153 * mp + 2) div 5 + 1"
    using assms(2) unfolding civil_def civil_eval n_def [symmetric] era_def [symmetric] doe_def [symmetric] a_def [symmetric]
      b_def [symmetric] c_def [symmetric] yoe_def [symmetric] doy_def [symmetric] mp_def [symmetric] by auto
  show "1600 \<le> y" using date(1) era yoe0 by auto
  show "0 \<le> m" "m < 100" using date(2) mp doy by auto
  show "0 \<le> d" "d < 100" unfolding date(3) using dm mp by linarith+
qed

lemma length_yymmdd: "0 \<le> ms \<Longrightarrow> length (yymmdd ms) = 6"
proof -
  assume ms: "0 \<le> ms"
  obtain y m d where civ: "civil ms = (y, m, d)" by (cases "civil ms") auto
  note bounds = civil_bounds [OF ms civ]
  have "2 \<le> length (show_int y)" using bounds(1) by (simp add: show_int_def show_nat_two_digits)
  then show ?thesis using bounds by (simp add: yymmdd_def civ slice_end_def length_two)
qed

lemma length_hhmm [width_simps]: "length (hhmm ms) = 4"
proof -
  define x y where "x = ms mod 86400000" and "y = ms mod 3600000"
  have "0 \<le> x" "x < 86400000" "0 \<le> y" "y < 3600000" by (simp_all add: x_def y_def)
  then have "0 \<le> x div 3600000" "x div 3600000 < 24" "0 \<le> y div 60000" "y div 60000 < 60" by linarith+
  then show ?thesis by (simp add: hhmm_def length_two day_ms_def x_def y_def)
qed

lemma length_hash_field [width_simps]: "length (hash_field rows) = 10"
proof -
  have "length (show_nat (entry_hash rows mod 10 ^ 10)) \<le> 10" by (rule show_nat_length) simp_all
  then show ?thesis by (simp add: hash_field_def length_pad_start)
qed

section \<open>Records\<close>

lemma length_file_header: "0 \<le> created \<Longrightarrow> length (file_header opts created) = RECORD_LENGTH"
  by (simp add: file_header_def RECORD_LENGTH_def Let_def width_simps length_yymmdd)

lemma length_batch_header: "0 \<le> created \<Longrightarrow> 0 \<le> effective \<Longrightarrow> length (batch_header opts created effective) = RECORD_LENGTH"
  by (simp add: batch_header_def RECORD_LENGTH_def width_simps length_yymmdd)

lemma length_entry_detail: "length (entry_detail opts i row) = RECORD_LENGTH"
  by (simp add: entry_detail_def RECORD_LENGTH_def width_simps)

lemma length_batch_control: "length (batch_control opts rows) = RECORD_LENGTH"
  by (simp add: batch_control_def RECORD_LENGTH_def width_simps)

lemma length_file_control: "length (file_control rows n) = RECORD_LENGTH"
  by (simp add: file_control_def RECORD_LENGTH_def width_simps)

lemma pad_block_eq: "pad_block ls = ls @ replicate ((10 - length ls mod 10) mod 10) (replicate RECORD_LENGTH CHR ''9'')"
proof (induction ls rule: pad_block.induct)
  case (1 ls)
  show ?case
  proof (cases "length ls mod 10 = 0")
    case True
    then show ?thesis by (subst pad_block.simps) (simp add: BLOCKING_FACTOR_def)
  next
    case False
    have "length ls mod 10 < 10" by simp
    then have "(10 - length ls mod 10) mod 10 = Suc ((10 - Suc (length ls) mod 10) mod 10)"
      using False by (auto simp: mod_Suc)
    then show ?thesis using 1 False by (subst pad_block.simps) (simp add: BLOCKING_FACTOR_def)
  qed
qed

lemma pad_block_length:
  "length (pad_block ls) mod 10 = 0" "length (pad_block ls) < length ls + 10" "length (pad_block ls) = (length ls + 9) div 10 * 10"
proof -
  define r where "r = length ls mod 10"
  define q where "q = length ls div 10"
  have r: "r < 10" and len: "length ls = 10 * q + r" by (simp_all add: r_def q_def)
  have pad: "length (pad_block ls) = length ls + (10 - r) mod 10" by (simp add: pad_block_eq r_def)
  show "length (pad_block ls) < length ls + 10" using r by (simp add: pad)
  have "length (pad_block ls) = (if r = 0 then 10 * q else 10 * q + 10)" using r by (auto simp: pad len)
  moreover have "(length ls + 9) div 10 = (if r = 0 then q else q + 1)" using r by (auto simp: len)
  ultimately show "length (pad_block ls) mod 10 = 0" "length (pad_block ls) = (length ls + 9) div 10 * 10" by auto
qed

section \<open>Numbers in fields\<close>

lemma parse_nat_concat: "parse_nat (s @ t) = parse_nat s * 10 ^ length t + parse_nat t"
proof (induction t rule: rev_induct)
  case (snoc c t)
  then show ?case using parse_nat_append [of "s @ t" c] parse_nat_append [of t c] by simp
qed (simp add: parse_nat_def)

lemma parse_nat_less: "list_all is_digit s \<Longrightarrow> parse_nat s < 10 ^ length s"
proof (induction s rule: rev_induct)
  case (snoc c s)
  have "is_digit c" using snoc.prems by simp
  then have "digit_val c < 10" unfolding is_digit_def digit_val_def by linarith
  moreover have "parse_nat s < 10 ^ length s" using snoc by simp
  ultimately show ?case by (simp add: parse_nat_append)
qed (simp add: parse_nat_def)

lemma parse_slice: "list_all is_digit s \<Longrightarrow> parse_nat (slice_end k s) = parse_nat s mod 10 ^ k"
proof -
  assume s: "list_all is_digit s"
  show ?thesis
  proof (cases "length s \<le> k")
    case True
    then have "parse_nat s < 10 ^ k" using parse_nat_less [OF s] by (meson less_le_trans one_le_numeral power_increasing)
    then show ?thesis using True by (simp add: slice_end_def)
  next
    case False
    let ?t = "drop (length s - k) s"
    have "list_all is_digit ?t" using s by (auto simp: list_all_iff dest: in_set_dropD)
    then have "parse_nat ?t < 10 ^ k" using parse_nat_less [of ?t] False by simp
    moreover have "parse_nat s = parse_nat (take (length s - k) s) * 10 ^ k + parse_nat ?t"
      using parse_nat_concat [of "take (length s - k) s" ?t] False by simp
    ultimately show ?thesis by (simp add: slice_end_def)
  qed
qed

lemma digits_show_nat: "digitsOnly (show_nat n) = show_nat n"
  by (simp add: digitsOnly_def filter_id_conv)

lemma digits_show_int: "digitsOnly (show_int n) = show_nat (nat \<bar>n\<bar>)"
  using digits_show_nat by (auto simp: show_int_def digitsOnly_def)

text \<open>A numeric field keeps the last digits of the number, without its sign.\<close>

lemma parse_numField_int: "parse_nat (numField (show_int n) k) = nat \<bar>n\<bar> mod 10 ^ k"
  unfolding numField_def parse_nat_pad_start digits_show_int by (simp add: parse_slice list_all_iff)

lemma parse_numField_nat: "parse_nat (numField (show_nat n) k) = n mod 10 ^ k"
  unfolding numField_def parse_nat_pad_start digits_show_nat by (simp add: parse_slice list_all_iff)

text \<open>The fields a bank reads.\<close>

definition field :: "nat \<Rightarrow> nat \<Rightarrow> string \<Rightarrow> nat" where
  "field i k l = parse_nat (take k (drop i l))"

lemma entry_amount: "field 29 10 (entry_detail opts i row) = nat \<bar>br_amountMinor row\<bar> mod 10 ^ 10"
  by (simp add: field_def entry_detail_def width_simps parse_numField_int)

lemma batch_total: "field 32 12 (batch_control opts rows) = nat \<bar>credit_total rows\<bar> mod 10 ^ 12"
  by (simp add: field_def batch_control_def width_simps parse_numField_int)

lemma batch_count: "field 4 6 (batch_control opts rows) = length rows mod 10 ^ 6"
  by (simp add: field_def batch_control_def width_simps parse_numField_nat)

lemma file_total: "field 43 12 (file_control rows n) = nat \<bar>credit_total rows\<bar> mod 10 ^ 12"
  by (simp add: field_def file_control_def width_simps parse_numField_int)

lemma file_counts: "field 7 6 (file_control rows n) = (n + 9) div 10 mod 10 ^ 6" "field 13 8 (file_control rows n) = length rows mod 10 ^ 8"
  by (simp_all add: field_def file_control_def width_simps parse_numField_nat BLOCKING_FACTOR_def)

section \<open>Reading a file\<close>

primrec split_on :: "char \<Rightarrow> string \<Rightarrow> string list" where
  "split_on sep [] = [[]]"
| "split_on sep (c # cs) = (if c = sep then [] # split_on sep cs else (c # hd (split_on sep cs)) # tl (split_on sep cs))"

lemma split_on_free: "sep \<notin> set s \<Longrightarrow> split_on sep s = [s]"
  by (induction s) auto

lemma split_on_append: "sep \<notin> set s \<Longrightarrow> split_on sep (s @ sep # t) = s # split_on sep t"
  by (induction s) auto

lemma split_join: "ls \<noteq> [] \<Longrightarrow> \<forall>l \<in> set ls. sep \<notin> set l \<Longrightarrow> split_on sep (join [sep] ls) = ls"
  by (induction "[sep]" ls rule: join.induct) (simp_all add: split_on_free split_on_append)

text \<open>A text on one line.\<close>

definition one_line :: "string \<Rightarrow> bool" where
  "one_line s \<longleftrightarrow> CHR 0x0A \<notin> set s"

named_theorems line_simps \<open>texts on one line\<close>

lemma one_line_append [line_simps]: "one_line (s @ t) \<longleftrightarrow> one_line s \<and> one_line t" "one_line (c # s) \<longleftrightarrow> c \<noteq> CHR 0x0A \<and> one_line s" "one_line []"
  by (auto simp: one_line_def)

lemma one_line_take [line_simps]: "one_line s \<Longrightarrow> one_line (take n s)" "one_line s \<Longrightarrow> one_line (drop n s)"
  by (auto simp: one_line_def dest: in_set_takeD in_set_dropD)

lemma one_line_padRight [line_simps]: "one_line s \<Longrightarrow> one_line (padRight s n)"
  by (auto simp: padRight_def one_line_def Let_def dest: in_set_takeD)

lemma one_line_digits: "list_all is_digit s \<Longrightarrow> one_line s"
  by (auto simp: one_line_def list_all_iff is_digit_def)

lemma numField_digits: "list_all is_digit (numField s n)"
  unfolding numField_def by (rule pad_start_digits) (auto simp: digitsOnly_def slice_end_def list_all_iff dest: in_set_dropD)

lemma one_line_numField [line_simps]: "one_line (numField s n)"
  by (rule one_line_digits [OF numField_digits])

lemma one_line_alnum [line_simps]: "one_line (alnumUpper s n)"
  unfolding alnumUpper_def by (rule one_line_padRight) (auto simp: one_line_def alnum_char_def is_digit_def)

lemma one_line_code [line_simps]: "one_line (transactionCode t)"
  by (simp add: transactionCode_def one_line_def)

lemma one_line_show_nat [line_simps]: "one_line (show_nat n)"
  by (rule one_line_digits) (simp add: list_all_iff)

lemma one_line_show_int [line_simps]: "one_line (show_int n)"
  by (simp add: show_int_def line_simps)

lemma one_line_pad_start [line_simps]: "one_line s \<Longrightarrow> one_line (pad_start n CHR ''0'' s)"
  by (auto simp: pad_start_def one_line_def)

lemma one_line_two [line_simps]: "one_line (two n)"
  unfolding two_def by (intro one_line_pad_start one_line_show_int)

lemma one_line_slice [line_simps]: "one_line s \<Longrightarrow> one_line (slice_end n s)"
  unfolding slice_end_def by (rule one_line_take)

lemma one_line_dates [line_simps]: "one_line (yymmdd ms)" "one_line (hhmm ms)"
  by (cases "civil ms") (simp_all add: yymmdd_def hhmm_def line_simps del: show_nat.simps)

lemma one_line_routing [line_simps]: "one_line (rdfi_of row)" "one_line (odfi_of opts)" "one_line (hash_field rows)"
  by (simp_all add: rdfi_of_def odfi_of_def hash_field_def line_simps)

text \<open>The texts that reach the file as they are.\<close>

definition lines_ok :: "bank_row list \<Rightarrow> file_opts \<Rightarrow> bool" where
  "lines_ok rows opts \<longleftrightarrow> one_line (opt_text (fo_companyId opts)) \<and> one_line (opt_text (fo_immediateDestination opts)) \<and>
    one_line (opt_text (fo_immediateOrigin opts)) \<and>
    list_all (\<lambda>r. one_line (opt_text (br_accountNumber r)) \<and> one_line (opt_text (br_employeeId r))) rows"

lemma one_line_js_or: "one_line (opt_text a) \<Longrightarrow> one_line b \<Longrightarrow> one_line (js_or a b)"
  by (simp add: js_or_def)

lemma one_line_header: "lines_ok rows opts \<Longrightarrow> one_line (file_header opts created)"
  by (simp add: file_header_def Let_def lines_ok_def line_simps)

lemma one_line_batch: "lines_ok rows opts \<Longrightarrow> one_line (batch_header opts created effective)"
  by (simp add: batch_header_def lines_ok_def line_simps one_line_js_or)

lemma one_line_entry: "lines_ok rows opts \<Longrightarrow> row \<in> set rows \<Longrightarrow> one_line (entry_detail opts i row)"
  by (simp add: entry_detail_def lines_ok_def line_simps list_all_iff)

lemma one_line_control: "lines_ok rows opts \<Longrightarrow> one_line (batch_control opts rows)" "one_line (file_control rows n)"
  by (simp_all add: batch_control_def file_control_def lines_ok_def line_simps one_line_js_or)

definition nacha_lines :: "bank_row list \<Rightarrow> file_opts \<Rightarrow> int \<Rightarrow> int \<Rightarrow> string list" where
  "nacha_lines rows opts created effective =
    [file_header opts created, batch_header opts created effective] @ map (\<lambda>(i, row). entry_detail opts i row) (enumerate 0 rows) @
    [batch_control opts rows, file_control rows (length rows + 4)]"

lemma nacha_records_lines:
  "\<exists>created effective k. nacha_records rows opts now = nacha_lines rows opts created effective @ replicate k (replicate RECORD_LENGTH CHR ''9'') \<and>
    (case fo_fileCreation opts of None \<Rightarrow> created = now | Some t \<Rightarrow> created = t) \<and>
    (case fo_effectiveDate opts of None \<Rightarrow> effective = created | Some t \<Rightarrow> effective = t)"
proof -
  have len: "length ([file_header opts c, batch_header opts c e] @ map (\<lambda>(i, row). entry_detail opts i row) (enumerate 0 rows) @
      [batch_control opts rows]) + 1 = length rows + 4" for c e by simp
  show ?thesis unfolding nacha_records_def Let_def len pad_block_eq nacha_lines_def
    by (cases "fo_fileCreation opts"; cases "fo_effectiveDate opts") auto
qed

lemma nacha_lines_one_line: "lines_ok rows opts \<Longrightarrow> l \<in> set (nacha_lines rows opts created effective) \<Longrightarrow> one_line l"
proof -
  assume ok: "lines_ok rows opts" and l: "l \<in> set (nacha_lines rows opts created effective)"
  then consider "l = file_header opts created" | "l = batch_header opts created effective" | "l = batch_control opts rows"
    | "l = file_control rows (length rows + 4)" | i row where "(i, row) \<in> set (enumerate 0 rows)" "l = entry_detail opts i row"
    by (auto simp: nacha_lines_def)
  then show ?thesis
  proof cases
    case (5 i row)
    then have "row \<in> set rows" by (auto simp: enumerate_eq_zip dest: set_zip_rightD)
    then show ?thesis using ok 5 one_line_entry by blast
  qed (use ok one_line_header one_line_batch one_line_control in \<open>blast+\<close>)
qed

lemma nacha_split: "lines_ok rows opts \<Longrightarrow> split_on (CHR 0x0A) (buildNachaFile rows opts now) = nacha_records rows opts now"
proof -
  assume ok: "lines_ok rows opts"
  obtain created effective k where ls: "nacha_records rows opts now =
      nacha_lines rows opts created effective @ replicate k (replicate RECORD_LENGTH CHR ''9'')"
    using nacha_records_lines by blast
  have "\<forall>l \<in> set (nacha_records rows opts now). CHR 0x0A \<notin> set l"
    using nacha_lines_one_line [OF ok] unfolding ls by (auto simp: one_line_def)
  moreover have "nacha_records rows opts now \<noteq> []" by (simp add: ls nacha_lines_def)
  ultimately show ?thesis unfolding buildNachaFile_def by (intro split_join)
qed

text \<open>What a bank reads: the amounts of the entry records and the totals of the control records.\<close>

definition records_of :: "char \<Rightarrow> string \<Rightarrow> string list" where
  "records_of kind content = filter (\<lambda>l. take 1 l = [kind]) (split_on (CHR 0x0A) content)"

lemma kinds:
  "take 1 (file_header opts created) = ''1''" "take 1 (batch_header opts created effective) = ''5''"
  "take 1 (entry_detail opts i row) = ''6''" "take 1 (batch_control opts rows) = ''8''" "take 1 (file_control rows n) = ''9''"
  by (simp_all add: file_header_def batch_header_def entry_detail_def batch_control_def file_control_def Let_def)

lemma nacha_kinds:
  assumes "lines_ok rows opts"
  shows "records_of CHR ''6'' (buildNachaFile rows opts now) = map (\<lambda>(i, row). entry_detail opts i row) (enumerate 0 rows)"
    and "records_of CHR ''8'' (buildNachaFile rows opts now) = [batch_control opts rows]"
proof -
  obtain created effective k where ls: "nacha_records rows opts now =
      nacha_lines rows opts created effective @ replicate k (replicate RECORD_LENGTH CHR ''9'')"
    using nacha_records_lines by blast
  have nines: "take 1 (replicate RECORD_LENGTH CHR ''9'') = ''9''" by (simp add: RECORD_LENGTH_def)
  have entries: "filter (\<lambda>l. take 1 l = [kind]) (map (\<lambda>(i, row). entry_detail opts i row) es) =
      (if kind = CHR ''6'' then map (\<lambda>(i, row). entry_detail opts i row) es else [])" for kind es
    by (induction es) (auto simp: kinds [unfolded One_nat_def])
  show "records_of CHR ''6'' (buildNachaFile rows opts now) = map (\<lambda>(i, row). entry_detail opts i row) (enumerate 0 rows)"
    "records_of CHR ''8'' (buildNachaFile rows opts now) = [batch_control opts rows]"
    unfolding records_of_def nacha_split [OF assms] ls nacha_lines_def
    using entries [of "CHR ''6''" "enumerate 0 rows"] entries [of "CHR ''8''" "enumerate 0 rows"]
    by (simp_all add: kinds [unfolded One_nat_def] nines [unfolded One_nat_def] del: take_replicate)
qed

section \<open>Reading a CSV text\<close>

text \<open>A reader of comma-separated values with quoted fields, one character at a time.\<close>

datatype csv_mode = FieldStart | Plain | Quoted | QuoteSeen

fun read_csv_from :: "csv_mode \<Rightarrow> string \<Rightarrow> string list \<Rightarrow> string \<Rightarrow> string list list" where
  "read_csv_from m f r [] = [r @ [f]]"
| "read_csv_from Quoted f r (c # cs) =
     (if c = CHR 0x22 then read_csv_from QuoteSeen f r cs else read_csv_from Quoted (f @ [c]) r cs)"
| "read_csv_from m f r (c # cs) =
     (if c = CHR '','' then read_csv_from FieldStart [] (r @ [f]) cs
      else if c = CHR 0x0A then (r @ [f]) # read_csv_from FieldStart [] [] cs
      else if c = CHR 0x22 then read_csv_from Quoted (if m = QuoteSeen then f @ [c] else f) r cs
      else read_csv_from Plain (f @ [c]) r cs)"

definition read_csv :: "string \<Rightarrow> string list list" where
  "read_csv s = read_csv_from FieldStart [] [] s"

definition field_end :: "string \<Rightarrow> bool" where
  "field_end t \<longleftrightarrow> t = [] \<or> hd t = CHR '','' \<or> hd t = CHR 0x0A"

lemma read_field_end: "field_end t \<Longrightarrow> m \<noteq> Quoted \<Longrightarrow> read_csv_from m f r t = read_csv_from Plain f r t"
  by (cases m; cases t) (auto simp: field_end_def)

lemma read_plain: "\<not> list_ex csv_special s \<Longrightarrow> read_csv_from Plain f r (s @ t) = read_csv_from Plain (f @ s) r t"
  by (induction s arbitrary: f) (auto simp: csv_special_def)

lemma read_quoted:
  "read_csv_from Quoted f r (concat (map (\<lambda>c. if c = CHR 0x22 then [CHR 0x22, CHR 0x22] else [c]) s) @ CHR 0x22 # t) =
    read_csv_from QuoteSeen (f @ s) r t"
  by (induction s arbitrary: f) auto

lemma read_escape:
  assumes "field_end t"
  shows "read_csv_from FieldStart [] r (csvEscape s @ t) = read_csv_from Plain s r t"
proof (cases "list_ex csv_special s")
  case True
  then show ?thesis using read_quoted [of "[]" r s t] read_field_end [OF assms, of QuoteSeen] by (simp add: csvEscape_def)
next
  case False
  show ?thesis
  proof (cases s)
    case (Cons c cs)
    then have "read_csv_from FieldStart [] r (s @ t) = read_csv_from Plain [c] r (cs @ t)" using False by (auto simp: csv_special_def)
    then show ?thesis using False Cons read_plain [of cs "[c]" r t] by (simp add: csvEscape_def)
  qed (use read_field_end [OF assms, of FieldStart] in \<open>simp add: csvEscape_def\<close>)
qed

lemma read_line:
  assumes "fs \<noteq> []" and "t = [] \<or> hd t = CHR 0x0A"
  shows "read_csv_from FieldStart [] r (csv_line fs @ t) = read_csv_from Plain (last fs) (r @ butlast fs) t"
  using assms(1)
proof (induction fs arbitrary: r rule: list_nonempty_induct)
  case (single s)
  then show ?case using read_escape [of t r s] assms(2) by (auto simp: csv_line_def field_end_def)
next
  case (cons s fs)
  then obtain f fs' where fs: "fs = f # fs'" by (cases fs) auto
  have "read_csv_from FieldStart [] r (csv_line (s # fs) @ t) =
      read_csv_from FieldStart [] r (csvEscape s @ CHR '','' # csv_line fs @ t)"
    by (simp add: csv_line_def fs)
  also have "\<dots> = read_csv_from Plain s r (CHR '','' # csv_line fs @ t)" by (rule read_escape) (simp add: field_end_def)
  also have "\<dots> = read_csv_from FieldStart [] (r @ [s]) (csv_line fs @ t)" by simp
  finally show ?case using cons.IH [of "r @ [s]"] cons.hyps by simp
qed

lemma read_csv_lines: "rows \<noteq> [] \<Longrightarrow> [] \<notin> set rows \<Longrightarrow> read_csv (join [CHR 0x0A] (map csv_line rows)) = rows"
  unfolding read_csv_def
proof (induction rows rule: list_nonempty_induct)
  case (single fs)
  then show ?case using read_line [of fs "[]" "[]"] by simp
next
  case (cons fs rows)
  then obtain g gs where rows: "rows = g # gs" by (cases rows) auto
  have "read_csv_from FieldStart [] [] (join [CHR 0x0A] (map csv_line (fs # rows))) =
      read_csv_from FieldStart [] [] (csv_line fs @ CHR 0x0A # join [CHR 0x0A] (map csv_line rows))"
    by (simp add: rows)
  also have "\<dots> = read_csv_from Plain (last fs) (butlast fs) (CHR 0x0A # join [CHR 0x0A] (map csv_line rows))"
    using read_line [of fs "CHR 0x0A # join [CHR 0x0A] (map csv_line rows)" "[]"] cons.prems by auto
  also have "\<dots> = fs # rows" using cons.IH cons.prems by (auto simp: append_butlast_last_id)
  finally show ?case .
qed

lemma wire_text_value: "minorToWireDecimal (JBigInt m) cur = Inr t \<Longrightarrow> decimalToMinor (Some t) cur = Inr m"
  by (auto simp: minorToWireDecimal_def decimalToMinor_def money_simps result_simps)

lemma csv_header_line: "join '','' CSV_HEADER = csv_line CSV_HEADER"
  by (simp add: csv_line_def CSV_HEADER_def csvEscape_def csv_special_def)

section \<open>Properties\<close>

text \<open>A NACHA file is a whole number of blocks of ten records of 94 characters, with no more filler than
  the last block needs, and its control record counts the blocks and the entries that are in it.\<close>

theorem nacha_blocks:
  assumes "0 \<le> now" and "\<forall>t. fo_fileCreation opts = Some t \<longrightarrow> 0 \<le> t" and "\<forall>t. fo_effectiveDate opts = Some t \<longrightarrow> 0 \<le> t"
    and "length rows + 4 \<le> 9999990" and "ls = nacha_records rows opts now"
  shows "(\<forall>l \<in> set ls. length l = 94) \<and> length ls mod 10 = 0 \<and> length rows + 4 \<le> length ls \<and> length ls < length rows + 14 \<and>
    10 * field 7 6 (ls ! (length rows + 3)) = length ls \<and> field 13 8 (ls ! (length rows + 3)) = length rows"
proof -
  obtain created effective k where ls: "ls = nacha_lines rows opts created effective @ replicate k (replicate RECORD_LENGTH CHR ''9'')"
    and created: "case fo_fileCreation opts of None \<Rightarrow> created = now | Some t \<Rightarrow> created = t"
    and effective: "case fo_effectiveDate opts of None \<Rightarrow> effective = created | Some t \<Rightarrow> effective = t"
    using nacha_records_lines [of rows opts now] assms(5) by blast
  have dates: "0 \<le> created" "0 \<le> effective" using created effective assms(1-3) by (auto split: option.splits)
  have width: "\<forall>l \<in> set ls. length l = 94"
    using length_file_header [OF dates(1)] length_batch_header [OF dates] length_entry_detail length_batch_control length_file_control
    by (auto simp: ls nacha_lines_def RECORD_LENGTH_def)
  have n: "length (nacha_lines rows opts created effective) = length rows + 4" by (simp add: nacha_lines_def)
  have "ls = pad_block (nacha_lines rows opts created effective)"
    using created effective by (auto simp: assms(5) nacha_records_def nacha_lines_def Let_def eval_nat_numeral split: option.splits)
  then have len: "length ls mod 10 = 0" "length ls < length rows + 14" "length ls = (length rows + 13) div 10 * 10"
    using pad_block_length [of "nacha_lines rows opts created effective"] by (simp_all add: n)
  have control: "ls ! (length rows + 3) = file_control rows (length rows + 4)"
    by (simp add: ls nth_append n) (simp add: nacha_lines_def nth_append eval_nat_numeral)
  have "(length rows + 13) div 10 < 10 ^ 6" "length rows < 10 ^ 8" using assms(4) by simp_all
  then have counts: "field 7 6 (ls ! (length rows + 3)) = (length rows + 13) div 10" "field 13 8 (ls ! (length rows + 3)) = length rows"
    unfolding control file_counts by simp_all
  have "length rows + 4 \<le> length ls" by (simp add: ls n)
  then show ?thesis using width len counts by simp
qed

definition sample_opts :: file_opts where
  "sample_opts = \<lparr>fo_companyName = Some ''Acme'', fo_companyId = None, fo_originName = None, fo_originatingDfi = Some ''021000021'',
     fo_immediateDestination = None, fo_immediateOrigin = None, fo_immediateDestinationName = None, fo_entryDescription = None,
     fo_effectiveDate = Some 0, fo_fileCreation = Some 0, fo_currency = None\<rparr>"

definition sample_row :: "int \<Rightarrow> bank_row" where
  "sample_row amount = \<lparr>br_employeeId = Some ''E1, 2'', br_name = None, br_routingNumber = Some ''011401533'', br_accountNumber = Some ''12345'',
     br_accountType = None, br_amountMinor = amount, br_currency = Some ''USD''\<rparr>"

theorem nacha_blocks_witness:
  "length (nacha_records [sample_row 500, sample_row 20] sample_opts 0) = 10"
proof -
  have "length (nacha_records [sample_row 500, sample_row 20] sample_opts 0) mod 10 = 0 \<and>
      length (nacha_records [sample_row 500, sample_row 20] sample_opts 0) < 16 \<and>
      6 \<le> length (nacha_records [sample_row 500, sample_row 20] sample_opts 0)"
    using nacha_blocks [of 0 sample_opts "[sample_row 500, sample_row 20]" "nacha_records [sample_row 500, sample_row 20] sample_opts 0"]
    by (simp add: sample_opts_def)
  then show ?thesis by presburger
qed

text \<open>Read back from the file, the entries carry the amounts of the rows in their order, each without its sign and
  cut to ten digits, and the batch control carries their sum cut to twelve digits; so while every amount is below
  a hundred million major units and the sum below ten billion the total of the file is the sum of its
  entries.\<close>

theorem nacha_amounts:
  assumes "lines_ok rows opts" and "content = buildNachaFile rows opts now"
    and "amounts = map (field 29 10) (records_of CHR ''6'' content)" and "totals = map (field 32 12) (records_of CHR ''8'' content)"
  shows "amounts = map (\<lambda>r. nat \<bar>br_amountMinor r\<bar> mod 10 ^ 10) rows \<and> totals = [nat \<bar>credit_total rows\<bar> mod 10 ^ 12] \<and>
    ((\<forall>r \<in> set rows. 0 \<le> br_amountMinor r \<and> br_amountMinor r < 10 ^ 10) \<and> credit_total rows < 10 ^ 12 \<longrightarrow>
      map int amounts = map br_amountMinor rows \<and> totals = [sum_list amounts])"
proof -
  have "map (field 29 10) (map (\<lambda>(i, row). entry_detail opts i row) (enumerate n rows)) =
      map (\<lambda>r. nat \<bar>br_amountMinor r\<bar> mod 10 ^ 10) rows" for n
    by (induction rows arbitrary: n) (simp_all add: entry_amount)
  then have read: "amounts = map (\<lambda>r. nat \<bar>br_amountMinor r\<bar> mod 10 ^ 10) rows" "totals = [nat \<bar>credit_total rows\<bar> mod 10 ^ 12]"
    unfolding assms(2-4) nacha_kinds [OF assms(1)] by (simp_all add: batch_total)
  have "map int amounts = map br_amountMinor rows \<and> totals = [sum_list amounts]"
    if "\<forall>r \<in> set rows. 0 \<le> br_amountMinor r \<and> br_amountMinor r < 10 ^ 10" "credit_total rows < 10 ^ 12"
  proof -
    have amounts: "amounts = map (\<lambda>r. nat (br_amountMinor r)) rows" using that(1) by (simp add: read(1) nat_less_iff)
    have sum: "sum_list (map (\<lambda>r. nat (br_amountMinor r)) rs) = nat (credit_total rs) \<and> 0 \<le> credit_total rs" if "set rs \<subseteq> set rows" for rs
      using that \<open>\<forall>r \<in> set rows. _ r\<close> by (induction rs) (auto simp: credit_total_def nat_add_distrib)
    have "map int amounts = map br_amountMinor rows" using that(1) by (simp add: amounts)
    then show ?thesis using sum [of rows] that(2) by (simp add: amounts read(2) nat_less_iff)
  qed
  then show ?thesis using read by blast
qed

theorem nacha_amounts_witness:
  "map (field 29 10) (records_of CHR ''6'' (buildNachaFile [sample_row 500, sample_row 20] sample_opts 0)) = [500, 20] \<and>
    map (field 32 12) (records_of CHR ''8'' (buildNachaFile [sample_row 500, sample_row 20] sample_opts 0)) = [520]"
  using nacha_amounts [of "[sample_row 500, sample_row 20]" sample_opts _ 0, OF _ refl refl refl]
  by (simp add: lines_ok_def one_line_def opt_text_def sample_opts_def sample_row_def credit_total_def)

text \<open>C35. A CSV reader gets from the bank CSV the header and, for each row in order, the texts of the row unchanged,
  whatever commas, quotes or line ends they contain, and an amount that denotes exactly the minor units
  of the row in the currency beside it.\<close>

theorem bank_csv_roundtrip:
  assumes "buildBankCsv rows opts = Inr content"
  shows "\<exists>body. read_csv content = CSV_HEADER # body \<and>
    list_all2 (\<lambda>r fs. \<exists>currency amount. fs = [opt_text (br_employeeId r), opt_text (br_routingNumber r), opt_text (br_accountNumber r),
        js_toUpper (js_or (br_accountType r) ''CHECKING''), currency, amount] \<and>
      currency = js_or (br_currency r) (js_or (fo_currency opts) ''USD'') \<and>
      decimalToMinor (Some amount) (Some currency) = Inr (br_amountMinor r)) rows body"
proof -
  obtain body where body: "rmap (csv_fields opts) rows = Inr body" and content: "content = join [CHR 0x0A] (map csv_line (CSV_HEADER # body))"
    using assms by (auto simp: buildBankCsv_def result_simps csv_header_line)
  have fs: "\<exists>amount. fs = [opt_text (br_employeeId r), opt_text (br_routingNumber r), opt_text (br_accountNumber r),
        js_toUpper (js_or (br_accountType r) ''CHECKING''), js_or (br_currency r) (js_or (fo_currency opts) ''USD''), amount] \<and>
      decimalToMinor (Some amount) (Some (js_or (br_currency r) (js_or (fo_currency opts) ''USD''))) = Inr (br_amountMinor r)"
    if "csv_fields opts r = Inr fs" for r fs
    using that by (auto simp: csv_fields_def Let_def result_simps intro: wire_text_value)
  have "list_all2 (\<lambda>r fs. csv_fields opts r = Inr fs) rows body" by (rule rmap_Inr_all2 [OF body])
  then have "list_all2 (\<lambda>r fs. \<exists>currency amount. fs = [opt_text (br_employeeId r), opt_text (br_routingNumber r), opt_text (br_accountNumber r),
        js_toUpper (js_or (br_accountType r) ''CHECKING''), currency, amount] \<and>
      currency = js_or (br_currency r) (js_or (fo_currency opts) ''USD'') \<and>
      decimalToMinor (Some amount) (Some currency) = Inr (br_amountMinor r)) rows body"
    by (rule list_all2_mono) (use fs in blast)
  moreover have "[] \<notin> set (CSV_HEADER # body)"
    using body fs by (auto simp: CSV_HEADER_def dest!: rmap_set)
  then have "read_csv content = CSV_HEADER # body" unfolding content by (intro read_csv_lines) simp_all
  ultimately show ?thesis by blast
qed

lemma sample_csv_ok: "\<exists>content. buildBankCsv [sample_row 1250] sample_opts = Inr content"
proof -
  have "exponentOf (Some ''USD'') = Inr 2" by code_simp
  then show ?thesis
    by (simp add: buildBankCsv_def csv_fields_def Let_def minorToWireDecimal_def assertMinor_def sample_row_def js_or_def opt_text_def)
qed

theorem bank_csv_roundtrip_witness:
  "\<exists>content fs. buildBankCsv [sample_row 1250] sample_opts = Inr content \<and> read_csv content = [CSV_HEADER, fs] \<and> fs ! 0 = ''E1, 2''"
proof -
  obtain content where content: "buildBankCsv [sample_row 1250] sample_opts = Inr content" using sample_csv_ok by blast
  show ?thesis using bank_csv_roundtrip [OF content] content
    by (auto simp: list_all2_Cons1 sample_row_def opt_text_def)
qed

text \<open>How the rows come about: the loop over the payslips in closed form.\<close>

definition pays :: "export_run \<Rightarrow> export_slip \<Rightarrow> bank_row \<Rightarrow> bool" where
  "pays run s r \<longleftrightarrow>
    decimalToMinor (Some (ps_netAmount s)) (Some (pr_currencyCode run)) = Inr (br_amountMinor r) \<and> 0 \<le> br_amountMinor r \<and>
    lastStage (ps_history s) \<notin> {''SUBMITTED'', ''ACKNOWLEDGED''} \<and> ps_status s \<in> {''FINALIZED'', ''DISTRIBUTED''} \<and>
    br_employeeId r = Some (ps_employeeCode s) \<and> ps_employeeCode s \<noteq> [] \<and>
    (\<exists>bank \<in> set (es_banks s). bd_isPrimary bank \<and> br_accountNumber r = bd_accountNumber bank \<and> br_routingNumber r = bd_routingNumber bank \<and>
      opt_text (bd_accountNumber bank) \<noteq> [] \<and> opt_text (bd_routingNumber bank) \<noteq> [])"

lemma export_step_cases:
  assumes "export_step run s (rows, missing) = Inr (rows', missing')"
  shows "(ps_paidAt s \<noteq> None \<and> rows' = rows \<and> missing' = missing) \<or> (\<exists>x. missing' = missing @ [x] \<and> rows' = rows) \<or>
    (ps_paidAt s = None \<and> (\<exists>r. rows' = rows @ [r] \<and> missing' = missing \<and> pays run s r))"
  using assms unfolding export_step_def primaryBankOf_def
  by (auto simp: result_simps equals_zero_def pays_def export_row_def find_Some_iff split: if_split_asm option.split_asm intro!: nth_mem)

lemma export_fold:
  assumes "rfold (export_step run) slips (rows, missing) = Inr (rows', [])"
  shows "missing = [] \<and> (\<exists>new. rows' = rows @ new \<and> list_all2 (pays run) (filter (\<lambda>s. ps_paidAt s = None) slips) new)"
  using assms
proof (induction slips arbitrary: rows missing)
  case (Cons s slips)
  obtain rows1 missing1 where step: "export_step run s (rows, missing) = Inr (rows1, missing1)"
    and rest: "rfold (export_step run) slips (rows1, missing1) = Inr (rows', [])"
    using Cons.prems by (auto simp: result_simps)
  obtain new where new: "missing1 = []" "rows' = rows1 @ new" "list_all2 (pays run) (filter (\<lambda>s. ps_paidAt s = None) slips) new"
    using Cons.IH [OF rest] by blast
  show ?case using export_step_cases [OF step] new by auto
qed simp

lemma money_sum_bigints: "money_sum (map (\<lambda>r. JBigInt (f r)) rows) = Inr (sum_list (map f rows))"
proof -
  have "rfold (\<lambda>v total. rbind (assertMinor v) (\<lambda>m. Inr (total + m))) (map (\<lambda>r. JBigInt (f r)) rows) n = Inr (n + sum_list (map f rows))" for n
    by (induction rows arbitrary: n) (simp_all add: assertMinor_def)
  then show ?thesis by (simp add: money_sum_def)
qed

text \<open>C34. A disbursement file is made for a finalised run only, and its rows are exactly the payslips not yet paid, in their
  order: each row carries the net pay of its payslip in minor units, which is not negative, and the
  primary account of its employee; none of them is held or has a submission pending, and the total
  reported is their sum. A payslip of net pay zero is among them.\<close>

theorem disbursement_pays_due:
  assumes "generateBankDisbursementFile runId found slips format origin now = Inr d"
  shows "\<exists>run builder rows. found = Some run \<and> pr_status run = ''FINALIZED'' \<and> (builder = Csv \<or> xr_countryCode run = ''US'') \<and>
    build builder rows (export_opts origin run) now = Inr (di_content d) \<and>
    list_all2 (pays run) (filter (\<lambda>s. ps_paidAt s = None) slips) rows \<and>
    di_rowCount d = length rows \<and> di_totalMinor d = credit_total rows"
proof -
  obtain builder ext contentType run rows content where
    fmt: "map_of FORMATTERS (js_toLower format) = Some (builder, ext, contentType)" and run: "found = Some run" "pr_status run = ''FINALIZED''"
    and country: "js_toLower format = ''csv'' \<or> xr_countryCode run = ''US''"
    and rows: "rfold (export_step run) slips ([], []) = Inr (rows, [])"
    and content: "build builder rows (export_opts origin run) now = Inr content"
    and d: "di_content d = content" "di_rowCount d = length rows" "di_totalMinor d = credit_total rows"
    using assms unfolding generateBankDisbursementFile_def Let_def money_sum_bigints
    by (auto simp: result_simps credit_total_def split: prod.split_asm if_split_asm)
  have "list_all2 (pays run) (filter (\<lambda>s. ps_paidAt s = None) slips) rows" using export_fold [OF rows] by auto
  moreover have "builder = Csv \<or> xr_countryCode run = ''US''" using country fmt by (auto simp: FORMATTERS_def)
  ultimately show ?thesis using run content d by blast
qed

definition sample_export_run :: export_run where
  "sample_export_run = \<lparr>pr_status = ''FINALIZED'', pr_currencyCode = ''USD'', pr_configVersion = 1, xr_id = 7, xr_tenantId = ''t'',
     xr_countryCode = ''PK'', xr_periodEnd = 0\<rparr>"

definition sample_export_slip :: "string \<Rightarrow> int option \<Rightarrow> export_slip" where
  "sample_export_slip net paid = \<lparr>ps_id = 1, ps_employeeCode = ''E1'', ps_netAmount = net, ps_status = ''FINALIZED'', ps_paidAt = paid,
     ps_paymentReference = None, ps_history = [], es_banks = [\<lparr>bd_accountNumber = Some ''12345'', bd_routingNumber = Some ''011401533'',
       bd_accountType = None, bd_isPrimary = True\<rparr>]\<rparr>"

lemma sample_disbursement:
  "\<exists>d. generateBankDisbursementFile 7 (Some sample_export_run) [sample_export_slip ''0'' None, sample_export_slip ''12.5'' None,
      sample_export_slip ''9'' (Some 3)] ''CSV'' sample_opts 0 = Inr d"
proof -
  have usd: "exponentOf (Some ''USD'') = Inr 2" by code_simp
  have amounts: "decimalToMinor (Some ''0'') (Some ''USD'') = Inr 0" "decimalToMinor (Some ''12.5'') (Some ''USD'') = Inr 1250"
      "decimalToMinor (Some ''9'') (Some ''USD'') = Inr 900"
    unfolding decimalToMinor_def usd by (simp_all add: decimal_eval bit_0)
  have fmt: "js_toLower ''CSV'' = ''csv''" by code_simp
  show ?thesis unfolding generateBankDisbursementFile_def Let_def money_sum_bigints fmt
    by (simp add: FORMATTERS_def sample_export_run_def sample_export_slip_def export_step_def amounts equals_zero_def lastStage_def
        primaryBankOf_def opt_text_def export_row_def js_or_def build_def buildBankCsv_def csv_fields_def minorToWireDecimal_def
        assertMinor_def usd export_opts_def)
qed

theorem disbursement_pays_due_witness:
  "\<exists>d. generateBankDisbursementFile 7 (Some sample_export_run) [sample_export_slip ''0'' None, sample_export_slip ''12.5'' None,
      sample_export_slip ''9'' (Some 3)] ''CSV'' sample_opts 0 = Inr d \<and> di_rowCount d = 2"
proof -
  obtain d where d: "generateBankDisbursementFile 7 (Some sample_export_run) [sample_export_slip ''0'' None,
      sample_export_slip ''12.5'' None, sample_export_slip ''9'' (Some 3)] ''CSV'' sample_opts 0 = Inr d"
    using sample_disbursement by blast
  show ?thesis using disbursement_pays_due [OF d] d by (auto simp: sample_export_slip_def dest!: list_all2_lengthD)
qed

end
