(* ===== verification/LoanLedger.thy ===== *)
theory LoanLedger
  imports Money "HOL-Library.Multiset"
begin

text \<open>
  Loans and salary advances: creation and manual repayment (\<^verbatim>\<open>src/src/services/loan.service.js\<close>), the
  reservations of a payroll run and their posting (\<^verbatim>\<open>src/src/services/payrollLoans.service.js\<close>), the
  decisions on a loan and on its write-off (\<^verbatim>\<open>applyDecision\<close> in
  \<^verbatim>\<open>src/src/services/approval/adapters.js\<close>), and the release of reservations when a run is cancelled.
  The interest of a loan is computed on exact rationals.
\<close>

section \<open>State\<close>

record loan =
  ln_id :: nat
  ln_kind :: string
  ln_principalMinor :: int
  ln_interestRatePct :: rat
  ln_tenureMonths :: int
  ln_outstandingMinor :: int
  ln_monthlyInstallmentMinor :: int
  ln_status :: string

record repayment =
  rp_id :: nat
  rp_loanId :: nat
  rp_payrollRunId :: "nat option"
  rp_payslipId :: "nat option"
  rp_amountMinor :: int
  rp_settled :: bool

text \<open>The tenant's loans and repayments, the next ids the database hands out, and the runs with their status.\<close>

record lstate =
  ls_loans :: "loan list"
  ls_repayments :: "repayment list"
  ls_nextLoan :: nat
  ls_nextRepayment :: nat
  ls_runs :: "(nat \<times> string) list"

definition loan_conflict :: hr_error where
  "loan_conflict = HRError 4303"

section \<open>Loans\<close>

definition LOAN_KINDS :: "string list" where
  "LOAN_KINDS = [''LOAN'', ''ADVANCE'']"

definition totalRepayable :: "int \<Rightarrow> rat \<Rightarrow> int \<Rightarrow> int" where
  "totalRepayable capital rate tenure =
    capital + js_round (of_int capital * (rate / 100) * (of_int tenure / 12))"

definition monthlyInstallment :: "int \<Rightarrow> int \<Rightarrow> int" where
  "monthlyInstallment repayable tenure = \<lceil>of_int repayable / (of_int tenure :: rat)\<rceil>"

definition createLoan :: "lstate \<Rightarrow> nat option \<Rightarrow> int \<Rightarrow> rat \<Rightarrow> int \<Rightarrow> string \<Rightarrow> hr_error + lstate" where
  "createLoan st employee capital rate tenure kind =
    rbind (ensure (employee \<noteq> None \<and> employee \<noteq> Some 0) (AppError 400 ''employeeId is required'')) (\<lambda>_.
    rbind (ensure (capital > 0) (AppError 400 ''principalMinor must be positive'')) (\<lambda>_.
    rbind (ensure (tenure > 0) (AppError 400 ''tenureMonths must be positive'')) (\<lambda>_.
    rbind (ensure (kind \<in> set LOAN_KINDS) (AppError 400 ''kind'')) (\<lambda>_.
    rbind (ensure (\<not> (kind = ''ADVANCE'' \<and> rate > 0)) (AppError 400 ''A salary advance cannot carry interest'')) (\<lambda>_.
      let repayable = totalRepayable capital rate tenure;
          l = \<lparr>ln_id = ls_nextLoan st, ln_kind = kind, ln_principalMinor = capital, ln_interestRatePct = rate,
               ln_tenureMonths = tenure, ln_outstandingMinor = repayable,
               ln_monthlyInstallmentMinor = monthlyInstallment repayable tenure, ln_status = ''PENDING''\<rparr>
      in Inr (st\<lparr>ls_loans := ls_loans st @ [l], ls_nextLoan := Suc (ls_nextLoan st)\<rparr>))))))"

definition find_loan :: "lstate \<Rightarrow> nat \<Rightarrow> loan option" where
  "find_loan st i = find (\<lambda>l. ln_id l = i) (ls_loans st)"

definition update_loans :: "(loan \<Rightarrow> bool) \<Rightarrow> (loan \<Rightarrow> loan) \<Rightarrow> lstate \<Rightarrow> lstate" where
  "update_loans P f st = st\<lparr>ls_loans := map (\<lambda>l. if P l then f l else l) (ls_loans st)\<rparr>"

text \<open>A loan reserved by a run that is not failed or cancelled keeps its balance.\<close>

definition reserved :: "lstate \<Rightarrow> nat \<Rightarrow> bool" where
  "reserved st i \<longleftrightarrow> list_ex (\<lambda>r. rp_loanId r = i \<and> \<not> rp_settled r \<and>
    (case rp_payrollRunId r of None \<Rightarrow> False
     | Some run \<Rightarrow> list_ex (\<lambda>(j, s). j = run \<and> s \<notin> {''FAILED'', ''CANCELLED''}) (ls_runs st))) (ls_repayments st)"

definition assertNoPayrollLoanReservation :: "lstate \<Rightarrow> nat \<Rightarrow> hr_error + unit" where
  "assertNoPayrollLoanReservation st i = ensure (\<not> reserved st i) loan_conflict"

text \<open>The decision of the Approval Centre; its source is a loan still pending, or an active one to write off.\<close>

definition decideLoan :: "lstate \<Rightarrow> nat \<Rightarrow> bool \<Rightarrow> hr_error + lstate" where
  "decideLoan st i approved =
    rbind (require (find_loan st i) (AppError 404 ''Request not found'')) (\<lambda>l.
    rbind (ensure (ln_status l = ''PENDING'') (HRError 4200)) (\<lambda>_.
      Inr (update_loans (\<lambda>x. ln_id x = i) (\<lambda>x. x\<lparr>ln_status := (if approved then ''ACTIVE'' else ''REJECTED'')\<rparr>) st)))"

definition decideWriteOff :: "lstate \<Rightarrow> nat \<Rightarrow> bool \<Rightarrow> hr_error + lstate" where
  "decideWriteOff st i approved =
    rbind (require (find_loan st i) (AppError 404 ''Request not found'')) (\<lambda>l.
    rbind (ensure (ln_status l = ''ACTIVE'') (HRError 4200)) (\<lambda>_.
      if \<not> approved then Inr st
      else rbind (assertNoPayrollLoanReservation st i) (\<lambda>_.
        Inr (update_loans (\<lambda>x. ln_id x = i) (\<lambda>x. x\<lparr>ln_status := ''WRITTEN_OFF'', ln_outstandingMinor := 0\<rparr>) st))))"

definition recordRepayment :: "lstate \<Rightarrow> nat \<Rightarrow> rat \<Rightarrow> nat option \<Rightarrow> nat option \<Rightarrow> hr_error + lstate" where
  "recordRepayment st i amount run payslip =
    rbind (ensure (js_isSafeInteger amount \<and> amount > 0) (AppError 400 ''Repayment must be a positive integer'')) (\<lambda>_.
    rbind (ensure (run \<in> {None, Some 0} \<and> payslip \<in> {None, Some 0})
      (AppError 409 ''Payroll repayments must be posted through payroll finalization'')) (\<lambda>_.
    rbind (require (find (\<lambda>l. ln_id l = i \<and> ln_status l = ''ACTIVE'') (ls_loans st)) (AppError 404 ''Active loan not found'')) (\<lambda>l.
    rbind (assertNoPayrollLoanReservation st (ln_id l)) (\<lambda>_.
      let paid = \<lfloor>amount\<rfloor>; left = ln_outstandingMinor l - paid in
      rbind (ensure (paid \<le> ln_outstandingMinor l) (AppError 409 ''Repayment exceeds the outstanding balance'')) (\<lambda>_.
        let r = \<lparr>rp_id = ls_nextRepayment st, rp_loanId = i, rp_payrollRunId = None, rp_payslipId = None,
                 rp_amountMinor = paid, rp_settled = True\<rparr>;
            st1 = st\<lparr>ls_repayments := ls_repayments st @ [r], ls_nextRepayment := Suc (ls_nextRepayment st)\<rparr>
        in Inr (update_loans (\<lambda>x. ln_id x = i) (\<lambda>x. x\<lparr>ln_outstandingMinor := max 0 left,
             ln_status := (if left \<le> 0 then ''PAID_OFF'' else ''ACTIVE'')\<rparr>) st1))))))"

section \<open>Payroll reservations\<close>

text \<open>A deduction line of a payslip with the loan it repays, if any.\<close>

record loan_line =
  dl_loanId :: "nat option"
  dl_amount :: string

definition of_slip :: "nat \<Rightarrow> nat \<Rightarrow> repayment \<Rightarrow> bool" where
  "of_slip run payslip r \<longleftrightarrow> rp_payrollRunId r = Some run \<and> rp_payslipId r = Some payslip"

definition check_posted :: "loan_line list \<Rightarrow> string \<Rightarrow> repayment \<Rightarrow> unit \<Rightarrow> hr_error + unit" where
  "check_posted lines currency row u =
    rbind (require (find (\<lambda>d. dl_loanId d = Some (rp_loanId row)) lines) loan_conflict) (\<lambda>line.
    rbind (decimalToMinor (Some (dl_amount line)) (Some currency)) (\<lambda>m.
      ensure (m = rp_amountMinor row) loan_conflict))"

text \<open>A repayment of a loan that does not exist violates a foreign key of the database.\<close>

definition reserve_line :: "nat \<Rightarrow> nat \<Rightarrow> string \<Rightarrow> repayment list \<Rightarrow> loan_line \<Rightarrow> lstate \<Rightarrow> hr_error + lstate" where
  "reserve_line run payslip currency existing line st =
    (case dl_loanId line of
       None \<Rightarrow> Inr st
     | Some i \<Rightarrow>
         if list_ex (\<lambda>r. rp_loanId r = i \<and> rp_settled r) existing then Inr st
         else rbind (decimalToMinor (Some (dl_amount line)) (Some currency)) (\<lambda>m.
           rbind (ensure (find_loan st i \<noteq> None) (PlainError ''P2003'')) (\<lambda>_.
           Inr (st\<lparr>ls_repayments := ls_repayments st @ [\<lparr>rp_id = ls_nextRepayment st, rp_loanId = i,
                     rp_payrollRunId = Some run, rp_payslipId = Some payslip, rp_amountMinor = m, rp_settled = False\<rparr>],
                   ls_nextRepayment := Suc (ls_nextRepayment st)\<rparr>))))"

definition reservePayrollLoans :: "lstate \<Rightarrow> nat \<Rightarrow> nat \<Rightarrow> loan_line list \<Rightarrow> string \<Rightarrow> hr_error + lstate" where
  "reservePayrollLoans st run payslip lines currency =
    (let existing = filter (of_slip run payslip) (ls_repayments st) in
     rbind (rfold (check_posted lines currency) (filter rp_settled existing) ()) (\<lambda>_.
       let cleared = st\<lparr>ls_repayments := filter (\<lambda>r. \<not> (of_slip run payslip r \<and> \<not> rp_settled r)) (ls_repayments st)\<rparr>
       in rfold (reserve_line run payslip currency existing) lines cleared))"

definition settle_row :: "repayment \<Rightarrow> lstate \<Rightarrow> hr_error + lstate" where
  "settle_row row st =
    (let covers = (\<lambda>l. ln_id l = rp_loanId row \<and> ln_status l = ''ACTIVE'' \<and> ln_outstandingMinor l \<ge> rp_amountMinor row);
         st1 = update_loans covers (\<lambda>l. l\<lparr>ln_outstandingMinor := ln_outstandingMinor l - rp_amountMinor row\<rparr>) st
     in
     rbind (ensure (length (filter covers (ls_loans st)) = 1) loan_conflict) (\<lambda>_.
       let st2 = update_loans (\<lambda>l. ln_id l = rp_loanId row \<and> ln_outstandingMinor l = 0) (\<lambda>l. l\<lparr>ln_status := ''PAID_OFF''\<rparr>) st1
       in Inr (st2\<lparr>ls_repayments := map (\<lambda>r. if rp_id r = rp_id row then r\<lparr>rp_settled := True\<rparr> else r) (ls_repayments st2)\<rparr>)))"

definition settlePayrollLoans :: "lstate \<Rightarrow> nat \<Rightarrow> hr_error + lstate" where
  "settlePayrollLoans st run =
    rfold settle_row (sort_key rp_loanId
      (filter (\<lambda>r. rp_payrollRunId r = Some run \<and> \<not> rp_settled r) (ls_repayments st))) st"

text \<open>What cancelling a run does to the ledger: posted repayments block it, reservations are dropped.\<close>

definition releaseReservations :: "lstate \<Rightarrow> nat \<Rightarrow> hr_error + lstate" where
  "releaseReservations st run =
    rbind (ensure (\<not> list_ex (\<lambda>r. rp_payrollRunId r = Some run \<and> rp_settled r) (ls_repayments st))
      (AppError 409 ''Reconcile posted loan repayments'')) (\<lambda>_.
      Inr (st\<lparr>ls_repayments := filter (\<lambda>r. \<not> (rp_payrollRunId r = Some run \<and> \<not> rp_settled r)) (ls_repayments st)\<rparr>))"

section \<open>Conservation\<close>

definition settled_sum :: "nat \<Rightarrow> repayment list \<Rightarrow> int" where
  "settled_sum i rs = sum_list (map rp_amountMinor (filter (\<lambda>r. rp_loanId r = i \<and> rp_settled r) rs))"

definition pending_sum :: "nat \<Rightarrow> nat \<Rightarrow> repayment list \<Rightarrow> int" where
  "pending_sum run i rs = sum_list (map rp_amountMinor
    (filter (\<lambda>r. rp_loanId r = i \<and> rp_payrollRunId r = Some run \<and> \<not> rp_settled r) rs))"

definition loan_ok :: "repayment list \<Rightarrow> loan \<Rightarrow> bool" where
  "loan_ok rs l \<longleftrightarrow>
    (let repayable = totalRepayable (ln_principalMinor l) (ln_interestRatePct l) (ln_tenureMonths l);
         paid = settled_sum (ln_id l) rs
     in 0 \<le> ln_outstandingMinor l \<and>
        (if ln_status l = ''WRITTEN_OFF'' then ln_outstandingMinor l = 0 \<and> paid \<le> repayable
         else ln_outstandingMinor l + paid = repayable) \<and>
        (ln_status l = ''PAID_OFF'' \<longrightarrow> ln_outstandingMinor l = 0) \<and>
        (ln_status l \<in> {''PENDING'', ''REJECTED''} \<longrightarrow> paid = 0))"

definition ids_ok :: "lstate \<Rightarrow> bool" where
  "ids_ok st \<longleftrightarrow> distinct (map ln_id (ls_loans st)) \<and> distinct (map rp_id (ls_repayments st)) \<and>
    list_all (\<lambda>l. ln_id l < ls_nextLoan st) (ls_loans st) \<and>
    list_all (\<lambda>r. rp_id r < ls_nextRepayment st \<and> rp_loanId r < ls_nextLoan st) (ls_repayments st)"

definition ledger_ok :: "lstate \<Rightarrow> bool" where
  "ledger_ok st \<longleftrightarrow> ids_ok st \<and> list_all (loan_ok (ls_repayments st)) (ls_loans st)"

lemma settled_sum_append: "settled_sum i (rs @ rs') = settled_sum i rs + settled_sum i rs'"
  by (simp add: settled_sum_def)

lemma settled_sum_none: "(\<And>r. r \<in> set rs \<Longrightarrow> rp_loanId r \<noteq> i) \<Longrightarrow> settled_sum i rs = 0"
  by (simp add: settled_sum_def)

lemma settled_sum_filter_unsettled:
  "(\<And>r. r \<in> set rs \<Longrightarrow> \<not> P r \<Longrightarrow> \<not> rp_settled r) \<Longrightarrow> settled_sum i (filter P rs) = settled_sum i rs"
  by (induction rs) (auto simp: settled_sum_def)

lemma settled_sum_post:
  assumes "distinct (map rp_id rs)" and "row \<in> set rs" and "\<not> rp_settled row"
  shows "settled_sum i (map (\<lambda>r. if rp_id r = rp_id row then r\<lparr>rp_settled := True\<rparr> else r) rs) =
    settled_sum i rs + (if rp_loanId row = i then rp_amountMinor row else 0)"
  using assms
proof (induction rs)
  case (Cons r rs)
  show ?case
  proof (cases "r = row")
    case True
    then have "\<forall>x \<in> set rs. rp_id x \<noteq> rp_id row" using Cons.prems(1) by (auto simp: image_iff)
    then have "map (\<lambda>r. if rp_id r = rp_id row then r\<lparr>rp_settled := True\<rparr> else r) rs = rs" by (simp add: map_idI)
    then show ?thesis using True Cons.prems(3) by (simp add: settled_sum_def)
  next
    case False
    then have "rp_id r \<noteq> rp_id row" and "row \<in> set rs" using Cons.prems by auto
    then show ?thesis using Cons by (simp add: settled_sum_def)
  qed
qed simp

definition posted :: "int \<Rightarrow> loan \<Rightarrow> loan" where
  "posted a l = (let x = l\<lparr>ln_outstandingMinor := ln_outstandingMinor l - a\<rparr> in
     if ln_outstandingMinor x = 0 then x\<lparr>ln_status := ''PAID_OFF''\<rparr> else x)"

lemma posted_simps [simp]:
  "ln_id (posted a l) = ln_id l" "ln_principalMinor (posted a l) = ln_principalMinor l"
  "ln_interestRatePct (posted a l) = ln_interestRatePct l" "ln_tenureMonths (posted a l) = ln_tenureMonths l"
  "ln_outstandingMinor (posted a l) = ln_outstandingMinor l - a"
  by (simp_all add: posted_def Let_def)

lemma posted_status: "ln_status (posted a l) = (if ln_outstandingMinor l = a then ''PAID_OFF'' else ln_status l)"
  by (simp add: posted_def Let_def)

text \<open>Posting a reservation: exactly one active loan covers it, and that loan's balance falls by its amount.\<close>

lemma settle_row_Inr:
  assumes "settle_row row st = Inr st'" and "distinct (map ln_id (ls_loans st))"
  shows "\<exists>l \<in> set (ls_loans st). ln_id l = rp_loanId row \<and> ln_status l = ''ACTIVE'' \<and> rp_amountMinor row \<le> ln_outstandingMinor l"
    and "ls_loans st' = map (\<lambda>l. if ln_id l = rp_loanId row then posted (rp_amountMinor row) l else l) (ls_loans st)"
    and "ls_repayments st' = map (\<lambda>r. if rp_id r = rp_id row then r\<lparr>rp_settled := True\<rparr> else r) (ls_repayments st)"
    and "ls_nextLoan st' = ls_nextLoan st" "ls_nextRepayment st' = ls_nextRepayment st" "ls_runs st' = ls_runs st"
proof -
  let ?c = "\<lambda>l. ln_id l = rp_loanId row \<and> ln_status l = ''ACTIVE'' \<and> rp_amountMinor row \<le> ln_outstandingMinor l"
  have one: "length (filter ?c (ls_loans st)) = 1"
    using assms(1) by (auto simp: settle_row_def Let_def split: if_splits)
  then obtain l0 where "filter ?c (ls_loans st) = [l0]" by (auto simp: length_Suc_conv)
  then have l0: "l0 \<in> set (ls_loans st)" "?c l0" by (auto simp: filter_eq_Cons_iff)
  then show "\<exists>l \<in> set (ls_loans st). ?c l" by blast
  have unique: "?c l" if "l \<in> set (ls_loans st)" "ln_id l = rp_loanId row" for l
    using that l0 assms(2) by (auto simp: distinct_map inj_on_def)
  show "ls_loans st' = map (\<lambda>l. if ln_id l = rp_loanId row then posted (rp_amountMinor row) l else l) (ls_loans st)"
    using assms(1) unique by (auto simp: settle_row_def Let_def update_loans_def posted_def split: if_splits)
  show "ls_repayments st' = map (\<lambda>r. if rp_id r = rp_id row then r\<lparr>rp_settled := True\<rparr> else r) (ls_repayments st)"
    "ls_nextLoan st' = ls_nextLoan st" "ls_nextRepayment st' = ls_nextRepayment st" "ls_runs st' = ls_runs st"
    using assms(1) by (auto simp: settle_row_def Let_def update_loans_def split: if_splits)
qed

lemma settle_row_ok:
  assumes "settle_row row st = Inr st'" and "ledger_ok st" and "row \<in> set (ls_repayments st)" and "\<not> rp_settled row"
  shows "ledger_ok st'"
proof -
  have d: "distinct (map ln_id (ls_loans st))" "distinct (map rp_id (ls_repayments st))"
    using assms(2) by (auto simp: ledger_ok_def ids_ok_def)
  note s = settle_row_Inr [OF assms(1) d(1)]
  have loans: "map ln_id (ls_loans st') = map ln_id (ls_loans st)" "map rp_id (ls_repayments st') = map rp_id (ls_repayments st)"
    by (auto simp: s(2,3))
  have ids: "ids_ok st'"
    using assms(2) unfolding ids_ok_def loans by (auto simp: ledger_ok_def ids_ok_def list_all_iff s)
  have sum: "settled_sum i (ls_repayments st') = settled_sum i (ls_repayments st) + (if rp_loanId row = i then rp_amountMinor row else 0)" for i
    unfolding s(3) by (rule settled_sum_post [OF d(2) assms(3,4)])
  have ok: "loan_ok (ls_repayments st) l" if "l \<in> set (ls_loans st)" for l
    using assms(2) that by (auto simp: ledger_ok_def list_all_iff)
  obtain l0 where l0: "l0 \<in> set (ls_loans st)" "ln_id l0 = rp_loanId row" "ln_status l0 = ''ACTIVE''"
    "rp_amountMinor row \<le> ln_outstandingMinor l0" using s(1) by blast
  have "loan_ok (ls_repayments st') (if ln_id l = rp_loanId row then posted (rp_amountMinor row) l else l)"
    if l: "l \<in> set (ls_loans st)" for l
  proof (cases "ln_id l = rp_loanId row")
    case True
    then have "l = l0" using l l0 d(1) by (auto simp: distinct_map inj_on_def)
    then show ?thesis using ok [OF l] l0 sum by (auto simp: loan_ok_def Let_def posted_status)
  next
    case False
    then show ?thesis using ok [OF l] sum by (simp add: loan_ok_def)
  qed
  then show ?thesis using ids unfolding ledger_ok_def list_all_iff s(2) set_map by blast
qed

definition row_sum :: "nat \<Rightarrow> repayment list \<Rightarrow> int" where
  "row_sum i rows = sum_list (map rp_amountMinor (filter (\<lambda>r. rp_loanId r = i) rows))"

lemma settle_rows:
  assumes "rfold settle_row rows st = Inr st'" and "ledger_ok st" and "set rows \<subseteq> set (ls_repayments st)"
    and "\<forall>r \<in> set rows. \<not> rp_settled r" and "distinct (map rp_id rows)"
  shows "ledger_ok st' \<and>
    ls_repayments st' = map (\<lambda>r. if rp_id r \<in> rp_id ` set rows then r\<lparr>rp_settled := True\<rparr> else r) (ls_repayments st) \<and>
    list_all2 (\<lambda>l l'. ln_id l' = ln_id l \<and> ln_outstandingMinor l' = ln_outstandingMinor l - row_sum (ln_id l) rows)
      (ls_loans st) (ls_loans st')"
  using assms
proof (induction rows arbitrary: st)
  case Nil
  then show ?case by (simp add: row_sum_def list_all2_refl)
next
  case (Cons row rows)
  then obtain st1 where st1: "settle_row row st = Inr st1" "rfold settle_row rows st1 = Inr st'"
    by (auto simp: result_simps)
  have d: "distinct (map ln_id (ls_loans st))" using Cons.prems(2) by (auto simp: ledger_ok_def ids_ok_def)
  note s = settle_row_Inr [OF st1(1) d]
  have ok: "ledger_ok st1" using settle_row_ok [OF st1(1) Cons.prems(2)] Cons.prems(3,4) by simp
  have other: "rp_id r \<noteq> rp_id row" if "r \<in> set rows" for r using Cons.prems(5) that by (auto simp: image_iff)
  have "set rows \<subseteq> set (ls_repayments st1)"
    using Cons.prems(3) other unfolding s(3) by (auto intro!: rev_image_eqI)
  from Cons.IH [OF st1(2) ok this] Cons.prems(4,5)
  have IH: "ledger_ok st'"
    "ls_repayments st' = map (\<lambda>r. if rp_id r \<in> rp_id ` set rows then r\<lparr>rp_settled := True\<rparr> else r) (ls_repayments st1)"
    "list_all2 (\<lambda>l l'. ln_id l' = ln_id l \<and> ln_outstandingMinor l' = ln_outstandingMinor l - row_sum (ln_id l) rows)
      (ls_loans st1) (ls_loans st')" by auto
  have "list_all2 (\<lambda>l l'. ln_id l' = ln_id l \<and> ln_outstandingMinor l' = ln_outstandingMinor l - row_sum (ln_id l) (row # rows))
      (ls_loans st) (ls_loans st')"
    using IH(3) unfolding s(2) list_all2_map1 by (rule list_all2_mono) (auto simp: row_sum_def split: if_splits)
  moreover have "ls_repayments st' = map (\<lambda>r. if rp_id r \<in> rp_id ` set (row # rows) then r\<lparr>rp_settled := True\<rparr> else r) (ls_repayments st)"
    unfolding IH(2) s(3) by auto
  ultimately show ?case using IH(1) by blast
qed

lemma settlePayrollLoans_rows:
  assumes "settlePayrollLoans st run = Inr st'" and "ledger_ok st"
  defines "rows \<equiv> sort_key rp_loanId (filter (\<lambda>r. rp_payrollRunId r = Some run \<and> \<not> rp_settled r) (ls_repayments st))"
  shows "ledger_ok st' \<and>
    ls_repayments st' = map (\<lambda>r. if rp_id r \<in> rp_id ` set rows then r\<lparr>rp_settled := True\<rparr> else r) (ls_repayments st) \<and>
    list_all2 (\<lambda>l l'. ln_id l' = ln_id l \<and> ln_outstandingMinor l' = ln_outstandingMinor l - row_sum (ln_id l) rows)
      (ls_loans st) (ls_loans st')"
proof (rule settle_rows)
  show "rfold settle_row rows st = Inr st'" using assms(1) by (simp add: settlePayrollLoans_def rows_def)
  have "distinct (map rp_id (filter (\<lambda>r. rp_payrollRunId r = Some run \<and> \<not> rp_settled r) (ls_repayments st)))"
    using assms(2) by (simp add: ledger_ok_def ids_ok_def distinct_map_filter)
  then show "distinct (map rp_id rows)" by (simp add: rows_def distinct_map)
qed (use assms(2) in \<open>auto simp: rows_def\<close>)

lemma update_loans_simps [simp]:
  "ls_repayments (update_loans P f st) = ls_repayments st" "ls_nextLoan (update_loans P f st) = ls_nextLoan st"
  "ls_nextRepayment (update_loans P f st) = ls_nextRepayment st"
  "ls_loans (update_loans P f st) = map (\<lambda>l. if P l then f l else l) (ls_loans st)"
  by (simp_all add: update_loans_def)

text \<open>Changing one loan of a ledger that is in order, with the repayments around it.\<close>

lemma update_one_ok:
  assumes "ids_ok st" and "\<And>x. ln_id (f x) = ln_id x" and "find_loan st i = Some l"
    and "\<And>x. x \<in> set (ls_loans st) \<Longrightarrow> ln_id x \<noteq> i \<Longrightarrow> loan_ok (ls_repayments st) x"
    and "loan_ok (ls_repayments st) (f l)"
  shows "ledger_ok (update_loans (\<lambda>x. ln_id x = i) f st)"
proof -
  have l: "l \<in> set (ls_loans st)" "ln_id l = i" using assms(3) by (auto simp: find_loan_def find_Some_iff)
  have "x = l" if "x \<in> set (ls_loans st)" "ln_id x = i" for x
    using that l assms(1) by (auto simp: ids_ok_def distinct_map inj_on_def)
  then have "list_all (loan_ok (ls_repayments st)) (map (\<lambda>x. if ln_id x = i then f x else x) (ls_loans st))"
    using assms(4,5) by (auto simp: list_all_iff)
  moreover have "map ln_id (map (\<lambda>x. if ln_id x = i then f x else x) (ls_loans st)) = map ln_id (ls_loans st)"
    using assms(2) by simp
  moreover have "list_all (\<lambda>x. ln_id x < ls_nextLoan st) (map (\<lambda>x. if ln_id x = i then f x else x) (ls_loans st))"
    using assms(1,2) by (auto simp: ids_ok_def list_all_iff)
  ultimately show ?thesis using assms(1) unfolding ledger_ok_def ids_ok_def update_loans_simps by metis
qed

section \<open>Steps of the ledger\<close>

text \<open>A loan bears no negative interest.\<close>

inductive loan_step :: "lstate \<Rightarrow> lstate \<Rightarrow> bool" where
  create: "createLoan st employee capital rate tenure kind = Inr st' \<Longrightarrow> 0 \<le> rate \<Longrightarrow> loan_step st st'"
| decide: "decideLoan st i approved = Inr st' \<Longrightarrow> loan_step st st'"
| write_off: "decideWriteOff st i approved = Inr st' \<Longrightarrow> loan_step st st'"
| repay: "recordRepayment st i amount run payslip = Inr st' \<Longrightarrow> loan_step st st'"
| reserve: "reservePayrollLoans st run payslip lines currency = Inr st' \<Longrightarrow> loan_step st st'"
| settle: "settlePayrollLoans st run = Inr st' \<Longrightarrow> loan_step st st'"
| release: "releaseReservations st run = Inr st' \<Longrightarrow> loan_step st st'"

definition loan_init :: "lstate \<Rightarrow> bool" where
  "loan_init st \<longleftrightarrow> ls_loans st = [] \<and> ls_repayments st = []"

lemma loan_ok_sum_cong: "settled_sum (ln_id l) rs' = settled_sum (ln_id l) rs \<Longrightarrow> loan_ok rs' l = loan_ok rs l"
  by (simp add: loan_ok_def)

lemma totalRepayable_pos: "0 < p \<Longrightarrow> 0 \<le> rate \<Longrightarrow> 0 < t \<Longrightarrow> p \<le> totalRepayable p rate t"
  using js_round_mono [of 0 "of_int p * (rate / 100) * (of_int t / 12)"] js_round_of_int [of 0]
  by (simp add: totalRepayable_def)

lemma createLoan_ok:
  assumes "createLoan st employee capital rate tenure kind = Inr st'" and "0 \<le> rate" and "ledger_ok st"
  shows "ledger_ok st'"
proof -
  have pos: "0 < capital" "0 < tenure" using assms(1) by (auto simp: createLoan_def split: if_splits)
  obtain l where l: "st' = st\<lparr>ls_loans := ls_loans st @ [l], ls_nextLoan := Suc (ls_nextLoan st)\<rparr>" "ln_id l = ls_nextLoan st"
    "ln_outstandingMinor l = totalRepayable capital rate tenure" "ln_principalMinor l = capital" "ln_interestRatePct l = rate"
    "ln_tenureMonths l = tenure" "ln_status l = ''PENDING''"
    using assms(1) by (auto simp: createLoan_def Let_def split: if_splits)
  have "settled_sum (ls_nextLoan st) (ls_repayments st) = 0"
    by (rule settled_sum_none) (use assms(3) in \<open>auto simp: ledger_ok_def ids_ok_def list_all_iff\<close>)
  then have "loan_ok (ls_repayments st) l"
    using totalRepayable_pos [OF pos(1) assms(2) pos(2)] pos l by (simp add: loan_ok_def)
  then show ?thesis using assms(3) l by (auto simp: ledger_ok_def ids_ok_def list_all_iff)
qed

lemma find_loan_ok:
  assumes "ledger_ok st" and "find_loan st i = Some l"
  shows "loan_ok (ls_repayments st) l" "ln_id l = i"
  using assms by (auto simp: ledger_ok_def find_loan_def find_Some_iff list_all_iff)

lemma ledger_ok_others: "ledger_ok st \<Longrightarrow> x \<in> set (ls_loans st) \<Longrightarrow> loan_ok (ls_repayments st) x"
  by (simp add: ledger_ok_def list_all_iff)

lemma decideLoan_ok:
  assumes "decideLoan st i approved = Inr st'" and "ledger_ok st"
  shows "ledger_ok st'"
proof -
  obtain l where l: "find_loan st i = Some l" "ln_status l = ''PENDING''"
    and st': "st' = update_loans (\<lambda>x. ln_id x = i) (\<lambda>x. x\<lparr>ln_status := (if approved then ''ACTIVE'' else ''REJECTED'')\<rparr>) st"
    using assms(1) by (auto simp: decideLoan_def result_simps split: if_split_asm)
  show ?thesis unfolding st'
    by (rule update_one_ok [OF _ _ l(1)])
      (use assms(2) l find_loan_ok [OF assms(2) l(1)] ledger_ok_others in \<open>auto simp: ledger_ok_def loan_ok_def Let_def\<close>)
qed

lemma decideWriteOff_ok:
  assumes "decideWriteOff st i approved = Inr st'" and "ledger_ok st"
  shows "ledger_ok st'"
proof (cases approved)
  case True
  then obtain l where l: "find_loan st i = Some l" "ln_status l = ''ACTIVE''"
    and st': "st' = update_loans (\<lambda>x. ln_id x = i) (\<lambda>x. x\<lparr>ln_status := ''WRITTEN_OFF'', ln_outstandingMinor := 0\<rparr>) st"
    using assms(1) by (auto simp: decideWriteOff_def result_simps split: if_split_asm)
  show ?thesis unfolding st'
    by (rule update_one_ok [OF _ _ l(1)])
      (use assms(2) l find_loan_ok [OF assms(2) l(1)] ledger_ok_others in \<open>auto simp: ledger_ok_def loan_ok_def Let_def\<close>)
next
  case False
  then show ?thesis using assms by (auto simp: decideWriteOff_def result_simps split: if_split_asm)
qed

lemma find_active:
  assumes "find (\<lambda>l. ln_id l = i \<and> ln_status l = ''ACTIVE'') (ls_loans st) = Some l" and "distinct (map ln_id (ls_loans st))"
  shows "find_loan st i = Some l"
proof -
  have l: "l \<in> set (ls_loans st)" "ln_id l = i" using assms(1) by (auto simp: find_Some_iff)
  then have "find_loan st i \<noteq> None" unfolding find_loan_def find_None_iff by blast
  then obtain x where "find_loan st i = Some x" by blast
  moreover from this have "x \<in> set (ls_loans st)" "ln_id x = i" by (auto simp: find_loan_def find_Some_iff)
  then have "x = l" using l assms(2) by (auto simp: distinct_map inj_on_def)
  ultimately show ?thesis by simp
qed

lemma recordRepayment_ok:
  assumes "recordRepayment st i amount run payslip = Inr st'" and "ledger_ok st"
  shows "ledger_ok st'"
proof -
  obtain l where f: "find (\<lambda>l. ln_id l = i \<and> ln_status l = ''ACTIVE'') (ls_loans st) = Some l"
    and a: "0 < amount" "\<lfloor>amount\<rfloor> \<le> ln_outstandingMinor l"
    and st': "st' = update_loans (\<lambda>x. ln_id x = i) (\<lambda>x. x\<lparr>ln_outstandingMinor := max 0 (ln_outstandingMinor l - \<lfloor>amount\<rfloor>),
        ln_status := (if ln_outstandingMinor l - \<lfloor>amount\<rfloor> \<le> 0 then ''PAID_OFF'' else ''ACTIVE'')\<rparr>)
      (st\<lparr>ls_repayments := ls_repayments st @ [\<lparr>rp_id = ls_nextRepayment st, rp_loanId = i, rp_payrollRunId = None,
         rp_payslipId = None, rp_amountMinor = \<lfloor>amount\<rfloor>, rp_settled = True\<rparr>], ls_nextRepayment := Suc (ls_nextRepayment st)\<rparr>)"
    using assms(1) by (auto simp: recordRepayment_def result_simps Let_def split: if_split_asm)
  have status: "ln_status l = ''ACTIVE''" using f by (auto simp: find_Some_iff)
  have l: "find_loan st i = Some l"
    using find_active [OF f] assms(2) by (simp add: ledger_ok_def ids_ok_def)
  have sum: "settled_sum j (rs @ [\<lparr>rp_id = n, rp_loanId = i, rp_payrollRunId = None, rp_payslipId = None, rp_amountMinor = \<lfloor>amount\<rfloor>,
      rp_settled = True\<rparr>]) = settled_sum j rs + (if j = i then \<lfloor>amount\<rfloor> else 0)" for j rs n
    by (simp add: settled_sum_def)
  have id: "i < ls_nextLoan st"
    using assms(2) l by (auto simp: ledger_ok_def ids_ok_def find_loan_def find_Some_iff list_all_iff)
  show ?thesis unfolding st'
  proof (rule update_one_ok)
    show "ids_ok (st\<lparr>ls_repayments := ls_repayments st @ [\<lparr>rp_id = ls_nextRepayment st, rp_loanId = i, rp_payrollRunId = None,
         rp_payslipId = None, rp_amountMinor = \<lfloor>amount\<rfloor>, rp_settled = True\<rparr>], ls_nextRepayment := Suc (ls_nextRepayment st)\<rparr>)"
      using assms(2) id by (auto simp: ledger_ok_def ids_ok_def list_all_iff)
  qed (use l status a find_loan_ok [OF assms(2) l] ledger_ok_others [OF assms(2)] in
      \<open>auto simp: find_loan_def loan_ok_def Let_def sum\<close>)
qed

lemma reserve_line_ok:
  assumes "reserve_line run payslip currency existing line st = Inr st'" and "ledger_ok st"
  shows "ledger_ok st'"
proof (cases "st' = st")
  case False
  then obtain r l where st': "st' = st\<lparr>ls_repayments := ls_repayments st @ [r], ls_nextRepayment := Suc (ls_nextRepayment st)\<rparr>"
    and r: "rp_id r = ls_nextRepayment st" "\<not> rp_settled r" and l: "find_loan st (rp_loanId r) = Some l"
    using assms(1) by (auto simp: reserve_line_def result_simps split: option.splits if_splits)
  have "l \<in> set (ls_loans st)" "ln_id l = rp_loanId r" using l by (auto simp: find_loan_def find_Some_iff)
  then have "rp_loanId r < ls_nextLoan st" using assms(2) by (auto simp: ledger_ok_def ids_ok_def list_all_iff)
  moreover have "settled_sum i (ls_repayments st @ [r]) = settled_sum i (ls_repayments st)" for i
    using r by (simp add: settled_sum_def)
  ultimately show ?thesis using assms(2) r by (auto simp: st' ledger_ok_def ids_ok_def list_all_iff loan_ok_def)
qed (use assms in simp)

lemma drop_unsettled_ok:
  assumes "ledger_ok st" and "\<And>r. \<not> P r \<Longrightarrow> \<not> rp_settled r"
  shows "ledger_ok (st\<lparr>ls_repayments := filter P (ls_repayments st)\<rparr>)"
proof -
  have "settled_sum i (filter P (ls_repayments st)) = settled_sum i (ls_repayments st)" for i
    using assms(2) by (intro settled_sum_filter_unsettled) auto
  then have "loan_ok (filter P (ls_repayments st)) l = loan_ok (ls_repayments st) l" for l by (simp add: loan_ok_def)
  then show ?thesis using assms(1) by (auto simp: ledger_ok_def ids_ok_def list_all_iff distinct_map_filter)
qed

lemma reservePayrollLoans_ok:
  assumes "reservePayrollLoans st run payslip lines currency = Inr st'" and "ledger_ok st"
  shows "ledger_ok st'"
proof -
  let ?cleared = "st\<lparr>ls_repayments := filter (\<lambda>r. \<not> (of_slip run payslip r \<and> \<not> rp_settled r)) (ls_repayments st)\<rparr>"
  have f: "rfold (reserve_line run payslip currency (filter (of_slip run payslip) (ls_repayments st))) lines ?cleared = Inr st'"
    using assms(1) by (auto simp: reservePayrollLoans_def Let_def result_simps)
  have "ledger_ok ?cleared" by (rule drop_unsettled_ok [OF assms(2)]) simp
  with f show ?thesis by (rule rfold_invariant) (rule reserve_line_ok)
qed

interpretation loans: invariant_system loan_init loan_step ledger_ok
proof unfold_locales
  show "ledger_ok st" if "loan_init st" for st
    using that by (simp add: loan_init_def ledger_ok_def ids_ok_def)
  show "ledger_ok t" if ok: "ledger_ok s" and step: "loan_step s t" for s t
    using step
  proof cases
    case (settle run)
    then show ?thesis using settlePayrollLoans_rows [OF settle ok] by blast
  next
    case (release run)
    then show ?thesis using drop_unsettled_ok [OF ok, of "\<lambda>r. \<not> (rp_payrollRunId r = Some run \<and> \<not> rp_settled r)"]
      by (auto simp: releaseReservations_def split: if_splits)
  next
    case (create employee capital rate tenure kind)
    then show ?thesis using createLoan_ok ok by blast
  next
    case (decide i approved)
    then show ?thesis using decideLoan_ok ok by blast
  next
    case (write_off i approved)
    then show ?thesis using decideWriteOff_ok ok by blast
  next
    case (repay i amount run payslip)
    then show ?thesis using recordRepayment_ok ok by blast
  next
    case (reserve run payslip lines currency)
    then show ?thesis using reservePayrollLoans_ok ok by blast
  qed
qed

section \<open>Properties\<close>

definition sample_ledger :: lstate where
  "sample_ledger = \<lparr>ls_loans = [\<lparr>ln_id = 0, ln_kind = ''LOAN'', ln_principalMinor = 900, ln_interestRatePct = 0, ln_tenureMonths = 3,
       ln_outstandingMinor = 900, ln_monthlyInstallmentMinor = 300, ln_status = ''ACTIVE''\<rparr>],
     ls_repayments = [\<lparr>rp_id = 0, rp_loanId = 0, rp_payrollRunId = Some 7, rp_payslipId = Some 70, rp_amountMinor = 300,
       rp_settled = False\<rparr>],
     ls_nextLoan = 1, ls_nextRepayment = 1, ls_runs = [(7, ''APPROVED'')]\<rparr>"

lemma js_round_0: "js_round 0 = 0"
  using js_round_of_int [of 0] by simp

lemma sample_ledger_ok: "ledger_ok sample_ledger"
  by (simp add: ledger_ok_def ids_ok_def loan_ok_def sample_ledger_def settled_sum_def totalRepayable_def js_round_0)

lemma sample_settle: "\<exists>st'. settlePayrollLoans sample_ledger 7 = Inr st'"
  by (simp add: settlePayrollLoans_def settle_row_def sample_ledger_def Let_def update_loans_def)

definition empty_ledger :: lstate where
  "empty_ledger = \<lparr>ls_loans = [], ls_repayments = [], ls_nextLoan = 0, ls_nextRepayment = 0, ls_runs = []\<rparr>"

lemma sample_create: "\<exists>st'. createLoan empty_ledger (Some 5) 900 0 3 ''LOAN'' = Inr st' \<and> length (ls_loans st') = 1"
  by (simp add: createLoan_def LOAN_KINDS_def empty_ledger_def Let_def)



lemma row_sum_pending:
  "row_sum i (sort_key rp_loanId (filter (\<lambda>r. rp_payrollRunId r = Some run \<and> \<not> rp_settled r) rs)) = pending_sum run i rs"
proof -
  have "mset (map rp_amountMinor (filter (\<lambda>r. rp_loanId r = i) (sort_key rp_loanId (filter P rs)))) =
      mset (map rp_amountMinor (filter (\<lambda>r. rp_loanId r = i \<and> P r) rs))" for P
    by (simp add: filter_filter_mset conj_commute)
  then have "sum_list (map rp_amountMinor (filter (\<lambda>r. rp_loanId r = i) (sort_key rp_loanId (filter P rs)))) =
      sum_list (map rp_amountMinor (filter (\<lambda>r. rp_loanId r = i \<and> P r) rs))" for P
    by (metis sum_mset_sum_list)
  then show ?thesis by (simp add: row_sum_def pending_sum_def)
qed

text \<open>Finalising a run posts its reservations once and exactly: each loan's balance falls by the sum the run had
  reserved on it, other runs' reservations stay, nothing of the run remains unposted, and settling
  the run again finds nothing to do.\<close>

theorem settle_posts_once:
  assumes "ledger_ok st" and "settlePayrollLoans st run = Inr st'"
  shows "list_all2 (\<lambda>l l'. ln_id l' = ln_id l \<and>
      ln_outstandingMinor l' = ln_outstandingMinor l - pending_sum run (ln_id l) (ls_repayments st)) (ls_loans st) (ls_loans st') \<and>
    (\<forall>i other. other \<noteq> run \<longrightarrow> pending_sum other i (ls_repayments st') = pending_sum other i (ls_repayments st)) \<and>
    list_all (\<lambda>r. rp_payrollRunId r = Some run \<longrightarrow> rp_settled r) (ls_repayments st') \<and>
    settlePayrollLoans st' run = Inr st'"
proof -
  define rows where "rows = sort_key rp_loanId (filter (\<lambda>r. rp_payrollRunId r = Some run \<and> \<not> rp_settled r) (ls_repayments st))"
  have s: "ls_repayments st' = map (\<lambda>r. if rp_id r \<in> rp_id ` set rows then r\<lparr>rp_settled := True\<rparr> else r) (ls_repayments st)"
    "list_all2 (\<lambda>l l'. ln_id l' = ln_id l \<and> ln_outstandingMinor l' = ln_outstandingMinor l - row_sum (ln_id l) rows)
      (ls_loans st) (ls_loans st')"
    using settlePayrollLoans_rows [OF assms(2,1)] by (simp_all add: rows_def)
  have inrows: "rp_id r \<in> rp_id ` set rows \<longleftrightarrow> rp_payrollRunId r = Some run \<and> \<not> rp_settled r" if "r \<in> set (ls_repayments st)" for r
    using that assms(1) by (auto simp: rows_def ledger_ok_def ids_ok_def distinct_map inj_on_def)
  have reps: "ls_repayments st' = map (\<lambda>r. if rp_payrollRunId r = Some run \<and> \<not> rp_settled r then r\<lparr>rp_settled := True\<rparr> else r) (ls_repayments st)"
    unfolding s(1) by (rule map_cong [OF refl]) (simp add: inrows)
  have "pending_sum other i (map (\<lambda>r. if rp_payrollRunId r = Some run \<and> \<not> rp_settled r then r\<lparr>rp_settled := True\<rparr> else r) rs) =
      pending_sum other i rs" if "other \<noteq> run" for other i rs
    using that by (induction rs) (auto simp: pending_sum_def)
  moreover have done_all: "list_all (\<lambda>r. rp_payrollRunId r = Some run \<longrightarrow> rp_settled r) (ls_repayments st')"
    unfolding reps by (auto simp: list_all_iff)
  moreover have "filter (\<lambda>r. rp_payrollRunId r = Some run \<and> \<not> rp_settled r) (ls_repayments st') = []"
    using done_all by (auto simp: list_all_iff filter_empty_conv)
  then have "settlePayrollLoans st' run = Inr st'" by (simp add: settlePayrollLoans_def)
  ultimately show ?thesis using s(2) reps unfolding rows_def row_sum_pending by auto
qed

theorem settle_posts_once_witness:
  "\<exists>st' l'. settlePayrollLoans sample_ledger 7 = Inr st' \<and> ls_loans st' = [l'] \<and> ln_outstandingMinor l' = 600"
proof -
  obtain st' where s: "settlePayrollLoans sample_ledger 7 = Inr st'" using sample_settle by blast
  have "list_all2 (\<lambda>l l'. ln_id l' = ln_id l \<and>
      ln_outstandingMinor l' = ln_outstandingMinor l - pending_sum 7 (ln_id l) (ls_repayments sample_ledger))
      (ls_loans sample_ledger) (ls_loans st')"
    using settle_posts_once [OF sample_ledger_ok s] by blast
  then show ?thesis using s by (auto simp: sample_ledger_def pending_sum_def list_all2_Cons1)
qed

end
