(* ===== verification/PayrollRuns.thy ===== *)
theory PayrollRuns
  imports LoanLedger ApprovalEngine
begin

text \<open>
  The life of a payroll run, \<^verbatim>\<open>src/src/services/payrollService.js\<close>: creation, calculation with its payslips and
  loan reservations, the decision of the Approval Centre, finalisation and cancellation. Calculation
  commits each employee on its own, so a failure half way leaves what was written: a calculation
  returns the state it leaves behind and the error it ended with, if any. What the calculation reads
  besides runs, payslips, the loan ledger and the approval request is an argument: the readiness
  checks, the submitted timesheet, the open attendance requests, and the payslip the engine builds for
  an employee. Instants are milliseconds.
\<close>

section \<open>State\<close>

record prun =
  ru_id :: nat
  ru_start :: int
  ru_end :: int
  ru_currencyCode :: string
  ru_status :: string
  ru_processedBy :: "int option"
  ru_approvedBy :: "int option"
  ru_updatedAt :: int
  ru_totalGross :: string
  ru_totalDeductions :: string
  ru_totalNet :: string
  ru_employeeCount :: nat

record rslip =
  sl_id :: nat
  sl_run :: nat
  sl_employee :: int
  sl_status :: string
  sl_holdReason :: "string option"
  sl_distributed :: bool
  sl_gross :: string
  sl_deductions :: string
  sl_net :: string

text \<open>An attendance correction of an earlier period, waiting for the payslip that applies it.\<close>

record adjustment =
  ad_id :: nat
  ad_employee :: int
  ad_currency :: string
  ad_sourceEnd :: int
  ad_applied :: "nat option"

text \<open>A row of the payroll audit log; \<open>pa_rules\<close> is the copy of the deduction rules a run was priced with.\<close>

record paudit =
  pa_action :: string
  pa_run :: nat
  pa_slip :: "nat option"
  pa_employee :: "int option"
  pa_rules :: "string option"

text \<open>
  The approval requests are those of kind \<^verbatim>\<open>PAYROLL\<close>, by the run they are about, with the rows the payroll
  operations add to their audit trail. \<open>pt_released\<close> is the trail of released corrections, \<open>pt_outbox\<close> the
  events of finalised runs with the employees they announce to.
\<close>

record pstate =
  pt_runs :: "prun list"
  pt_nextRun :: nat
  pt_slips :: "rslip list"
  pt_nextSlip :: nat
  pt_ledger :: lstate
  pt_approvals :: "(nat \<times> request) list"
  pt_adjustments :: "adjustment list"
  pt_audit :: "paudit list"
  pt_approvalAudit :: "(nat \<times> audit) list"
  pt_released :: "(int \<times> adjustment list) list"
  pt_outbox :: "(nat \<times> int list) list"

definition payrollError :: "nat \<Rightarrow> string \<Rightarrow> hr_error" where
  "payrollError status message = AppError status message"

definition find_run :: "pstate \<Rightarrow> nat \<Rightarrow> prun option" where
  "find_run st i = find (\<lambda>r. ru_id r = i) (pt_runs st)"

definition update_run :: "nat \<Rightarrow> (prun \<Rightarrow> prun) \<Rightarrow> pstate \<Rightarrow> pstate" where
  "update_run i f st = st\<lparr>pt_runs := map (\<lambda>r. if ru_id r = i then f r else r) (pt_runs st)\<rparr>"

text \<open>
  The writes that only leave a trail are grouped here: each is one of the rows the operations add in
  the same transaction as their other writes.
\<close>

definition payroll_log :: "string \<Rightarrow> nat \<Rightarrow> nat option \<Rightarrow> int option \<Rightarrow> pstate \<Rightarrow> pstate" where
  "payroll_log action i slip employee st =
    st\<lparr>pt_audit := pt_audit st @ [\<lparr>pa_action = action, pa_run = i, pa_slip = slip, pa_employee = employee, pa_rules = None\<rparr>]\<rparr>"

definition RULES_SNAPSHOT_ACTION :: string where
  "RULES_SNAPSHOT_ACTION = ''ATTENDANCE_DEDUCTION_RULES_USED''"

definition snapshotDeductionRules :: "nat \<Rightarrow> string \<Rightarrow> int option \<Rightarrow> pstate \<Rightarrow> pstate" where
  "snapshotDeductionRules i rules actor st =
    (case find (\<lambda>a. pa_run a = i \<and> pa_action a = RULES_SNAPSHOT_ACTION) (rev (pt_audit st)) of
       Some a \<Rightarrow> if pa_rules a = Some rules then st
         else st\<lparr>pt_audit := pt_audit st @ [\<lparr>pa_action = RULES_SNAPSHOT_ACTION, pa_run = i, pa_slip = None, pa_employee = actor,
                pa_rules = Some rules\<rparr>]\<rparr>
     | None \<Rightarrow> st\<lparr>pt_audit := pt_audit st @ [\<lparr>pa_action = RULES_SNAPSHOT_ACTION, pa_run = i, pa_slip = None, pa_employee = actor,
                pa_rules = Some rules\<rparr>]\<rparr>)"

definition approval_log :: "nat \<Rightarrow> string \<Rightarrow> request \<Rightarrow> request \<Rightarrow> string \<Rightarrow> string \<Rightarrow> pstate \<Rightarrow> pstate" where
  "approval_log i actor before after action reason st =
    st\<lparr>pt_approvalAudit := pt_approvalAudit st @ [(i, \<lparr>au_version = rq_version after, au_round = rq_round after,
      au_actorCode = actor, au_fromStage = (rq_stage before, None), au_toStage = (rq_stage after, None), au_action = action,
      au_reason = Some reason, au_sourceHash = rq_sourceHash after\<rparr>)]\<rparr>"

text \<open>Corrections held by undistributed payslips of failed or cancelled runs are free again.\<close>

definition releaseFailedCarry :: "int \<Rightarrow> pstate \<Rightarrow> pstate" where
  "releaseFailedCarry employee st =
    (let failed = map ru_id (filter (\<lambda>r. ru_status r \<in> set [''CANCELLED'', ''FAILED'']) (pt_runs st));
         slips = map sl_id (filter (\<lambda>s. sl_employee s = employee \<and> sl_run s \<in> set failed \<and> sl_status s \<noteq> ''DISTRIBUTED'' \<and>
           \<not> sl_distributed s) (pt_slips st));
         held = (\<lambda>a. ad_employee a = employee \<and> (case ad_applied a of None \<Rightarrow> False | Some j \<Rightarrow> j \<in> set slips));
         released = filter held (pt_adjustments st)
     in if released = [] then st
        else st\<lparr>pt_adjustments := map (\<lambda>a. if ad_id a \<in> ad_id ` set released then a\<lparr>ad_applied := None\<rparr> else a) (pt_adjustments st),
                pt_released := pt_released st @ [(employee, released)]\<rparr>)"

definition due_adjustments :: "int \<Rightarrow> string \<Rightarrow> int \<Rightarrow> nat option \<Rightarrow> adjustment list \<Rightarrow> nat list" where
  "due_adjustments p_start currency employee previousSlip as =
    map ad_id (filter (\<lambda>a. ad_employee a = employee \<and> ad_currency a = currency \<and> ad_sourceEnd a < p_start \<and>
      (ad_applied a = None \<or> previousSlip \<noteq> None \<and> ad_applied a = previousSlip)) as)"

definition claim_adjustments :: "nat list \<Rightarrow> nat \<Rightarrow> pstate \<Rightarrow> pstate" where
  "claim_adjustments ids slip st =
    st\<lparr>pt_adjustments := map (\<lambda>a. if ad_id a \<in> set ids then a\<lparr>ad_applied := Some slip\<rparr> else a) (pt_adjustments st)\<rparr>"

section \<open>Creation\<close>

definition is_upper :: "char \<Rightarrow> bool" where
  "is_upper c \<longleftrightarrow> 65 \<le> (of_char c :: nat) \<and> (of_char c :: nat) \<le> 90"

text \<open>A date the caller's text does not denote is \<open>None\<close>.\<close>

definition assertPayrollPeriod :: "int option \<Rightarrow> int option \<Rightarrow> string \<Rightarrow> string \<Rightarrow> hr_error + int \<times> int" where
  "assertPayrollPeriod p_start p_end country currency =
    (case (p_start, p_end) of
       (Some s, Some e) \<Rightarrow>
         rbind (ensure (s \<le> e) (HRError 4301)) (\<lambda>_.
         rbind (ensure (length country = 2 \<and> list_all is_upper country \<and> length currency = 3 \<and> list_all is_upper currency)
           (HRError 4301)) (\<lambda>_. Inr (s, e)))
     | _ \<Rightarrow> Inl (HRError 4301))"

definition createPayrollRun :: "int \<Rightarrow> pstate \<Rightarrow> int option \<Rightarrow> int option \<Rightarrow> string \<Rightarrow> string \<Rightarrow> hr_error + pstate" where
  "createPayrollRun now st p_start p_end country currency =
    rbind (assertPayrollPeriod p_start p_end country currency) (\<lambda>(s, e).
    rbind (ensure (\<not> list_ex (\<lambda>r. ru_status r \<noteq> ''CANCELLED'' \<and> ru_start r \<le> e \<and> s \<le> ru_end r) (pt_runs st))
      (payrollError 409 ''Payroll run already exists for the specified period'')) (\<lambda>_.
      Inr (st\<lparr>pt_runs := pt_runs st @ [\<lparr>ru_id = pt_nextRun st, ru_start = s, ru_end = e, ru_currencyCode = currency,
             ru_status = ''PENDING'', ru_processedBy = None, ru_approvedBy = None, ru_updatedAt = now,
             ru_totalGross = ''0'', ru_totalDeductions = ''0'', ru_totalNet = ''0'',
             ru_employeeCount = 0\<rparr>],
           pt_nextRun := Suc (pt_nextRun st)\<rparr>)))"

section \<open>Calculation\<close>

definition PROCESSABLE_STATUSES :: "string list" where
  "PROCESSABLE_STATUSES = [''PENDING'', ''COMPLETED'', ''FAILED'', ''REJECTED'']"

text \<open>\<open>configured\<close> is the number the environment variable denotes, if any.\<close>

definition processingStaleMinutes :: "rat option \<Rightarrow> rat" where
  "processingStaleMinutes configured = (case configured of None \<Rightarrow> 30 | Some m \<Rightarrow> if m > 0 then m else 30)"

definition isStaleProcessing :: "rat option \<Rightarrow> int \<Rightarrow> prun \<Rightarrow> bool" where
  "isStaleProcessing configured now run \<longleftrightarrow> ru_status run = ''PROCESSING'' \<and>
    of_int (now - ru_updatedAt run) \<ge> processingStaleMinutes configured * 60000"

record claim_facts =
  cf_stale :: "rat option"
  cf_submitted :: bool
  cf_actor :: "(int \<times> string option) option"
  cf_openRequests :: nat
  cf_rules :: string
  cf_rulesActor :: "int option"

definition claimed :: "int \<Rightarrow> int \<Rightarrow> prun \<Rightarrow> prun" where
  "claimed actor now r = r\<lparr>ru_status := ''PROCESSING'', ru_processedBy := Some actor, ru_approvedBy := None, ru_updatedAt := now\<rparr>"

definition claimRun :: "int \<Rightarrow> pstate \<Rightarrow> nat \<Rightarrow> claim_facts \<Rightarrow> hr_error + pstate \<times> prun" where
  "claimRun now st i facts =
    rbind (require (find_run st i) (payrollError 404 ''Payroll run not found'')) (\<lambda>run.
    rbind (ensure (ru_status run \<in> set PROCESSABLE_STATUSES \<or> isStaleProcessing (cf_stale facts) now run)
      (payrollError 409 ''Payroll run cannot be processed'')) (\<lambda>_.
    rbind (ensure (cf_submitted facts) (payrollError 409 ''HR-TP-03'')) (\<lambda>_.
    rbind (ensure (case map_of (pt_approvals st) i of None \<Rightarrow> True | Some a \<Rightarrow> rq_stage a \<in> {INITIATOR, REJECTED})
      (payrollError 409 ''Return the payroll to its initiator before recalculation'')) (\<lambda>_.
    rbind (require (case cf_actor facts of Some (actor, Some code) \<Rightarrow> if code = [] then None else Some (actor, code) | _ \<Rightarrow> None)
      (payrollError 409 ''A verified employee code is required to process payroll'')) (\<lambda>(actor, code).
    rbind (ensure (case map_of (pt_approvals st) i of None \<Rightarrow> True | Some a \<Rightarrow> rq_employeeCode a = code)
      (payrollError 409 ''The payroll initiator must perform the recalculation'')) (\<lambda>_.
    rbind (ensure (cf_openRequests facts = 0) (payrollError 409 ''HR-TP-05'')) (\<lambda>_.
      let logged = (if isStaleProcessing (cf_stale facts) now run
            then payroll_log ''PAYROLL_PROCESSING_INTERRUPTED'' i None (Some actor) st else st)
      in Inr (update_run i (claimed actor now) logged, run))))))))"

text \<open>
  What loans contribute to the payslip of a run: repayments the run posted earlier count as still
  owed, reservations of other live runs as already spoken for.
\<close>

definition bridge_loan :: "nat \<Rightarrow> nat list \<Rightarrow> repayment list \<Rightarrow> loan \<Rightarrow> int \<times> int" where
  "bridge_loan run reserving rs l =
    (let mine = filter (\<lambda>r. rp_loanId r = ln_id l) rs;
         back = sum_list (map rp_amountMinor (filter (\<lambda>r. rp_settled r \<and> rp_payrollRunId r = Some run) mine));
         others = sum_list (map rp_amountMinor (filter (\<lambda>r. \<not> rp_settled r \<and> rp_payrollRunId r \<noteq> Some run \<and>
           (case rp_payrollRunId r of None \<Rightarrow> False | Some j \<Rightarrow> j \<in> set reserving)) mine));
         outstanding = max 0 (ln_outstandingMinor l + back - others)
     in (min (ln_monthlyInstallmentMinor l) outstanding, outstanding))"

record built =
  bu_gross :: string
  bu_deductions :: string
  bu_net :: string
  bu_lines :: "loan_line list"

definition number_negative :: "string \<Rightarrow> bool" where
  "number_negative t = (case decimalParts (Some t) of Inl _ \<Rightarrow> False | Inr p \<Rightarrow> fst p < 0)"

definition number_nonzero :: "string \<Rightarrow> bool" where
  "number_nonzero t = (case decimalParts (Some t) of Inl _ \<Rightarrow> True | Inr p \<Rightarrow> fst p \<noteq> 0)"

definition fill_slip :: "built \<Rightarrow> rslip \<Rightarrow> rslip" where
  "fill_slip b s = s\<lparr>sl_gross := bu_gross b, sl_deductions := bu_deductions b, sl_net := bu_net b, sl_status := ''DRAFT''\<rparr>"

definition is_slip :: "nat \<Rightarrow> int \<Rightarrow> rslip \<Rightarrow> bool" where
  "is_slip run employee s \<longleftrightarrow> sl_run s = run \<and> sl_employee s = employee"

text \<open>The transaction of one employee: the payslip is replaced when there is one, else created.\<close>

definition processEmployee :: "nat \<Rightarrow> int \<Rightarrow> string \<Rightarrow> int \<Rightarrow> (pstate \<Rightarrow> hr_error + built) \<Rightarrow> pstate \<Rightarrow> hr_error + pstate" where
  "processEmployee i p_start currency employee engine st =
    (let previous = find (is_slip i employee) (pt_slips st);
         st0 = releaseFailedCarry employee st;
         due = due_adjustments p_start currency employee (map_option sl_id previous) (pt_adjustments st0)
     in
     rbind (engine st0) (\<lambda>b.
     rbind (ensure (\<not> number_negative (bu_net b)) (payrollError 409 ''Negative net pay'')) (\<lambda>_.
      case previous of
        Some existing \<Rightarrow>
          rbind (reservePayrollLoans (pt_ledger st0) i (sl_id existing) (bu_lines b) currency) (\<lambda>l.
            Inr (claim_adjustments due (sl_id existing) (payroll_log ''PAYSLIP_REPROCESSED'' i (Some (sl_id existing)) (Some employee)
              (st0\<lparr>pt_slips := map (\<lambda>s. if sl_id s = sl_id existing then fill_slip b s else s) (pt_slips st0), pt_ledger := l\<rparr>))))
      | None \<Rightarrow>
          rbind (reservePayrollLoans (pt_ledger st0) i (pt_nextSlip st0) (bu_lines b) currency) (\<lambda>l.
            Inr (claim_adjustments due (pt_nextSlip st0) (payroll_log ''PAYSLIP_CREATED'' i (Some (pt_nextSlip st0)) (Some employee)
              (st0\<lparr>pt_slips := pt_slips st0 @ [fill_slip b \<lparr>sl_id = pt_nextSlip st0, sl_run = i, sl_employee = employee,
                   sl_status = ''DRAFT'', sl_holdReason = None, sl_distributed = False, sl_gross = [], sl_deductions = [], sl_net = []\<rparr>],
                   pt_nextSlip := Suc (pt_nextSlip st0), pt_ledger := l\<rparr>)))))))"

fun processEmployees :: "nat \<Rightarrow> int \<Rightarrow> string \<Rightarrow> (int \<Rightarrow> pstate \<Rightarrow> hr_error + built) \<Rightarrow> int list \<Rightarrow> pstate \<Rightarrow> pstate \<times> hr_error option" where
  "processEmployees i p_start currency engine [] st = (st, None)"
| "processEmployees i p_start currency engine (e # es) st =
    (case processEmployee i p_start currency e (engine e) st of
       Inl err \<Rightarrow> (st, Some err)
     | Inr st' \<Rightarrow> processEmployees i p_start currency engine es st')"

text \<open>Leftover payslips of people who no longer qualify: only empty drafts are removed, else the run fails.\<close>

definition removable :: "lstate \<Rightarrow> rslip \<Rightarrow> bool" where
  "removable l s \<longleftrightarrow> sl_status s = ''DRAFT'' \<and> \<not> sl_distributed s \<and>
    \<not> list_ex number_nonzero [sl_gross s, sl_deductions s, sl_net s] \<and>
    \<not> list_ex (\<lambda>r. rp_payslipId r = Some (sl_id s)) (ls_repayments l)"

definition removeIneligible :: "nat \<Rightarrow> int list \<Rightarrow> pstate \<Rightarrow> hr_error + pstate" where
  "removeIneligible i employees st =
    (let stale = (\<lambda>s. sl_run s = i \<and> sl_employee s \<notin> set employees) in
     rbind (ensure (list_all (removable (pt_ledger st)) (filter stale (pt_slips st)))
       (payrollError 409 ''An ineligible employee has a protected or nonzero payslip'')) (\<lambda>_.
       Inr (fold (\<lambda>s. payroll_log ''INELIGIBLE_ZERO_PAYSLIP_REMOVED'' i None (Some (sl_employee s))) (filter stale (pt_slips st))
         (st\<lparr>pt_slips := filter (\<lambda>s. \<not> stale s) (pt_slips st)\<rparr>))))"

definition sumSlips :: "string \<Rightarrow> (rslip \<Rightarrow> string) \<Rightarrow> rslip list \<Rightarrow> hr_error + string" where
  "sumSlips currency field slips =
    rbind (rmap (\<lambda>s. decimalToMinor (Some (field s)) (Some currency)) slips) (\<lambda>minors.
    rbind (money_sum (map JBigInt minors)) (\<lambda>m. minorToDecimal (JBigInt m) (Some currency)))"

definition reopen :: "request \<Rightarrow> request" where
  "reopen a = a\<lparr>rq_stage := INITIATOR, rq_version := Suc (rq_version a), rq_execution := ''PENDING'', rq_recommendation := None,
     rq_verification := None, rq_managerActorCode := None, rq_hrActorCode := None\<rparr>"

definition reopenApproval :: "nat \<Rightarrow> pstate \<Rightarrow> pstate" where
  "reopenApproval i st =
    (case map_of (pt_approvals st) i of
       None \<Rightarrow> st
     | Some a \<Rightarrow>
         if rq_stage a \<noteq> REJECTED then st
         else approval_log i (rq_employeeCode a) a (reopen a) ''RECALCULATE'' ''Rejected payroll recalculated; full review required''
           (st\<lparr>pt_approvals := map (\<lambda>(j, x). (j, if j = i then reopen x else x)) (pt_approvals st)\<rparr>))"

definition completeRun :: "int \<Rightarrow> nat \<Rightarrow> string \<Rightarrow> int list \<Rightarrow> pstate \<Rightarrow> hr_error + pstate" where
  "completeRun now i currency employees st =
    (let slips = filter (\<lambda>s. sl_run s = i \<and> sl_employee s \<in> set employees) (pt_slips st) in
     rbind (sumSlips currency sl_gross slips) (\<lambda>gross.
     rbind (sumSlips currency sl_deductions slips) (\<lambda>deductions.
     rbind (sumSlips currency sl_net slips) (\<lambda>net.
       let st1 = update_run i (\<lambda>r. r\<lparr>ru_status := ''COMPLETED'', ru_totalGross := gross, ru_totalDeductions := deductions,
             ru_totalNet := net, ru_employeeCount := length employees, ru_updatedAt := now\<rparr>) st
       in Inr (payroll_log ''PAYROLL_PROCESSED'' i None None (reopenApproval i st1))))))"

text \<open>A refused precondition puts the run back as it was, unless it was found interrupted; anything else fails it.\<close>

definition runUpdateAfterFailure :: "bool \<Rightarrow> prun \<Rightarrow> prun \<Rightarrow> prun" where
  "runUpdateAfterFailure preflight previous r =
    (if preflight \<and> ru_status previous \<noteq> ''PROCESSING''
     then r\<lparr>ru_status := ru_status previous, ru_processedBy := ru_processedBy previous, ru_approvedBy := ru_approvedBy previous\<rparr>
     else r\<lparr>ru_status := ''FAILED''\<rparr>)"

definition failRun :: "int \<Rightarrow> nat \<Rightarrow> bool \<Rightarrow> prun \<Rightarrow> pstate \<Rightarrow> pstate" where
  "failRun now i preflight previous st =
    update_run i (\<lambda>r. (runUpdateAfterFailure preflight previous r)\<lparr>ru_updatedAt := now\<rparr>) st"

definition calculate :: "prun \<Rightarrow> claim_facts \<Rightarrow> (int \<Rightarrow> pstate \<Rightarrow> hr_error + built) \<Rightarrow> int list \<Rightarrow> int \<Rightarrow> pstate \<Rightarrow> pstate \<times> hr_error option" where
  "calculate run facts engine employees now st =
    (case removeIneligible (ru_id run) employees st of
       Inl e \<Rightarrow> (st, Some e)
     | Inr st1 \<Rightarrow>
         (case processEmployees (ru_id run) (ru_start run) (ru_currencyCode run) engine employees
             (snapshotDeductionRules (ru_id run) (cf_rules facts) (cf_rulesActor facts) st1) of
            (st2, Some e) \<Rightarrow> (st2, Some e)
          | (st2, None) \<Rightarrow>
              (case completeRun now (ru_id run) (ru_currencyCode run) employees st2 of
                 Inl e \<Rightarrow> (st2, Some e) | Inr st3 \<Rightarrow> (st3, None))))"

definition processPayrollRun :: "int \<Rightarrow> int \<Rightarrow> pstate \<Rightarrow> nat \<Rightarrow> claim_facts \<Rightarrow> hr_error option \<Rightarrow>
    (int \<Rightarrow> pstate \<Rightarrow> hr_error + built) \<Rightarrow> int list \<Rightarrow> pstate \<times> hr_error option" where
  "processPayrollRun now later st i facts preflight engine employees =
    (case claimRun now st i facts of
       Inl e \<Rightarrow> (st, Some e)
     | Inr (st1, previous) \<Rightarrow>
         (case preflight of
            Some e \<Rightarrow> (failRun later i True previous st1, Some e)
          | None \<Rightarrow>
              (case calculate previous facts engine employees later st1 of
                 (st2, Some e) \<Rightarrow> (failRun later i False previous st2, Some e)
               | (st2, None) \<Rightarrow> (st2, None))))"

section \<open>Decision, finalisation, cancellation\<close>

definition decidePayroll :: "int \<Rightarrow> pstate \<Rightarrow> nat \<Rightarrow> bool \<Rightarrow> int \<Rightarrow> hr_error + pstate" where
  "decidePayroll now st i approved approver =
    rbind (require (find_run st i) (AppError 404 ''Request not found'')) (\<lambda>run.
    rbind (ensure (ru_status run = ''COMPLETED'') (HRError 4200)) (\<lambda>_.
      Inr (payroll_log (''PAYROLL_'' @ (if approved then ''APPROVED'' else ''REJECTED'')) i None None
        (update_run i (\<lambda>r. r\<lparr>ru_status := (if approved then ''APPROVED'' else ''REJECTED''),
          ru_approvedBy := (if approved then Some approver else None), ru_updatedAt := now\<rparr>) st))))"

definition assertIfMatch :: "int option \<Rightarrow> prun \<Rightarrow> hr_error + unit" where
  "assertIfMatch expected run =
    (case expected of
       None \<Rightarrow> Inr ()
     | Some v \<Rightarrow> ensure (ru_updatedAt run > 0 \<and> ru_updatedAt run = v) (AppError 412 ''HR-0412''))"

record final_facts =
  ff_ifMatch :: "int option"
  ff_digest :: string
  ff_ready :: "hr_error option"
  ff_openRequests :: nat

text \<open>The event of the outbox, in the transaction of the finalisation: every employee of the run once.\<close>

definition announce :: "nat \<Rightarrow> pstate \<Rightarrow> pstate" where
  "announce i st = st\<lparr>pt_outbox := pt_outbox st @ [(i, nub (map sl_employee (filter (\<lambda>s. sl_run s = i) (pt_slips st))))]\<rparr>"

definition finalizePayrollRun :: "int \<Rightarrow> pstate \<Rightarrow> nat \<Rightarrow> final_facts \<Rightarrow> hr_error + pstate" where
  "finalizePayrollRun now st i facts =
    rbind (require (find_run st i) (payrollError 404 ''Payroll run not found'')) (\<lambda>run.
      if ru_status run = ''FINALIZED'' then Inr st
      else
        rbind (assertIfMatch (ff_ifMatch facts) run) (\<lambda>_.
        rbind (ensure (ru_status run = ''APPROVED'' \<and> ru_approvedBy run \<noteq> None) (payrollError 409 ''HR-2012'')) (\<lambda>_.
        rbind (ensure (\<not> (ru_processedBy run \<noteq> None \<and> ru_approvedBy run = ru_processedBy run)) (payrollError 409 ''HR-2011'')) (\<lambda>_.
        rbind (ensure (case map_of (pt_approvals st) i of None \<Rightarrow> False
            | Some a \<Rightarrow> rq_stage a = APPROVED \<and> rq_sourceHash a = ff_digest facts)
          (payrollError 409 ''Complete HR Approval Centre review of the current payroll'')) (\<lambda>_.
        rbind (case ff_ready facts of None \<Rightarrow> Inr () | Some e \<Rightarrow> Inl e) (\<lambda>_.
        rbind (ensure (\<not> list_ex (\<lambda>s. sl_run s = i \<and> sl_status s = ''HOLD'') (pt_slips st))
          (payrollError 409 ''Resolve held payslips before finalization'')) (\<lambda>_.
        rbind (ensure (ff_openRequests facts = 0) (payrollError 409 ''HR-TP-05'')) (\<lambda>_.
        rbind (settlePayrollLoans (pt_ledger st) i) (\<lambda>l.
          Inr (announce i (payroll_log ''PAYROLL_FINALIZED'' i None None
            (update_run i (\<lambda>r. r\<lparr>ru_status := ''FINALIZED'', ru_updatedAt := now\<rparr>)
              (st\<lparr>pt_ledger := l,
                 pt_slips := map (\<lambda>s. if sl_run s = i then s\<lparr>sl_status := ''FINALIZED''\<rparr> else s) (pt_slips st)\<rparr>)))))))))))))"

definition withdrawApproval :: "nat \<Rightarrow> string option \<Rightarrow> pstate \<Rightarrow> hr_error + pstate" where
  "withdrawApproval i actorCode st =
    (case map_of (pt_approvals st) i of
       None \<Rightarrow> Inr st
     | Some a \<Rightarrow>
         rbind (ensure (rq_stage a \<in> {INITIATOR, REJECTED})
           (AppError 409 ''Return the payroll to its initiator before cancelling'')) (\<lambda>_.
         rbind (require (case actorCode of Some code \<Rightarrow> if code = [] then None else Some code | None \<Rightarrow> None)
           (AppError 403 ''A verified employee code is required to cancel submitted payroll'')) (\<lambda>code.
           let withdraw = (\<lambda>x. x\<lparr>rq_stage := WITHDRAWN, rq_execution := ''APPLIED'', rq_version := Suc (rq_version x)\<rparr>)
           in Inr (approval_log i code a (withdraw a) ''WITHDRAW'' ''Payroll run cancelled''
                (st\<lparr>pt_approvals := map (\<lambda>(j, x). (j, if j = i then withdraw x else x)) (pt_approvals st)\<rparr>)))))"

definition cancelPayrollRun :: "int \<Rightarrow> rat option \<Rightarrow> pstate \<Rightarrow> nat \<Rightarrow> int option \<Rightarrow> string option \<Rightarrow> hr_error + pstate" where
  "cancelPayrollRun now configured st i deletedBy actorCode =
    rbind (require (find_run st i) (payrollError 404 ''Payroll run not found'')) (\<lambda>run.
    rbind (ensure (ru_status run \<in> set [''PENDING'', ''FAILED'', ''REJECTED''] \<or> isStaleProcessing configured now run)
      (payrollError 409 ''Only pending, failed, interrupted or rejected payroll may be cancelled'')) (\<lambda>_.
    rbind (releaseReservations (pt_ledger st) i) (\<lambda>l.
    rbind (withdrawApproval i actorCode st) (\<lambda>st1.
      Inr (payroll_log ''PAYROLL_CANCELLED'' i None deletedBy
        (update_run i (\<lambda>r. r\<lparr>ru_status := ''CANCELLED'', ru_updatedAt := now\<rparr>) (st1\<lparr>pt_ledger := l\<rparr>)))))))"

section \<open>Payslip actions\<close>

definition BULK_ACTIONS :: "string list" where
  "BULK_ACTIONS = [''approve'', ''hold'', ''release'', ''disburse'']"

definition HOLDABLE_RUN_STATUSES :: "string list" where
  "HOLDABLE_RUN_STATUSES = [''COMPLETED'', ''REJECTED'', ''FAILED'']"

text \<open>What the run of a payslip must look like for the action.\<close>

definition run_allows :: "pstate \<Rightarrow> string \<Rightarrow> nat \<Rightarrow> bool" where
  "run_allows st action i =
    (case find_run st i of
       None \<Rightarrow> False
     | Some run \<Rightarrow>
         if action = ''disburse'' then ru_status run = ''FINALIZED'' \<and> ru_approvedBy run \<notin> {None, Some 0}
         else if action = ''release'' then ru_status run \<notin> set [''FINALIZED'', ''CANCELLED'']
         else ru_status run \<in> set HOLDABLE_RUN_STATUSES \<and>
           (case map_of (pt_approvals st) i of None \<Rightarrow> True | Some a \<Rightarrow> rq_stage a \<in> {INITIATOR, REJECTED}))"

definition required_status :: "string \<Rightarrow> string" where
  "required_status action = (if action = ''disburse'' then ''FINALIZED'' else if action = ''hold'' then ''DRAFT'' else ''HOLD'')"

definition acted :: "string \<Rightarrow> string option \<Rightarrow> rslip \<Rightarrow> rslip" where
  "acted action reason s =
    (if action = ''hold'' then s\<lparr>sl_status := ''HOLD'', sl_holdReason := reason\<rparr>
     else if action = ''release'' then s\<lparr>sl_status := ''DRAFT'', sl_holdReason := None\<rparr>
     else s\<lparr>sl_status := ''DISTRIBUTED'', sl_distributed := True\<rparr>)"

definition AUDIT_ACTIONS :: "string \<Rightarrow> string" where
  "AUDIT_ACTIONS action = (if action = ''hold'' then ''PAYSLIP_HELD'' else if action = ''release'' then ''PAYSLIP_HOLD_RELEASED''
     else ''PAYSLIP_DISTRIBUTED'')"

definition bulkPayslipAction :: "pstate \<Rightarrow> nat list \<Rightarrow> string \<Rightarrow> string option \<Rightarrow> int option \<Rightarrow> hr_error + pstate \<times> nat" where
  "bulkPayslipAction st ids action reason actorId =
    rbind (ensure (action \<in> set BULK_ACTIONS) (AppError 400 ''Unknown bulk action'')) (\<lambda>_.
      if ids = [] then Inr (st, 0)
      else
        rbind (ensure (action \<noteq> ''approve'') (AppError 409 ''Submit the complete payroll run in HR Approval Centre'')) (\<lambda>_.
        rbind (ensure (action \<in> {''hold'', ''release''} \<longrightarrow> (case reason of None \<Rightarrow> False | Some t \<Rightarrow> js_trim t \<noteq> []))
          (AppError 400 ''A reason is required'')) (\<lambda>_.
          let targets = filter (\<lambda>s. sl_id s \<in> set ids) (pt_slips st) in
          rbind (ensure (length targets = length ids) (AppError 404 ''One or more payslips are outside this company'')) (\<lambda>_.
          rbind (ensure (list_all (run_allows st action) (nub (map sl_run targets))) (AppError 409 action)) (\<lambda>_.
          rbind (ensure (list_all (\<lambda>s. sl_status s = required_status action) targets) (AppError 409 action)) (\<lambda>_.
            Inr (fold (\<lambda>s. payroll_log (AUDIT_ACTIONS action) (sl_run s) (Some (sl_id s)) actorId) targets
                  (st\<lparr>pt_slips := map (\<lambda>s. if sl_id s \<in> set ids then acted action reason s else s) (pt_slips st)\<rparr>),
                 length targets)))))))"

definition distributePayslip :: "pstate \<Rightarrow> nat \<Rightarrow> hr_error + pstate" where
  "distributePayslip st i =
    rbind (require (find (\<lambda>s. sl_id s = i) (pt_slips st)) (payrollError 409 ''Payslip not found'')) (\<lambda>s.
    rbind (ensure (sl_status s = ''FINALIZED'') (payrollError 409 ''Only finalized payslips can be distributed'')) (\<lambda>_.
      Inr (st\<lparr>pt_slips := map (\<lambda>x. if sl_id x = i then acted ''disburse'' None x else x) (pt_slips st)\<rparr>)))"

section \<open>The system of runs\<close>

text \<open>
  Manual operations on loans see the runs of the tenant. The requests of the Approval Centre and the
  attendance corrections move on their own, so a step may replace them by any others.
\<close>

definition ledger_view :: "pstate \<Rightarrow> lstate" where
  "ledger_view st = (pt_ledger st)\<lparr>ls_runs := map (\<lambda>r. (ru_id r, ru_status r)) (pt_runs st)\<rparr>"

inductive manual_loan :: "lstate \<Rightarrow> lstate \<Rightarrow> bool" where
  "createLoan l employee capital rate tenure kind = Inr l' \<Longrightarrow> 0 \<le> rate \<Longrightarrow> manual_loan l l'"
| "decideLoan l i approved = Inr l' \<Longrightarrow> manual_loan l l'"
| "decideWriteOff l i approved = Inr l' \<Longrightarrow> manual_loan l l'"
| "recordRepayment l i amount run payslip = Inr l' \<Longrightarrow> manual_loan l l'"

inductive run_step :: "pstate \<Rightarrow> pstate \<Rightarrow> bool" where
  create: "createPayrollRun now st p_start p_end country currency = Inr st' \<Longrightarrow> run_step st st'"
| process: "processPayrollRun now later st i facts preflight engine employees = (st', outcome) \<Longrightarrow> run_step st st'"
| decide: "decidePayroll now st i approved approver = Inr st' \<Longrightarrow> run_step st st'"
| finalize: "finalizePayrollRun now st i facts = Inr st' \<Longrightarrow> run_step st st'"
| cancel: "cancelPayrollRun now configured st i deletedBy actorCode = Inr st' \<Longrightarrow> run_step st st'"
| bulk: "bulkPayslipAction st ids action reason actorId = Inr (st', n) \<Longrightarrow> run_step st st'"
| distribute: "distributePayslip st i = Inr st' \<Longrightarrow> run_step st st'"
| loan: "manual_loan (ledger_view st) l \<Longrightarrow> run_step st (st\<lparr>pt_ledger := l\<rparr>)"
| others: "run_step st (st\<lparr>pt_approvals := aps, pt_adjustments := ads\<rparr>)"

definition run_init :: "pstate \<Rightarrow> bool" where
  "run_init st \<longleftrightarrow> pt_runs st = [] \<and> pt_slips st = [] \<and> loan_init (pt_ledger st)"

definition live :: "prun \<Rightarrow> bool" where
  "live r \<longleftrightarrow> ru_status r \<noteq> ''CANCELLED''"

definition apart :: "prun \<Rightarrow> prun \<Rightarrow> bool" where
  "apart r r' \<longleftrightarrow> ru_end r < ru_start r' \<or> ru_end r' < ru_start r"

text \<open>
  What the status of a run promises: an approved run has an approver; a finalised run was approved by
  somebody other than its processor, its payslips are final and its loan repayments are posted.
\<close>

definition status_ok :: "rslip list \<Rightarrow> repayment list \<Rightarrow> prun \<Rightarrow> bool" where
  "status_ok slips rs r \<longleftrightarrow>
    (ru_status r = ''APPROVED'' \<longrightarrow> ru_approvedBy r \<noteq> None) \<and>
    (ru_status r = ''FINALIZED'' \<longrightarrow> (\<exists>a. ru_approvedBy r = Some a \<and> ru_processedBy r \<noteq> Some a) \<and>
      list_all (\<lambda>s. sl_run s = ru_id r \<longrightarrow> sl_status s \<in> {''FINALIZED'', ''DISTRIBUTED''}) slips \<and>
      list_all (\<lambda>p. rp_payrollRunId p = Some (ru_id r) \<longrightarrow> rp_settled p) rs)"

definition run_inv :: "pstate \<Rightarrow> bool" where
  "run_inv st \<longleftrightarrow>
    distinct (map ru_id (pt_runs st)) \<and> list_all (\<lambda>r. ru_id r < pt_nextRun st \<and> ru_start r \<le> ru_end r) (pt_runs st) \<and>
    (\<forall>r \<in> set (pt_runs st). \<forall>r' \<in> set (pt_runs st). ru_id r \<noteq> ru_id r' \<longrightarrow> live r \<longrightarrow> live r' \<longrightarrow> apart r r') \<and>
    distinct (map sl_id (pt_slips st)) \<and> list_all (\<lambda>s. sl_id s < pt_nextSlip st) (pt_slips st) \<and>
    list_all (status_ok (pt_slips st) (ls_repayments (pt_ledger st))) (pt_runs st) \<and>
    ledger_ok (pt_ledger st)"

lemma find_run_Some: "find_run st i = Some r \<Longrightarrow> r \<in> set (pt_runs st) \<and> ru_id r = i"
  by (auto simp: find_run_def find_Some_iff)

lemma run_unique: "run_inv st \<Longrightarrow> r \<in> set (pt_runs st) \<Longrightarrow> r' \<in> set (pt_runs st) \<Longrightarrow> ru_id r = ru_id r' \<Longrightarrow> r = r'"
  by (auto simp: run_inv_def distinct_map inj_on_def)

lemma trail_simps [simp]:
  "pt_slips (payroll_log a i p e st) = pt_slips st" "pt_ledger (payroll_log a i p e st) = pt_ledger st"
  "pt_runs (payroll_log a i p e st) = pt_runs st" "pt_nextRun (payroll_log a i p e st) = pt_nextRun st"
  "pt_nextSlip (payroll_log a i p e st) = pt_nextSlip st" "pt_approvals (payroll_log a i p e st) = pt_approvals st"
  "pt_slips (approval_log i c x y a t st) = pt_slips st" "pt_ledger (approval_log i c x y a t st) = pt_ledger st"
  "pt_runs (approval_log i c x y a t st) = pt_runs st" "pt_nextRun (approval_log i c x y a t st) = pt_nextRun st"
  "pt_nextSlip (approval_log i c x y a t st) = pt_nextSlip st"
  "pt_slips (announce i st) = pt_slips st" "pt_ledger (announce i st) = pt_ledger st"
  "pt_runs (announce i st) = pt_runs st" "pt_nextRun (announce i st) = pt_nextRun st"
  "pt_nextSlip (announce i st) = pt_nextSlip st"
  by (simp_all add: payroll_log_def approval_log_def announce_def)

lemma carry_simps [simp]:
  "pt_slips (releaseFailedCarry e st) = pt_slips st" "pt_ledger (releaseFailedCarry e st) = pt_ledger st"
  "pt_runs (releaseFailedCarry e st) = pt_runs st" "pt_nextRun (releaseFailedCarry e st) = pt_nextRun st"
  "pt_nextSlip (releaseFailedCarry e st) = pt_nextSlip st"
  "pt_slips (claim_adjustments ids j st) = pt_slips st" "pt_ledger (claim_adjustments ids j st) = pt_ledger st"
  "pt_runs (claim_adjustments ids j st) = pt_runs st" "pt_nextRun (claim_adjustments ids j st) = pt_nextRun st"
  "pt_nextSlip (claim_adjustments ids j st) = pt_nextSlip st"
  by (simp_all add: releaseFailedCarry_def claim_adjustments_def Let_def)

lemma snapshot_simps [simp]:
  "pt_slips (snapshotDeductionRules i rules e st) = pt_slips st" "pt_ledger (snapshotDeductionRules i rules e st) = pt_ledger st"
  "pt_runs (snapshotDeductionRules i rules e st) = pt_runs st" "pt_nextRun (snapshotDeductionRules i rules e st) = pt_nextRun st"
  "pt_nextSlip (snapshotDeductionRules i rules e st) = pt_nextSlip st"
  by (simp_all add: snapshotDeductionRules_def split: option.split)

lemma fold_log_simps [simp]:
  "pt_slips (fold (\<lambda>s. payroll_log a (f s) (g s) (h s)) xs st) = pt_slips st"
  "pt_ledger (fold (\<lambda>s. payroll_log a (f s) (g s) (h s)) xs st) = pt_ledger st"
  "pt_runs (fold (\<lambda>s. payroll_log a (f s) (g s) (h s)) xs st) = pt_runs st"
  "pt_nextRun (fold (\<lambda>s. payroll_log a (f s) (g s) (h s)) xs st) = pt_nextRun st"
  "pt_nextSlip (fold (\<lambda>s. payroll_log a (f s) (g s) (h s)) xs st) = pt_nextSlip st"
  by (induction xs arbitrary: st) simp_all

text \<open>The invariant does not look at the trail, the approval requests or the corrections.\<close>

lemma run_inv_cong:
  assumes "pt_runs st' = pt_runs st" "pt_nextRun st' = pt_nextRun st" "pt_slips st' = pt_slips st"
    "pt_nextSlip st' = pt_nextSlip st" "pt_ledger st' = pt_ledger st"
  shows "run_inv st' = run_inv st"
  using assms by (simp add: run_inv_def)

lemma run_inv_trail [simp]:
  "run_inv (payroll_log a i p e st) = run_inv st" "run_inv (approval_log i c x y a t st) = run_inv st"
  "run_inv (announce i st) = run_inv st" "run_inv (st\<lparr>pt_approvals := aps\<rparr>) = run_inv st"
  "run_inv (st\<lparr>pt_adjustments := ads\<rparr>) = run_inv st"
  "run_inv (snapshotDeductionRules i rules actor st) = run_inv st"
  by (simp_all cong: run_inv_cong add: run_inv_def)

lemma update_run_simps [simp]:
  "pt_slips (update_run i f st) = pt_slips st" "pt_ledger (update_run i f st) = pt_ledger st"
  "pt_approvals (update_run i f st) = pt_approvals st" "pt_nextRun (update_run i f st) = pt_nextRun st"
  "pt_nextSlip (update_run i f st) = pt_nextSlip st"
  "pt_runs (update_run i f st) = map (\<lambda>r. if ru_id r = i then f r else r) (pt_runs st)"
  by (simp_all add: update_run_def)

text \<open>Updating a live run keeps the invariant as long as its new status keeps its promise.\<close>

lemma update_run_inv:
  assumes "run_inv st" and "find_run st i = Some r" and "live r"
    and "\<And>x. ru_id (f x) = ru_id x \<and> ru_start (f x) = ru_start x \<and> ru_end (f x) = ru_end x"
    and "status_ok (pt_slips st) (ls_repayments (pt_ledger st)) (f r)"
  shows "run_inv (update_run i f st)"
proof -
  let ?g = "\<lambda>x. if ru_id x = i then f x else x"
  have keep: "ru_id (?g x) = ru_id x" "ru_start (?g x) = ru_start x" "ru_end (?g x) = ru_end x" for x using assms(4) by auto
  have r: "r \<in> set (pt_runs st)" "ru_id r = i" using find_run_Some [OF assms(2)] by auto
  have only: "x = r" if "x \<in> set (pt_runs st)" "ru_id x = i" for x using run_unique [OF assms(1)] r that by auto
  have live: "live x" if "x \<in> set (pt_runs st)" "live (?g x)" for x
    using that only assms(3) by (cases "ru_id x = i") auto
  have ids: "map ru_id (map ?g (pt_runs st)) = map ru_id (pt_runs st)" by (simp add: keep)
  have "distinct (map ru_id (map ?g (pt_runs st)))" unfolding ids using assms(1) by (simp add: run_inv_def)
  moreover have "list_all (\<lambda>r. ru_id r < pt_nextRun st \<and> ru_start r \<le> ru_end r) (map ?g (pt_runs st))"
    using assms(1) unfolding run_inv_def list_all_iff set_map by (auto simp: keep assms(4))
  moreover have "apart y y'" if yy: "y \<in> set (map ?g (pt_runs st))" "y' \<in> set (map ?g (pt_runs st))"
    "ru_id y \<noteq> ru_id y'" "live y" "live y'" for y y'
  proof -
    obtain x x' where x: "x \<in> set (pt_runs st)" "y = ?g x" and x': "x' \<in> set (pt_runs st)" "y' = ?g x'"
      using yy(1,2) unfolding set_map by blast
    have "live x" "live x'" using live x x' yy(4,5) by blast+
    moreover have "ru_id x \<noteq> ru_id x'" using yy(3) keep x(2) x'(2) by simp
    ultimately have "apart x x'" using assms(1) x(1) x'(1) unfolding run_inv_def by blast
    then show ?thesis using keep x(2) x'(2) by (simp add: apart_def)
  qed
  moreover have "list_all (status_ok (pt_slips st) (ls_repayments (pt_ledger st))) (map ?g (pt_runs st))"
    using assms(1,5) only by (auto simp: run_inv_def list_all_iff)
  ultimately show ?thesis using assms(1) unfolding run_inv_def update_run_simps by blast
qed

text \<open>Changing payslips and ledger of a run that is not finalised.\<close>

lemma content_inv:
  assumes "run_inv st" and "\<And>r. r \<in> set (pt_runs st) \<Longrightarrow> ru_id r = i \<Longrightarrow> ru_status r \<noteq> ''FINALIZED''"
    and "pt_runs st' = pt_runs st" "pt_nextRun st' = pt_nextRun st"
    and "distinct (map sl_id (pt_slips st'))" "list_all (\<lambda>s. sl_id s < pt_nextSlip st') (pt_slips st')"
    and "\<And>s. s \<in> set (pt_slips st') \<Longrightarrow> s \<in> set (pt_slips st) \<or> sl_run s = i"
    and "\<And>p. p \<in> set (ls_repayments (pt_ledger st')) \<Longrightarrow>
      rp_settled p \<or> p \<in> set (ls_repayments (pt_ledger st)) \<or> rp_payrollRunId p = Some i"
    and "ledger_ok (pt_ledger st')"
  shows "run_inv st'"
proof -
  have "status_ok (pt_slips st') (ls_repayments (pt_ledger st')) r" if r: "r \<in> set (pt_runs st)" for r
  proof (cases "ru_id r = i")
    case True
    then show ?thesis using assms(1,2) r by (auto simp: run_inv_def status_ok_def list_all_iff)
  next
    case False
    have old: "status_ok (pt_slips st) (ls_repayments (pt_ledger st)) r" using assms(1) r by (simp add: run_inv_def list_all_iff)
    have "list_all (\<lambda>s. sl_run s = ru_id r \<longrightarrow> sl_status s \<in> {''FINALIZED'', ''DISTRIBUTED''}) (pt_slips st')"
      if "list_all (\<lambda>s. sl_run s = ru_id r \<longrightarrow> sl_status s \<in> {''FINALIZED'', ''DISTRIBUTED''}) (pt_slips st)"
      unfolding list_all_iff
    proof (intro ballI impI)
      fix s
      assume "s \<in> set (pt_slips st')" and s: "sl_run s = ru_id r"
      then have "s \<in> set (pt_slips st)" using assms(7) False by fastforce
      then show "sl_status s \<in> {''FINALIZED'', ''DISTRIBUTED''}" using that s by (simp add: list_all_iff)
    qed
    moreover have "list_all (\<lambda>p. rp_payrollRunId p = Some (ru_id r) \<longrightarrow> rp_settled p) (ls_repayments (pt_ledger st'))"
      if "list_all (\<lambda>p. rp_payrollRunId p = Some (ru_id r) \<longrightarrow> rp_settled p) (ls_repayments (pt_ledger st))"
      unfolding list_all_iff
    proof (intro ballI impI)
      fix p
      assume "p \<in> set (ls_repayments (pt_ledger st'))" and p: "rp_payrollRunId p = Some (ru_id r)"
      then have "rp_settled p \<or> p \<in> set (ls_repayments (pt_ledger st))" using assms(8) False by fastforce
      then show "rp_settled p" using that p by (auto simp: list_all_iff)
    qed
    ultimately show ?thesis using old unfolding status_ok_def by blast
  qed
  then show ?thesis using assms(1,3-6,9) by (simp add: run_inv_def list_all_iff)
qed

lemma reserve_rows:
  assumes "reservePayrollLoans l i ps lines currency = Inr l'" and "p \<in> set (ls_repayments l')"
  shows "p \<in> set (ls_repayments l) \<or> rp_payrollRunId p = Some i"
proof -
  let ?cleared = "l\<lparr>ls_repayments := filter (\<lambda>r. \<not> (of_slip i ps r \<and> \<not> rp_settled r)) (ls_repayments l)\<rparr>"
  let ?P = "\<lambda>x. \<forall>p \<in> set (ls_repayments x). p \<in> set (ls_repayments l) \<or> rp_payrollRunId p = Some i"
  have f: "rfold (reserve_line i ps currency (filter (of_slip i ps) (ls_repayments l))) lines ?cleared = Inr l'"
    using assms(1) by (auto simp: reservePayrollLoans_def Let_def result_simps)
  have "?P ?cleared" by auto
  with f have "?P l'"
  proof (rule rfold_invariant)
    show "?P y" if "?P x" "reserve_line i ps currency (filter (of_slip i ps) (ls_repayments l)) line x = Inr y" for line x y
      using that by (auto simp: reserve_line_def result_simps split: option.splits if_splits)
  qed
  then show ?thesis using assms(2) by blast
qed

lemma settle_rows_kept:
  assumes "settlePayrollLoans l i = Inr l'" and "ledger_ok l" and "p \<in> set (ls_repayments l')"
  shows "rp_settled p \<or> p \<in> set (ls_repayments l)"
  using settlePayrollLoans_rows [OF assms(1,2)] assms(3) by auto

section \<open>Every operation keeps the invariant\<close>

lemma createPayrollRun_inv:
  assumes "createPayrollRun now st p_start p_end country currency = Inr st'" and "run_inv st"
  shows "run_inv st'"
proof -
  obtain s e r where se: "s \<le> e" and free: "\<not> list_ex (\<lambda>r. ru_status r \<noteq> ''CANCELLED'' \<and> ru_start r \<le> e \<and> s \<le> ru_end r) (pt_runs st)"
    and st': "st' = st\<lparr>pt_runs := pt_runs st @ [r], pt_nextRun := Suc (pt_nextRun st)\<rparr>"
    and r: "ru_id r = pt_nextRun st" "ru_start r = s" "ru_end r = e" "ru_status r = ''PENDING''"
    using assms(1)
    by (auto simp: createPayrollRun_def assertPayrollPeriod_def result_simps split: option.splits if_splits)
  have "apart x r \<and> apart r x" if "x \<in> set (pt_runs st)" "live x" for x
    using free that r by (auto simp: list_ex_iff live_def apart_def)
  then show ?thesis using assms(2) r se by (auto simp: st' run_inv_def list_all_iff status_ok_def)
qed

lemma status_ok_other [simp]:
  "ru_status r \<noteq> ''APPROVED'' \<Longrightarrow> ru_status r \<noteq> ''FINALIZED'' \<Longrightarrow> status_ok slips rs r"
  by (simp add: status_ok_def)

lemma claimRun_Inr:
  assumes "claimRun now st i facts = Inr (st1, previous)"
  shows "find_run st i = Some previous" "live previous" "ru_status previous \<notin> {''APPROVED'', ''FINALIZED''}"
    "\<exists>actor. pt_runs st1 = pt_runs (update_run i (claimed actor now) st) \<and> pt_nextRun st1 = pt_nextRun st \<and>
      pt_slips st1 = pt_slips st \<and> pt_nextSlip st1 = pt_nextSlip st \<and> pt_ledger st1 = pt_ledger st"
proof -
  obtain actor st0 where a: "find_run st i = Some previous"
      "ru_status previous \<in> set PROCESSABLE_STATUSES \<or> isStaleProcessing (cf_stale facts) now previous"
      "st0 = st \<or> st0 = payroll_log ''PAYROLL_PROCESSING_INTERRUPTED'' i None (Some actor) st"
      "st1 = update_run i (claimed actor now) st0"
    using assms unfolding claimRun_def rbind_Inr_iff ensure_Inr_iff require_Inr_iff claimed_def Let_def
    by (auto split: if_split_asm)
  then show "find_run st i = Some previous" "live previous" "ru_status previous \<notin> {''APPROVED'', ''FINALIZED''}"
    by (auto simp: live_def PROCESSABLE_STATUSES_def isStaleProcessing_def)
  show "\<exists>actor. pt_runs st1 = pt_runs (update_run i (claimed actor now) st) \<and> pt_nextRun st1 = pt_nextRun st \<and>
      pt_slips st1 = pt_slips st \<and> pt_nextSlip st1 = pt_nextSlip st \<and> pt_ledger st1 = pt_ledger st"
    using a(3,4) by (intro exI [of _ actor]) auto
qed

text \<open>A run that is being calculated: it exists and its status promises nothing.\<close>

definition in_work :: "nat \<Rightarrow> pstate \<Rightarrow> bool" where
  "in_work i st \<longleftrightarrow> run_inv st \<and> (\<exists>r. find_run st i = Some r \<and> ru_status r = ''PROCESSING'')"

lemma in_work_status: "in_work i st \<Longrightarrow> r \<in> set (pt_runs st) \<Longrightarrow> ru_id r = i \<Longrightarrow> ru_status r = ''PROCESSING''"
  using run_unique find_run_Some unfolding in_work_def by blast

lemma find_run_map:
  assumes "\<And>x. ru_id (f x) = ru_id x" and "find_run st i = Some r"
  shows "find_run (update_run i f st) i = Some (f r)"
  using assms find_run_Some [OF assms(2)] by (simp add: find_run_def find_map_same)

lemma claimRun_in_work:
  assumes "claimRun now st i facts = Inr (st1, previous)" and "run_inv st"
  shows "in_work i st1"
proof -
  note c = claimRun_Inr [OF assms(1)]
  obtain actor where same: "pt_runs st1 = pt_runs (update_run i (claimed actor now) st)" "pt_nextRun st1 = pt_nextRun st"
    "pt_slips st1 = pt_slips st" "pt_nextSlip st1 = pt_nextSlip st" "pt_ledger st1 = pt_ledger st" using c(4) by blast
  have "run_inv (update_run i (claimed actor now) st)"
    by (rule update_run_inv [OF assms(2) c(1,2)]) (simp_all add: claimed_def)
  then have "run_inv st1" using same run_inv_cong [of st1 "update_run i (claimed actor now) st"] by simp
  moreover have "find_run (update_run i (claimed actor now) st) i = Some (claimed actor now previous)"
    by (rule find_run_map [OF _ c(1)]) (simp add: claimed_def)
  then have "find_run st1 i = Some (claimed actor now previous)" using same(1) by (simp add: find_run_def)
  ultimately show ?thesis by (simp add: in_work_def claimed_def)
qed

lemma in_work_content:
  assumes "in_work i st" and "pt_runs st' = pt_runs st" "pt_nextRun st' = pt_nextRun st"
    and "distinct (map sl_id (pt_slips st'))" "list_all (\<lambda>s. sl_id s < pt_nextSlip st') (pt_slips st')"
    and "\<And>s. s \<in> set (pt_slips st') \<Longrightarrow> s \<in> set (pt_slips st) \<or> sl_run s = i"
    and "\<And>p. p \<in> set (ls_repayments (pt_ledger st')) \<Longrightarrow>
      rp_settled p \<or> p \<in> set (ls_repayments (pt_ledger st)) \<or> rp_payrollRunId p = Some i"
    and "ledger_ok (pt_ledger st')"
  shows "in_work i st'"
proof -
  have inv: "run_inv st" using assms(1) by (simp add: in_work_def)
  have "ru_status r \<noteq> ''FINALIZED''" if "r \<in> set (pt_runs st)" "ru_id r = i" for r
    using in_work_status [OF assms(1) that] by simp
  from content_inv [OF inv this assms(2-8)] have "run_inv st'" by blast
  then show ?thesis using assms(1,2) by (simp add: in_work_def find_run_def)
qed

lemma fill_slip_simps [simp]: "sl_id (fill_slip b s) = sl_id s" "sl_run (fill_slip b s) = sl_run s"
  by (simp_all add: fill_slip_def)

lemma processEmployee_in_work:
  assumes "processEmployee i p_start currency employee engine st = Inr st'" and "in_work i st"
  shows "in_work i st'"
proof -
  have inv: "distinct (map sl_id (pt_slips st))" "list_all (\<lambda>s. sl_id s < pt_nextSlip st) (pt_slips st)" "ledger_ok (pt_ledger st)"
    using assms(2) by (auto simp: in_work_def run_inv_def)
  obtain b where b: "engine (releaseFailedCarry employee st) = Inr b"
    using assms(1) by (auto simp: processEmployee_def result_simps Let_def)
  show ?thesis
  proof (cases "find (is_slip i employee) (pt_slips st)")
    case None
    then obtain l where l: "reservePayrollLoans (pt_ledger st) i (pt_nextSlip st) (bu_lines b) currency = Inr l"
      and st': "pt_runs st' = pt_runs st" "pt_nextRun st' = pt_nextRun st" "pt_ledger st' = l"
        "pt_nextSlip st' = Suc (pt_nextSlip st)" "\<exists>s. pt_slips st' = pt_slips st @ [s] \<and> sl_id s = pt_nextSlip st \<and> sl_run s = i"
      using assms(1) b by (auto simp: processEmployee_def result_simps Let_def split: if_splits)
    obtain s where s: "pt_slips st' = pt_slips st @ [s]" "sl_id s = pt_nextSlip st" "sl_run s = i" using st'(5) by blast
    have less: "sl_id x < pt_nextSlip st" if "x \<in> set (pt_slips st)" for x using inv(2) that by (simp add: list_all_iff)
    show ?thesis
    proof (rule in_work_content [OF assms(2) st'(1,2)])
      show "distinct (map sl_id (pt_slips st'))" using inv(1) s less by force
      show "list_all (\<lambda>s. sl_id s < pt_nextSlip st') (pt_slips st')" using s st'(4) less by (auto simp: list_all_iff less_SucI)
      show "rp_settled p \<or> p \<in> set (ls_repayments (pt_ledger st)) \<or> rp_payrollRunId p = Some i"
        if "p \<in> set (ls_repayments (pt_ledger st'))" for p
        using that reserve_rows [OF l] st'(3) by auto
      show "ledger_ok (pt_ledger st')" using reservePayrollLoans_ok [OF l inv(3)] st'(3) by simp
    qed (use s in auto)
  next
    case (Some existing)
    then have ex: "existing \<in> set (pt_slips st)" "sl_run existing = i" by (auto simp: find_Some_iff is_slip_def)
    obtain l where l: "reservePayrollLoans (pt_ledger st) i (sl_id existing) (bu_lines b) currency = Inr l"
      and st': "pt_runs st' = pt_runs st" "pt_nextRun st' = pt_nextRun st" "pt_ledger st' = l" "pt_nextSlip st' = pt_nextSlip st"
      and slips: "pt_slips st' = map (\<lambda>s. if sl_id s = sl_id existing then fill_slip b s else s) (pt_slips st)"
      using assms(1) b Some by (auto simp: processEmployee_def result_simps Let_def split: if_splits)
    have same: "s = existing" if "s \<in> set (pt_slips st)" "sl_id s = sl_id existing" for s
      using inv(1) ex that by (auto simp: distinct_map inj_on_def)
    have ids: "map sl_id (pt_slips st') = map sl_id (pt_slips st)" by (simp add: slips)
    show ?thesis
    proof (rule in_work_content [OF assms(2) st'(1,2)])
      show "distinct (map sl_id (pt_slips st'))" unfolding ids by (rule inv(1))
      show "list_all (\<lambda>s. sl_id s < pt_nextSlip st') (pt_slips st')" using inv(2) by (auto simp: slips st' list_all_iff)
      show "s \<in> set (pt_slips st) \<or> sl_run s = i" if "s \<in> set (pt_slips st')" for s
        using that ex(2) same unfolding slips by force
      show "rp_settled p \<or> p \<in> set (ls_repayments (pt_ledger st)) \<or> rp_payrollRunId p = Some i"
        if "p \<in> set (ls_repayments (pt_ledger st'))" for p
        using that reserve_rows [OF l] st'(3) by auto
      show "ledger_ok (pt_ledger st')" using reservePayrollLoans_ok [OF l inv(3)] st'(3) by simp
    qed
  qed
qed

lemma processEmployees_in_work:
  "processEmployees i p_start currency engine es st = (st', e) \<Longrightarrow> in_work i st \<Longrightarrow> in_work i st'"
  by (induction es arbitrary: st) (auto split: sum.splits dest: processEmployee_in_work)

lemma removeIneligible_in_work:
  assumes "removeIneligible i employees st = Inr st'" and "in_work i st"
  shows "in_work i st'"
proof -
  have st': "pt_slips st' = filter (\<lambda>s. \<not> (sl_run s = i \<and> sl_employee s \<notin> set employees)) (pt_slips st)"
      "pt_runs st' = pt_runs st" "pt_nextRun st' = pt_nextRun st" "pt_nextSlip st' = pt_nextSlip st" "pt_ledger st' = pt_ledger st"
    using assms(1) by (auto simp: removeIneligible_def Let_def split: if_splits)
  show ?thesis
    by (rule in_work_content [OF assms(2)])
      (use assms(2) in \<open>auto simp: st' in_work_def run_inv_def list_all_iff distinct_map_filter\<close>)
qed

lemma in_work_update:
  assumes "in_work i st" and "\<And>x. ru_id (f x) = ru_id x \<and> ru_start (f x) = ru_start x \<and> ru_end (f x) = ru_end x"
    and "\<And>r. ru_status (f r) \<notin> {''APPROVED'', ''FINALIZED''}"
  shows "run_inv (update_run i f st)"
proof -
  obtain r where r: "find_run st i = Some r" "ru_status r = ''PROCESSING''" using assms(1) by (auto simp: in_work_def)
  show ?thesis
    by (rule update_run_inv [OF _ r(1)]) (use assms r(2) in \<open>auto simp: in_work_def live_def\<close>)
qed

lemma reopen_simps [simp]:
  "pt_runs (reopenApproval i st) = pt_runs st" "pt_nextRun (reopenApproval i st) = pt_nextRun st"
  "pt_slips (reopenApproval i st) = pt_slips st" "pt_nextSlip (reopenApproval i st) = pt_nextSlip st"
  "pt_ledger (reopenApproval i st) = pt_ledger st"
  by (simp_all add: reopenApproval_def split: option.split)

lemma run_inv_reopen [simp]: "run_inv (reopenApproval i st) = run_inv st"
  by (rule run_inv_cong) simp_all

lemma in_work_snapshot [simp]: "in_work i (snapshotDeductionRules j rules actor st) = in_work i st"
  by (simp add: in_work_def find_run_def)

lemma completeRun_inv:
  assumes "completeRun now i currency employees st = Inr st'" and "in_work i st"
  shows "run_inv st'"
proof -
  obtain gross deductions net where st': "st' = payroll_log ''PAYROLL_PROCESSED'' i None None (reopenApproval i
      (update_run i (\<lambda>r. r\<lparr>ru_status := ''COMPLETED'', ru_totalGross := gross, ru_totalDeductions := deductions,
        ru_totalNet := net, ru_employeeCount := length employees, ru_updatedAt := now\<rparr>) st))"
    using assms(1) by (auto simp: completeRun_def result_simps Let_def)
  show ?thesis unfolding st' run_inv_trail run_inv_reopen by (rule in_work_update [OF assms(2)]) simp_all
qed

lemma calculate_cases:
  assumes "calculate run facts engine employees now st = (st', outcome)" and "in_work (ru_id run) st"
  shows "(outcome = None \<and> run_inv st') \<or> (outcome \<noteq> None \<and> in_work (ru_id run) st')"
proof (cases "removeIneligible (ru_id run) employees st")
  case (Inl e)
  then show ?thesis using assms by (auto simp: calculate_def)
next
  case (Inr st1)
  let ?st1 = "snapshotDeductionRules (ru_id run) (cf_rules facts) (cf_rulesActor facts) st1"
  obtain st2 e where p: "processEmployees (ru_id run) (ru_start run) (ru_currencyCode run) engine employees ?st1 = (st2, e)" by fastforce
  have w: "in_work (ru_id run) st2"
    using processEmployees_in_work [OF p] removeIneligible_in_work [OF Inr assms(2)] by simp
  show ?thesis
  proof (cases "completeRun now (ru_id run) (ru_currencyCode run) employees st2")
    case c: (Inl e')
    then show ?thesis using assms(1) Inr p w by (cases e) (auto simp: calculate_def)
  next
    case c: (Inr st3)
    then show ?thesis using assms(1) Inr p w completeRun_inv [OF c w] by (cases e) (auto simp: calculate_def)
  qed
qed

lemma failRun_inv:
  assumes "in_work i st" and "ru_status previous \<notin> {''APPROVED'', ''FINALIZED''}"
  shows "run_inv (failRun now i preflight previous st)"
  unfolding failRun_def
  by (rule in_work_update [OF assms(1)]) (use assms(2) in \<open>auto simp: runUpdateAfterFailure_def\<close>)

lemma processPayrollRun_inv:
  assumes "processPayrollRun now later st i facts preflight engine employees = (st', outcome)" and "run_inv st"
  shows "run_inv st'"
proof (cases "claimRun now st i facts")
  case (Inl e)
  then show ?thesis using assms by (simp add: processPayrollRun_def)
next
  case (Inr p)
  obtain st1 previous where p: "p = (st1, previous)" by (cases p)
  note c = Inr [unfolded p]
  have w: "in_work i st1" by (rule claimRun_in_work [OF c assms(2)])
  have prev: "ru_status previous \<notin> {''APPROVED'', ''FINALIZED''}" using claimRun_Inr(3) [OF c] .
  have i: "ru_id previous = i" using find_run_Some [OF claimRun_Inr(1) [OF c]] by simp
  obtain st2 e where calc: "calculate previous facts engine employees later st1 = (st2, e)" by fastforce
  show ?thesis
  proof (cases preflight)
    case None
    then show ?thesis
      using assms(1) c calc calculate_cases [OF calc] w i failRun_inv [OF _ prev]
      by (cases e) (auto simp: processPayrollRun_def)
  next
    case (Some e')
    then show ?thesis using assms(1) c failRun_inv [OF w prev] by (auto simp: processPayrollRun_def)
  qed
qed

lemma decidePayroll_inv:
  assumes "decidePayroll now st i approved approver = Inr st'" and "run_inv st"
  shows "run_inv st'"
proof -
  obtain r where r: "find_run st i = Some r" "ru_status r = ''COMPLETED''"
    and st': "st' = payroll_log (''PAYROLL_'' @ (if approved then ''APPROVED'' else ''REJECTED'')) i None None
      (update_run i (\<lambda>r. r\<lparr>ru_status := (if approved then ''APPROVED'' else ''REJECTED''),
        ru_approvedBy := (if approved then Some approver else None), ru_updatedAt := now\<rparr>) st)"
    using assms(1) by (auto simp: decidePayroll_def result_simps split: if_split_asm)
  show ?thesis unfolding st' run_inv_trail
    by (rule update_run_inv [OF assms(2) r(1)]) (use r(2) in \<open>auto simp: live_def status_ok_def\<close>)
qed

lemma finalizePayrollRun_Inr:
  assumes "finalizePayrollRun now st i facts = Inr st'" and "st' \<noteq> st"
  shows "\<exists>run l. find_run st i = Some run \<and> ru_status run = ''APPROVED'' \<and> ru_approvedBy run \<noteq> None \<and>
    ru_approvedBy run \<noteq> ru_processedBy run \<and> settlePayrollLoans (pt_ledger st) i = Inr l \<and>
    st' = announce i (payroll_log ''PAYROLL_FINALIZED'' i None None (update_run i (\<lambda>r. r\<lparr>ru_status := ''FINALIZED'', ru_updatedAt := now\<rparr>)
      (st\<lparr>pt_ledger := l, pt_slips := map (\<lambda>s. if sl_run s = i then s\<lparr>sl_status := ''FINALIZED''\<rparr> else s) (pt_slips st)\<rparr>)))"
proof -
  obtain run where run: "find_run st i = Some run" "ru_status run \<noteq> ''FINALIZED''"
    using assms by (auto simp: finalizePayrollRun_def result_simps split: if_split_asm)
  then show ?thesis
    using assms(1) by (auto simp: finalizePayrollRun_def result_simps simp del: ensure_bind)
qed

lemma finalizePayrollRun_inv:
  assumes "finalizePayrollRun now st i facts = Inr st'" and "run_inv st"
  shows "run_inv st'"
proof (cases "st' = st")
  case False
  obtain run l where run: "find_run st i = Some run" "ru_status run = ''APPROVED''" "ru_approvedBy run \<noteq> None"
    "ru_approvedBy run \<noteq> ru_processedBy run" and l: "settlePayrollLoans (pt_ledger st) i = Inr l"
    and st': "st' = announce i (payroll_log ''PAYROLL_FINALIZED'' i None None (update_run i (\<lambda>r. r\<lparr>ru_status := ''FINALIZED'', ru_updatedAt := now\<rparr>)
      (st\<lparr>pt_ledger := l, pt_slips := map (\<lambda>s. if sl_run s = i then s\<lparr>sl_status := ''FINALIZED''\<rparr> else s) (pt_slips st)\<rparr>)))"
    using finalizePayrollRun_Inr [OF assms(1) False] by blast
  let ?st = "st\<lparr>pt_ledger := l, pt_slips := map (\<lambda>s. if sl_run s = i then s\<lparr>sl_status := ''FINALIZED''\<rparr> else s) (pt_slips st)\<rparr>"
  have ok: "ledger_ok (pt_ledger st)" using assms(2) by (simp add: run_inv_def)
  have ids: "map sl_id (pt_slips ?st) = map sl_id (pt_slips st)" by simp
  have inv: "run_inv ?st"
  proof (rule content_inv [OF assms(2), where i = i])
    show "ru_status r \<noteq> ''FINALIZED''" if "r \<in> set (pt_runs st)" "ru_id r = i" for r
      using run_unique [OF assms(2)] find_run_Some [OF run(1)] that run(2) by force
    show "distinct (map sl_id (pt_slips ?st))" unfolding ids using assms(2) by (simp add: run_inv_def)
  qed (use assms(2) settle_rows_kept [OF l ok] settlePayrollLoans_rows [OF l ok] in \<open>auto simp: run_inv_def list_all_iff\<close>)
  have find: "find_run ?st i = Some run" using run(1) by (simp add: find_run_def)
  have posted: "list_all (\<lambda>p. rp_payrollRunId p = Some i \<longrightarrow> rp_settled p) (ls_repayments l)"
    using settlePayrollLoans_rows [OF l ok] by (auto simp: list_all_iff)
  show ?thesis unfolding st' run_inv_trail
    by (rule update_run_inv [OF inv find])
      (use run posted find_run_Some [OF run(1)] in \<open>auto simp: live_def status_ok_def list_all_iff\<close>)
qed (use assms in simp)

lemma cancelPayrollRun_Inr:
  assumes "cancelPayrollRun now configured st i deletedBy actorCode = Inr st'"
  shows "\<exists>run l. find_run st i = Some run \<and> ru_status run \<notin> {''APPROVED'', ''FINALIZED'', ''CANCELLED''} \<and>
    releaseReservations (pt_ledger st) i = Inr l \<and>
    pt_runs st' = pt_runs (update_run i (\<lambda>r. r\<lparr>ru_status := ''CANCELLED'', ru_updatedAt := now\<rparr>) st) \<and>
    pt_slips st' = pt_slips st \<and> pt_nextSlip st' = pt_nextSlip st \<and> pt_nextRun st' = pt_nextRun st \<and> pt_ledger st' = l"
proof -
  have w: "pt_runs st1 = pt_runs st \<and> pt_slips st1 = pt_slips st \<and> pt_nextSlip st1 = pt_nextSlip st \<and> pt_nextRun st1 = pt_nextRun st"
    if "withdrawApproval i actorCode st = Inr st1" for st1
    using that by (auto simp: withdrawApproval_def result_simps Let_def split: option.split_asm if_split_asm)
  show ?thesis
    using assms unfolding cancelPayrollRun_def rbind_Inr_iff ensure_Inr_iff require_Inr_iff
    by (auto simp: isStaleProcessing_def dest!: w)
qed

lemma cancelPayrollRun_inv:
  assumes "cancelPayrollRun now configured st i deletedBy actorCode = Inr st'" and "run_inv st"
  shows "run_inv st'"
proof -
  obtain run l where run: "find_run st i = Some run" "ru_status run \<notin> {''APPROVED'', ''FINALIZED'', ''CANCELLED''}"
    and l: "releaseReservations (pt_ledger st) i = Inr l"
    and st': "pt_runs st' = pt_runs (update_run i (\<lambda>r. r\<lparr>ru_status := ''CANCELLED'', ru_updatedAt := now\<rparr>) st)"
      "pt_slips st' = pt_slips st" "pt_nextSlip st' = pt_nextSlip st" "pt_nextRun st' = pt_nextRun st" "pt_ledger st' = l"
    using cancelPayrollRun_Inr [OF assms(1)] by blast
  have reps: "ls_repayments l = filter (\<lambda>r. \<not> (rp_payrollRunId r = Some i \<and> \<not> rp_settled r)) (ls_repayments (pt_ledger st))"
    and ok: "ledger_ok l"
    using l assms(2) drop_unsettled_ok [of "pt_ledger st" "\<lambda>r. \<not> (rp_payrollRunId r = Some i \<and> \<not> rp_settled r)"]
    by (auto simp: releaseReservations_def run_inv_def split: if_splits)
  let ?st = "st\<lparr>pt_ledger := l\<rparr>"
  have inv: "run_inv ?st"
  proof (rule content_inv [OF assms(2), where i = i])
    show "ru_status r \<noteq> ''FINALIZED''" if "r \<in> set (pt_runs st)" "ru_id r = i" for r
      using run_unique [OF assms(2)] find_run_Some [OF run(1)] that run(2) by force
  qed (use assms(2) reps ok in \<open>auto simp: run_inv_def\<close>)
  have find: "find_run ?st i = Some run" using run(1) by (simp add: find_run_def)
  have "run_inv (update_run i (\<lambda>r. r\<lparr>ru_status := ''CANCELLED'', ru_updatedAt := now\<rparr>) ?st)"
    by (rule update_run_inv [OF inv find]) (use run(2) in \<open>auto simp: live_def\<close>)
  then show ?thesis using st' by (subst run_inv_cong) simp_all
qed

lemma ledger_view_ok: "ledger_ok (ledger_view st) = ledger_ok (pt_ledger st)" "ls_repayments (ledger_view st) = ls_repayments (pt_ledger st)"
  by (simp_all add: ledger_view_def ledger_ok_def ids_ok_def)

lemma manual_loan_ok:
  assumes "manual_loan l l'" and "ledger_ok l"
  shows "ledger_ok l' \<and> (\<forall>p \<in> set (ls_repayments l'). p \<in> set (ls_repayments l) \<or> rp_settled p)"
  using assms(1)
proof cases
  case (1 employee capital rate tenure kind)
  then show ?thesis using createLoan_ok [OF 1 assms(2)] by (auto simp: createLoan_def Let_def split: if_splits)
next
  case (2 i approved)
  then show ?thesis using decideLoan_ok [OF 2 assms(2)] by (auto simp: decideLoan_def result_simps split: if_split_asm)
next
  case (3 i approved)
  then show ?thesis using decideWriteOff_ok [OF 3 assms(2)] by (auto simp: decideWriteOff_def result_simps split: if_split_asm)
next
  case (4 i amount run payslip)
  then show ?thesis using recordRepayment_ok [OF 4 assms(2)]
    by (auto simp: recordRepayment_def result_simps Let_def split: if_split_asm)
qed

lemma loan_inv:
  assumes "manual_loan (ledger_view st) l" and "run_inv st"
  shows "run_inv (st\<lparr>pt_ledger := l\<rparr>)"
proof -
  have ok: "ledger_ok l" "\<And>p. p \<in> set (ls_repayments l) \<Longrightarrow> p \<in> set (ls_repayments (pt_ledger st)) \<or> rp_settled p"
    using manual_loan_ok [OF assms(1)] assms(2) by (auto simp: ledger_view_ok run_inv_def)
  have "status_ok (pt_slips st) (ls_repayments l) r" if "r \<in> set (pt_runs st)" for r
    using assms(2) that ok(2) by (fastforce simp: run_inv_def status_ok_def list_all_iff)
  then show ?thesis using assms(2) ok(1) by (simp add: run_inv_def list_all_iff)
qed

text \<open>
  Changing the status of payslips, as long as the payslips of a finalised run stay final.
\<close>

lemma slip_status_inv:
  assumes "run_inv st" and "pt_slips st' = map (\<lambda>s. if P s then f s else s) (pt_slips st)"
    and "pt_runs st' = pt_runs st" "pt_nextRun st' = pt_nextRun st" "pt_nextSlip st' = pt_nextSlip st" "pt_ledger st' = pt_ledger st"
    and "\<And>s. sl_id (f s) = sl_id s \<and> sl_run (f s) = sl_run s"
    and "\<And>s r. s \<in> set (pt_slips st) \<Longrightarrow> P s \<Longrightarrow> r \<in> set (pt_runs st) \<Longrightarrow> ru_id r = sl_run s \<Longrightarrow> ru_status r = ''FINALIZED'' \<Longrightarrow>
      sl_status (f s) \<in> {''FINALIZED'', ''DISTRIBUTED''}"
  shows "run_inv st'"
proof -
  have ids: "map sl_id (pt_slips st') = map sl_id (pt_slips st)" using assms(2,7) by simp
  have "status_ok (pt_slips st') (ls_repayments (pt_ledger st)) r" if r: "r \<in> set (pt_runs st)" for r
  proof -
    have old: "status_ok (pt_slips st) (ls_repayments (pt_ledger st)) r" using assms(1) r by (simp add: run_inv_def list_all_iff)
    have "sl_status s' \<in> {''FINALIZED'', ''DISTRIBUTED''}"
      if f: "ru_status r = ''FINALIZED''" "s' \<in> set (pt_slips st')" "sl_run s' = ru_id r" for s'
    proof -
      obtain s where s: "s \<in> set (pt_slips st)" "s' = (if P s then f s else s)" using f(2) assms(2) by auto
      have run: "sl_run s = ru_id r" using s(2) f(3) assms(7) by (auto split: if_splits)
      show ?thesis using assms(8) [OF s(1) _ r _ f(1)] old s run f(1) by (cases "P s") (auto simp: status_ok_def list_all_iff)
    qed
    then show ?thesis using old by (auto simp: status_ok_def list_all_iff)
  qed
  moreover have "list_all (\<lambda>s. sl_id s < pt_nextSlip st) (pt_slips st')"
    using assms(1,2,7) by (auto simp: run_inv_def list_all_iff)
  ultimately show ?thesis using assms(1,3-6) ids by (simp add: run_inv_def list_all_iff)
qed

lemma acted_simps [simp]: "sl_id (acted action reason s) = sl_id s" "sl_run (acted action reason s) = sl_run s"
  by (simp_all add: acted_def)

lemma bulkPayslipAction_Inr:
  assumes "bulkPayslipAction st ids action reason actorId = Inr (st', n)" and "st' \<noteq> st"
  shows "pt_slips st' = map (\<lambda>s. if sl_id s \<in> set ids then acted action reason s else s) (pt_slips st)"
    "pt_runs st' = pt_runs st" "pt_nextRun st' = pt_nextRun st" "pt_nextSlip st' = pt_nextSlip st" "pt_ledger st' = pt_ledger st"
    "\<And>s. s \<in> set (pt_slips st) \<Longrightarrow> sl_id s \<in> set ids \<Longrightarrow> run_allows st action (sl_run s) \<and> sl_status s = required_status action"
    "action \<in> {''hold'', ''release'', ''disburse''}"
proof -
  let ?targets = "filter (\<lambda>s. sl_id s \<in> set ids) (pt_slips st)"
  have *: "action \<in> {''hold'', ''release'', ''disburse''}" "list_all (run_allows st action) (nub (map sl_run ?targets))"
    "list_all (\<lambda>s. sl_status s = required_status action) ?targets"
    "st' = fold (\<lambda>s. payroll_log (AUDIT_ACTIONS action) (sl_run s) (Some (sl_id s)) actorId) ?targets
      (st\<lparr>pt_slips := map (\<lambda>s. if sl_id s \<in> set ids then acted action reason s else s) (pt_slips st)\<rparr>)"
    using assms by (auto simp: bulkPayslipAction_def BULK_ACTIONS_def result_simps Let_def split: if_split_asm)
  show "pt_slips st' = map (\<lambda>s. if sl_id s \<in> set ids then acted action reason s else s) (pt_slips st)"
    "pt_runs st' = pt_runs st" "pt_nextRun st' = pt_nextRun st" "pt_nextSlip st' = pt_nextSlip st" "pt_ledger st' = pt_ledger st"
    "action \<in> {''hold'', ''release'', ''disburse''}"
    using * by simp_all
  show "run_allows st action (sl_run s) \<and> sl_status s = required_status action"
    if "s \<in> set (pt_slips st)" "sl_id s \<in> set ids" for s
    using *(2,3) that by (auto simp: list_all_iff)
qed

lemma run_allows_status:
  assumes "run_inv st" and "run_allows st action (sl_run s)" and "r \<in> set (pt_runs st)" and "ru_id r = sl_run s"
  shows "action = ''disburse'' \<longleftrightarrow> ru_status r = ''FINALIZED''" 
proof -
  obtain x where x: "find_run st (sl_run s) = Some x" using assms(2) by (cases "find_run st (sl_run s)") (auto simp: run_allows_def)
  have "x = r" using run_unique [OF assms(1) _ assms(3)] find_run_Some [OF x] assms(4) by simp
  then show ?thesis using assms(2) x by (auto simp: run_allows_def HOLDABLE_RUN_STATUSES_def split: if_split_asm)
qed

lemma bulkPayslipAction_inv:
  assumes "bulkPayslipAction st ids action reason actorId = Inr (st', n)" and "run_inv st"
  shows "run_inv st'"
proof (cases "st' = st")
  case False
  note b = bulkPayslipAction_Inr [OF assms(1) False]
  show ?thesis
  proof (rule slip_status_inv [OF assms(2) b(1-5)])
    fix s r
    assume "s \<in> set (pt_slips st)" "sl_id s \<in> set ids" "r \<in> set (pt_runs st)" "ru_id r = sl_run s" "ru_status r = ''FINALIZED''"
    then have "action = ''disburse''" using run_allows_status [OF assms(2), of action s r] b(6) by simp
    then show "sl_status (acted action reason s) \<in> {''FINALIZED'', ''DISTRIBUTED''}" by (simp add: acted_def)
  qed simp
qed (use assms(2) in simp)

lemma distributePayslip_inv:
  assumes "distributePayslip st i = Inr st'" and "run_inv st"
  shows "run_inv st'"
proof -
  have st': "st' = st\<lparr>pt_slips := map (\<lambda>x. if sl_id x = i then acted ''disburse'' None x else x) (pt_slips st)\<rparr>"
    using assms(1) by (auto simp: distributePayslip_def result_simps split: if_split_asm)
  show ?thesis
    by (rule slip_status_inv [OF assms(2), of _ "\<lambda>x. sl_id x = i" "acted ''disburse'' None"]) (simp_all add: st' acted_def)
qed

interpretation runs: invariant_system run_init run_step run_inv
proof unfold_locales
  show "run_inv st" if "run_init st" for st
    using that by (simp add: run_init_def run_inv_def loan_init_def ledger_ok_def ids_ok_def)
  show "run_inv t" if inv: "run_inv s" and step: "run_step s t" for s t
    using step
  proof cases
    case (create now p_start p_end country currency)
    then show ?thesis using createPayrollRun_inv inv by blast
  next
    case (process now later i facts preflight engine employees outcome)
    then show ?thesis using processPayrollRun_inv inv by blast
  next
    case (decide now i approved approver)
    then show ?thesis using decidePayroll_inv inv by blast
  next
    case (finalize now i facts)
    then show ?thesis using finalizePayrollRun_inv inv by blast
  next
    case (cancel now configured i deletedBy actorCode)
    then show ?thesis using cancelPayrollRun_inv inv by blast
  next
    case (bulk ids action reason actorId n)
    then show ?thesis using bulkPayslipAction_inv inv by blast
  next
    case (distribute i)
    then show ?thesis using distributePayslip_inv inv by blast
  next
    case (loan l)
    then show ?thesis using loan_inv inv by simp
  next
    case (others aps ads)
    then show ?thesis using inv by (simp add: run_inv_def)
  qed
qed

section \<open>Finalised runs stay\<close>

lemma update_other: "r \<in> set (pt_runs st) \<Longrightarrow> ru_id r \<noteq> i \<Longrightarrow> r \<in> set (pt_runs (update_run i f st))"
  by (auto intro!: rev_image_eqI)

lemma processEmployees_runs: "processEmployees i p_start currency engine es st = (st', e) \<Longrightarrow> pt_runs st' = pt_runs st"
proof (induction es arbitrary: st)
  case (Cons x es)
  have "pt_runs st1 = pt_runs st" if "processEmployee i p_start currency x (engine x) st = Inr st1" for st1
    using that by (auto simp: processEmployee_def result_simps Let_def split: if_splits option.splits)
  then show ?case using Cons by (auto split: sum.splits)
qed simp

lemma calculate_other:
  assumes "calculate run facts engine es now st = (st', e)" and "r \<in> set (pt_runs st)" and "ru_id r \<noteq> ru_id run"
  shows "r \<in> set (pt_runs st')"
proof (cases "removeIneligible (ru_id run) es st")
  case (Inl e)
  then show ?thesis using assms by (auto simp: calculate_def)
next
  case (Inr st1)
  let ?st1 = "snapshotDeductionRules (ru_id run) (cf_rules facts) (cf_rulesActor facts) st1"
  obtain st2 e2 where p: "processEmployees (ru_id run) (ru_start run) (ru_currencyCode run) engine es ?st1 = (st2, e2)" by fastforce
  have same: "pt_runs st2 = pt_runs st"
    using processEmployees_runs [OF p] Inr by (auto simp: removeIneligible_def Let_def split: if_splits)
  have "r \<in> set (pt_runs st3)" if "completeRun now (ru_id run) (ru_currencyCode run) es st2 = Inr st3" for st3
    using that assms(2,3) same update_other [of r st2 "ru_id run"]
    by (auto simp: completeRun_def result_simps Let_def simp del: update_run_simps(6))
  then show ?thesis using assms Inr p same by (cases e2) (auto simp: calculate_def split: sum.splits)
qed

lemma processPayrollRun_final:
  assumes "processPayrollRun now later st i facts preflight engine es = (st', e)" and "run_inv st"
    and "r \<in> set (pt_runs st)" and "ru_status r = ''FINALIZED''"
  shows "r \<in> set (pt_runs st')"
proof (cases "claimRun now st i facts")
  case (Inl e)
  then show ?thesis using assms by (auto simp: processPayrollRun_def)
next
  case (Inr p)
  obtain st1 previous where p: "p = (st1, previous)" by (cases p)
  note c = claimRun_Inr [OF Inr [unfolded p]]
  have other: "ru_id r \<noteq> i"
    using run_unique [OF assms(2,3)] find_run_Some [OF c(1)] c(3) assms(4) by force
  have r1: "r \<in> set (pt_runs st1)" using c(4) update_other [OF assms(3) other] by metis
  obtain st2 e2 where calc: "calculate previous facts engine es later st1 = (st2, e2)" by fastforce
  have r2: "r \<in> set (pt_runs st2)" by (rule calculate_other [OF calc r1]) (use other find_run_Some [OF c(1)] in simp)
  show ?thesis
    using assms(1) Inr p calc r1 r2 update_other [OF _ other]
    by (cases preflight; cases e2) (auto simp: processPayrollRun_def failRun_def simp del: update_run_simps(6))
qed

lemma finalized_kept:
  assumes "run_step st st'" and "run_inv st" and "r \<in> set (pt_runs st)" and "ru_status r = ''FINALIZED''"
  shows "r \<in> set (pt_runs st')"
proof -
  have other: "ru_id r \<noteq> i" if "find_run st i = Some x" "ru_status x \<noteq> ''FINALIZED''" for i x
    using run_unique [OF assms(2,3)] find_run_Some [OF that(1)] that(2) assms(4) by force
  show ?thesis
    using assms(1)
  proof cases
    case (create now p_start p_end country currency)
    then show ?thesis using assms(3) by (auto simp: createPayrollRun_def result_simps split: prod.splits if_splits)
  next
    case (process now later i facts preflight engine employees outcome)
    then show ?thesis using processPayrollRun_final assms by blast
  next
    case (decide now i approved approver)
    then show ?thesis using other update_other [OF assms(3)]
      by (auto simp: decidePayroll_def result_simps split: if_split_asm simp del: update_run_simps(6))
  next
    case (finalize now i facts)
    show ?thesis
    proof (cases "st' = st")
      case False
      then obtain run l where run: "find_run st i = Some run" "ru_status run = ''APPROVED''"
        and st': "st' = announce i (payroll_log ''PAYROLL_FINALIZED'' i None None (update_run i (\<lambda>r. r\<lparr>ru_status := ''FINALIZED'', ru_updatedAt := now\<rparr>)
          (st\<lparr>pt_ledger := l, pt_slips := map (\<lambda>s. if sl_run s = i then s\<lparr>sl_status := ''FINALIZED''\<rparr> else s) (pt_slips st)\<rparr>)))"
        using finalizePayrollRun_Inr [OF finalize] by blast
      show ?thesis unfolding st' trail_simps by (rule update_other) (use assms(3) other run in auto)
    qed (use assms in simp)
  next
    case (cancel now configured i deletedBy actorCode)
    obtain run where run: "find_run st i = Some run" "ru_status run \<noteq> ''FINALIZED''"
      and st': "pt_runs st' = pt_runs (update_run i (\<lambda>r. r\<lparr>ru_status := ''CANCELLED'', ru_updatedAt := now\<rparr>) st)"
      using cancelPayrollRun_Inr [OF cancel] by blast
    show ?thesis unfolding st' by (rule update_other) (use assms(3) other run in auto)
  next
    case (bulk ids action reason actorId n)
    then show ?thesis using assms(3) bulkPayslipAction_Inr(2) [OF bulk] by (cases "st' = st") auto
  next
    case (distribute i)
    then show ?thesis using assms(3) by (auto simp: distributePayslip_def result_simps split: if_split_asm)
  qed (use assms(3) in auto)
qed

section \<open>Payslips reach people only from finalised runs\<close>

definition final_slip :: "rslip \<Rightarrow> bool" where
  "final_slip s \<longleftrightarrow> sl_status s \<in> {''FINALIZED'', ''DISTRIBUTED''} \<or> sl_distributed s"

definition slips_ok :: "pstate \<Rightarrow> bool" where
  "slips_ok st \<longleftrightarrow> (\<forall>s \<in> set (pt_slips st). final_slip s \<longrightarrow>
    (\<exists>r \<in> set (pt_runs st). ru_id r = sl_run s \<and> ru_status r = ''FINALIZED''))"

text \<open>No payslip becomes final: each final one was final before.\<close>

definition no_new_final :: "pstate \<Rightarrow> pstate \<Rightarrow> bool" where
  "no_new_final st st' \<longleftrightarrow> (\<forall>s' \<in> set (pt_slips st'). final_slip s' \<longrightarrow>
    (\<exists>s \<in> set (pt_slips st). final_slip s \<and> sl_run s = sl_run s'))"

lemma no_new_final_trans: "no_new_final a b \<Longrightarrow> no_new_final b c \<Longrightarrow> no_new_final a c"
  unfolding no_new_final_def by metis

lemma no_new_final_same: "set (pt_slips st') \<subseteq> set (pt_slips st) \<Longrightarrow> no_new_final st st'"
  by (auto simp: no_new_final_def)

lemma no_new_final_map:
  assumes "pt_slips st' = map (\<lambda>s. if P s then f s else s) (pt_slips st)"
    and "\<And>s. s \<in> set (pt_slips st) \<Longrightarrow> P s \<Longrightarrow> final_slip (f s) \<Longrightarrow> final_slip s \<and> sl_run (f s) = sl_run s"
  shows "no_new_final st st'"
  using assms by (fastforce simp: no_new_final_def)

lemma processEmployee_no_new_final:
  assumes "processEmployee i p_start currency employee engine st = Inr st'"
  shows "no_new_final st st'"
proof (cases "find (is_slip i employee) (pt_slips st)")
  case None
  then obtain s where "pt_slips st' = pt_slips st @ [s]" "\<not> final_slip s"
    using assms by (auto simp: processEmployee_def result_simps Let_def fill_slip_def final_slip_def split: if_splits)
  then show ?thesis by (auto simp: no_new_final_def)
next
  case (Some existing)
  obtain b where b: "engine (releaseFailedCarry employee st) = Inr b"
    using assms by (auto simp: processEmployee_def result_simps Let_def)
  have "pt_slips st' = map (\<lambda>s. if sl_id s = sl_id existing then fill_slip b s else s) (pt_slips st)"
    using assms Some b by (auto simp: processEmployee_def result_simps Let_def split: if_splits)
  then show ?thesis by (rule no_new_final_map) (auto simp: final_slip_def fill_slip_def)
qed

lemma processEmployees_no_new_final:
  "processEmployees i p_start currency engine es st = (st', e) \<Longrightarrow> no_new_final st st'"
proof (induction es arbitrary: st)
  case (Cons x es)
  then show ?case
    using processEmployee_no_new_final no_new_final_trans by (auto split: sum.splits simp: no_new_final_same) blast
qed (simp add: no_new_final_same)

lemma processPayrollRun_no_new_final:
  assumes "processPayrollRun now later st i facts preflight engine es = (st', e)"
  shows "no_new_final st st'"
proof (cases "claimRun now st i facts")
  case (Inl e)
  then show ?thesis using assms by (auto simp: processPayrollRun_def intro: no_new_final_same)
next
  case (Inr p)
  obtain st1 previous where p: "p = (st1, previous)" by (cases p)
  have s1: "pt_slips st1 = pt_slips st" using claimRun_Inr(4) [OF Inr [unfolded p]] by blast
  have calc: "no_new_final st1 st2" if c: "calculate previous facts engine es later st1 = (st2, e2)" for st2 e2
  proof (cases "removeIneligible (ru_id previous) es st1")
    case (Inl e)
    then show ?thesis using c by (auto simp: calculate_def intro: no_new_final_same)
  next
    case (Inr sta)
    let ?sta = "snapshotDeductionRules (ru_id previous) (cf_rules facts) (cf_rulesActor facts) sta"
    obtain stb eb where b: "processEmployees (ru_id previous) (ru_start previous) (ru_currencyCode previous) engine es ?sta = (stb, eb)"
      by fastforce
    have a: "no_new_final st1 ?sta"
      using Inr by (intro no_new_final_same) (auto simp: removeIneligible_def Let_def split: if_splits)
    have "pt_slips st2 = pt_slips stb"
      using c Inr b by (cases eb) (auto simp: calculate_def completeRun_def result_simps Let_def split: sum.splits)
    then have "no_new_final stb st2" by (simp add: no_new_final_same)
    with a processEmployees_no_new_final [OF b] show ?thesis by (blast intro: no_new_final_trans)
  qed
  obtain st2 e2 where c: "calculate previous facts engine es later st1 = (st2, e2)" by fastforce
  have "pt_slips st' = pt_slips st1 \<or> pt_slips st' = pt_slips st2"
    using assms Inr p c by (cases preflight; cases e2) (auto simp: processPayrollRun_def failRun_def)
  then show ?thesis using calc [OF c] s1 by (auto simp: no_new_final_def)
qed

lemma bulkPayslipAction_slips_ok:
  assumes "bulkPayslipAction st ids action reason actorId = Inr (st', n)" and "run_inv st" and "slips_ok st"
  shows "slips_ok st'"
proof (cases "st' = st")
  case False
  note b = bulkPayslipAction_Inr [OF assms(1) False]
  show ?thesis
    unfolding slips_ok_def b(2)
  proof (intro ballI impI)
    fix s'
    assume "s' \<in> set (pt_slips st')" and final: "final_slip s'"
    then obtain s where s: "s \<in> set (pt_slips st)" "s' = (if sl_id s \<in> set ids then acted action reason s else s)"
      unfolding b(1) by auto
    show "\<exists>r \<in> set (pt_runs st). ru_id r = sl_run s' \<and> ru_status r = ''FINALIZED''"
    proof (cases "sl_id s \<in> set ids \<and> action = ''disburse''")
      case True
      then have "run_allows st ''disburse'' (sl_run s)" using b(6) s(1) by blast
      then obtain r where "find_run st (sl_run s) = Some r" "ru_status r = ''FINALIZED''"
        by (auto simp: run_allows_def split: option.splits)
      then show ?thesis using find_run_Some s(2) by (auto split: if_splits)
    next
      case no: False
      then have "final_slip s" using final s(2) b(7) by (auto simp: final_slip_def acted_def split: if_splits)
      then show ?thesis using assms(3) s by (auto simp: slips_ok_def)
    qed
  qed
qed (use assms in simp)

lemma finalizePayrollRun_slips_ok:
  assumes "finalizePayrollRun now st i facts = Inr st'" and "slips_ok st"
    and kept: "\<And>r. r \<in> set (pt_runs st) \<Longrightarrow> ru_status r = ''FINALIZED'' \<Longrightarrow> r \<in> set (pt_runs st')"
  shows "slips_ok st'"
proof (cases "st' = st")
  case False
  obtain run where run: "find_run st i = Some run"
    and slips: "pt_slips st' = map (\<lambda>s. if sl_run s = i then s\<lparr>sl_status := ''FINALIZED''\<rparr> else s) (pt_slips st)"
    and runs: "pt_runs st' = map (\<lambda>r. if ru_id r = i then r\<lparr>ru_status := ''FINALIZED'', ru_updatedAt := now\<rparr> else r) (pt_runs st)"
    using finalizePayrollRun_Inr [OF assms(1) False] by auto
  let ?r = "run\<lparr>ru_status := ''FINALIZED'', ru_updatedAt := now\<rparr>"
  have "?r \<in> set (pt_runs st')" using find_run_Some [OF run] unfolding runs set_map by (auto intro!: image_eqI [of _ _ run])
  then have "\<exists>r \<in> set (pt_runs st'). ru_id r = i \<and> ru_status r = ''FINALIZED''"
    using find_run_Some [OF run] by (intro bexI [of _ ?r]) simp_all
  moreover have "\<exists>r \<in> set (pt_runs st'). ru_id r = sl_run s \<and> ru_status r = ''FINALIZED''"
    if "s \<in> set (pt_slips st)" "final_slip s" for s
    using assms(2) that kept by (auto simp: slips_ok_def)
  ultimately show ?thesis unfolding slips_ok_def slips by auto
qed (use assms in simp)

lemma slips_ok_step:
  assumes "run_step st st'" and "run_inv st" and "slips_ok st"
  shows "slips_ok st'"
proof -
  have kept: "r \<in> set (pt_runs st')" if "r \<in> set (pt_runs st)" "ru_status r = ''FINALIZED''" for r
    by (rule finalized_kept [OF assms(1,2) that])
  have old: "slips_ok st'" if "no_new_final st st'"
    using assms(3) that kept unfolding slips_ok_def no_new_final_def by metis
  show ?thesis
    using assms(1)
  proof cases
    case (create now p_start p_end country currency)
    then show ?thesis by (intro old no_new_final_same) (auto simp: createPayrollRun_def result_simps split: prod.splits if_splits)
  next
    case (process now later i facts preflight engine employees outcome)
    then show ?thesis using old processPayrollRun_no_new_final by blast
  next
    case (decide now i approved approver)
    then show ?thesis by (intro old no_new_final_same) (auto simp: decidePayroll_def result_simps split: if_split_asm)
  next
    case (finalize now i facts)
    then show ?thesis using finalizePayrollRun_slips_ok assms(3) kept by blast
  next
    case (cancel now configured i deletedBy actorCode)
    then show ?thesis using cancelPayrollRun_Inr [OF cancel] by (intro old no_new_final_same) auto
  next
    case (bulk ids action reason actorId n)
    then show ?thesis using bulkPayslipAction_slips_ok assms by blast
  next
    case (distribute i)
    then obtain s where s: "find (\<lambda>s. sl_id s = i) (pt_slips st) = Some s" "sl_status s = ''FINALIZED''"
      and st': "pt_slips st' = map (\<lambda>x. if sl_id x = i then acted ''disburse'' None x else x) (pt_slips st)"
      by (auto simp: distributePayslip_def result_simps split: if_split_asm)
    have "x = s" if "x \<in> set (pt_slips st)" "sl_id x = i" for x
      using assms(2) s(1) that by (auto simp: run_inv_def find_Some_iff distinct_map inj_on_def)
    then show ?thesis using s(2) by (intro old no_new_final_map [OF st']) (auto simp: final_slip_def)
  next
    case (loan l)
    then show ?thesis using assms(3) by (simp add: slips_ok_def)
  next
    case (others aps ads)
    then show ?thesis using assms(3) by (simp add: slips_ok_def)
  qed
qed

text \<open>A second interpretation: the invariant with the promise about payslips.\<close>

interpretation payslips: invariant_system run_init run_step "\<lambda>st. run_inv st \<and> slips_ok st"
proof unfold_locales
  show "run_inv st \<and> slips_ok st" if "run_init st" for st
    using that runs.init_inv [OF that] by (simp add: run_init_def slips_ok_def)
  show "run_inv t \<and> slips_ok t" if "run_inv s \<and> slips_ok s" and "run_step s t" for s t
    using that runs.step_inv slips_ok_step by blast
qed

section \<open>Properties\<close>

definition empty_payroll :: pstate where
  "empty_payroll = \<lparr>pt_runs = [], pt_nextRun = 1, pt_slips = [], pt_nextSlip = 1, pt_ledger = empty_ledger, pt_approvals = [],
     pt_adjustments = [], pt_audit = [], pt_approvalAudit = [], pt_released = [], pt_outbox = []\<rparr>"

definition sample_run :: "string \<Rightarrow> int option \<Rightarrow> int option \<Rightarrow> int \<Rightarrow> string \<Rightarrow> nat \<Rightarrow> prun" where
  "sample_run status processed approved updated net employees = \<lparr>ru_id = 1, ru_start = 0, ru_end = 10, ru_currencyCode = ''PKR'',
     ru_status = status, ru_processedBy = processed, ru_approvedBy = approved, ru_updatedAt = updated, ru_totalGross = net,
     ru_totalDeductions = net, ru_totalNet = net, ru_employeeCount = employees\<rparr>"

definition sample_payslip :: "string \<Rightarrow> bool \<Rightarrow> rslip" where
  "sample_payslip status distributed = \<lparr>sl_id = 1, sl_run = 1, sl_employee = 30, sl_status = status, sl_holdReason = None,
     sl_distributed = distributed, sl_gross = ''0'', sl_deductions = ''0'', sl_net = ''0''\<rparr>"

definition sample_audit :: "string \<Rightarrow> nat option \<Rightarrow> int option \<Rightarrow> string option \<Rightarrow> paudit" where
  "sample_audit action slip employee rules = \<lparr>pa_action = action, pa_run = 1, pa_slip = slip, pa_employee = employee, pa_rules = rules\<rparr>"

definition sample_state :: "prun \<Rightarrow> rslip list \<Rightarrow> (nat \<times> request) list \<Rightarrow> paudit list \<Rightarrow> (nat \<times> int list) list \<Rightarrow> pstate" where
  "sample_state run slips aps audits outbox = empty_payroll\<lparr>pt_runs := [run], pt_nextRun := 2, pt_slips := slips,
     pt_nextSlip := Suc (length slips), pt_approvals := aps, pt_audit := audits, pt_outbox := outbox\<rparr>"

definition sample_request :: request where
  "sample_request = \<lparr>rq_kind = ''PAYROLL'', rq_sourceRef = ''1'', rq_employeeCode = ''4'', rq_stage = APPROVED, rq_level = None,
     rq_pendingCodes = [], rq_route = None, rq_version = 3, rq_round = 1, rq_managerCode = None, rq_managerActorCode = None,
     rq_hrActorCode = None, rq_recommendation = None, rq_verification = None, rq_sourceHash = ''d'', rq_execution = ''APPLIED''\<rparr>"

definition sample_claim :: claim_facts where
  "sample_claim = \<lparr>cf_stale = None, cf_submitted = True, cf_actor = Some (7, Some ''4''), cf_openRequests = 0,
     cf_rules = ''r'', cf_rulesActor = Some 7\<rparr>"

definition sample_engine :: "int \<Rightarrow> pstate \<Rightarrow> hr_error + built" where
  "sample_engine employee st = Inr \<lparr>bu_gross = ''0'', bu_deductions = ''0'', bu_net = ''0'', bu_lines = []\<rparr>"

definition sample_trail :: "paudit list" where
  "sample_trail = [sample_audit RULES_SNAPSHOT_ACTION None (Some 7) (Some ''r''), sample_audit ''PAYSLIP_CREATED'' (Some 1) (Some 30) None,
     sample_audit ''PAYROLL_PROCESSED'' None None None]"

lemmas sample_defs = sample_state_def empty_payroll_def sample_run_def sample_payslip_def sample_audit_def

lemma sample_zero: "minorToDecimal (JBigInt 0) (Some ''PKR'') = Inr ''0.0000''" "decimalToMinor (Some ''0'') (Some ''PKR'') = Inr 0"
  "\<not> number_negative ''0''"
  by (simp_all add: minorToDecimal_def decimalToMinor_def number_negative_def exponentOf_def CURRENCY_EXPONENT_def js_toUpper_def
      upper_char_def decimal_eval bit_0)
    (simp add: numeral_3_eq_3)

lemma sample_created:
  "createPayrollRun 5 empty_payroll (Some 0) (Some 10) ''PK'' ''PKR'' =
    Inr (sample_state (sample_run ''PENDING'' None None 5 ''0'' 0) [] [] [] [])"
  by (simp add: createPayrollRun_def assertPayrollPeriod_def is_upper_def sample_defs)

lemma sample_employee:
  "processEmployees 1 0 ''PKR'' sample_engine [30] (sample_state run [] [] audits []) =
    (sample_state run [sample_payslip ''DRAFT'' False] [] (audits @ [sample_audit ''PAYSLIP_CREATED'' (Some 1) (Some 30) None]) [], None)"
  by (simp add: processEmployee_def sample_engine_def sample_zero releaseFailedCarry_def due_adjustments_def reservePayrollLoans_def
      empty_ledger_def claim_adjustments_def payroll_log_def fill_slip_def Let_def sample_defs)

lemma sample_processed:
  "processPayrollRun 6 7 (sample_state (sample_run ''PENDING'' None None 5 ''0'' 0) [] [] [] []) 1 sample_claim None sample_engine [30] =
    (sample_state (sample_run ''COMPLETED'' (Some 7) None 7 ''0.0000'' 1) [sample_payslip ''DRAFT'' False] [] sample_trail [], None)"
proof -
  let ?claimed = "sample_run ''PROCESSING'' (Some 7) None 6 ''0'' 0"
  let ?rules = "sample_audit RULES_SNAPSHOT_ACTION None (Some 7) (Some ''r'')"
  have claim: "claimRun 6 (sample_state (sample_run ''PENDING'' None None 5 ''0'' 0) [] [] [] []) 1 sample_claim =
      Inr (sample_state ?claimed [] [] [] [], sample_run ''PENDING'' None None 5 ''0'' 0)"
    by (simp add: claimRun_def find_run_def PROCESSABLE_STATUSES_def sample_claim_def claimed_def isStaleProcessing_def
        update_run_def sample_defs)
  have rules: "snapshotDeductionRules 1 ''r'' (Some 7) (sample_state ?claimed [] [] [] []) = sample_state ?claimed [] [] [?rules] []"
    by (simp add: snapshotDeductionRules_def sample_defs)
  have remove: "removeIneligible 1 [30] (sample_state ?claimed [] [] [] []) = Inr (sample_state ?claimed [] [] [] [])"
    by (simp add: removeIneligible_def sample_defs)
  have complete: "completeRun 7 1 ''PKR'' [30] (sample_state ?claimed [sample_payslip ''DRAFT'' False] [] audits []) =
      Inr (sample_state (sample_run ''COMPLETED'' (Some 7) None 7 ''0.0000'' 1) [sample_payslip ''DRAFT'' False] []
        (audits @ [sample_audit ''PAYROLL_PROCESSED'' None None None]) [])" for audits
    by (simp add: completeRun_def sumSlips_def sample_zero money_sum_def update_run_def reopenApproval_def payroll_log_def
        Let_def sample_defs)
  have "calculate (sample_run ''PENDING'' None None 5 ''0'' 0) sample_claim sample_engine [30] 7 (sample_state ?claimed [] [] [] []) =
      (sample_state (sample_run ''COMPLETED'' (Some 7) None 7 ''0.0000'' 1) [sample_payslip ''DRAFT'' False] [] sample_trail [], None)"
    unfolding calculate_def
    using remove rules complete sample_employee [of ?claimed "[?rules]"]
    by (simp add: sample_run_def [of "''PENDING''"] sample_claim_def sample_trail_def del: processEmployees.simps)
  then show ?thesis by (simp add: processPayrollRun_def claim del: One_nat_def)
qed

lemma sample_decided:
  "decidePayroll 8 (sample_state (sample_run ''COMPLETED'' (Some 7) None 7 ''0.0000'' 1) slips [] audits []) 1 True 9 =
    Inr (sample_state (sample_run ''APPROVED'' (Some 7) (Some 9) 8 ''0.0000'' 1) slips []
      (audits @ [sample_audit ''PAYROLL_APPROVED'' None None None]) [])"
  by (simp add: decidePayroll_def find_run_def update_run_def payroll_log_def sample_defs)

definition sample_final :: pstate where
  "sample_final = sample_state (sample_run ''FINALIZED'' (Some 7) (Some 9) 11 ''0.0000'' 1) [sample_payslip ''FINALIZED'' False]
     [(1, sample_request)] (sample_trail @ [sample_audit ''PAYROLL_APPROVED'' None None None, sample_audit ''PAYROLL_FINALIZED'' None None None])
     [(1, [30])]"

lemma sample_finalized:
  "finalizePayrollRun 11 (sample_state (sample_run ''APPROVED'' (Some 7) (Some 9) 8 ''0.0000'' 1) [sample_payslip ''DRAFT'' False]
      [(1, sample_request)] (sample_trail @ [sample_audit ''PAYROLL_APPROVED'' None None None]) []) 1
      \<lparr>ff_ifMatch = Some 8, ff_digest = ''d'', ff_ready = None, ff_openRequests = 0\<rparr> = Inr sample_final"
  by (simp add: finalizePayrollRun_def find_run_def assertIfMatch_def sample_request_def settlePayrollLoans_def announce_def
      payroll_log_def empty_ledger_def update_run_def nub_def sample_final_def sample_defs)

lemma sample_reviewed: "run_step (sample_state run slips [] audits outbox) (sample_state run slips [(1, sample_request)] audits outbox)"
  using run_step.others [of "sample_state run slips [] audits outbox" "[]" "[(1, sample_request)]"]
  by (simp add: sample_state_def empty_payroll_def)

lemma sample_reachable: "reach run_init run_step sample_final"
proof -
  have "reach run_init run_step empty_payroll"
    by (rule reach.start) (simp add: run_init_def empty_payroll_def loan_init_def empty_ledger_def)
  then have "reach run_init run_step (sample_state (sample_run ''PENDING'' None None 5 ''0'' 0) [] [] [] [])"
    using run_step.create [OF sample_created] by (rule reach.more)
  then have "reach run_init run_step (sample_state (sample_run ''COMPLETED'' (Some 7) None 7 ''0.0000'' 1)
      [sample_payslip ''DRAFT'' False] [] sample_trail [])"
    using run_step.process [OF sample_processed] by (rule reach.more)
  then have "reach run_init run_step (sample_state (sample_run ''APPROVED'' (Some 7) (Some 9) 8 ''0.0000'' 1)
      [sample_payslip ''DRAFT'' False] [] (sample_trail @ [sample_audit ''PAYROLL_APPROVED'' None None None]) [])"
    using run_step.decide [OF sample_decided] by (rule reach.more)
  then have "reach run_init run_step (sample_state (sample_run ''APPROVED'' (Some 7) (Some 9) 8 ''0.0000'' 1)
      [sample_payslip ''DRAFT'' False] [(1, sample_request)] (sample_trail @ [sample_audit ''PAYROLL_APPROVED'' None None None]) [])"
    using sample_reviewed by (rule reach.more)
  then show ?thesis using run_step.finalize [OF sample_finalized] by (rule reach.more)
qed





text \<open>Nobody is handed a payslip that was not approved by a second person: a payslip that has been distributed,
  one by one or in bulk, belongs to a finalised run whose approver is not the employee who calculated it,
  and it is not a draft or on hold: no calculation, hold or cancellation took it back.\<close>

theorem distributed_payslip_approved:
  assumes "reach run_init run_step st" and "s \<in> set (pt_slips st)" and "sl_distributed s \<or> sl_status s = ''DISTRIBUTED''"
  shows "\<exists>r a. r \<in> set (pt_runs st) \<and> ru_id r = sl_run s \<and> ru_status r = ''FINALIZED'' \<and> ru_approvedBy r = Some a \<and>
    ru_processedBy r \<noteq> Some a \<and> sl_status s \<in> {''FINALIZED'', ''DISTRIBUTED''}"
proof -
  have inv: "run_inv st" "slips_ok st" using payslips.reach_inv [OF assms(1)] by auto
  then obtain r where r: "r \<in> set (pt_runs st)" "ru_id r = sl_run s" "ru_status r = ''FINALIZED''"
    using assms(2,3) by (auto simp: slips_ok_def final_slip_def)
  have "status_ok (pt_slips st) (ls_repayments (pt_ledger st)) r" using inv(1) r(1) by (simp add: run_inv_def list_all_iff)
  then have "\<exists>a. ru_approvedBy r = Some a \<and> ru_processedBy r \<noteq> Some a" "sl_status s \<in> {''FINALIZED'', ''DISTRIBUTED''}"
    using r(2,3) assms(2) by (auto simp: status_ok_def list_all_iff)
  then show ?thesis using r by blast
qed

theorem distributed_payslip_approved_witness:
  "\<exists>st s. reach run_init run_step st \<and> pt_slips st = [s] \<and> sl_distributed s \<and>
    (\<exists>r a. r \<in> set (pt_runs st) \<and> ru_id r = sl_run s \<and> ru_approvedBy r = Some a \<and> ru_processedBy r \<noteq> Some a)"
proof -
  let ?s = "acted ''disburse'' None (sample_payslip ''FINALIZED'' False)"
  obtain st n where d: "bulkPayslipAction sample_final [1] ''disburse'' None (Some 7) = Inr (st, n)" and st: "pt_slips st = [?s]"
    by (simp add: bulkPayslipAction_def BULK_ACTIONS_def run_allows_def find_run_def required_status_def nub_def sample_final_def
        sample_defs)
  have r: "reach run_init run_step st" by (rule reach.more [OF sample_reachable run_step.bulk [OF d]])
  show ?thesis using distributed_payslip_approved [OF r, of ?s] r st by (fastforce simp: acted_def)
qed

end
