(* ===== verification/TaxSlabs.thy ===== *)
theory TaxSlabs
  imports Money
begin

text \<open>
  The tax slabs of a tenant, \<^verbatim>\<open>src/src/services/payrollTaxSlab.service.js\<close>: creation, update, deletion and
  listing, with the guard against overlapping active slabs. Amounts are the decimal texts stored in the
  database; a date that the caller's text does not denote is \<open>None\<close> inside \<open>Some\<close>.
\<close>

section \<open>Slabs\<close>

record slab =
  tx_id :: nat
  tx_countryCode :: string
  tx_bracketMin :: string
  tx_bracketMax :: "string option"
  tx_baseTax :: string
  tx_rate :: rat
  tx_effectiveFrom :: int
  tx_effectiveTo :: "int option"
  tx_status :: string

record slab_table =
  tt_slabs :: "slab list"
  tt_next :: nat

definition bad_slab :: "string \<Rightarrow> hr_error" where
  "bad_slab message = AppError 400 message"

definition normalizeRate :: "js_number option \<Rightarrow> hr_error + rat option" where
  "normalizeRate rate = (case rate of
     None \<Rightarrow> Inr None
   | Some NonFinite \<Rightarrow> Inl (bad_slab ''rate'')
   | Some (Finite n) \<Rightarrow>
       if n < 0 then Inl (bad_slab ''rate must be a non-negative number'')
       else
         let frac = (if n > 1 then n / 100 else n) in
         if frac < 0 \<or> frac > 1 then Inl (bad_slab ''rate must resolve to a fraction between 0 and 1'')
         else Inr (Some frac))"

definition countryOf :: "string \<Rightarrow> string" where
  "countryOf c = take 2 (js_toUpper c)"

section \<open>The overlap guard\<close>

text \<open>
  The guard compares with \<^verbatim>\<open>rMax ?? Infinity\<close>: an open-ended slab is compared through the text
  \<^verbatim>\<open>Infinity\<close>.
\<close>

definition overlaps :: "string \<Rightarrow> string option \<Rightarrow> slab \<Rightarrow> hr_error + bool" where
  "overlaps min_text max_text r =
    rbind (compareDecimal (Some (case tx_bracketMax r of Some m \<Rightarrow> m | None \<Rightarrow> ''Infinity'')) (Some min_text)) (\<lambda>below.
      if below \<le> 0 then Inr False
      else case max_text of
        None \<Rightarrow> Inr True
      | Some m \<Rightarrow> rbind (compareDecimal (Some m) (Some (tx_bracketMin r))) (\<lambda>above. Inr (\<not> above \<le> 0)))"

fun some_overlap :: "string \<Rightarrow> string option \<Rightarrow> nat option \<Rightarrow> slab list \<Rightarrow> hr_error + bool" where
  "some_overlap min_text max_text exclude [] = Inr False"
| "some_overlap min_text max_text exclude (r # rs) =
    (if exclude = Some (tx_id r) then some_overlap min_text max_text exclude rs
     else rbind (overlaps min_text max_text r) (\<lambda>b. if b then Inr True else some_overlap min_text max_text exclude rs))"

definition assertNoActiveOverlap :: "slab_table \<Rightarrow> string \<Rightarrow> string \<Rightarrow> string option \<Rightarrow> nat option \<Rightarrow> hr_error + unit" where
  "assertNoActiveOverlap t country min_text max_text exclude =
    rbind (some_overlap min_text max_text exclude
      (filter (\<lambda>r. tx_countryCode r = countryOf country \<and> tx_status r = ''ACTIVE'') (tt_slabs t))) (\<lambda>overlap.
      ensure (\<not> overlap) (AppError 409 ''bracket overlaps an existing ACTIVE slab for this country''))"

section \<open>Operations\<close>

record slab_input =
  in_countryCode :: string
  in_bracketMin :: "string option"
  in_bracketMax :: "string option"
  in_baseTax :: "string option"
  in_rate :: "js_number option"
  in_effectiveFrom :: "int option option"
  in_status :: string

definition activity :: "string \<Rightarrow> string" where
  "activity status = (if status = ''INACTIVE'' then ''INACTIVE'' else ''ACTIVE'')"

definition parse_min :: "string option \<Rightarrow> hr_error + string" where
  "parse_min value =
    rbind (decimalToPersistence value) (\<lambda>m.
    rbind (compareDecimal (Some m) (Some ''0'')) (\<lambda>c.
      if c < 0 then Inl (bad_slab ''must be a number >= 0'') else Inr m))"

definition parse_max :: "string \<Rightarrow> string option \<Rightarrow> hr_error + string option" where
  "parse_max min_text value = (case value of
     None \<Rightarrow> Inr None
   | Some v \<Rightarrow>
       rbind (decimalToPersistence (Some v)) (\<lambda>m.
       rbind (compareDecimal (Some m) (Some min_text)) (\<lambda>c.
         if c \<le> 0 then Inl (bad_slab ''bracketMax must be greater than bracketMin'') else Inr (Some m))))"

definition createTaxSlab :: "int \<Rightarrow> slab_table \<Rightarrow> slab_input \<Rightarrow> hr_error + slab_table \<times> slab" where
  "createTaxSlab now t input =
    rbind (parse_min (in_bracketMin input)) (\<lambda>min_text.
    rbind (parse_max min_text (in_bracketMax input)) (\<lambda>max_text.
    rbind (normalizeRate (in_rate input)) (\<lambda>rate.
    rbind (parse_min (Some (case in_baseTax input of None \<Rightarrow> ''0'' | Some b \<Rightarrow> b))) (\<lambda>base.
    rbind (case in_effectiveFrom input of None \<Rightarrow> Inr now | Some None \<Rightarrow> Inl (bad_slab ''effectiveFrom must be a valid date'')
           | Some (Some d) \<Rightarrow> Inr d) (\<lambda>effective.
    rbind (if in_status input \<noteq> ''INACTIVE'' then assertNoActiveOverlap t (in_countryCode input) min_text max_text None else Inr ()) (\<lambda>_.
    rbind (require rate (PlainError ''PrismaClientValidationError'')) (\<lambda>r.
      let s = \<lparr>tx_id = tt_next t, tx_countryCode = countryOf (in_countryCode input), tx_bracketMin = min_text,
               tx_bracketMax = max_text, tx_baseTax = base, tx_rate = r, tx_effectiveFrom = effective, tx_effectiveTo = None,
               tx_status = activity (in_status input)\<rparr>
      in Inr (t\<lparr>tt_slabs := tt_slabs t @ [s], tt_next := Suc (tt_next t)\<rparr>, s))))))))"

text \<open>The fields of an update: \<open>None\<close> is a field that is not given.\<close>

record slab_update =
  up_countryCode :: "string option"
  up_bracketMin :: "string option"
  up_bracketMax :: "string option option"
  up_baseTax :: "string option"
  up_rate :: "js_number option"
  up_effectiveFrom :: "int option option"
  up_effectiveTo :: "int option option option"
  up_status :: "string option"

definition optional :: "('a \<Rightarrow> hr_error + 'b) \<Rightarrow> 'a option \<Rightarrow> hr_error + 'b option" where
  "optional f x = (case x of None \<Rightarrow> Inr None | Some v \<Rightarrow> rbind (f v) (\<lambda>y. Inr (Some y)))"

definition parse_date :: "int option \<Rightarrow> hr_error + int" where
  "parse_date d = require d (bad_slab ''must be a valid date'')"

definition update_max :: "string option \<Rightarrow> string option \<Rightarrow> hr_error + string option" where
  "update_max new_min v = (case v of
     None \<Rightarrow> Inr None
   | Some m \<Rightarrow>
       rbind (decimalToPersistence (Some m)) (\<lambda>p.
       case new_min of
         None \<Rightarrow> Inr (Some p)
       | Some lo \<Rightarrow> rbind (compareDecimal (Some p) (Some lo)) (\<lambda>c.
           if c \<le> 0 then Inl (bad_slab ''bracketMax must be greater than bracketMin'') else Inr (Some p))))"

definition apply_update :: "string option \<Rightarrow> string option \<Rightarrow> string option option \<Rightarrow> string option \<Rightarrow> rat option \<Rightarrow> int option \<Rightarrow>
    int option option \<Rightarrow> string option \<Rightarrow> slab \<Rightarrow> slab" where
  "apply_update country lo hi base rate eff_from eff_to status s =
    s\<lparr>tx_countryCode := (case country of None \<Rightarrow> tx_countryCode s | Some c \<Rightarrow> c),
      tx_bracketMin := (case lo of None \<Rightarrow> tx_bracketMin s | Some m \<Rightarrow> m),
      tx_bracketMax := (case hi of None \<Rightarrow> tx_bracketMax s | Some m \<Rightarrow> m),
      tx_baseTax := (case base of None \<Rightarrow> tx_baseTax s | Some b \<Rightarrow> b),
      tx_rate := (case rate of None \<Rightarrow> tx_rate s | Some r \<Rightarrow> r),
      tx_effectiveFrom := (case eff_from of None \<Rightarrow> tx_effectiveFrom s | Some d \<Rightarrow> d),
      tx_effectiveTo := (case eff_to of None \<Rightarrow> tx_effectiveTo s | Some d \<Rightarrow> d),
      tx_status := (case status of None \<Rightarrow> tx_status s | Some x \<Rightarrow> x)\<rparr>"

definition updateTaxSlab :: "slab_table \<Rightarrow> nat \<Rightarrow> slab_update \<Rightarrow> hr_error + slab_table" where
  "updateTaxSlab t i u =
    rbind (optional (\<lambda>m. parse_min (Some m)) (up_bracketMin u)) (\<lambda>lo.
    rbind (optional (update_max lo) (up_bracketMax u)) (\<lambda>hi.
    rbind (optional (\<lambda>b. parse_min (Some b)) (up_baseTax u)) (\<lambda>base.
    rbind (normalizeRate (up_rate u)) (\<lambda>rate.
    rbind (optional parse_date (up_effectiveFrom u)) (\<lambda>eff_from.
    rbind (optional (optional parse_date) (up_effectiveTo u)) (\<lambda>eff_to.
      let country = map_option countryOf (up_countryCode u);
          status = map_option activity (up_status u);
          willBeActive = (up_status u \<noteq> Some ''INACTIVE'')
      in
      rbind (if willBeActive \<and> (lo \<noteq> None \<or> hi \<noteq> None \<or> up_status u \<noteq> None)
             then rbind (require (find (\<lambda>s. tx_id s = i) (tt_slabs t)) (AppError 404 ''Tax slab not found'')) (\<lambda>current.
               assertNoActiveOverlap t (case country of None \<Rightarrow> tx_countryCode current | Some c \<Rightarrow> c)
                 (case lo of None \<Rightarrow> tx_bracketMin current | Some m \<Rightarrow> m)
                 (case hi of None \<Rightarrow> tx_bracketMax current | Some m \<Rightarrow> m) (Some i))
             else Inr ()) (\<lambda>_.
      rbind (ensure (list_ex (\<lambda>s. tx_id s = i) (tt_slabs t)) (AppError 404 ''Tax slab not found'')) (\<lambda>_.
        Inr (t\<lparr>tt_slabs := map (\<lambda>s. if tx_id s = i then apply_update country lo hi base rate eff_from eff_to status s else s)
          (tt_slabs t)\<rparr>)))))))))"

definition deleteTaxSlab :: "slab_table \<Rightarrow> nat \<Rightarrow> hr_error + slab_table" where
  "deleteTaxSlab t i =
    rbind (ensure (list_ex (\<lambda>s. tx_id s = i) (tt_slabs t)) (AppError 404 ''Tax slab not found'')) (\<lambda>_.
      Inr (t\<lparr>tt_slabs := filter (\<lambda>s. tx_id s \<noteq> i) (tt_slabs t)\<rparr>))"

section \<open>Properties\<close>

text \<open>The incomes a slab covers: from its lower bound up to, and without, its upper bound.\<close>

definition covers :: "slab \<Rightarrow> rat \<Rightarrow> bool" where
  "covers s x \<longleftrightarrow> (\<exists>p. decimalParts (Some (tx_bracketMin s)) = Inr p \<and> dec_value p \<le> x) \<and>
    (case tx_bracketMax s of None \<Rightarrow> True | Some m \<Rightarrow> \<exists>q. decimalParts (Some m) = Inr q \<and> x < dec_value q)"

lemma infinity_no_decimal: "decimalParts (Some ''Infinity'') = Inl (HRError 2001)"
  by code_simp

lemma some_overlap_all:
  "some_overlap lo hi exclude rs = Inr False \<Longrightarrow> r \<in> set rs \<Longrightarrow> exclude \<noteq> Some (tx_id r) \<Longrightarrow> overlaps lo hi r = Inr False"
  by (induction rs) (auto simp: result_simps split: if_split_asm)

lemma overlaps_False:
  assumes "overlaps (tx_bracketMin s) (tx_bracketMax s) r = Inr False"
  shows "tx_bracketMax r \<noteq> None \<and> \<not> (covers r x \<and> covers s x)"
proof -
  obtain below where b: "compareDecimal (Some (case tx_bracketMax r of Some m \<Rightarrow> m | None \<Rightarrow> ''Infinity'')) (Some (tx_bracketMin s)) = Inr below"
    using assms by (auto simp: overlaps_def result_simps)
  then obtain m where m: "tx_bracketMax r = Some m"
    by (cases "tx_bracketMax r") (auto simp: compareDecimal_Inr infinity_no_decimal)
  obtain p q where pq: "decimalParts (Some m) = Inr p" "decimalParts (Some (tx_bracketMin s)) = Inr q"
    "below = (if dec_value p < dec_value q then - 1 else if dec_value q < dec_value p then 1 else 0)"
    using b m by (auto simp: compareDecimal_Inr)
  show ?thesis
  proof (cases "below \<le> 0")
    case True
    then have "dec_value p \<le> dec_value q" using pq(3) by (auto split: if_splits)
    then show ?thesis using m pq(1,2) by (auto simp: covers_def)
  next
    case False
    then obtain k above where k: "tx_bracketMax s = Some k" "compareDecimal (Some k) (Some (tx_bracketMin r)) = Inr above" "above \<le> 0"
      using assms b by (auto simp: overlaps_def result_simps split: option.split_asm)
    then obtain u v where "decimalParts (Some k) = Inr u" "decimalParts (Some (tx_bracketMin r)) = Inr v" "dec_value u \<le> dec_value v"
      by (auto simp: compareDecimal_Inr split: if_splits)
    then show ?thesis using m k(1) by (auto simp: covers_def)
  qed
qed

definition first_slab :: slab where
  "first_slab = \<lparr>tx_id = 0, tx_countryCode = ''PK'', tx_bracketMin = ''0'', tx_bracketMax = Some ''5'', tx_baseTax = ''0'', tx_rate = 0,
     tx_effectiveFrom = 0, tx_effectiveTo = None, tx_status = ''ACTIVE''\<rparr>"

definition second_input :: slab_input where
  "second_input = \<lparr>in_countryCode = ''PK'', in_bracketMin = Some ''5'', in_bracketMax = Some ''9'', in_baseTax = None,
     in_rate = Some (Finite 15), in_effectiveFrom = None, in_status = ''ACTIVE''\<rparr>"

definition first_table :: slab_table where
  "first_table = \<lparr>tt_slabs = [first_slab], tt_next = 1\<rparr>"

lemma sample_texts:
  "decimalToPersistence (Some ''5'') = Inr (fixedDecimal 50000 4)" "decimalToPersistence (Some ''9'') = Inr (fixedDecimal 90000 4)"
  "decimalToPersistence (Some ''0'') = Inr (fixedDecimal 0 4)"
  "decimalParts (Some ''0'') = Inr (0, 0)" "decimalParts (Some ''5'') = Inr (5, 0)"
  by (simp_all add: decimal_eval)

lemma second_created: "\<exists>t' s. createTaxSlab 0 first_table second_input = Inr (t', s) \<and> tx_status s = ''ACTIVE'' \<and> tx_countryCode s = ''PK''"
  by (simp add: createTaxSlab_def parse_min_def parse_max_def second_input_def first_table_def first_slab_def sample_texts
      compareDecimal_value [OF decimalParts_fixedDecimal decimalParts_fixedDecimal]
      compareDecimal_value [OF decimalParts_fixedDecimal sample_texts(4)]
      compareDecimal_value [OF sample_texts(5) decimalParts_fixedDecimal] dec_value_def normalizeRate_def
      assertNoActiveOverlap_def overlaps_def countryOf_def js_toUpper_def upper_char_def activity_def Let_def)

text \<open>Creating an active tax slab keeps the ladder of its country free of overlaps: the new slab has a bound of at
  least zero, a higher upper bound if any, and covers no income an active slab of the country covers.
  It also needs every active slab of the country to have an upper bound: once an open-ended top slab
  is active, the guard fails on it and no active slab can be created beside it, not even below.\<close>

theorem createTaxSlab_disjoint:
  assumes "createTaxSlab now t input = Inr (t', s)" and "tx_status s = ''ACTIVE''"
    and "r \<in> set (tt_slabs t)" and "tx_status r = ''ACTIVE''" and "tx_countryCode r = tx_countryCode s"
  shows "tx_bracketMax r \<noteq> None \<and> \<not> (covers r x \<and> covers s x) \<and> s \<in> set (tt_slabs t') \<and>
    (\<exists>p. decimalParts (Some (tx_bracketMin s)) = Inr p \<and> 0 \<le> dec_value p \<and>
      (case tx_bracketMax s of None \<Rightarrow> True | Some m \<Rightarrow> \<exists>q. decimalParts (Some m) = Inr q \<and> dec_value p < dec_value q))"
proof -
  obtain lo hi where lo: "parse_min (in_bracketMin input) = Inr lo" "tx_bracketMin s = lo"
    and hi: "parse_max lo (in_bracketMax input) = Inr hi" "tx_bracketMax s = hi"
    and guard: "in_status input \<noteq> ''INACTIVE'' \<Longrightarrow> assertNoActiveOverlap t (in_countryCode input) lo hi None = Inr ()"
    and s: "tx_countryCode s = countryOf (in_countryCode input)" "tx_status s = activity (in_status input)" "s \<in> set (tt_slabs t')"
    using assms(1) by (auto simp: createTaxSlab_def result_simps Let_def split: if_split_asm)
  have "in_status input \<noteq> ''INACTIVE''" using assms(2) s(2) by (auto simp: activity_def)
  then have "some_overlap lo hi None (filter (\<lambda>r. tx_countryCode r = countryOf (in_countryCode input) \<and> tx_status r = ''ACTIVE'')
      (tt_slabs t)) = Inr False"
    using guard by (auto simp: assertNoActiveOverlap_def result_simps)
  from some_overlap_all [OF this, of r] have "overlaps lo hi r = Inr False" using assms(3-5) s(1) by simp
  then have "tx_bracketMax r \<noteq> None \<and> \<not> (covers r x \<and> covers s x)" using overlaps_False [of s r x] lo(2) hi(2) by simp
  moreover obtain p where p: "decimalParts (Some lo) = Inr p" "0 \<le> dec_value p"
    using lo(1) sample_texts(4) by (auto simp: parse_min_def result_simps compareDecimal_Inr dec_value_def split: if_split_asm)
  moreover have "case hi of None \<Rightarrow> True | Some m \<Rightarrow> \<exists>q. decimalParts (Some m) = Inr q \<and> dec_value p < dec_value q"
    using hi(1) p(1) by (auto simp: parse_max_def result_simps compareDecimal_Inr split: option.split_asm if_split_asm)
  ultimately show ?thesis using s(3) lo(2) hi(2) by auto
qed

theorem createTaxSlab_disjoint_witness:
  "\<exists>t' s. createTaxSlab 0 first_table second_input = Inr (t', s) \<and> \<not> (covers first_slab 5 \<and> covers s 5)"
proof -
  obtain t' s where c: "createTaxSlab 0 first_table second_input = Inr (t', s)" "tx_status s = ''ACTIVE''" "tx_countryCode s = ''PK''"
    using second_created by blast
  have "first_slab \<in> set (tt_slabs first_table)" "tx_status first_slab = ''ACTIVE''" "tx_countryCode first_slab = tx_countryCode s"
    using c(3) by (simp_all add: first_table_def first_slab_def)
  from createTaxSlab_disjoint [OF c(1,2) this, of 5] show ?thesis using c(1) by blast
qed

end
