(* ===== verification/Idempotency.thy ===== *)
theory Idempotency
  imports Prelude
begin

text \<open>
  Retried requests: the idempotency store \<^verbatim>\<open>src/src/lib/idempotency-store.js\<close> and its two clients in
  \<^verbatim>\<open>src/src/middlewares/idempotency.middleware.js\<close>. The interface of a store is the locale
  \<open>idempotency_store\<close>; the memory store is interpreted as one. The operation a client protects is a
  function on the state of the world; a store operation that throws is an error, on which the clients
  fail open. The clock is an argument, in milliseconds.
\<close>

section \<open>The memory store\<close>

datatype 'v entry = Pending | Completed 'v

datatype 'v outcome = Reserved | InFlight | Replay 'v

text \<open>The cache in the order its keys were inserted, each with its entry and expiry.\<close>

type_synonym 'v cache = "(string \<times> 'v entry \<times> int) list"

definition mem_delete :: "string \<Rightarrow> 'v cache \<Rightarrow> 'v cache" where
  "mem_delete k c = filter (\<lambda>e. fst e \<noteq> k) c"

definition mem_live :: "int \<Rightarrow> string \<Rightarrow> 'v cache \<Rightarrow> 'v cache \<times> 'v entry option" where
  "mem_live now k c = (case map_of c k of
     None \<Rightarrow> (c, None)
   | Some (e, expiresAt) \<Rightarrow> if expiresAt \<le> now then (mem_delete k c, None) else (c, Some e))"

definition mem_put :: "int \<Rightarrow> nat \<Rightarrow> int \<Rightarrow> string \<Rightarrow> 'v entry \<Rightarrow> 'v cache \<Rightarrow> 'v cache" where
  "mem_put ttlMs max_size now k e c =
    (let room_made = (if map_of c k = None \<and> max_size \<le> length c then tl c else c)
     in alist_upd k (\<lambda>_. (e, now + ttlMs)) room_made)"

definition mem_reserve :: "int \<Rightarrow> nat \<Rightarrow> int \<Rightarrow> string \<Rightarrow> 'v cache \<Rightarrow> 'v cache \<times> 'v outcome" where
  "mem_reserve ttlMs max_size now k c =
    (case mem_live now k c of
       (c', Some (Completed v)) \<Rightarrow> (c', Replay v)
     | (c', Some Pending) \<Rightarrow> (c', InFlight)
     | (c', None) \<Rightarrow> (mem_put ttlMs max_size now k Pending c', Reserved))"

definition mem_commit :: "int \<Rightarrow> nat \<Rightarrow> int \<Rightarrow> string \<Rightarrow> 'v \<Rightarrow> 'v cache \<Rightarrow> 'v cache" where
  "mem_commit ttlMs max_size now k v c = mem_put ttlMs max_size now k (Completed v) c"

definition mem_release :: "string \<Rightarrow> 'v cache \<Rightarrow> 'v cache" where
  "mem_release k c = mem_delete k c"

section \<open>The clients\<close>

text \<open>What a client call gives back: the value with the replay flag, or the error it ends with.\<close>

type_synonym ('v, 'e) reply = "'e + 'v \<times> bool"

definition mcp_key :: "string \<Rightarrow> string \<Rightarrow> string \<Rightarrow> string \<Rightarrow> string" where
  "mcp_key tenant user tool key = ''hr:idempotency:mcp:'' @ tenant @ '':'' @ user @ '':'' @ tool @ '':'' @ key"

definition in_flight_error :: hr_error where
  "in_flight_error = AppError 409 ''HR-IDEMPOTENCY-IN-PROGRESS''"

definition kept :: "'s \<Rightarrow> hr_error + 's \<Rightarrow> 's" where
  "kept s r = (case r of Inl _ \<Rightarrow> s | Inr s' \<Rightarrow> s')"

definition runMcpIdempotent ::
  "(string \<Rightarrow> 's \<Rightarrow> hr_error + 's \<times> 'v outcome) \<Rightarrow> (string \<Rightarrow> 'v \<Rightarrow> 's \<Rightarrow> hr_error + 's) \<Rightarrow> (string \<Rightarrow> 's \<Rightarrow> hr_error + 's) \<Rightarrow>
   string \<Rightarrow> string \<Rightarrow> string \<Rightarrow> string option \<Rightarrow> ('w \<Rightarrow> 'w \<times> (hr_error + 'v)) \<Rightarrow> 's \<Rightarrow> 'w \<Rightarrow> 's \<times> 'w \<times> ('v, hr_error) reply" where
  "runMcpIdempotent reserve commit release tenant user tool idempotencyKey run s w =
    (let plain = (\<lambda>s. case run w of (w', Inl e) \<Rightarrow> (s, w', Inl e) | (w', Inr v) \<Rightarrow> (s, w', Inr (v, False))) in
     case idempotencyKey of
       None \<Rightarrow> plain s
     | Some raw \<Rightarrow>
         if raw = [] then plain s
         else
           let key = mcp_key tenant user tool raw in
           (case reserve key s of
              Inl _ \<Rightarrow> plain s
            | Inr (s1, Replay v) \<Rightarrow> (s1, w, Inr (v, True))
            | Inr (s1, InFlight) \<Rightarrow> (s1, w, Inl in_flight_error)
            | Inr (s1, Reserved) \<Rightarrow>
                (case run w of
                   (w', Inr v) \<Rightarrow> (kept s1 (commit key v s1), w', Inr (v, False))
                 | (w', Inl e) \<Rightarrow> (kept s1 (release key s1), w', Inl e))))"

text \<open>
  The REST adapter around a handler that answers with a status and a body: a success is committed, any
  other answer releases the key.
\<close>

definition rest_key :: "string \<Rightarrow> string \<Rightarrow> string \<Rightarrow> string \<Rightarrow> string \<Rightarrow> string" where
  "rest_key tenant user verb path key = ''hr:idempotency:'' @ tenant @ '':'' @ user @ '':'' @ verb @ '':'' @ path @ '':'' @ key"

definition restIdempotent ::
  "(string \<Rightarrow> 's \<Rightarrow> hr_error + 's \<times> (nat \<times> 'b) outcome) \<Rightarrow> (string \<Rightarrow> nat \<times> 'b \<Rightarrow> 's \<Rightarrow> hr_error + 's) \<Rightarrow> (string \<Rightarrow> 's \<Rightarrow> hr_error + 's) \<Rightarrow>
   string \<Rightarrow> string \<Rightarrow> string \<Rightarrow> string \<Rightarrow> string option \<Rightarrow> 'b \<Rightarrow> ('w \<Rightarrow> 'w \<times> nat \<times> 'b) \<Rightarrow> 's \<Rightarrow> 'w \<Rightarrow> 's \<times> 'w \<times> nat \<times> 'b" where
  "restIdempotent reserve commit release tenant user verb path userKey conflict_body handler s w =
    (case userKey of
       None \<Rightarrow> (s, handler w)
     | Some raw \<Rightarrow>
         if raw = [] then (s, handler w)
         else
           let key = rest_key tenant user verb path raw in
           (case reserve key s of
              Inl _ \<Rightarrow> (s, handler w)
            | Inr (s1, Replay answer) \<Rightarrow> (s1, w, answer)
            | Inr (s1, InFlight) \<Rightarrow> (s1, w, 409, conflict_body)
            | Inr (s1, Reserved) \<Rightarrow>
                (case handler w of (w', status, body) \<Rightarrow>
                   (kept s1 (if 200 \<le> status \<and> status < 300 then commit key (status, body) s1 else release key s1),
                    w', status, body))))"

section \<open>The interface of a store\<close>

text \<open>Operations on a store by all its clients, in the order they happen, each at its time.\<close>

datatype 'v store_op = Reserve int string | Commit int string 'v | Release int string

fun op_time :: "'v store_op \<Rightarrow> int" where
  "op_time (Reserve t k) = t"
| "op_time (Commit t k v) = t"
| "op_time (Release t k) = t"

text \<open>An operation that ends a request with key \<open>k\<close>.\<close>

fun ends :: "string \<Rightarrow> 'v store_op \<Rightarrow> bool" where
  "ends k (Reserve t j) = False"
| "ends k (Commit t j v) = (j = k)"
| "ends k (Release t j) = (j = k)"

fun run_op :: "(int \<Rightarrow> string \<Rightarrow> 's \<Rightarrow> 's \<times> 'v outcome) \<Rightarrow> (int \<Rightarrow> string \<Rightarrow> 'v \<Rightarrow> 's \<Rightarrow> 's) \<Rightarrow> (string \<Rightarrow> 's \<Rightarrow> 's) \<Rightarrow>
  'v store_op \<Rightarrow> 's \<Rightarrow> 's" where
  "run_op reserve commit release (Reserve t k) s = fst (reserve t k s)"
| "run_op reserve commit release (Commit t k v) s = commit t k v s"
| "run_op reserve commit release (Release t k) s = release k s"

locale idempotency_store =
  fixes reserve :: "int \<Rightarrow> string \<Rightarrow> 's \<Rightarrow> 's \<times> 'v outcome"
    and commit :: "int \<Rightarrow> string \<Rightarrow> 'v \<Rightarrow> 's \<Rightarrow> 's"
    and release :: "string \<Rightarrow> 's \<Rightarrow> 's"
    and entry :: "int \<Rightarrow> string \<Rightarrow> 's \<Rightarrow> 'v entry option"
    and room :: "'s \<Rightarrow> nat"
    and ttl :: int
  assumes reserve_outcome: "snd (reserve now k s) = (case entry now k s of None \<Rightarrow> Reserved | Some Pending \<Rightarrow> InFlight
      | Some (Completed v) \<Rightarrow> Replay v)"
    and reserve_entry: "now \<le> t \<Longrightarrow> entry t k (fst (reserve now k s)) =
      (if entry now k s = None then if t < now + ttl then Some Pending else None else entry t k s)"
    and commit_entry: "now \<le> t \<Longrightarrow> entry t k (commit now k v s) = (if t < now + ttl then Some (Completed v) else None)"
    and release_entry: "entry t k (release k s) = None"
    and reserve_other: "j \<noteq> k \<Longrightarrow> 0 < room s \<Longrightarrow> now \<le> t \<Longrightarrow> entry t j (fst (reserve now k s)) = entry t j s"
    and commit_other: "j \<noteq> k \<Longrightarrow> 0 < room s \<Longrightarrow> now \<le> t \<Longrightarrow> entry t j (commit now k v s) = entry t j s"
    and release_other: "j \<noteq> k \<Longrightarrow> entry t j (release k s) = entry t j s"
    and reserve_room: "room s \<le> Suc (room (fst (reserve now k s)))"
    and commit_room: "room s \<le> Suc (room (commit now k v s))"
    and release_room: "room s \<le> room (release k s)"
    and entry_fades: "t \<le> t' \<Longrightarrow> entry t k s = None \<Longrightarrow> entry t' k s = None"
begin

abbreviation apply_op :: "'v store_op \<Rightarrow> 's \<Rightarrow> 's" where
  "apply_op \<equiv> run_op reserve commit release"

lemma apply_op_room: "room s \<le> Suc (room (apply_op p s))"
  using reserve_room commit_room release_room by (cases p) (auto intro: le_SucI)

text \<open>While there is room, an entry survives whatever other requests do.\<close>

lemma apply_op_entry:
  assumes "entry t k s = Some e" and "op_time p \<le> t" and "\<not> ends k p" and "0 < room s"
  shows "entry t k (apply_op p s) = Some e"
proof (cases p)
  case (Reserve u j)
  show ?thesis
  proof (cases "j = k")
    case True
    have "u \<le> t" using assms(2) Reserve by simp
    then obtain y where "entry u k s = Some y" using entry_fades [of u t k s] assms(1) by (cases "entry u k s") auto
    then show ?thesis using assms(1) True Reserve reserve_entry [OF \<open>u \<le> t\<close>] by simp
  next
    case False
    then show ?thesis using assms Reserve reserve_other [of k j s u t] by auto
  qed
next
  case (Commit u j v)
  then show ?thesis using assms commit_other [of k j s u t v] by auto
next
  case (Release u j)
  then show ?thesis using assms release_other [of k j t s] by auto
qed

lemma apply_ops_entry:
  assumes "entry t k s = Some e" and "\<forall>p \<in> set ops. op_time p \<le> t \<and> \<not> ends k p" and "length ops \<le> room s"
  shows "entry t k (fold apply_op ops s) = Some e"
  using assms
proof (induction ops arbitrary: s)
  case (Cons p ops)
  have "entry t k (apply_op p s) = Some e" using apply_op_entry Cons.prems by auto
  moreover have "length ops \<le> room (apply_op p s)" using apply_op_room [of s p] Cons.prems(3) by simp
  ultimately show ?case using Cons by simp
qed simp

text \<open>
  The promise to a client: once it holds a key, every other reservation of the key before it finishes
  is told to wait, and once it has committed, every reservation replays its value, as long as the
  entry has not expired and the store did not have to evict.
\<close>

lemma held_key:
  assumes "snd (reserve now k s) = Reserved" and "\<forall>p \<in> set ops. op_time p \<le> t \<and> \<not> ends k p"
    and "now \<le> t" and "t < now + ttl" and "length ops < room s"
  shows "snd (reserve t k (fold apply_op ops (fst (reserve now k s)))) = InFlight"
proof -
  have "entry now k s = None" using assms(1) unfolding reserve_outcome by (auto split: option.splits entry.splits)
  then have "entry t k (fst (reserve now k s)) = Some Pending" using reserve_entry assms(3,4) by simp
  then have "entry t k (fold apply_op ops (fst (reserve now k s))) = Some Pending"
    using apply_ops_entry assms(2,5) reserve_room [of s now k] by simp
  then show ?thesis by (simp add: reserve_outcome)
qed

lemma committed_key:
  assumes "\<forall>p \<in> set ops. op_time p \<le> t \<and> \<not> ends k p" and "now \<le> t" and "t < now + ttl" and "length ops < room s"
  shows "snd (reserve t k (fold apply_op ops (commit now k v s))) = Replay v"
proof -
  have "entry t k (commit now k v s) = Some (Completed v)" using commit_entry assms(2,3) by simp
  then have "entry t k (fold apply_op ops (commit now k v s)) = Some (Completed v)"
    using apply_ops_entry assms(1,4) commit_room [of s now k v] by simp
  then show ?thesis by (simp add: reserve_outcome)
qed

end

section \<open>The memory store keeps the promise\<close>

definition mem_entry :: "int \<Rightarrow> string \<Rightarrow> 'v cache \<Rightarrow> 'v entry option" where
  "mem_entry now k c = snd (mem_live now k c)"

lemma mem_entry_eq: "mem_entry now k c = (case map_of c k of None \<Rightarrow> None
    | Some (e, expiresAt) \<Rightarrow> if now < expiresAt then Some e else None)"
  by (auto simp: mem_entry_def mem_live_def split: option.splits)

lemma map_of_mem_delete: "map_of (mem_delete k c) j = (if j = k then None else map_of c j)"
  by (induction c) (auto simp: mem_delete_def)

lemma length_mem_delete: "length (mem_delete k c) \<le> length c"
  by (simp add: mem_delete_def)

lemma map_of_mem_put: "map_of (mem_put ttlMs max_size now k e c) k = Some (e, now + ttlMs)"
  by (simp add: mem_put_def Let_def map_of_alist_upd)

lemma map_of_mem_put_other:
  assumes "j \<noteq> k" and "length c < max_size"
  shows "map_of (mem_put ttlMs max_size now k e c) j = map_of c j"
  using assms by (simp add: mem_put_def map_of_alist_upd)

lemma length_alist_upd: "length (alist_upd k f kvs) \<le> Suc (length kvs)"
  by (induction k f kvs rule: alist_upd.induct) auto

lemma length_mem_put: "length (mem_put ttlMs max_size now k e c) \<le> Suc (length c)"
proof -
  have "length (mem_put ttlMs max_size now k e c)
      \<le> Suc (length (if map_of c k = None \<and> max_size \<le> length c then tl c else c))"
    unfolding mem_put_def Let_def by (rule length_alist_upd)
  also have "\<dots> \<le> Suc (length c)" by simp
  finally show ?thesis .
qed

lemma mem_reserve_cases: "mem_reserve ttlMs max_size now k c =
  (case mem_entry now k c of
     None \<Rightarrow> (mem_put ttlMs max_size now k Pending (fst (mem_live now k c)), Reserved)
   | Some Pending \<Rightarrow> (c, InFlight)
   | Some (Completed v) \<Rightarrow> (c, Replay v))"
  by (auto simp: mem_reserve_def mem_entry_def mem_live_def split: option.splits entry.splits)

lemma map_of_mem_live: "j \<noteq> k \<Longrightarrow> map_of (fst (mem_live now k c)) j = map_of c j"
  by (auto simp: mem_live_def map_of_mem_delete split: option.splits)

lemma length_mem_live: "length (fst (mem_live now k c)) \<le> length c"
  by (auto simp: mem_live_def length_mem_delete split: option.splits)

lemma mem_reserve_other:
  assumes "j \<noteq> k" and "length c < max_size"
  shows "map_of (fst (mem_reserve ttlMs max_size now k c)) j = map_of c j"
  using assms length_mem_live [of now k c]
  by (auto simp: mem_reserve_cases map_of_mem_put_other map_of_mem_live split: option.split entry.split)

lemma length_mem_reserve: "length (fst (mem_reserve ttlMs max_size now k c)) \<le> Suc (length c)"
  using length_mem_live [of now k c] length_mem_put [of ttlMs max_size now k Pending "fst (mem_live now k c)"]
  by (auto simp: mem_reserve_cases split: option.split entry.split)

interpretation mem: idempotency_store "mem_reserve ttlMs max_size" "mem_commit ttlMs max_size" mem_release mem_entry
  "\<lambda>c. max_size - length c" ttlMs for ttlMs max_size
proof unfold_locales
  fix now t :: int and j k :: string and c :: "'v cache" and v :: 'v
  show "snd (mem_reserve ttlMs max_size now k c) = (case mem_entry now k c of None \<Rightarrow> Reserved
      | Some Pending \<Rightarrow> InFlight | Some (Completed v) \<Rightarrow> Replay v)"
    by (simp add: mem_reserve_cases split: option.split entry.split)
  show "now \<le> t \<Longrightarrow> mem_entry t k (fst (mem_reserve ttlMs max_size now k c)) =
      (if mem_entry now k c = None then if t < now + ttlMs then Some Pending else None else mem_entry t k c)"
    by (auto simp: mem_reserve_cases mem_entry_eq [of t] map_of_mem_put split: option.split entry.split)
  show "now \<le> t \<Longrightarrow> mem_entry t k (mem_commit ttlMs max_size now k v c) =
      (if t < now + ttlMs then Some (Completed v) else None)"
    by (simp add: mem_commit_def mem_entry_eq map_of_mem_put)
  show "mem_entry t k (mem_release k c) = None"
    by (simp add: mem_release_def mem_entry_eq map_of_mem_delete)
  show "j \<noteq> k \<Longrightarrow> 0 < max_size - length c \<Longrightarrow> now \<le> t \<Longrightarrow>
      mem_entry t j (fst (mem_reserve ttlMs max_size now k c)) = mem_entry t j c"
    by (simp add: mem_entry_eq mem_reserve_other)
  show "j \<noteq> k \<Longrightarrow> 0 < max_size - length c \<Longrightarrow> now \<le> t \<Longrightarrow>
      mem_entry t j (mem_commit ttlMs max_size now k v c) = mem_entry t j c"
    by (simp add: mem_commit_def mem_entry_eq map_of_mem_put_other)
  show "j \<noteq> k \<Longrightarrow> mem_entry t j (mem_release k c) = mem_entry t j c"
    by (simp add: mem_release_def mem_entry_eq map_of_mem_delete)
  show "max_size - length c \<le> Suc (max_size - length (fst (mem_reserve ttlMs max_size now k c)))"
    using length_mem_reserve [of ttlMs max_size now k c] by simp
  show "max_size - length c \<le> Suc (max_size - length (mem_commit ttlMs max_size now k v c))"
    using length_mem_put [of ttlMs max_size now k "Completed v" c] by (simp add: mem_commit_def)
  show "max_size - length c \<le> max_size - length (mem_release k c)"
    using length_mem_delete [of k c] by (simp add: mem_release_def)
  show "now \<le> t \<Longrightarrow> mem_entry now k c = None \<Longrightarrow> mem_entry t k c = None"
    by (auto simp: mem_entry_eq split: option.splits if_splits)
qed

section \<open>Calls over the memory store\<close>

text \<open>
  A tool call whose store is the memory store of the process, reserving at \<open>t0\<close> and finishing at \<open>t1\<close>;
  \<open>other_requests\<close> is what the other requests of the process do to the store in between.
\<close>

definition mcp_mem_call :: "int \<Rightarrow> nat \<Rightarrow> int \<Rightarrow> int \<Rightarrow> string \<Rightarrow> string \<Rightarrow> string \<Rightarrow> string option \<Rightarrow>
  ('w \<Rightarrow> 'w \<times> (hr_error + 'v)) \<Rightarrow> 'v cache \<Rightarrow> 'w \<Rightarrow> 'v cache \<times> 'w \<times> ('v, hr_error) reply" where
  "mcp_mem_call ttlMs max_size t0 t1 =
    runMcpIdempotent (\<lambda>k c. Inr (mem_reserve ttlMs max_size t0 k c)) (\<lambda>k v c. Inr (mem_commit ttlMs max_size t1 k v c))
      (\<lambda>k c. Inr (mem_release k c))"

definition other_requests :: "int \<Rightarrow> nat \<Rightarrow> 'v store_op list \<Rightarrow> 'v cache \<Rightarrow> 'v cache" where
  "other_requests ttlMs max_size = fold (run_op (mem_reserve ttlMs max_size) (mem_commit ttlMs max_size) mem_release)"

lemma mcp_mem_call_success:
  assumes "mcp_mem_call ttlMs max_size t0 t1 tenant user tool (Some key) run c w = (c1, w1, Inr (v, False))" and "key \<noteq> []"
  shows "c1 = mem_commit ttlMs max_size t1 (mcp_key tenant user tool key) v
      (fst (mem_reserve ttlMs max_size t0 (mcp_key tenant user tool key) c))"
  using assms unfolding mcp_mem_call_def runMcpIdempotent_def
  by (auto simp: Let_def kept_def split: prod.split_asm outcome.split_asm sum.split_asm)

lemma mcp_mem_call_told:
  assumes "key \<noteq> []"
  shows "snd (mem_reserve ttlMs max_size t0 (mcp_key tenant user tool key) c) = Replay v \<Longrightarrow>
      snd (mcp_mem_call ttlMs max_size t0 t1 tenant user tool (Some key) run c w) = (w, Inr (v, True))"
    and "snd (mem_reserve ttlMs max_size t0 (mcp_key tenant user tool key) c) = InFlight \<Longrightarrow>
      snd (mcp_mem_call ttlMs max_size t0 t1 tenant user tool (Some key) run c w) = (w, Inl in_flight_error)"
  using assms unfolding mcp_mem_call_def runMcpIdempotent_def
  by (auto simp: Let_def split: prod.split outcome.split)

section \<open>Properties\<close>

text \<open>A tool call that carried an idempotency key and succeeded is not executed again: a repeat of it by
  the same tenant, user and tool before the entry expires gets the recorded value marked as replayed and
  leaves the state of the world as it was, whatever other requests did to the store in between (none of
  which ends this key's request), provided the store has room for them, so that nothing is evicted.\<close>

theorem mcp_success_replayed:
  assumes "mcp_mem_call ttlMs max_size t0 t1 tenant user tool (Some key) run c w = (c1, w1, Inr (v, False))" and "key \<noteq> []"
    and "\<forall>p \<in> set ops. op_time p \<le> t \<and> \<not> ends (mcp_key tenant user tool key) p"
    and "t1 \<le> t" and "t < t1 + ttlMs" and "Suc (length c + length ops) < max_size"
  shows "snd (mcp_mem_call ttlMs max_size t t' tenant user tool (Some key) run' (other_requests ttlMs max_size ops c1) w')
      = (w', Inr (v, True))"
proof -
  let ?k = "mcp_key tenant user tool key"
  let ?held = "fst (mem_reserve ttlMs max_size t0 ?k c)"
  have "length ops < max_size - length ?held" using length_mem_reserve [of ttlMs max_size t0 ?k c] assms(6) by simp
  from mem.committed_key [OF assms(3,4,5) this]
  have "snd (mem_reserve ttlMs max_size t ?k (other_requests ttlMs max_size ops c1)) = Replay v"
    unfolding other_requests_def mcp_mem_call_success [OF assms(1,2)] .
  then show ?thesis by (rule mcp_mem_call_told(1) [OF assms(2)])
qed

theorem mcp_success_replayed_witness:
  "snd (mcp_mem_call 100 10 20 21 ''t'' ''u'' ''run'' (Some ''k'') (\<lambda>w. (w + 1, Inr w))
      (other_requests 100 10 [Reserve 8 (mcp_key ''t2'' ''u'' ''run'' ''k''), Commit 9 (mcp_key ''t2'' ''u'' ''run'' ''k'') 5]
        (fst (mcp_mem_call 100 10 3 7 ''t'' ''u'' ''run'' (Some ''k'') (\<lambda>w. (w + 1, Inr w)) [] (41 :: nat)))) 42)
    = (42, Inr (41, True))"
proof -
  let ?c = "mcp_mem_call 100 10 3 7 ''t'' ''u'' ''run'' (Some ''k'') (\<lambda>w. (w + 1, Inr w)) [] (41 :: nat)"
  have "?c = (fst ?c, 42, Inr (41, False))" by code_simp
  then show ?thesis by (rule mcp_success_replayed) (simp_all add: mcp_key_def)
qed

text \<open>While a tool call holds its key, no second call with the key runs: it ends with the 409
  \<open>HR-IDEMPOTENCY-IN-PROGRESS\<close> and leaves the world alone, whatever other requests do to the store in
  between, under the same conditions on the time and on the room in the store.\<close>

theorem mcp_one_owner:
  assumes "snd (mem_reserve ttlMs max_size t0 (mcp_key tenant user tool key) c) = Reserved" and "key \<noteq> []"
    and "\<forall>p \<in> set ops. op_time p \<le> t \<and> \<not> ends (mcp_key tenant user tool key) p"
    and "t0 \<le> t" and "t < t0 + ttlMs" and "length c + length ops < max_size"
  shows "snd (mcp_mem_call ttlMs max_size t t' tenant user tool (Some key) run'
      (other_requests ttlMs max_size ops (fst (mem_reserve ttlMs max_size t0 (mcp_key tenant user tool key) c))) w')
      = (w', Inl in_flight_error)"
proof -
  have "length ops < max_size - length c" using assms(6) by simp
  from mem.held_key [OF assms(1,3,4,5) this] show ?thesis
    unfolding other_requests_def by (rule mcp_mem_call_told(2) [OF assms(2)])
qed

theorem mcp_one_owner_witness:
  "snd (mcp_mem_call 100 10 20 21 ''t'' ''u'' ''run'' (Some ''k'') (\<lambda>w. (w + 1, Inr w))
      (other_requests 100 10 [Reserve 8 (mcp_key ''t2'' ''u'' ''run'' ''k''), Commit 9 (mcp_key ''t2'' ''u'' ''run'' ''k'') 5]
        (fst (mem_reserve 100 10 3 (mcp_key ''t'' ''u'' ''run'' ''k'') []))) (42 :: nat))
    = (42, Inl in_flight_error)"
proof -
  have "snd (mem_reserve 100 10 3 (mcp_key ''t'' ''u'' ''run'' ''k'') ([] :: nat cache)) = Reserved" by code_simp
  then show ?thesis by (rule mcp_one_owner) (simp_all add: mcp_key_def)
qed

end
