(* ===== verification/Outbox.thy ===== *)
theory Outbox
  imports Prelude "HOL-Library.Multiset"
begin

text \<open>
  The dispatcher of domain events, \<^verbatim>\<open>src/src/jobs/outbox.dispatcher.js\<close>. Part one is a batch of one worker, as the
  code runs it; part two is the table under any number of workers whose single database operations
  interleave, that may crash anywhere and whose leases may expire. The stream is the list of row ids in
  the order they were added; publishing is the caller's function.
\<close>

section \<open>Rows and parameters\<close>

record outbox_row =
  ob_id :: nat
  ob_createdAt :: int
  ob_eventName :: string
  ob_aggregateId :: "string option"
  ob_payload :: string
  ob_attempts :: nat
  ob_lastError :: "string option"
  ob_publishedAt :: "int option"
  ob_claimedAt :: "int option"
  ob_claimedBy :: "string option"
  ob_claimExpiresAt :: "int option"

definition DEFAULT_BATCH_SIZE :: int where "DEFAULT_BATCH_SIZE = 50"
definition MAX_BATCH_SIZE :: int where "MAX_BATCH_SIZE = 500"
definition DEFAULT_LEASE_MS :: int where "DEFAULT_LEASE_MS = 60000"
definition MIN_LEASE_MS :: int where "MIN_LEASE_MS = 1000"
definition MAX_LEASE_MS :: int where "MAX_LEASE_MS = 600000"
definition LAST_ERROR_MAX_LEN :: nat where "LAST_ERROR_MAX_LEN = 512"
definition WORKER_ID_MAX_LEN :: nat where "WORKER_ID_MAX_LEN = 128"

definition truncate_text :: "nat \<Rightarrow> string \<Rightarrow> string" where
  "truncate_text m s = (if m < length s then take m s else s)"

text \<open>A size or lease that is no finite number is \<open>None\<close>.\<close>

definition clampBatch :: "rat option \<Rightarrow> nat" where
  "clampBatch batchSize = (let n = (case batchSize of Some x \<Rightarrow> \<lfloor>x\<rfloor> | None \<Rightarrow> DEFAULT_BATCH_SIZE) in
     nat (if n \<le> 0 then DEFAULT_BATCH_SIZE else if MAX_BATCH_SIZE < n then MAX_BATCH_SIZE else n))"

definition clampLease :: "rat option \<Rightarrow> int" where
  "clampLease ms = (let n = (case ms of Some x \<Rightarrow> \<lfloor>x\<rfloor> | None \<Rightarrow> DEFAULT_LEASE_MS) in
     if n < MIN_LEASE_MS then MIN_LEASE_MS else if MAX_LEASE_MS < n then MAX_LEASE_MS else n)"

definition worker_char :: "char \<Rightarrow> bool" where
  "worker_char c = (let n = (of_char c :: nat) in
     (65 \<le> n \<and> n \<le> 90) \<or> (97 \<le> n \<and> n \<le> 122) \<or> (48 \<le> n \<and> n \<le> 57) \<or> c \<in> set ''._:-'')"

definition sanitiseWorkerId :: "string option \<Rightarrow> string option" where
  "sanitiseWorkerId raw = (case raw of None \<Rightarrow> None
     | Some s \<Rightarrow> let t = take WORKER_ID_MAX_LEN (filter worker_char s) in if t = [] then None else Some t)"

text \<open>The stream an event goes to and the fields of its entry; JSON and the signature are arguments.\<close>

definition HR_EVENTS_STREAM :: string where
  "HR_EVENTS_STREAM = ''hr:events''"

definition streamPublisher :: "(string \<Rightarrow> string) \<Rightarrow> (string \<Rightarrow> string \<Rightarrow> string) \<Rightarrow> string \<Rightarrow> string \<Rightarrow> string option \<Rightarrow>
    outbox_row \<Rightarrow> string \<times> (string \<times> string) list" where
  "streamPublisher to_json sign finance stream eid row =
    (let envelope = to_json (ob_payload row);
         signature = (if ob_eventName row = finance then [(''signature'', sign stream envelope)] else [])
     in (if ob_eventName row = ''hr.availability.changed.v1'' then ''pm:source-events'' else stream,
         [(''event'', ob_eventName row), (''envelope'', envelope), (''eid'', case eid of Some i \<Rightarrow> i | None \<Rightarrow> []),
          (''srcId'', case ob_aggregateId row of Some i \<Rightarrow> i | None \<Rightarrow> [])] @ signature))"

section \<open>The database operations of a worker\<close>

record lease =
  le_worker :: string
  le_startedAt :: int
  le_deadline :: int

definition candidate :: "int \<Rightarrow> outbox_row \<Rightarrow> bool" where
  "candidate startedAt row \<longleftrightarrow> ob_publishedAt row = None \<and>
    (ob_claimedAt row = None \<or> (case ob_claimExpiresAt row of None \<Rightarrow> False | Some t \<Rightarrow> t < startedAt))"

definition candidates :: "int \<Rightarrow> nat \<Rightarrow> outbox_row list \<Rightarrow> outbox_row list" where
  "candidates startedAt n rows = take n (sort_key ob_createdAt (sort_key ob_id (filter (candidate startedAt) rows)))"

text \<open>A conditional \<^verbatim>\<open>updateMany\<close> by id: the new table and the number of rows it met.\<close>

definition update_rows :: "(outbox_row \<Rightarrow> bool) \<Rightarrow> (outbox_row \<Rightarrow> outbox_row) \<Rightarrow> outbox_row list \<Rightarrow> outbox_row list \<times> nat" where
  "update_rows P f rows = (map (\<lambda>r. if P r then f r else r) rows, length (filter P rows))"

definition claimed_row :: "lease \<Rightarrow> outbox_row \<Rightarrow> outbox_row" where
  "claimed_row l r = r\<lparr>ob_claimedAt := Some (le_startedAt l), ob_claimedBy := Some (le_worker l), ob_claimExpiresAt := Some (le_deadline l)\<rparr>"

definition released :: "outbox_row \<Rightarrow> outbox_row" where
  "released r = r\<lparr>ob_attempts := Suc (ob_attempts r), ob_claimedAt := None, ob_claimedBy := None, ob_claimExpiresAt := None\<rparr>"

definition claim :: "lease \<Rightarrow> nat \<Rightarrow> outbox_row list \<Rightarrow> outbox_row list \<times> nat" where
  "claim l i = update_rows (\<lambda>r. ob_id r = i \<and> candidate (le_startedAt l) r) (claimed_row l)"

definition mark_published :: "lease \<Rightarrow> int \<Rightarrow> nat \<Rightarrow> outbox_row list \<Rightarrow> outbox_row list \<times> nat" where
  "mark_published l now i = update_rows (\<lambda>r. ob_id r = i \<and> ob_claimedBy r = Some (le_worker l) \<and> ob_publishedAt r = None)
    (\<lambda>r. (released r)\<lparr>ob_publishedAt := Some now, ob_lastError := None\<rparr>)"

definition record_failure :: "lease \<Rightarrow> string \<Rightarrow> nat \<Rightarrow> outbox_row list \<Rightarrow> outbox_row list \<times> nat" where
  "record_failure l err i = update_rows (\<lambda>r. ob_id r = i \<and> ob_claimedBy r = Some (le_worker l))
    (\<lambda>r. (released r)\<lparr>ob_lastError := Some (truncate_text LAST_ERROR_MAX_LEN err)\<rparr>)"

section \<open>A batch\<close>

record counts =
  co_scanned :: nat
  co_claimed :: nat
  co_published :: nat
  co_failed :: nat
  co_skipped :: nat
  co_claimRaceLost :: nat
  co_claimExpiredMidPublish :: nat

text \<open>
  The state of a batch: the table, the ids put on the stream, the counters. Publishing a row either
  adds it to the stream or throws an error; \<open>publisher\<close> decides which, by the row as scanned.
\<close>

fun claim_all :: "lease \<Rightarrow> outbox_row list \<Rightarrow> outbox_row list \<Rightarrow> outbox_row list \<times> outbox_row list" where
  "claim_all l [] rows = (rows, [])"
| "claim_all l (c # cs) rows =
    (let (rows', n) = claim l (ob_id c) rows;
         (rows'', won) = claim_all l cs rows'
     in (rows'', if n = 1 then c # won else won))"

fun publish_all :: "lease \<Rightarrow> int \<Rightarrow> (outbox_row \<Rightarrow> string option) \<Rightarrow> outbox_row list \<Rightarrow> outbox_row list \<Rightarrow>
    outbox_row list \<times> nat list \<times> nat \<times> nat \<times> nat" where
  "publish_all l now publisher [] rows = (rows, [], 0, 0, 0)"
| "publish_all l now publisher (c # cs) rows =
    (case publisher c of
       Some err \<Rightarrow>
         (case publish_all l now publisher cs (fst (record_failure l err (ob_id c) rows)) of
            (rows', stream, published, failed, expired) \<Rightarrow> (rows', stream, published, Suc failed, expired))
     | None \<Rightarrow>
         (case mark_published l now (ob_id c) rows of (rows1, n) \<Rightarrow>
            case publish_all l now publisher cs rows1 of
              (rows', stream, published, failed, expired) \<Rightarrow>
                (rows', ob_id c # stream, if n = 1 then Suc published else published, failed,
                 if n = 1 then expired else Suc expired)))"

definition runOutboxDispatch :: "(outbox_row \<Rightarrow> string option) \<Rightarrow> string option \<Rightarrow> rat option \<Rightarrow> rat option \<Rightarrow> int \<Rightarrow> int \<Rightarrow>
    outbox_row list \<Rightarrow> hr_error + outbox_row list \<times> nat list \<times> counts" where
  "runOutboxDispatch publisher workerId batchSize leaseMs startedAt now rows =
    rbind (require (sanitiseWorkerId workerId) (PlainError ''runOutboxDispatch: workerId is required'')) (\<lambda>safeWorker.
      let l = \<lparr>le_worker = safeWorker, le_startedAt = startedAt, le_deadline = startedAt + clampLease leaseMs\<rparr>;
          cs = candidates startedAt (clampBatch batchSize) rows;
          (rows1, won) = claim_all l cs rows;
          (rows2, stream, published, failed, expired) = publish_all l now publisher won rows1;
          lost = length cs - length won
      in Inr (rows2, stream, \<lparr>co_scanned = length cs, co_claimed = length won, co_published = published, co_failed = failed,
           co_skipped = lost + expired, co_claimRaceLost = lost, co_claimExpiredMidPublish = expired\<rparr>))"

text \<open>The heartbeat a batch leaves behind.\<close>

definition DEFAULT_HEARTBEAT_MAX_STALE_MS :: int where
  "DEFAULT_HEARTBEAT_MAX_STALE_MS = 120000"

definition readDispatcherHeartbeat :: "int option \<Rightarrow> int \<Rightarrow> int \<Rightarrow> bool \<times> int option" where
  "readDispatcherHeartbeat lastBeat now maxStale =
    (case lastBeat of None \<Rightarrow> (False, None) | Some b \<Rightarrow> (now - b \<le> maxStale, Some (now - b)))"

section \<open>Any number of workers\<close>

text \<open>
  What a worker has left to do: the rows it scanned and has not tried to claim, the rows it claimed and has
  not published, and the row it published and has not marked.
\<close>

record worker =
  wo_lease :: lease
  wo_scan :: "nat list"
  wo_won :: "nat list"
  wo_sent :: "nat option"

text \<open>\<open>os_claims\<close> and \<open>os_takeovers\<close> record every claim won, and those of a row whose lease had expired.\<close>

record outbox_system =
  os_rows :: "outbox_row list"
  os_workers :: "worker list"
  os_stream :: "nat list"
  os_claims :: "nat list"
  os_takeovers :: "nat list"

definition fresh_row :: "outbox_row \<Rightarrow> bool" where
  "fresh_row r \<longleftrightarrow> ob_publishedAt r = None \<and> ob_claimedAt r = None \<and> ob_claimedBy r = None \<and> ob_attempts r = 0"

definition held :: "nat \<Rightarrow> outbox_row list \<Rightarrow> bool" where
  "held i rows \<longleftrightarrow> list_ex (\<lambda>r. ob_id r = i \<and> ob_claimedAt r \<noteq> None) rows"

inductive outbox_step :: "outbox_system \<Rightarrow> outbox_system \<Rightarrow> bool" where
  produce: "ob_id r \<notin> ob_id ` set (os_rows s) \<Longrightarrow> fresh_row r \<Longrightarrow> outbox_step s (s\<lparr>os_rows := os_rows s @ [r]\<rparr>)"
| begin_batch: "outbox_step s (s\<lparr>os_workers := \<lparr>wo_lease = l, wo_scan = map ob_id (candidates (le_startedAt l) n (os_rows s)),
    wo_won = [], wo_sent = None\<rparr> # os_workers s\<rparr>)"
| claim_won: "os_workers s = us @ w # vs \<Longrightarrow> wo_scan w = i # is \<Longrightarrow> claim (wo_lease w) i (os_rows s) = (rows, 1) \<Longrightarrow>
    outbox_step s (s\<lparr>os_rows := rows, os_workers := us @ w\<lparr>wo_scan := is, wo_won := wo_won w @ [i]\<rparr> # vs,
      os_claims := i # os_claims s, os_takeovers := (if held i (os_rows s) then i # os_takeovers s else os_takeovers s)\<rparr>)"
| claim_lost: "os_workers s = us @ w # vs \<Longrightarrow> wo_scan w = i # is \<Longrightarrow> claim (wo_lease w) i (os_rows s) = (rows, 0) \<Longrightarrow>
    outbox_step s (s\<lparr>os_workers := us @ w\<lparr>wo_scan := is\<rparr> # vs\<rparr>)"
| publish: "os_workers s = us @ w # vs \<Longrightarrow> wo_scan w = [] \<Longrightarrow> wo_won w = i # is \<Longrightarrow> wo_sent w = None \<Longrightarrow>
    outbox_step s (s\<lparr>os_workers := us @ w\<lparr>wo_won := is, wo_sent := Some i\<rparr> # vs, os_stream := os_stream s @ [i]\<rparr>)"
| mark: "os_workers s = us @ w # vs \<Longrightarrow> wo_sent w = Some i \<Longrightarrow> mark_published (wo_lease w) now i (os_rows s) = (rows, n) \<Longrightarrow>
    outbox_step s (s\<lparr>os_rows := rows, os_workers := us @ w\<lparr>wo_sent := None\<rparr> # vs\<rparr>)"
| refused: "os_workers s = us @ w # vs \<Longrightarrow> wo_scan w = [] \<Longrightarrow> wo_won w = i # is \<Longrightarrow> wo_sent w = None \<Longrightarrow>
    record_failure (wo_lease w) err i (os_rows s) = (rows, n) \<Longrightarrow>
    outbox_step s (s\<lparr>os_rows := rows, os_workers := us @ w\<lparr>wo_won := is\<rparr> # vs\<rparr>)"
| unmarked: "os_workers s = us @ w # vs \<Longrightarrow> wo_sent w = Some i \<Longrightarrow> record_failure (wo_lease w) err i (os_rows s) = (rows, n) \<Longrightarrow>
    outbox_step s (s\<lparr>os_rows := rows, os_workers := us @ w\<lparr>wo_sent := None\<rparr> # vs\<rparr>)"
| crash: "os_workers s = us @ w # vs \<Longrightarrow> outbox_step s (s\<lparr>os_workers := us @ vs\<rparr>)"

definition outbox_init :: "outbox_system \<Rightarrow> bool" where
  "outbox_init s \<longleftrightarrow> os_rows s = [] \<and> os_workers s = [] \<and> os_stream s = [] \<and> os_claims s = [] \<and> os_takeovers s = []"

text \<open>
  The invariant: a published row is on the stream and free; every publication had a claim of its own; the
  claims of a row are its finished attempts, its takeovers and the claim it is under.
\<close>

definition row_ok :: "nat list \<Rightarrow> nat list \<Rightarrow> nat list \<Rightarrow> outbox_row \<Rightarrow> bool" where
  "row_ok stream claims takeovers r \<longleftrightarrow>
    (ob_publishedAt r \<noteq> None \<longrightarrow> ob_claimedAt r = None \<and> ob_id r \<in> set stream) \<and>
    (ob_claimedAt r = None \<longleftrightarrow> ob_claimedBy r = None) \<and>
    count_list claims (ob_id r) = ob_attempts r + count_list takeovers (ob_id r) + (if ob_claimedAt r = None then 0 else 1)"

definition unsent :: "worker list \<Rightarrow> nat \<Rightarrow> nat" where
  "unsent ws i = sum_list (map (\<lambda>w. count_list (wo_won w) i) ws)"

definition sent_ok :: "nat list \<Rightarrow> worker \<Rightarrow> bool" where
  "sent_ok stream w \<longleftrightarrow> (case wo_sent w of None \<Rightarrow> True | Some i \<Rightarrow> i \<in> set stream)"

definition outbox_inv :: "outbox_system \<Rightarrow> bool" where
  "outbox_inv s \<longleftrightarrow> distinct (map ob_id (os_rows s)) \<and>
    list_all (row_ok (os_stream s) (os_claims s) (os_takeovers s)) (os_rows s) \<and>
    set (os_claims s) \<subseteq> ob_id ` set (os_rows s) \<and> set (os_takeovers s) \<subseteq> ob_id ` set (os_rows s) \<and>
    (\<forall>i. count_list (os_stream s) i + unsent (os_workers s) i \<le> count_list (os_claims s) i) \<and>
    list_all (sent_ok (os_stream s)) (os_workers s)"

lemma unsent_simps [simp]:
  "unsent [] i = 0" "unsent (us @ vs) i = unsent us i + unsent vs i"
  "unsent (w # vs) i = count_list (wo_won w) i + unsent vs i"
  by (simp_all add: unsent_def)

lemma count_list_snoc [simp]: "count_list (xs @ ys) i = count_list xs i + count_list ys i"
  by (induction xs) simp_all

lemma update_rows_Pair: "update_rows P f rows = (rows', n) \<Longrightarrow> rows' = map (\<lambda>r. if P r then f r else r) rows \<and> n = length (filter P rows)"
  by (auto simp: update_rows_def)

text \<open>Conditional updates that keep the ids keep the invariant row by row.\<close>

lemma update_rows_ids:
  assumes "\<And>r. ob_id (f r) = ob_id r"
  shows "map ob_id (map (\<lambda>r. if P r then f r else r) rows) = map ob_id rows"
    "ob_id ` set (map (\<lambda>r. if P r then f r else r) rows) = ob_id ` set rows"
proof -
  show ids: "map ob_id (map (\<lambda>r. if P r then f r else r) rows) = map ob_id rows" using assms by simp
  show "ob_id ` set (map (\<lambda>r. if P r then f r else r) rows) = ob_id ` set rows"
    using arg_cong [OF ids, of set] unfolding set_map .
qed

lemma released_ok: "row_ok stream claims takeovers r \<Longrightarrow> ob_claimedBy r \<noteq> None \<Longrightarrow>
    row_ok stream claims takeovers ((released r)\<lparr>ob_lastError := e\<rparr>)"
  by (auto simp: row_ok_def released_def)

lemma marked_ok: "row_ok stream claims takeovers r \<Longrightarrow> ob_claimedBy r \<noteq> None \<Longrightarrow> ob_id r \<in> set stream \<Longrightarrow>
    row_ok stream claims takeovers ((released r)\<lparr>ob_publishedAt := Some now, ob_lastError := None\<rparr>)"
  by (auto simp: row_ok_def released_def)

lemma claimed_ok:
  assumes "row_ok stream claims takeovers r" and "candidate t r" and "t' = (if ob_claimedAt r = None then takeovers else ob_id r # takeovers)"
  shows "row_ok stream (ob_id r # claims) t' (claimed_row l r)"
  using assms by (auto simp: row_ok_def claimed_row_def candidate_def)

lemma row_ok_more: "row_ok stream claims takeovers r \<Longrightarrow> set stream \<subseteq> set stream' \<Longrightarrow> i \<noteq> ob_id r \<Longrightarrow> t' = takeovers \<or> t' = i # takeovers \<Longrightarrow>
    row_ok stream' (i # claims) t' r"
  by (auto simp: row_ok_def)

lemma row_ok_stream: "row_ok stream claims takeovers r \<Longrightarrow> row_ok (stream @ xs) claims takeovers r"
  by (auto simp: row_ok_def)

lemma sent_ok_stream: "sent_ok stream w \<Longrightarrow> sent_ok (stream @ xs) w"
  by (auto simp: sent_ok_def split: option.splits)

text \<open>Rows and workers change independently: the invariant after a step that leaves the claims alone.\<close>

lemma quiet_inv:
  assumes inv: "outbox_inv s" and rows: "os_rows s' = map (\<lambda>r. if P r then f r else r) (os_rows s)"
    and ids: "\<And>r. ob_id (f r) = ob_id r"
    and ok: "\<And>r. row_ok (os_stream s) (os_claims s) (os_takeovers s) r \<Longrightarrow> P r \<Longrightarrow> row_ok (os_stream s) (os_claims s) (os_takeovers s) (f r)"
    and ghosts: "os_stream s' = os_stream s" "os_claims s' = os_claims s" "os_takeovers s' = os_takeovers s"
    and workers: "\<And>i. unsent (os_workers s') i \<le> unsent (os_workers s) i" "list_all (sent_ok (os_stream s)) (os_workers s')"
  shows "outbox_inv s'"
proof -
  have "count_list (os_stream s) i + unsent (os_workers s') i \<le> count_list (os_claims s) i" for i
  proof -
    have "count_list (os_stream s) i + unsent (os_workers s) i \<le> count_list (os_claims s) i" using inv by (simp add: outbox_inv_def)
    then show ?thesis using workers(1) [of i] by simp
  qed
  moreover have "list_all (row_ok (os_stream s) (os_claims s) (os_takeovers s)) (os_rows s')"
    using inv ok by (auto simp: rows outbox_inv_def list_all_iff)
  moreover have "distinct (map ob_id (os_rows s'))" "ob_id ` set (os_rows s') = ob_id ` set (os_rows s)"
    unfolding rows update_rows_ids [OF ids] using inv by (simp_all add: outbox_inv_def)
  ultimately show ?thesis using inv workers(2) ghosts by (simp add: outbox_inv_def)
qed

lemma claim_won_inv:
  assumes inv: "outbox_inv s" and ws: "os_workers s = us @ w # vs" and scan: "wo_scan w = i # is"
    and claim: "claim (wo_lease w) i (os_rows s) = (rows, 1)"
  shows "outbox_inv (s\<lparr>os_rows := rows, os_workers := us @ w\<lparr>wo_scan := is, wo_won := wo_won w @ [i]\<rparr> # vs,
      os_claims := i # os_claims s, os_takeovers := (if held i (os_rows s) then i # os_takeovers s else os_takeovers s)\<rparr>)"
    (is "outbox_inv ?s")
proof -
  let ?P = "\<lambda>r. ob_id r = i \<and> candidate (le_startedAt (wo_lease w)) r" and ?t = "os_takeovers ?s"
  have rows: "rows = map (\<lambda>r. if ?P r then claimed_row (wo_lease w) r else r) (os_rows s)" and one: "length (filter ?P (os_rows s)) = 1"
    using claim by (auto simp: claim_def update_rows_def)
  have ids: "\<And>r. ob_id (claimed_row (wo_lease w) r) = ob_id r" by (simp add: claimed_row_def)
  have "filter ?P (os_rows s) \<noteq> []" using one by (metis list.size(3) zero_neq_one)
  then obtain x where x: "x \<in> set (os_rows s)" "?P x" unfolding filter_empty_conv by blast
  have same: "r = x" if "r \<in> set (os_rows s)" "ob_id r = i" for r
  proof -
    have "inj_on ob_id (set (os_rows s))" using inv by (simp add: outbox_inv_def distinct_map)
    then show ?thesis using x that unfolding inj_on_def by blast
  qed
  have held: "held i (os_rows s) \<longleftrightarrow> ob_claimedAt x \<noteq> None" unfolding held_def list_ex_iff using same x by blast
  have "row_ok (os_stream s) (i # os_claims s) ?t (if ?P r then claimed_row (wo_lease w) r else r)" if r: "r \<in> set (os_rows s)" for r
  proof -
    have ok: "row_ok (os_stream s) (os_claims s) (os_takeovers s) r" using inv r by (simp add: outbox_inv_def list_all_iff)
    show ?thesis
    proof (cases "ob_id r = i")
      case True
      then have "r = x" by (rule same [OF r])
      then show ?thesis using claimed_ok [OF ok, of _ ?t "wo_lease w"] x(2) held by auto
    next
      case False
      then show ?thesis using row_ok_more [OF ok, of "os_stream s" i ?t] by auto
    qed
  qed
  then have "list_all (row_ok (os_stream s) (i # os_claims s) ?t) rows" unfolding rows list_all_iff set_map by blast
  moreover have "distinct (map ob_id rows)" "ob_id ` set rows = ob_id ` set (os_rows s)"
    unfolding rows update_rows_ids [OF ids] using inv by (simp_all add: outbox_inv_def)
  moreover have "count_list (os_stream s) j + unsent (us @ w\<lparr>wo_scan := is, wo_won := wo_won w @ [i]\<rparr> # vs) j \<le> count_list (i # os_claims s) j" for j
    using inv ws by (auto simp: outbox_inv_def dest: spec [of _ j])
  ultimately show ?thesis using inv ws x by (auto simp: outbox_inv_def sent_ok_def)
qed

interpretation outbox: invariant_system outbox_init outbox_step outbox_inv
proof unfold_locales
  show "outbox_inv s" if "outbox_init s" for s
    using that by (simp add: outbox_init_def outbox_inv_def)
  show "outbox_inv t" if inv: "outbox_inv s" and step: "outbox_step s t" for s t
    using step
  proof cases
    case (produce r)
    have "count_list (os_claims s) (ob_id r) = 0" "count_list (os_takeovers s) (ob_id r) = 0"
      using produce(2) inv by (auto simp: outbox_inv_def count_list_0_iff)
    then show ?thesis using inv produce by (auto simp: outbox_inv_def fresh_row_def row_ok_def)
  next
    case (begin_batch l n)
    then show ?thesis using inv by (simp add: outbox_inv_def sent_ok_def)
  next
    case (claim_won us w vs i "is" rows)
    then show ?thesis using claim_won_inv inv by blast
  next
    case (claim_lost us w vs i "is" rows)
    then show ?thesis using inv by (auto simp: outbox_inv_def sent_ok_def)
  next
    case (publish us w vs i "is")
    have le: "count_list (os_stream s @ [i]) j + unsent (us @ w\<lparr>wo_won := is, wo_sent := Some i\<rparr> # vs) j \<le> count_list (os_claims s) j" for j
      using inv publish by (auto simp: outbox_inv_def dest: spec [of _ j])
    show ?thesis
      using inv publish le by (auto simp: outbox_inv_def list_all_iff intro: row_ok_stream sent_ok_stream) (simp add: sent_ok_def)
  next
    case (mark us w vs i now rows n)
    have i: "i \<in> set (os_stream s)" using inv mark(2,3) by (simp add: outbox_inv_def sent_ok_def)
    have rows: "rows = map (\<lambda>r. if ob_id r = i \<and> ob_claimedBy r = Some (le_worker (wo_lease w)) \<and> ob_publishedAt r = None
        then (released r)\<lparr>ob_publishedAt := Some now, ob_lastError := None\<rparr> else r) (os_rows s)"
      using mark(4) by (simp add: mark_published_def update_rows_def)
    show ?thesis
    proof (rule quiet_inv [OF inv, of t])
      show "os_rows t = map (\<lambda>r. if ob_id r = i \<and> ob_claimedBy r = Some (le_worker (wo_lease w)) \<and> ob_publishedAt r = None
        then (released r)\<lparr>ob_publishedAt := Some now, ob_lastError := None\<rparr> else r) (os_rows s)" using mark(1) rows by simp
    qed (use inv mark(1,2) i in \<open>auto simp: outbox_inv_def sent_ok_def released_def intro!: marked_ok [unfolded released_def]\<close>)
  next
    case (refused us w vs i "is" err rows n)
    show ?thesis
    proof (rule quiet_inv [OF inv, of t])
      show "os_rows t = map (\<lambda>r. if ob_id r = i \<and> ob_claimedBy r = Some (le_worker (wo_lease w))
        then (released r)\<lparr>ob_lastError := Some (truncate_text LAST_ERROR_MAX_LEN err)\<rparr> else r) (os_rows s)"
        using refused(1,6) by (auto simp: record_failure_def update_rows_def)
    qed (use inv refused(1-5) in \<open>auto simp: outbox_inv_def sent_ok_def released_def intro!: released_ok [unfolded released_def]\<close>)
  next
    case (unmarked us w vs i err rows n)
    show ?thesis
    proof (rule quiet_inv [OF inv, of t])
      show "os_rows t = map (\<lambda>r. if ob_id r = i \<and> ob_claimedBy r = Some (le_worker (wo_lease w))
        then (released r)\<lparr>ob_lastError := Some (truncate_text LAST_ERROR_MAX_LEN err)\<rparr> else r) (os_rows s)"
        using unmarked(1,4) by (auto simp: record_failure_def update_rows_def)
    qed (use inv unmarked(1-3) in \<open>auto simp: outbox_inv_def sent_ok_def released_def intro!: released_ok [unfolded released_def]\<close>)
  next
    case (crash us w vs)
    then show ?thesis
      using inv quiet_inv [OF inv, of t "\<lambda>r. False" "\<lambda>r. r"] by (auto simp: outbox_inv_def)
  qed
qed

text \<open>A published row is under no claim, so no update meets it.\<close>

lemma published_kept:
  assumes "outbox_step s t" and "outbox_inv s" and "r \<in> set (os_rows s)" and "ob_publishedAt r \<noteq> None"
  shows "r \<in> set (os_rows t)"
proof -
  have free: "ob_claimedBy r = None" using assms(2-4) by (auto simp: outbox_inv_def list_all_iff row_ok_def)
  have keep: "r \<in> set (map (\<lambda>x. if P x then f x else x) (os_rows s))" if "\<not> P r" for P f
    using assms(3) that unfolding set_map by (intro image_eqI [of _ _ r]) auto
  show ?thesis
    using assms(1)
  proof cases
    case (claim_won us w vs i "is" rows)
    then show ?thesis using assms(4) keep by (auto simp: claim_def update_rows_def candidate_def)
  next
    case (mark us w vs i now rows n)
    then show ?thesis using free keep by (auto simp: mark_published_def update_rows_def)
  next
    case (refused us w vs i "is" err rows n)
    then show ?thesis using free keep by (auto simp: record_failure_def update_rows_def)
  next
    case (unmarked us w vs i err rows n)
    then show ?thesis using free keep by (auto simp: record_failure_def update_rows_def)
  qed (use assms(3) in auto)
qed

section \<open>A lone worker drains the table\<close>

lemma map_id_if: "(\<And>x. x \<in> set xs \<Longrightarrow> P x = Q x) \<Longrightarrow> map (\<lambda>x. if P x then f x else x) xs = map (\<lambda>x. if Q x then f x else x) xs"
  by simp

lemma filter_one:
  assumes "distinct (map g xs)" and "x \<in> set xs" and "Q x"
  shows "filter (\<lambda>y. g y = g x \<and> Q y) xs = [x]"
  using assms by (induction xs) (auto simp: filter_empty_conv image_iff)

lemma update_one:
  assumes "distinct (map ob_id rows)" and "x \<in> set rows" and "Q x"
  shows "update_rows (\<lambda>r. ob_id r = ob_id x \<and> Q r) f rows = (map (\<lambda>r. if ob_id r = ob_id x then f r else r) rows, 1)"
proof -
  have "r = x" if "r \<in> set rows" "ob_id r = ob_id x" for r
    using assms(1,2) that by (simp add: distinct_map inj_on_def)
  then have "map (\<lambda>r. if ob_id r = ob_id x \<and> Q r then f r else r) rows = map (\<lambda>r. if ob_id r = ob_id x then f r else r) rows"
    using assms(3) by (intro map_id_if) blast
  then show ?thesis using filter_one [where g = ob_id and Q = Q, OF assms] by (simp add: update_rows_def)
qed

text \<open>Rewriting the rows with some ids, one after the other or all at once.\<close>

definition at_ids :: "nat set \<Rightarrow> (outbox_row \<Rightarrow> outbox_row) \<Rightarrow> outbox_row list \<Rightarrow> outbox_row list" where
  "at_ids A f rows = map (\<lambda>r. if ob_id r \<in> A then f r else r) rows"

lemma at_ids_empty [simp]: "at_ids {} f rows = rows"
  by (simp add: at_ids_def)

lemma at_ids_compose:
  assumes "\<And>r. ob_id (f r) = ob_id r" and "i \<notin> A"
  shows "at_ids A f (at_ids {i} f rows) = at_ids (insert i A) f rows"
  using assms by (auto simp: at_ids_def)

lemma at_ids_ids: "(\<And>r. ob_id (f r) = ob_id r) \<Longrightarrow> map ob_id (at_ids A f rows) = map ob_id rows"
  by (simp add: at_ids_def)

lemma at_ids_other: "x \<in> set rows \<Longrightarrow> ob_id x \<notin> A \<Longrightarrow> x \<in> set (at_ids A f rows)"
  by (auto simp: at_ids_def image_iff intro!: bexI [of _ x])

lemma claim_all_lone:
  assumes "distinct (map ob_id rows)" and "distinct (map ob_id cs)" and "set cs \<subseteq> set rows"
    and "\<And>c. c \<in> set cs \<Longrightarrow> candidate (le_startedAt l) c"
  shows "claim_all l cs rows = (at_ids (ob_id ` set cs) (claimed_row l) rows, cs)"
  using assms
proof (induction cs arbitrary: rows)
  case (Cons c cs)
  let ?f = "claimed_row l"
  have id: "\<And>r. ob_id (?f r) = ob_id r" by (simp add: claimed_row_def)
  have c: "claim l (ob_id c) rows = (at_ids {ob_id c} ?f rows, 1)"
    unfolding claim_def at_ids_def using update_one [OF Cons.prems(1), of c "candidate (le_startedAt l)" ?f] Cons.prems(3,4) by simp
  have "claim_all l cs (at_ids {ob_id c} ?f rows) = (at_ids (ob_id ` set cs) ?f (at_ids {ob_id c} ?f rows), cs)"
  proof (rule Cons.IH)
    show "distinct (map ob_id (at_ids {ob_id c} ?f rows))" using Cons.prems(1) at_ids_ids [OF id] by simp
    show "set cs \<subseteq> set (at_ids {ob_id c} ?f rows)" 
    proof
      fix d
      assume d: "d \<in> set cs"
      have "ob_id d \<noteq> ob_id c" using Cons.prems(2) d by (auto simp: image_iff)
      then show "d \<in> set (at_ids {ob_id c} ?f rows)"
        using d Cons.prems(3) at_ids_other [of d rows "{ob_id c}" ?f] by auto
    qed
  qed (use Cons.prems in auto)
  then show ?case using Cons.prems(2) c at_ids_compose [OF id, of "ob_id c" "ob_id ` set cs" rows] by simp
qed simp

definition published_row :: "int \<Rightarrow> outbox_row \<Rightarrow> outbox_row" where
  "published_row now r = (released r)\<lparr>ob_publishedAt := Some now, ob_lastError := None\<rparr>"

lemma publish_all_lone:
  assumes "distinct (map ob_id rows)" and "distinct (map ob_id cs)"
    and "\<And>c. c \<in> set cs \<Longrightarrow> publisher c = None \<and>
      (\<exists>x \<in> set rows. ob_id x = ob_id c \<and> ob_claimedBy x = Some (le_worker l) \<and> ob_publishedAt x = None)"
  shows "publish_all l now publisher cs rows = (at_ids (ob_id ` set cs) (published_row now) rows, map ob_id cs, length cs, 0, 0)"
  using assms
proof (induction cs arbitrary: rows)
  case (Cons c cs)
  let ?f = "published_row now"
  have id: "\<And>r. ob_id (?f r) = ob_id r" by (simp add: published_row_def released_def)
  obtain x where x: "x \<in> set rows" "ob_id x = ob_id c" "ob_claimedBy x = Some (le_worker l) \<and> ob_publishedAt x = None"
    using Cons.prems(3) [of c] by auto
  have c: "mark_published l now (ob_id c) rows = (at_ids {ob_id c} ?f rows, 1)"
    using update_one [OF Cons.prems(1) x(1), of "\<lambda>r. ob_claimedBy r = Some (le_worker l) \<and> ob_publishedAt r = None" ?f] x(2,3)
    by (simp add: mark_published_def at_ids_def published_row_def [abs_def])
  have "publish_all l now publisher cs (at_ids {ob_id c} ?f rows) =
      (at_ids (ob_id ` set cs) ?f (at_ids {ob_id c} ?f rows), map ob_id cs, length cs, 0, 0)"
  proof (rule Cons.IH)
    show "distinct (map ob_id (at_ids {ob_id c} ?f rows))" using Cons.prems(1) at_ids_ids [OF id] by simp
    show "publisher d = None \<and> (\<exists>x \<in> set (at_ids {ob_id c} ?f rows). ob_id x = ob_id d \<and>
        ob_claimedBy x = Some (le_worker l) \<and> ob_publishedAt x = None)" if d: "d \<in> set cs" for d
    proof -
      have ne: "ob_id d \<noteq> ob_id c" using Cons.prems(2) d by (auto simp: image_iff)
      obtain y where "y \<in> set rows" "ob_id y = ob_id d" "ob_claimedBy y = Some (le_worker l)" "ob_publishedAt y = None"
        using Cons.prems(3) [of d] d by auto
      then show ?thesis using Cons.prems(3) [of d] d ne at_ids_other [of y rows "{ob_id c}" ?f] by auto
    qed
  qed (use Cons.prems in auto)
  then show ?case
    using Cons.prems(2) Cons.prems(3) [of c] c at_ids_compose [OF id, of "ob_id c" "ob_id ` set cs" rows] by simp
qed simp

lemma candidates_set: "set (candidates t n rows) \<subseteq> {r \<in> set rows. candidate t r}"
  by (auto simp: candidates_def dest: in_set_takeD)

lemma candidates_distinct:
  assumes "distinct (map ob_id rows)"
  shows "distinct (map ob_id (candidates t n rows))"
proof -
  have "distinct (filter (candidate t) rows)" "inj_on ob_id (set (filter (candidate t) rows))"
    using assms by (auto simp: distinct_map inj_on_def)
  then have "distinct (map ob_id (sort_key ob_createdAt (sort_key ob_id (filter (candidate t) rows))))"
    by (simp add: distinct_map)
  then show ?thesis unfolding candidates_def by (simp add: take_map [symmetric] distinct_take)
qed

lemma runOutboxDispatch_lone:
  assumes "sanitiseWorkerId workerId = Some safeWorker" and "distinct (map ob_id rows)" and "\<And>r. publisher r = None"
  shows "\<exists>counts. runOutboxDispatch publisher workerId batchSize leaseMs startedAt now rows =
    Inr (at_ids (ob_id ` set (candidates startedAt (clampBatch batchSize) rows))
           (published_row now \<circ> claimed_row \<lparr>le_worker = safeWorker, le_startedAt = startedAt, le_deadline = startedAt + clampLease leaseMs\<rparr>) rows,
         map ob_id (candidates startedAt (clampBatch batchSize) rows), counts)"
proof -
  let ?l = "\<lparr>le_worker = safeWorker, le_startedAt = startedAt, le_deadline = startedAt + clampLease leaseMs\<rparr>"
  let ?cs = "candidates startedAt (clampBatch batchSize) rows" and ?A = "ob_id ` set (candidates startedAt (clampBatch batchSize) rows)"
  have cs: "set ?cs \<subseteq> set rows" "distinct (map ob_id ?cs)" "\<And>c. c \<in> set ?cs \<Longrightarrow> candidate startedAt c"
    using candidates_set [of startedAt] candidates_distinct [OF assms(2)] by blast+
  have claim: "claim_all ?l ?cs rows = (at_ids ?A (claimed_row ?l) rows, ?cs)"
    using claim_all_lone [OF assms(2) cs(2,1), of ?l] cs(3) by simp
  have publish: "publish_all ?l now publisher ?cs (at_ids ?A (claimed_row ?l) rows) =
      (at_ids ?A (published_row now) (at_ids ?A (claimed_row ?l) rows), map ob_id ?cs, length ?cs, 0, 0)"
  proof (rule publish_all_lone [OF _ cs(2)])
    show "distinct (map ob_id (at_ids ?A (claimed_row ?l) rows))" using assms(2) by (simp add: at_ids_ids claimed_row_def)
    show "publisher c = None \<and> (\<exists>x \<in> set (at_ids ?A (claimed_row ?l) rows). ob_id x = ob_id c \<and>
        ob_claimedBy x = Some (le_worker ?l) \<and> ob_publishedAt x = None)" if c: "c \<in> set ?cs" for c
    proof -
      have "claimed_row ?l c \<in> set (at_ids ?A (claimed_row ?l) rows)"
        using c cs(1) by (auto simp: at_ids_def image_iff intro!: bexI [of _ c])
      then show ?thesis using assms(3) cs(3) [OF c] by (auto simp: claimed_row_def candidate_def intro!: bexI [of _ "claimed_row ?l c"])
    qed
  qed
  have "at_ids ?A (published_row now) (at_ids ?A (claimed_row ?l) rows) = at_ids ?A (published_row now \<circ> claimed_row ?l) rows"
    by (simp add: at_ids_def claimed_row_def)
  then show ?thesis using claim publish by (simp add: runOutboxDispatch_def assms(1) Let_def)
qed

text \<open>Batches one after the other, each at its time, of a process that runs alone.\<close>

fun dispatch_batches :: "(outbox_row \<Rightarrow> string option) \<Rightarrow> string option \<Rightarrow> rat option \<Rightarrow> rat option \<Rightarrow> (int \<times> int) list \<Rightarrow>
    outbox_row list \<Rightarrow> hr_error + outbox_row list \<times> nat list" where
  "dispatch_batches publisher workerId batchSize leaseMs [] rows = Inr (rows, [])"
| "dispatch_batches publisher workerId batchSize leaseMs ((startedAt, now) # ts) rows =
    rbind (runOutboxDispatch publisher workerId batchSize leaseMs startedAt now rows) (\<lambda>(rows1, stream1, counts).
    rbind (dispatch_batches publisher workerId batchSize leaseMs ts rows1) (\<lambda>(rows2, stream2). Inr (rows2, stream1 @ stream2)))"

definition unpublished :: "outbox_row list \<Rightarrow> outbox_row list" where
  "unpublished rows = filter (\<lambda>r. ob_publishedAt r = None) rows"

definition idle :: "outbox_row list \<Rightarrow> bool" where
  "idle rows \<longleftrightarrow> distinct (map ob_id rows) \<and> list_all (\<lambda>r. ob_publishedAt r = None \<longrightarrow> ob_claimedAt r = None) rows"

lemma idle_candidates:
  assumes "idle rows"
  shows "candidates t n rows = take n (sort_key ob_createdAt (sort_key ob_id (unpublished rows)))"
proof -
  have "filter (candidate t) rows = unpublished rows"
    using assms unfolding unpublished_def idle_def list_all_iff by (intro filter_cong) (auto simp: candidate_def)
  then show ?thesis by (simp add: candidates_def)
qed

lemma distinct_split:
  assumes "distinct (map g xs)" and "distinct ys" and "set ys \<subseteq> {x \<in> set xs. P x}"
  shows "mset (filter P xs) = mset ys + mset (filter (\<lambda>x. P x \<and> g x \<notin> g ` set ys) xs)"
proof -
  have d: "distinct xs" using assms(1) by (simp add: distinct_map)
  have "x \<in> set ys \<longleftrightarrow> g x \<in> g ` set ys" if "x \<in> set xs" for x
    using assms(1,3) that by (auto simp: distinct_map inj_on_def)
  then have "filter (\<lambda>x. P x \<and> g x \<notin> g ` set ys) xs = filter (\<lambda>x. P x \<and> x \<notin> set ys) xs" by (intro filter_cong) auto
  moreover have "set (filter P xs) = set (ys @ filter (\<lambda>x. P x \<and> x \<notin> set ys) xs)" using assms(3) by auto
  moreover have "distinct (filter P xs)" "distinct (ys @ filter (\<lambda>x. P x \<and> x \<notin> set ys) xs)" using d assms(2) by auto
  ultimately show ?thesis by (metis mset_append set_eq_iff_mset_eq_distinct)
qed

lemma batch_idle:
  assumes "idle rows" and "set cs \<subseteq> set (unpublished rows)" and "distinct cs"
    and rows': "rows' = at_ids (ob_id ` set cs) (published_row now \<circ> claimed_row l) rows"
  shows "idle rows'" "mset (unpublished rows) = mset cs + mset (unpublished rows')"
proof -
  let ?A = "ob_id ` set cs" and ?f = "published_row now \<circ> claimed_row l"
  have id: "\<And>r. ob_id (?f r) = ob_id r" by (simp add: published_row_def released_def claimed_row_def)
  have pub: "\<And>r. ob_publishedAt (?f r) = Some now" by (simp add: published_row_def)
  show "idle rows'"
    using assms(1) pub unfolding rows' idle_def at_ids_ids [OF id] by (auto simp: at_ids_def list_all_iff)
  have "unpublished rows' = filter (\<lambda>r. ob_publishedAt r = None \<and> ob_id r \<notin> ?A) rows"
    unfolding rows' unpublished_def at_ids_def using pub by (induction rows) auto
  then show "mset (unpublished rows) = mset cs + mset (unpublished rows')"
    unfolding unpublished_def using distinct_split [of ob_id rows cs "\<lambda>r. ob_publishedAt r = None"] assms(1-3)
    by (simp add: idle_def unpublished_def)
qed

lemma dispatch_batches_lone:
  assumes "sanitiseWorkerId workerId = Some safeWorker" and "\<And>r. publisher r = None" and "idle rows"
    and "length (unpublished rows) \<le> length ts * clampBatch batchSize"
  shows "\<exists>rows' stream. dispatch_batches publisher workerId batchSize leaseMs ts rows = Inr (rows', stream) \<and>
    unpublished rows' = [] \<and> mset stream = mset (map ob_id (unpublished rows))"
  using assms(3,4)
proof (induction ts arbitrary: rows)
  case (Cons t ts)
  obtain startedAt now where t: "t = (startedAt, now)" by (cases t)
  let ?n = "clampBatch batchSize"
  let ?cs = "candidates startedAt ?n rows"
  let ?l = "\<lparr>le_worker = safeWorker, le_startedAt = startedAt, le_deadline = startedAt + clampLease leaseMs\<rparr>"
  have ids: "distinct (map ob_id rows)" using Cons.prems(1) by (simp add: idle_def)
  obtain counts where run: "runOutboxDispatch publisher workerId batchSize leaseMs startedAt now rows =
      Inr (at_ids (ob_id ` set ?cs) (published_row now \<circ> claimed_row ?l) rows, map ob_id ?cs, counts)"
    using runOutboxDispatch_lone [where publisher = publisher, OF assms(1) ids assms(2)] by blast
  let ?rows = "at_ids (ob_id ` set ?cs) (published_row now \<circ> claimed_row ?l) rows"
  have cs: "set ?cs \<subseteq> set (unpublished rows)" "distinct ?cs" "length ?cs = min ?n (length (unpublished rows))"
    using candidates_set [of startedAt ?n rows] candidates_distinct [OF ids, of startedAt ?n] idle_candidates [OF Cons.prems(1)]
    by (auto simp: unpublished_def candidate_def distinct_map)
  note idle_next = batch_idle [OF Cons.prems(1) cs(1,2) refl, of now ?l]
  have "length (unpublished rows) = length ?cs + length (unpublished ?rows)"
    using arg_cong [OF idle_next(2), of size] by simp
  then have "length (unpublished ?rows) \<le> length ts * ?n" using Cons.prems(2) cs(3) by auto
  from Cons.IH [OF idle_next(1) this] obtain rows' stream where
    rest: "dispatch_batches publisher workerId batchSize leaseMs ts ?rows = Inr (rows', stream)" "unpublished rows' = []"
      "mset stream = mset (map ob_id (unpublished ?rows))" by blast
  have "mset (map ob_id ?cs @ stream) = mset (map ob_id (unpublished rows))"
    using rest(3) idle_next(2) by simp
  then show ?case using run rest t by auto
qed simp

section \<open>Properties\<close>

text \<open>C39. However many workers drain the outbox at once, crash, fail or outlive their leases: an event marked as
  published has been put on the stream, at most once for every attempt and every lease that expired
  under a worker (so exactly once when it took one attempt and no lease expired), and its row is never
  touched again.\<close>

theorem published_event_delivered:
  assumes "reach outbox_init outbox_step s" and "r \<in> set (os_rows s)" and "ob_publishedAt r \<noteq> None"
  shows "1 \<le> count_list (os_stream s) (ob_id r) \<and>
    count_list (os_stream s) (ob_id r) \<le> ob_attempts r + count_list (os_takeovers s) (ob_id r) \<and>
    (\<forall>t. outbox_step\<^sup>*\<^sup>* s t \<longrightarrow> r \<in> set (os_rows t))"
proof -
  have inv: "outbox_inv s" by (rule outbox.reach_inv [OF assms(1)])
  have "row_ok (os_stream s) (os_claims s) (os_takeovers s) r" using inv assms(2) by (simp add: outbox_inv_def list_all_iff)
  then have row: "ob_id r \<in> set (os_stream s)" "count_list (os_claims s) (ob_id r) = ob_attempts r + count_list (os_takeovers s) (ob_id r)"
    using assms(3) by (auto simp: row_ok_def)
  have "count_list (os_stream s) (ob_id r) + unsent (os_workers s) (ob_id r) \<le> count_list (os_claims s) (ob_id r)"
    using inv by (simp add: outbox_inv_def)
  moreover have "1 \<le> count_list (os_stream s) (ob_id r)" using row(1) by (metis count_list_0_iff less_one not_le)
  moreover have "r \<in> set (os_rows t)" if "outbox_step\<^sup>*\<^sup>* s t" for t
    using that
  proof (induction rule: rtranclp_induct)
    case (step t u)
    then show ?case using published_kept [OF step.hyps(2) outbox.reach_steps [OF step.hyps(1) assms(1)]] assms(3) by blast
  qed (rule assms(2))
  ultimately show ?thesis using row(2) by auto
qed

definition sample_event :: "int option \<Rightarrow> nat \<Rightarrow> bool \<Rightarrow> outbox_row" where
  "sample_event published attempts claimed = \<lparr>ob_id = 4, ob_createdAt = 1, ob_eventName = ''e'', ob_aggregateId = None, ob_payload = ''{}'',
     ob_attempts = attempts, ob_lastError = None, ob_publishedAt = published, ob_claimedAt = (if claimed then Some 10 else None),
     ob_claimedBy = (if claimed then Some ''a'' else None), ob_claimExpiresAt = (if claimed then Some 20 else None)\<rparr>"

definition sample_worker :: "nat list \<Rightarrow> nat list \<Rightarrow> nat option \<Rightarrow> worker" where
  "sample_worker scan won sent = \<lparr>wo_lease = \<lparr>le_worker = ''a'', le_startedAt = 10, le_deadline = 20\<rparr>, wo_scan = scan, wo_won = won, wo_sent = sent\<rparr>"

definition sample_outbox :: "outbox_row list \<Rightarrow> worker list \<Rightarrow> nat list \<Rightarrow> nat list \<Rightarrow> outbox_system" where
  "sample_outbox rows ws stream claims = \<lparr>os_rows = rows, os_workers = ws, os_stream = stream, os_claims = claims, os_takeovers = []\<rparr>"

lemmas sample_outbox_defs = sample_event_def sample_worker_def sample_outbox_def

lemma sample_outbox_reach:
  "reach outbox_init outbox_step (sample_outbox [sample_event (Some 15) 1 False] [sample_worker [] [] None] [4] [4])"
proof -
  let ?ev = "sample_event None 0 False"
  have "reach outbox_init outbox_step (sample_outbox [] [] [] [])"
    by (rule reach.start) (simp add: outbox_init_def sample_outbox_def)
  moreover have "outbox_step (sample_outbox [] [] [] []) (sample_outbox [?ev] [] [] [])"
    using outbox_step.produce [of ?ev "sample_outbox [] [] [] []"] by (simp add: sample_outbox_defs fresh_row_def)
  moreover have "outbox_step (sample_outbox [?ev] [] [] []) (sample_outbox [?ev] [sample_worker [4] [] None] [] [])"
    using outbox_step.begin_batch [of "sample_outbox [?ev] [] [] []" "\<lparr>le_worker = ''a'', le_startedAt = 10, le_deadline = 20\<rparr>" 50]
    by (simp add: sample_outbox_defs candidates_def candidate_def)
  moreover have "outbox_step (sample_outbox [?ev] [sample_worker [4] [] None] [] [])
      (sample_outbox [sample_event None 0 True] [sample_worker [] [4] None] [] [4])"
    using outbox_step.claim_won [of "sample_outbox [?ev] [sample_worker [4] [] None] [] []" "[]" "sample_worker [4] [] None" "[]" 4 "[]"]
    by (simp add: sample_outbox_defs claim_def update_rows_def candidate_def claimed_row_def held_def)
  moreover have "outbox_step (sample_outbox [sample_event None 0 True] [sample_worker [] [4] None] [] [4])
      (sample_outbox [sample_event None 0 True] [sample_worker [] [] (Some 4)] [4] [4])"
    using outbox_step.publish [of "sample_outbox [sample_event None 0 True] [sample_worker [] [4] None] [] [4]" "[]" "sample_worker [] [4] None" "[]" 4 "[]"]
    by (simp add: sample_outbox_defs)
  moreover have "outbox_step (sample_outbox [sample_event None 0 True] [sample_worker [] [] (Some 4)] [4] [4])
      (sample_outbox [sample_event (Some 15) 1 False] [sample_worker [] [] None] [4] [4])"
    using outbox_step.mark [of "sample_outbox [sample_event None 0 True] [sample_worker [] [] (Some 4)] [4] [4]" "[]" "sample_worker [] [] (Some 4)" "[]" 4 15]
    by (simp add: sample_outbox_defs mark_published_def update_rows_def released_def)
  ultimately show ?thesis by (metis reach.more)
qed

theorem published_event_delivered_witness:
  "count_list (os_stream (sample_outbox [sample_event (Some 15) 1 False] [sample_worker [] [] None] [4] [4])) 4 = 1"
  using published_event_delivered [OF sample_outbox_reach, of "sample_event (Some 15) 1 False"]
  by (simp add: sample_outbox_def sample_event_def)

text \<open>C40. The outbox is drained: a process that runs alone, with a publisher that works, publishes every waiting event
  exactly once in as many batches as the batch size needs, and its batches never fail.\<close>

theorem outbox_drained:
  assumes "sanitiseWorkerId workerId = Some safeWorker" and "\<And>r. publisher r = None" and "idle rows"
    and "length (unpublished rows) \<le> length ts * clampBatch batchSize"
  shows "\<exists>rows' stream. dispatch_batches publisher workerId batchSize leaseMs ts rows = Inr (rows', stream) \<and>
    unpublished rows' = [] \<and> mset stream = mset (map ob_id (unpublished rows))"
  using dispatch_batches_lone [where publisher = publisher, OF assms] .

theorem outbox_drained_witness:
  "\<exists>rows' stream. dispatch_batches (\<lambda>r. None) (Some ''a'') (Some 1) None [(10, 11), (12, 13)]
      [sample_event None 0 False, (sample_event None 0 False)\<lparr>ob_id := 5\<rparr>] = Inr (rows', stream) \<and> unpublished rows' = []"
proof -
  let ?rows = "[sample_event None 0 False, (sample_event None 0 False)\<lparr>ob_id := 5\<rparr>]"
  have "sanitiseWorkerId (Some ''a'') = Some ''a''" by (simp add: sanitiseWorkerId_def worker_char_def WORKER_ID_MAX_LEN_def)
  moreover have "idle ?rows" by (simp add: idle_def sample_event_def)
  moreover have "length (unpublished ?rows) \<le> length [(10, 11), (12, 13)] * clampBatch (Some 1)"
    by (simp add: unpublished_def sample_event_def clampBatch_def DEFAULT_BATCH_SIZE_def MAX_BATCH_SIZE_def)
  ultimately show ?thesis
    using outbox_drained [of "Some ''a''" "''a''" "\<lambda>r. None" ?rows "[(10, 11), (12, 13)]" "Some 1" None] by blast
qed

end
