(* ===== verification/AttendanceIntervals.thy ===== *)
theory AttendanceIntervals
  imports AnomalyRules
begin

text \<open>
  The time accounting of a shift, \<^verbatim>\<open>src/src/lib/attendanceIntervals.js\<close>: pairing punches into worked intervals,
  unions and intersections of windows, and the minutes that are worked, regular, excluded, credited
  and paid. Instants are milliseconds, minutes are rationals. The reference for every figure is a set
  of milliseconds; a window is its half-open range.
\<close>

section \<open>Punches and intervals\<close>

record punch =
  pu_type :: string
  pu_timestamp :: int
  pu_occurredAt :: "int option"
  pu_siteId :: "nat option"
  pu_eventId :: "nat option"
  pu_sn :: "string option"
  pu_inferred :: bool
  pu_directionVerified :: bool

record interval =
  iv_start :: int
  iv_end :: int
  iv_occurredStart :: int
  iv_occurredEnd :: int
  iv_fromSiteId :: "nat option"
  iv_toSiteId :: "nat option"
  iv_inEventId :: "nat option"
  iv_outEventId :: "nat option"
  iv_elapsedMinutes :: rat

record pairing =
  pa_intervals :: "interval list"
  pa_issues :: "(string \<times> int) list"
  pa_marks :: "(string \<times> int) list"
  pa_open :: "punch option"

definition minutes :: "int \<Rightarrow> int \<Rightarrow> rat" where
  "minutes a b = max 0 (of_int (b - a) / 60000)"

definition instant :: "punch \<Rightarrow> int" where
  "instant p = (case pu_occurredAt p of Some t \<Rightarrow> t | None \<Rightarrow> pu_timestamp p)"

definition extend_last :: "punch \<Rightarrow> interval \<Rightarrow> interval" where
  "extend_last p i = i\<lparr>iv_end := pu_timestamp p, iv_occurredEnd := instant p, iv_toSiteId := pu_siteId p, iv_outEventId := pu_eventId p,
     iv_elapsedMinutes := minutes (iv_occurredStart i) (instant p)\<rparr>"

definition close_interval :: "punch \<Rightarrow> punch \<Rightarrow> interval" where
  "close_interval i p = \<lparr>iv_start = pu_timestamp i, iv_end = pu_timestamp p, iv_occurredStart = instant i, iv_occurredEnd = instant p,
     iv_fromSiteId = pu_siteId i, iv_toSiteId = pu_siteId p, iv_inEventId = pu_eventId i, iv_outEventId = pu_eventId p,
     iv_elapsedMinutes = minutes (instant i) (instant p)\<rparr>"

definition mark_punch :: "string \<Rightarrow> punch \<Rightarrow> pairing \<Rightarrow> pairing" where
  "mark_punch code p s = s\<lparr>pa_marks := pa_marks s @ [(code, pu_timestamp p)]\<rparr>"

definition pair_out :: "punch \<Rightarrow> pairing \<Rightarrow> pairing" where
  "pair_out p s =
    (case pa_open s of
       None \<Rightarrow>
         if pa_intervals s \<noteq> [] \<and> iv_end (last (pa_intervals s)) < pu_timestamp p \<and> iv_occurredEnd (last (pa_intervals s)) < instant p
         then (mark_punch ''EXTRA_OUT'' p s)\<lparr>pa_intervals := butlast (pa_intervals s) @ [extend_last p (last (pa_intervals s))]\<rparr>
         else mark_punch ''UNMATCHED_OUT'' p s
     | Some i \<Rightarrow>
         if pu_timestamp p \<le> pu_timestamp i \<or> instant p \<le> instant i then mark_punch ''UNMATCHED_OUT'' p s
         else s\<lparr>pa_intervals := pa_intervals s @ [close_interval i p], pa_open := None\<rparr>)"

definition pair_step :: "punch \<Rightarrow> pairing \<Rightarrow> pairing" where
  "pair_step p s =
    (if pu_type p = ''IN'' then
       (case pa_open s of Some i \<Rightarrow> mark_punch ''REPEATED_IN'' p s | None \<Rightarrow> s\<lparr>pa_open := Some p\<rparr>)
     else if pu_type p = ''OUT'' then pair_out p s
     else s\<lparr>pa_issues := pa_issues s @ [(''UNKNOWN_DIRECTION'', pu_timestamp p)]\<rparr>)"

definition pairAttendance :: "punch list \<Rightarrow> pairing" where
  "pairAttendance punches = fold pair_step punches \<lparr>pa_intervals = [], pa_issues = [], pa_marks = [], pa_open = None\<rparr>"

section \<open>Windows\<close>

type_synonym window = "int \<times> int"

fun merge_windows :: "window \<Rightarrow> window list \<Rightarrow> window list" where
  "merge_windows (a, b) [] = [(a, b)]"
| "merge_windows (a, b) ((c, d) # ws) =
     (if c \<le> b then merge_windows (a, max b d) ws else (a, b) # merge_windows (c, d) ws)"

definition unionWindows :: "window list \<Rightarrow> window list" where
  "unionWindows ws = (case sort_key fst (filter (\<lambda>w. fst w < snd w) ws) of [] \<Rightarrow> [] | w # rest \<Rightarrow> merge_windows w rest)"

definition windowMinutes :: "window list \<Rightarrow> rat" where
  "windowMinutes ws = sum_list (map (\<lambda>w. minutes (fst w) (snd w)) (unionWindows ws))"

definition intersectWindows :: "window list \<Rightarrow> window list \<Rightarrow> window list" where
  "intersectWindows as bs =
    unionWindows (concat (map (\<lambda>x. map (\<lambda>y. (max (fst x) (fst y), min (snd x) (snd y))) bs) as))"

definition intersectionMinutes :: "window list \<Rightarrow> window list \<Rightarrow> rat" where
  "intersectionMinutes as bs = windowMinutes (intersectWindows as bs)"

section \<open>Accounting\<close>

record credit =
  cr_kind :: string
  cr_paid :: bool
  cr_start :: int
  cr_end :: int

text \<open>A shift without a rostered end or start has none; \<^verbatim>\<open>+null\<close> is 0 where the code computes with it.\<close>

record roster_shift = shift +
  sh_exclusions :: "window list"
  sh_paidBreaks :: "window list"
  sh_nextShiftStart :: "int option"
  sh_checkoutCutoff :: "int option"

definition plus_null :: "int option \<Rightarrow> int" where
  "plus_null x = (case x of None \<Rightarrow> 0 | Some t \<Rightarrow> t)"

definition shift_window :: "roster_shift \<Rightarrow> window" where
  "shift_window s = (plus_null (sh_start s), plus_null (sh_end s))"

definition clip_to :: "roster_shift \<Rightarrow> window \<Rightarrow> window" where
  "clip_to s w = (max (fst w) (plus_null (sh_start s)), min (snd w) (plus_null (sh_end s)))"

definition iv_windows :: "interval list \<Rightarrow> window list" where
  "iv_windows is = map (\<lambda>i. (iv_start i, iv_end i)) is"

record accounting =
  ac_presenceMinutes :: rat
  ac_workedMinutes :: rat
  ac_regularMinutes :: rat
  ac_unpaidBreakMinutes :: rat
  ac_paidBreakMinutes :: rat
  ac_travelMinutes :: rat
  ac_overtimeMinutes :: rat
  ac_approvedOvertimeMinutes :: rat
  ac_payableMinutes :: rat
  ac_creditedMinutes :: rat

definition presence :: "interval list \<Rightarrow> rat" where
  "presence is = sum_list (map iv_elapsedMinutes is)"

definition span_of :: "window list \<Rightarrow> window list" where
  "span_of ws = (if ws = [] then [] else [(fst (hd ws), snd (last ws))])"

definition paid_breaks :: "roster_shift \<Rightarrow> window list" where
  "paid_breaks s = map (clip_to s) (unionWindows (sh_paidBreaks s))"

definition paid_break_minutes :: "window list \<Rightarrow> roster_shift \<Rightarrow> rat" where
  "paid_break_minutes ws s = intersectionMinutes (paid_breaks s) (span_of ws) - intersectionMinutes (paid_breaks s) ws"

definition credit_windows :: "(credit \<Rightarrow> bool) \<Rightarrow> credit list \<Rightarrow> window list" where
  "credit_windows P cs = map (\<lambda>c. (cr_start c, cr_end c)) (filter P cs)"

definition travel_minutes :: "window list \<Rightarrow> roster_shift \<Rightarrow> credit list \<Rightarrow> rat" where
  "travel_minutes ws s cs =
    (let travel = unionWindows (credit_windows (\<lambda>c. cr_kind c = ''TRAVEL'' \<and> cr_paid c) cs)
     in windowMinutes travel - intersectionMinutes travel (unionWindows (ws @ intersectWindows (paid_breaks s) (span_of ws))))"

definition regular_minutes :: "interval list \<Rightarrow> roster_shift \<Rightarrow> rat" where
  "regular_minutes is s =
    max 0 ((if sh_start s \<noteq> None \<and> sh_end s \<noteq> None then intersectionMinutes (iv_windows is) [shift_window s] else presence is)
      - intersectionMinutes (intersectWindows (iv_windows is) [shift_window s]) (sh_exclusions s))"

definition approved_outside :: "window list \<Rightarrow> roster_shift \<Rightarrow> window list \<Rightarrow> rat" where
  "approved_outside ws s approved =
    intersectionMinutes ws approved - intersectionMinutes ws (map (clip_to s) approved)
    - (intersectionMinutes (intersectWindows ws approved) (sh_exclusions s)
       - intersectionMinutes (intersectWindows (intersectWindows ws approved) [shift_window s]) (sh_exclusions s))"

text \<open>\<open>after\<close> is the policy's threshold for overtime, 0 when unset; \<open>needs\<close> whether overtime must be approved.\<close>

definition accountAttendance :: "interval list \<Rightarrow> roster_shift \<Rightarrow> rat \<Rightarrow> bool \<Rightarrow> credit list \<Rightarrow> accounting" where
  "accountAttendance is s after needs cs =
    (let ws = iv_windows is;
         excluded = intersectionMinutes ws (sh_exclusions s);
         paid = paid_break_minutes ws s;
         travel = travel_minutes ws s cs;
         worked = max 0 (presence is - excluded);
         regular = regular_minutes is s;
         overtime = max 0 (worked - regular - after);
         approved = (if \<not> needs then overtime
           else min overtime (max 0 (approved_outside ws s (credit_windows (\<lambda>c. cr_kind c = ''OVERTIME'') cs))))
     in \<lparr>ac_presenceMinutes = presence is, ac_workedMinutes = worked, ac_regularMinutes = regular, ac_unpaidBreakMinutes = excluded,
         ac_paidBreakMinutes = max 0 paid, ac_travelMinutes = max 0 travel, ac_overtimeMinutes = overtime,
         ac_approvedOvertimeMinutes = approved, ac_payableMinutes = regular + max 0 paid + max 0 travel + approved,
         ac_creditedMinutes = worked + max 0 paid + max 0 travel\<rparr>)"

section \<open>Windows as sets of milliseconds\<close>

definition covered :: "window list \<Rightarrow> int set" where
  "covered ws = (\<Union>w \<in> set ws. {fst w ..< snd w})"

definition measure_of :: "int set \<Rightarrow> rat" where
  "measure_of A = of_nat (card A) / 60000"

lemma covered_simps [simp]:
  "covered [] = {}" "covered (w # ws) = {fst w ..< snd w} \<union> covered ws" "covered (us @ vs) = covered us \<union> covered vs"
  by (auto simp: covered_def)

lemma finite_covered [simp]: "finite (covered ws)"
  by (simp add: covered_def)

lemma covered_filter: "covered (filter (\<lambda>w. fst w < snd w) ws) = covered ws"
  by (induction ws) auto

lemma covered_sort: "covered (sort_key f ws) = covered ws"
  by (simp add: covered_def)

lemma minutes_card: "minutes a b = measure_of {a..<b}"
  by (auto simp: minutes_def measure_of_def max_def)

lemma measure_disjoint: "finite A \<Longrightarrow> finite B \<Longrightarrow> A \<inter> B = {} \<Longrightarrow> measure_of (A \<union> B) = measure_of A + measure_of B"
  by (simp add: measure_of_def card_Un_disjoint add_divide_distrib)

lemma covered_merge:
  assumes "sorted (map fst ws)" and "\<forall>w \<in> set ws. a \<le> fst w"
  shows "covered (merge_windows (a, b) ws) = {a..<b} \<union> covered ws"
  using assms
proof (induction "(a, b)" ws arbitrary: a b rule: merge_windows.induct)
  case (2 a b c d ws)
  show ?case
  proof (cases "c \<le> b")
    case True
    then have "{a..<max b d} = {a..<b} \<union> {c..<d}" using 2(4) by auto
    then show ?thesis using True 2 by auto
  next
    case False
    then show ?thesis using 2 by auto
  qed
qed simp

text \<open>Merged windows are apart, so their minutes add up to those of the set they cover.\<close>

lemma merge_minutes:
  assumes "sorted (map fst ws)" and "\<forall>w \<in> set ws. a \<le> fst w"
  shows "sum_list (map (\<lambda>w. minutes (fst w) (snd w)) (merge_windows (a, b) ws)) = measure_of ({a..<b} \<union> covered ws)"
  using assms
proof (induction "(a, b)" ws arbitrary: a b rule: merge_windows.induct)
  case (2 a b c d ws)
  show ?case
  proof (cases "c \<le> b")
    case True
    then have "{a..<max b d} = {a..<b} \<union> {c..<d}" using 2(4) by auto
    then show ?thesis using True 2 by (auto simp: Un_assoc)
  next
    case False
    have "{a..<b} \<inter> ({c..<d} \<union> covered ws) = {}" using False 2(3) by (fastforce simp: covered_def)
    then show ?thesis using False 2 by (auto simp: measure_disjoint minutes_card)
  qed
qed (simp add: minutes_card)

lemma covered_unionWindows [simp]: "covered (unionWindows ws) = covered ws"
proof -
  let ?s = "sort_key fst (filter (\<lambda>w. fst w < snd w) ws)"
  have "covered (unionWindows ws) = covered ?s"
  proof (cases ?s)
    case (Cons w rest)
    have "sorted (map fst ?s)" by simp
    then show ?thesis using Cons covered_merge [of rest "fst w" "snd w"] by (simp add: unionWindows_def)
  qed (simp add: unionWindows_def)
  then show ?thesis by (simp add: covered_sort covered_filter)
qed

lemma windowMinutes_covered: "windowMinutes ws = measure_of (covered ws)"
proof -
  let ?s = "sort_key fst (filter (\<lambda>w. fst w < snd w) ws)"
  have "windowMinutes ws = measure_of (covered ?s)"
  proof (cases ?s)
    case (Cons w rest)
    have "sorted (map fst ?s)" by simp
    then show ?thesis using Cons merge_minutes [of rest "fst w" "snd w"] by (simp add: windowMinutes_def unionWindows_def)
  qed (simp add: windowMinutes_def unionWindows_def measure_of_def)
  then show ?thesis by (simp add: covered_sort covered_filter)
qed

lemma covered_intersectWindows [simp]: "covered (intersectWindows as bs) = covered as \<inter> covered bs"
  unfolding intersectWindows_def covered_unionWindows by (auto simp: covered_def) (metis fst_conv snd_conv)+

lemma intersectionMinutes_covered: "intersectionMinutes as bs = measure_of (covered as \<inter> covered bs)"
  by (simp add: intersectionMinutes_def windowMinutes_covered)

section \<open>What pairing gives\<close>

text \<open>
  Punches come in the order of their civil times; the civil clock is a fixed offset away from the
  instants (the companies' country has no daylight saving time).
\<close>

definition chronological :: "int \<Rightarrow> punch list \<Rightarrow> bool" where
  "chronological off ps \<longleftrightarrow> sorted (map pu_timestamp ps) \<and> list_all (\<lambda>p. instant p = pu_timestamp p + off) ps"

definition interval_ok :: "int \<Rightarrow> interval \<Rightarrow> bool" where
  "interval_ok off i \<longleftrightarrow> iv_start i < iv_end i \<and> iv_occurredStart i = iv_start i + off \<and> iv_occurredEnd i = iv_end i + off \<and>
    iv_elapsedMinutes i = minutes (iv_start i) (iv_end i)"

definition chained :: "interval list \<Rightarrow> bool" where
  "chained is \<longleftrightarrow> sorted_wrt (\<lambda>i j. iv_end i \<le> iv_start j) is"

definition pairing_ok :: "int \<Rightarrow> punch list \<Rightarrow> pairing \<Rightarrow> bool" where
  "pairing_ok off ps s \<longleftrightarrow> chained (pa_intervals s) \<and> list_all (interval_ok off) (pa_intervals s) \<and>
    (\<forall>i \<in> set (pa_intervals s). iv_start i \<in> pu_timestamp ` {p \<in> set ps. pu_type p = ''IN''} \<and>
      iv_end i \<in> pu_timestamp ` {p \<in> set ps. pu_type p = ''OUT''}) \<and>
    (case pa_open s of None \<Rightarrow> True
     | Some q \<Rightarrow> q \<in> set ps \<and> pu_type q = ''IN'' \<and> instant q = pu_timestamp q + off \<and> (\<forall>i \<in> set (pa_intervals s). iv_end i \<le> pu_timestamp q)) \<and>
    length ps = 2 * length (pa_intervals s) + length (pa_marks s) + length (pa_issues s) + (if pa_open s = None then 0 else 1)"

lemma minutes_offset: "minutes (a + off) (b + off) = minutes a b"
  by (simp add: minutes_def)

lemma mark_punch_simps [simp]:
  "pa_intervals (mark_punch c p s) = pa_intervals s" "pa_open (mark_punch c p s) = pa_open s"
  "length (pa_marks (mark_punch c p s)) = Suc (length (pa_marks s))" "pa_issues (mark_punch c p s) = pa_issues s"
  by (simp_all add: mark_punch_def)

lemma pairing_ok_more: "pairing_ok off ps s \<Longrightarrow> pa_intervals t = pa_intervals s \<Longrightarrow> pa_open t = pa_open s \<Longrightarrow>
    length (pa_marks t) + length (pa_issues t) = Suc (length (pa_marks s) + length (pa_issues s)) \<Longrightarrow> pairing_ok off (ps @ [p]) t"
  unfolding pairing_ok_def by (auto split: option.splits)

lemma pairing_ok_open:
  assumes "pairing_ok off ps s" and "pa_open s = None" and "pu_type p = ''IN''" and "instant p = pu_timestamp p + off"
    and "\<And>q. q \<in> set ps \<Longrightarrow> pu_timestamp q \<le> pu_timestamp p"
  shows "pairing_ok off (ps @ [p]) (s\<lparr>pa_open := Some p\<rparr>)"
  using assms unfolding pairing_ok_def by fastforce

lemma pairing_ok_close:
  assumes "pairing_ok off ps s" and "pa_open s = Some i" and "pu_type p = ''OUT''" and "instant p = pu_timestamp p + off"
    and "pu_timestamp i < pu_timestamp p"
  shows "pairing_ok off (ps @ [p]) (s\<lparr>pa_intervals := pa_intervals s @ [close_interval i p], pa_open := None\<rparr>)"
  using assms unfolding pairing_ok_def chained_def
  by (auto simp: sorted_wrt_append close_interval_def interval_ok_def minutes_offset)

lemma pairing_ok_extend:
  assumes ok: "pairing_ok off ps s" and "pa_open s = None" and "pu_type p = ''OUT''" and "instant p = pu_timestamp p + off"
    and ne: "pa_intervals s \<noteq> []" and "iv_end (last (pa_intervals s)) < pu_timestamp p"
  shows "pairing_ok off (ps @ [p])
    ((mark_punch ''EXTRA_OUT'' p s)\<lparr>pa_intervals := butlast (pa_intervals s) @ [extend_last p (last (pa_intervals s))]\<rparr>)"
proof -
  obtain "is" i where split: "pa_intervals s = is @ [i]" using ne by (metis append_butlast_last_id)
  show ?thesis
    using assms unfolding pairing_ok_def chained_def split
    by (auto simp: sorted_wrt_append extend_last_def interval_ok_def minutes_offset)
qed

lemma pairAttendance_snoc: "pairAttendance (ps @ [p]) = pair_step p (pairAttendance ps)"
  by (simp add: pairAttendance_def)

lemma pairAttendance_ok:
  assumes "chronological off ps"
  shows "pairing_ok off ps (pairAttendance ps)"
  using assms
proof (induction ps rule: rev_induct)
  case Nil
  show ?case by (simp add: pairing_ok_def pairAttendance_def chained_def)
next
  case (snoc p ps)
  let ?s = "pairAttendance ps"
  have p: "instant p = pu_timestamp p + off" and le: "\<And>q. q \<in> set ps \<Longrightarrow> pu_timestamp q \<le> pu_timestamp p"
    and ok: "pairing_ok off ps ?s"
    using snoc by (auto simp: chronological_def sorted_append)
  have mark: "pairing_ok off (ps @ [p]) (mark_punch c p ?s)" for c by (rule pairing_ok_more [OF ok]) simp_all
  consider "pu_type p = ''IN''" | "pu_type p = ''OUT''" | "pu_type p \<noteq> ''IN''" "pu_type p \<noteq> ''OUT''" by blast
  then show ?case
  proof cases
    case 1
    then show ?thesis
      using mark pairing_ok_open [OF ok _ _ p le] by (cases "pa_open ?s") (auto simp: pairAttendance_snoc pair_step_def)
  next
    case 2
    show ?thesis
    proof (cases "pa_open ?s")
      case None
      then show ?thesis using 2 mark pairing_ok_extend [OF ok None 2 p] by (auto simp: pairAttendance_snoc pair_step_def pair_out_def)
    next
      case (Some i)
      then show ?thesis using 2 mark pairing_ok_close [OF ok Some 2 p] by (auto simp: pairAttendance_snoc pair_step_def pair_out_def)
    qed
  next
    case 3
    then show ?thesis using pairing_ok_more [OF ok] by (auto simp: pairAttendance_snoc pair_step_def)
  qed
qed

section \<open>The accounting as sets\<close>

lemma covered_clip: "covered (map (clip_to s) ws) = covered ws \<inter> covered [shift_window s]"
  by (auto simp: covered_def clip_to_def shift_window_def)

lemma measure_diff: "finite A \<Longrightarrow> measure_of (A - B) = measure_of A - measure_of (A \<inter> B)"
proof -
  assume "finite A"
  then have "card A = card (A \<inter> B) + card (A - B)" by (metis card_Int_Diff)
  then show ?thesis by (simp add: measure_of_def field_simps)
qed

lemma measure_mono: "finite B \<Longrightarrow> A \<subseteq> B \<Longrightarrow> measure_of A \<le> measure_of B"
  by (simp add: measure_of_def card_mono divide_right_mono)

lemma measure_nonneg [simp]: "0 \<le> measure_of A"
  by (simp add: measure_of_def)

lemma covered_after:
  assumes "list_all (interval_ok off) is" and "\<forall>j \<in> set is. t \<le> iv_start j"
  shows "covered (iv_windows is) \<subseteq> {t..}"
  using assms by (induction "is") (auto simp: iv_windows_def)

lemma presence_covered:
  assumes "chained is" and "list_all (interval_ok off) is"
  shows "presence is = measure_of (covered (iv_windows is))"
  using assms
proof (induction "is")
  case (Cons i "is")
  have "covered (iv_windows is) \<subseteq> {iv_end i..}" using Cons.prems by (intro covered_after) (auto simp: chained_def)
  then have "{iv_start i..<iv_end i} \<inter> covered (iv_windows is) = {}" by auto
  then have "measure_of (covered (iv_windows (i # is))) = minutes (iv_start i) (iv_end i) + measure_of (covered (iv_windows is))"
    by (simp add: iv_windows_def measure_disjoint minutes_card)
  then show ?case using Cons by (simp add: presence_def chained_def interval_ok_def)
qed (simp add: presence_def iv_windows_def measure_of_def)

lemma covered_span:
  assumes "chained is" and "list_all (interval_ok off) is"
  shows "covered (iv_windows is) \<subseteq> covered (span_of (iv_windows is))"
proof
  fix t
  assume "t \<in> covered (iv_windows is)"
  then obtain i where i: "i \<in> set is" "iv_start i \<le> t" "t < iv_end i" by (auto simp: covered_def iv_windows_def)
  then have ne: "is \<noteq> []" by auto
  have "iv_start (hd is) \<le> iv_start i"
    using assms i(1) by (cases "is") (auto simp: chained_def interval_ok_def intro: order.trans [OF less_imp_le])
  moreover have "iv_end i \<le> iv_end (last is)"
  proof -
    obtain js j where js: "is = js @ [j]" using ne by (metis append_butlast_last_id)
    then show ?thesis using assms i(1) by (auto simp: chained_def sorted_wrt_append interval_ok_def intro: order.trans [OF _ less_imp_le])
  qed
  ultimately show "t \<in> covered (span_of (iv_windows is))"
    using i ne by (simp add: span_of_def iv_windows_def hd_map last_map)
qed

text \<open>The figures as measures of sets: worked time, shift, exclusions, approved overtime, paid breaks, travel.\<close>

lemma regular_measure:
  assumes "sh_start s \<noteq> None" and "sh_end s \<noteq> None"
  shows "regular_minutes is s = measure_of (covered (iv_windows is) \<inter> covered [shift_window s] - covered (sh_exclusions s))"
  using assms measure_diff [of "covered (iv_windows is) \<inter> covered [shift_window s]" "covered (sh_exclusions s)"]
    measure_nonneg [of "covered (iv_windows is) \<inter> covered [shift_window s] - covered (sh_exclusions s)"]
  unfolding regular_minutes_def intersectionMinutes_covered covered_intersectWindows
  by (simp add: max_def del: measure_nonneg)

lemma approved_measure:
  "approved_outside ws s approved = measure_of (covered ws \<inter> covered approved - covered [shift_window s] - covered (sh_exclusions s))"
proof -
  let ?I = "covered ws \<inter> covered approved" and ?S = "covered [shift_window s]" and ?E = "covered (sh_exclusions s)"
  have "approved_outside ws s approved = measure_of ?I - measure_of (?I \<inter> ?S) - (measure_of (?I \<inter> ?E) - measure_of (?I \<inter> ?E \<inter> ?S))"
    unfolding approved_outside_def intersectionMinutes_covered covered_intersectWindows covered_clip by (simp add: Int_ac)
  also have "\<dots> = measure_of (?I - ?S) - measure_of ((?I - ?S) \<inter> ?E)"
  proof -
    have "(?I - ?S) \<inter> ?E = ?I \<inter> ?E - ?S" by blast
    then show ?thesis by (simp add: measure_diff del: covered_simps)
  qed
  also have "\<dots> = measure_of (?I - ?S - ?E)" by (simp add: measure_diff del: covered_simps)
  finally show ?thesis .
qed

lemma paid_break_measure:
  assumes "covered ws \<subseteq> covered (span_of ws)"
  shows "paid_break_minutes ws s = measure_of (covered (sh_paidBreaks s) \<inter> covered [shift_window s] \<inter> covered (span_of ws) - covered ws)"
proof -
  let ?P = "covered (sh_paidBreaks s) \<inter> covered [shift_window s]"
  have P: "covered (paid_breaks s) = ?P" unfolding paid_breaks_def covered_clip covered_unionWindows ..
  have "?P \<inter> covered (span_of ws) \<inter> covered ws = ?P \<inter> covered ws" using assms by blast
  then show ?thesis unfolding paid_break_minutes_def intersectionMinutes_covered P by (simp add: measure_diff del: covered_simps)
qed

lemma travel_measure:
  "travel_minutes ws s cs = measure_of (covered (credit_windows (\<lambda>c. cr_kind c = ''TRAVEL'' \<and> cr_paid c) cs) -
    (covered ws \<union> covered (sh_paidBreaks s) \<inter> covered [shift_window s] \<inter> covered (span_of ws)))"
proof -
  have P: "covered (paid_breaks s) = covered (sh_paidBreaks s) \<inter> covered [shift_window s]"
    unfolding paid_breaks_def covered_clip covered_unionWindows ..
  show ?thesis
    unfolding travel_minutes_def Let_def windowMinutes_covered intersectionMinutes_covered covered_unionWindows covered_simps(3)
      covered_intersectWindows P
    by (simp add: measure_diff del: covered_simps)
qed

text \<open>Disjoint parts together are at most the whole.\<close>

lemma measure_three:
  assumes "finite U" and "A \<subseteq> U" "B \<subseteq> U" "C \<subseteq> U" and "A \<inter> B = {}" "A \<inter> C = {}" "B \<inter> C = {}"
  shows "measure_of A + measure_of B + measure_of C \<le> measure_of U"
proof -
  have "finite A" "finite B" "finite C" using assms finite_subset by blast+
  then have "measure_of A + measure_of B + measure_of C = measure_of (A \<union> B \<union> C)"
    using assms(5-7) by (simp add: measure_disjoint Int_Un_distrib2)
  also have "\<dots> \<le> measure_of U" using assms(1-4) by (intro measure_mono) auto
  finally show ?thesis .
qed

section \<open>Properties\<close>


definition sample_punch :: "string \<Rightarrow> int \<Rightarrow> punch" where
  "sample_punch type t = \<lparr>pu_type = type, pu_timestamp = t, pu_occurredAt = None, pu_siteId = None, pu_eventId = None, pu_sn = None,
     pu_inferred = False, pu_directionVerified = False\<rparr>"

definition sample_punches :: "punch list" where
  "sample_punches = [sample_punch ''IN'' 0, sample_punch ''IN'' 60000, sample_punch ''OUT'' 600000, sample_punch ''OUT'' 1200000,
     sample_punch ''IN'' 1800000]"

lemma sample_chronological: "chronological 0 sample_punches"
  by (simp add: chronological_def sample_punches_def sample_punch_def instant_def)

lemma sample_pairing:
  "pairAttendance sample_punches = \<lparr>pa_intervals = [extend_last (sample_punch ''OUT'' 1200000)
      (close_interval (sample_punch ''IN'' 0) (sample_punch ''OUT'' 600000))], pa_issues = [],
    pa_marks = [(''REPEATED_IN'', 60000), (''EXTRA_OUT'', 1200000)], pa_open = Some (sample_punch ''IN'' 1800000)\<rparr>"
  by (simp add: pairAttendance_def sample_punches_def pair_step_def pair_out_def mark_punch_def sample_punch_def close_interval_def
      instant_def)



definition sample_shift :: roster_shift where
  "sample_shift = \<lparr>sh_start = Some 0, sh_end = Some 900000, sh_exclusions = [(300000, 600000)], sh_paidBreaks = [],
     sh_nextShiftStart = None, sh_checkoutCutoff = None\<rparr>"

lemma sample_windows: "iv_windows (pa_intervals (pairAttendance sample_punches)) = [(0, 1200000)]"
  unfolding sample_pairing by (simp add: iv_windows_def extend_last_def close_interval_def sample_punch_def)


end
