(* ===== verification/AttendanceEvaluator.thy ===== *)
theory AttendanceEvaluator
  imports AttendanceIntervals
begin

text \<open>
  The verdict on a shift: \<^verbatim>\<open>src/src/lib/attendanceEvaluator.js\<close> with the deadline of \<^verbatim>\<open>src/src/lib/shiftCheckout.js\<close>. The core
  scores the punches; the anomaly rules of \<open>AnomalyRules\<close> then replace its status, credit and
  anomalies. Instants are milliseconds.
\<close>

section \<open>The deadline of a shift\<close>

definition CHECKIN_WINDOW_MIN :: int where
  "CHECKIN_WINDOW_MIN = 5 * 60"

record eval_policy = anomaly_policy +
  ep_checkoutLeniencyMin :: "int option"
  ep_checkinWindowMin :: "int option"
  ep_halfDayAfterMinutes :: "rat option"
  ep_halfDayAfterPercentOfShift :: "rat option"
  ep_fullDayMinPercent :: "rat option"
  ep_duplicatePunchWindowMin :: "int option"
  ep_trustDeviceDirection :: bool
  ep_overtimeAfterMinutes :: rat
  ep_overtimeNeedsApproval :: bool

definition boundedCheckout :: "roster_shift \<Rightarrow> eval_policy \<Rightarrow> int option \<Rightarrow> int option" where
  "boundedCheckout s policy nextStart =
    (case sh_end s of
       None \<Rightarrow> None
     | Some e \<Rightarrow>
         let nxt = (case nextStart of Some t \<Rightarrow> Some t | None \<Rightarrow> sh_nextShiftStart s) in
         (case sh_checkoutCutoff s of
            Some configured \<Rightarrow> Some (case nxt of Some t \<Rightarrow> min configured (t - 60 * 60000) | None \<Rightarrow> configured)
          | None \<Rightarrow>
              (case nxt of
                 None \<Rightarrow> Some (e + (case ep_checkoutLeniencyMin policy of None \<Rightarrow> 240 | Some m \<Rightarrow> m) * 60000)
               | Some t \<Rightarrow>
                   let opens = t - (case ep_checkinWindowMin policy of None \<Rightarrow> CHECKIN_WINDOW_MIN | Some m \<Rightarrow> m) * 60000
                   in Some (min (max e opens) (e + 86400000)))))"

definition shiftDeadline :: "roster_shift \<Rightarrow> eval_policy \<Rightarrow> int option" where
  "shiftDeadline s policy = boundedCheckout s policy None"

section \<open>Punches\<close>

definition minutesBetween :: "int \<Rightarrow> int \<Rightarrow> int" where
  "minutesBetween a b = js_round (of_int (b - a) / 60000)"

definition repeats :: "int \<Rightarrow> punch \<Rightarrow> punch \<Rightarrow> bool" where
  "repeats windowMin prev p \<longleftrightarrow> pu_type prev = pu_type p \<and> pu_sn prev = pu_sn p \<and> pu_siteId prev = pu_siteId p \<and>
    minutesBetween (pu_timestamp prev) (pu_timestamp p) \<le> windowMin"

definition dedupe_step :: "int \<Rightarrow> punch \<Rightarrow> punch list \<Rightarrow> punch list" where
  "dedupe_step windowMin p out = (if out \<noteq> [] \<and> repeats windowMin (last out) p then out else out @ [p])"

definition dedupePunches :: "punch list \<Rightarrow> int \<Rightarrow> punch list" where
  "dedupePunches punches windowMin = fold (dedupe_step windowMin) (sort_key pu_timestamp punches) []"

text \<open>Only a stream without any direction is read by position.\<close>

definition infer_direction :: "punch list \<Rightarrow> punch list" where
  "infer_direction ps =
    (if list_all (\<lambda>p. pu_type p = []) ps
     then map (\<lambda>(i, p). p\<lparr>pu_type := (if i = 0 then ''IN'' else if i = length ps - 1 then ''OUT'' else [])\<rparr>) (enumerate 0 ps)
     else ps)"

definition clean_punches :: "eval_policy \<Rightarrow> punch list \<Rightarrow> punch list" where
  "clean_punches policy punches =
    (let raw = (if ep_trustDeviceDirection policy then punches
           else map (\<lambda>p. if pu_directionVerified p then p else p\<lparr>pu_type := []\<rparr>) punches)
     in infer_direction (dedupePunches raw (case ep_duplicatePunchWindowMin policy of None \<Rightarrow> 5 | Some m \<Rightarrow> m)))"

section \<open>Minutes of the roster\<close>

text \<open>The loop keeps the total of the finished ranges and the range it is extending.\<close>

fun sum_ranges :: "int \<Rightarrow> window option \<Rightarrow> window list \<Rightarrow> int" where
  "sum_ranges done_ms None [] = done_ms"
| "sum_ranges done_ms (Some (l, r)) [] = done_ms + (r - l)"
| "sum_ranges done_ms None ((a, b) # ws) = sum_ranges done_ms (Some (a, b)) ws"
| "sum_ranges done_ms (Some (l, r)) ((a, b) # ws) =
     (if a \<le> r then sum_ranges done_ms (Some (l, max r b)) ws else sum_ranges (done_ms + (r - l)) (Some (a, b)) ws)"

definition excludedMinutes :: "int \<Rightarrow> int \<Rightarrow> window list \<Rightarrow> rat" where
  "excludedMinutes s e ex =
    of_int (sum_ranges 0 None (sort_key fst (filter (\<lambda>w. fst w < snd w) (map (\<lambda>w. (max s (fst w), min e (snd w))) ex)))) / 60000"

definition scheduledMinutes :: "roster_shift \<Rightarrow> rat option" where
  "scheduledMinutes s = (case (sh_start s, sh_end s) of
     (Some a, Some b) \<Rightarrow> Some (max (of_int (minutesBetween a b) - excludedMinutes a b (sh_exclusions s)) 0)
   | _ \<Rightarrow> None)"

definition latenessMinutes :: "int option \<Rightarrow> int option \<Rightarrow> rat option" where
  "latenessMinutes checkIn start = (case (checkIn, start) of (Some c, Some s) \<Rightarrow> Some (of_int (c - s) / 60000) | _ \<Rightarrow> None)"

section \<open>Credit\<close>

datatype day_credit = NONE | HALF | FULL

fun credit_value :: "day_credit \<Rightarrow> rat" where
  "credit_value NONE = 0"
| "credit_value HALF = 1 / 2"
| "credit_value FULL = 1"

instantiation day_credit :: linorder
begin

definition less_eq_day_credit :: "day_credit \<Rightarrow> day_credit \<Rightarrow> bool" where
  "less_eq_day_credit a b \<longleftrightarrow> credit_value a \<le> credit_value b"

definition less_day_credit :: "day_credit \<Rightarrow> day_credit \<Rightarrow> bool" where
  "less_day_credit a b \<longleftrightarrow> credit_value a < credit_value b"

instance
proof
  show "a = b" if "a \<le> b" "b \<le> a" for a b :: day_credit
    using that by (cases a; cases b) (simp_all add: less_eq_day_credit_def)
qed (auto simp: less_eq_day_credit_def less_day_credit_def)

end

definition creditToStatus :: "day_credit \<Rightarrow> string \<Rightarrow> string option \<Rightarrow> string" where
  "creditToStatus credit arrivalStatus durationStatus =
    (if credit = NONE then ''ABSENT''
     else case durationStatus of Some d \<Rightarrow> if credit < FULL then d else arrivalStatus | None \<Rightarrow> arrivalStatus)"

section \<open>The core\<close>

text \<open>
  A result carries the fields the anomaly rules read and rewrite, and beside them the detail of the
  anomaly a conflict is reported with, the roster figures, the accounting and the pairing.
\<close>

record shift_result =
  sr_day :: day_result
  sr_conflict :: "string list"
  sr_scheduledMinutes :: "rat option"
  sr_latenessMinutes :: "rat option"
  sr_accounting :: accounting
  sr_intervals :: "interval list"
  sr_issues :: "(string \<times> int) list"
  sr_marks :: "(string \<times> int) list"

definition core_day :: "string \<Rightarrow> int option \<Rightarrow> int option \<Rightarrow> bool \<Rightarrow> rat option \<Rightarrow> fact list \<Rightarrow> rat option \<Rightarrow> bool \<Rightarrow> day_result" where
  "core_day status checkIn checkOut inProgress percent anomalies credit regularize =
    \<lparr>res_status = status, res_checkIn = checkIn, res_checkOut = checkOut, res_inProgress = inProgress, res_workedPercent = percent,
     res_rulesVersion = None, res_anomalies = anomalies, res_dayCredit = credit, res_processingState = [],
     res_requiresRegularization = regularize\<rparr>"

definition core_fact :: "anomaly_type \<Rightarrow> int option \<Rightarrow> int option \<Rightarrow> rat option \<Rightarrow> fact" where
  "core_fact kind expected actual late = \<lparr>f_type = kind, f_expectedTime = expected, f_actualTime = actual, f_minutes = late,
     f_severity = None, f_reason = None\<rparr>"

definition graceMinutes :: "eval_policy \<Rightarrow> int" where
  "graceMinutes policy = (case ap_graceMinutes policy of None \<Rightarrow> 0 | Some m \<Rightarrow> m)"

definition halfDayAfter :: "eval_policy \<Rightarrow> rat option \<Rightarrow> rat" where
  "halfDayAfter policy scheduled =
    (case (ep_halfDayAfterPercentOfShift policy, scheduled) of
       (Some percent, Some m) \<Rightarrow> if m \<noteq> 0 then m * percent / 100
         else (case ep_halfDayAfterMinutes policy of None \<Rightarrow> 30 | Some x \<Rightarrow> x)
     | _ \<Rightarrow> (case ep_halfDayAfterMinutes policy of None \<Rightarrow> 30 | Some x \<Rightarrow> x))"

text \<open>First arrival and last departure; a departure before the arrival is passed over for a later one.\<close>

definition first_in :: "punch list \<Rightarrow> int option" where
  "first_in ps = map_option pu_timestamp (find (\<lambda>p. pu_type p = ''IN'') ps)"

definition last_out :: "punch list \<Rightarrow> int option" where
  "last_out ps = map_option pu_timestamp (find (\<lambda>p. pu_type p = ''OUT'') (rev ps))"

definition check_out :: "punch list \<Rightarrow> bool \<Rightarrow> int option" where
  "check_out ps is_open =
    (if is_open then None
     else case (first_in ps, last_out ps) of
       (Some i, Some t) \<Rightarrow> if t \<le> i then last_out (filter (\<lambda>p. i < pu_timestamp p) ps) else Some t
     | _ \<Rightarrow> last_out ps)"

definition arrival :: "eval_policy \<Rightarrow> roster_shift \<Rightarrow> int \<Rightarrow> rat option \<Rightarrow> string \<times> day_credit \<times> fact list" where
  "arrival policy s checkIn scheduled =
    (case latenessMinutes (Some checkIn) (sh_start s) of
       None \<Rightarrow> (''PRESENT'', FULL, [])
     | Some late \<Rightarrow>
         if graceMinutes policy < \<lfloor>late\<rfloor>
         then (''LATE'', if halfDayAfter policy scheduled \<le> late then HALF else FULL,
               [core_fact LATE_CHECKIN (sh_start s) (Some checkIn) (Some late)])
         else (''PRESENT'', FULL, []))"

definition left_early :: "eval_policy \<Rightarrow> roster_shift \<Rightarrow> int \<Rightarrow> fact list" where
  "left_early policy s checkOut =
    (case sh_end s of
       None \<Rightarrow> []
     | Some e \<Rightarrow>
         let early = of_int (e - checkOut) / 60000 in
         if of_int (case ap_earlyLeaveGraceMin policy of None \<Rightarrow> 0 | Some m \<Rightarrow> m) < early
         then [core_fact EARLY_CHECKOUT (Some e) (Some checkOut) (Some early)] else [])"

definition duration :: "eval_policy \<Rightarrow> rat option \<Rightarrow> rat \<Rightarrow> bool \<Rightarrow> rat option \<times> day_credit \<times> string option" where
  "duration policy scheduled worked leftEarly =
    (case scheduled of
       None \<Rightarrow> (None, FULL, None)
     | Some m \<Rightarrow>
         if m \<le> 0 then (None, FULL, None)
         else
           let percent = worked / m * 100;
               half = (case ap_halfDayMinPercent policy of None \<Rightarrow> 50 | Some x \<Rightarrow> x)
           in if (case ep_fullDayMinPercent policy of None \<Rightarrow> 90 | Some x \<Rightarrow> x) \<le> percent then (Some percent, FULL, None)
              else if leftEarly then
                (if half \<le> percent then (Some percent, HALF, Some ''EARLY_CHECKOUT'') else (Some percent, NONE, None))
              else if half \<le> percent then (Some percent, HALF, None)
              else (Some percent, NONE, None))"

definition evaluateShiftCore :: "punch list \<Rightarrow> roster_shift \<Rightarrow> eval_policy \<Rightarrow> int \<Rightarrow> credit list \<Rightarrow> shift_result" where
  "evaluateShiftCore punches s policy now credits =
    (let clean = clean_punches policy punches;
         pairing = pairAttendance clean;
         scheduled = scheduledMinutes s;
         result = (\<lambda>day late.
           \<lparr>sr_day = day, sr_conflict = [], sr_scheduledMinutes = scheduled, sr_latenessMinutes = late,
            sr_accounting = accountAttendance (pa_intervals pairing) s (ep_overtimeAfterMinutes policy) (ep_overtimeNeedsApproval policy) credits,
            sr_intervals = pa_intervals pairing, sr_issues = pa_issues pairing, sr_marks = pa_marks pairing\<rparr>);
         checkIn = first_in clean;
         checkOut = check_out clean (pa_open pairing \<noteq> None)
     in
     if clean = [] then
       (case shiftDeadline s policy of
          None \<Rightarrow> result (core_day ''PENDING_ATTENDANCE'' None None True None [] None False) None
        | Some due \<Rightarrow>
            if now < due then result (core_day ''PENDING_ATTENDANCE'' None None True None [] None False) None
            else result (core_day ''ABSENT'' None None False (Some 0) [core_fact ABSENT None None None] (Some 0) False) None)
     else if pa_issues pairing \<noteq> [] then
       (let (ci, co) = (if checkIn = None \<and> last_out clean = None
              then (Some (pu_timestamp (hd clean)), if length clean > 1 then Some (pu_timestamp (last clean)) else None)
              else (checkIn, last_out clean))
        in (result (core_day ''PUNCH_CONFLICT'' ci co False None [] None True) None)\<lparr>sr_conflict := map fst (pa_issues pairing)\<rparr>)
     else
       (case (checkIn, checkOut) of
          (None, _) \<Rightarrow>
            result (core_day ''MISSING_CHECKIN'' None checkOut False None [core_fact MISSING_CHECKIN None None None] None True) None
        | (Some ci, None) \<Rightarrow>
            let cutoff = (case shiftDeadline s policy of Some d \<Rightarrow> d | None \<Rightarrow> ci + 24 * 60 * 60000);
                late = latenessMinutes (Some ci) (sh_start s)
            in if cutoff \<le> now
               then result (core_day ''MISSING_CHECKOUT'' (Some ci) None False None [core_fact MISSING_CHECKOUT None None None] None True) late
               else (let (status, _, facts) = arrival policy s ci scheduled
                     in result (core_day status (Some ci) None True None facts None False) late)
        | (Some ci, Some co) \<Rightarrow>
            let (arrivalStatus, arrivalCredit, lates) = arrival policy s ci scheduled;
                earlies = left_early policy s co;
                (percent, durationCredit, durationStatus) =
                  duration policy scheduled
                    (ac_creditedMinutes (accountAttendance (pa_intervals pairing) s (ep_overtimeAfterMinutes policy)
                      (ep_overtimeNeedsApproval policy) credits))
                    (earlies \<noteq> []);
                credit = min arrivalCredit durationCredit
            in result (core_day (creditToStatus credit arrivalStatus durationStatus) (Some ci) (Some co) False percent
                 (lates @ earlies) (Some (credit_value credit)) False) (latenessMinutes (Some ci) (sh_start s))))"

section \<open>The verdict\<close>

text \<open>A departure the employee chose belongs to the shift however late, up to the next shift or a day.\<close>

definition explicitOutBound :: "roster_shift \<Rightarrow> int option" where
  "explicitOutBound s = (case (sh_end s, sh_checkoutCutoff s) of
     (Some e, None) \<Rightarrow> Some (case sh_nextShiftStart s of Some t \<Rightarrow> min (e + 24 * 60 * 60000) t | None \<Rightarrow> e + 24 * 60 * 60000)
   | _ \<Rightarrow> None)"

definition explicitOut :: "roster_shift \<Rightarrow> punch \<Rightarrow> bool" where
  "explicitOut s p \<longleftrightarrow> pu_type p = ''OUT'' \<and> \<not> pu_inferred p \<and>
    (case explicitOutBound s of None \<Rightarrow> False | Some b \<Rightarrow> pu_timestamp p < b)"

definition outside_cutoff :: "roster_shift \<Rightarrow> eval_policy \<Rightarrow> punch \<Rightarrow> bool" where
  "outside_cutoff s policy p \<longleftrightarrow> (case shiftDeadline s policy of None \<Rightarrow> False | Some c \<Rightarrow> c < pu_timestamp p) \<and> \<not> explicitOut s p"

definition processing_state :: "day_result \<Rightarrow> string" where
  "processing_state d = (if res_processingState d \<noteq> [] then res_processingState d
     else if res_inProgress d then ''OPEN'' else if res_dayCredit d = None then ''NEEDS_REVIEW'' else ''FINALIZED'')"

definition evaluateShift :: "punch list \<Rightarrow> roster_shift \<Rightarrow> eval_policy \<Rightarrow> int \<Rightarrow> credit list \<Rightarrow> shift_result" where
  "evaluateShift punches s policy now credits =
    (let outside = filter (outside_cutoff s policy) punches;
         core = evaluateShiftCore (filter (\<lambda>p. \<not> outside_cutoff s policy p) punches) s policy now credits;
         result = core\<lparr>sr_day := applyAnomalyRules (sr_day core) (shift.truncate s) (anomaly_policy.truncate policy)\<rparr>;
         marked = (if outside = [] then result
           else result\<lparr>sr_day := (sr_day result)\<lparr>res_status := ''PUNCH_CONFLICT'', res_dayCredit := None,
                    res_requiresRegularization := True, res_processingState := ''NEEDS_REVIEW'', res_anomalies := []\<rparr>,
                  sr_conflict := [],
                  sr_issues := sr_issues result @ map (\<lambda>p. (''PUNCH_OUTSIDE_CHECKOUT_CUTOFF'', pu_timestamp p)) outside\<rparr>)
     in marked\<lparr>sr_day := (sr_day marked)\<lparr>res_processingState := processing_state (sr_day marked)\<rparr>\<rparr>)"

section \<open>Lemmas\<close>

text \<open>The loop over excluded ranges measures the same set as the windows of the accounting.\<close>

lemma sum_ranges_measure:
  assumes "sorted (map fst ws)" and "\<forall>w \<in> set ws. l \<le> fst w \<and> fst w < snd w" and "l < r"
  shows "sum_ranges n (Some (l, r)) ws = n + int (card ({l..<r} \<union> covered ws))"
  using assms
proof (induction n "Some (l, r)" ws arbitrary: l r rule: sum_ranges.induct)
  case (4 n l r a b ws)
  show ?case
  proof (cases "a \<le> r")
    case True
    have un: "{l..<max r b} = {l..<r} \<union> {a..<b}" using True "4.prems"(2,3) by auto
    have "sum_ranges n (Some (l, max r b)) ws = n + int (card ({l..<max r b} \<union> covered ws))"
      by (rule "4.hyps"(1) [OF True]) (use "4.prems" in auto)
    then show ?thesis using True by (simp add: un Un_assoc)
  next
    case False
    have disj: "{l..<r} \<inter> ({a..<b} \<union> covered ws) = {}" using False "4.prems"(1) by (fastforce simp: covered_def)
    have "sum_ranges (n + (r - l)) (Some (a, b)) ws = n + (r - l) + int (card ({a..<b} \<union> covered ws))"
      by (rule "4.hyps"(2) [OF False]) (use "4.prems" in auto)
    then show ?thesis using False disj "4.prems"(3) by (simp add: card_Un_disjoint)
  qed
qed simp

lemma excludedMinutes_covered: "excludedMinutes s e ex = measure_of (covered ex \<inter> {s..<e})"
proof -
  define ws where "ws = sort_key fst (filter (\<lambda>w. fst w < snd w) (map (\<lambda>w. (max s (fst w), min e (snd w))) ex))"
  have clip: "covered (map (\<lambda>w. (max s (fst w), min e (snd w))) ex) = covered ex \<inter> {s..<e}"
    by (auto simp: covered_def)
  have cov: "covered ws = covered ex \<inter> {s..<e}"
    unfolding ws_def covered_sort covered_filter clip ..
  have sorted_ws: "sorted (map fst ws)" and pos: "\<forall>v \<in> set ws. fst v < snd v" by (auto simp: ws_def)
  have "sum_ranges 0 None ws = int (card (covered ws))"
  proof (cases ws)
    case (Cons w rest)
    then have "sum_ranges 0 None ws = sum_ranges 0 (Some (fst w, snd w)) rest" by (cases w) simp
    also have "\<dots> = int (card ({fst w..<snd w} \<union> covered rest))"
      using sum_ranges_measure [of rest "fst w" "snd w" 0] sorted_ws pos Cons by simp
    finally show ?thesis using Cons by simp
  qed simp
  then show ?thesis by (simp add: excludedMinutes_def measure_of_def cov flip: ws_def)
qed

lemma dedupe_subset: "set (fold (dedupe_step m) ps out) \<subseteq> set out \<union> set ps"
proof (induction ps arbitrary: out)
  case (Cons p ps)
  have "set (dedupe_step m p out) \<subseteq> insert p (set out)" by (auto simp: dedupe_step_def)
  then show ?case using Cons.IH [of "dedupe_step m p out"] by auto
qed simp

lemma dedupe_nonempty: "out \<noteq> [] \<or> ps \<noteq> [] \<Longrightarrow> fold (dedupe_step m) ps out \<noteq> []"
proof (induction ps arbitrary: out)
  case (Cons p ps)
  have "dedupe_step m p out \<noteq> []" by (simp add: dedupe_step_def)
  then show ?case using Cons.IH by simp
qed simp

lemma dedupe_sorted:
  assumes "sorted (map pu_timestamp (out @ ps))"
  shows "sorted (map pu_timestamp (fold (dedupe_step m) ps out))"
  using assms
proof (induction ps arbitrary: out)
  case (Cons p ps)
  have "sorted (map pu_timestamp (dedupe_step m p out @ ps))" using Cons.prems by (auto simp: dedupe_step_def sorted_append)
  then show ?case using Cons.IH by simp
qed simp

lemma infer_direction_times: "map pu_timestamp (infer_direction ps) = map pu_timestamp ps"
proof -
  have "map pu_timestamp (map (\<lambda>(i, p). p\<lparr>pu_type := f i\<rparr>) (enumerate n ps)) = map pu_timestamp ps" for n f
    by (induction ps arbitrary: n) simp_all
  then show ?thesis by (simp add: infer_direction_def)
qed

definition raw_punches :: "eval_policy \<Rightarrow> punch list \<Rightarrow> punch list" where
  "raw_punches policy ps =
    (if ep_trustDeviceDirection policy then ps
     else map (\<lambda>p. if pu_directionVerified p then p else p\<lparr>pu_type := []\<rparr>) ps)"

lemma raw_times: "map pu_timestamp (raw_punches policy ps) = map pu_timestamp ps"
  by (simp add: raw_punches_def)

lemma clean_from_raw: "\<exists>m. map pu_timestamp (clean_punches policy ps) = map pu_timestamp (dedupePunches (raw_punches policy ps) m)"
  unfolding clean_punches_def raw_punches_def [symmetric] Let_def infer_direction_times by blast

lemma clean_times: "pu_timestamp ` set (clean_punches policy ps) \<subseteq> pu_timestamp ` set ps"
proof -
  obtain m where m: "map pu_timestamp (clean_punches policy ps) = map pu_timestamp (dedupePunches (raw_punches policy ps) m)"
    using clean_from_raw by blast
  have "set (dedupePunches (raw_punches policy ps) m) \<subseteq> set (raw_punches policy ps)"
    using dedupe_subset [of m "sort_key pu_timestamp (raw_punches policy ps)" "[]"] by (simp add: dedupePunches_def)
  then have "set (map pu_timestamp (clean_punches policy ps)) \<subseteq> set (map pu_timestamp (raw_punches policy ps))"
    unfolding m by auto
  then show ?thesis by (simp add: raw_times del: set_map flip: set_map)
qed

lemma clean_nonempty: "ps \<noteq> [] \<Longrightarrow> clean_punches policy ps \<noteq> []"
proof -
  assume ne: "ps \<noteq> []"
  obtain m where m: "map pu_timestamp (clean_punches policy ps) = map pu_timestamp (dedupePunches (raw_punches policy ps) m)"
    using clean_from_raw by blast
  have "map pu_timestamp (raw_punches policy ps) \<noteq> []" using ne by (simp add: raw_times)
  then have "sort_key pu_timestamp (raw_punches policy ps) \<noteq> []"
    by (metis list.map_disc_iff set_empty set_sort)
  then have "dedupePunches (raw_punches policy ps) m \<noteq> []" by (simp add: dedupePunches_def dedupe_nonempty)
  then show ?thesis using m by (metis list.map_disc_iff)
qed

text \<open>The punches the pairing sees are in the order of their times.\<close>

lemma clean_chronological: "sorted (map pu_timestamp (clean_punches policy ps))"
  unfolding clean_punches_def Let_def infer_direction_times dedupePunches_def by (rule dedupe_sorted) simp

lemma arrival_status: "fst (arrival policy s ci m) \<in> {''PRESENT'', ''LATE''}"
  by (auto simp: arrival_def split: option.split)

lemma duration_status: "snd (snd (duration policy m w early)) \<in> {None, Some ''EARLY_CHECKOUT''}"
  by (auto simp: duration_def Let_def split: option.split)

lemma creditToStatus_cases: "creditToStatus c a d \<in> {''ABSENT'', a} \<union> set_option d"
  by (auto simp: creditToStatus_def split: option.split)

lemma arrival_no_conflict [simp]: "fst (arrival policy s ci m) \<noteq> ''PUNCH_CONFLICT''"
  using arrival_status [of policy s ci m] by auto

lemma creditToStatus_no_conflict [simp]:
  "creditToStatus c (fst (arrival policy s ci m)) (snd (snd (duration policy m' w early))) \<noteq> ''PUNCH_CONFLICT''"
  using creditToStatus_cases [of c "fst (arrival policy s ci m)" "snd (snd (duration policy m' w early))"]
    arrival_status [of policy s ci m] duration_status [of policy m' w early] by auto

text \<open>What the core promises to the rules that follow it.\<close>

definition undecided :: "day_result \<Rightarrow> bool" where
  "undecided d \<longleftrightarrow> res_processingState d = [] \<and>
    (res_status d = ''PUNCH_CONFLICT'' \<longrightarrow> \<not> res_inProgress d \<and> res_dayCredit d = None)"

lemma undecided_core_day [simp]:
  "undecided (core_day st ci co busy percent facts credit reg) \<longleftrightarrow> (st = ''PUNCH_CONFLICT'' \<longrightarrow> \<not> busy \<and> credit = None)"
  by (simp add: undecided_def core_day_def)

lemma core_undecided: "undecided (sr_day (evaluateShiftCore ps s policy now credits))"
  unfolding evaluateShiftCore_def Let_def case_prod_beta
  by (simp split: option.split)

text \<open>A core result is in progress only while its deadline is still ahead.\<close>

definition window_over :: "eval_policy \<Rightarrow> roster_shift \<Rightarrow> punch list \<Rightarrow> int \<Rightarrow> bool" where
  "window_over policy s ps now \<longleftrightarrow>
    (case shiftDeadline s policy of
       Some due \<Rightarrow> due \<le> now
     | None \<Rightarrow> ps \<noteq> [] \<and> (\<forall>p \<in> set ps. pu_timestamp p + 24 * 60 * 60000 \<le> now))"

lemma first_in_member: "first_in ps = Some t \<Longrightarrow> t \<in> pu_timestamp ` set ps"
  by (auto simp: first_in_def find_Some_iff)

lemma core_cutoff:
  assumes "window_over policy s ps now" and "first_in (clean_punches policy ps) = Some ci"
  shows "(case shiftDeadline s policy of Some d \<Rightarrow> d | None \<Rightarrow> ci + 24 * 60 * 60000) \<le> now"
proof (cases "shiftDeadline s policy")
  case None
  have "ci \<in> pu_timestamp ` set ps" using first_in_member [OF assms(2)] clean_times by blast
  then show ?thesis using assms(1) None by (auto simp: window_over_def)
qed (use assms(1) in \<open>simp add: window_over_def\<close>)

lemma core_day_progress [simp]: "res_inProgress (core_day st ci co busy percent facts credit reg) = busy"
  by (simp add: core_day_def)

lemma core_over:
  assumes "window_over policy s ps now"
  shows "\<not> res_inProgress (sr_day (evaluateShiftCore ps s policy now credits))"
proof (cases "clean_punches policy ps = []")
  case True
  then have "ps = []" using clean_nonempty by blast
  then show ?thesis using assms True
    by (simp add: evaluateShiftCore_def window_over_def Let_def split: option.splits)
next
  case False
  have "ci + 86400000 \<le> now" if "shiftDeadline s policy = None" "first_in (clean_punches policy ps) = Some ci" for ci
    using core_cutoff [OF assms that(2)] that(1) by simp
  moreover have "d \<le> now" if "shiftDeadline s policy = Some d" for d
    using assms that by (simp add: window_over_def)
  ultimately show ?thesis using False
    unfolding evaluateShiftCore_def Let_def case_prod_beta
    by (auto split: option.split)
qed

section \<open>The verdict\<close>

text \<open>The graces the anomaly rules use: the resolved pair when there is one, else those of the policy.\<close>

definition effective_grace :: "anomaly_policy \<Rightarrow> int \<times> int" where
  "effective_grace policy =
    (case ap_resolvedGrace policy of
       Some g \<Rightarrow> (checkInMinutes g, checkOutMinutes g)
     | None \<Rightarrow> (case ap_graceMinutes policy of None \<Rightarrow> 0 | Some m \<Rightarrow> m,
                case ap_earlyLeaveGraceMin policy of None \<Rightarrow> 0 | Some m \<Rightarrow> m))"

definition on_time :: "shift \<Rightarrow> int \<times> int \<Rightarrow> int \<Rightarrow> int \<Rightarrow> bool" where
  "on_time w grace ci co \<longleftrightarrow>
    (case sh_start w of None \<Rightarrow> True | Some t \<Rightarrow> \<lfloor>of_int (ci - t) / (60000 :: rat)\<rfloor> \<le> fst grace) \<and>
    (case sh_end w of None \<Rightarrow> True | Some t \<Rightarrow> of_int (t - co) / (60000 :: rat) \<le> of_int (snd grace))"

lemma no_facts_on_time:
  assumes "anomalyFacts ci co w gi go True percent half = []" and "0 \<le> gi" and "0 \<le> go"
  shows "\<exists>i t. ci = Some i \<and> co = Some t \<and> on_time w (gi, go) i t"
proof -
  have "ci \<noteq> None" "co \<noteq> None" using assms(1) by (auto simp: anomalyFacts_def Let_def split: if_split_asm)
  then obtain i t where io: "ci = Some i" "co = Some t" by blast
  have "\<not> of_int go < minutes_between co (sh_end w)" and "\<not> gi < \<lfloor>minutes_between (sh_start w) ci\<rfloor>"
    using assms(1) by (auto simp: anomalyFacts_def Let_def split: if_split_asm)
  then show ?thesis using io by (auto simp: on_time_def minutes_between_def split: option.splits)
qed

text \<open>What may be said of a day once the rules have run.\<close>

definition verdict_ok :: "shift \<Rightarrow> anomaly_policy \<Rightarrow> day_result \<Rightarrow> bool" where
  "verdict_ok w q d \<longleftrightarrow>
    processing_state d \<in> {''OPEN'', ''NEEDS_REVIEW'', ''FINALIZED''} \<and>
    (res_dayCredit d = (if processing_state d = ''FINALIZED'' then Some 1 else None)) \<and>
    (processing_state d = ''FINALIZED'' \<longrightarrow> res_status d = ''PRESENT'' \<and> res_anomalies d = [] \<and>
      (\<exists>i t. res_checkIn d = Some i \<and> res_checkOut d = Some t \<and> on_time w (effective_grace q) i t))"

lemma anomaly_status_empty [simp]: "anomaly_status [] = None"
  by (simp add: anomaly_status_def)

lemma rules_verdict:
  assumes "undecided d" and "0 \<le> fst (effective_grace q)" and "0 \<le> snd (effective_grace q)"
  shows "verdict_ok w q (applyAnomalyRules d w q)"
proof (cases "res_status d = ''PUNCH_CONFLICT''")
  case True
  then show ?thesis using assms(1) by (simp add: applyAnomalyRules_def verdict_ok_def undecided_def processing_state_def)
next
  case False
  define facts where "facts = anomalyFacts (res_checkIn d) (res_checkOut d) w (fst (effective_grace q)) (snd (effective_grace q))
     (\<not> res_inProgress d) (res_workedPercent d) (case ap_halfDayMinPercent q of None \<Rightarrow> 50 | Some p \<Rightarrow> p)"
  have rules: "applyAnomalyRules d w q = d\<lparr>res_rulesVersion := Some ANOMALY_RULE_VERSION, res_anomalies := facts,
      res_status := (case anomaly_status facts of Some s \<Rightarrow> s
        | None \<Rightarrow> if res_inProgress d \<and> res_checkIn d = None then ''PENDING_ATTENDANCE'' else ''PRESENT''),
      res_dayCredit := (if res_inProgress d \<or> facts \<noteq> [] then None else Some 1),
      res_processingState := (if res_inProgress d then ''OPEN'' else if facts \<noteq> [] then ''NEEDS_REVIEW'' else ''FINALIZED''),
      res_requiresRegularization := (facts \<noteq> [])\<rparr>"
    using False by (simp add: applyAnomalyRules_def effective_grace_def facts_def case_prod_beta Let_def)
  have "\<exists>i t. res_checkIn d = Some i \<and> res_checkOut d = Some t \<and> on_time w (effective_grace q) i t"
    if "facts = []" "\<not> res_inProgress d"
    using no_facts_on_time [OF _ assms(2,3)] that by (simp add: facts_def)
  then show ?thesis unfolding rules by (simp add: verdict_ok_def processing_state_def)
qed

lemma evaluateShift_day:
  defines "d ps s policy now credits \<equiv> applyAnomalyRules
      (sr_day (evaluateShiftCore (filter (\<lambda>p. \<not> outside_cutoff s policy p) ps) s policy now credits))
      (shift.truncate s) (anomaly_policy.truncate policy)"
  shows "\<not> list_ex (outside_cutoff s policy) ps \<Longrightarrow>
      sr_day (evaluateShift ps s policy now credits) =
      (d ps s policy now credits)\<lparr>res_processingState := processing_state (d ps s policy now credits)\<rparr>"
    and "list_ex (outside_cutoff s policy) ps \<Longrightarrow>
      res_processingState (sr_day (evaluateShift ps s policy now credits)) = ''NEEDS_REVIEW'' \<and>
      res_dayCredit (sr_day (evaluateShift ps s policy now credits)) = None"
  by (auto simp: d_def evaluateShift_def list_ex_iff filter_empty_conv processing_state_def Let_def)

lemma verdict_ok_settled: "verdict_ok w q d \<Longrightarrow> verdict_ok w q (d\<lparr>res_processingState := processing_state d\<rparr>)"
  by (auto simp: verdict_ok_def processing_state_def)

lemma evaluated_state:
  "processing_state (sr_day (evaluateShift ps s policy now credits)) = res_processingState (sr_day (evaluateShift ps s policy now credits))"
  by (auto simp: evaluateShift_def processing_state_def Let_def)

lemma evaluateShift_settled:
  fixes s :: roster_shift and policy :: eval_policy and now :: int and ps :: "punch list" and credits :: "credit list"
  defines "q \<equiv> anomaly_policy.truncate policy" and "d \<equiv> sr_day (evaluateShift ps s policy now credits)"
  assumes "0 \<le> fst (effective_grace q)" and "0 \<le> snd (effective_grace q)"
  shows "res_processingState d \<in> {''OPEN'', ''NEEDS_REVIEW'', ''FINALIZED''}"
    and "res_dayCredit d = (if res_processingState d = ''FINALIZED'' then Some 1 else None)"
    and "res_processingState d = ''FINALIZED'' \<Longrightarrow>
      res_status d = ''PRESENT'' \<and> res_anomalies d = [] \<and> \<not> list_ex (outside_cutoff s policy) ps \<and>
      (\<exists>i t. res_checkIn d = Some i \<and> res_checkOut d = Some t \<and> on_time (shift.truncate s) (effective_grace q) i t)"
proof -
  have "(res_processingState d \<in> {''OPEN'', ''NEEDS_REVIEW'', ''FINALIZED''} \<and>
    res_dayCredit d = (if res_processingState d = ''FINALIZED'' then Some 1 else None)) \<and>
    (res_processingState d = ''FINALIZED'' \<longrightarrow>
      res_status d = ''PRESENT'' \<and> res_anomalies d = [] \<and> \<not> list_ex (outside_cutoff s policy) ps \<and>
      (\<exists>i t. res_checkIn d = Some i \<and> res_checkOut d = Some t \<and> on_time (shift.truncate s) (effective_grace q) i t))"
  proof (cases "list_ex (outside_cutoff s policy) ps")
    case True
    then show ?thesis using evaluateShift_day(2) [of s policy ps now credits] by (simp add: d_def)
  next
    case False
    have "verdict_ok (shift.truncate s) q (sr_day (evaluateShift ps s policy now credits))"
      unfolding evaluateShift_day(1) [OF False] q_def [symmetric]
      by (intro verdict_ok_settled rules_verdict core_undecided assms(3,4))
    then show ?thesis using False by (simp add: d_def verdict_ok_def evaluated_state)
  qed
  then show "res_processingState d \<in> {''OPEN'', ''NEEDS_REVIEW'', ''FINALIZED''}"
    and "res_dayCredit d = (if res_processingState d = ''FINALIZED'' then Some 1 else None)"
    and "res_processingState d = ''FINALIZED'' \<Longrightarrow>
      res_status d = ''PRESENT'' \<and> res_anomalies d = [] \<and> \<not> list_ex (outside_cutoff s policy) ps \<and>
      (\<exists>i t. res_checkIn d = Some i \<and> res_checkOut d = Some t \<and> on_time (shift.truncate s) (effective_grace q) i t)"
    by blast+
qed

text \<open>A shift is scored all or nothing: its state is OPEN, NEEDS_REVIEW or FINALIZED, a whole day is
  credited exactly when it is FINALIZED and no credit is given otherwise, and a FINALIZED day is
  PRESENT with no anomaly, no punch past the checkout cutoff, an arrival within the arrival grace and a
  departure within the departure grace of the roster. The half day of the core is never the outcome.
\<close>

theorem evaluateShift_all_or_nothing:
  fixes s :: roster_shift and policy :: eval_policy
  defines "q \<equiv> anomaly_policy.truncate policy"
  assumes "0 \<le> fst (effective_grace q)" and "0 \<le> snd (effective_grace q)"
  shows "let d = sr_day (evaluateShift ps s policy now credits) in
    res_processingState d \<in> {''OPEN'', ''NEEDS_REVIEW'', ''FINALIZED''} \<and>
    res_dayCredit d = (if res_processingState d = ''FINALIZED'' then Some 1 else None) \<and>
    (res_processingState d = ''FINALIZED'' \<longrightarrow>
      res_status d = ''PRESENT'' \<and> res_anomalies d = [] \<and> \<not> list_ex (outside_cutoff s policy) ps \<and>
      (\<exists>i t. res_checkIn d = Some i \<and> res_checkOut d = Some t \<and> on_time (shift.truncate s) (effective_grace q) i t))"
  using evaluateShift_settled[of policy ps s now credits] assms(2,3) unfolding Let_def q_def by blast

text \<open>C19. A day does not stay open: once the checkout deadline of the roster has passed or, where the roster
  gives none, a day after the last of its punches, the evaluation gives a verdict other than OPEN.
\<close>

theorem evaluateShift_closes:
  assumes "window_over policy s ps now"
  shows "res_processingState (sr_day (evaluateShift ps s policy now credits)) \<noteq> ''OPEN''"
proof (cases "list_ex (outside_cutoff s policy) ps")
  case True
  then show ?thesis using evaluateShift_day(2) [of s policy ps now credits] by simp
next
  case False
  define qs where "qs = filter (\<lambda>p. \<not> outside_cutoff s policy p) ps"
  have "window_over policy s qs now"
    using assms by (auto simp: window_over_def qs_def outside_cutoff_def filter_empty_conv split: option.splits)
  then have idle: "\<not> res_inProgress (sr_day (evaluateShiftCore qs s policy now credits))" by (rule core_over)
  have "processing_state (applyAnomalyRules d w q) \<noteq> ''OPEN''" if "\<not> res_inProgress d" "undecided d" for d w q
    using that by (auto simp: applyAnomalyRules_def processing_state_def undecided_def Let_def split: prod.split)
  then show ?thesis unfolding evaluateShift_day(1) [OF False] using idle core_undecided by (simp flip: qs_def)
qed

definition sample_eval_policy :: eval_policy where
  "sample_eval_policy = \<lparr>ap_resolvedGrace = None, ap_graceMinutes = Some 5, ap_earlyLeaveGraceMin = Some 0, ap_halfDayMinPercent = None,
     ep_checkoutLeniencyMin = None, ep_checkinWindowMin = None, ep_halfDayAfterMinutes = None, ep_halfDayAfterPercentOfShift = None,
     ep_fullDayMinPercent = None, ep_duplicatePunchWindowMin = None, ep_trustDeviceDirection = True, ep_overtimeAfterMinutes = 0,
     ep_overtimeNeedsApproval = True\<rparr>"

lemma sample_deadline: "shiftDeadline sample_shift sample_eval_policy = Some 15300000"
  by (simp add: shiftDeadline_def boundedCheckout_def sample_shift_def sample_eval_policy_def)

lemma sample_graces: "effective_grace (anomaly_policy.truncate sample_eval_policy) = (5, 0)"
  by (simp add: effective_grace_def anomaly_policy.truncate_def sample_eval_policy_def)

text \<open>An arrival inside the fifth minute and a departure at the end of the shift.\<close>

lemma sample_day_finalized:
  "res_processingState (sr_day (evaluateShift [sample_punch ''IN'' 240000, sample_punch ''OUT'' 900000] sample_shift sample_eval_policy 16000000 []))
    = ''FINALIZED''"
proof -
  have inside: "outside_cutoff sample_shift sample_eval_policy p \<longleftrightarrow> 15300000 < pu_timestamp p \<and> \<not> explicitOut sample_shift p" for p
    by (simp add: outside_cutoff_def sample_deadline)
  have clean: "clean_punches sample_eval_policy [sample_punch ''IN'' 240000, sample_punch ''OUT'' 900000] =
      [sample_punch ''IN'' 240000, sample_punch ''OUT'' 900000]"
    by (simp add: clean_punches_def sample_eval_policy_def dedupePunches_def dedupe_step_def repeats_def infer_direction_def sample_punch_def)
  have pairing: "pa_issues (pairAttendance [sample_punch ''IN'' 240000, sample_punch ''OUT'' 900000]) = []"
      "pa_open (pairAttendance [sample_punch ''IN'' 240000, sample_punch ''OUT'' 900000]) = None"
    by (simp_all add: pairAttendance_def pair_step_def pair_out_def sample_punch_def instant_def)
  have ends: "first_in [sample_punch ''IN'' 240000, sample_punch ''OUT'' 900000] = Some 240000"
      "check_out [sample_punch ''IN'' 240000, sample_punch ''OUT'' 900000] False = Some 900000"
    by (simp_all add: first_in_def check_out_def last_out_def sample_punch_def)
  have "res_inProgress (sr_day core) = False \<and> res_checkIn (sr_day core) = Some 240000 \<and> res_checkOut (sr_day core) = Some 900000 \<and>
      res_status (sr_day core) \<noteq> ''PUNCH_CONFLICT''"
    if "core = evaluateShiftCore [sample_punch ''IN'' 240000, sample_punch ''OUT'' 900000] sample_shift sample_eval_policy 16000000 []" for core
    unfolding that evaluateShiftCore_def Let_def clean case_prod_beta by (simp add: pairing ends) (simp add: core_day_def)
  note core = this [OF refl]
  have none: "\<not> list_ex (outside_cutoff sample_shift sample_eval_policy) [sample_punch ''IN'' 240000, sample_punch ''OUT'' 900000]"
    by (simp add: inside) (simp add: sample_punch_def)
  have keep: "filter (\<lambda>p. \<not> outside_cutoff sample_shift sample_eval_policy p) [sample_punch ''IN'' 240000, sample_punch ''OUT'' 900000] =
      [sample_punch ''IN'' 240000, sample_punch ''OUT'' 900000]"
    by (simp add: inside) (simp add: sample_punch_def)
  have "res_processingState (applyAnomalyRules d (shift.truncate sample_shift) (anomaly_policy.truncate sample_eval_policy)) = ''FINALIZED''"
    if "res_inProgress d = False \<and> res_checkIn d = Some 240000 \<and> res_checkOut d = Some 900000 \<and> res_status d \<noteq> ''PUNCH_CONFLICT''" for d
    using that by (simp add: applyAnomalyRules_def Let_def anomaly_policy.truncate_def shift.truncate_def sample_eval_policy_def
        sample_shift_def anomalyFacts_def minutes_between_def)
  from this [OF core] show ?thesis
    unfolding evaluateShift_day(1) [OF none] keep by (simp add: processing_state_def)
qed

theorem evaluateShift_all_or_nothing_witness:
  "res_dayCredit (sr_day (evaluateShift [sample_punch ''IN'' 240000, sample_punch ''OUT'' 900000] sample_shift sample_eval_policy 16000000 []))
    = Some 1"
  using evaluateShift_all_or_nothing [of sample_eval_policy "[sample_punch ''IN'' 240000, sample_punch ''OUT'' 900000]" sample_shift 16000000 "[]"]
  unfolding sample_graces sample_day_finalized Let_def by simp

theorem evaluateShift_closes_witness:
  "res_processingState (sr_day (evaluateShift [sample_punch ''IN'' 240000] sample_shift sample_eval_policy 15300000 [])) \<noteq> ''OPEN''"
  by (rule evaluateShift_closes) (simp add: window_over_def sample_deadline)

end
