(* ===== verification/Roster.thy ===== *)
theory Roster
  imports AttendanceIntervals
begin

text \<open>
  Rosters: the windows a schedule pattern gives for a day (\<^verbatim>\<open>src/src/lib/attendanceShift.js\<close>), the latest
  check-out of a window (\<^verbatim>\<open>src/src/lib/shiftCheckout.js\<close>) and the validation of a pattern before it is stored
  (\<^verbatim>\<open>src/src/lib/schedulePattern.js\<close>). A pattern is untyped JSON in the code; here it is a record, so the checks
  that a field has the right shape are its type. Days are day numbers, instants milliseconds.
\<close>

section \<open>Clock times\<close>

definition at_day :: "int \<Rightarrow> int" where
  "at_day day = day * day_ms"

definition isoDow :: "int \<Rightarrow> int" where
  "isoDow day = (if (day + 4) mod 7 = 0 then 7 else (day + 4) mod 7)"

definition two_digits :: "char \<Rightarrow> char \<Rightarrow> int" where
  "two_digits a b = int (10 * digit_val a + digit_val b)"

text \<open>The strict form \<^verbatim>\<open>HH:MM\<close>; \<open>is_clock\<close> is the regular expression of the validators.\<close>

fun is_clock :: "string \<Rightarrow> bool" where
  "is_clock [a, b, s, c, d] \<longleftrightarrow> is_digit a \<and> is_digit b \<and> s = CHR '':'' \<and> is_digit c \<and> is_digit d \<and>
     two_digits a b \<le> 23 \<and> digit_val c \<le> 5"
| "is_clock cs \<longleftrightarrow> False"

fun clockMinutes :: "string option \<Rightarrow> int option" where
  "clockMinutes None = None"
| "clockMinutes (Some v) =
     (if is_clock v then Some (two_digits (v ! 0) (v ! 1) * 60 + two_digits (v ! 3) (v ! 4)) else None)"

text \<open>The lenient form of the reader: one or two digits, a colon, two digits, anything.\<close>

fun clock_prefix :: "string \<Rightarrow> (int \<times> int) option" where
  "clock_prefix (a # b # c # d # cs) =
     (if is_digit a \<and> b = CHR '':'' then
        (if is_digit c \<and> is_digit d then Some (int (digit_val a), two_digits c d) else None)
      else
        (case cs of e # _ \<Rightarrow>
           if is_digit a \<and> is_digit b \<and> c = CHR '':'' \<and> is_digit d \<and> is_digit e then Some (two_digits a b, two_digits d e)
           else None
         | [] \<Rightarrow> None))"
| "clock_prefix cs = None"

definition clock_on :: "int \<Rightarrow> string option \<Rightarrow> int option" where
  "clock_on day hhmm =
    (case hhmm of None \<Rightarrow> None
     | Some s \<Rightarrow> map_option (\<lambda>(h, m). at_day day + h * 3600000 + m * 60000) (clock_prefix (js_trim s)))"

section \<open>Windows\<close>

record window_spec =
  wi_from :: "string option"
  wi_to :: "string option"
  wi_cutoffTime :: "string option"
  wi_cutoffOffset :: "int option"
  wi_templateId :: "int option"

definition truthy_text :: "string option \<Rightarrow> bool" where
  "truthy_text s \<longleftrightarrow> s \<noteq> None \<and> s \<noteq> Some []"

text \<open>\<^verbatim>\<open>minutes <= start\<close> reads \<^verbatim>\<open>null\<close> as 0.\<close>

definition checkoutAt :: "window_spec option \<Rightarrow> int \<Rightarrow> int option" where
  "checkoutAt w day =
    (case w of None \<Rightarrow> None
     | Some w \<Rightarrow>
         if \<not> truthy_text (wi_cutoffTime w) then None
         else
           let minutes = clockMinutes (wi_cutoffTime w); start = clockMinutes (wi_from w);
             offset = (case wi_cutoffOffset w of Some k \<Rightarrow> k | None \<Rightarrow> if plus_null minutes \<le> plus_null start then 1 else 0)
           in (case minutes of None \<Rightarrow> None
               | Some m \<Rightarrow> if offset \<notin> {0, 1} then None else Some (at_day day + offset * day_ms + m * 60000)))"

definition validateCheckoutWindow :: "window_spec \<Rightarrow> int option \<Rightarrow> hr_error + unit" where
  "validateCheckoutWindow w nextStart =
    (case (clockMinutes (wi_from w), clockMinutes (wi_to w)) of
       (Some fr, Some to) \<Rightarrow>
         if \<not> truthy_text (wi_cutoffTime w) then Inr ()
         else
           let base = 20454; cutoff = checkoutAt (Some w) base;
             e = at_day base + (to + (if to \<le> fr then 1440 else 0)) * 60000
           in (case cutoff of None \<Rightarrow> Inl (AppError 400 ''Latest checkout'')
               | Some c \<Rightarrow> ensure (\<not> (c < e \<or> (case nextStart of None \<Rightarrow> False | Some n \<Rightarrow> n - 60 * 60000 < c)))
                   (AppError 400 ''Latest checkout''))
     | _ \<Rightarrow> Inl (AppError 400 ''Shift times must be HH:MM''))"

section \<open>Patterns\<close>

datatype off_index = OffOne int | OffMany "int list"

record cycle_spec =
  cy_days :: int
  cy_anchor :: int
  cy_offIndex :: "off_index option"
  cy_sequence :: "int option list option"

record break_spec = window_spec +
  br_paid :: bool

record pattern =
  pa_shift :: "window_spec option"
  pa_shifts :: "window_spec list option"
  pa_rotatingShifts :: "window_spec list option"
  pa_shiftByDay :: "(int \<times> window_spec) list option"
  pa_cycle :: "cycle_spec option"
  pa_offDays :: "int list option"
  pa_breaks :: "break_spec list option"
  pa_minRestHours :: "rat option"
  pa_maxConsecutiveDays :: "rat option"
  pa_maxHoursPerWeek :: "rat option"
  pa_paidWithoutPunches :: bool
  pa_scheduled :: "bool option"

record shift_option =
  so_start :: "int option"
  so_end :: "int option"
  so_checkoutCutoff :: "int option"
  so_templateId :: "int option"

definition build_shift :: "int \<Rightarrow> window_spec option \<Rightarrow> shift_option" where
  "build_shift day raw =
    (let start = clock_on day (Option.bind raw wi_from);
       finish = clock_on day (Option.bind raw wi_to);
       finish = (case (start, finish) of (Some s, Some e) \<Rightarrow> Some (if e \<le> s then e + day_ms else e) | _ \<Rightarrow> finish)
     in \<lparr>so_start = start, so_end = finish, so_checkoutCutoff = checkoutAt raw day, so_templateId = Option.bind raw wi_templateId\<rparr>)"

definition bounded :: "shift_option \<Rightarrow> bool" where
  "bounded s \<longleftrightarrow> so_start s \<noteq> None \<and> so_end s \<noteq> None"

definition list_of :: "'a list option \<Rightarrow> 'a list" where
  "list_of xs = (case xs of None \<Rightarrow> [] | Some ys \<Rightarrow> ys)"

definition list_at :: "'a list \<Rightarrow> int \<Rightarrow> 'a option" where
  "list_at xs i = (if 0 \<le> i \<and> i < int (length xs) then Some (xs ! nat i) else None)"

definition cycle_index :: "cycle_spec \<Rightarrow> int \<Rightarrow> int" where
  "cycle_index c day = (((day - cy_anchor c) smod cy_days c) + cy_days c) smod cy_days c"

definition shiftCandidates :: "pattern \<Rightarrow> int \<Rightarrow> shift_option list" where
  "shiftCandidates p day =
    (let build = build_shift day; rotating = list_of (pa_rotatingShifts p) in
     if list_of (pa_shifts p) \<noteq> [] then
       sort_key (\<lambda>s. plus_null (so_start s)) (filter bounded (map (build \<circ> Some) (list_of (pa_shifts p))))
     else case (rotating, Option.bind (pa_cycle p) (\<lambda>c. map_option (Pair c) (cy_sequence c))) of
       (_ # _, Some (c, sequence)) \<Rightarrow>
         (case list_at sequence (cycle_index c day) of
            Some (Some i) \<Rightarrow> filter bounded [build (list_at rotating i)]
          | _ \<Rightarrow> [])
     | (_ # _, None) \<Rightarrow> filter (\<lambda>s. so_start s \<noteq> None) (map (build \<circ> Some) rotating)
     | ([], _) \<Rightarrow>
         let perDay = map_option (build \<circ> Some) (map_of (list_of (pa_shiftByDay p)) (isoDow day));
           single = build (pa_shift p)
         in case perDay of
              Some s \<Rightarrow> if bounded s then [s] else if so_start single \<noteq> None then [single] else []
            | None \<Rightarrow> if so_start single \<noteq> None then [single] else [])"

text \<open>The distance of an arrival from a start, across midnight.\<close>

definition clock_distance :: "int \<Rightarrow> int \<Rightarrow> int" where
  "clock_distance t start = (let d = \<bar>t - start\<bar> in min d \<bar>d - day_ms\<bar>)"

definition closer :: "int \<Rightarrow> shift_option \<Rightarrow> (int \<times> shift_option) option \<Rightarrow> (int \<times> shift_option) option" where
  "closer t opt best =
    (let d = clock_distance t (plus_null (so_start opt)) in
     case best of None \<Rightarrow> Some (d, opt) | Some b \<Rightarrow> if d < fst b then Some (d, opt) else best)"

definition no_shift :: shift_option where
  "no_shift = \<lparr>so_start = None, so_end = None, so_checkoutCutoff = None, so_templateId = None\<rparr>"

definition shiftFor :: "pattern \<Rightarrow> int \<Rightarrow> int option \<Rightarrow> shift_option" where
  "shiftFor p day anchor =
    (case shiftCandidates p day of
       [] \<Rightarrow> no_shift
     | o1 # rest \<Rightarrow>
         (case anchor of
            None \<Rightarrow> o1
          | Some t \<Rightarrow> if rest = [] then o1
              else (case fold (closer t) (o1 # rest) None of None \<Rightarrow> o1 | Some b \<Rightarrow> snd b)))"

definition off_indices :: "cycle_spec \<Rightarrow> int list" where
  "off_indices c = (case cy_offIndex c of None \<Rightarrow> [] | Some (OffOne i) \<Rightarrow> [i] | Some (OffMany is) \<Rightarrow> is)"

definition scheduledShifts :: "pattern option \<Rightarrow> int \<Rightarrow> shift_option list" where
  "scheduledShifts p day =
    (case p of None \<Rightarrow> []
     | Some p \<Rightarrow>
         if pa_scheduled p = Some False \<or> (pa_scheduled p \<noteq> Some True \<and> isoDow day \<in> set (list_of (pa_offDays p))) then []
         else if (case pa_cycle p of None \<Rightarrow> False
                  | Some c \<Rightarrow> cy_sequence c = None \<and> pa_scheduled p \<noteq> Some True \<and> cycle_index c day \<in> set (off_indices c)) then []
         else shiftCandidates p day)"

text \<open>The search goes from the day of the shift through the next 370 days.\<close>

fun next_start_from :: "(int \<Rightarrow> pattern option) \<Rightarrow> int \<Rightarrow> int \<Rightarrow> nat \<Rightarrow> int option" where
  "next_start_from p after day 0 = None"
| "next_start_from p after day (Suc n) =
     (if (case p day of None \<Rightarrow> False
          | Some q \<Rightarrow> list_of (pa_rotatingShifts q) \<noteq> [] \<and> Option.bind (pa_cycle q) cy_sequence = None) then None
      else
        (case sort_key (\<lambda>s. plus_null (so_start s)) (filter (\<lambda>s. after < plus_null (so_start s)) (scheduledShifts (p day) day)) of
           s # _ \<Rightarrow> so_start s
         | [] \<Rightarrow> next_start_from p after (day + 1) n))"

definition nextShiftStart :: "(int \<Rightarrow> pattern option) \<Rightarrow> shift_option \<Rightarrow> int option" where
  "nextShiftStart p shift =
    (case so_start shift of None \<Rightarrow> None | Some t \<Rightarrow> next_start_from p t (t div day_ms) 371)"

section \<open>What a roster may say\<close>

definition isWeekday :: "int \<Rightarrow> bool" where
  "isWeekday v \<longleftrightarrow> 1 \<le> v \<and> v \<le> 7"

definition check_clock :: "string option \<Rightarrow> string \<Rightarrow> string list" where
  "check_clock t label = (if case t of None \<Rightarrow> False | Some s \<Rightarrow> is_clock s then [] else [label @ '': expected HH:MM''])"

definition checkWindow :: "window_spec \<Rightarrow> string \<Rightarrow> string list" where
  "checkWindow w label =
    check_clock (wi_from w) (label @ ''.from'') @ check_clock (wi_to w) (label @ ''.to'') @
    (if truthy_text (wi_cutoffTime w)
     then (case validateCheckoutWindow w None of Inl _ \<Rightarrow> [label @ '': checkout''] | Inr _ \<Rightarrow> []) else [])"

definition check_offDays :: "int list option \<Rightarrow> string list" where
  "check_offDays days =
    (case days of None \<Rightarrow> []
     | Some ds \<Rightarrow>
         map (\<lambda>_. ''offDays: not an ISO weekday'') (filter (\<lambda>d. \<not> isWeekday d) ds) @
         (if 7 \<le> length ds then [''offDays: off every day is not a roster''] else []) @
         (if \<not> distinct ds then [''offDays: remove duplicate weekdays''] else []))"

definition window_minutes :: "window_spec \<Rightarrow> int \<times> int" where
  "window_minutes w =
    (let fr = plus_null (clockMinutes (wi_from w)); to = plus_null (clockMinutes (wi_to w))
     in (fr, to + (if to \<le> fr then 1440 else 0)))"

fun touching :: "(int \<times> int) list \<Rightarrow> bool" where
  "touching (a # b # ws) \<longleftrightarrow> fst b < snd a \<or> touching (b # ws)"
| "touching ws \<longleftrightarrow> False"

definition check_shifts :: "pattern \<Rightarrow> string list \<Rightarrow> string list" where
  "check_shifts p errors =
    (case pa_shifts p of None \<Rightarrow> []
     | Some ws \<Rightarrow>
         (if ws = [] \<or> 4 < length ws then [''shifts: choose 1-4 non-overlapping windows'']
          else
            let es = concat (map (\<lambda>w. checkWindow w ''shifts'') ws) in
            es @ (if errors @ es = [] then
                    (let wins = sort_key fst (map window_minutes ws) in
                     if touching wins \<or> fst (hd wins) + 1440 < snd (last wins) then [''shifts: windows overlap''] else [])
                  else [])) @
         (if pa_rotatingShifts p \<noteq> None \<or> pa_shiftByDay p \<noteq> None
          then [''shifts cannot be combined with rotatingShifts or shiftByDay''] else []))"

definition check_cycle :: "pattern \<Rightarrow> string list" where
  "check_cycle p =
    (case pa_cycle p of None \<Rightarrow> []
     | Some c \<Rightarrow>
         let days = cy_days c; n = int (length (list_of (pa_rotatingShifts p)));
           offs = (case cy_offIndex c of None \<Rightarrow> None | Some _ \<Rightarrow> Some (off_indices c))
         in
         (case cy_sequence c of None \<Rightarrow> []
          | Some s \<Rightarrow>
              if int (length s) \<noteq> days \<or> list_ex (\<lambda>i. case i of None \<Rightarrow> False | Some k \<Rightarrow> k < 0 \<or> n \<le> k) s
              then [''cycle.sequence: choose one shift index or null per cycle day''] else []) @
         (if days \<le> 0 then [''cycle.days: expected a positive integer''] else []) @
         (case offs of
            None \<Rightarrow> if cy_sequence c = None then [''cycle.offIndex: expected an index''] else []
          | Some is \<Rightarrow>
              (if is = [] \<and> cy_sequence c = None then [''cycle.offIndex: an off-index array must not be empty''] else []) @
              map (\<lambda>_. ''cycle.offIndex: out of range'') (filter (\<lambda>k. k < 0 \<or> (0 < days \<and> days \<le> k)) is)))"

definition check_limit :: "rat option \<Rightarrow> rat \<Rightarrow> string \<Rightarrow> string list" where
  "check_limit v upper label = (case v of None \<Rightarrow> [] | Some x \<Rightarrow> if x < 0 \<or> upper < x then [label @ '': out of range''] else [])"

text \<open>The cutoff of one scheduled shift against the start of the next, along two weeks or two rotations.\<close>

definition cutoff_step :: "shift_option \<Rightarrow> shift_option option \<times> string list \<Rightarrow> shift_option option \<times> string list" where
  "cutoff_step s st =
    (Some s, snd st @ (case Option.bind (fst st) so_checkoutCutoff of None \<Rightarrow> []
       | Some c \<Rightarrow> if plus_null (so_start s) - 3600000 < c then [''Latest checkout must be at least one hour before the next shift''] else []))"

definition check_cutoffs :: "pattern \<Rightarrow> string list" where
  "check_cutoffs p =
    (let first = (case pa_cycle p of None \<Rightarrow> 20458 | Some c \<Rightarrow> cy_anchor c);
       days = min 740 (max 14 ((case pa_cycle p of None \<Rightarrow> 7 | Some c \<Rightarrow> cy_days c) * 2 + 2));
       on = filter (\<lambda>day. isoDow day \<notin> set (list_of (pa_offDays p))) (map (\<lambda>i. first + int i) [0..<nat days])
     in snd (fold cutoff_step (concat (map (scheduledShifts (Some p)) on)) (None, [])))"

definition has_cutoff :: "pattern \<Rightarrow> bool" where
  "has_cutoff p \<longleftrightarrow> list_ex (\<lambda>w. truthy_text (wi_cutoffTime w))
     ((case pa_shift p of None \<Rightarrow> [] | Some w \<Rightarrow> [w]) @ list_of (pa_shifts p) @ list_of (pa_rotatingShifts p) @
      map snd (list_of (pa_shiftByDay p)))"

definition pattern_errors :: "pattern \<Rightarrow> string list" where
  "pattern_errors p =
    (let e1 = check_offDays (pa_offDays p);
       e2 = e1 @ concat (map (\<lambda>w. checkWindow w ''rotatingShifts'') (list_of (pa_rotatingShifts p)));
       e3 = e2 @ (case pa_shift p of None \<Rightarrow> [] | Some w \<Rightarrow> checkWindow w ''shift'');
       e4 = e3 @ check_shifts p e3;
       e5 = e4 @ concat (map (\<lambda>(k, w). (if isWeekday k then [] else [''shiftByDay: not an ISO weekday'']) @ checkWindow w ''shiftByDay'')
                  (list_of (pa_shiftByDay p)));
       e6 = e5 @ (if pa_shift p = None \<and> list_of (pa_rotatingShifts p) = [] \<and> list_of (pa_shifts p) = []
                  then [''pattern: needs a shift or rotatingShifts''] else []);
       e7 = e6 @ check_cycle p;
       e8 = e7 @ concat (map (\<lambda>b. checkWindow (window_spec.truncate b) ''breaks'') (list_of (pa_breaks p)));
       e9 = e8 @ (case Option.bind (pa_cycle p) cy_sequence of None \<Rightarrow> []
                  | Some s \<Rightarrow> if list_all (\<lambda>i. i = None) s then [''cycle.sequence: at least one day must work''] else []);
       e10 = e9 @ (case pa_maxConsecutiveDays p of None \<Rightarrow> []
                   | Some x \<Rightarrow> if js_isInteger x then [] else [''maxConsecutiveDays: use whole days'']) @
             check_limit (pa_minRestHours p) 24 ''minRestHours'' @ check_limit (pa_maxConsecutiveDays p) 31 ''maxConsecutiveDays'' @
             check_limit (pa_maxHoursPerWeek p) 168 ''maxHoursPerWeek''
     in e10 @ (if e10 = [] \<and> has_cutoff p then check_cutoffs p else []))"

definition validateSchedulePattern :: "pattern \<Rightarrow> bool \<times> string list" where
  "validateSchedulePattern p = (pattern_errors p = [], nub (pattern_errors p))"

definition assertSchedulePattern :: "pattern \<Rightarrow> hr_error + pattern" where
  "assertSchedulePattern p =
    rbind (ensure (fst (validateSchedulePattern p)) (AppError 400 ''invalid schedule pattern'')) (\<lambda>_. Inr p)"

section \<open>Windows\<close>

lemma is_clock_cases:
  assumes "is_clock v"
  obtains a b c d where "v = [a, b, CHR '':'', c, d]" "is_digit a" "is_digit b" "is_digit c" "is_digit d"
    "two_digits a b \<le> 23" "digit_val c \<le> 5"
  using assms by (cases v rule: is_clock.cases) auto

lemma digit_val_le: "is_digit c \<Longrightarrow> digit_val c \<le> 9"
  by (auto simp: is_digit_def digit_val_def)

lemma two_digits_nonneg [simp]: "0 \<le> two_digits a b"
  by (simp add: two_digits_def)

lemma clock_strict:
  assumes "clockMinutes (Some v) = Some m"
  shows "clock_on day (Some v) = Some (at_day day + m * 60000)" and "0 \<le> m" and "m < 1440"
proof -
  from assms have v: "is_clock v" by (simp split: if_splits)
  then obtain a b c d where e: "v = [a, b, CHR '':'', c, d]" and d: "is_digit a" "is_digit b" "is_digit c" "is_digit d"
    and r: "two_digits a b \<le> 23" "digit_val c \<le> 5"
    by (rule is_clock_cases)
  have m: "m = two_digits a b * 60 + two_digits c d" using assms v by (simp add: e eval_nat_numeral)
  have "js_trim v = v" using d is_digit_not_space by (simp add: e js_trim_def)
  then show "clock_on day (Some v) = Some (at_day day + m * 60000)"
    using d by (simp add: clock_on_def e m algebra_simps) (auto simp: is_digit_def)
  show "0 \<le> m" by (simp add: m)
  have "two_digits c d \<le> 59" using r(2) digit_val_le[OF d(4)] by (simp add: two_digits_def)
  with r(1) show "m < 1440" by (simp add: m)
qed

definition window_ok :: "int \<Rightarrow> shift_option \<Rightarrow> bool" where
  "window_ok day s \<longleftrightarrow> (\<exists>a b. so_start s = Some a \<and> so_end s = Some b \<and> at_day day \<le> a \<and> a < at_day (day + 1) \<and>
     a < b \<and> b \<le> a + day_ms \<and> (\<forall>c \<in> set_option (so_checkoutCutoff s). b \<le> c))"

lemma checkWindow_clocks:
  assumes "checkWindow w label = []"
  obtains fr to where "clockMinutes (wi_from w) = Some fr" "clockMinutes (wi_to w) = Some to"
  using assms by (auto simp: checkWindow_def check_clock_def split: option.splits if_splits)

lemma checkoutAt_day: "checkoutAt w day = map_option (\<lambda>c. c + at_day day - at_day d0) (checkoutAt w d0)"
  by (auto simp: checkoutAt_def Let_def split: option.split)

lemma build_shift_clocks:
  assumes "clockMinutes (wi_from w) = Some fr" "clockMinutes (wi_to w) = Some to"
  shows "so_start (build_shift day (Some w)) = Some (at_day day + fr * 60000)"
    and "so_end (build_shift day (Some w)) = Some (at_day day + (to + (if to \<le> fr then 1440 else 0)) * 60000)"
proof -
  obtain f t where ft: "wi_from w = Some f" "wi_to w = Some t" using assms by (cases "wi_from w"; cases "wi_to w") auto
  show "so_start (build_shift day (Some w)) = Some (at_day day + fr * 60000)"
    "so_end (build_shift day (Some w)) = Some (at_day day + (to + (if to \<le> fr then 1440 else 0)) * 60000)"
    using assms clock_strict(1)[of f fr day] clock_strict(1)[of t to day]
    by (simp_all add: build_shift_def Let_def ft day_ms_def algebra_simps)
qed

lemma build_shift_ok:
  assumes ok: "checkWindow w label = []" shows "window_ok day (build_shift day (Some w))"
proof -
  obtain fr to where c: "clockMinutes (wi_from w) = Some fr" "clockMinutes (wi_to w) = Some to"
    using ok by (rule checkWindow_clocks)
  obtain f t where ft: "wi_from w = Some f" "wi_to w = Some t" using c by (cases "wi_from w"; cases "wi_to w") auto
  have range: "0 \<le> fr" "fr < 1440" "0 \<le> to" "to < 1440"
    using c clock_strict(2,3) by (auto simp: ft simp del: clockMinutes.simps)
  define e where "e = (to + (if to \<le> fr then 1440 else 0)) * 60000"
  have cutoff: "e \<le> c - at_day day" if "so_checkoutCutoff (build_shift day (Some w)) = Some c" for c
  proof -
    from that obtain c0 where c0: "checkoutAt (Some w) 20454 = Some c0" and c: "c = c0 + at_day day - at_day 20454"
      by (auto simp: build_shift_def Let_def checkoutAt_day[of "Some w" day 20454])
    from c0 have "truthy_text (wi_cutoffTime w)" by (auto simp: checkoutAt_def split: if_splits)
    with ok have "validateCheckoutWindow w None = Inr ()" by (auto simp: checkWindow_def split: sum.splits)
    with c0 \<open>truthy_text _\<close> show ?thesis
      using \<open>clockMinutes (wi_from w) = Some fr\<close> \<open>clockMinutes (wi_to w) = Some to\<close>
      by (simp add: validateCheckoutWindow_def c e_def)
  qed
  show ?thesis
    unfolding window_ok_def build_shift_clocks[OF c] using cutoff range
    by (force simp: at_day_def day_ms_def e_def split: if_splits)
qed

definition pattern_windows :: "pattern \<Rightarrow> window_spec set" where
  "pattern_windows p = set_option (pa_shift p) \<union> set (list_of (pa_shifts p)) \<union> set (list_of (pa_rotatingShifts p)) \<union>
     snd ` set (list_of (pa_shiftByDay p))"

lemma list_at_in: "list_at xs i = Some x \<Longrightarrow> x \<in> set xs"
  by (auto simp: list_at_def split: if_splits)

lemma build_shift_start: "so_start (build_shift day raw) \<noteq> None \<Longrightarrow> raw \<noteq> None"
  by (cases raw) (simp_all add: build_shift_def Let_def clock_on_def)

lemma raw_windows:
  "set_option (list_at (list_of (pa_rotatingShifts p)) i) \<subseteq> pattern_windows p"
  "set_option (map_of (list_of (pa_shiftByDay p)) k) \<subseteq> pattern_windows p"
  "set_option (pa_shift p) \<subseteq> pattern_windows p"
  "set (list_of (pa_shifts p)) \<subseteq> pattern_windows p" "set (list_of (pa_rotatingShifts p)) \<subseteq> pattern_windows p"
proof -
  show "set_option (list_at (list_of (pa_rotatingShifts p)) i) \<subseteq> pattern_windows p"
    by (auto simp: pattern_windows_def dest: list_at_in)
  show "set_option (map_of (list_of (pa_shiftByDay p)) k) \<subseteq> pattern_windows p"
    by (force simp: pattern_windows_def dest: map_of_SomeD)
qed (auto simp: pattern_windows_def)

lemma candidate_raw:
  assumes s: "s \<in> set (shiftCandidates p day)"
  shows "so_start s \<noteq> None \<and> (\<exists>raw. s = build_shift day raw \<and> set_option raw \<subseteq> pattern_windows p)"
proof (cases "list_of (pa_shifts p) = []")
  case False
  then have "s \<in> set (filter bounded (map (build_shift day \<circ> Some) (list_of (pa_shifts p))))"
    using s by (simp add: shiftCandidates_def Let_def)
  then show ?thesis using raw_windows(4) by (fastforce simp: bounded_def)
next
  case shifts: True
  show ?thesis
  proof (cases "list_of (pa_rotatingShifts p)")
    case Nil
    define perDay where "perDay = map_of (list_of (pa_shiftByDay p)) (isoDow day)"
    from Nil shifts s have "so_start s \<noteq> None \<and> (s = build_shift day perDay \<or> s = build_shift day (pa_shift p))"
      by (cases perDay) (auto simp: shiftCandidates_def Let_def bounded_def perDay_def split: if_splits)
    then show ?thesis using raw_windows(2,3) unfolding perDay_def by blast
  next
    case (Cons w ws)
    show ?thesis
    proof (cases "Option.bind (pa_cycle p) (\<lambda>c. map_option (Pair c) (cy_sequence c))")
      case None
      with Cons shifts s have "so_start s \<noteq> None" "\<exists>w \<in> set (list_of (pa_rotatingShifts p)). s = build_shift day (Some w)"
        by (auto simp: shiftCandidates_def Let_def split: if_splits)
      then show ?thesis using raw_windows(5)[of p] by fastforce
    next
      case (Some cs)
      then obtain c sq where cs: "cs = (c, sq)" by (cases cs)
      obtain i where "s \<in> set (filter bounded [build_shift day (list_at (list_of (pa_rotatingShifts p)) i)])"
        using Cons shifts s Some unfolding shiftCandidates_def Let_def cs
        by (simp split: option.splits) blast
      then show ?thesis using raw_windows(1)[of p i] by (auto simp: bounded_def split: if_splits)
    qed
  qed
qed

lemma candidate_built:
  assumes "s \<in> set (shiftCandidates p day)"
  obtains w where "w \<in> pattern_windows p" "s = build_shift day (Some w)"
  using candidate_raw[OF assms] build_shift_start by fastforce

lemma pattern_errors_windows:
  assumes "pattern_errors p = []" and "w \<in> pattern_windows p" shows "\<exists>label. checkWindow w label = []"
proof -
  note un = assms(1)[unfolded pattern_errors_def Let_def append_is_Nil_conv]
  from un have "\<forall>w \<in> set_option (pa_shift p). checkWindow w ''shift'' = []" by (auto split: option.splits)
  moreover from un have "\<forall>w \<in> set (list_of (pa_rotatingShifts p)). checkWindow w ''rotatingShifts'' = []" by simp
  moreover from un have "\<forall>w \<in> snd ` set (list_of (pa_shiftByDay p)). checkWindow w ''shiftByDay'' = []" by auto
  moreover from un have "\<exists>e. check_shifts p e = []" by blast
  then have "\<forall>w \<in> set (list_of (pa_shifts p)). checkWindow w ''shifts'' = []"
    by (auto simp: check_shifts_def list_of_def Let_def split: option.splits if_splits)
  ultimately show ?thesis using assms(2) unfolding pattern_windows_def by blast
qed

lemma valid_window:
  assumes "fst (validateSchedulePattern p)" and "s \<in> set (shiftCandidates p day)" shows "window_ok day s"
proof -
  obtain w where w: "w \<in> pattern_windows p" "s = build_shift day (Some w)" using assms(2) by (rule candidate_built)
  from assms(1) obtain label where "checkWindow w label = []"
    using pattern_errors_windows w(1) by (auto simp: validateSchedulePattern_def)
  then show ?thesis unfolding w(2) by (rule build_shift_ok)
qed

section \<open>Split shifts\<close>

definition span :: "shift_option \<Rightarrow> int \<times> int" where
  "span s = (plus_null (so_start s), plus_null (so_end s))"

definition on_day :: "int \<Rightarrow> int \<times> int \<Rightarrow> int \<times> int" where
  "on_day day m = (at_day day + fst m * 60000, at_day day + snd m * 60000)"

lemma insort_key_map:
  "(\<And>x y. k x \<le> k y \<longleftrightarrow> k' (g x) \<le> (k' (g y) :: int)) \<Longrightarrow> insort_key k' (g x) (map g xs) = map g (insort_key k x xs)"
  by (induction xs) auto

lemma sort_key_map:
  assumes "\<And>x y. k x \<le> k y \<longleftrightarrow> k' (g x) \<le> (k' (g y) :: int)" shows "sort_key k' (map g xs) = map g (sort_key k xs)"
  by (induction xs) (simp_all add: insort_key_map[where g = g and k = k and k' = k', OF assms])

lemma span_build:
  assumes "checkWindow w label = []"
  shows "bounded (build_shift day (Some w))" and "span (build_shift day (Some w)) = on_day day (window_minutes w)"
proof -
  obtain fr to where c: "clockMinutes (wi_from w) = Some fr" "clockMinutes (wi_to w) = Some to"
    using assms by (rule checkWindow_clocks)
  show "bounded (build_shift day (Some w))" "span (build_shift day (Some w)) = on_day day (window_minutes w)"
    using build_shift_clocks[OF c, of day] by (simp_all add: bounded_def span_def on_day_def window_minutes_def c plus_null_def)
qed

lemma split_shift_spans:
  assumes "\<forall>w \<in> set (list_of (pa_shifts p)). checkWindow w ''shifts'' = []" and "list_of (pa_shifts p) \<noteq> []"
  shows "map span (shiftCandidates p day) = map (on_day day) (sort_key fst (map window_minutes (list_of (pa_shifts p))))"
proof -
  let ?ws = "list_of (pa_shifts p)"
  have "filter bounded (map (build_shift day \<circ> Some) ?ws) = map (build_shift day \<circ> Some) ?ws"
    using assms(1) span_build(1) by (auto simp: filter_id_conv)
  then have "shiftCandidates p day = sort_key (\<lambda>s. plus_null (so_start s)) (map (build_shift day \<circ> Some) ?ws)"
    using assms(2) by (simp add: shiftCandidates_def Let_def)
  then have "map span (shiftCandidates p day) = sort_key fst (map (span \<circ> (build_shift day \<circ> Some)) ?ws)"
    by (simp add: sort_key_map[of "\<lambda>s. plus_null (so_start s)" fst span, symmetric] span_def)
  also have "map (span \<circ> (build_shift day \<circ> Some)) ?ws = map (on_day day) (map window_minutes ?ws)"
    using assms(1) span_build(2) by auto
  also have "sort_key fst \<dots> = map (on_day day) (sort_key fst (map window_minutes ?ws))"
    by (rule sort_key_map) (simp add: on_day_def)
  finally show ?thesis .
qed

lemma touching_nth: "\<not> touching ws \<Longrightarrow> Suc i < length ws \<Longrightarrow> snd (ws ! i) \<le> fst (ws ! Suc i)"
  by (induction ws arbitrary: i rule: touching.induct) (auto simp: nth_Cons split: nat.splits)

lemma valid_shifts:
  assumes "fst (validateSchedulePattern p)" and "list_of (pa_shifts p) \<noteq> []"
  shows "(\<forall>w \<in> set (list_of (pa_shifts p)). checkWindow w ''shifts'' = []) \<and>
    (let wins = sort_key fst (map window_minutes (list_of (pa_shifts p))) in \<not> touching wins \<and> snd (last wins) \<le> fst (hd wins) + 1440)"
proof -
  have un: "pattern_errors p = []" using assms(1) by (simp add: validateSchedulePattern_def)
  then obtain e where "check_shifts p e = []" "e = []"
    unfolding pattern_errors_def Let_def append_is_Nil_conv by blast
  with assms(2) show ?thesis by (auto simp: check_shifts_def list_of_def Let_def split: option.splits if_splits)
qed

text \<open>C10. Every window of a roster that passed validation starts on its day, lasts at most a day, and a latest check-out is not
  before its end; and the windows of a split shift follow one another without overlap, the last one ending before
  the first one starts again.\<close>

theorem valid_roster_windows:
  assumes "fst (validateSchedulePattern p)"
  shows "(\<forall>s \<in> set (shiftCandidates p day). window_ok day s) \<and>
    (\<forall>i. Suc i < length (shiftCandidates p day) \<longrightarrow> list_of (pa_shifts p) \<noteq> [] \<longrightarrow>
       plus_null (so_end (shiftCandidates p day ! i)) \<le> plus_null (so_start (shiftCandidates p day ! Suc i))) \<and>
    (list_of (pa_shifts p) \<noteq> [] \<longrightarrow>
       plus_null (so_end (last (shiftCandidates p day))) \<le> plus_null (so_start (hd (shiftCandidates p (day + 1)))))"
proof (cases "list_of (pa_shifts p) = []")
  case False
  define wins where "wins = sort_key fst (map window_minutes (list_of (pa_shifts p)))"
  note v = valid_shifts[OF assms False, unfolded Let_def, folded wins_def]
  have spans: "map span (shiftCandidates p d) = map (on_day d) wins" for d
    using split_shift_spans v False by (simp add: wins_def)
  have ne: "wins \<noteq> []" using False by (simp add: wins_def) (metis length_0_conv length_map length_sort)
  have len: "length (shiftCandidates p d) = length wins" for d using spans by (metis length_map)
  have nth: "span (shiftCandidates p d ! i) = on_day d (wins ! i)" if "i < length wins" for d i
    using spans[of d] that by (metis len nth_map)
  have "plus_null (so_end (shiftCandidates p day ! i)) \<le> plus_null (so_start (shiftCandidates p day ! Suc i))"
    if "Suc i < length wins" for i
    using touching_nth[of wins i] v nth[of i day] nth[of "Suc i" day] that by (simp add: span_def on_day_def)
  moreover have "plus_null (so_end (last (shiftCandidates p day))) \<le> plus_null (so_start (hd (shiftCandidates p (day + 1))))"
  proof -
    have "span (last (shiftCandidates p day)) = on_day day (last wins)" "span (hd (shiftCandidates p (day + 1))) = on_day (day + 1) (hd wins)"
      using nth[of "length wins - 1" day] nth[of 0 "day + 1"] len ne
      by (simp_all add: last_conv_nth hd_conv_nth flip: length_greater_0_conv)
    then show ?thesis using v by (simp add: span_def on_day_def at_day_def day_ms_def algebra_simps)
  qed
  ultimately show ?thesis using valid_window[OF assms] len by simp
qed (use valid_window[OF assms] in simp)

definition sample_split :: pattern where
  "sample_split = \<lparr>pa_shift = None, pa_shifts = Some [\<lparr>wi_from = Some ''17:00'', wi_to = Some ''01:00'', wi_cutoffTime = Some ''02:30'', wi_cutoffOffset = None, wi_templateId = None\<rparr>,
       \<lparr>wi_from = Some ''08:00'', wi_to = Some ''12:00'', wi_cutoffTime = None, wi_cutoffOffset = None, wi_templateId = None\<rparr>],
     pa_rotatingShifts = None, pa_shiftByDay = None, pa_cycle = None, pa_offDays = Some [7], pa_breaks = None, pa_minRestHours = None,
     pa_maxConsecutiveDays = None, pa_maxHoursPerWeek = None, pa_paidWithoutPunches = False, pa_scheduled = None\<rparr>"

theorem valid_roster_windows_witness:
  "list_all (\<lambda>s. window_ok 20461 s) (shiftCandidates sample_split 20461) \<and>
   map span (shiftCandidates sample_split 20461) = [on_day 20461 (480, 720), on_day 20461 (1020, 1500)] \<and>
   plus_null (so_end (last (shiftCandidates sample_split 20461))) \<le> plus_null (so_start (hd (shiftCandidates sample_split (20461 + 1))))"
proof -
  have v: "fst (validateSchedulePattern sample_split)" by code_simp
  have "list_of (pa_shifts sample_split) \<noteq> []" by code_simp
  moreover have "map span (shiftCandidates sample_split 20461) = [on_day 20461 (480, 720), on_day 20461 (1020, 1500)]" by code_simp
  ultimately show ?thesis using valid_roster_windows[OF v, of 20461] by (simp add: list_all_iff)
qed

section \<open>The shift of an arrival\<close>

lemma fold_closer:
  assumes "best = None \<longrightarrow> opts \<noteq> []" "\<And>b. best = Some b \<Longrightarrow> fst b = clock_distance t (plus_null (so_start (snd b)))"
  shows "\<exists>b. fold (closer t) opts best = Some b \<and> fst b = clock_distance t (plus_null (so_start (snd b))) \<and>
    (snd b \<in> set opts \<or> best = Some b) \<and> (\<forall>s \<in> set opts. fst b \<le> clock_distance t (plus_null (so_start s))) \<and>
    (\<forall>b'. best = Some b' \<longrightarrow> fst b \<le> fst b')"
  using assms
proof (induction opts arbitrary: best)
  case (Cons s opts)
  have c: "closer t s best \<noteq> None" "\<And>b. closer t s best = Some b \<Longrightarrow> fst b = clock_distance t (plus_null (so_start (snd b)))"
    using Cons.prems by (auto simp: closer_def Let_def split: option.splits if_splits)
  obtain b where b: "fold (closer t) opts (closer t s best) = Some b" "fst b = clock_distance t (plus_null (so_start (snd b)))"
    "snd b \<in> set opts \<or> closer t s best = Some b" "\<forall>s \<in> set opts. fst b \<le> clock_distance t (plus_null (so_start s))"
    "\<forall>b'. closer t s best = Some b' \<longrightarrow> fst b \<le> fst b'"
    using Cons.IH[of "closer t s best"] c by blast
  have "fst b \<le> clock_distance t (plus_null (so_start s))" "\<forall>b'. best = Some b' \<longrightarrow> fst b \<le> fst b'"
    "snd b \<in> set (s # opts) \<or> best = Some b"
    using b(3,5) by (auto simp: closer_def Let_def split: option.splits if_splits)
  with b show ?case by simp
qed auto

text \<open>Among several windows the one whose start is nearest to the arrival on the clock is used.\<close>

theorem shiftFor_nearest:
  assumes "shiftCandidates p day \<noteq> []"
  shows "shiftFor p day (Some t) \<in> set (shiftCandidates p day) \<and>
    (\<forall>s \<in> set (shiftCandidates p day).
       clock_distance t (plus_null (so_start (shiftFor p day (Some t)))) \<le> clock_distance t (plus_null (so_start s)))"
proof -
  obtain o1 rest where c: "shiftCandidates p day = o1 # rest" using assms by (cases "shiftCandidates p day") auto
  show ?thesis
  proof (cases "rest = []")
    case True
    then show ?thesis by (simp add: shiftFor_def c)
  next
    case False
    obtain b where "fold (closer t) (o1 # rest) None = Some b" "fst b = clock_distance t (plus_null (so_start (snd b)))"
      "snd b \<in> set (o1 # rest)" "\<forall>s \<in> set (o1 # rest). fst b \<le> clock_distance t (plus_null (so_start s))"
      using fold_closer[of None "o1 # rest" t] by auto
    with False show ?thesis unfolding shiftFor_def c by simp
  qed
qed

section \<open>The next shift\<close>

definition weekly :: "pattern \<Rightarrow> bool" where
  "weekly p \<longleftrightarrow> fst (validateSchedulePattern p) \<and> pa_cycle p = None \<and> list_of (pa_rotatingShifts p) = [] \<and> pa_scheduled p \<noteq> Some False"

lemma weekly_scheduled:
  "weekly p \<Longrightarrow> scheduledShifts (Some p) day =
    (if pa_scheduled p \<noteq> Some True \<and> isoDow day \<in> set (list_of (pa_offDays p)) then [] else shiftCandidates p day)"
  by (auto simp: weekly_def scheduledShifts_def)

lemma candidates_nonempty:
  assumes "weekly p" shows "shiftCandidates p day \<noteq> []"
proof (cases "list_of (pa_shifts p) = []")
  case False
  then obtain w where w: "w \<in> set (list_of (pa_shifts p))" by (cases "list_of (pa_shifts p)") auto
  then have "w \<in> pattern_windows p" by (simp add: pattern_windows_def)
  then obtain label where "checkWindow w label = []"
    using assms pattern_errors_windows by (auto simp: weekly_def validateSchedulePattern_def)
  then have "bounded (build_shift day (Some w))" using build_shift_ok by (fastforce simp: window_ok_def bounded_def)
  with w False have "build_shift day (Some w) \<in> set (shiftCandidates p day)"
    by (simp add: shiftCandidates_def Let_def)
  then show ?thesis by auto
next
  case True
  have e: "pattern_errors p = []" using assms by (simp add: weekly_def validateSchedulePattern_def)
  from e True assms obtain w where w: "pa_shift p = Some w"
    unfolding pattern_errors_def Let_def append_is_Nil_conv by (cases "pa_shift p") (auto simp: weekly_def)
  then have "w \<in> pattern_windows p" by (simp add: pattern_windows_def)
  then obtain label where "checkWindow w label = []" using e pattern_errors_windows by blast
  then have "so_start (build_shift day (Some w)) \<noteq> None" using build_shift_ok by (fastforce simp: window_ok_def)
  with True w assms show ?thesis by (auto simp: shiftCandidates_def Let_def weekly_def split: option.splits)
qed

lemma scheduled_start:
  assumes "weekly p" and "s \<in> set (scheduledShifts (Some p) day)"
  shows "at_day day \<le> plus_null (so_start s)" and "plus_null (so_start s) < at_day (day + 1)"
proof -
  have "window_ok day s" using assms valid_window[of p s day] by (auto simp: weekly_scheduled weekly_def split: if_splits)
  then show "at_day day \<le> plus_null (so_start s)" "plus_null (so_start s) < at_day (day + 1)"
    by (auto simp: window_ok_def plus_null_def)
qed

lemma working_weekday:
  assumes "weekly p" shows "\<exists>d \<in> {day..day + 6}. scheduledShifts (Some p) d \<noteq> []"
proof -
  define ds where "ds = list_of (pa_offDays p)"
  have e: "pattern_errors p = []" using assms by (simp add: weekly_def validateSchedulePattern_def)
  then have "check_offDays (pa_offDays p) = []"
    unfolding pattern_errors_def Let_def append_is_Nil_conv by blast
  then have "length ds < 7" by (auto simp: check_offDays_def ds_def list_of_def split: option.splits if_splits)
  then have "card (set ds) < 7" using card_length[of ds] by linarith
  moreover have "isoDow ` {day..day + 6} = {1..7}"
  proof -
    have "isoDow ` {day..day + 6} \<subseteq> {1..7}" by (auto simp: isoDow_def)
    moreover have "\<exists>d \<in> {day..day + 6}. isoDow d = k" if "1 \<le> k" "k \<le> 7" for k
    proof -
      have "(day + (k - 4 - day) mod 7 + 4) mod 7 = (day + (k - 4 - day) + 4) mod 7" by (metis mod_add_left_eq mod_add_right_eq)
      then have "(day + (k - 4 - day) mod 7 + 4) mod 7 = k mod 7" by simp
      moreover have "k mod 7 = (if k = 7 then 0 else k)" using that by auto
      ultimately have "isoDow (day + (k - 4 - day) mod 7) = k" using that by (simp add: isoDow_def)
      moreover have "0 \<le> (k - 4 - day) mod 7" "(k - 4 - day) mod 7 \<le> 6" by simp_all
      ultimately show ?thesis by (intro bexI[of _ "day + (k - 4 - day) mod 7"]) auto
    qed
    ultimately show ?thesis by force
  qed
  ultimately have "\<not> isoDow ` {day..day + 6} \<subseteq> set ds"
    by (metis List.finite_set card_atLeastAtMost_int card_mono diff_add_cancel leD nat_numeral one_add_one add_diff_cancel_right')
  then obtain d where "d \<in> {day..day + 6}" "isoDow d \<notin> set ds" by blast
  then show ?thesis using candidates_nonempty[OF assms, of d] assms
    by (intro bexI[of _ d]) (auto simp: weekly_scheduled ds_def)
qed

lemma next_start_search:
  assumes "weekly p"
  shows "(case next_start_from (\<lambda>_. Some p) after day n of
     None \<Rightarrow> \<forall>d \<in> {day..<day + int n}. \<forall>s \<in> set (scheduledShifts (Some p) d). plus_null (so_start s) \<le> after
   | Some m \<Rightarrow> after < m \<and> (\<exists>d \<ge> day. \<exists>s \<in> set (scheduledShifts (Some p) d). so_start s = Some m) \<and>
       (\<forall>d \<ge> day. \<forall>s \<in> set (scheduledShifts (Some p) d). after < plus_null (so_start s) \<longrightarrow> m \<le> plus_null (so_start s)))"
proof (induction n arbitrary: day)
  case (Suc n)
  define later where "later = sort_key (\<lambda>s. plus_null (so_start s)) (filter (\<lambda>s. after < plus_null (so_start s)) (scheduledShifts (Some p) day))"
  have step: "next_start_from (\<lambda>_. Some p) after day (Suc n) =
    (case later of s # _ \<Rightarrow> so_start s | [] \<Rightarrow> next_start_from (\<lambda>_. Some p) after (day + 1) n)"
    using assms by (simp add: weekly_def later_def)
  show ?case
  proof (cases later)
    case Nil
    then have "filter (\<lambda>s. after < plus_null (so_start s)) (scheduledShifts (Some p) day) = []"
      by (simp add: later_def) (metis length_0_conv length_sort)
    then have none: "\<forall>s \<in> set (scheduledShifts (Some p) day). plus_null (so_start s) \<le> after"
      by (auto simp: filter_empty_conv)
    show ?thesis
    proof (cases "next_start_from (\<lambda>_. Some p) after (day + 1) n")
      case None
      have "d = day \<or> d \<in> {day + 1..<day + 1 + int n}" if "d \<in> {day..<day + int (Suc n)}" for d using that by auto
      moreover have "\<forall>d \<in> {day + 1..<day + 1 + int n}. \<forall>s \<in> set (scheduledShifts (Some p) d). plus_null (so_start s) \<le> after"
        using Suc.IH[of "day + 1"] by (simp add: None)
      ultimately have "\<forall>d \<in> {day..<day + int (Suc n)}. \<forall>s \<in> set (scheduledShifts (Some p) d). plus_null (so_start s) \<le> after"
        using none by blast
      then show ?thesis unfolding step Nil by (simp add: None)
    next
      case (Some m)
      have days: "d = day \<or> day + 1 \<le> d" if "day \<le> d" for d using that by linarith
      from Suc.IH[of "day + 1"] have m: "after < m" "\<exists>d \<ge> day + 1. \<exists>s \<in> set (scheduledShifts (Some p) d). so_start s = Some m"
        "\<forall>d \<ge> day + 1. \<forall>s \<in> set (scheduledShifts (Some p) d). after < plus_null (so_start s) \<longrightarrow> m \<le> plus_null (so_start s)"
        by (simp_all add: Some)
      have "\<exists>d \<ge> day. \<exists>s \<in> set (scheduledShifts (Some p) d). so_start s = Some m" 
        using m(2) by (elim exE conjE bexE) (rule exI, rule conjI[rotated], rule bexI, assumption+, simp)
      moreover have "m \<le> plus_null (so_start s)" if "day \<le> d" "s \<in> set (scheduledShifts (Some p) d)" "after < plus_null (so_start s)" for d s
        using days[OF that(1)] m(3) none that by force
      ultimately show ?thesis using m(1) unfolding step Nil by (simp add: Some)
    qed
  next
    case (Cons s rest)
    have mem: "s \<in> set later" using Cons by simp
    then have s: "s \<in> set (scheduledShifts (Some p) day)" "after < plus_null (so_start s)" by (auto simp: later_def)
    have "so_start s \<noteq> None"
      using s(1) candidate_raw assms by (auto simp: weekly_scheduled split: if_splits)
    then obtain m where m: "so_start s = Some m" by auto
    have srt: "sorted (map (\<lambda>s. plus_null (so_start s)) later)" by (simp add: later_def)
    have least: "m \<le> plus_null (so_start u)" if "u \<in> set (scheduledShifts (Some p) day)" "after < plus_null (so_start u)" for u
    proof -
      have "u \<in> set later" using that by (simp add: later_def)
      with srt m show ?thesis unfolding Cons by (auto simp: plus_null_def)
    qed
    have "m \<le> plus_null (so_start u)" if "d > day" "u \<in> set (scheduledShifts (Some p) d)" for d u
      using scheduled_start[OF assms s(1)] scheduled_start[OF assms that(2)] that(1) m
      by (simp add: plus_null_def at_day_def day_ms_def)
    with least have "\<forall>d \<ge> day. \<forall>u \<in> set (scheduledShifts (Some p) d). after < plus_null (so_start u) \<longrightarrow> m \<le> plus_null (so_start u)"
      by (metis order_le_less)
    then show ?thesis using s m unfolding step Cons by (auto simp: plus_null_def)
  qed
qed simp

declare next_start_from.simps [simp del]

text \<open>A weekly roster that passes validation always has a next shift: it starts within eight days, and it is the
  earliest scheduled one that starts later.\<close>

theorem next_shift_found:
  assumes "weekly p" and "so_start s = Some t"
  shows "\<exists>n. nextShiftStart (\<lambda>_. Some p) s = Some n \<and> t < n \<and> n \<le> t + 8 * day_ms \<and>
    (\<forall>day. \<forall>u \<in> set (scheduledShifts (Some p) day). plus_null (so_start u) \<le> t \<or> n \<le> plus_null (so_start u))"
proof -
  define d0 where "d0 = t div day_ms"
  have d0: "at_day d0 \<le> t" "t < at_day (d0 + 1)" unfolding d0_def at_day_def day_ms_def by simp_all
  note found = next_start_search[where after = t and day = d0 and n = 371, OF assms(1)]
  obtain d where d: "d \<in> {d0 + 1..d0 + 1 + 6}" "scheduledShifts (Some p) d \<noteq> []"
    using working_weekday[OF assms(1), of "d0 + 1"] by blast
  then obtain u where u: "u \<in> set (scheduledShifts (Some p) d)" by (cases "scheduledShifts (Some p) d") auto
  have ut: "t < plus_null (so_start u)" "plus_null (so_start u) \<le> t + 8 * day_ms"
    using scheduled_start[OF assms(1) u] d d0 by (auto simp: at_day_def day_ms_def)
  have "nextShiftStart (\<lambda>_. Some p) s = next_start_from (\<lambda>_. Some p) t d0 371" by (simp add: nextShiftStart_def assms(2) d0_def del: next_start_from.simps)
  moreover have "next_start_from (\<lambda>_. Some p) t d0 371 \<noteq> None"
  proof
    assume "next_start_from (\<lambda>_. Some p) t d0 371 = None"
    with found have "\<forall>d \<in> {d0..<d0 + int 371}. \<forall>s \<in> set (scheduledShifts (Some p) d). plus_null (so_start s) \<le> t" by simp
    moreover have "d \<in> {d0..<d0 + int 371}" using d(1) by simp
    ultimately show False using u ut(1) by fastforce
  qed
  then obtain n where n: "next_start_from (\<lambda>_. Some p) t d0 371 = Some n" by blast
  with found have n_spec: "t < n" "\<forall>d \<ge> d0. \<forall>s \<in> set (scheduledShifts (Some p) d). t < plus_null (so_start s) \<longrightarrow> n \<le> plus_null (so_start s)"
    by simp_all
  moreover have "n \<le> t + 8 * day_ms"
  proof -
    have "d0 \<le> d" using d(1) by simp
    then have "n \<le> plus_null (so_start u)" using n_spec(2) u ut(1) by blast
    with ut(2) show ?thesis by linarith
  qed
  moreover have "plus_null (so_start v) \<le> t" if "day < d0" "v \<in> set (scheduledShifts (Some p) day)" for day v
    using scheduled_start(2)[OF assms(1) that(2)] that(1) d0 by (simp add: at_day_def day_ms_def)
  ultimately show ?thesis using n by (metis not_le)
qed

definition sample_window :: "string \<Rightarrow> string \<Rightarrow> window_spec" where
  "sample_window a b = \<lparr>wi_from = Some a, wi_to = Some b, wi_cutoffTime = Some ''07:30'', wi_cutoffOffset = None, wi_templateId = None\<rparr>"

definition sample_pattern :: pattern where
  "sample_pattern = \<lparr>pa_shift = Some (sample_window ''22:00'' ''06:00''), pa_shifts = None, pa_rotatingShifts = None,
     pa_shiftByDay = None, pa_cycle = None, pa_offDays = Some [6, 7], pa_breaks = None, pa_minRestHours = None,
     pa_maxConsecutiveDays = None, pa_maxHoursPerWeek = None, pa_paidWithoutPunches = False, pa_scheduled = None\<rparr>"

lemma sample_weekly: "weekly sample_pattern"
  by code_simp

theorem next_shift_found_witness:
  "\<exists>n. nextShiftStart (\<lambda>_. Some sample_pattern) \<lparr>so_start = Some (at_day 20461 + 79200000), so_end = None, so_checkoutCutoff = None, so_templateId = None\<rparr> = Some n \<and>
     at_day 20461 + 79200000 < n \<and> n \<le> at_day 20461 + 79200000 + 8 * day_ms"
  using next_shift_found[OF sample_weekly, of "\<lparr>so_start = Some (at_day 20461 + 79200000), so_end = None, so_checkoutCutoff = None, so_templateId = None\<rparr>"]
  by auto

definition rotating_pattern :: pattern where
  "rotating_pattern = sample_pattern\<lparr>pa_shift := None, pa_rotatingShifts := Some [sample_window ''08:00'' ''16:00'', sample_window ''22:00'' ''06:00'']\<rparr>"

theorem shiftFor_nearest_witness:
  "shiftFor rotating_pattern 20461 (Some (at_day 20462 + 600000)) = build_shift 20461 (Some (sample_window ''22:00'' ''06:00'')) \<and>
   clock_distance (at_day 20462 + 600000) (at_day 20461 + 79200000) \<le> clock_distance (at_day 20462 + 600000) (at_day 20461 + 28800000)"
proof -
  have c: "shiftCandidates rotating_pattern 20461 \<noteq> []" by code_simp
  have "build_shift 20461 (Some (sample_window ''08:00'' ''16:00'')) \<in> set (shiftCandidates rotating_pattern 20461)"
    "plus_null (so_start (build_shift 20461 (Some (sample_window ''08:00'' ''16:00'')))) = at_day 20461 + 28800000" by code_simp+
  moreover have "shiftFor rotating_pattern 20461 (Some (at_day 20462 + 600000)) = build_shift 20461 (Some (sample_window ''22:00'' ''06:00''))"
    "plus_null (so_start (build_shift 20461 (Some (sample_window ''22:00'' ''06:00'')))) = at_day 20461 + 79200000"
    by code_simp+
  ultimately show ?thesis using shiftFor_nearest[OF c, of "at_day 20462 + 600000"] by fastforce
qed

text \<open>A cycle whose every position is a rest position passes validation, though no day of it is worked.\<close>

definition resting_pattern :: pattern where
  "resting_pattern = sample_pattern\<lparr>pa_cycle := Some \<lparr>cy_days = 2, cy_anchor = 20454, cy_offIndex = Some (OffMany [0, 1]), cy_sequence = None\<rparr>\<rparr>"

lemma resting_pattern_valid: "fst (validateSchedulePattern resting_pattern)"
  by code_simp

end
