(* ===== verification/WorkingDay.thy ===== *)
theory WorkingDay
  imports Roster Proration
begin

text \<open>
  What a day is for an employee: \<^verbatim>\<open>resolveEmployeeDay\<close> of \<^verbatim>\<open>src/src/lib/attendanceSetup.js\<close>, the one resolver that
  attendance, leave and payroll share, with the profile in force; the releases it reads its configuration from
  (\<^verbatim>\<open>src/src/lib/attendanceRuntime.js\<close>); and the days of a range (\<^verbatim>\<open>src/src/services/workingDay.service.js\<close>).
  Civil dates are day numbers. A policy is a map from its field names; the lists of sites, which are copied
  from the configuration into the result, are left out.
\<close>

section \<open>Rows in force\<close>

definition covers :: "int \<Rightarrow> int option \<Rightarrow> int \<Rightarrow> bool" where
  "covers fr to day \<longleftrightarrow> fr \<le> day \<and> (case to of None \<Rightarrow> True | Some e \<Rightarrow> day \<le> e)"

record spell =
  sp_employeeId :: int
  sp_from :: int
  sp_to :: "int option"

definition in_force :: "int \<Rightarrow> int \<Rightarrow> ('a) spell_scheme \<Rightarrow> bool" where
  "in_force employee day row \<longleftrightarrow> sp_employeeId row = employee \<and> covers (sp_from row) (sp_to row) day"

record employee_row =
  em_id :: int
  em_start :: "int option"
  em_status :: string
  em_payroll_included :: "bool option"
  em_payrollOffice :: "string option"
  em_attendanceInputMode :: "string option"

definition is_infix :: "string \<Rightarrow> string \<Rightarrow> bool" where
  "is_infix p s \<longleftrightarrow> list_ex (\<lambda>i. take (length p) (drop i s) = p) [0..<Suc (length s)]"

definition employedOn :: "employee_row \<Rightarrow> spell list \<Rightarrow> int \<Rightarrow> bool" where
  "employedOn e periods day \<longleftrightarrow>
    (let spells = filter (\<lambda>p. sp_employeeId p = em_id e) periods in
     if spells \<noteq> [] then list_ex (\<lambda>p. covers (sp_from p) (sp_to p) day) spells
     else \<not> (is_infix ''inactive'' (js_toLower (em_status e)) \<or> is_infix ''terminated'' (js_toLower (em_status e))) \<and>
       (case em_start e of None \<Rightarrow> True | Some s \<Rightarrow> s \<le> day))"

section \<open>Configuration\<close>

record 'p attendance_profile =
  pf_id :: string
  pf_name :: string
  pf_office :: "string option"
  pf_policy :: "string \<Rightarrow> 'p option"
  pf_mode :: "string option"
  pf_calendarId :: "int option"

record profile_assignment = spell +
  pa_profileId :: string

record schedule_row = spell +
  sc_id :: int
  sc_pattern :: pattern

record calendar_assignment = spell +
  cb_calendarId :: int

record enrolment = spell +
  en_sn :: string
  en_isPrimary :: bool

record calendar =
  ca_id :: int
  ca_year :: "int option"

record holiday =
  ho_calendarId :: int
  ho_date :: int
  ho_name :: string
  ho_fullDay :: "bool option"
  ho_startTime :: "string option"
  ho_endTime :: "string option"

record shift_assignment =
  sa_employeeId :: int
  sa_date :: int
  sa_fromTime :: "string option"
  sa_toTime :: "string option"
  sa_status :: "string option"
  sa_templateId :: "int option"
  sa_checkoutCutoffTime :: "string option"
  sa_checkoutCutoffDayOffset :: "int option"

record 'p attendance_config =
  cf_version :: "int option"
  cf_profiles :: "'p attendance_profile list"
  cf_assignments :: "profile_assignment list"
  cf_defaultCalendarId :: "int option"
  cf_policy :: "string \<Rightarrow> 'p option"
  cf_employees :: "employee_row list"
  cf_periods :: "spell list"
  cf_schedules :: "schedule_row list"
  cf_calendarAssignments :: "calendar_assignment list"
  cf_calendars :: "calendar list"
  cf_holidays :: "holiday list"
  cf_enrolments :: "enrolment list"

record 'p effective_profile =
  ef_profileId :: "string option"
  ef_profileName :: string
  ef_policy :: "string \<Rightarrow> 'p option"
  ef_mode :: string
  ef_calendarId :: "int option"
  ef_source :: string

definition effectiveProfile :: "'p attendance_config \<Rightarrow> employee_row \<Rightarrow> int \<Rightarrow> hr_error + 'p effective_profile" where
  "effectiveProfile config e day =
    (let explicit = filter (in_force (em_id e) day) (cf_assignments config);
       profiles = (case explicit of
           a # _ \<Rightarrow> filter (\<lambda>p. pf_id p = pa_profileId a) (cf_profiles config)
         | [] \<Rightarrow> filter (\<lambda>p. truthy_text (pf_office p) \<and> pf_office p = em_payrollOffice e) (cf_profiles config))
     in rbind (ensure (\<not> (1 < length explicit \<or> 1 < length profiles)) (AppError 409 ''Conflicting policy profiles'')) (\<lambda>_.
       let profile = (case profiles of [] \<Rightarrow> None | p # _ \<Rightarrow> Some p);
         own_mode = Option.bind profile pf_mode
       in Inr \<lparr>ef_profileId = map_option pf_id profile,
           ef_profileName = (case profile of None \<Rightarrow> ''Tenant default'' | Some p \<Rightarrow> pf_name p),
           ef_policy = (case profile of None \<Rightarrow> cf_policy config | Some p \<Rightarrow> cf_policy config ++ pf_policy p),
           ef_mode = (if truthy_text own_mode then the own_mode
             else if truthy_text (em_attendanceInputMode e) then the (em_attendanceInputMode e) else ''DEVICE''),
           ef_calendarId = (case Option.bind profile pf_calendarId of Some c \<Rightarrow> Some c | None \<Rightarrow> cf_defaultCalendarId config),
           ef_source = (if explicit \<noteq> [] then ''Employee assignment'' else if profile \<noteq> None then ''Office group'' else ''Tenant default'')\<rparr>))"

section \<open>The day of an employee\<close>

record day_shift = roster_shift +
  ds_templateId :: "int option"

record 'p day_info =
  di_date :: int
  di_profile :: "'p effective_profile option"
  di_primarySn :: "string option"
  di_setupVersion :: "int option"
  di_working :: "bool option"
  di_reason :: "string option"
  di_pattern :: "pattern option"
  di_shift :: "day_shift option"
  di_holidayName :: "string option"
  di_calendarStatus :: "string option"
  di_calendarIds :: "int list"
  di_rotating :: bool
  di_rosterId :: "int option"

text \<open>What the caller adds to the configuration: the overrides of the day, leave and call-ins as day spans, the arrival.\<close>

record day_context =
  dc_assignments :: "shift_assignment list"
  dc_leaves :: "(int \<times> int) list"
  dc_callIns :: "int list"
  dc_anchor :: "int option"
  dc_forLeave :: bool

definition on_leave :: "day_context \<Rightarrow> int \<Rightarrow> bool" where
  "on_leave ctx day \<longleftrightarrow> list_ex (\<lambda>l. covers (fst l) (Some (snd l)) day) (dc_leaves ctx)"

definition as_day_shift :: "shift_option \<Rightarrow> window list \<Rightarrow> window list \<Rightarrow> day_shift" where
  "as_day_shift s exclusions paidBreaks =
    \<lparr>sh_start = so_start s, sh_end = so_end s, sh_exclusions = exclusions, sh_paidBreaks = paidBreaks,
     sh_nextShiftStart = None, sh_checkoutCutoff = so_checkoutCutoff s, ds_templateId = so_templateId s\<rparr>"

definition assigned_times :: "shift_assignment option \<Rightarrow> bool" where
  "assigned_times a = (case a of None \<Rightarrow> False | Some a \<Rightarrow> truthy_text (sa_fromTime a) \<and> truthy_text (sa_toTime a))"

definition day_pattern :: "pattern \<Rightarrow> shift_assignment option \<Rightarrow> pattern" where
  "day_pattern original a =
    (case a of None \<Rightarrow> original
     | Some s \<Rightarrow>
         if assigned_times a then original\<lparr>
           pa_shift := Some \<lparr>wi_from = sa_fromTime s, wi_to = sa_toTime s, wi_cutoffTime = sa_checkoutCutoffTime s,
             wi_cutoffOffset = sa_checkoutCutoffDayOffset s, wi_templateId = sa_templateId s\<rparr>,
           pa_rotatingShifts := None, pa_shifts := None, pa_shiftByDay := None, pa_cycle := None, pa_offDays := Some []\<rparr>
         else original)"

definition plain_pattern :: "window_spec \<Rightarrow> pattern" where
  "plain_pattern w = \<lparr>pa_shift = Some w, pa_shifts = None, pa_rotatingShifts = None, pa_shiftByDay = None, pa_cycle = None,
     pa_offDays = None, pa_breaks = None, pa_minRestHours = None, pa_maxConsecutiveDays = None, pa_maxHoursPerWeek = None,
     pa_paidWithoutPunches = False, pa_scheduled = None\<rparr>"

definition window_of :: "window_spec \<Rightarrow> int \<Rightarrow> int option \<times> int option" where
  "window_of w day = (let s = shiftFor (plain_pattern w) day None in (so_start s, so_end s))"

definition holiday_window :: "holiday \<Rightarrow> int option \<times> int option" where
  "holiday_window h = window_of \<lparr>wi_from = ho_startTime h, wi_to = ho_endTime h, wi_cutoffTime = None, wi_cutoffOffset = None,
     wi_templateId = None\<rparr> (ho_date h)"

text \<open>A break before the start of an overnight shift belongs to the next day.\<close>

definition breakWindow :: "shift_option \<Rightarrow> int \<Rightarrow> break_spec \<Rightarrow> int option \<times> int option" where
  "breakWindow shift day b =
    (let w = window_of (window_spec.truncate b) day in
     if (case so_end shift of None \<Rightarrow> False | Some e \<Rightarrow> day < keyDate e) \<and> plus_null (snd w) \<le> plus_null (so_start shift)
     then (Some (plus_null (fst w) + day_ms), Some (plus_null (snd w) + day_ms)) else w)"

definition both_ends :: "(int option \<times> int option) list \<Rightarrow> window list" where
  "both_ends ws = map (\<lambda>w. (plus_null (fst w), plus_null (snd w))) (filter (\<lambda>w. fst w \<noteq> None \<and> snd w \<noteq> None) ws)"

text \<open>A partial holiday at an edge of the shift moves that edge.\<close>

definition trim_step :: "int option \<times> int option \<Rightarrow> int option \<times> int option \<Rightarrow> int option \<times> int option" where
  "trim_step h st =
    (let s = fst st; e = snd st;
       s' = (if plus_null (fst h) \<le> plus_null s \<and> plus_null s < plus_null (snd h) then Some (min (plus_null e) (plus_null (snd h))) else s);
       e' = (if plus_null e \<le> plus_null (snd h) \<and> plus_null (fst h) < plus_null e then Some (max (plus_null s') (plus_null (fst h))) else e)
     in (s', e'))"

definition cycle_off :: "pattern \<Rightarrow> int \<Rightarrow> bool" where
  "cycle_off original day =
    (case pa_cycle original of None \<Rightarrow> False
     | Some c \<Rightarrow>
         (case cy_sequence c of
            Some sq \<Rightarrow> (case list_at sq (cycle_index c day) of Some (Some _) \<Rightarrow> False | _ \<Rightarrow> True)
          | None \<Rightarrow> cycle_index c day \<in> set (off_indices c)))"

definition fixedDayNightOff :: "pattern \<Rightarrow> bool" where
  "fixedDayNightOff p \<longleftrightarrow> length (list_of (pa_rotatingShifts p)) = 2 \<and>
    (case pa_cycle p of None \<Rightarrow> False | Some c \<Rightarrow> cy_days c = 3 \<and> (case cy_offIndex c of Some (OffOne _) \<Rightarrow> True | _ \<Rightarrow> False))"

text \<open>Whether the day is worked, and why not: leave, then a call-in, then a holiday, then rest.\<close>

definition day_verdict :: "bool \<Rightarrow> bool \<Rightarrow> bool \<Rightarrow> string option \<Rightarrow> bool \<Rightarrow> bool \<Rightarrow> bool \<Rightarrow> bool \<Rightarrow> bool \<times> string option" where
  "day_verdict onLeave calledIn holiday status off cycleOff assignedWork paidNoPunch =
    (if onLeave then (False, Some ''APPROVED_LEAVE'')
     else if calledIn then (True, Some ''ON_CALL'')
     else if holiday \<or> status = Some ''holiday'' then (False, Some ''HOLIDAY'')
     else if status = Some ''off'' \<or> (off \<and> \<not> assignedWork) then
       (False, Some (if cycleOff \<and> status \<noteq> Some ''off'' then ''ROTATION_OFF'' else ''OFF_DAY''))
     else (True, if paidNoPunch then Some ''PAID_NO_PUNCH'' else None))"

definition base_info :: "'p attendance_config \<Rightarrow> employee_row \<Rightarrow> int \<Rightarrow> 'p effective_profile \<Rightarrow> 'p day_info" where
  "base_info config e day profile =
    (let primary = filter (\<lambda>r. in_force (em_id e) day r \<and> en_isPrimary r) (cf_enrolments config) in
     \<lparr>di_date = day, di_profile = Some profile,
      di_primarySn = (case primary of [r] \<Rightarrow> Some (en_sn r) | _ \<Rightarrow> None), di_setupVersion = cf_version config,
      di_working = None, di_reason = None, di_pattern = None, di_shift = None, di_holidayName = None, di_calendarStatus = None,
      di_calendarIds = [], di_rotating = False, di_rosterId = None\<rparr>)"

definition calendar_ids :: "'p attendance_config \<Rightarrow> employee_row \<Rightarrow> int \<Rightarrow> 'p effective_profile \<Rightarrow> int list" where
  "calendar_ids config e day profile =
    (let bindings = filter (in_force (em_id e) day) (cf_calendarAssignments config) in
     if bindings \<noteq> [] then map cb_calendarId bindings
     else case ef_calendarId profile of None \<Rightarrow> [] | Some c \<Rightarrow> if c = 0 then [] else [c])"

definition calendars_known :: "'p attendance_config \<Rightarrow> int \<Rightarrow> int list \<Rightarrow> bool" where
  "calendars_known config day ids \<longleftrightarrow> ids \<noteq> [] \<and>
    list_all (\<lambda>id. list_ex (\<lambda>c. ca_id c = id \<and> (ca_year c = None \<or> ca_year c = Some (fst (civil_from_days day)))) (cf_calendars config)) ids"

definition day_holidays :: "'p attendance_config \<Rightarrow> int \<Rightarrow> int list \<Rightarrow> holiday list" where
  "day_holidays config day ids = filter (\<lambda>h. ho_calendarId h \<in> set ids \<and> ho_date h = day) (cf_holidays config)"

definition full_holiday :: "holiday list \<Rightarrow> holiday option" where
  "full_holiday hs = find (\<lambda>h. ho_fullDay h \<noteq> Some False) hs"

text \<open>The part of the resolver after the roster, its pattern and the calendars are known.\<close>

definition resolve_known :: "'p day_info \<Rightarrow> 'p effective_profile \<Rightarrow> schedule_row \<Rightarrow> shift_assignment option \<Rightarrow> pattern \<Rightarrow>
    shift_option \<Rightarrow> int list \<Rightarrow> holiday list \<Rightarrow> bool \<Rightarrow> bool \<Rightarrow> 'p day_info" where
  "resolve_known base profile roster assignment pattern shift ids holidays onLeave calledIn =
    (let day = di_date base; original = sc_pattern roster; status = Option.bind assignment sa_status;
       holiday = full_holiday holidays;
       cycleOff = cycle_off original day;
       off = (isoDow day \<in> set (list_of (pa_offDays original)) \<or> cycleOff);
       assignedWork = (status = Some ''on_shift'' \<and> assigned_times assignment);
       verdict = day_verdict onLeave calledIn (holiday \<noteq> None) status off cycleOff assignedWork
         (ef_mode profile = ''PAID_NO_PUNCH'' \<or> pa_paidWithoutPunches pattern);
       excused = (if calledIn then [] else map holiday_window (filter (\<lambda>h. ho_fullDay h = Some False) holidays));
       breaks = map (breakWindow shift day) (filter (\<lambda>b. \<not> br_paid b) (list_of (pa_breaks pattern)));
       paidBreaks = map (breakWindow shift day) (filter br_paid (list_of (pa_breaks pattern)));
       edges = fold trim_step excused (so_start shift, so_end shift);
       empty = (fst verdict \<and> (case edges of (Some s, Some e) \<Rightarrow> e \<le> s | _ \<Rightarrow> False))
     in base\<lparr>di_working := Some (fst verdict \<and> \<not> empty), di_reason := (if empty then Some ''HOLIDAY'' else snd verdict),
          di_pattern := Some pattern,
          di_shift := Some (as_day_shift (shift\<lparr>so_start := fst edges, so_end := snd edges\<rparr>) (both_ends (excused @ breaks))
             (map (\<lambda>w. (plus_null (fst w), plus_null (snd w))) paidBreaks)),
          di_holidayName := map_option ho_name holiday,
          di_calendarStatus := (if holiday \<noteq> None \<or> status = Some ''holiday'' then Some ''HOLIDAY''
             else if off \<or> status = Some ''off'' then Some ''WEEKLY_OFF'' else None),
          di_calendarIds := ids,
          di_rotating := (1 < length (list_of (pa_rotatingShifts pattern)) \<and> Option.bind (pa_cycle original) cy_sequence = None \<and>
             \<not> fixedDayNightOff pattern),
          di_rosterId := Some (sc_id roster)\<rparr>)"

definition resolveEmployeeDay :: "'p attendance_config \<Rightarrow> employee_row \<Rightarrow> int \<Rightarrow> day_context \<Rightarrow> hr_error + 'p day_info" where
  "resolveEmployeeDay config e day ctx =
    rbind (effectiveProfile config e day) (\<lambda>profile.
    let base = base_info config e day profile in
    if \<not> employedOn e (cf_periods config) day \<or> em_payroll_included e = Some False then
      Inr (base\<lparr>di_working := Some False, di_reason := Some ''NOT_ELIGIBLE''\<rparr>)
    else if ef_mode profile = ''MANUAL_MONTHLY'' \<and> \<not> dc_forLeave ctx then
      Inr (base\<lparr>di_working := Some False, di_reason := Some ''MANUAL_MONTHLY''\<rparr>)
    else
      let rosters = filter (in_force (em_id e) day) (cf_schedules config);
        overrides = filter (\<lambda>a. sa_employeeId a = em_id e \<and> sa_date a = day) (dc_assignments ctx)
      in (case rosters of
            [roster] \<Rightarrow>
              if 1 < length overrides then Inr (base\<lparr>di_reason := Some ''CONFLICTING_ROSTER''\<rparr>)
              else
                let assignment = (case overrides of [] \<Rightarrow> None | a # _ \<Rightarrow> Some a);
                  pattern = day_pattern (sc_pattern roster) assignment
                in if \<not> fst (validateSchedulePattern pattern) then Inr (base\<lparr>di_reason := Some ''INVALID_ROSTER''\<rparr>)
                   else
                     let shift = shiftFor pattern day (dc_anchor ctx); ids = calendar_ids config e day profile
                     in if \<not> calendars_known config day ids then
                          Inr (base\<lparr>di_pattern := Some pattern, di_shift := Some (as_day_shift shift [] []), di_reason := Some ''MISSING_CALENDAR''\<rparr>)
                        else Inr (resolve_known base profile roster assignment pattern shift ids (day_holidays config day ids)
                          (on_leave ctx day) (day \<in> set (dc_callIns ctx)))
          | _ \<Rightarrow> Inr (base\<lparr>di_reason := Some (if 1 < length rosters \<or> 1 < length overrides then ''CONFLICTING_ROSTER'' else ''MISSING_ROSTER'')\<rparr>)))"

section \<open>Releases and ranges\<close>

record 'p release =
  re_version :: int
  re_effectiveFrom :: int
  re_coverageThrough :: int
  re_config :: "'p attendance_config"

record 'p attendance_db =
  db_releases :: "'p release list"
  db_assignments :: "shift_assignment list"
  db_leaves :: "(int \<times> int \<times> int) list"
  db_leaveRequests :: "(int \<times> int \<times> int) list"
  db_callIns :: "(int \<times> int) list"
  db_workSchedules :: "schedule_row list"

text \<open>\<open>releases\<close> are the ones that took effect by the end of the range, the latest first.\<close>

definition releases_by :: "int \<Rightarrow> 'p attendance_db \<Rightarrow> 'p release list" where
  "releases_by last_day db =
    sort_key (\<lambda>r. (- re_effectiveFrom r, - re_version r)) (filter (\<lambda>r. re_effectiveFrom r \<le> last_day) (db_releases db))"

definition configOn :: "'p release list \<Rightarrow> int \<Rightarrow> 'p attendance_config option" where
  "configOn releases day =
    (case find (\<lambda>r. re_effectiveFrom r \<le> day) releases of
       None \<Rightarrow> None
     | Some r \<Rightarrow> if day \<le> re_coverageThrough r then Some (re_config r) else None)"

definition published_employee :: "'p release list \<Rightarrow> int option \<Rightarrow> int \<Rightarrow> employee_row option" where
  "published_employee releases version employee =
    Option.bind version (\<lambda>v. Option.bind (find (\<lambda>r. re_version r = v) (rev releases))
      (\<lambda>r. find (\<lambda>e. em_id e = employee) (rev (cf_employees (re_config r)))))"

definition live_rosters :: "bool \<Rightarrow> int \<Rightarrow> int \<Rightarrow> 'p attendance_db \<Rightarrow> int \<Rightarrow> schedule_row list" where
  "live_rosters enabled first_day last_day db employee =
    (if enabled then filter (\<lambda>r. sp_employeeId r = employee \<and> sp_from r \<le> last_day \<and>
        (case sp_to r of None \<Rightarrow> True | Some e \<Rightarrow> first_day \<le> e)) (db_workSchedules db) else [])"

definition employee_config :: "schedule_row list \<Rightarrow> int \<Rightarrow> 'p attendance_config \<Rightarrow> 'p attendance_config" where
  "employee_config own employee config = config\<lparr>
     cf_periods := filter (\<lambda>r. sp_employeeId r = employee) (cf_periods config),
     cf_schedules := (if own \<noteq> [] then filter (\<lambda>r. sp_employeeId r \<noteq> employee) (cf_schedules config) @ own
        else filter (\<lambda>r. sp_employeeId r = employee) (cf_schedules config)),
     cf_calendarAssignments := filter (\<lambda>r. sp_employeeId r = employee) (cf_calendarAssignments config)\<rparr>"

definition not_published :: "int \<Rightarrow> 'p attendance_config option \<Rightarrow> 'p day_info" where
  "not_published day config =
    \<lparr>di_date = day, di_profile = None, di_primarySn = None, di_setupVersion = Option.bind config cf_version, di_working = None,
     di_reason = Some (if config \<noteq> None then ''EMPLOYEE_NOT_PUBLISHED'' else ''SETUP_NOT_PUBLISHED''), di_pattern = None,
     di_shift = None, di_holidayName = None, di_calendarStatus = None, di_calendarIds = [], di_rotating = False, di_rosterId = None\<rparr>"

definition runtime_context :: "bool \<Rightarrow> int \<Rightarrow> int \<Rightarrow> 'p attendance_db \<Rightarrow> int \<Rightarrow> int \<Rightarrow> int option \<Rightarrow> day_context" where
  "runtime_context ignoreLeaves first_day last_day db employee day anchor =
    \<lparr>dc_assignments = filter (\<lambda>a. first_day \<le> sa_date a \<and> sa_date a \<le> last_day \<and> sa_employeeId a = employee \<and> sa_date a = day) (db_assignments db),
     dc_leaves = (if ignoreLeaves then []
       else map snd (filter (\<lambda>(em, s, e). em = employee \<and> s \<le> last_day \<and> first_day \<le> e) (db_leaves db @ db_leaveRequests db))),
     dc_callIns = map snd (filter (\<lambda>(em, d). em = employee \<and> first_day \<le> d \<and> d \<le> last_day) (db_callIns db)),
     dc_anchor = anchor, dc_forLeave = ignoreLeaves\<rparr>"

definition runtime_resolve :: "bool \<Rightarrow> bool \<Rightarrow> int \<Rightarrow> int \<Rightarrow> 'p attendance_db \<Rightarrow> int \<Rightarrow> int \<Rightarrow> int option \<Rightarrow> hr_error + 'p day_info" where
  "runtime_resolve liveEnabled ignoreLeaves first_day last_day db employee day anchor =
    (let releases = releases_by last_day db; config = configOn releases day in
     case Option.bind config (\<lambda>c. map_option (Pair c) (published_employee releases (cf_version c) employee)) of
       None \<Rightarrow> Inr (not_published day config)
     | Some (c, e) \<Rightarrow>
         resolveEmployeeDay (employee_config (live_rosters liveEnabled first_day last_day db employee) employee c) e day
           (runtime_context ignoreLeaves first_day last_day db employee day anchor))"

definition dateRange :: "int \<Rightarrow> int \<Rightarrow> int \<Rightarrow> hr_error + int list" where
  "dateRange first_day last_day maxDays =
    rbind (ensure (\<not> (last_day < first_day \<or> maxDays \<le> last_day - first_day)) (AppError 400 ''Choose an ordered date range'')) (\<lambda>_.
      Inr (map (\<lambda>i. first_day + int i) [0..<nat (last_day - first_day + 1)]))"

definition resolveWorkingDays :: "bool \<Rightarrow> bool \<Rightarrow> 'p attendance_db \<Rightarrow> int \<Rightarrow> int \<Rightarrow> int \<Rightarrow> hr_error + (int \<times> 'p day_info) list" where
  "resolveWorkingDays liveEnabled ignoreLeaves db employee first_day last_day =
    rbind (dateRange first_day last_day 370) (\<lambda>days.
      rmap (\<lambda>day. rbind (runtime_resolve liveEnabled ignoreLeaves first_day last_day db employee day None) (\<lambda>info. Inr (day, info))) days)"

section \<open>Partial holidays\<close>

text \<open>\<open>trimmed X st st'\<close>: an edge only moved over instants of \<open>X\<close>.\<close>

definition trimmed :: "int set \<Rightarrow> int option \<times> int option \<Rightarrow> int option \<times> int option \<Rightarrow> bool" where
  "trimmed X st st' \<longleftrightarrow> (\<exists>a b a' b'. st = (Some a, Some b) \<and> st' = (Some a', Some b') \<and> a \<le> a' \<and> a' \<le> b' \<and> b' \<le> b \<and>
     {a..<b} - X = {a'..<b'} - X)"

definition instants :: "int option \<times> int option \<Rightarrow> int set" where
  "instants w = (case fst w of None \<Rightarrow> {} | Some s \<Rightarrow> (case snd w of None \<Rightarrow> {} | Some e \<Rightarrow> {s..<e}))"

definition proper :: "int option \<times> int option \<Rightarrow> bool" where
  "proper w \<longleftrightarrow> (case fst w of None \<Rightarrow> snd w = None | Some s \<Rightarrow> 0 < s)"

lemma trim_step_trimmed:
  assumes "0 < a" "a \<le> b" "proper h"
  shows "trimmed (instants h) (Some a, Some b) (trim_step h (Some a, Some b))"
proof (cases "fst h = None \<or> snd h = None")
  case True
  then have "trim_step h (Some a, Some b) = (Some a, Some b)"
    using assms by (auto simp: trim_step_def Let_def plus_null_def proper_def split: option.splits)
  then show ?thesis using assms(2) by (simp add: trimmed_def)
next
  case False
  then obtain s e where h: "h = (Some s, Some e)" by (cases h) auto
  define a' where "a' = (if s \<le> a \<and> a < e then min b e else a)"
  define b' where "b' = (if b \<le> e \<and> s < b then max a' s else b)"
  have "trim_step h (Some a, Some b) = (Some a', Some b')"
    by (simp add: trim_step_def Let_def h plus_null_def a'_def b'_def)
  moreover have "a \<le> a'" "a' \<le> b'" "b' \<le> b" using assms(2) by (auto simp: a'_def b'_def)
  moreover have "{a..<b} - {s..<e} = {a'..<b'} - {s..<e}" using assms(2) by (auto simp: a'_def b'_def)
  ultimately show ?thesis by (simp add: trimmed_def instants_def h)
qed

lemma trimmed_trans: "trimmed X st st' \<Longrightarrow> trimmed Y st' st'' \<Longrightarrow> trimmed (X \<union> Y) st st''"
  unfolding trimmed_def by fastforce

lemma trimmed_mono: "trimmed X st st' \<Longrightarrow> X \<subseteq> Y \<Longrightarrow> trimmed Y st st'"
  unfolding trimmed_def by blast

lemma fold_trim:
  assumes "0 < a" "a \<le> b" "list_all proper hs"
  shows "trimmed (\<Union>(instants ` set hs)) (Some a, Some b) (fold trim_step hs (Some a, Some b))"
  using assms
proof (induction hs arbitrary: a b)
  case (Cons h hs)
  have t: "trimmed (instants h) (Some a, Some b) (trim_step h (Some a, Some b))"
    using Cons.prems by (intro trim_step_trimmed) auto
  then obtain a' b' where e: "trim_step h (Some a, Some b) = (Some a', Some b')" and le: "a \<le> a'" "a' \<le> b'"
    unfolding trimmed_def by auto
  have "trimmed (\<Union>(instants ` set hs)) (Some a', Some b') (fold trim_step hs (Some a', Some b'))"
    using Cons.prems le by (intro Cons.IH) auto
  from trimmed_trans[OF t[unfolded e] this] show ?case by (simp add: e)
qed (simp add: trimmed_def)

lemma both_ends_instants: "\<Union>(instants ` set ws) \<subseteq> covered (both_ends ws)"
proof
  fix x assume "x \<in> \<Union>(instants ` set ws)"
  then obtain s e where "(Some s, Some e) \<in> set ws" "s \<le> x" "x < e"
    by (fastforce simp: instants_def split: option.splits)
  moreover from this have "(s, e) \<in> set (both_ends ws)" by (force simp: both_ends_def plus_null_def)
  ultimately show "x \<in> covered (both_ends ws)" by (force simp: covered_def)
qed

lemma clock_prefix_nonneg: "clock_prefix s = Some (h, m) \<Longrightarrow> 0 \<le> h \<and> 0 \<le> m"
  by (cases s rule: clock_prefix.cases) (auto split: if_splits list.splits)

lemma window_of_proper:
  assumes "0 < day" shows "proper (window_of w day)"
proof -
  have "shiftCandidates (plain_pattern w) day = (if so_start (build_shift day (Some w)) \<noteq> None then [build_shift day (Some w)] else [])"
    by (simp add: shiftCandidates_def plain_pattern_def list_of_def)
  moreover have "0 < s" if "so_start (build_shift day (Some w)) = Some s" for s
    using that assms by (auto simp: build_shift_def Let_def clock_on_def at_day_def day_ms_def dest!: clock_prefix_nonneg split: option.splits)
  ultimately show ?thesis
    by (auto simp: window_of_def shiftFor_def proper_def no_shift_def Let_def split: option.splits)
qed

lemma holiday_window_proper: "0 < ho_date h \<Longrightarrow> proper (holiday_window h)"
  by (simp add: holiday_window_def window_of_proper)

lemma shiftFor_in:
  assumes "shiftCandidates p day \<noteq> []" shows "shiftFor p day anchor \<in> set (shiftCandidates p day)"
proof -
  obtain o1 rest where c: "shiftCandidates p day = o1 # rest" using assms by (cases "shiftCandidates p day") auto
  show ?thesis
  proof (cases "anchor = None \<or> rest = []")
    case True
    then show ?thesis by (auto simp: shiftFor_def c split: option.split)
  next
    case False
    then obtain t where t: "anchor = Some t" by auto
    obtain b where "fold (closer t) (o1 # rest) None = Some b" "snd b \<in> set (o1 # rest)"
      using fold_closer[of None "o1 # rest" t] by auto
    with False t show ?thesis unfolding shiftFor_def c by simp
  qed
qed

section \<open>What a worked day means\<close>

definition day_overrides :: "employee_row \<Rightarrow> int \<Rightarrow> day_context \<Rightarrow> shift_assignment list" where
  "day_overrides e day ctx = filter (\<lambda>a. sa_employeeId a = em_id e \<and> sa_date a = day) (dc_assignments ctx)"

definition decided :: "'p attendance_config \<Rightarrow> employee_row \<Rightarrow> int \<Rightarrow> day_context \<Rightarrow> 'p day_info \<Rightarrow> 'p effective_profile \<Rightarrow>
    schedule_row \<Rightarrow> shift_assignment option \<Rightarrow> pattern \<Rightarrow> bool" where
  "decided config e day ctx info profile roster assignment p \<longleftrightarrow>
    effectiveProfile config e day = Inr profile \<and> employedOn e (cf_periods config) day \<and> em_payroll_included e \<noteq> Some False \<and>
    filter (in_force (em_id e) day) (cf_schedules config) = [roster] \<and>
    assignment = (case day_overrides e day ctx of [] \<Rightarrow> None | a # _ \<Rightarrow> Some a) \<and>
    p = day_pattern (sc_pattern roster) assignment \<and> fst (validateSchedulePattern p) \<and>
    calendars_known config day (calendar_ids config e day profile) \<and>
    info = resolve_known (base_info config e day profile) profile roster assignment p (shiftFor p day (dc_anchor ctx))
      (calendar_ids config e day profile) (day_holidays config day (calendar_ids config e day profile))
      (on_leave ctx day) (day \<in> set (dc_callIns ctx))"

lemma base_info_working: "di_working (base_info config e day profile) = None"
  by (simp add: base_info_def)

lemma resolve_decided:
  assumes run: "resolveEmployeeDay config e day ctx = Inr info" and worked: "di_working info = Some True"
  obtains profile roster assignment p where "decided config e day ctx info profile roster assignment p"
proof -
  from run obtain profile where profile: "effectiveProfile config e day = Inr profile"
    by (auto simp: resolveEmployeeDay_def rbind_Inr_iff)
  note r = run[unfolded resolveEmployeeDay_def profile rbind.simps Let_def, folded day_overrides_def]
  have emp: "employedOn e (cf_periods config) day \<and> em_payroll_included e \<noteq> Some False"
    using r worked by (cases "\<not> employedOn e (cf_periods config) day \<or> em_payroll_included e = Some False") auto
  have mode: "\<not> (ef_mode profile = ''MANUAL_MONTHLY'' \<and> \<not> dc_forLeave ctx)"
    using r worked emp by (cases "ef_mode profile = ''MANUAL_MONTHLY'' \<and> \<not> dc_forLeave ctx") auto
  obtain roster where roster: "filter (in_force (em_id e) day) (cf_schedules config) = [roster]"
    using r emp mode worked base_info_working[of config e day profile]
    by (cases "filter (in_force (em_id e) day) (cf_schedules config)") (auto split: list.split_asm)
  define assignment where "assignment = (case day_overrides e day ctx of [] \<Rightarrow> None | a # _ \<Rightarrow> Some a)"
  define p where "p = day_pattern (sc_pattern roster) assignment"
  from r emp mode roster have r2: "(if 1 < length (day_overrides e day ctx) then Inr (base_info config e day profile\<lparr>di_reason := Some ''CONFLICTING_ROSTER''\<rparr>)
      else if \<not> fst (validateSchedulePattern p) then Inr (base_info config e day profile\<lparr>di_reason := Some ''INVALID_ROSTER''\<rparr>)
      else if \<not> calendars_known config day (calendar_ids config e day profile)
      then Inr (base_info config e day profile\<lparr>di_pattern := Some p, di_shift := Some (as_day_shift (shiftFor p day (dc_anchor ctx)) [] []), di_reason := Some ''MISSING_CALENDAR''\<rparr>)
      else Inr (resolve_known (base_info config e day profile) profile roster assignment p (shiftFor p day (dc_anchor ctx))
        (calendar_ids config e day profile) (day_holidays config day (calendar_ids config e day profile)) (on_leave ctx day) (day \<in> set (dc_callIns ctx)))) =
      (Inr info :: hr_error + 'a day_info)"
    by (simp only: list.case assignment_def[symmetric] p_def[symmetric] de_Morgan_disj not_not if_False if_True simp_thms)
  then have "decided config e day ctx info profile roster assignment p"
    using worked emp roster profile base_info_working[of config e day profile]
    by (simp add: decided_def assignment_def p_def split: if_split_asm) auto
  then show ?thesis by (rule that)
qed

lemma decided_fields:
  assumes "decided config e day ctx info profile roster assignment p"
  shows "di_calendarIds info = calendar_ids config e day profile" "di_rosterId info = Some (sc_id roster)" "di_pattern info = Some p"
  using assms by (simp_all add: decided_def resolve_known_def Let_def)

lemma decided_assignment:
  "decided config e day ctx info profile roster (Some a) p \<Longrightarrow> a \<in> set (dc_assignments ctx) \<and> sa_employeeId a = em_id e \<and> sa_date a = day"
  by (cases "day_overrides e day ctx") (auto simp: decided_def day_overrides_def filter_eq_Cons_iff)

lemma base_info_date: "di_date (base_info config e day profile) = day"
  by (simp add: base_info_def)

lemma resolve_known_worked:
  assumes "di_working (resolve_known base profile roster assignment pattern shift ids holidays onLeave calledIn) = Some True"
  shows "\<not> onLeave"
    and "\<not> calledIn \<Longrightarrow> full_holiday holidays = None \<and> Option.bind assignment sa_status \<notin> {Some ''holiday'', Some ''off''} \<and>
      ((isoDow (di_date base) \<in> set (list_of (pa_offDays (sc_pattern roster))) \<or> cycle_off (sc_pattern roster) (di_date base)) \<longrightarrow>
        Option.bind assignment sa_status = Some ''on_shift'' \<and> assigned_times assignment)"
  using assms by (auto simp: resolve_known_def Let_def day_verdict_def split: if_split_asm)

lemma full_holiday_None: "full_holiday hs = None \<longleftrightarrow> (\<forall>h \<in> set hs. ho_fullDay h = Some False)"
  by (auto simp: full_holiday_def find_None_iff)

definition rest_day :: "schedule_row \<Rightarrow> int \<Rightarrow> bool" where
  "rest_day roster day \<longleftrightarrow> isoDow day \<in> set (list_of (pa_offDays (sc_pattern roster))) \<or> cycle_off (sc_pattern roster) day"

text \<open>C8. A day counts as worked only for somebody employed and on the payroll, with exactly one valid roster in force and
  known calendars, who is not on leave; and, unless called in, only where the day is no full holiday and no day of rest
  (a day of rest needs an explicit assignment with hours).\<close>

theorem worked_day_is_due:
  assumes "resolveEmployeeDay config e day ctx = Inr info" and "di_working info = Some True"
  shows "employedOn e (cf_periods config) day \<and> em_payroll_included e \<noteq> Some False \<and>
    (\<exists>roster. filter (in_force (em_id e) day) (cf_schedules config) = [roster] \<and> di_rosterId info = Some (sc_id roster) \<and>
       (\<exists>p. di_pattern info = Some p \<and> fst (validateSchedulePattern p)) \<and>
       (day \<notin> set (dc_callIns ctx) \<longrightarrow> rest_day roster day \<longrightarrow>
          (\<exists>a \<in> set (dc_assignments ctx). sa_employeeId a = em_id e \<and> sa_date a = day \<and> sa_status a = Some ''on_shift'' \<and> assigned_times (Some a)))) \<and>
    calendars_known config day (di_calendarIds info) \<and>
    \<not> on_leave ctx day \<and>
    (day \<notin> set (dc_callIns ctx) \<longrightarrow> (\<forall>h \<in> set (day_holidays config day (di_calendarIds info)). ho_fullDay h = Some False))"
proof -
  obtain profile roster assignment p where d: "decided config e day ctx info profile roster assignment p"
    using assms by (rule resolve_decided)
  then have info: "info = resolve_known (base_info config e day profile) profile roster assignment p (shiftFor p day (dc_anchor ctx))
      (calendar_ids config e day profile) (day_holidays config day (calendar_ids config e day profile))
      (on_leave ctx day) (day \<in> set (dc_callIns ctx))" by (simp add: decided_def)
  have day: "di_date (base_info config e day profile) = day" by (simp add: base_info_def)
  note w = resolve_known_worked[OF assms(2)[unfolded info], unfolded day]
  have "day \<notin> set (dc_callIns ctx) \<longrightarrow> rest_day roster day \<longrightarrow>
      (\<exists>a \<in> set (dc_assignments ctx). sa_employeeId a = em_id e \<and> sa_date a = day \<and> sa_status a = Some ''on_shift'' \<and> assigned_times (Some a))"
  proof (cases assignment)
    case None
    then show ?thesis using w(2) by (auto simp: rest_day_def)
  next
    case (Some a)
    then have "a \<in> set (dc_assignments ctx)" "sa_employeeId a = em_id e" "sa_date a = day"
      using d decided_assignment by blast+
    then show ?thesis using w(2) Some by (auto simp: rest_day_def)
  qed
  then show ?thesis using d w decided_fields[OF d] full_holiday_None by (auto simp: decided_def)
qed

text \<open>Partial holidays at the edges of a shift move its start or end, never outside the rostered window and never over time
  that is not excused: what is left of the shift outside the excluded windows is what was left before.\<close>

theorem holiday_trims_excused_time:
  assumes "resolveEmployeeDay config e day ctx = Inr info" and "di_working info = Some True" and "0 < day"
    and "di_pattern info = Some p" and "shiftCandidates p day \<noteq> []"
  shows "\<exists>shift a b a' b'. di_shift info = Some shift \<and>
    so_start (shiftFor p day (dc_anchor ctx)) = Some a \<and> so_end (shiftFor p day (dc_anchor ctx)) = Some b \<and>
    sh_start shift = Some a' \<and> sh_end shift = Some b' \<and> a \<le> a' \<and> a' < b' \<and> b' \<le> b \<and>
    {a..<b} - covered (sh_exclusions shift) = {a'..<b'} - covered (sh_exclusions shift)"
proof -
  obtain profile roster assignment q where d: "decided config e day ctx info profile roster assignment q"
    using assms(1,2) by (rule resolve_decided)
  have q: "q = p" and v: "fst (validateSchedulePattern p)" using d decided_fields[OF d] assms(4) by (auto simp: decided_def)
  define s where "s = shiftFor p day (dc_anchor ctx)"
  have "s \<in> set (shiftCandidates p day)"
    using assms(5) shiftFor_in unfolding s_def by blast
  then have "window_ok day s" using v valid_window by blast
  then obtain a b where ab: "so_start s = Some a" "so_end s = Some b" "at_day day \<le> a" "a < b" by (auto simp: window_ok_def)
  define excused where "excused = (if day \<in> set (dc_callIns ctx) then []
    else map holiday_window (filter (\<lambda>h. ho_fullDay h = Some False) (day_holidays config day (calendar_ids config e day profile))))"
  have "list_all proper excused"
    using assms(3) by (auto simp: excused_def list_all_iff day_holidays_def intro!: holiday_window_proper)
  moreover have "0 < a" using ab(3) assms(3) by (simp add: at_day_def day_ms_def)
  ultimately have t: "trimmed (\<Union>(instants ` set excused)) (Some a, Some b) (fold trim_step excused (Some a, Some b))"
    using ab(4) by (intro fold_trim) auto
  obtain shift where shift: "di_shift info = Some shift"
    and e: "(sh_start shift, sh_end shift) = fold trim_step excused (Some a, Some b)"
    and ex: "\<exists>ws. sh_exclusions shift = both_ends (excused @ ws)"
    using d ab(1,2) by (auto simp: decided_def resolve_known_def Let_def as_day_shift_def base_info_def excused_def q s_def)
  from t e obtain a' b' where ab': "sh_start shift = Some a'" "sh_end shift = Some b'" "a \<le> a'" "a' \<le> b'" "b' \<le> b"
    "{a..<b} - \<Union>(instants ` set excused) = {a'..<b'} - \<Union>(instants ` set excused)"
    by (auto simp: trimmed_def)
  obtain ws where ws: "sh_exclusions shift = both_ends (excused @ ws)" using ex by blast
  have "\<Union>(instants ` set excused) \<subseteq> covered (sh_exclusions shift)"
    using both_ends_instants[of "excused @ ws"] unfolding ws by (simp only: set_append) blast
  then have "{a..<b} - covered (sh_exclusions shift) = {a'..<b'} - covered (sh_exclusions shift)" using ab'(6) by blast
  moreover have "a' < b'" 
    using d assms(2) ab' ab(1,2) e
    by (auto simp: decided_def resolve_known_def Let_def base_info_def excused_def q s_def split: if_splits)
  ultimately show ?thesis using shift ab ab' by (auto simp: s_def)
qed

section \<open>The range of a query\<close>

definition same_day :: "day_context \<Rightarrow> day_context \<Rightarrow> int \<Rightarrow> bool" where
  "same_day c c' day \<longleftrightarrow> filter (\<lambda>a. sa_date a = day) (dc_assignments c) = filter (\<lambda>a. sa_date a = day) (dc_assignments c') \<and>
     on_leave c day = on_leave c' day \<and>
     (day \<in> set (dc_callIns c) \<longleftrightarrow> day \<in> set (dc_callIns c')) \<and> dc_anchor c = dc_anchor c' \<and> dc_forLeave c = dc_forLeave c'"

lemma same_day_overrides:
  assumes "same_day c c' day"
  shows "filter (\<lambda>a. sa_employeeId a = k \<and> sa_date a = day) (dc_assignments c') = filter (\<lambda>a. sa_employeeId a = k \<and> sa_date a = day) (dc_assignments c)"
proof -
  have "filter (\<lambda>a. sa_employeeId a = k \<and> sa_date a = day) xs = filter (\<lambda>a. sa_employeeId a = k) (filter (\<lambda>a. sa_date a = day) xs)" for xs
    by (simp add: conj_commute)
  then show ?thesis using assms unfolding same_day_def by (metis (no_types))
qed

lemma resolve_same_day:
  assumes "same_day c c' day"
    and "filter (in_force (em_id e) day) S = filter (in_force (em_id e) day) (cf_schedules config)"
  shows "resolveEmployeeDay (config\<lparr>cf_schedules := S\<rparr>) e day c' = resolveEmployeeDay config e day c"
proof -
  have parts: "effectiveProfile (config\<lparr>cf_schedules := S\<rparr>) e day = effectiveProfile config e day"
    "base_info (config\<lparr>cf_schedules := S\<rparr>) e day = base_info config e day"
    "calendar_ids (config\<lparr>cf_schedules := S\<rparr>) e day = calendar_ids config e day"
    "calendars_known (config\<lparr>cf_schedules := S\<rparr>) day = calendars_known config day"
    "day_holidays (config\<lparr>cf_schedules := S\<rparr>) day = day_holidays config day"
    by (simp_all add: effectiveProfile_def base_info_def calendar_ids_def calendars_known_def day_holidays_def fun_eq_iff Let_def cong: list.case_cong option.case_cong)
  have ctx: "dc_anchor c' = dc_anchor c" "dc_forLeave c' = dc_forLeave c" "on_leave c' day = on_leave c day"
    "day \<in> set (dc_callIns c') \<longleftrightarrow> day \<in> set (dc_callIns c)" using assms(1) by (simp_all add: same_day_def)
  have sel: "cf_periods (config\<lparr>cf_schedules := S\<rparr>) = cf_periods config" "cf_schedules (config\<lparr>cf_schedules := S\<rparr>) = S" by simp_all
  show ?thesis
    unfolding resolveEmployeeDay_def by (simp only: parts ctx sel same_day_overrides[OF assms(1)] assms(2))
qed

lemma find_hd: "find P xs = (case filter P xs of [] \<Rightarrow> None | x # _ \<Rightarrow> Some x)"
  by (induction xs) auto

lemma find_in: "find P xs = Some x \<Longrightarrow> x \<in> set xs \<and> P x"
  by (auto simp: find_Some_iff)

lemma configOn_range:
  assumes "d \<le> l" shows "configOn (releases_by l db) d = configOn (releases_by d db) d"
proof -
  have "filter (\<lambda>r. re_effectiveFrom r \<le> d) (releases_by k db) = releases_by d db" if "d \<le> k" for k
    using that unfolding releases_by_def filter_sort filter_filter
    by (intro arg_cong[where f = "sort_key _"] filter_cong) auto
  then show ?thesis using assms by (simp add: configOn_def find_hd)
qed

definition releases_consistent :: "'p attendance_db \<Rightarrow> bool" where
  "releases_consistent db \<longleftrightarrow> distinct (map re_version (db_releases db)) \<and>
     list_all (\<lambda>r. cf_version (re_config r) = Some (re_version r)) (db_releases db)"

lemma published_range:
  assumes "releases_consistent db" and "configOn (releases_by d db) d = Some c" and "d \<le> l"
  shows "published_employee (releases_by l db) (cf_version c) k = published_employee (releases_by d db) (cf_version c) k"
proof -
  from assms(2) obtain r where r: "r \<in> set (releases_by d db)" "re_config r = c"
    by (auto simp: configOn_def split: option.splits if_splits dest!: find_in)
  have v: "cf_version c = Some (re_version r)"
    using assms(1) r by (auto simp: releases_consistent_def list_all_iff releases_by_def)
  have "find (\<lambda>q. re_version q = re_version r) (rev (releases_by j db)) = Some r" if "d \<le> j" for j
  proof -
    have mem: "r \<in> set (rev (releases_by j db))" using r(1) that by (auto simp: releases_by_def)
    then obtain q where q: "find (\<lambda>q. re_version q = re_version r) (rev (releases_by j db)) = Some q"
      by (cases "find (\<lambda>q. re_version q = re_version r) (rev (releases_by j db))") (auto simp: find_None_iff)
    then have "q \<in> set (db_releases db)" "re_version q = re_version r" "r \<in> set (db_releases db)"
      using mem by (auto simp: releases_by_def dest!: find_in)
    then have "q = r" using assms(1) by (auto simp: releases_consistent_def distinct_map inj_on_def)
    with q show ?thesis by simp
  qed
  then show ?thesis using assms(3) by (simp add: published_employee_def v)
qed

lemma published_id: "published_employee rs v k = Some e \<Longrightarrow> em_id e = k"
  by (auto simp: published_employee_def find_Some_iff bind_eq_Some_conv)

definition rosters_settled :: "bool \<Rightarrow> 'p attendance_db \<Rightarrow> int \<Rightarrow> int \<Rightarrow> bool" where
  "rosters_settled live db k d \<longleftrightarrow> \<not> live \<or> list_ex (in_force k d) (db_workSchedules db)"

lemma employee_config_day:
  assumes "rosters_settled live db k d" "f \<le> d" "d \<le> l"
  shows "filter (in_force k d) (cf_schedules (employee_config (live_rosters live f l db k) k c)) =
    (if live then filter (in_force k d) (db_workSchedules db) else filter (in_force k d) (cf_schedules c))"
proof (cases live)
  case True
  then obtain r where "r \<in> set (db_workSchedules db)" "in_force k d r" using assms(1) by (auto simp: rosters_settled_def list_ex_iff)
  then have "live_rosters live f l db k \<noteq> []"
    using True assms(2,3) by (force simp: live_rosters_def filter_empty_conv in_force_def covers_def split: option.splits)
  moreover have "filter (in_force k d) (live_rosters live f l db k) = filter (in_force k d) (db_workSchedules db)"
    using True assms(2,3) by (auto simp: live_rosters_def in_force_def covers_def intro!: filter_cong split: option.splits)
  moreover have "filter (in_force k d) (filter (\<lambda>r. sp_employeeId r \<noteq> k) xs) = []" for xs :: "schedule_row list"
    by (auto simp: filter_empty_conv in_force_def)
  ultimately show ?thesis using True by (simp add: employee_config_def)
next
  case False
  then show ?thesis by (auto simp: employee_config_def live_rosters_def in_force_def intro!: filter_cong)
qed

lemma runtime_same_day:
  assumes "f \<le> d" "d \<le> l" "f' \<le> d" "d \<le> l'"
  shows "same_day (runtime_context ign f l db k d t) (runtime_context ign f' l' db k d t) d"
proof -
  have "filter (\<lambda>a. sa_date a = d) (dc_assignments (runtime_context ign f l db k d t)) = filter (\<lambda>a. sa_employeeId a = k \<and> sa_date a = d) (db_assignments db)"
    if "f \<le> d" "d \<le> l" for f l
    using that by (auto simp: runtime_context_def intro!: filter_cong)
  moreover have "on_leave (runtime_context ign f l db k d t) d \<longleftrightarrow> \<not> ign \<and>
      list_ex (\<lambda>(em, s, e). em = k \<and> s \<le> d \<and> d \<le> e) (db_leaves db @ db_leaveRequests db)" if "f \<le> d" "d \<le> l" for f l
  proof -
    have "list_ex (\<lambda>w. covers (fst w) (Some (snd w)) d) (map snd (filter (\<lambda>(em, s, e). em = k \<and> s \<le> l \<and> f \<le> e) xs)) =
        list_ex (\<lambda>(em, s, e). em = k \<and> s \<le> d \<and> d \<le> e) xs" for xs
      using that by (induction xs) (auto simp: covers_def)
    then show ?thesis by (simp add: runtime_context_def on_leave_def del: list_ex_append map_append filter_append)
  qed
  moreover have "d \<in> set (dc_callIns (runtime_context ign f l db k d t)) \<longleftrightarrow> (k, d) \<in> set (db_callIns db)" if "f \<le> d" "d \<le> l" for f l
    using that by (force simp: runtime_context_def)
  ultimately show ?thesis using assms by (simp add: same_day_def) (simp add: runtime_context_def)
qed


section \<open>Examples\<close>

text \<open>A Monday to Friday roster from nine to five, a public holiday on day 20466 and a half holiday from nine to noon on
  day 20465; the release is in force for the year 2026.\<close>

definition office_pattern :: pattern where
  "office_pattern = \<lparr>pa_shift = Some \<lparr>wi_from = Some ''09:00'', wi_to = Some ''17:00'', wi_cutoffTime = None, wi_cutoffOffset = None, wi_templateId = None\<rparr>,
     pa_shifts = None, pa_rotatingShifts = None, pa_shiftByDay = None, pa_cycle = None, pa_offDays = Some [6, 7], pa_breaks = None,
     pa_minRestHours = None, pa_maxConsecutiveDays = None, pa_maxHoursPerWeek = None, pa_paidWithoutPunches = False, pa_scheduled = None\<rparr>"

definition office_roster :: schedule_row where
  "office_roster = \<lparr>sp_employeeId = 7, sp_from = 20000, sp_to = None, sc_id = 70, sc_pattern = office_pattern\<rparr>"

definition office_employee :: employee_row where
  "office_employee = \<lparr>em_id = 7, em_start = Some 19000, em_status = ''ACTIVE'', em_payroll_included = None,
     em_payrollOffice = Some ''HQ'', em_attendanceInputMode = None\<rparr>"

definition office_config :: "unit attendance_config" where
  "office_config = \<lparr>cf_version = Some 3, cf_profiles = [], cf_assignments = [], cf_defaultCalendarId = Some 1, cf_policy = (\<lambda>_. None),
     cf_employees = [office_employee], cf_periods = [], cf_schedules = [office_roster], cf_calendarAssignments = [],
     cf_calendars = [\<lparr>ca_id = 1, ca_year = Some 2026\<rparr>],
     cf_holidays = [\<lparr>ho_calendarId = 1, ho_date = 20466, ho_name = ''Founders day'', ho_fullDay = None, ho_startTime = None, ho_endTime = None\<rparr>,
       \<lparr>ho_calendarId = 1, ho_date = 20465, ho_name = ''Eve'', ho_fullDay = Some False, ho_startTime = Some ''09:00'', ho_endTime = Some ''12:00''\<rparr>],
     cf_enrolments = []\<rparr>"

definition office_db :: "schedule_row list \<Rightarrow> unit attendance_db" where
  "office_db live = \<lparr>db_releases = [\<lparr>re_version = 3, re_effectiveFrom = 20454, re_coverageThrough = 20800, re_config = office_config\<rparr>],
     db_assignments = [], db_leaves = [], db_leaveRequests = [(7, 20467, 20468)], db_callIns = [], db_workSchedules = live\<rparr>"

definition no_context :: day_context where
  "no_context = \<lparr>dc_assignments = [], dc_leaves = [], dc_callIns = [], dc_anchor = None, dc_forLeave = False\<rparr>"

lemma office_day:
  "map_sum id (\<lambda>i. (di_working i, di_calendarIds i, di_pattern i)) (resolveEmployeeDay office_config office_employee 20465 no_context) =
     Inr (Some True, [1], Some office_pattern)"
  by code_simp

theorem worked_day_is_due_witness:
  "employedOn office_employee [] 20465 \<and> \<not> on_leave no_context 20465 \<and> list_all (\<lambda>h. ho_fullDay h = Some False) (day_holidays office_config 20465 [1])"
proof -
  obtain info where i: "resolveEmployeeDay office_config office_employee 20465 no_context = Inr info"
    "di_working info = Some True" "di_calendarIds info = [1]"
    using office_day by (cases "resolveEmployeeDay office_config office_employee 20465 no_context") auto
  have "cf_periods office_config = []" "20465 \<notin> set (dc_callIns no_context)" by code_simp+
  then show ?thesis using worked_day_is_due[OF i(1,2)] i(3) by (simp add: list_all_iff)
qed

theorem holiday_trims_excused_time_witness:
  "\<exists>shift a b a' b'. so_start (shiftFor office_pattern 20465 None) = Some a \<and> so_end (shiftFor office_pattern 20465 None) = Some b \<and>
    sh_start shift = Some a' \<and> sh_end shift = Some b' \<and> a \<le> a' \<and> a' < b' \<and> b' \<le> b \<and>
    {a..<b} - covered (sh_exclusions shift) = {a'..<b'} - covered (sh_exclusions (shift :: day_shift))"
proof -
  obtain info where i: "resolveEmployeeDay office_config office_employee 20465 no_context = Inr info"
    "di_working info = Some True" "di_pattern info = Some office_pattern"
    using office_day by (cases "resolveEmployeeDay office_config office_employee 20465 no_context") auto
  have c: "shiftCandidates office_pattern 20465 \<noteq> []" by code_simp
  have pos: "0 < (20465::int)" and anchor: "dc_anchor no_context = None" by (simp_all add: no_context_def)
  show ?thesis using holiday_trims_excused_time[OF i(1,2) pos i(3) c, unfolded anchor] by blast
qed


text \<open>Where the live roster ends before the day, a query for the month finds no roster, and a query for the day alone falls
  back to the roster of the release.\<close>

lemma roster_fallback_depends_on_range:
  "map_sum id di_reason (runtime_resolve True False 20454 20484 (office_db [office_roster\<lparr>sp_to := Some 20459\<rparr>]) 7 20469 None) = Inr (Some ''MISSING_ROSTER'')"
  "map_sum id di_working (runtime_resolve True False 20469 20469 (office_db [office_roster\<lparr>sp_to := Some 20459\<rparr>]) 7 20469 None) = Inr (Some True)"
  by code_simp+

end
