(* ===== verification/Sessions.thy ===== *)
theory Sessions
  imports WorkingDay AttendanceEvaluator
begin

text \<open>
  From the punches of a person to the shifts they belong to: \<^verbatim>\<open>sessioniseByRoster\<close> of \<^verbatim>\<open>src/src/lib/attendanceReplay.js\<close>.
  The roster is a function from days to patterns, as the replay passes it. Punches are walked in order of time; the state is the
  groups formed so far, in the order their keys were first used, and the shift in progress. Instants are milliseconds, days day
  numbers. The two caches of deadlines are keyed by the start of a window: what they hold is what the first window of the day with
  that start gives.
\<close>

section \<open>Punches of a device\<close>

record raw_punch =
  rw_at :: int
  rw_sn :: "string option"
  rw_status :: "int option"
  rw_verified :: bool
  rw_trust :: "bool option"
  rw_occurredAt :: "int option"
  rw_siteId :: "nat option"
  rw_eventId :: "nat option"
  rw_clockIssue :: bool

record session_options =
  op_windowHours :: int
  op_dedupeSeconds :: int
  op_closeHours :: int
  op_legacyInference :: bool

definition default_options :: session_options where
  "default_options = \<lparr>op_windowHours = 5, op_dedupeSeconds = 120, op_closeHours = 9, op_legacyInference = False\<rparr>"

definition same_press :: "session_options \<Rightarrow> raw_punch \<Rightarrow> raw_punch \<Rightarrow> bool" where
  "same_press op prev p \<longleftrightarrow> rw_at p - rw_at prev \<le> op_dedupeSeconds op * 1000 \<and> rw_sn prev = rw_sn p \<and>
    (rw_status prev = rw_status p \<or> (op_legacyInference op \<and> \<not> rw_verified p \<and> \<not> rw_verified prev))"

fun drop_repeats :: "session_options \<Rightarrow> raw_punch option \<Rightarrow> raw_punch list \<Rightarrow> raw_punch list" where
  "drop_repeats op prev [] = []"
| "drop_repeats op prev (p # ps) =
     (if (case prev of None \<Rightarrow> False | Some q \<Rightarrow> same_press op q p) then drop_repeats op prev ps
      else p # drop_repeats op (Some p) ps)"

definition presses :: "session_options \<Rightarrow> raw_punch list \<Rightarrow> raw_punch list" where
  "presses op punches = drop_repeats op None (sort_key rw_at punches)"

definition isOut :: "raw_punch \<Rightarrow> bool" where
  "isOut p \<longleftrightarrow> rw_status p \<in> {Some 1, Some 5}"

definition directed :: "session_options \<Rightarrow> raw_punch \<Rightarrow> bool" where
  "directed op p \<longleftrightarrow> rw_verified p \<or> (case rw_trust p of Some b \<Rightarrow> b | None \<Rightarrow> \<not> op_legacyInference op)"

definition chosen_out :: "session_options \<Rightarrow> raw_punch \<Rightarrow> bool" where
  "chosen_out op p \<longleftrightarrow> isOut p \<and> directed op p"

section \<open>Windows around a punch\<close>

type_synonym roster = "int \<Rightarrow> pattern option"

definition candidates :: "roster \<Rightarrow> int \<Rightarrow> shift_option list" where
  "candidates p day = (case p day of None \<Rightarrow> [] | Some q \<Rightarrow> shiftCandidates q day)"

definition start_of :: "shift_option \<Rightarrow> int" where
  "start_of s = plus_null (so_start s)"

definition end_of :: "shift_option \<Rightarrow> int" where
  "end_of s = plus_null (so_end s)"

definition day_of :: "int \<Rightarrow> int" where
  "day_of t = t div day_ms"

definition windows_at :: "roster \<Rightarrow> int list \<Rightarrow> int \<Rightarrow> (int \<times> shift_option) list" where
  "windows_at p offsets day = concat (map (\<lambda>k. map (Pair (day + k)) (candidates p (day + k))) offsets)"

definition first_window :: "roster \<Rightarrow> shift_option \<Rightarrow> shift_option" where
  "first_window p s = (case find (\<lambda>c. bounded c \<and> so_start c = so_start s) (candidates p (day_of (start_of s))) of Some c \<Rightarrow> c | None \<Rightarrow> s)"

definition bare_shift :: "shift_option \<Rightarrow> roster_shift" where
  "bare_shift s = \<lparr>sh_start = so_start s, sh_end = so_end s, sh_exclusions = [], sh_paidBreaks = [], sh_nextShiftStart = None,
     sh_checkoutCutoff = so_checkoutCutoff s\<rparr>"

text \<open>The policy the deadline is asked with names the leniency only; the deadline reads nothing else of it but the check-in window.\<close>

definition leniency_policy :: "int \<Rightarrow> eval_policy" where
  "leniency_policy m = \<lparr>ap_resolvedGrace = None, ap_graceMinutes = None, ap_earlyLeaveGraceMin = None, ap_halfDayMinPercent = None,
     ep_checkoutLeniencyMin = Some m, ep_checkinWindowMin = None, ep_halfDayAfterMinutes = None, ep_halfDayAfterPercentOfShift = None,
     ep_fullDayMinPercent = None, ep_duplicatePunchWindowMin = None, ep_trustDeviceDirection = True, ep_overtimeAfterMinutes = 0,
     ep_overtimeNeedsApproval = True\<rparr>"

definition deadlineFor :: "session_options \<Rightarrow> roster \<Rightarrow> shift_option \<Rightarrow> int" where
  "deadlineFor op p s = (let w = first_window p s in
     plus_null (boundedCheckout (bare_shift w) (leniency_policy (op_closeHours op * 60)) (nextShiftStart p w)))"

definition closeBoundFor :: "roster \<Rightarrow> shift_option \<Rightarrow> int" where
  "closeBoundFor p s = (let w = first_window p s in
     case so_checkoutCutoff w of
       Some c \<Rightarrow> c
     | None \<Rightarrow> (case nextShiftStart p w of None \<Rightarrow> end_of w + day_ms | Some n \<Rightarrow> min (end_of w + day_ms) (n - 1)))"

text \<open>The latest moment a punch may still belong to a window.\<close>

definition latest :: "session_options \<Rightarrow> roster \<Rightarrow> raw_punch \<Rightarrow> shift_option \<Rightarrow> int" where
  "latest op p x s = (if chosen_out op x then max (deadlineFor op p s) (closeBoundFor p s) else deadlineFor op p s)"

definition hours :: "int \<Rightarrow> int" where
  "hours n = n * 60 * 60000"

fun list_max :: "int list \<Rightarrow> int option" where
  "list_max [] = None"
| "list_max (x # xs) = Some (case list_max xs of None \<Rightarrow> x | Some y \<Rightarrow> max x y)"

definition nearerStartThanPreviousEnd :: "roster \<Rightarrow> int \<Rightarrow> int \<Rightarrow> bool" where
  "nearerStartThanPreviousEnd p startAt t =
    (let ends = filter (\<lambda>e. e < startAt) (concat (map (\<lambda>w. case so_end (snd w) of None \<Rightarrow> [] | Some e \<Rightarrow> [e])
         (windows_at p [-2, -1, 0] (day_of startAt))))
     in case list_max ends of None \<Rightarrow> False | Some e \<Rightarrow> e < t \<and> startAt - t < t - e)"

definition toNearestStart :: "roster \<Rightarrow> int \<Rightarrow> int option" where
  "toNearestStart p t = map_option uminus (list_max
     (map (\<lambda>w. - \<bar>t - start_of (snd w)\<bar>) (filter (\<lambda>w. so_start (snd w) \<noteq> None) (windows_at p [-1, 0, 1] (day_of t)))))"

text \<open>The first of the elements for which a distance is least.\<close>

definition nearest :: "('a \<Rightarrow> int) \<Rightarrow> 'a list \<Rightarrow> 'a option" where
  "nearest d xs = fold (\<lambda>x best. case best of None \<Rightarrow> Some x | Some y \<Rightarrow> if d x < d y then Some x else best) xs None"

section \<open>Where a punch belongs\<close>

datatype session_key = OnDay (key_day: int) | OnShift (key_day: int) int | Unassigned (key_day: int)

record open_shift =
  os_day :: int
  os_start :: int
  os_end :: int
  os_deadline :: int
  os_closeBound :: int

type_synonym groups = "(session_key \<times> raw_punch list) list"

definition group_of :: "groups \<Rightarrow> session_key \<Rightarrow> raw_punch list" where
  "group_of gs k = (case map_of gs k of None \<Rightarrow> [] | Some ps \<Rightarrow> ps)"

text \<open>The shift in progress claims the punch that closes it.\<close>

definition late_close :: "session_options \<Rightarrow> roster \<Rightarrow> open_shift \<Rightarrow> raw_punch \<Rightarrow> bool" where
  "late_close op p o' x \<longleftrightarrow> os_end o' + hours (op_windowHours op) < rw_at x \<and> rw_at x \<le> os_end o' + hours (op_closeHours op) \<and>
    (case toNearestStart p (rw_at x) of None \<Rightarrow> True | Some d \<Rightarrow> rw_at x - os_end o' < d)"

definition closes_by_device :: "session_options \<Rightarrow> open_shift \<Rightarrow> raw_punch \<Rightarrow> bool" where
  "closes_by_device op o' x \<longleftrightarrow> isOut x \<and> os_end o' < rw_at x \<and>
    ((rw_at x \<le> os_deadline o' \<and> rw_at x \<le> os_end o' + hours (op_closeHours op)) \<or> (chosen_out op x \<and> rw_at x \<le> os_closeBound o'))"

definition continues :: "session_options \<Rightarrow> roster \<Rightarrow> open_shift \<Rightarrow> raw_punch \<Rightarrow> bool" where
  "continues op p o' x \<longleftrightarrow>
    (rw_at x \<le> os_deadline o' \<and>
      ((os_start o' - hours (op_windowHours op) \<le> rw_at x \<and> rw_at x \<le> os_end o' + hours (op_windowHours op)) \<or> late_close op p o' x)) \<or>
    closes_by_device op o' x"

definition arrival_soon :: "session_options \<Rightarrow> roster \<Rightarrow> raw_punch \<Rightarrow> bool" where
  "arrival_soon op p x \<longleftrightarrow> chosen_out op x \<and>
    list_ex (\<lambda>w. so_start (snd w) \<noteq> None \<and> rw_at x < start_of (snd w) \<and> start_of (snd w) - rw_at x \<le> hours 3)
      (windows_at p [0, 1] (day_of (rw_at x)))"

definition accepts :: "session_options \<Rightarrow> roster \<Rightarrow> groups \<Rightarrow> raw_punch \<Rightarrow> int \<times> shift_option \<Rightarrow> bool" where
  "accepts op p gs x w \<longleftrightarrow>
    \<not> (arrival_soon op p x \<and> start_of (snd w) < rw_at x \<and> list_ex isOut (group_of gs (OnDay (fst w)))) \<and>
    (start_of (snd w) - hours (op_windowHours op) \<le> rw_at x \<or> (\<not> isOut x \<and> nearerStartThanPreviousEnd p (start_of (snd w)) (rw_at x))) \<and>
    rw_at x \<le> latest op p x (snd w)"

definition opened :: "session_options \<Rightarrow> roster \<Rightarrow> int \<times> shift_option \<Rightarrow> open_shift" where
  "opened op p w = \<lparr>os_day = fst w, os_start = start_of (snd w), os_end = end_of (snd w), os_deadline = deadlineFor op p (snd w),
     os_closeBound = closeBoundFor p (snd w)\<rparr>"

definition place :: "session_options \<Rightarrow> roster \<Rightarrow> groups \<Rightarrow> open_shift option \<Rightarrow> raw_punch \<Rightarrow> session_key \<times> open_shift option" where
  "place op p gs opn x =
    (let t = rw_at x in
     if (case opn of None \<Rightarrow> False | Some o' \<Rightarrow> continues op p o' x)
     then (OnDay (os_day (the opn)), if os_end (the opn) \<le> t then None else opn)
     else
       let ws = filter (bounded \<circ> snd) (windows_at p [-1, 0, 1] (day_of t)) in
       (case nearest (\<lambda>w. \<bar>t - (if chosen_out op x then end_of (snd w) else start_of (snd w))\<bar>) (filter (accepts op p gs x) ws) of
          Some w \<Rightarrow> (OnDay (fst w), if chosen_out op x then None else Some (opened op p w))
        | None \<Rightarrow> (if ws \<noteq> [] \<and> (opn \<noteq> None \<or> candidates p (day_of t) \<noteq> []) then Unassigned (day_of t) else OnDay (day_of t), None)))"

text \<open>A day with several shifts has a session for each of them.\<close>

definition split_key :: "session_options \<Rightarrow> roster \<Rightarrow> raw_punch \<Rightarrow> session_key \<Rightarrow> session_key" where
  "split_key op p x key =
    (if (case p (key_day key) of None \<Rightarrow> False | Some q \<Rightarrow> list_of (pa_shifts q) \<noteq> []) then
       (case nearest (\<lambda>w. \<bar>rw_at x - (if isOut x then end_of (snd w) else start_of (snd w))\<bar>)
           (filter (\<lambda>w. start_of (snd w) - hours (op_windowHours op) \<le> rw_at x \<and> rw_at x \<le> latest op p x (snd w))
             (windows_at p [-1, 0, 1] (day_of (rw_at x)))) of
          None \<Rightarrow> key
        | Some w \<Rightarrow> OnShift (fst w) (start_of (snd w)))
     else key)"

definition group_step :: "session_options \<Rightarrow> roster \<Rightarrow> raw_punch \<Rightarrow> groups \<times> open_shift option \<Rightarrow> groups \<times> open_shift option" where
  "group_step op p x st =
    (let (key, opn) = place op p (fst st) (snd st) x
     in (alist_upd (split_key op p x key) (\<lambda>v. (case v of None \<Rightarrow> [] | Some ps \<Rightarrow> ps) @ [x]) (fst st), opn))"

definition group_punches :: "session_options \<Rightarrow> roster \<Rightarrow> raw_punch list \<Rightarrow> groups" where
  "group_punches op p punches = fst (fold (group_step op p) (presses op punches) ([], None))"

section \<open>Sessions\<close>

record evidence = punch +
  ev_outside :: bool
  ev_clockIssue :: bool
  ev_manual :: bool

record session =
  se_day :: int
  se_punches :: "evidence list"
  se_corrections :: "(int \<times> string \<times> string) list"
  se_unassigned :: bool
  se_anchor :: "int option"
  se_punchSn :: "string option list"

definition deviceDir :: "int option \<Rightarrow> string" where
  "deviceDir st = (if st \<in> {Some 0, Some 4} then ''IN'' else if st \<in> {Some 1, Some 5} then ''OUT'' else [])"

text \<open>The direction of a lone punch: by the edge of the roster it is nearer to.\<close>

definition edge_distance :: "int \<Rightarrow> shift_option \<Rightarrow> int" where
  "edge_distance t s = min \<bar>t - start_of s\<bar> \<bar>t - end_of s\<bar>"

definition loneDirection :: "roster \<Rightarrow> int \<Rightarrow> raw_punch list \<Rightarrow> string option" where
  "loneDirection p day ps =
    (case ps of
       [x] \<Rightarrow> map_option (\<lambda>s. if \<bar>rw_at x - end_of s\<bar> < \<bar>rw_at x - start_of s\<bar> then ''OUT'' else ''IN'')
         (nearest (edge_distance (rw_at x)) (filter bounded (candidates p day)))
     | _ \<Rightarrow> None)"

definition positional :: "string option \<Rightarrow> nat \<Rightarrow> nat \<Rightarrow> string" where
  "positional lone i n = (case lone of Some d \<Rightarrow> d | None \<Rightarrow> if i = 0 then ''IN'' else if i = n - 1 then ''OUT'' else [])"

definition is_unassigned :: "session_key \<Rightarrow> bool" where
  "is_unassigned k \<longleftrightarrow> (case k of Unassigned _ \<Rightarrow> True | _ \<Rightarrow> False)"

definition shape_punch :: "session_options \<Rightarrow> session_key \<Rightarrow> string option \<Rightarrow> nat \<Rightarrow> nat \<times> raw_punch \<Rightarrow> evidence" where
  "shape_punch op key lone n ix =
    (let x = snd ix; pos = positional lone (fst ix) n in
     \<lparr>pu_type = (if directed op x then deviceDir (rw_status x) else if pos \<noteq> [] then pos else deviceDir (rw_status x)),
      pu_timestamp = rw_at x, pu_occurredAt = rw_occurredAt x, pu_siteId = rw_siteId x, pu_eventId = rw_eventId x, pu_sn = rw_sn x,
      pu_inferred = (\<not> directed op x), pu_directionVerified = rw_verified x, ev_outside = is_unassigned key,
      ev_clockIssue = rw_clockIssue x, ev_manual = False\<rparr>)"

definition correction_of :: "session_options \<Rightarrow> string option \<Rightarrow> nat \<Rightarrow> nat \<times> raw_punch \<Rightarrow> (int \<times> string \<times> string) list" where
  "correction_of op lone n ix =
    (let x = snd ix; pos = positional lone (fst ix) n; device = deviceDir (rw_status x) in
     if \<not> directed op x \<and> pos \<noteq> [] \<and> device \<noteq> [] \<and> device \<noteq> pos then [(rw_at x, device, pos)] else [])"

definition shape_session :: "session_options \<Rightarrow> roster \<Rightarrow> session_key \<times> raw_punch list \<Rightarrow> session" where
  "shape_session op p kg =
    (let key = fst kg; ps = sort_key rw_at (snd kg); lone = loneDirection p (key_day key) ps; n = length ps in
     \<lparr>se_day = key_day key, se_punches = map (shape_punch op key lone n) (enumerate 0 ps),
      se_corrections = concat (map (correction_of op lone n) (enumerate 0 ps)), se_unassigned = is_unassigned key,
      se_anchor = (case key of OnShift _ s \<Rightarrow> Some s | _ \<Rightarrow> None), se_punchSn = map rw_sn ps\<rparr>)"

text \<open>The keys are sorted as texts: a day before its shifts, in order of their starts, before what matched none.\<close>

fun key_order :: "session_key \<Rightarrow> int \<times> int \<times> int" where
  "key_order (OnDay d) = (d, 0, 0)"
| "key_order (OnShift d s) = (d, 1, s)"
| "key_order (Unassigned d) = (d, 2, 0)"

definition sessioniseByRoster :: "session_options \<Rightarrow> roster \<Rightarrow> raw_punch list \<Rightarrow> session list" where
  "sessioniseByRoster op p punches = map (shape_session op p) (sort_key (key_order \<circ> fst) (group_punches op p punches))"

section \<open>Every press is in exactly one session\<close>

lemma nearest_fold:
  "fold (\<lambda>x best. case best of None \<Rightarrow> Some x | Some y \<Rightarrow> if d x < d y then Some x else best) xs b = Some y \<Longrightarrow>
    y \<in> set xs \<union> set_option b \<and> (\<forall>z \<in> set xs \<union> set_option b. d y \<le> (d z :: int))"
proof (induction xs arbitrary: b)
  case (Cons x xs)
  show ?case
  proof (cases b)
    case None
    then show ?thesis using Cons.IH[of "Some x"] Cons.prems by auto
  next
    case (Some w)
    then show ?thesis using Cons.IH[of "if d x < d w then Some x else b"] Cons.prems by (cases "d x < d w") fastforce+
  qed
qed simp

lemma nearest_Some: "nearest d xs = Some y \<Longrightarrow> y \<in> set xs \<and> (\<forall>z \<in> set xs. d y \<le> d z)"
  using nearest_fold[of d xs None y] by (simp add: nearest_def)

lemma nearest_None: "nearest d xs = None \<Longrightarrow> xs = []"
proof -
  have "fold (\<lambda>x best. case best of None \<Rightarrow> Some x | Some y \<Rightarrow> if d x < d y then Some x else best) ys (Some w) \<noteq> None" for ys w
    by (induction ys arbitrary: w) auto
  then show "nearest d xs = None \<Longrightarrow> xs = []" by (cases xs) (auto simp: nearest_def)
qed

definition members :: "groups \<Rightarrow> raw_punch list" where
  "members gs = concat (map snd gs)"

lemma members_upd: "mset (members (alist_upd k (\<lambda>v. (case v of None \<Rightarrow> [] | Some ps \<Rightarrow> ps) @ [x]) gs)) = add_mset x (mset (members gs))"
  by (induction gs) (auto simp: members_def)

lemma members_fold: "mset (members (fst (fold (group_step op p) xs st))) = mset xs + mset (members (fst st))"
  by (induction xs arbitrary: st) (simp_all add: group_step_def members_upd split: prod.split)

lemma group_punches_members: "mset (members (group_punches op p punches)) = mset (presses op punches)"
  by (simp add: group_punches_def members_fold) (simp add: members_def)

definition group_inv :: "groups \<Rightarrow> bool" where
  "group_inv gs \<longleftrightarrow> distinct (map fst gs) \<and> (\<forall>g \<in> set gs. snd g \<noteq> [])"

lemma alist_upd_in: "(k', v') \<in> set (alist_upd k f gs) \<Longrightarrow> (k', v') \<in> set gs \<or> (k' = k \<and> v' = f (map_of gs k))"
  by (induction gs) (auto split: if_splits)

lemma group_inv_step: "group_inv (fst st) \<Longrightarrow> group_inv (fst (group_step op p x st))"
proof -
  assume inv: "group_inv (fst st)"
  obtain key opn where k: "place op p (fst st) (snd st) x = (key, opn)" by fastforce
  let ?f = "\<lambda>v. (case v of None \<Rightarrow> [] | Some ps \<Rightarrow> ps) @ [x]"
  have "distinct (map fst (alist_upd k' ?f (fst st)))" for k' using inv by (intro alist_upd_distinct) (simp add: group_inv_def)
  moreover have "snd g \<noteq> []" if "g \<in> set (alist_upd k' ?f (fst st))" for g k'
    using that inv alist_upd_in[of "fst g" "snd g" k' ?f "fst st"] by (auto simp: group_inv_def)
  ultimately show ?thesis by (simp add: group_step_def k group_inv_def)
qed

lemma group_inv_fold: "group_inv (fst st) \<Longrightarrow> group_inv (fst (fold (group_step op p) xs st))"
proof (induction xs arbitrary: st)
  case (Cons x xs)
  then show ?case using Cons.IH[of "group_step op p x st"] by (simp add: group_inv_step)
qed simp

lemma group_punches_inv: "group_inv (group_punches op p punches)"
  unfolding group_punches_def by (rule group_inv_fold) (simp add: group_inv_def)

text \<open>What a session keeps of a punch, whatever direction it gives it.\<close>

definition trace_raw :: "raw_punch \<Rightarrow> int \<times> string option \<times> nat option" where
  "trace_raw x = (rw_at x, rw_sn x, rw_eventId x)"

definition trace_ev :: "evidence \<Rightarrow> int \<times> string option \<times> nat option" where
  "trace_ev e = (pu_timestamp e, pu_sn e, pu_eventId e)"

lemma trace_shape: "trace_ev (shape_punch op key lone n ix) = trace_raw (snd ix)"
  by (simp add: trace_ev_def trace_raw_def shape_punch_def Let_def)

lemma session_trace: "map trace_ev (se_punches (shape_session op p kg)) = map trace_raw (sort_key rw_at (snd kg))"
proof -
  have "map (\<lambda>ix. trace_raw (snd ix)) (enumerate 0 ps) = map trace_raw ps" for ps
    by (simp add: comp_def[of trace_raw snd, symmetric] del: map_map add: map_map[symmetric])
  then show ?thesis by (simp add: shape_session_def Let_def comp_def trace_shape)
qed

lemma drop_repeats_sub: "set (drop_repeats op prev xs) \<subseteq> set xs"
  by (induction op prev xs rule: drop_repeats.induct) auto

lemma drop_repeats_kept:
  assumes "0 \<le> op_dedupeSeconds op" and "sorted (map rw_at ((case prev of None \<Rightarrow> [] | Some q \<Rightarrow> [q]) @ xs))" and "x \<in> set xs"
  shows "\<exists>y \<in> set (drop_repeats op prev xs) \<union> set_option prev. rw_sn y = rw_sn x \<and> rw_at y \<le> rw_at x \<and> rw_at x - rw_at y \<le> op_dedupeSeconds op * 1000"
  using assms
proof (induction op prev xs rule: drop_repeats.induct)
  case (2 op prev p ps)
  show ?case
  proof (cases "case prev of None \<Rightarrow> False | Some q \<Rightarrow> same_press op q p")
    case True
    then obtain q where q: "prev = Some q" "same_press op q p" by (cases prev) auto
    show ?thesis
    proof (cases "x = p")
      case True
      then show ?thesis using q "2.prems"(2) by (auto simp: same_press_def)
    next
      case False
      then show ?thesis using True "2.IH"(1) "2.prems" q by auto
    qed
  next
    case False
    then show ?thesis
      using "2.IH"(2) "2.prems" by (cases "x = p") (auto split: option.splits)
  qed
qed simp

lemma presses_sub: "set (presses op punches) \<subseteq> set punches"
  using drop_repeats_sub[of op None "sort_key rw_at punches"] by (simp add: presses_def)

text \<open>C14. However the punches are placed, none is lost, none counted twice and none invented: the sessions hold exactly the distinct
  presses, each with its time, device and identity, in order of time, in sessions that are never empty and never the same twice;
  and what was dropped as a repeat lies within the window of a press of the same device that was kept.\<close>

theorem sessions_account_punches:
  assumes "sessioniseByRoster op p punches = ss" and "0 \<le> op_dedupeSeconds op"
  shows "mset (concat (map (map trace_ev \<circ> se_punches) ss)) = mset (map trace_raw (presses op punches)) \<and>
    list_all (\<lambda>s. se_punches s \<noteq> [] \<and> sorted (map pu_timestamp (se_punches s))) ss \<and>
    distinct (map (\<lambda>s. (se_day s, se_anchor s, se_unassigned s)) ss) \<and>
    set (presses op punches) \<subseteq> set punches \<and>
    (\<forall>x \<in> set punches. \<exists>y \<in> set (presses op punches). rw_sn y = rw_sn x \<and> rw_at y \<le> rw_at x \<and> rw_at x - rw_at y \<le> op_dedupeSeconds op * 1000)"
proof (intro conjI ballI)
  define gs where "gs = sort_key (key_order \<circ> fst) (group_punches op p punches)"
  have ss: "ss = map (shape_session op p) gs" using assms(1) by (simp add: sessioniseByRoster_def gs_def)
  have gs: "mset gs = mset (group_punches op p punches)" by (simp add: gs_def)
  have inv: "group_inv (group_punches op p punches)" by (rule group_punches_inv)
  have sort: "mset (concat (map (\<lambda>g. map trace_raw (sort_key rw_at (snd g))) xs)) = mset (map trace_raw (members xs))" for xs :: groups
    by (induction xs) (simp_all add: members_def)
  have mem: "mset (members xs) = mset (members ys)" if "mset xs = mset ys" for xs ys
    using that by (simp add: members_def mset_concat flip: sum_mset_sum_list)
  show "mset (concat (map (map trace_ev \<circ> se_punches) ss)) = mset (map trace_raw (presses op punches))"
    unfolding ss map_map comp_def session_trace sort by (simp add: mem[OF gs] group_punches_members)
  show "list_all (\<lambda>s. se_punches s \<noteq> [] \<and> sorted (map pu_timestamp (se_punches s))) ss"
  proof (unfold ss list_all_iff, intro ballI)
    fix s assume "s \<in> set (map (shape_session op p) gs)"
    then obtain g where g: "g \<in> set gs" "s = shape_session op p g" by auto
    have t: "map pu_timestamp (se_punches s) = map rw_at (sort_key rw_at (snd g))"
      using arg_cong[OF session_trace[of op p g], of "map fst"] by (simp add: comp_def trace_ev_def trace_raw_def g(2))
    have "set gs = set (group_punches op p punches)" using gs mset_eq_setD by blast
    then have "snd g \<noteq> []" using g(1) inv by (auto simp: group_inv_def)
    then have "map rw_at (sort_key rw_at (snd g)) \<noteq> []" by (metis length_0_conv length_map length_sort)
    then have "se_punches s \<noteq> []" unfolding t[symmetric] by auto
    then show "se_punches s \<noteq> [] \<and> sorted (map pu_timestamp (se_punches s))" by (simp add: t)
  qed
  have "distinct (map fst gs)" using inv gs by (metis group_inv_def mset_eq_imp_distinct_iff mset_map)
  moreover have "inj (\<lambda>k. (key_day k, case k of OnShift _ s \<Rightarrow> Some s | _ \<Rightarrow> None, is_unassigned k))"
    by (auto simp: inj_def is_unassigned_def split: session_key.splits)
  ultimately have "distinct (map (\<lambda>k. (key_day k, case k of OnShift _ s \<Rightarrow> Some s | _ \<Rightarrow> None, is_unassigned k)) (map fst gs))"
    by (simp add: distinct_map inj_on_def inj_def del: map_map)
  then show "distinct (map (\<lambda>s. (se_day s, se_anchor s, se_unassigned s)) ss)"
    by (simp add: ss comp_def shape_session_def Let_def)
  show "set (presses op punches) \<subseteq> set punches" by (rule presses_sub)
  show "\<exists>y \<in> set (presses op punches). rw_sn y = rw_sn x \<and> rw_at y \<le> rw_at x \<and> rw_at x - rw_at y \<le> op_dedupeSeconds op * 1000"
    if "x \<in> set punches" for x
    using drop_repeats_kept[OF assms(2), of None "sort_key rw_at punches" x] that by (simp add: presses_def)
qed

text \<open>The order the records arrive in does not matter: with distinct times every permutation of the punches gives the same sessions.\<close>

theorem sessions_independent_of_order:
  assumes "mset punches = mset punches'" and "inj_on rw_at (set punches)"
  shows "sessioniseByRoster op p punches = sessioniseByRoster op p punches'"
proof -
  have "sort_key rw_at punches = sort_key rw_at punches'"
    using assms by (intro sort_key_inj_key_eq) simp_all
  then show ?thesis by (simp add: sessioniseByRoster_def group_punches_def presses_def)
qed

section \<open>Punches stay within the reach of their shift\<close>

definition owns :: "session_options \<Rightarrow> roster \<Rightarrow> int \<Rightarrow> raw_punch \<Rightarrow> shift_option \<Rightarrow> bool" where
  "owns op p d x s \<longleftrightarrow> s \<in> set (candidates p d) \<and> bounded s \<and> rw_at x \<le> max (deadlineFor op p s) (closeBoundFor p s) \<and>
    (start_of s - hours (op_windowHours op) \<le> rw_at x \<or> end_of s < rw_at x \<or>
     (\<not> isOut x \<and> nearerStartThanPreviousEnd p (start_of s) (rw_at x)))"

definition open_ok :: "session_options \<Rightarrow> roster \<Rightarrow> open_shift option \<Rightarrow> bool" where
  "open_ok op p opn \<longleftrightarrow> (case opn of None \<Rightarrow> True
     | Some o' \<Rightarrow> \<exists>s \<in> set (candidates p (os_day o')). bounded s \<and> o' = opened op p (os_day o', s))"

lemma windows_at_in: "(d, s) \<in> set (windows_at p ks day) \<longleftrightarrow> (\<exists>k \<in> set ks. d = day + k \<and> s \<in> set (candidates p d))"
  by (auto simp: windows_at_def)

definition placed :: "session_options \<Rightarrow> roster \<Rightarrow> raw_punch \<Rightarrow> session_key \<Rightarrow> bool" where
  "placed op p x key \<longleftrightarrow>
    (case key of
       OnDay d \<Rightarrow> (\<exists>s. owns op p d x s) \<or> (d = day_of (rw_at x) \<and> filter bounded (candidates p d) = [])
     | OnShift d t \<Rightarrow> (\<exists>s \<in> set (candidates p d). start_of s = t \<and> t - hours (op_windowHours op) \<le> rw_at x \<and> rw_at x \<le> max (deadlineFor op p s) (closeBoundFor p s))
     | Unassigned d \<Rightarrow> d = day_of (rw_at x))"

lemma continues_owns:
  assumes "continues op p o' x" "open_ok op p (Some o')" "0 \<le> op_windowHours op" shows "\<exists>s. owns op p (os_day o') x s"
proof -
  obtain s where s: "s \<in> set (candidates p (os_day o'))" "bounded s" "o' = opened op p (os_day o', s)"
    using assms(2) by (auto simp: open_ok_def)
  have f: "os_start o' = start_of s" "os_end o' = end_of s" "os_deadline o' = deadlineFor op p s" "os_closeBound o' = closeBoundFor p s"
    by (subst s(3), simp add: opened_def)+
  have "rw_at x \<le> max (deadlineFor op p s) (closeBoundFor p s)"
    using assms(1) by (auto simp: continues_def closes_by_device_def f)
  moreover have "start_of s - hours (op_windowHours op) \<le> rw_at x \<or> end_of s < rw_at x"
    using assms(1,3) by (auto simp: continues_def closes_by_device_def late_close_def f hours_def)
  ultimately show ?thesis using s(1,2) unfolding owns_def by blast
qed

lemma accepts_owns:
  "accepts op p gs x (d, s) \<Longrightarrow> s \<in> set (candidates p d) \<Longrightarrow> bounded s \<Longrightarrow> owns op p d x s"
  by (auto simp: accepts_def owns_def latest_def split: if_splits)

lemma place_ok:
  assumes "place op p gs opn x = (key, opn')" "open_ok op p opn" "0 \<le> op_windowHours op"
  shows "placed op p x key \<and> open_ok op p opn'"
proof (cases "case opn of None \<Rightarrow> False | Some o' \<Rightarrow> continues op p o' x")
  case True
  then obtain o' where o': "opn = Some o'" "continues op p o' x" by (cases opn) auto
  then have "key = OnDay (os_day o')" "opn' = None \<or> opn' = opn" using assms(1) by (auto simp: place_def Let_def split: if_splits)
  then show ?thesis using continues_owns[OF o'(2) _ assms(3)] assms(2) o'(1) by (auto simp: placed_def open_ok_def)
next
  case False
  let ?ws = "filter (bounded \<circ> snd) (windows_at p [-1, 0, 1] (day_of (rw_at x)))"
  let ?n = "nearest (\<lambda>w. \<bar>rw_at x - (if chosen_out op x then end_of (snd w) else start_of (snd w))\<bar>) (filter (accepts op p gs x) ?ws)"
  have run: "(key, opn') = (case ?n of Some w \<Rightarrow> (OnDay (fst w), if chosen_out op x then None else Some (opened op p w))
        | None \<Rightarrow> (if ?ws \<noteq> [] \<and> (opn \<noteq> None \<or> candidates p (day_of (rw_at x)) \<noteq> []) then Unassigned (day_of (rw_at x)) else OnDay (day_of (rw_at x)), None))"
    using assms(1) False by (simp add: place_def Let_def del: not_None_eq)
  show ?thesis
  proof (cases ?n)
    case None
    have "filter bounded (candidates p (day_of (rw_at x))) = []" if "?ws = [] \<or> candidates p (day_of (rw_at x)) = []"
      using that by (auto simp: windows_at_def filter_empty_conv)
    then show ?thesis using run None by (auto simp: placed_def open_ok_def split: if_splits)
  next
    case (Some w)
    obtain d s where w: "w = (d, s)" by (cases w)
    have m: "accepts op p gs x (d, s)" "s \<in> set (candidates p d)" "bounded s"
      using nearest_Some[OF Some] by (auto simp: w windows_at_in)
    have "owns op p d x s" using accepts_owns[OF m] .
    moreover have "open_ok op p (Some (opened op p (d, s)))" using m by (auto simp: open_ok_def opened_def)
    ultimately show ?thesis using run Some by (auto simp: placed_def w open_ok_def)
  qed
qed

lemma split_key_ok: "placed op p x key \<Longrightarrow> placed op p x (split_key op p x key)"
proof -
  assume key: "placed op p x key"
  show ?thesis
  proof (cases "split_key op p x key = key")
    case False
    then obtain w where w: "split_key op p x key = OnShift (fst w) (start_of (snd w))"
      "nearest (\<lambda>w. \<bar>rw_at x - (if isOut x then end_of (snd w) else start_of (snd w))\<bar>)
        (filter (\<lambda>w. start_of (snd w) - hours (op_windowHours op) \<le> rw_at x \<and> rw_at x \<le> latest op p x (snd w))
          (windows_at p [-1, 0, 1] (day_of (rw_at x)))) = Some w"
      by (auto simp: split_key_def split: if_splits option.splits)
    then show ?thesis using nearest_Some[OF w(2)]
      by (cases w) (auto simp: placed_def windows_at_in latest_def split: if_splits)
  qed (use key in simp)
qed

definition groups_ok :: "session_options \<Rightarrow> roster \<Rightarrow> groups \<Rightarrow> bool" where
  "groups_ok op p gs \<longleftrightarrow> (\<forall>(k, ps) \<in> set gs. \<forall>x \<in> set ps. placed op p x k)"

lemma groups_ok_step:
  assumes "groups_ok op p (fst st)" "open_ok op p (snd st)" "0 \<le> op_windowHours op"
  shows "groups_ok op p (fst (group_step op p x st)) \<and> open_ok op p (snd (group_step op p x st))"
proof -
  obtain key opn where k: "place op p (fst st) (snd st) x = (key, opn)" by fastforce
  note ok = place_ok[OF k assms(2,3)]
  let ?k = "split_key op p x key" and ?f = "\<lambda>v. (case v of None \<Rightarrow> [] | Some ps \<Rightarrow> ps) @ [x]"
  have "placed op p y k" if "(k, ps) \<in> set (alist_upd ?k ?f (fst st))" "y \<in> set ps" for k ps y
  proof (cases "(k, ps) \<in> set (fst st)")
    case True
    then show ?thesis using assms(1) that(2) by (auto simp: groups_ok_def)
  next
    case False
    then have kp: "k = ?k" "ps = ?f (map_of (fst st) ?k)" using alist_upd_in[OF that(1)] by auto
    have x: "placed op p x ?k" using ok by (intro split_key_ok) simp
    show ?thesis
    proof (cases "map_of (fst st) ?k")
      case None
      then show ?thesis using kp that(2) x by simp
    next
      case (Some qs)
      then have "(?k, qs) \<in> set (fst st)" by (rule map_of_SomeD)
      then have "\<forall>y \<in> set qs. placed op p y ?k" using assms(1) by (auto simp: groups_ok_def)
      then show ?thesis using kp that(2) x Some by auto
    qed
  qed
  then have "groups_ok op p (alist_upd ?k ?f (fst st))" by (auto simp: groups_ok_def)
  then show ?thesis using ok by (simp add: group_step_def k)
qed

lemma groups_ok_fold:
  "groups_ok op p (fst st) \<Longrightarrow> open_ok op p (snd st) \<Longrightarrow> 0 \<le> op_windowHours op \<Longrightarrow> groups_ok op p (fst (fold (group_step op p) xs st))"
proof (induction xs arbitrary: st)
  case (Cons x xs)
  then show ?case using Cons.IH[of "group_step op p x st"] groups_ok_step[of op p st x] by simp
qed simp

lemma group_punches_ok: "0 \<le> op_windowHours op \<Longrightarrow> groups_ok op p (group_punches op p punches)"
  unfolding group_punches_def by (rule groups_ok_fold) (simp_all add: groups_ok_def open_ok_def)

text \<open>C15. Every punch of a session is within reach of its shift: after its arrival window opened (or nearer to its start than to the end
  of any shift before, unless keyed as a departure) and no later than its deadline or, for the close, its bound; a punch that is on a
  day without such a shift is on its own calendar day, which has no shift at all, and one that matches none is flagged on its own day.\<close>

theorem session_punches_within_reach:
  assumes "s \<in> set (sessioniseByRoster op p punches)" and "e \<in> set (se_punches s)" and "0 \<le> op_windowHours op"
  shows "\<exists>x \<in> set punches. trace_raw x = trace_ev e \<and>
    (if se_unassigned s then se_day s = day_of (pu_timestamp e)
     else case se_anchor s of
       None \<Rightarrow> (\<exists>w. owns op p (se_day s) x w) \<or> (se_day s = day_of (pu_timestamp e) \<and> filter bounded (candidates p (se_day s)) = [])
     | Some t \<Rightarrow> \<exists>w \<in> set (candidates p (se_day s)). start_of w = t \<and> t - hours (op_windowHours op) \<le> pu_timestamp e \<and>
         pu_timestamp e \<le> max (deadlineFor op p w) (closeBoundFor p w))"
proof -
  obtain k ps where g: "(k, ps) \<in> set (group_punches op p punches)" "s = shape_session op p (k, ps)"
    using assms(1) by (auto simp: sessioniseByRoster_def)
  have "trace_ev e \<in> trace_raw ` set ps"
    using assms(2) arg_cong[OF session_trace[of op p "(k, ps)"], of set] g(2) by auto
  then obtain x where x: "x \<in> set ps" "trace_raw x = trace_ev e" by auto
  then have t: "rw_at x = pu_timestamp e" by (simp add: trace_raw_def trace_ev_def)
  have "x \<in> set (members (group_punches op p punches))" using g(1) x(1) by (force simp: members_def)
  then have "x \<in> set punches" using group_punches_members presses_sub by (metis mset_eq_setD subsetD)
  moreover have "placed op p x k" using group_punches_ok[OF assms(3)] g(1) x(1) by (fastforce simp: groups_ok_def)
  ultimately show ?thesis
    using x(2) by (intro bexI[of _ x]) (auto simp: g(2) shape_session_def Let_def placed_def t is_unassigned_def split: session_key.splits)
qed

text \<open>Whatever the device said against the position of a punch is on record: a direction is replaced only where nobody vouches for it,
  and then the session holds the correction.\<close>

lemma overridden_direction_recorded:
  assumes "s \<in> set (sessioniseByRoster op p punches)" and "e \<in> set (se_punches s)"
  shows "\<exists>x \<in> set punches. trace_raw x = trace_ev e \<and>
    (pu_type e = deviceDir (rw_status x) \<or>
     (\<not> directed op x \<and> pu_inferred e \<and> (deviceDir (rw_status x) = [] \<or> (rw_at x, deviceDir (rw_status x), pu_type e) \<in> set (se_corrections s))))"
proof -
  obtain k ps where g: "(k, ps) \<in> set (group_punches op p punches)" "s = shape_session op p (k, ps)"
    using assms(1) by (auto simp: sessioniseByRoster_def)
  let ?ps = "sort_key rw_at ps"
  let ?lone = "loneDirection p (key_day k) ?ps"
  obtain ix where ix: "ix \<in> set (enumerate 0 ?ps)" "e = shape_punch op k ?lone (length ?ps) ix"
    using assms(2) by (auto simp: g(2) shape_session_def Let_def)
  have "snd ix \<in> set ps" using ix(1) by (auto simp: in_set_enumerate_eq) (metis in_set_conv_nth length_sort set_sort)
  then have "snd ix \<in> set (members (group_punches op p punches))" using g(1) by (force simp: members_def)
  then have "snd ix \<in> set punches" using group_punches_members presses_sub by (metis mset_eq_setD subsetD)
  moreover define pos dev where "pos = positional ?lone (fst ix) (length ?ps)" and "dev = deviceDir (rw_status (snd ix))"
  have "(rw_at (snd ix), dev, pos) \<in> set (se_corrections s)" if "\<not> directed op (snd ix)" "pos \<noteq> []" "dev \<noteq> []" "dev \<noteq> pos"
  proof -
    have "(rw_at (snd ix), dev, pos) \<in> set (correction_of op ?lone (length ?ps) ix)"
      using that by (simp add: correction_of_def Let_def pos_def dev_def)
    then show ?thesis using ix(1) by (force simp: g(2) shape_session_def Let_def)
  qed
  moreover have "pu_type e = (if directed op (snd ix) then dev else if pos \<noteq> [] then pos else dev)" "pu_inferred e \<longleftrightarrow> \<not> directed op (snd ix)"
    by (simp_all add: ix(2) shape_punch_def Let_def pos_def dev_def)
  moreover have "trace_raw (snd ix) = trace_ev e" by (simp add: ix(2) trace_shape)
  ultimately show ?thesis unfolding dev_def[symmetric]
    by (intro bexI[of _ "snd ix"] conjI) (auto simp: dev_def)
qed

section \<open>Observed cases\<close>

definition crew :: "string \<Rightarrow> string \<Rightarrow> roster" where
  "crew fr to = (\<lambda>_. Some (plain_pattern \<lparr>wi_from = Some fr, wi_to = Some to, wi_cutoffTime = None, wi_cutoffOffset = None, wi_templateId = None\<rparr>))"

definition scan :: "int \<Rightarrow> int \<Rightarrow> int \<Rightarrow> int \<Rightarrow> raw_punch" where
  "scan day h m status = \<lparr>rw_at = at_day day + h * 3600000 + m * 60000, rw_sn = Some ''A'', rw_status = Some status, rw_verified = False,
     rw_trust = None, rw_occurredAt = None, rw_siteId = None, rw_eventId = None, rw_clockIssue = False\<rparr>"

definition seen :: "session list \<Rightarrow> (int \<times> string list) list" where
  "seen ss = map (\<lambda>s. (se_day s, map pu_type (se_punches s))) ss"

text \<open>ATT-CLOSE-9H-01: the departure at 08:30 closes the evening shift that ended at midnight.\<close>

lemma late_departure_closes:
  "seen (sessioniseByRoster default_options (crew ''15:00'' ''00:00'')
     [scan 100 15 2 0, scan 101 8 30 1, scan 101 14 58 0]) = [(100, [''IN'', ''OUT'']), (101, [''IN''])]"
  by code_simp

text \<open>ATT-EXPLICIT-OUT-01: a check-out chosen at 09:51 closes the shift of the evening before, past the nine hours.\<close>

lemma chosen_checkout_closes:
  "seen (sessioniseByRoster default_options (crew ''15:00'' ''00:00'') [scan 100 15 0 0, scan 101 9 51 1, scan 101 15 1 0]) =
     [(100, [''IN'', ''OUT'']), (101, [''IN''])]"
  by code_simp

text \<open>HR-ATT-EARLY-ARRIVAL-01: keyed IN at 16:17 for a shift at 22:00, after the last one was closed: an early arrival.\<close>

lemma early_arrival_opens:
  "seen (sessioniseByRoster default_options (crew ''22:00'' ''07:00'')
     [scan 100 21 58 0, scan 101 7 4 1, scan 101 16 17 0, scan 102 8 22 1]) = [(100, [''IN'', ''OUT'']), (101, [''IN'', ''OUT''])]"
  by code_simp

text \<open>ATT-OUT-NEXT-ARRIVAL-01: the day has its departure, so the OUT shortly before the next start is that day's arrival.\<close>

lemma all_out_crew:
  "seen (sessioniseByRoster default_options (crew ''10:00'' ''22:00'') [scan 100 9 40 0, scan 100 22 5 1, scan 101 9 38 1]) =
     [(100, [''IN'', ''OUT'']), (101, [''OUT''])]"
  by code_simp

text \<open>HR-ATT-EARLY-ARRIVAL-01 as reported: the IN at 16:17 while the shift of the evening before is still open.\<close>

lemma early_arrival_while_open:
  "seen (sessioniseByRoster default_options (crew ''22:00'' ''07:00'') [scan 100 21 58 0, scan 101 16 17 0, scan 102 8 22 1]) =
     [(100, [''IN'']), (101, [''IN'', ''OUT''])]"
  by code_simp

definition evening_scans :: "raw_punch list" where
  "evening_scans = [scan 100 15 2 0, scan 101 8 30 1, scan 101 14 58 0]"

theorem sessions_account_punches_witness:
  "mset (concat (map (map trace_ev \<circ> se_punches) (sessioniseByRoster default_options (crew ''15:00'' ''00:00'') evening_scans))) =
     mset (map trace_raw evening_scans)"
proof -
  have "presses default_options evening_scans = evening_scans" by code_simp
  then show ?thesis
    using sessions_account_punches[OF refl, of default_options "crew ''15:00'' ''00:00''" evening_scans] by (simp add: default_options_def)
qed

theorem sessions_independent_of_order_witness:
  "sessioniseByRoster default_options (crew ''15:00'' ''00:00'') (rev evening_scans) =
     sessioniseByRoster default_options (crew ''15:00'' ''00:00'') evening_scans"
proof -
  have "inj_on rw_at (set (rev evening_scans))" by (simp add: evening_scans_def scan_def at_day_def day_ms_def)
  then show ?thesis by (intro sessions_independent_of_order) simp_all
qed

lemma evening_sessions:
  "map (\<lambda>s. (se_day s, se_unassigned s, se_anchor s, se_punches s = [])) (sessioniseByRoster default_options (crew ''15:00'' ''00:00'') evening_scans) =
     [(100, False, None, False), (101, False, None, False)]"
  by code_simp

theorem session_punches_within_reach_witness:
  "\<exists>x \<in> set evening_scans. \<exists>w. owns default_options (crew ''15:00'' ''00:00'') 100 x w"
proof -
  let ?ss = "sessioniseByRoster default_options (crew ''15:00'' ''00:00'') evening_scans"
  obtain s where s: "s \<in> set ?ss" "se_day s = 100" "se_unassigned s = False" "se_anchor s = None" "se_punches s \<noteq> []"
    using evening_sessions by (cases ?ss) auto
  obtain e where e: "e \<in> set (se_punches s)" using s(5) by (cases "se_punches s") auto
  have ne: "filter bounded (candidates (crew ''15:00'' ''00:00'') 100) \<noteq> []" by code_simp
  have "0 \<le> op_windowHours default_options" by (simp add: default_options_def)
  from session_punches_within_reach[OF s(1) e this] s(2-4) ne show ?thesis by auto
qed

end
