(* ===== verification/Replay.thy ===== *)
theory Replay
  imports Sessions
begin

text \<open>
  The verdict on each session of the replay: \<^verbatim>\<open>replayTenant\<close> of \<^verbatim>\<open>src/src/lib/attendanceReplay.js\<close> from a session to its
  verdict, with the times HR entered by hand, the repair of wrongly keyed punches
  (\<^verbatim>\<open>src/src/lib/attendanceDirectionRepair.js\<close>), the checks on sites (\<^verbatim>\<open>src/src/lib/attendanceSiteRules.js\<close>) and the daily
  budget of approved overtime (\<^verbatim>\<open>src/src/lib/attendanceOvertime.js\<close>). Conversions between time zones, which the database
  values have gone through when they arrive here, are left out, and with them the two issues about ambiguous clock times.
\<close>

section \<open>Times entered by hand\<close>

record manual_time =
  mt_direction :: string
  mt_timestamp :: int

definition manual_punch :: "manual_time \<Rightarrow> evidence" where
  "manual_punch m = \<lparr>pu_type = mt_direction m, pu_timestamp = mt_timestamp m, pu_occurredAt = None, pu_siteId = None, pu_eventId = None,
     pu_sn = None, pu_inferred = False, pu_directionVerified = True, ev_outside = False, ev_clockIssue = False, ev_manual = True\<rparr>"

text \<open>An overlay supplies a boundary the devices did not record; it never replaces one.\<close>

definition overlay_step :: "manual_time \<Rightarrow> evidence list \<Rightarrow> evidence list" where
  "overlay_step m es = (if list_ex (\<lambda>e. pu_type e = mt_direction m) es then es else es @ [manual_punch m])"

definition with_overlays :: "manual_time list \<Rightarrow> evidence list \<Rightarrow> evidence list" where
  "with_overlays ms es = sort_key pu_timestamp (fold overlay_step ms es)"

definition boundary :: "string \<Rightarrow> evidence list \<Rightarrow> int option" where
  "boundary direction es =
    (let recorded = sort (map pu_timestamp (filter (\<lambda>e. pu_type e = direction) es)) in
     if recorded = [] then None else if direction = ''IN'' then Some (hd recorded) else Some (last recorded))"

text \<open>A correction stored on the day before sessions existed counts only where it agrees with the evidence or fills a gap.\<close>

definition legacy_step :: "evidence list \<Rightarrow> string \<times> int option \<Rightarrow> manual_time list \<Rightarrow> hr_error + manual_time list" where
  "legacy_step es dv ms =
    (case snd dv of None \<Rightarrow> Inr ms
     | Some v \<Rightarrow>
         (case boundary (fst dv) es of
            Some b \<Rightarrow> if b \<noteq> v then Inl (AppError 409 ''LEGACY_MANUAL_REVIEW'') else Inr ms
          | None \<Rightarrow> Inr (if list_ex (\<lambda>m. mt_direction m = fst dv) ms then ms else ms @ [\<lparr>mt_direction = fst dv, mt_timestamp = v\<rparr>])))"

definition legacy_overlays :: "(int option \<times> int option) option \<Rightarrow> nat \<Rightarrow> evidence list \<Rightarrow> manual_time list \<Rightarrow> hr_error + manual_time list" where
  "legacy_overlays row sessions es ms =
    (case row of None \<Rightarrow> Inr ms
     | Some (checkIn, checkOut) \<Rightarrow>
         rbind (ensure (sessions = 1) (AppError 409 ''LEGACY_MANUAL_REVIEW'')) (\<lambda>_.
           rfold (legacy_step es) [(''IN'', checkIn), (''OUT'', checkOut)] ms))"

section \<open>Wrongly keyed punches\<close>

definition punch_of :: "evidence \<Rightarrow> punch" where
  "punch_of e = punch.truncate e"

definition evaluate :: "evidence list \<Rightarrow> roster_shift \<Rightarrow> eval_policy \<Rightarrow> int \<Rightarrow> credit list \<Rightarrow> shift_result" where
  "evaluate es s policy now credits = evaluateShift (map punch_of es) s policy now credits"

definition retype :: "string \<Rightarrow> evidence \<Rightarrow> evidence" where
  "retype d e = (if pu_type e = d then e else e\<lparr>pu_type := d, pu_inferred := True\<rparr>)"

record repair =
  rp_result :: shift_result
  rp_punches :: "evidence list"
  rp_corrections :: "(int \<times> string \<times> string) list"

definition repairLone :: "evidence \<Rightarrow> roster_shift \<Rightarrow> eval_policy \<Rightarrow> int \<Rightarrow> credit list \<Rightarrow> day_result \<Rightarrow> repair option" where
  "repairLone e s policy now credits d =
    (let a = plus_null (sh_start s); b = plus_null (sh_end s); t = pu_timestamp e;
       type = (if pu_type e = ''OUT'' \<and> res_status d = ''MISSING_CHECKIN'' \<and> 4 * t \<le> 4 * a + (b - a) then Some ''IN''
         else if pu_type e = ''IN'' \<and> res_status d = ''MISSING_CHECKOUT'' \<and> 4 * b - (b - a) \<le> 4 * t then Some ''OUT'' else None)
     in case type of None \<Rightarrow> None
        | Some ty \<Rightarrow> let e' = e\<lparr>pu_type := ty, pu_inferred := True\<rparr> in
            Some \<lparr>rp_result = evaluate [e'] s policy now credits, rp_punches = [e'], rp_corrections = [(t, pu_type e, ty)]\<rparr>)"

definition retyped :: "evidence list \<Rightarrow> evidence list" where
  "retyped es = map (\<lambda>(i, e). if i = 0 then retype ''IN'' e else if i = length es - 1 then retype ''OUT'' e else e) (enumerate 0 es)"

definition near_edges :: "evidence list \<Rightarrow> roster_shift \<Rightarrow> bool" where
  "near_edges es s \<longleftrightarrow>
    (let a = plus_null (sh_start s); b = plus_null (sh_end s); f = pu_timestamp (hd es); l = pu_timestamp (last es)
     in 60 * 60 * 1000 \<le> l - f \<and> \<bar>f - a\<bar> \<le> \<bar>f - b\<bar> \<and> \<bar>l - b\<bar> \<le> \<bar>l - a\<bar>)"

definition complete_after :: "day_result \<Rightarrow> bool" where
  "complete_after d \<longleftrightarrow> res_status d \<in> set [''PRESENT'', ''LATE'', ''EARLY_CHECKOUT'', ''HALF_DAY''] \<and> res_checkIn d \<noteq> None \<and> res_checkOut d \<noteq> None"

definition repairDirection :: "evidence list \<Rightarrow> roster_shift \<Rightarrow> eval_policy \<Rightarrow> int \<Rightarrow> credit list \<Rightarrow> day_result \<Rightarrow> repair option" where
  "repairDirection es s policy now credits d =
    (if res_status d \<notin> set [''MISSING_CHECKIN'', ''MISSING_CHECKOUT''] then None
     else if sh_start s = None \<or> sh_end s = None then None
     else if list_ex (\<lambda>e. ev_manual e \<or> pu_directionVerified e) es then None
     else case es of [] \<Rightarrow> None
     | [e] \<Rightarrow> repairLone e s policy now credits d
     | _ \<Rightarrow>
         let ordered = sort_key pu_timestamp es; changed = retyped ordered; r = evaluate changed s policy now credits in
         if \<not> near_edges ordered s then None
         else if changed = ordered then None
         else if \<not> complete_after (sr_day r) then None
         else Some \<lparr>rp_result = r, rp_punches = changed,
           rp_corrections = map (\<lambda>(o', c). (pu_timestamp c, if pu_type c = ''IN'' then ''OUT'' else ''IN'', pu_type c))
             (filter (\<lambda>(o', c). c \<noteq> o') (zip ordered changed))\<rparr>)"

section \<open>Sites\<close>

record site_setup =
  st_published :: bool
  st_authorized :: "nat list"
  st_devices :: "(string \<times> nat) list"
  st_routes :: "((nat \<times> nat) \<times> rat) list"

record travel =
  tv_from :: nat
  tv_to :: nat
  tv_start :: int
  tv_end :: int

definition site_of :: "site_setup \<Rightarrow> evidence \<Rightarrow> nat option" where
  "site_of st e = (case pu_siteId e of Some k \<Rightarrow> Some k | None \<Rightarrow> Option.bind (pu_sn e) (map_of (st_devices st)))"

definition moved_at :: "evidence \<Rightarrow> int" where
  "moved_at e = (case pu_occurredAt e of Some t \<Rightarrow> t | None \<Rightarrow> pu_timestamp e)"

definition transfer_issues :: "site_setup \<Rightarrow> travel list \<Rightarrow> evidence \<times> evidence \<Rightarrow> string list" where
  "transfer_issues st travels ab =
    (case (site_of st (fst ab), site_of st (snd ab)) of
       (Some x, Some y) \<Rightarrow>
         if x = y then []
         else
           (if pu_type (fst ab) \<noteq> ''OUT'' \<or> pu_type (snd ab) \<noteq> ''IN'' then [''CROSS_SITE_OPEN_INTERVAL''] else []) @
           (case map_of (st_routes st) (x, y) of None \<Rightarrow> []
            | Some m \<Rightarrow> if of_int (moved_at (snd ab) - moved_at (fst ab)) / 60000 < m then [''IMPLAUSIBLE_SITE_TRANSFER''] else []) @
           (if list_ex (\<lambda>c. tv_from c = x \<and> tv_to c = y \<and> tv_start c \<le> pu_timestamp (fst ab) \<and> pu_timestamp (snd ab) \<le> tv_end c) travels
            then [] else [''SITE_TRANSFER_REVIEW''])
     | _ \<Rightarrow> [])"

definition evaluateSiteEvidence :: "site_setup \<Rightarrow> travel list \<Rightarrow> evidence list \<Rightarrow> string list" where
  "evaluateSiteEvidence st travels es =
    (if \<not> st_published st then []
     else concat (map (\<lambda>e. case site_of st e of None \<Rightarrow> [''SITE_NOT_MAPPED'']
            | Some k \<Rightarrow> if k \<in> set (st_authorized st) then [] else [''SITE_NOT_ASSIGNED'']) es) @
          concat (map (transfer_issues st travels) (zip es (tl es))))"

section \<open>The verdict on a session\<close>

record verdict =
  vd_day :: day_result
  vd_accounting :: "accounting option"
  vd_issues :: "string list"

definition nonWorkingDayCredit :: "string option \<Rightarrow> rat" where
  "nonWorkingDayCredit reason = (if reason = Some ''APPROVED_LEAVE'' then 1 else 0)"

definition plain_day :: "string \<Rightarrow> int option \<Rightarrow> int option \<Rightarrow> rat option \<Rightarrow> string \<Rightarrow> bool \<Rightarrow> day_result" where
  "plain_day status checkIn checkOut credit state regularize =
    \<lparr>res_status = status, res_checkIn = checkIn, res_checkOut = checkOut, res_inProgress = False, res_workedPercent = None,
     res_rulesVersion = None, res_anomalies = [], res_dayCredit = credit, res_processingState = state, res_requiresRegularization = regularize\<rparr>"

definition first_of :: "string \<Rightarrow> evidence list \<Rightarrow> int option" where
  "first_of type es = map_option pu_timestamp (find (\<lambda>e. pu_type e = type) es)"

definition evaluated :: "shift_result \<Rightarrow> verdict" where
  "evaluated r = \<lparr>vd_day = sr_day r, vd_accounting = Some (sr_accounting r), vd_issues = map fst (sr_issues r)\<rparr>"

text \<open>What is known of the day when the session is scored; the two corrections are made first.\<close>

definition checked_working :: "bool option \<Rightarrow> string option \<Rightarrow> bool \<Rightarrow> roster_shift \<Rightarrow> evidence list \<Rightarrow> bool option \<times> string option" where
  "checked_working working reason rotating s es =
    (if working = Some True \<and> (sh_start s = None \<or> sh_end s = None) then (None, Some ''MISSING_SHIFT_WINDOW'')
     else if working = Some True \<and> rotating \<and> es = [] then (None, Some ''ROTATION_ASSIGNMENT_REQUIRED'')
     else (working, reason))"

definition scored :: "bool option \<Rightarrow> string option \<Rightarrow> evidence list \<Rightarrow> roster_shift \<Rightarrow> eval_policy \<Rightarrow> int \<Rightarrow> credit list \<Rightarrow> verdict \<times> evidence list" where
  "scored working reason es s policy now credits =
    (let r = evaluate es s policy now credits;
       (v, es') = (case repairDirection es s policy now credits (sr_day r) of
          None \<Rightarrow> (evaluated r, es) | Some rp \<Rightarrow> (evaluated (rp_result rp), rp_punches rp));
       settled = (\<lambda>d. d\<lparr>res_status := ''PRESENT'', res_dayCredit := Some 1, res_requiresRegularization := False, res_anomalies := [],
          res_processingState := ''FINALIZED''\<rparr>)
     in (if reason = Some ''PAID_NO_PUNCH'' then v\<lparr>vd_day := settled (vd_day v), vd_issues := []\<rparr>
         else if working \<noteq> Some True \<and> reason \<noteq> Some ''APPROVED_LEAVE'' \<and> res_status (vd_day v) \<noteq> ''PUNCH_CONFLICT'' \<and> \<not> res_inProgress (vd_day v)
         then v\<lparr>vd_day := settled (vd_day v)\<rparr>
         else v, es'))"

definition raw_verdict :: "bool \<Rightarrow> bool option \<Rightarrow> string option \<Rightarrow> evidence list \<Rightarrow> roster_shift \<Rightarrow> eval_policy \<Rightarrow> int \<Rightarrow> credit list \<Rightarrow> verdict \<times> evidence list" where
  "raw_verdict unassigned working reason es s policy now credits =
    (if unassigned then
       (\<lparr>vd_day = plain_day ''PUNCH_CONFLICT'' None None None ''NEEDS_REVIEW'' True, vd_accounting = None, vd_issues = [''PUNCH_OUTSIDE_CHECKOUT_CUTOFF'']\<rparr>, es)
     else if working = None then
       (\<lparr>vd_day = plain_day ''SETUP_REQUIRED'' None None None ''NEEDS_REVIEW'' True, vd_accounting = None, vd_issues = [(case reason of None \<Rightarrow> [] | Some r \<Rightarrow> r)]\<rparr>, es)
     else if working = Some False \<and> length es < 2 then
       (\<lparr>vd_day = plain_day (if reason = Some ''HOLIDAY'' then ''HOLIDAY'' else if reason = Some ''APPROVED_LEAVE'' then ''ON_LEAVE'' else ''WEEKLY_OFF'')
            (first_of ''IN'' es) (first_of ''OUT'' es) (Some (nonWorkingDayCredit reason)) ''FINALIZED'' False,
          vd_accounting = None, vd_issues = []\<rparr>, es)
     else scored working reason es s policy now credits)"

definition review :: "string list \<Rightarrow> verdict \<Rightarrow> verdict" where
  "review issues v = (if issues = [] then v else v\<lparr>vd_day := (vd_day v)\<lparr>res_dayCredit := None, res_requiresRegularization := True,
     res_processingState := ''NEEDS_REVIEW''\<rparr>, vd_issues := vd_issues v @ issues\<rparr>)"

definition session_verdict :: "bool \<Rightarrow> bool option \<Rightarrow> string option \<Rightarrow> bool \<Rightarrow> evidence list \<Rightarrow> roster_shift \<Rightarrow> eval_policy \<Rightarrow> int \<Rightarrow> credit list \<Rightarrow>
    site_setup \<Rightarrow> travel list \<Rightarrow> verdict" where
  "session_verdict unassigned working reason rotating es s policy now credits st travels =
    (let (w, r) = checked_working working reason rotating s es;
       (v, es') = raw_verdict unassigned w r es s policy now credits
     in review (evaluateSiteEvidence st travels (filter (\<lambda>e. \<not> ev_manual e) es') @
          (if list_ex ev_clockIssue es' then [''AMBIGUOUS_LEGACY_TIMESTAMP''] else [])) v)"

section \<open>The daily budget of overtime\<close>

record ot_session =
  ot_employeeId :: int
  ot_day :: int
  ot_start :: "int option"
  ot_needsApproval :: bool
  ot_budgets :: "rat option list"
  ot_approved :: rat
  ot_payable :: "rat option"

text \<open>A credit without a maximum is an unlimited budget.\<close>

definition ot_budget :: "ot_session \<Rightarrow> rat option" where
  "ot_budget s = (if None \<in> set (ot_budgets s) then None else Some (\<Sum>m \<leftarrow> ot_budgets s. case m of None \<Rightarrow> 0 | Some x \<Rightarrow> x))"

definition ot_key :: "ot_session \<Rightarrow> int \<times> int" where
  "ot_key s = (ot_employeeId s, ot_day s)"

definition capped :: "ot_session \<Rightarrow> rat \<Rightarrow> rat" where
  "capped s prior = (case ot_budget s of None \<Rightarrow> ot_approved s | Some b \<Rightarrow> min (ot_approved s) (max 0 (b - prior)))"

definition charge_overtime :: "ot_session \<Rightarrow> rat \<Rightarrow> ot_session" where
  "charge_overtime s granted = s\<lparr>ot_approved := granted, ot_payable := map_option (\<lambda>p. p - (ot_approved s - granted)) (ot_payable s)\<rparr>"

fun cap_all :: "(int \<times> int \<Rightarrow> rat) \<Rightarrow> ('i \<times> ot_session) list \<Rightarrow> ('i \<times> ot_session) list" where
  "cap_all spent [] = []"
| "cap_all spent ((i, s) # ss) =
     (if \<not> ot_needsApproval s then (i, s) # cap_all spent ss
      else let granted = capped s (spent (ot_key s)) in
        (i, charge_overtime s granted) # cap_all (spent(ot_key s := spent (ot_key s) + granted)) ss)"

definition capDailyOvertime :: "ot_session list \<Rightarrow> ot_session list" where
  "capDailyOvertime ss = map snd (sort_key fst (cap_all (\<lambda>_. 0) (sort_key (\<lambda>x. plus_null (ot_start (snd x))) (enumerate 0 ss))))"

definition of_day :: "int \<times> int \<Rightarrow> ot_session \<Rightarrow> bool" where
  "of_day k s \<longleftrightarrow> ot_key s = k \<and> ot_needsApproval s"

lemma charged_fields [simp]:
  "ot_key (charge_overtime s g) = ot_key s" "ot_needsApproval (charge_overtime s g) = ot_needsApproval s" "ot_approved (charge_overtime s g) = g"
  "ot_budgets (charge_overtime s g) = ot_budgets s"
  by (simp_all add: ot_key_def charge_overtime_def)

lemma budget_step: "t \<le> max 0 (b - (p + g)) \<Longrightarrow> g \<le> max 0 (b - p) \<Longrightarrow> 0 \<le> g \<Longrightarrow> g + t \<le> max 0 (b - (p :: rat))"
  by (auto simp: max_def split: if_splits)

lemma cap_all_sum:
  assumes "\<And>i s. (i, s) \<in> set xs \<Longrightarrow> of_day k s \<Longrightarrow> ot_budget s = Some b \<and> 0 \<le> ot_approved s"
  shows "sum_list (map (ot_approved \<circ> snd) (filter (of_day k \<circ> snd) (cap_all spent xs))) \<le> max 0 (b - spent k)"
  using assms
proof (induction spent xs rule: cap_all.induct)
  case (2 spent i s ss)
  show ?case
  proof (cases "ot_needsApproval s")
    case False
    have "sum_list (map (ot_approved \<circ> snd) (filter (of_day k \<circ> snd) (cap_all spent ss))) \<le> max 0 (b - spent k)"
      using "2.IH"(1)[OF False] "2.prems" by (meson list.set_intros(2))
    moreover have "filter (of_day k \<circ> snd) (cap_all spent ((i, s) # ss)) = filter (of_day k \<circ> snd) (cap_all spent ss)"
      using False by (simp add: of_day_def comp_def)
    ultimately show ?thesis by (simp only:)
  next
    case True
    define g where "g = capped s (spent (ot_key s))"
    have IH: "sum_list (map (ot_approved \<circ> snd) (filter (of_day k \<circ> snd) (cap_all (spent(ot_key s := spent (ot_key s) + g)) ss))) \<le>
        max 0 (b - (spent(ot_key s := spent (ot_key s) + g)) k)"
      using "2.IH"(2)[of g] "2.prems" True unfolding g_def by (meson list.set_intros(2))
    have run: "cap_all spent ((i, s) # ss) = (i, charge_overtime s g) # cap_all (spent(ot_key s := spent (ot_key s) + g)) ss"
      using True by (simp add: g_def Let_def)
    show ?thesis
    proof (cases "ot_key s = k")
      case False
      then have e: "filter (of_day k \<circ> snd) (cap_all spent ((i, s) # ss)) =
          filter (of_day k \<circ> snd) (cap_all (spent(ot_key s := spent (ot_key s) + g)) ss)" unfolding run by (simp add: of_day_def comp_def)
      have "(spent(ot_key s := spent (ot_key s) + g)) k = spent k" using False by simp
      with IH show ?thesis unfolding e by (simp only:)
    next
      case key: True
      then have "ot_budget s = Some b" "0 \<le> ot_approved s" using "2.prems"[of i s] True by (auto simp: of_day_def)
      then have "g \<le> max 0 (b - spent k)" "0 \<le> g" by (auto simp: g_def capped_def key)
      moreover have "sum_list (map (ot_approved \<circ> snd) (filter (of_day k \<circ> snd) (cap_all spent ((i, s) # ss)))) =
          g + sum_list (map (ot_approved \<circ> snd) (filter (of_day k \<circ> snd) (cap_all (spent(ot_key s := spent (ot_key s) + g)) ss)))"
        using True key unfolding run by (simp add: of_day_def)
      moreover have "(spent(ot_key s := spent (ot_key s) + g)) k = spent k + g" using key by simp
      ultimately show ?thesis using IH by (simp only: budget_step)
    qed
  qed
qed simp

lemma capped_le: "capped s prior \<le> ot_approved s"
  by (auto simp: capped_def split: option.split)

definition reduced :: "ot_session \<Rightarrow> ot_session \<Rightarrow> bool" where
  "reduced s s' \<longleftrightarrow> (if ot_needsApproval s then \<exists>g \<le> ot_approved s. s' = charge_overtime s g else s' = s)"

lemma cap_all_pointwise: "list_all2 (\<lambda>x y. fst y = fst x \<and> reduced (snd x) (snd y)) xs (cap_all spent xs)"
proof (induction spent xs rule: cap_all.induct)
  case (2 spent i s ss)
  show ?case using 2 capped_le[of s "spent (ot_key s)"] by (cases "ot_needsApproval s") (auto simp: Let_def reduced_def simp del: fun_upd_apply)
qed simp

lemma of_day_sum_mset:
  assumes "mset xs = mset ys"
  shows "sum_list (map (ot_approved \<circ> snd) (filter (of_day k \<circ> snd) xs)) = sum_list (map (ot_approved \<circ> snd) (filter (of_day k \<circ> snd) ys))"
proof -
  have "mset (map (ot_approved \<circ> snd) (filter (of_day k \<circ> snd) xs)) = mset (map (ot_approved \<circ> snd) (filter (of_day k \<circ> snd) ys))"
    using assms by simp
  then show ?thesis by (metis sum_mset_sum_list)
qed

lemma set_enumerate_snd: "(i, s) \<in> set (enumerate n xs) \<Longrightarrow> s \<in> set xs"
  by (auto simp: in_set_enumerate_eq)

text \<open>C18. However many sessions a day has, the overtime approved for them together never exceeds the budget of the day.\<close>

theorem overtime_within_budget:
  assumes "list_all (\<lambda>s. of_day k s \<longrightarrow> ot_budget s = Some b \<and> 0 \<le> ot_approved s) ss"
  shows "sum_list (map ot_approved (filter (of_day k) (capDailyOvertime ss))) \<le> max 0 b"
proof -
  define xs where "xs = sort_key (\<lambda>x. plus_null (ot_start (snd x))) (enumerate 0 ss)"
  have "sum_list (map (ot_approved \<circ> snd) (filter (of_day k \<circ> snd) (cap_all (\<lambda>_. 0) xs))) \<le> max 0 (b - 0)"
    using assms by (intro cap_all_sum) (auto simp: xs_def list_all_iff dest: set_enumerate_snd)
  moreover have "sum_list (map ot_approved (filter (of_day k) (capDailyOvertime ss))) =
      sum_list (map (ot_approved \<circ> snd) (filter (of_day k \<circ> snd) (cap_all (\<lambda>_. 0) xs)))"
    unfolding capDailyOvertime_def xs_def[symmetric] filter_map map_map by (rule of_day_sum_mset) simp
  ultimately show ?thesis by simp
qed

section \<open>Repairs\<close>

definition erase :: "evidence \<Rightarrow> evidence" where
  "erase e = e\<lparr>pu_type := [], pu_inferred := False\<rparr>"

lemma erase_retype: "erase (retype d e) = erase e"
  by (simp add: erase_def retype_def)

lemma map_enumerate_snd: "(\<And>i x. f (i, x) = h x) \<Longrightarrow> map f (enumerate n xs) = map h xs"
  by (induction xs arbitrary: n) simp_all

lemma retyped_erase: "map erase (retyped es) = map erase es"
  unfolding retyped_def map_map by (rule map_enumerate_snd) (simp add: erase_retype)

text \<open>C17. A repair only reads directions anew: it happens on an incomplete day whose punches nobody vouches for, keeps every scan with
  all it records but the direction, and, for two scans or more, makes the day complete.\<close>

theorem repair_invents_nothing:
  assumes "repairDirection es s policy now credits d = Some rp"
  shows "res_status d \<in> {''MISSING_CHECKIN'', ''MISSING_CHECKOUT''} \<and> list_all (\<lambda>e. \<not> ev_manual e \<and> \<not> pu_directionVerified e) es \<and>
    map erase (rp_punches rp) = map erase (sort_key pu_timestamp es) \<and>
    rp_result rp = evaluate (rp_punches rp) s policy now credits \<and>
    (length es = 1 \<or> complete_after (sr_day (rp_result rp))) \<and>
    fst ` set (rp_corrections rp) \<subseteq> pu_timestamp ` set es \<and> rp_corrections rp \<noteq> []"
proof -
  have st: "res_status d \<in> {''MISSING_CHECKIN'', ''MISSING_CHECKOUT''}" and un: "list_all (\<lambda>e. \<not> ev_manual e \<and> \<not> pu_directionVerified e) es"
    using assms by (auto simp: repairDirection_def list_all_iff list_ex_iff split: if_split_asm)
  show ?thesis
  proof (cases "length es = 1")
    case True
    then obtain e where e: "es = [e]" by (cases es) auto
    then have "repairLone e s policy now credits d = Some rp" using assms by (simp add: repairDirection_def split: if_split_asm)
    then show ?thesis using st un by (auto simp: e repairLone_def Let_def erase_def split: if_split_asm)
  next
    case False
    moreover have "es \<noteq> []" using assms by (auto simp: repairDirection_def split: if_split_asm)
    ultimately obtain e1 e2 rest where e: "es = e1 # e2 # rest" by (cases es; cases "tl es") auto
    define o' where "o' = sort_key pu_timestamp es"
    have rp: "retyped o' \<noteq> o'" "complete_after (sr_day (evaluate (retyped o') s policy now credits))"
      "rp = \<lparr>rp_result = evaluate (retyped o') s policy now credits, rp_punches = retyped o',
         rp_corrections = map (\<lambda>(x, c). (pu_timestamp c, if pu_type c = ''IN'' then ''OUT'' else ''IN'', pu_type c)) (filter (\<lambda>(x, c). c \<noteq> x) (zip o' (retyped o')))\<rparr>"
      using assms unfolding o'_def by (auto simp: repairDirection_def e Let_def split: if_split_asm)
    have times: "map pu_timestamp (retyped o') = map pu_timestamp o'"
      using arg_cong[OF retyped_erase[of o'], of "map pu_timestamp"] by (simp add: comp_def erase_def)
    have "fst ` set (rp_corrections rp) \<subseteq> set (map pu_timestamp (retyped o'))" by (auto simp: rp(3) dest: set_zip_rightD)
    then have "fst ` set (rp_corrections rp) \<subseteq> pu_timestamp ` set es" unfolding times by (simp add: o'_def)
    moreover have "rp_corrections rp \<noteq> []"
    proof -
      have len: "length (retyped o') = length o'" by (simp add: retyped_def)
      then obtain i where "i < length o'" "retyped o' ! i \<noteq> o' ! i" using rp(1) by (auto simp: list_eq_iff_nth_eq)
      then have "(o' ! i, retyped o' ! i) \<in> set (zip o' (retyped o'))" using len by (auto simp: in_set_zip)
      then show ?thesis using \<open>retyped o' ! i \<noteq> o' ! i\<close> by (force simp: rp(3) filter_empty_conv)
    qed
    ultimately show ?thesis using st un rp(2) retyped_erase[of o'] by (simp add: rp(3) o'_def[symmetric])
  qed
qed

section \<open>The verdict\<close>

definition settled_ok :: "bool option \<Rightarrow> string option \<Rightarrow> nat \<Rightarrow> day_result \<Rightarrow> bool" where
  "settled_ok working reason n d \<longleftrightarrow>
    res_processingState d \<in> {''OPEN'', ''NEEDS_REVIEW'', ''FINALIZED''} \<and>
    (res_dayCredit d \<noteq> None \<longleftrightarrow> res_processingState d = ''FINALIZED'') \<and>
    (res_processingState d = ''FINALIZED'' \<longrightarrow> res_anomalies d = [] \<and>
       ((res_dayCredit d = Some 1 \<and> (res_status d = ''PRESENT'' \<or> (res_status d = ''ON_LEAVE'' \<and> working = Some False \<and> reason = Some ''APPROVED_LEAVE''))) \<or>
        (res_dayCredit d = Some 0 \<and> res_status d \<in> {''HOLIDAY'', ''WEEKLY_OFF''} \<and> working = Some False \<and> n < 2 \<and> reason \<noteq> Some ''APPROVED_LEAVE'')))"

definition patient :: "eval_policy \<Rightarrow> bool" where
  "patient policy \<longleftrightarrow> 0 \<le> fst (effective_grace (anomaly_policy.truncate policy)) \<and> 0 \<le> snd (effective_grace (anomaly_policy.truncate policy))"

lemma evaluate_settled: "patient policy \<Longrightarrow> settled_ok w r n (sr_day (evaluate es s policy now credits))"
  using evaluateShift_settled[of policy "map punch_of es" s now credits] by (auto simp: settled_ok_def patient_def evaluate_def)

lemma repair_evaluates: "repairDirection es s policy now credits d = Some rp \<Longrightarrow> \<exists>es'. rp_result rp = evaluate es' s policy now credits"
  by (auto simp: repairDirection_def repairLone_def Let_def split: if_split_asm list.split_asm)

lemma scored_settled:
  assumes "patient policy" "scored w r es s policy now credits = (v, es')" shows "settled_ok w r n (vd_day v)"
proof -
  obtain v0 es0 where v0: "(case repairDirection es s policy now credits (sr_day (evaluate es s policy now credits)) of
      None \<Rightarrow> (evaluated (evaluate es s policy now credits), es) | Some rp \<Rightarrow> (evaluated (rp_result rp), rp_punches rp)) = (v0, es0)" by fastforce
  then obtain es1 where "v0 = evaluated (evaluate es1 s policy now credits)"
    by (auto dest: repair_evaluates split: option.splits)
  then have "settled_ok w r n (vd_day v0)" using evaluate_settled[OF assms(1)] by (simp add: evaluated_def)
  moreover have "settled_ok w r n (d\<lparr>res_status := ''PRESENT'', res_dayCredit := Some 1, res_requiresRegularization := False,
      res_anomalies := [], res_processingState := ''FINALIZED''\<rparr>)" for d by (simp add: settled_ok_def)
  ultimately show ?thesis using assms(2) unfolding scored_def Let_def v0 by (auto split: if_split_asm)
qed

lemma raw_settled:
  assumes "patient policy" "raw_verdict unassigned w r es s policy now credits = (v, es')" shows "settled_ok w r (length es) (vd_day v)"
proof (cases "unassigned \<or> w = None \<or> (w = Some False \<and> length es < 2)")
  case True
  then show ?thesis using assms(2)
    by (auto simp: raw_verdict_def plain_day_def settled_ok_def nonWorkingDayCredit_def split: if_split_asm)
next
  case False
  then have "scored w r es s policy now credits = (v, es')" using assms(2) by (auto simp: raw_verdict_def)
  then show ?thesis by (rule scored_settled[OF assms(1)])
qed

text \<open>C16. Whatever the punches of a session, its verdict is settled all or nothing: a credit is given exactly with a final state, a
  final session carries no anomaly, a full credit is given for a day present or on approved leave, and a final day without credit
  is a holiday or day of rest nobody worked on.\<close>

theorem session_verdict_settled:
  assumes "0 \<le> fst (effective_grace (anomaly_policy.truncate policy))" and "0 \<le> snd (effective_grace (anomaly_policy.truncate policy))"
  shows "settled_ok working reason (length es)
    (vd_day (session_verdict unassigned working reason rotating es s policy now credits st travels))"
proof -
  have p: "patient policy" using assms by (simp add: patient_def)
  obtain w r where wr: "checked_working working reason rotating s es = (w, r)" by fastforce
  obtain v es' where v: "raw_verdict unassigned w r es s policy now credits = (v, es')" by fastforce
  have "settled_ok w r (length es) (vd_day v)" by (rule raw_settled[OF p v])
  then have "settled_ok working reason (length es) (vd_day v)"
    using wr by (auto simp: checked_working_def settled_ok_def split: if_split_asm)
  then have "settled_ok working reason (length es) (vd_day (review issues v))" for issues
    by (cases "issues = []") (simp_all add: review_def settled_ok_def)
  then show ?thesis by (simp add: session_verdict_def wr v Let_def)
qed

section \<open>Examples\<close>

definition overtime_day :: "ot_session list" where
  "overtime_day = map (\<lambda>(t, m). \<lparr>ot_employeeId = 7, ot_day = 100, ot_start = Some t, ot_needsApproval = True, ot_budgets = [Some 90],
     ot_approved = m, ot_payable = Some (300 + m)\<rparr>) [(50, 60), (20, 45)]"

theorem overtime_within_budget_witness:
  "sum_list (map ot_approved (filter (of_day (7, 100)) (capDailyOvertime overtime_day))) \<le> max 0 90"
proof (rule overtime_within_budget)
  show "list_all (\<lambda>s. of_day (7, 100) s \<longrightarrow> ot_budget s = Some 90 \<and> 0 \<le> ot_approved s) overtime_day" by code_simp
qed

text \<open>The earlier session is served first: of sixty and forty-five minutes against ninety, forty-five are left of the sixty.\<close>

lemma overtime_day_capped: "map (\<lambda>s. (ot_approved s, ot_payable s)) (capDailyOvertime overtime_day) = [(45, Some 345), (45, Some 345)]"
  by code_simp

definition keyed :: "string \<Rightarrow> int \<Rightarrow> evidence" where
  "keyed d t = \<lparr>pu_type = d, pu_timestamp = t, pu_occurredAt = None, pu_siteId = None, pu_eventId = None, pu_sn = None,
     pu_inferred = False, pu_directionVerified = False, ev_outside = False, ev_clockIssue = False, ev_manual = False\<rparr>"

text \<open>Somebody keyed OUT on arrival: the day, incomplete as recorded, is complete once the first scan is read as the arrival.\<close>

lemma wrong_key_repaired:
  "map_option (\<lambda>rp. (map pu_type (rp_punches rp), rp_corrections rp))
    (repairDirection [keyed ''OUT'' 240000, keyed ''OUT'' 3900000] (sample_shift\<lparr>sh_end := Some 3900000\<rparr>) sample_eval_policy 99000000 []
      (sr_day (evaluate [keyed ''OUT'' 240000, keyed ''OUT'' 3900000] (sample_shift\<lparr>sh_end := Some 3900000\<rparr>) sample_eval_policy 99000000 []))) =
   Some ([''IN'', ''OUT''], [(240000, ''OUT'', ''IN'')])"
  by code_simp

theorem repair_invents_nothing_witness:
  "\<exists>rp :: repair. map pu_type (rp_punches rp) = [''IN'', ''OUT''] \<and>
     map erase (rp_punches rp) = map erase (sort_key pu_timestamp [keyed ''OUT'' 240000, keyed ''OUT'' 3900000]) \<and> complete_after (sr_day (rp_result rp))"
proof -
  obtain rp where rp: "repairDirection [keyed ''OUT'' 240000, keyed ''OUT'' 3900000] (sample_shift\<lparr>sh_end := Some 3900000\<rparr>) sample_eval_policy 99000000 []
      (sr_day (evaluate [keyed ''OUT'' 240000, keyed ''OUT'' 3900000] (sample_shift\<lparr>sh_end := Some 3900000\<rparr>) sample_eval_policy 99000000 [])) = Some rp"
    "map pu_type (rp_punches rp) = [''IN'', ''OUT'']"
    using wrong_key_repaired unfolding map_option_eq_Some prod.inject by (elim exE conjE) (rule that)
  note facts = repair_invents_nothing[OF rp(1)]
  have erased: "map erase (rp_punches rp) = map erase (sort_key pu_timestamp [keyed ''OUT'' 240000, keyed ''OUT'' 3900000])"
    using facts by (elim conjE)
  have "length [keyed ''OUT'' 240000, keyed ''OUT'' 3900000] = 1 \<or> complete_after (sr_day (rp_result rp))"
    using facts by (elim conjE)
  then have "complete_after (sr_day (rp_result rp))" by simp
  with rp(2) erased show ?thesis by - (rule exI[of _ rp], intro conjI; assumption)
qed

definition no_sites :: site_setup where
  "no_sites = \<lparr>st_published = False, st_authorized = [], st_devices = [], st_routes = []\<rparr>"

theorem session_verdict_settled_witness:
  "settled_ok (Some False) (Some ''HOLIDAY'') 1
    (vd_day (session_verdict False (Some False) (Some ''HOLIDAY'') False [keyed ''IN'' 240000] sample_shift sample_eval_policy 99000000 [] no_sites []))"
  using session_verdict_settled[of sample_eval_policy "Some False" "Some ''HOLIDAY''" "[keyed ''IN'' 240000]" False False sample_shift 99000000 "[]" no_sites "[]"]
  by (simp add: sample_graces)

end
