(* ===== verification/Leave.thy ===== *)
theory Leave
  imports WorkingDay
begin

text \<open>
  Leave: \<^verbatim>\<open>src/src/services/leave.service.js\<close>, the effect of an approval decision
  (\<^verbatim>\<open>src/src/services/approval/adapters.js\<close>) and the protection of payroll periods
  (\<^verbatim>\<open>src/src/services/attendancePeriod.service.js\<close>). The state holds the leave tables of one tenant with the
  attendance rows and the setup they work on. Dates of leave are civil dates, balances exact rationals.
\<close>

section \<open>Tables\<close>

record leave_policy =
  lp_id :: int
  lp_name :: string
  lp_leaveTypeCode :: "string option"
  lp_active :: bool
  lp_accrualRate :: rat
  lp_accrualPeriod :: string
  lp_carryForwardAllowed :: bool
  lp_maxCarryForward :: rat
  lp_minServiceMonths :: int
  lp_version :: nat

record leave_balance =
  lb_employeeId :: int
  lb_policyId :: int
  lb_balance :: rat
  lb_carryOver :: rat

record leave_request =
  lr_id :: nat
  lr_employeeId :: int
  lr_policyId :: "int option"
  lr_start :: int
  lr_end :: int
  lr_totalDays :: rat
  lr_status :: string

record attendance_row =
  at_employeeId :: int
  at_date :: int
  at_checkIn :: "int option"
  at_checkOut :: "int option"
  at_status :: string
  at_dayCredit :: "rat option"
  at_requiresRegularization :: bool
  at_remarks :: "string option"

record legacy_leave =
  le_employeeId :: int
  le_type :: string
  le_start :: int
  le_end :: int
  le_totalDays :: int
  le_status :: string

record leave_employee =
  ly_id :: int
  ly_hireDate :: "int option"
  ly_status :: string

record run_period =
  rp_start :: int
  rp_end :: int
  rp_status :: string

record holiday_row =
  hd_calendarId :: int
  hd_date :: int
  hd_name :: string
  hd_fullDay :: bool

record 'p leave_state =
  ls_policies :: "leave_policy list"
  ls_balances :: "leave_balance list"
  ls_requests :: "leave_request list"
  ls_attendance :: "attendance_row list"
  ls_leaves :: "legacy_leave list"
  ls_employees :: "leave_employee list"
  ls_runs :: "run_period list"
  ls_holidays :: "holiday_row list"
  ls_approvals :: "(nat \<times> string) list"
  ls_events :: "(string \<times> nat) list"
  ls_setup :: "'p attendance_db"

text \<open>The tables the day resolver reads, with the leave rows that are approved.\<close>

definition setup_view :: "'p leave_state \<Rightarrow> 'p attendance_db" where
  "setup_view st = (ls_setup st)\<lparr>
     db_leaves := map (\<lambda>l. (le_employeeId l, le_start l, le_end l)) (filter (\<lambda>l. le_status l = ''APPROVED'') (ls_leaves st)),
     db_leaveRequests := map (\<lambda>r. (lr_employeeId r, lr_start r, lr_end r)) (filter (\<lambda>r. lr_status r = ''APPROVED'') (ls_requests st))\<rparr>"

section \<open>Policies\<close>

definition createLeavePolicy :: "leave_policy \<Rightarrow> 'p leave_state \<Rightarrow> hr_error + 'p leave_state" where
  "createLeavePolicy p st =
    rbind (ensure (lp_accrualPeriod p \<in> set [''NONE'', ''MONTHLY'', ''QUARTERLY'', ''ANNUAL'']) (PlainError ''Invalid accrual period'')) (\<lambda>_.
    rbind (ensure (\<not> (lp_carryForwardAllowed p \<and> lp_maxCarryForward p \<le> 0)) (PlainError ''Max carry forward must be greater than 0'')) (\<lambda>_.
    rbind (ensure (\<not> (\<not> lp_carryForwardAllowed p \<and> 0 < lp_maxCarryForward p)) (PlainError ''Max carry forward must be 0'')) (\<lambda>_.
    Inr (st\<lparr>ls_policies := ls_policies st @ [p]\<rparr>))))"

definition deleteLeavePolicy :: "int \<Rightarrow> 'p leave_state \<Rightarrow> hr_error + 'p leave_state" where
  "deleteLeavePolicy k st =
    rbind (ensure (\<not> list_ex (\<lambda>r. lr_policyId r = Some k) (ls_requests st)) (PlainError ''has associated leave requests'')) (\<lambda>_.
    rbind (ensure (\<not> list_ex (\<lambda>b. lb_policyId b = k) (ls_balances st)) (PlainError ''has associated leave balances'')) (\<lambda>_.
    rbind (ensure (list_ex (\<lambda>p. lp_id p = k) (ls_policies st)) (PlainError ''Record to delete does not exist'')) (\<lambda>_.
    Inr (st\<lparr>ls_policies := filter (\<lambda>p. lp_id p \<noteq> k) (ls_policies st)\<rparr>))))"

text \<open>An update writes whatever columns it is given; the version is compared when the caller names one.\<close>

definition updateLeavePolicy :: "int \<Rightarrow> nat option \<Rightarrow> (leave_policy \<Rightarrow> leave_policy) \<Rightarrow> 'p leave_state \<Rightarrow> hr_error + 'p leave_state" where
  "updateLeavePolicy k expectedVersion data st =
    rbind (ensure (list_ex (\<lambda>p. lp_id p = k) (ls_policies st)) (PlainError ''Leave policy not found'')) (\<lambda>_.
    let hit = (\<lambda>p. lp_id p = k \<and> (case expectedVersion of None \<Rightarrow> True | Some v \<Rightarrow> lp_version p = v)) in
    rbind (ensure (\<not> (filter hit (ls_policies st) = [] \<and> expectedVersion \<noteq> None)) (AppError 412 ''Precondition failed'')) (\<lambda>_.
    Inr (st\<lparr>ls_policies := map (\<lambda>p. if hit p then (data p)\<lparr>lp_id := k, lp_version := lp_version p + 1\<rparr> else p) (ls_policies st)\<rparr>)))"

section \<open>Requests\<close>

definition calculateWorkingDays :: "bool \<Rightarrow> 'p leave_state \<Rightarrow> int \<Rightarrow> int \<Rightarrow> int \<Rightarrow> hr_error + nat" where
  "calculateWorkingDays live st employee first_day last_day =
    rbind (resolveWorkingDays live True (setup_view st) employee first_day last_day) (\<lambda>days.
    rbind (ensure (\<not> list_ex (\<lambda>d. di_working (snd d) = None) days) (AppError 409 ''Complete attendance setup'')) (\<lambda>_.
    Inr (length (filter (\<lambda>d. di_working (snd d) = Some True) days))))"

definition live_request :: "leave_request \<Rightarrow> bool" where
  "live_request r \<longleftrightarrow> lr_status r \<in> set [''PENDING'', ''APPROVED'']"

definition overlapping :: "int \<Rightarrow> int \<Rightarrow> int \<Rightarrow> leave_request \<Rightarrow> bool" where
  "overlapping employee s e r \<longleftrightarrow> lr_employeeId r = employee \<and> live_request r \<and> lr_start r \<le> e \<and> s \<le> lr_end r"

definition createLeaveRequest :: "bool \<Rightarrow> int \<Rightarrow> int \<Rightarrow> int option \<Rightarrow> int \<Rightarrow> int \<Rightarrow> bool \<Rightarrow> 'p leave_state \<Rightarrow> hr_error + 'p leave_state" where
  "createLeaveRequest live now employee policy s e allowPastDates st =
    rbind (ensure (s \<le> e) (PlainError ''Start date cannot be after end date'')) (\<lambda>_.
    rbind (ensure (\<not> (at_day s < now \<and> \<not> allowPastDates)) (PlainError ''Cannot request leave for past dates'')) (\<lambda>_.
    rbind (ensure (\<not> list_ex (overlapping employee s e) (ls_requests st)) (PlainError ''You have an overlapping leave request'')) (\<lambda>_.
    rbind (calculateWorkingDays live st employee s e) (\<lambda>durationDays.
    rbind (ensure (0 < durationDays) (PlainError ''No working days in the selected date range'')) (\<lambda>_.
    Inr (st\<lparr>ls_requests := ls_requests st @ [\<lparr>lr_id = length (ls_requests st), lr_employeeId = employee, lr_policyId = policy,
       lr_start = s, lr_end = e, lr_totalDays = of_nat durationDays, lr_status = ''PENDING''\<rparr>]\<rparr>))))))"

definition update_request :: "nat \<Rightarrow> (leave_request \<Rightarrow> leave_request) \<Rightarrow> 'p leave_state \<Rightarrow> 'p leave_state" where
  "update_request k f st = st\<lparr>ls_requests := map (\<lambda>r. if lr_id r = k then f r else r) (ls_requests st)\<rparr>"

definition find_request :: "nat \<Rightarrow> 'p leave_state \<Rightarrow> leave_request option" where
  "find_request k st = find (\<lambda>r. lr_id r = k) (ls_requests st)"

text \<open>\<open>updateLeaveRequest\<close> writes whatever columns it is given, with no other check than the status.\<close>

definition updateLeaveRequest :: "nat \<Rightarrow> (leave_request \<Rightarrow> leave_request) \<Rightarrow> 'p leave_state \<Rightarrow> hr_error + 'p leave_state" where
  "updateLeaveRequest k data st =
    rbind (require (find_request k st) (PlainError ''Leave request not found'')) (\<lambda>r.
    rbind (ensure (lr_status r = ''PENDING'') (PlainError ''Cannot modify non-pending leave requests'')) (\<lambda>_.
    Inr (update_request k data st)))"

section \<open>Balances\<close>

definition on_balance :: "int \<Rightarrow> int \<Rightarrow> leave_balance \<Rightarrow> bool" where
  "on_balance employee policy b \<longleftrightarrow> lb_employeeId b = employee \<and> lb_policyId b = policy"

definition upsert_balance :: "int \<Rightarrow> int \<Rightarrow> (leave_balance \<Rightarrow> leave_balance) \<Rightarrow> rat \<times> rat \<Rightarrow> leave_balance list \<Rightarrow> leave_balance list" where
  "upsert_balance employee policy f new bs =
    (if list_ex (on_balance employee policy) bs then map (\<lambda>b. if on_balance employee policy b then f b else b) bs
     else bs @ [\<lparr>lb_employeeId = employee, lb_policyId = policy, lb_balance = fst new, lb_carryOver = snd new\<rparr>])"

definition updateLeaveBalance :: "int \<Rightarrow> int \<Rightarrow> rat \<Rightarrow> rat \<Rightarrow> 'p leave_state \<Rightarrow> 'p leave_state" where
  "updateLeaveBalance employee policy balance carryOver st =
    st\<lparr>ls_balances := upsert_balance employee policy (\<lambda>b. b\<lparr>lb_balance := balance, lb_carryOver := carryOver\<rparr>) (balance, carryOver) (ls_balances st)\<rparr>"

section \<open>Accrual\<close>

definition months_of_service :: "int \<Rightarrow> int \<Rightarrow> int" where
  "months_of_service hire day = (case (civil_from_days hire, civil_from_days day) of
     ((hy, hm, _), (y, m, _)) \<Rightarrow> (y - hy) * 12 + (m - hm))"

text \<open>The last quarter an accrual ran for is not recorded, so the quarters always differ.\<close>

definition getLastAccrualQuarter :: "int \<Rightarrow> int \<Rightarrow> int option" where
  "getLastAccrualQuarter employee policy = None"

definition calculateAccrualAmount :: "leave_policy \<Rightarrow> int \<Rightarrow> int \<Rightarrow> int \<Rightarrow> rat" where
  "calculateAccrualAmount p employee hire day =
    (if months_of_service hire day < lp_minServiceMonths p then 0
     else if lp_accrualPeriod p = ''MONTHLY'' then lp_accrualRate p
     else if lp_accrualPeriod p = ''QUARTERLY'' then
       (case civil_from_days day of (_, m, _) \<Rightarrow>
          if Some ((m - 1) div 3) \<noteq> getLastAccrualQuarter employee (lp_id p) then lp_accrualRate p * 3 else 0)
     else if lp_accrualPeriod p = ''ANNUAL'' then
       (case (civil_from_days hire, civil_from_days day) of
          ((_, hm, hday), (_, m, d)) \<Rightarrow> if m = hm \<and> d = hday then lp_accrualRate p else 0)
     else 0)"

definition accrue_step :: "int \<Rightarrow> leave_policy \<Rightarrow> leave_employee \<Rightarrow> leave_balance list \<Rightarrow> leave_balance list" where
  "accrue_step day p e bs =
    (let amount = calculateAccrualAmount p (ly_id e) (plus_null (ly_hireDate e)) day in
     if 0 < amount then upsert_balance (ly_id e) (lp_id p) (\<lambda>b. b\<lparr>lb_balance := lb_balance b + amount\<rparr>) (amount, 0) bs else bs)"

definition accruing :: "int list \<Rightarrow> leave_policy \<Rightarrow> bool" where
  "accruing policyIds p \<longleftrightarrow> lp_active p \<and> lp_accrualPeriod p \<noteq> ''NONE'' \<and> (policyIds \<noteq> [] \<longrightarrow> lp_id p \<in> set policyIds)"

definition eligible :: "int \<Rightarrow> leave_employee \<Rightarrow> bool" where
  "eligible day e \<longleftrightarrow> ly_status e = ''ACTIVE'' \<and> (case ly_hireDate e of None \<Rightarrow> False | Some h \<Rightarrow> h \<le> day)"

definition runLeaveAccruals :: "int \<Rightarrow> int list \<Rightarrow> 'p leave_state \<Rightarrow> 'p leave_state" where
  "runLeaveAccruals day policyIds st =
    st\<lparr>ls_balances := fold (\<lambda>p bs. fold (accrue_step day p) (filter (eligible day) (ls_employees st)) bs)
       (filter (accruing policyIds) (ls_policies st)) (ls_balances st)\<rparr>"

section \<open>Carry over\<close>

definition carry_row :: "leave_policy \<Rightarrow> leave_employee list \<Rightarrow> leave_balance \<Rightarrow> leave_balance" where
  "carry_row p employees b =
    (if lb_policyId b \<noteq> lp_id p \<or> \<not> list_ex (\<lambda>e. ly_id e = lb_employeeId b \<and> ly_status e = ''ACTIVE'') employees then b
     else let amount = min (lb_balance b) (lp_maxCarryForward p) in
       if 0 < amount then b\<lparr>lb_carryOver := amount, lb_balance := 0\<rparr> else b)"

definition processCarryOver :: "int list \<Rightarrow> 'p leave_state \<Rightarrow> 'p leave_state" where
  "processCarryOver policyIds st =
    st\<lparr>ls_balances := fold (\<lambda>p. map (carry_row p (ls_employees st)))
       (filter (\<lambda>p. lp_active p \<and> lp_carryForwardAllowed p \<and> (policyIds \<noteq> [] \<longrightarrow> lp_id p \<in> set policyIds)) (ls_policies st)) (ls_balances st)\<rparr>"

section \<open>Holidays\<close>

definition createHoliday :: "holiday_row \<Rightarrow> 'p leave_state \<Rightarrow> hr_error + 'p leave_state" where
  "createHoliday h st =
    rbind (ensure (\<not> list_ex (\<lambda>x. hd_calendarId x = hd_calendarId h \<and> hd_date x = hd_date h) (ls_holidays st))
      (PlainError ''Holiday already exists for this date'')) (\<lambda>_.
    Inr (st\<lparr>ls_holidays := ls_holidays st @ [h]\<rparr>))"

section \<open>The effect of a decision\<close>

definition assertAttendancePeriodOpen :: "'p leave_state \<Rightarrow> int \<Rightarrow> int \<Rightarrow> hr_error + unit" where
  "assertAttendancePeriodOpen st first_day last_day =
    ensure (\<not> list_ex (\<lambda>r. rp_start r \<le> at_day last_day + 86399999 \<and> at_day first_day \<le> rp_end r \<and>
        rp_status r \<notin> set [''CANCELLED'', ''FAILED'']) (ls_runs st)) (AppError 409 ''PERIOD_PROTECTED'')"

definition policy_name :: "'p leave_state \<Rightarrow> int option \<Rightarrow> string" where
  "policy_name st policy =
    (case Option.bind policy (\<lambda>k. find (\<lambda>p. lp_id p = k) (ls_policies st)) of
       None \<Rightarrow> ''Leave'' | Some p \<Rightarrow> if lp_name p = [] then ''Leave'' else lp_name p)"

definition leave_type_code :: "'p leave_state \<Rightarrow> int option \<Rightarrow> string" where
  "leave_type_code st policy =
    (case Option.bind policy (\<lambda>k. find (\<lambda>p. lp_id p = k) (ls_policies st)) of
       None \<Rightarrow> ''LEAVE'' | Some p \<Rightarrow> if truthy_text (lp_leaveTypeCode p) then the (lp_leaveTypeCode p) else ''LEAVE'')"

definition on_row :: "int \<Rightarrow> int \<Rightarrow> attendance_row \<Rightarrow> bool" where
  "on_row employee day a \<longleftrightarrow> at_employeeId a = employee \<and> at_date a = day"

definition punched :: "attendance_row \<Rightarrow> bool" where
  "punched a \<longleftrightarrow> at_checkIn a \<noteq> None \<or> at_checkOut a \<noteq> None"

fun update_first :: "('a \<Rightarrow> bool) \<Rightarrow> ('a \<Rightarrow> 'a) \<Rightarrow> 'a list \<Rightarrow> 'a list" where
  "update_first P f [] = []"
| "update_first P f (x # xs) = (if P x then f x # xs else x # update_first P f xs)"

definition mark_leave :: "int \<Rightarrow> string \<Rightarrow> int \<Rightarrow> attendance_row list \<Rightarrow> attendance_row list" where
  "mark_leave employee remark day rows =
    (case find (on_row employee day) rows of
       Some a \<Rightarrow>
         if punched a then rows
         else update_first (on_row employee day) (\<lambda>x. x\<lparr>at_status := ''ON_LEAVE'', at_dayCredit := Some 1,
             at_requiresRegularization := False, at_remarks := Some remark\<rparr>) rows
     | None \<Rightarrow> rows @ [\<lparr>at_employeeId = employee, at_date = day, at_checkIn = None, at_checkOut = None,
         at_status = ''ON_LEAVE'', at_dayCredit = Some 1, at_requiresRegularization = False, at_remarks = Some remark\<rparr>])"

definition leave_days :: "bool \<Rightarrow> 'p leave_state \<Rightarrow> leave_request \<Rightarrow> int list" where
  "leave_days live st r =
    (case resolveWorkingDays live True (setup_view st) (lr_employeeId r) (lr_start r) (lr_end r) of
       Inl _ \<Rightarrow> []
     | Inr days \<Rightarrow> map (\<lambda>d. di_date (snd d)) (filter (\<lambda>d. di_working (snd d) = Some True) days))"

definition createLeaveAttendanceRecords :: "bool \<Rightarrow> leave_request \<Rightarrow> 'p leave_state \<Rightarrow> 'p leave_state" where
  "createLeaveAttendanceRecords live r st =
    st\<lparr>ls_attendance := fold (mark_leave (lr_employeeId r) (''On '' @ policy_name st (lr_policyId r))) (leave_days live st r) (ls_attendance st)\<rparr>"

definition mirror_days :: "leave_request \<Rightarrow> int" where
  "mirror_days r = max 1 (js_round (if lr_totalDays r = 0 then 1 else lr_totalDays r))"

definition mirrors :: "leave_request \<Rightarrow> legacy_leave \<Rightarrow> bool" where
  "mirrors r l \<longleftrightarrow> le_employeeId l = lr_employeeId r \<and> le_start l = lr_start r \<and> le_end l = lr_end r"

definition upsertLegacyLeaveMirror :: "leave_request \<Rightarrow> 'p leave_state \<Rightarrow> 'p leave_state" where
  "upsertLegacyLeaveMirror r st =
    (let code = leave_type_code st (lr_policyId r) in
     st\<lparr>ls_leaves :=
       (if list_ex (mirrors r) (ls_leaves st)
        then update_first (mirrors r) (\<lambda>l. l\<lparr>le_type := code, le_status := ''APPROVED'', le_totalDays := mirror_days r\<rparr>) (ls_leaves st)
        else ls_leaves st @ [\<lparr>le_employeeId = lr_employeeId r, le_type = code, le_start = lr_start r, le_end = lr_end r,
          le_totalDays = mirror_days r, le_status = ''APPROVED''\<rparr>])\<rparr>)"

definition decideLeave :: "bool \<Rightarrow> nat \<Rightarrow> bool \<Rightarrow> 'p leave_state \<Rightarrow> hr_error + 'p leave_state" where
  "decideLeave live k approved st =
    rbind (require (find_request k st) (PlainError ''not found'')) (\<lambda>r.
    rbind (if approved then
        rbind (require (lr_policyId r) (AppError 409 ''HR must assign the leave policy'')) (\<lambda>policy.
        rbind (assertAttendancePeriodOpen st (lr_start r) (lr_end r)) (\<lambda>_.
        let st1 = st\<lparr>ls_balances := upsert_balance (lr_employeeId r) policy
              (\<lambda>b. b\<lparr>lb_balance := lb_balance b - lr_totalDays r\<rparr>) (- lr_totalDays r, 0) (ls_balances st)\<rparr>
        in Inr (upsertLegacyLeaveMirror r (createLeaveAttendanceRecords live r st1))))
      else Inr st) (\<lambda>st1.
    let status = (if approved then ''APPROVED'' else ''REJECTED'') in
    Inr ((update_request k (\<lambda>r. r\<lparr>lr_status := status\<rparr>) st1)
      \<lparr>ls_approvals := ls_approvals st1 @ [(k, status)],
       ls_events := ls_events st1 @ [(if approved then ''hr.leave.approved.v1'' else ''hr.leave.rejected.v1'', k)]\<rparr>)))"

section \<open>What else happens to a pending request\<close>

definition legacyWithdraw :: "int \<Rightarrow> nat \<Rightarrow> 'p leave_state \<Rightarrow> hr_error + 'p leave_state" where
  "legacyWithdraw employee k st =
    rbind (require (find_request k st) (PlainError ''not found'')) (\<lambda>r.
    rbind (ensure (lr_employeeId r = employee) (AppError 403 ''Only the employee initiator may withdraw'')) (\<lambda>_.
    rbind (ensure (lr_status r = ''PENDING'') (AppError 409 ''Only a pending request may be withdrawn'')) (\<lambda>_.
    Inr (update_request k (\<lambda>r. r\<lparr>lr_status := ''CANCELLED''\<rparr>) st))))"

text \<open>HR names the policy of a request when it verifies it.\<close>

definition classify_leave :: "nat \<Rightarrow> int \<Rightarrow> 'p leave_state \<Rightarrow> hr_error + 'p leave_state" where
  "classify_leave k policy st =
    rbind (require (find_request k st) (PlainError ''not found'')) (\<lambda>r.
    rbind (ensure (lr_status r = ''PENDING'') (AppError 409 ''not pending'')) (\<lambda>_.
    rbind (ensure (list_ex (\<lambda>p. lp_id p = policy \<and> lp_active p) (ls_policies st)) (AppError 422 ''Choose an active company leave policy'')) (\<lambda>_.
    Inr (update_request k (\<lambda>r. r\<lparr>lr_policyId := Some policy\<rparr>) st))))"

inductive leave_step :: "'p leave_state \<Rightarrow> 'p leave_state \<Rightarrow> bool" where
  requested: "createLeaveRequest live now employee policy s e past st = Inr st' \<Longrightarrow> leave_step st st'"
| withdrawn: "legacyWithdraw employee k st = Inr st' \<Longrightarrow> leave_step st st'"
| classified: "classify_leave k policy st = Inr st' \<Longrightarrow> leave_step st st'"
| decided: "find_request k st = Some r \<Longrightarrow> lr_status r = ''PENDING'' \<Longrightarrow> decideLeave live k approved st = Inr st' \<Longrightarrow> leave_step st st'"
| accrued: "leave_step st (runLeaveAccruals day policyIds st)"
| carried: "leave_step st (processCarryOver policyIds st)"
| adjusted: "leave_step st (updateLeaveBalance employee policy balance carryOver st)"
| added_policy: "createLeavePolicy p st = Inr st' \<Longrightarrow> leave_step st st'"
| updated_policy: "updateLeavePolicy k v data st = Inr st' \<Longrightarrow> leave_step st st'"
| deleted_policy: "deleteLeavePolicy k st = Inr st' \<Longrightarrow> leave_step st st'"
| added_holiday: "createHoliday h st = Inr st' \<Longrightarrow> leave_step st st'"
| configured: "leave_step st (st\<lparr>ls_setup := db, ls_employees := es, ls_runs := rs, ls_attendance := as\<rparr>)"

section \<open>Rows by key\<close>

definition row_of :: "int \<Rightarrow> int \<Rightarrow> attendance_row list \<Rightarrow> attendance_row option" where
  "row_of employee day rows = find (on_row employee day) rows"

definition balance_of :: "int \<Rightarrow> int \<Rightarrow> leave_balance list \<Rightarrow> rat" where
  "balance_of employee policy bs = (case find (on_balance employee policy) bs of None \<Rightarrow> 0 | Some b \<Rightarrow> lb_balance b)"

definition carry_of :: "int \<Rightarrow> int \<Rightarrow> leave_balance list \<Rightarrow> rat" where
  "carry_of employee policy bs = (case find (on_balance employee policy) bs of None \<Rightarrow> 0 | Some b \<Rightarrow> lb_carryOver b)"

text \<open>What approved leave makes of the row of a day: a punched day is left alone.\<close>

definition on_leave_row :: "int \<Rightarrow> string \<Rightarrow> int \<Rightarrow> attendance_row option \<Rightarrow> attendance_row option" where
  "on_leave_row employee remark day row =
    (case row of
       Some a \<Rightarrow> Some (if punched a then a else a\<lparr>at_status := ''ON_LEAVE'', at_dayCredit := Some 1,
         at_requiresRegularization := False, at_remarks := Some remark\<rparr>)
     | None \<Rightarrow> Some \<lparr>at_employeeId = employee, at_date = day, at_checkIn = None, at_checkOut = None,
         at_status = ''ON_LEAVE'', at_dayCredit = Some 1, at_requiresRegularization = False, at_remarks = Some remark\<rparr>)"

lemma find_append_one: "find P (xs @ [x]) = (case find P xs of Some y \<Rightarrow> Some y | None \<Rightarrow> if P x then Some x else None)"
  by (induction xs) auto

lemma find_update_first:
  "(\<And>x. P (f x) = P x) \<Longrightarrow> find P (update_first P f xs) = map_option f (find P xs)"
  by (induction xs) auto

lemma find_update_first_other:
  "(\<And>x. Q x \<Longrightarrow> \<not> P x \<and> \<not> P (f x)) \<Longrightarrow> find P (update_first Q f xs) = find P xs"
  by (induction xs) auto

lemma row_of_mark_leave:
  "row_of e d (mark_leave employee remark day rows) =
    (if e = employee \<and> d = day then on_leave_row employee remark day (row_of employee day rows) else row_of e d rows)"
proof (cases "e = employee \<and> d = day")
  case True
  then show ?thesis
    by (auto simp: row_of_def mark_leave_def on_leave_row_def find_append_one find_update_first on_row_def split: option.split)
next
  case False
  have other: "find (on_row e d) (update_first (on_row employee day) (\<lambda>x. x\<lparr>at_status := s, at_dayCredit := c,
      at_requiresRegularization := g, at_remarks := m\<rparr>) rows) = find (on_row e d) rows" for s c g m
    using False by (intro find_update_first_other) (auto simp: on_row_def)
  have new: "\<not> on_row e d a" if "at_employeeId a = employee" "at_date a = day" for a using False that by (auto simp: on_row_def)
  have "row_of e d (mark_leave employee remark day rows) = row_of e d rows"
    by (simp add: row_of_def mark_leave_def other new find_append_one split: option.split)
  then show ?thesis using False by auto
qed

lemma on_leave_row_twice: "on_leave_row e m d (on_leave_row e m d x) = on_leave_row e m d x"
  by (auto simp: on_leave_row_def punched_def split: option.splits)

lemma row_of_mark_all:
  "row_of e d (fold (mark_leave employee remark) days rows) =
    (if e = employee \<and> d \<in> set days then on_leave_row employee remark d (row_of employee d rows) else row_of e d rows)"
  by (induction days arbitrary: rows) (auto simp: row_of_mark_leave on_leave_row_twice)

lemma list_ex_find: "list_ex P xs \<longleftrightarrow> find P xs \<noteq> None"
  by (induction xs) auto

lemma find_on_balance: "find (on_balance e q) bs = Some b \<Longrightarrow> on_balance e q b"
  by (auto simp: find_Some_iff)

lemma find_upsert:
  assumes "\<And>e q b. on_balance e q (f b) = on_balance e q b"
  shows "find (on_balance e q) (upsert_balance employee policy f new bs) =
    (if e = employee \<and> q = policy then Some (case find (on_balance e q) bs of
       None \<Rightarrow> \<lparr>lb_employeeId = employee, lb_policyId = policy, lb_balance = fst new, lb_carryOver = snd new\<rparr> | Some b \<Rightarrow> f b)
     else find (on_balance e q) bs)"
proof -
  have m: "find (on_balance e q) (map (\<lambda>b. if on_balance employee policy b then f b else b) bs) =
      map_option (\<lambda>b. if on_balance employee policy b then f b else b) (find (on_balance e q) bs)" for e q
    using assms by (intro find_map_same) simp
  have new: "on_balance e q \<lparr>lb_employeeId = employee, lb_policyId = policy, lb_balance = x, lb_carryOver = y\<rparr> \<longleftrightarrow>
      e = employee \<and> q = policy" for x y e q by (auto simp: on_balance_def)
  show ?thesis
  proof (cases "e = employee \<and> q = policy")
    case True
    then show ?thesis
      by (auto simp: upsert_balance_def m find_append_one list_ex_find new dest: find_on_balance split: option.split)
  next
    case False
    then have "\<not> (on_balance e q b \<and> on_balance employee policy b)" for b by (auto simp: on_balance_def)
    with False show ?thesis
      by (auto simp: upsert_balance_def m find_append_one list_ex_find new dest: find_on_balance split: option.split)
  qed
qed

lemma balance_of_upsert:
  assumes "\<And>b. lb_employeeId (f b) = lb_employeeId b" "\<And>b. lb_policyId (f b) = lb_policyId b"
  shows "balance_of e q (upsert_balance employee policy f new bs) =
    (if e = employee \<and> q = policy then (case find (on_balance e q) bs of None \<Rightarrow> fst new | Some b \<Rightarrow> lb_balance (f b)) else balance_of e q bs)"
proof -
  have "find (on_balance e q) (upsert_balance employee policy f new bs) =
    (if e = employee \<and> q = policy then Some (case find (on_balance e q) bs of
       None \<Rightarrow> \<lparr>lb_employeeId = employee, lb_policyId = policy, lb_balance = fst new, lb_carryOver = snd new\<rparr> | Some b \<Rightarrow> f b)
     else find (on_balance e q) bs)"
    using assms by (intro find_upsert) (simp_all add: on_balance_def)
  then show ?thesis by (auto simp: balance_of_def split: option.split)
qed

lemma balance_of_add:
  "balance_of e q (upsert_balance employee policy (\<lambda>b. b\<lparr>lb_balance := lb_balance b + x\<rparr>) (x, c) bs) =
    balance_of e q bs + (if e = employee \<and> q = policy then x else 0)"
proof -
  have "balance_of e q (upsert_balance employee policy (\<lambda>b. b\<lparr>lb_balance := lb_balance b + x\<rparr>) (x, c) bs) =
    (if e = employee \<and> q = policy then (case find (on_balance e q) bs of None \<Rightarrow> fst (x, c) | Some b \<Rightarrow> lb_balance (b\<lparr>lb_balance := lb_balance b + x\<rparr>))
     else balance_of e q bs)" by (rule balance_of_upsert) simp_all
  then show ?thesis by (simp add: balance_of_def split: option.split)
qed

section \<open>The days of a request\<close>

lemma resolve_known_date: "di_date (resolve_known base profile roster assignment p shift ids hs onLeave calledIn) = di_date base"
  by (simp add: resolve_known_def Let_def)

definition dated :: "int \<Rightarrow> hr_error + 'p day_info \<Rightarrow> bool" where
  "dated day r \<longleftrightarrow> (case r of Inl _ \<Rightarrow> True | Inr info \<Rightarrow> di_date info = day)"

lemma dated_intros:
  "dated day x \<Longrightarrow> dated day y \<Longrightarrow> dated day (if b then x else y)"
  "dated day x \<Longrightarrow> (\<And>z zs. dated day (f z zs)) \<Longrightarrow> dated day (case xs of [] \<Rightarrow> x | z # zs \<Rightarrow> f z zs)"
  "(\<And>z. dated day (g z)) \<Longrightarrow> dated day (rbind m g)"
  "di_date info = day \<Longrightarrow> dated day (Inr info)"
  by (simp_all add: dated_def split: list.split) (cases m; simp)

lemma resolve_dated: "dated day (resolveEmployeeDay config e day ctx)"
  unfolding resolveEmployeeDay_def Let_def by (intro dated_intros) (simp_all add: base_info_date resolve_known_date)

lemma runtime_dated: "dated day (runtime_resolve live ign f l db k day anchor)"
  unfolding runtime_resolve_def Let_def
  by (auto simp: resolve_dated intro: dated_intros split: option.split) (simp add: dated_def not_published_def)

lemma working_days_keys:
  assumes "resolveWorkingDays live True db employee first_day last_day = Inr days"
  shows "map fst days = map (\<lambda>i. first_day + int i) [0..<nat (last_day - first_day + 1)]" and "\<forall>x \<in> set days. di_date (snd x) = fst x"
proof -
  have pair: "map fst ys = xs \<and> (\<forall>x \<in> set ys. di_date (snd x) = fst x)"
    if "rmap (\<lambda>day. rbind (runtime_resolve live True first_day last_day db employee day None) (\<lambda>info. Inr (day, info))) xs = Inr ys" for xs ys
    using that
  proof (induction xs arbitrary: ys)
    case (Cons x xs)
    then obtain info zs where i: "runtime_resolve live True first_day last_day db employee x None = Inr info" "ys = (x, info) # zs"
      "rmap (\<lambda>day. rbind (runtime_resolve live True first_day last_day db employee day None) (\<lambda>info. Inr (day, info))) xs = Inr zs"
      by (auto simp: result_simps)
    have "di_date info = x" using runtime_dated[of x live True first_day last_day db employee None] i(1) by (simp add: dated_def)
    then show ?case using Cons.IH[OF i(3)] i(2) by simp
  qed simp
  from assms have "rmap (\<lambda>day. rbind (runtime_resolve live True first_day last_day db employee day None) (\<lambda>info. Inr (day, info)))
      (map (\<lambda>i. first_day + int i) [0..<nat (last_day - first_day + 1)]) = Inr days"
    by (simp add: resolveWorkingDays_def dateRange_def result_simps split: if_split_asm)
  from pair[OF this] show "map fst days = map (\<lambda>i. first_day + int i) [0..<nat (last_day - first_day + 1)]"
    and "\<forall>x \<in> set days. di_date (snd x) = fst x" by blast+
qed

lemma leave_days_distinct: "distinct (leave_days live st r)"
proof (cases "resolveWorkingDays live True (setup_view st) (lr_employeeId r) (lr_start r) (lr_end r)")
  case (Inr days)
  note k = working_days_keys[OF Inr]
  have "distinct (map fst days)" unfolding k(1) by (simp add: distinct_map inj_on_def)
  moreover have e: "map (\<lambda>d. di_date (snd d)) days = map fst days" using k(2) by (intro map_cong) auto
  ultimately have "distinct (map (\<lambda>d. di_date (snd d)) days)" by (simp only: e)
  then show ?thesis by (simp add: leave_days_def Inr distinct_map_filter)
qed (simp add: leave_days_def)

lemma calculated_days:
  assumes "calculateWorkingDays live st (lr_employeeId r) (lr_start r) (lr_end r) = Inr n"
  shows "n = length (leave_days live st r)" and "int n \<le> lr_end r - lr_start r + 1"
proof -
  obtain days where d: "resolveWorkingDays live True (setup_view st) (lr_employeeId r) (lr_start r) (lr_end r) = Inr days"
    and n: "n = length (filter (\<lambda>d. di_working (snd d) = Some True) days)"
    using assms by (auto simp: calculateWorkingDays_def result_simps split: if_split_asm)
  show "n = length (leave_days live st r)" by (simp add: leave_days_def d n)
  have "length days = nat (lr_end r - lr_start r + 1)" using arg_cong[OF working_days_keys(1)[OF d], of length] by simp
  moreover have "lr_start r \<le> lr_end r"
    using d by (auto simp: resolveWorkingDays_def dateRange_def result_simps split: if_split_asm)
  moreover have "n \<le> length days" unfolding n by simp
  ultimately show "int n \<le> lr_end r - lr_start r + 1" by linarith
qed

section \<open>Requests never overlap\<close>

definition apart :: "leave_request \<Rightarrow> leave_request \<Rightarrow> bool" where
  "apart r q \<longleftrightarrow> lr_employeeId r \<noteq> lr_employeeId q \<or> lr_end r < lr_start q \<or> lr_end q < lr_start r"

definition well_dated :: "leave_request \<Rightarrow> bool" where
  "well_dated r \<longleftrightarrow> lr_start r \<le> lr_end r \<and> 1 \<le> lr_totalDays r \<and> lr_totalDays r \<le> of_int (lr_end r - lr_start r + 1)"

definition leave_inv :: "'p leave_state \<Rightarrow> bool" where
  "leave_inv st \<longleftrightarrow> map lr_id (ls_requests st) = [0..<length (ls_requests st)] \<and> (\<forall>r \<in> set (ls_requests st). well_dated r) \<and>
     (\<forall>r \<in> set (ls_requests st). \<forall>q \<in> set (ls_requests st). live_request r \<longrightarrow> live_request q \<longrightarrow> lr_id r \<noteq> lr_id q \<longrightarrow> apart r q)"

definition leave_init :: "'p leave_state \<Rightarrow> bool" where
  "leave_init st \<longleftrightarrow> ls_requests st = []"

lemma same_id:
  assumes "leave_inv st" "r \<in> set (ls_requests st)" "q \<in> set (ls_requests st)" "lr_id r = lr_id q" shows "r = q"
proof -
  have "distinct (map lr_id (ls_requests st))" using assms(1) by (simp add: leave_inv_def)
  then show ?thesis using assms(2-4) by (auto simp: distinct_map inj_on_def)
qed

lemma found_request: "find_request k st = Some r \<Longrightarrow> r \<in> set (ls_requests st) \<and> lr_id r = k"
  by (auto simp: find_request_def find_Some_iff)

lemma leave_inv_requests: "ls_requests st' = ls_requests st \<Longrightarrow> leave_inv st' = leave_inv st"
  by (simp add: leave_inv_def)

lemma update_inv:
  assumes inv: "leave_inv st" and found: "find_request k st = Some r" and req: "ls_requests st1 = ls_requests st"
    and same: "\<And>r. lr_id (f r) = lr_id r \<and> lr_employeeId (f r) = lr_employeeId r \<and> lr_start (f r) = lr_start r \<and>
      lr_end (f r) = lr_end r \<and> lr_totalDays (f r) = lr_totalDays r"
    and live: "live_request r"
  shows "leave_inv (update_request k f st1)"
proof -
  define g where "g = (\<lambda>r. if lr_id r = k then f r else r)"
  have g: "lr_id (g x) = lr_id x" "well_dated (g x) = well_dated x" "apart (g x) (g y) = apart x y" for x y
    using same by (auto simp: well_dated_def apart_def g_def)
  have l: "live_request x" if "x \<in> set (ls_requests st)" "live_request (g x)" for x
  proof (cases "lr_id x = k")
    case True
    then have "x = r" using same_id[OF inv that(1)] found_request[OF found] by simp
    then show ?thesis using live by simp
  qed (use that in \<open>simp add: g_def\<close>)
  have "map (lr_id \<circ> g) (ls_requests st) = map lr_id (ls_requests st)" using g(1) by simp
  then show ?thesis
    using inv g l unfolding leave_inv_def update_request_def g_def[symmetric] by (simp add: req)
qed

lemma create_inv:
  assumes inv: "leave_inv st" and run: "createLeaveRequest live now employee policy s e past st = Inr st'"
  shows "leave_inv st'"
proof -
  obtain n where n: "s \<le> e" "\<not> list_ex (overlapping employee s e) (ls_requests st)"
    "calculateWorkingDays live st employee s e = Inr n" "0 < n"
    and st': "st' = st\<lparr>ls_requests := ls_requests st @ [\<lparr>lr_id = length (ls_requests st), lr_employeeId = employee, lr_policyId = policy,
       lr_start = s, lr_end = e, lr_totalDays = of_nat n, lr_status = ''PENDING''\<rparr>]\<rparr>"
    using run by (auto simp: createLeaveRequest_def result_simps split: if_split_asm)
  define r where "r = \<lparr>lr_id = length (ls_requests st), lr_employeeId = employee, lr_policyId = policy,
       lr_start = s, lr_end = e, lr_totalDays = of_nat n :: rat, lr_status = ''PENDING''\<rparr>"
  have "int n \<le> e - s + 1" using calculated_days(2)[of live st r n] n(3) by (simp add: r_def)
  then have "rat_of_int (int n) \<le> of_int (e - s + 1)" by (simp only: of_int_le_iff)
  then have "rat_of_nat n \<le> of_int (e - s + 1)" by simp
  then have w: "well_dated r" using n(1,4) by (simp add: well_dated_def r_def)
  have a: "apart q r \<and> apart r q" if "q \<in> set (ls_requests st)" "live_request q" for q
    using n(2) that by (fastforce simp: list_ex_iff overlapping_def apart_def r_def)
  show ?thesis using inv w a unfolding st' r_def[symmetric] by (auto simp: leave_inv_def) (simp add: r_def)
qed

lemma decide_requests:
  assumes "decideLeave live k approved st = Inr st'"
  shows "ls_requests st' = ls_requests (update_request k (\<lambda>r. r\<lparr>lr_status := if approved then ''APPROVED'' else ''REJECTED''\<rparr>) st)"
  using assms
  by (auto simp: decideLeave_def result_simps update_request_def upsertLegacyLeaveMirror_def createLeaveAttendanceRecords_def Let_def split: if_split_asm)

lemma leave_step_inv:
  assumes inv: "leave_inv st" and step: "leave_step st st'"
  shows "leave_inv st'"
  using step
proof (cases rule: leave_step.cases)
  case (requested live now employee policy s e past)
  then show ?thesis using create_inv[OF inv] by simp
next
  case (withdrawn employee k)
  then obtain r where r: "find_request k st = Some r" "lr_status r = ''PENDING''"
    "st' = update_request k (\<lambda>r. r\<lparr>lr_status := ''CANCELLED''\<rparr>) st"
    by (auto simp: legacyWithdraw_def result_simps split: if_split_asm)
  then show ?thesis using update_inv[OF inv r(1) refl, of "\<lambda>r. r\<lparr>lr_status := ''CANCELLED''\<rparr>"] by (simp add: live_request_def)
next
  case (classified k policy)
  then obtain r where r: "find_request k st = Some r" "lr_status r = ''PENDING''"
    "st' = update_request k (\<lambda>r. r\<lparr>lr_policyId := Some policy\<rparr>) st"
    by (auto simp: classify_leave_def result_simps split: if_split_asm)
  then show ?thesis using update_inv[OF inv r(1) refl, of "\<lambda>r. r\<lparr>lr_policyId := Some policy\<rparr>"] by (simp add: live_request_def)
next
  case (decided k r live approved)
  let ?f = "\<lambda>r. r\<lparr>lr_status := if approved then ''APPROVED'' else ''REJECTED''\<rparr>"
  have "leave_inv (update_request k ?f st)"
    using decided update_inv[OF inv decided(1) refl, of ?f] by (simp add: live_request_def)
  then show ?thesis using decide_requests[OF decided(3)] leave_inv_requests by blast
qed (auto simp: leave_inv_requests[of _ st] inv runLeaveAccruals_def processCarryOver_def updateLeaveBalance_def createLeavePolicy_def
      updateLeavePolicy_def Let_def deleteLeavePolicy_def createHoliday_def result_simps split: if_split_asm)

interpretation leave: invariant_system leave_init leave_step leave_inv
  by unfold_locales (simp add: leave_init_def leave_inv_def, rule leave_step_inv)


section \<open>The effect of approval\<close>

lemma decideLeave_approved:
  assumes "decideLeave live k True st = Inr st'"
  obtains r policy where "find_request k st = Some r" "lr_policyId r = Some policy"
    "assertAttendancePeriodOpen st (lr_start r) (lr_end r) = Inr ()"
    "ls_attendance st' = fold (mark_leave (lr_employeeId r) (''On '' @ policy_name st (lr_policyId r))) (leave_days live st r) (ls_attendance st)"
    "ls_balances st' = upsert_balance (lr_employeeId r) policy (\<lambda>b. b\<lparr>lb_balance := lb_balance b - lr_totalDays r\<rparr>) (- lr_totalDays r, 0) (ls_balances st)"
    "ls_setup st' = ls_setup st" "ls_leaves st' = ls_leaves (upsertLegacyLeaveMirror r st)"
proof -
  obtain r policy where r: "find_request k st = Some r" "lr_policyId r = Some policy"
    "assertAttendancePeriodOpen st (lr_start r) (lr_end r) = Inr ()"
    using assms by (auto simp: decideLeave_def result_simps)
  have mirror: "leave_type_code (st\<lparr>ls_balances := bs, ls_attendance := as\<rparr>) = leave_type_code st" for bs as
    by (simp add: leave_type_code_def fun_eq_iff cong: option.case_cong)
  have cong: "leave_days live (st\<lparr>ls_balances := bs\<rparr>) r = leave_days live st r" "policy_name (st\<lparr>ls_balances := bs\<rparr>) = policy_name st" for bs
    by (simp_all add: leave_days_def setup_view_def policy_name_def fun_eq_iff cong: option.case_cong)
  show thesis
    using assms r
    by (intro that[OF r]) (auto simp: decideLeave_def upsertLegacyLeaveMirror_def createLeaveAttendanceRecords_def update_request_def Let_def cong mirror)
qed


text \<open>C13. A day of an approved request is never worked again: whoever asks, over whatever range, the resolver no longer counts it.\<close>

theorem approved_day_not_worked:
  assumes "find_request k st = Some r" and "decideLeave live k True st = Inr st'"
    and "lr_start r \<le> d" "d \<le> lr_end r" and "f \<le> d" "d \<le> l"
    and "runtime_resolve live' False f l (setup_view st') (lr_employeeId r) d anchor = Inr info"
  shows "di_working info \<noteq> Some True"
proof
  assume w: "di_working info = Some True"
  have "r\<lparr>lr_status := ''APPROVED''\<rparr> \<in> set (ls_requests st')"
    using found_request[OF assms(1)] unfolding decide_requests[OF assms(2)] by (force simp: update_request_def)
  then have "(lr_employeeId r, lr_start r, lr_end r) \<in> set (db_leaveRequests (setup_view st'))"
    by (auto simp: setup_view_def intro!: rev_image_eqI[of "r\<lparr>lr_status := ''APPROVED''\<rparr>"])
  then have "(lr_start r, lr_end r) \<in> set (dc_leaves (runtime_context False f l (setup_view st') (lr_employeeId r) d anchor))"
    using assms(3-6) by (force simp: runtime_context_def)
  then have leave: "on_leave (runtime_context False f l (setup_view st') (lr_employeeId r) d anchor) d"
    using assms(3,4) by (force simp: on_leave_def list_ex_iff covers_def)
  from assms(7) w obtain config e where
    "resolveEmployeeDay config e d (runtime_context False f l (setup_view st') (lr_employeeId r) d anchor) = Inr info"
    by (auto simp: runtime_resolve_def Let_def not_published_def split: option.splits)
  then obtain profile roster assignment p where
    "decided config e d (runtime_context False f l (setup_view st') (lr_employeeId r) d anchor) info profile roster assignment p"
    using w by (rule resolve_decided)
  then show False using leave w resolve_known_worked(1) unfolding decided_def by metis
qed

section \<open>Accrual and carry over\<close>

lemma carry_row_settled: "carry_row p es b = b \<Longrightarrow> carry_row p es (carry_row p' es b) = carry_row p' es b"
  by (auto simp: carry_row_def Let_def)

lemma carry_row_twice: "carry_row p es (carry_row p es b) = carry_row p es b"
  by (auto simp: carry_row_def Let_def)

lemma fold_map_rows: "fold (\<lambda>p. map (g p)) ps bs = map (fold g ps) bs"
  by (induction ps arbitrary: bs) (auto simp: comp_def)

lemma carry_settled_after: "p \<in> set ps \<Longrightarrow> carry_row p es (fold (\<lambda>p. carry_row p es) ps b) = fold (\<lambda>p. carry_row p es) ps b"
proof (induction ps arbitrary: b rule: rev_induct)
  case (snoc q ps)
  then show ?case by (cases "p = q") (auto simp: carry_row_twice intro: carry_row_settled)
qed simp

lemma fold_id: "(\<And>p. p \<in> set ps \<Longrightarrow> g p b = b) \<Longrightarrow> fold g ps b = b"
  by (induction ps) auto

text \<open>C4. Carrying over is idempotent, so a rerun loses nothing: balances already carried are zero and their carried days stay.\<close>

theorem processCarryOver_idempotent: "processCarryOver policyIds (processCarryOver policyIds st) = processCarryOver policyIds st"
proof -
  let ?ps = "filter (\<lambda>p. lp_active p \<and> lp_carryForwardAllowed p \<and> (policyIds \<noteq> [] \<longrightarrow> lp_id p \<in> set policyIds)) (ls_policies st)"
  have "fold (\<lambda>p. carry_row p (ls_employees st)) ?ps (fold (\<lambda>p. carry_row p (ls_employees st)) ?ps b) = fold (\<lambda>p. carry_row p (ls_employees st)) ?ps b" for b
    by (rule fold_id) (rule carry_settled_after)
  then show ?thesis unfolding processCarryOver_def fold_map_rows by simp
qed

definition accrual_of :: "int \<Rightarrow> int \<Rightarrow> int \<Rightarrow> leave_policy list \<Rightarrow> leave_employee list \<Rightarrow> rat" where
  "accrual_of day w q ps es = (\<Sum>p \<leftarrow> ps. \<Sum>e \<leftarrow> es. if ly_id e = w \<and> lp_id p = q then max 0 (calculateAccrualAmount p w (plus_null (ly_hireDate e)) day) else 0)"

lemma balance_of_accrue:
  "balance_of w q (accrue_step day p e bs) = balance_of w q bs +
    (if ly_id e = w \<and> lp_id p = q then max 0 (calculateAccrualAmount p w (plus_null (ly_hireDate e)) day) else 0)"
  by (auto simp: accrue_step_def Let_def balance_of_add max_def)

lemma balance_of_runLeaveAccruals:
  "balance_of w q (ls_balances (runLeaveAccruals day policyIds st)) = balance_of w q (ls_balances st) +
     accrual_of day w q (filter (accruing policyIds) (ls_policies st)) (filter (eligible day) (ls_employees st))"
proof -
  have inner: "balance_of w q (fold (accrue_step day p) es bs) = balance_of w q bs + accrual_of day w q [p] es" for p es bs
    by (induction es arbitrary: bs) (simp_all add: balance_of_accrue accrual_of_def)
  have "balance_of w q (fold (\<lambda>p bs. fold (accrue_step day p) es bs) ps bs) = balance_of w q bs + accrual_of day w q ps es" for ps es bs
    by (induction ps arbitrary: bs) (simp_all add: inner accrual_of_def)
  then show ?thesis by (simp add: runLeaveAccruals_def)
qed

text \<open>A quarterly policy grants three monthly rates on every run, since the last run is not remembered.\<close>

lemma quarterly_accrues_each_run:
  assumes "lp_accrualPeriod p = ''QUARTERLY''" "lp_minServiceMonths p \<le> months_of_service hire day"
  shows "calculateAccrualAmount p w hire day = lp_accrualRate p * 3"
  using assms by (auto simp: calculateAccrualAmount_def getLastAccrualQuarter_def split: prod.split)

text \<open>The balance is not looked at: whatever is left of it, a classified request of an open period is approved.\<close>

lemma approval_ignores_balance:
  assumes "find_request k st = Some r" "lr_policyId r = Some policy" "assertAttendancePeriodOpen st (lr_start r) (lr_end r) = Inr ()"
  shows "\<exists>st'. decideLeave live k True st = Inr st'"
  using assms by (simp add: decideLeave_def Let_def)

section \<open>Examples\<close>

text \<open>The office of \<open>WorkingDay\<close> with an annual policy; leave for Tuesday and Wednesday, 13 and 14 January 2026,
  costs one day, as the Tuesday is a holiday.\<close>

definition annual_policy :: leave_policy where
  "annual_policy = \<lparr>lp_id = 1, lp_name = ''Annual'', lp_leaveTypeCode = Some ''AL'', lp_active = True, lp_accrualRate = 2,
     lp_accrualPeriod = ''MONTHLY'', lp_carryForwardAllowed = True, lp_maxCarryForward = 5, lp_minServiceMonths = 3, lp_version = 1\<rparr>"

definition office_leave :: "unit leave_state" where
  "office_leave = \<lparr>ls_policies = [annual_policy],
     ls_balances = [\<lparr>lb_employeeId = 7, lb_policyId = 1, lb_balance = 10, lb_carryOver = 0\<rparr>], ls_requests = [],
     ls_attendance = [\<lparr>at_employeeId = 7, at_date = 20467, at_checkIn = Some 1, at_checkOut = None, at_status = ''PRESENT'', at_dayCredit = Some 1,
       at_requiresRegularization = False, at_remarks = None\<rparr>],
     ls_leaves = [], ls_employees = [\<lparr>ly_id = 7, ly_hireDate = Some 19000, ly_status = ''ACTIVE''\<rparr>], ls_runs = [], ls_holidays = [],
     ls_approvals = [], ls_events = [], ls_setup = office_db [office_roster]\<rparr>"

definition two_days :: leave_request where
  "two_days = \<lparr>lr_id = 0, lr_employeeId = 7, lr_policyId = Some 1, lr_start = 20466, lr_end = 20467, lr_totalDays = 1, lr_status = ''PENDING''\<rparr>"

definition later_day :: leave_request where
  "later_day = \<lparr>lr_id = 1, lr_employeeId = 7, lr_policyId = None, lr_start = 20468, lr_end = 20468, lr_totalDays = 1, lr_status = ''PENDING''\<rparr>"

definition office_requested :: "unit leave_state" where
  "office_requested = office_leave\<lparr>ls_requests := [two_days]\<rparr>"

lemma office_requested: "createLeaveRequest True 0 7 (Some 1) 20466 20467 True office_leave = Inr office_requested"
proof -
  have "calculateWorkingDays True office_leave 7 20466 20467 = Inr 1" by code_simp
  then show ?thesis by (simp add: createLeaveRequest_def office_requested_def two_days_def office_leave_def)
qed

lemma office_requested_again:
  "createLeaveRequest True 0 7 None 20468 20468 False office_requested = Inr (office_requested\<lparr>ls_requests := [two_days, later_day]\<rparr>)"
proof -
  have "calculateWorkingDays True office_requested 7 20468 20468 = Inr 1" by code_simp
  then show ?thesis
    by (simp add: createLeaveRequest_def office_requested_def two_days_def later_day_def office_leave_def overlapping_def at_day_def day_ms_def)
qed


lemma office_found: "find_request 0 office_requested = Some two_days"
  by (simp add: find_request_def office_requested_def two_days_def)

lemma office_open: "assertAttendancePeriodOpen office_requested (lr_start two_days) (lr_end two_days) = Inr ()"
  by (simp add: assertAttendancePeriodOpen_def office_requested_def office_leave_def)

lemma office_approved: "\<exists>st'. decideLeave True 0 True office_requested = Inr st'"
  by (rule approval_ignores_balance[OF office_found _ office_open]) (simp add: two_days_def)

lemma office_approved_view:
  assumes "decideLeave True 0 True office_requested = Inr st'"
  shows "setup_view st' = (office_db [office_roster])\<lparr>db_leaves := [(7, 20466, 20467)], db_leaveRequests := [(7, 20466, 20467)]\<rparr>"
proof -
  have "ls_setup st' = ls_setup office_requested" using assms by (rule decideLeave_approved)
  moreover have "ls_requests st' = [two_days\<lparr>lr_status := ''APPROVED''\<rparr>]"
    unfolding decide_requests[OF assms] by (simp add: update_request_def office_requested_def two_days_def)
  moreover obtain r where "find_request 0 office_requested = Some r" "ls_leaves st' = ls_leaves (upsertLegacyLeaveMirror r office_requested)"
    using assms by (rule decideLeave_approved)
  then have "ls_leaves st' = ls_leaves (upsertLegacyLeaveMirror two_days office_requested)" by (simp add: office_found)
  ultimately show ?thesis
    by (simp add: setup_view_def upsertLegacyLeaveMirror_def Let_def office_requested_def office_leave_def two_days_def)
qed


lemma office_resolved:
  "isl (runtime_resolve True False 20467 20467 ((office_db [office_roster])\<lparr>db_leaves := [(7, 20466, 20467)],
     db_leaveRequests := [(7, 20466, 20467)]\<rparr>) 7 20467 None) = False"
  by code_simp

theorem approved_day_not_worked_witness:
  "\<exists>st' info. decideLeave True 0 True office_requested = Inr st' \<and>
     runtime_resolve True False 20467 20467 (setup_view st') 7 20467 None = Inr info \<and> di_working info \<noteq> Some True"
proof -
  obtain st' where st': "decideLeave True 0 True office_requested = Inr st'"
    using office_approved by blast
  obtain info where i: "runtime_resolve True False 20467 20467 (setup_view st') 7 20467 None = Inr info"
    using office_resolved unfolding office_approved_view[OF st', symmetric]
    by (cases "runtime_resolve True False 20467 20467 (setup_view st') 7 20467 None") auto
  from approved_day_not_worked[OF office_found st', of 20467 20467 20467 True None info] i st' show ?thesis by (simp add: two_days_def)
qed

end
