(* ===== verification/PayrollFormula.thy ===== *)
theory PayrollFormula
  imports Prelude
begin

text \<open>
  The formulas of salary components, \<^verbatim>\<open>src/src/lib/payrollFormula.js\<close>: the tokenizer, the parser that evaluates while it reads,
  and the validation of a formula before it is saved. Numbers are a parameter: an \<open>arith\<close> holds the operations of
  JavaScript numbers (\<^verbatim>\<open>evaluateFormula\<close>) or of the exact decimals of the database client (\<^verbatim>\<open>evaluateMoneyFormula\<close>), and the
  functions that may be called.
\<close>

section \<open>Tokens\<close>

datatype formula_error =
    Syntax string
  | UnknownFunction string
  | UnknownVariable string
  | Arithmetic string
  | OutOfFuel

datatype token = Sym char | Num string | Ident string

definition num_char :: "char \<Rightarrow> bool" where
  "num_char c \<longleftrightarrow> is_digit c \<or> c = CHR ''.''"

definition ident_start :: "char \<Rightarrow> bool" where
  "ident_start c \<longleftrightarrow> (let n = (of_char c :: nat) in (65 \<le> n \<and> n \<le> 90) \<or> (97 \<le> n \<and> n \<le> 122) \<or> c = CHR ''_'')"

definition ident_char :: "char \<Rightarrow> bool" where
  "ident_char c \<longleftrightarrow> ident_start c \<or> is_digit c"

definition blanks :: string where
  "blanks = [CHR '' '', CHR 0x09, CHR 0x0A, CHR 0x0D]"

function tokenize :: "string \<Rightarrow> formula_error + token list" where
  "tokenize [] = Inr []"
| "tokenize (c # cs) =
     (if c \<in> set blanks then tokenize cs
      else if c \<in> set ''+-*/%(),'' then rbind (tokenize cs) (\<lambda>ts. Inr (Sym c # ts))
      else if num_char c then
        (let num = c # takeWhile num_char cs in
         if 1 < length (filter (\<lambda>d. d = CHR ''.'') num) then Inl (Syntax ''bad number'')
         else rbind (tokenize (dropWhile num_char cs)) (\<lambda>ts. Inr (Num num # ts)))
      else if ident_start c then
        rbind (tokenize (dropWhile ident_char cs)) (\<lambda>ts. Inr (Ident (c # takeWhile ident_char cs) # ts))
      else Inl (Syntax ''unexpected character''))"
  by pat_completeness auto
termination by (relation "measure length") (auto simp: le_imp_less_Suc length_dropWhile_le)

section \<open>The parser\<close>

text \<open>
  \<open>ar_num\<close> reads a numeral, \<open>ar_read\<close> a value of the scope (\<open>None\<close> where the code calls it non-numeric), \<open>ar_call\<close> applies
  the function of that (lower-case) name. Functions and numerals that throw are \<open>None\<close>.
\<close>

record ('s, 'v) arith =
  ar_num :: "string \<Rightarrow> 'v option"
  ar_read :: "'s \<Rightarrow> 'v option"
  ar_zero :: 's
  ar_plus :: "'v \<Rightarrow> 'v \<Rightarrow> 'v"
  ar_minus :: "'v \<Rightarrow> 'v \<Rightarrow> 'v"
  ar_times :: "'v \<Rightarrow> 'v \<Rightarrow> 'v"
  ar_div :: "'v \<Rightarrow> 'v \<Rightarrow> 'v"
  ar_mod :: "'v \<Rightarrow> 'v \<Rightarrow> 'v"
  ar_neg :: "'v \<Rightarrow> 'v"
  ar_isZero :: "'v \<Rightarrow> bool"
  ar_isFinite :: "'v \<Rightarrow> bool"
  ar_text :: "'v \<Rightarrow> string"
  ar_call :: "string \<Rightarrow> 'v list \<Rightarrow> 'v option"

text \<open>
  \<^verbatim>\<open>FUNCTIONS[name]\<close> finds the functions of the table and what every JavaScript object inherits: of the inherited names,
  two are in lower case. (Calling \<^verbatim>\<open>__proto__\<close> throws, which the table of functions states by \<open>None\<close>.)
\<close>

definition FORMULA_FUNCTIONS :: "string list" where
  "FORMULA_FUNCTIONS = [''min'', ''max'', ''round'', ''floor'', ''ceil'', ''abs'', ''pow'']"

definition callable_names :: "string list" where
  "callable_names = FORMULA_FUNCTIONS @ [''constructor'', ''__proto__'']"

definition lookup_fn :: "('s, 'v) arith \<Rightarrow> string \<Rightarrow> ('v list \<Rightarrow> 'v option) option" where
  "lookup_fn A name = (if name \<in> set callable_names then Some (ar_call A name) else None)"

definition add_op :: "('s, 'v) arith \<Rightarrow> char \<Rightarrow> 'v \<Rightarrow> 'v \<Rightarrow> 'v" where
  "add_op A c x y = (if c = CHR ''+'' then ar_plus A x y else ar_minus A x y)"

definition mul_op :: "('s, 'v) arith \<Rightarrow> char \<Rightarrow> 'v \<Rightarrow> 'v \<Rightarrow> formula_error + 'v" where
  "mul_op A c x y =
    (if c = CHR ''*'' then Inr (ar_times A x y)
     else if ar_isZero A y then Inl (Arithmetic ''division or modulo by zero'')
     else if c = CHR ''/'' then Inr (ar_div A x y) else Inr (ar_mod A x y))"

definition expect :: "char \<Rightarrow> token list \<Rightarrow> formula_error + token list" where
  "expect c ts = (case ts of t # rest \<Rightarrow> if t = Sym c then Inr rest else Inl (Syntax ''expected'') | [] \<Rightarrow> Inl (Syntax ''expected''))"

definition starts :: "char list \<Rightarrow> token list \<Rightarrow> bool" where
  "starts cs ts = (case ts of Sym c # _ \<Rightarrow> c \<in> set cs | _ \<Rightarrow> False)"

definition op_of :: "token list \<Rightarrow> char" where
  "op_of ts = (case ts of Sym c # _ \<Rightarrow> c | _ \<Rightarrow> CHR '' '')"

text \<open>
  One function for each function and loop of the parser; the first argument is the fuel, which \<open>makeParser\<close> chooses.
  The position in the token list is the list of the tokens left.
\<close>

function (sequential) parse_expr :: "nat \<Rightarrow> ('s, 'v) arith \<Rightarrow> (string \<Rightarrow> 'v option) \<Rightarrow> token list \<Rightarrow> formula_error + 'v \<times> token list"
  and expr_loop :: "nat \<Rightarrow> ('s, 'v) arith \<Rightarrow> (string \<Rightarrow> 'v option) \<Rightarrow> 'v \<Rightarrow> token list \<Rightarrow> formula_error + 'v \<times> token list"
  and parse_term :: "nat \<Rightarrow> ('s, 'v) arith \<Rightarrow> (string \<Rightarrow> 'v option) \<Rightarrow> token list \<Rightarrow> formula_error + 'v \<times> token list"
  and term_loop :: "nat \<Rightarrow> ('s, 'v) arith \<Rightarrow> (string \<Rightarrow> 'v option) \<Rightarrow> 'v \<Rightarrow> token list \<Rightarrow> formula_error + 'v \<times> token list"
  and parse_factor :: "nat \<Rightarrow> ('s, 'v) arith \<Rightarrow> (string \<Rightarrow> 'v option) \<Rightarrow> token list \<Rightarrow> formula_error + 'v \<times> token list"
  and parse_primary :: "nat \<Rightarrow> ('s, 'v) arith \<Rightarrow> (string \<Rightarrow> 'v option) \<Rightarrow> token list \<Rightarrow> formula_error + 'v \<times> token list"
  and parse_args :: "nat \<Rightarrow> ('s, 'v) arith \<Rightarrow> (string \<Rightarrow> 'v option) \<Rightarrow> token list \<Rightarrow> formula_error + 'v list \<times> token list"
  and args_loop :: "nat \<Rightarrow> ('s, 'v) arith \<Rightarrow> (string \<Rightarrow> 'v option) \<Rightarrow> token list \<Rightarrow> formula_error + 'v list \<times> token list"
where
  "parse_expr 0 A resolve ts = Inl OutOfFuel"
| "parse_expr (Suc n) A resolve ts = rbind (parse_term n A resolve ts) (\<lambda>(left, ts1). expr_loop n A resolve left ts1)"
| "expr_loop 0 A resolve left ts = Inl OutOfFuel"
| "expr_loop (Suc n) A resolve left ts =
     (if starts ''+-'' ts
      then rbind (parse_term n A resolve (tl ts)) (\<lambda>(right, ts1). expr_loop n A resolve (add_op A (op_of ts) left right) ts1)
      else Inr (left, ts))"
| "parse_term 0 A resolve ts = Inl OutOfFuel"
| "parse_term (Suc n) A resolve ts = rbind (parse_factor n A resolve ts) (\<lambda>(left, ts1). term_loop n A resolve left ts1)"
| "term_loop 0 A resolve left ts = Inl OutOfFuel"
| "term_loop (Suc n) A resolve left ts =
     (if starts ''*/%'' ts
      then rbind (parse_factor n A resolve (tl ts)) (\<lambda>(right, ts1).
        rbind (mul_op A (op_of ts) left right) (\<lambda>v. term_loop n A resolve v ts1))
      else Inr (left, ts))"
| "parse_factor 0 A resolve ts = Inl OutOfFuel"
| "parse_factor (Suc n) A resolve ts =
     (if starts ''+-'' ts
      then rbind (parse_factor n A resolve (tl ts)) (\<lambda>(v, ts1). Inr (if op_of ts = CHR ''-'' then ar_neg A v else v, ts1))
      else parse_primary n A resolve ts)"
| "parse_primary 0 A resolve ts = Inl OutOfFuel"
| "parse_primary (Suc n) A resolve [] = Inl (Syntax ''unexpected end of formula'')"
| "parse_primary (Suc n) A resolve (Num raw # rest) = rbind (require (ar_num A raw) (Arithmetic ''numeral'')) (\<lambda>v. Inr (v, rest))"
| "parse_primary (Suc n) A resolve (Sym c # rest) =
     (if c = CHR ''('' then rbind (parse_expr n A resolve rest) (\<lambda>(v, ts1). rbind (expect CHR '')'' ts1) (\<lambda>ts2. Inr (v, ts2)))
      else Inl (Syntax ''unexpected token''))"
| "parse_primary (Suc n) A resolve (Ident x # rest) =
     (if starts ''('' rest then
        rbind (require (lookup_fn A (js_toLower x)) (UnknownFunction x)) (\<lambda>f.
        rbind (parse_args n A resolve (tl rest)) (\<lambda>(vs, ts1).
        rbind (expect CHR '')'' ts1) (\<lambda>ts2.
        rbind (require (f vs) (Arithmetic ''function'')) (\<lambda>v. Inr (v, ts2)))))
      else rbind (require (resolve x) (UnknownVariable x)) (\<lambda>v. Inr (v, rest)))"
| "parse_args 0 A resolve ts = Inl OutOfFuel"
| "parse_args (Suc n) A resolve ts =
     (if ts = [] \<or> starts '')'' ts then Inr ([], ts)
      else rbind (parse_expr n A resolve ts) (\<lambda>(v, ts1). rbind (args_loop n A resolve ts1) (\<lambda>(vs, ts2). Inr (v # vs, ts2))))"
| "args_loop 0 A resolve ts = Inl OutOfFuel"
| "args_loop (Suc n) A resolve ts =
     (if starts '','' ts
      then rbind (parse_expr n A resolve (tl ts)) (\<lambda>(v, ts1). rbind (args_loop n A resolve ts1) (\<lambda>(vs, ts2). Inr (v # vs, ts2)))
      else Inr ([], ts))"
  by pat_completeness auto
termination by size_change

definition makeParser :: "('s, 'v) arith \<Rightarrow> (string \<Rightarrow> 'v option) \<Rightarrow> token list \<Rightarrow> formula_error + 'v" where
  "makeParser A resolve tokens =
    rbind (parse_expr (6 * length tokens + 4) A resolve tokens) (\<lambda>(result, rest).
      if rest \<noteq> [] then Inl (Syntax ''trailing tokens in formula'') else Inr result)"

section \<open>Evaluation and validation\<close>

text \<open>Names are compared in upper case; of two scope entries with the same name the later one counts.\<close>

definition resolve_in :: "('s, 'v) arith \<Rightarrow> (string \<times> 's) list \<Rightarrow> string \<Rightarrow> 'v option" where
  "resolve_in A scope name =
    Option.bind (map_of (rev (map (\<lambda>(k, v). (js_toUpper k, v)) scope)) (js_toUpper name)) (ar_read A)"

definition evaluateFormula :: "('s, 'v) arith \<Rightarrow> string \<Rightarrow> (string \<times> 's) list \<Rightarrow> formula_error + 'v" where
  "evaluateFormula A formula scope = rbind (tokenize formula) (makeParser A (resolve_in A scope))"

definition evaluateMoneyFormula :: "('s, 'v) arith \<Rightarrow> string \<Rightarrow> (string \<times> 's) list \<Rightarrow> formula_error + string" where
  "evaluateMoneyFormula A formula scope =
    rbind (evaluateFormula A formula scope) (\<lambda>result.
      if ar_isFinite A result then Inr (ar_text A result) else Inl (Arithmetic ''Formula must produce a finite amount''))"

fun idents :: "token list \<Rightarrow> string list" where
  "idents [] = []"
| "idents (t # ts) = (case t of Ident x \<Rightarrow> if starts ''('' ts then idents ts else x # idents ts | _ \<Rightarrow> idents ts)"

definition extractIdentifiers :: "string \<Rightarrow> formula_error + string list" where
  "extractIdentifiers formula = rbind (tokenize formula) (\<lambda>ts. Inr (nub (idents ts)))"

text \<open>\<open>Inr\<close> the identifiers for \<^verbatim>\<open>ok: true\<close>, \<open>Inl\<close> the error otherwise.\<close>

definition validateFormula :: "('s, 'v) arith \<Rightarrow> string \<Rightarrow> string list option \<Rightarrow> formula_error + string list" where
  "validateFormula A formula allowedVars =
    rbind (extractIdentifiers formula) (\<lambda>ids.
    rbind (case allowedVars of None \<Rightarrow> Inr ()
           | Some vars \<Rightarrow>
               (case filter (\<lambda>v. js_toUpper v \<notin> js_toUpper ` set vars) ids of
                  [] \<Rightarrow> Inr () | x # _ \<Rightarrow> Inl (UnknownVariable x))) (\<lambda>_.
    rbind (evaluateFormula A formula (map (\<lambda>v. (v, ar_zero A)) ids)) (\<lambda>_. Inr ids)))"

section \<open>The parser consumes tokens\<close>

definition no_longer :: "token list \<Rightarrow> token list \<Rightarrow> bool" where
  "no_longer ts1 ts \<longleftrightarrow> length ts1 \<le> length ts \<and> set (idents ts1) \<subseteq> set (idents ts)"

definition shorter :: "token list \<Rightarrow> token list \<Rightarrow> bool" where
  "shorter ts1 ts \<longleftrightarrow> length ts1 < length ts \<and> set (idents ts1) \<subseteq> set (idents ts)"

lemma idents_Cons: "set (idents ts) \<subseteq> set (idents (t # ts))"
  by (cases t) auto

lemma no_longer_refl [simp]: "no_longer ts ts"
  by (simp add: no_longer_def)

lemma shorter_Cons [simp]: "shorter ts (t # ts)"
  using idents_Cons by (simp add: shorter_def)

lemma starts_Cons: "starts cs ts \<Longrightarrow> \<exists>c rest. ts = Sym c # rest \<and> c \<in> set cs"
  by (auto simp: starts_def split: list.splits token.splits)

lemma starts_tl: "starts cs ts \<Longrightarrow> shorter (tl ts) ts"
  by (auto dest: starts_Cons)

lemma expect_Inr: "expect c ts = Inr rest \<longleftrightarrow> ts = Sym c # rest"
  by (auto simp: expect_def split: list.splits if_splits)

lemma shorter_trans:
  "shorter a b \<Longrightarrow> shorter b c \<Longrightarrow> shorter a c" "shorter a b \<Longrightarrow> no_longer b c \<Longrightarrow> shorter a c"
  "no_longer a b \<Longrightarrow> shorter b c \<Longrightarrow> shorter a c" "no_longer a b \<Longrightarrow> no_longer b c \<Longrightarrow> no_longer a c"
  "shorter a b \<Longrightarrow> no_longer a b"
  by (auto simp: shorter_def no_longer_def)

lemma parser_shortens:
  "parse_expr n A r ts = Inr (v, ts1) \<Longrightarrow> shorter ts1 ts"
  "expr_loop n A r x ts = Inr (v, ts1) \<Longrightarrow> no_longer ts1 ts"
  "parse_term n A r ts = Inr (v, ts1) \<Longrightarrow> shorter ts1 ts"
  "term_loop n A r x ts = Inr (v, ts1) \<Longrightarrow> no_longer ts1 ts"
  "parse_factor n A r ts = Inr (v, ts1) \<Longrightarrow> shorter ts1 ts"
  "parse_primary n A r ts = Inr (v, ts1) \<Longrightarrow> shorter ts1 ts"
  "parse_args n A r ts = Inr (vs, ts1) \<Longrightarrow> no_longer ts1 ts"
  "args_loop n A r ts = Inr (vs, ts1) \<Longrightarrow> no_longer ts1 ts"
proof (induction n A r ts and n A r x ts and n A r ts and n A r x ts and n A r ts and n A r ts and n A r ts and n A r ts
    arbitrary: v ts1 and v ts1 and v ts1 and v ts1 and v ts1 and v ts1 and vs ts1 and vs ts1
    rule: parse_expr_expr_loop_parse_term_term_loop_parse_factor_parse_primary_parse_args_args_loop.induct)
  case (2 n A resolve ts)
  then show ?case by (fastforce simp: result_simps intro: shorter_trans)
next
  case (4 n A resolve left ts)
  then show ?case by (fastforce simp: result_simps split: if_splits intro: shorter_trans starts_tl)
next
  case (6 n A resolve ts)
  then show ?case by (fastforce simp: result_simps intro: shorter_trans)
next
  case (8 n A resolve left ts)
  then show ?case by (fastforce simp: result_simps split: if_splits intro: shorter_trans starts_tl)
next
  case (10 n A resolve ts)
  then show ?case by (fastforce simp: result_simps split: if_splits intro: shorter_trans starts_tl)
next
  case (13 n A resolve raw rest)
  then show ?case by (auto simp: result_simps)
next
  case (14 n A resolve c rest)
  then obtain ts2 where "parse_expr n A resolve rest = Inr (v, ts2)" "ts2 = Sym CHR '')'' # ts1"
    by (auto simp: result_simps expect_Inr split: if_splits)
  with 14 have "shorter (Sym CHR '')'' # ts1) rest" by (auto split: if_splits)
  then show ?case by (meson shorter_Cons shorter_trans)
next
  case (15 n A resolve x rest)
  show ?case
  proof (cases "starts ''('' rest")
    case True
    with "15.prems" obtain f vs where f: "lookup_fn A (js_toLower x) = Some f"
      and p: "parse_args n A resolve (tl rest) = Inr (vs, Sym CHR '')'' # ts1)"
      by (auto simp: result_simps expect_Inr)
    with "15.IH" True have "no_longer (Sym CHR '')'' # ts1) (tl rest)" by simp
    with True show ?thesis by (meson shorter_Cons shorter_trans starts_tl)
  qed (use "15.prems" in \<open>auto simp: result_simps\<close>)
next
  case (17 n A resolve ts)
  then show ?case by (fastforce simp: result_simps split: if_splits intro: shorter_trans starts_tl)
next
  case (19 n A resolve ts)
  then show ?case by (fastforce simp: result_simps split: if_splits intro: shorter_trans starts_tl)
qed simp_all

section \<open>Fuel\<close>

lemma mul_op_fuel [simp]: "mul_op A c x y \<noteq> Inl OutOfFuel"
  by (simp add: mul_op_def)

lemma expect_fuel [simp]: "expect c ts \<noteq> Inl OutOfFuel"
  by (auto simp: expect_def split: list.splits)

lemma require_Inl: "require x e = Inl e' \<longleftrightarrow> x = None \<and> e' = e"
  by (cases x) auto

lemma starts_length: "starts cs ts \<Longrightarrow> length (tl ts) < length ts"
  by (auto dest: starts_Cons)

lemma shorter_length: "shorter a b \<Longrightarrow> length a < length b"
  by (simp add: shorter_def)

lemmas shortens_length = parser_shortens(1,3,5,6)[THEN shorter_length]


lemma rbind_fuel:
  "m \<noteq> Inl OutOfFuel \<Longrightarrow> (\<And>x. m = Inr x \<Longrightarrow> f x \<noteq> Inl OutOfFuel) \<Longrightarrow> rbind m f \<noteq> Inl OutOfFuel"
  by (cases m) auto

lemma rbind_pair_fuel:
  "m \<noteq> Inl OutOfFuel \<Longrightarrow> (\<And>x ts. m = Inr (x, ts) \<Longrightarrow> f x ts \<noteq> Inl OutOfFuel) \<Longrightarrow>
   rbind m (\<lambda>(x, ts). f x ts) \<noteq> Inl OutOfFuel"
  by (cases m) auto

lemma rbind_more:
  "rbind m f \<noteq> Inl OutOfFuel \<Longrightarrow> (m \<noteq> Inl OutOfFuel \<Longrightarrow> m' = m) \<Longrightarrow>
   (\<And>x. m = Inr x \<Longrightarrow> f x \<noteq> Inl OutOfFuel \<Longrightarrow> g x = f x) \<Longrightarrow> rbind m' g = rbind m f"
  by (cases m) auto

lemma rbind_pair_more:
  "rbind m (\<lambda>(x, ts). f x ts) \<noteq> Inl OutOfFuel \<Longrightarrow> (m \<noteq> Inl OutOfFuel \<Longrightarrow> m' = m) \<Longrightarrow>
   (\<And>x ts. m = Inr (x, ts) \<Longrightarrow> f x ts \<noteq> Inl OutOfFuel \<Longrightarrow> g x ts = f x ts) \<Longrightarrow>
   rbind m' (\<lambda>(x, ts). g x ts) = rbind m (\<lambda>(x, ts). f x ts)"
  by (cases m) auto

definition fuel_ok :: "('s, 'v) arith \<Rightarrow> (string \<Rightarrow> 'v option) \<Rightarrow> nat \<Rightarrow> bool" where
  "fuel_ok A r n \<longleftrightarrow>
   (\<forall>ts. 6 * length ts + 4 \<le> n \<longrightarrow> parse_expr n A r ts \<noteq> Inl OutOfFuel) \<and>
   (\<forall>x ts. 6 * length ts + 1 \<le> n \<longrightarrow> expr_loop n A r x ts \<noteq> Inl OutOfFuel) \<and>
   (\<forall>ts. 6 * length ts + 3 \<le> n \<longrightarrow> parse_term n A r ts \<noteq> Inl OutOfFuel) \<and>
   (\<forall>x ts. 6 * length ts + 1 \<le> n \<longrightarrow> term_loop n A r x ts \<noteq> Inl OutOfFuel) \<and>
   (\<forall>ts. 6 * length ts + 2 \<le> n \<longrightarrow> parse_factor n A r ts \<noteq> Inl OutOfFuel) \<and>
   (\<forall>ts. 6 * length ts + 1 \<le> n \<longrightarrow> parse_primary n A r ts \<noteq> Inl OutOfFuel) \<and>
   (\<forall>ts. 6 * length ts + 5 \<le> n \<longrightarrow> parse_args n A r ts \<noteq> Inl OutOfFuel) \<and>
   (\<forall>ts. 6 * length ts + 1 \<le> n \<longrightarrow> args_loop n A r ts \<noteq> Inl OutOfFuel)"

lemma fuel_okD: assumes "fuel_ok A r n"
  shows "6 * length ts + 4 \<le> n \<Longrightarrow> parse_expr n A r ts \<noteq> Inl OutOfFuel"
    and "6 * length ts + 1 \<le> n \<Longrightarrow> expr_loop n A r x ts \<noteq> Inl OutOfFuel"
    and "6 * length ts + 3 \<le> n \<Longrightarrow> parse_term n A r ts \<noteq> Inl OutOfFuel"
    and "6 * length ts + 1 \<le> n \<Longrightarrow> term_loop n A r x ts \<noteq> Inl OutOfFuel"
    and "6 * length ts + 2 \<le> n \<Longrightarrow> parse_factor n A r ts \<noteq> Inl OutOfFuel"
    and "6 * length ts + 1 \<le> n \<Longrightarrow> parse_primary n A r ts \<noteq> Inl OutOfFuel"
    and "6 * length ts + 5 \<le> n \<Longrightarrow> parse_args n A r ts \<noteq> Inl OutOfFuel"
    and "6 * length ts + 1 \<le> n \<Longrightarrow> args_loop n A r ts \<noteq> Inl OutOfFuel"
  using assms by (simp_all add: fuel_ok_def)

lemma parser_shortens_length:
  "parse_expr n A r ts = Inr (v, ts1) \<Longrightarrow> length ts1 < length ts"
  "parse_term n A r ts = Inr (v, ts1) \<Longrightarrow> length ts1 < length ts"
  "parse_factor n A r ts = Inr (v, ts1) \<Longrightarrow> length ts1 < length ts"
  by (auto dest!: parser_shortens simp: shorter_def)

lemma fuel_ok_Suc: assumes "fuel_ok A r n" shows "fuel_ok A r (Suc n)"
proof -
  note ih = fuel_okD[OF assms]
  have "parse_expr (Suc n) A r ts \<noteq> Inl OutOfFuel" if "6 * length ts + 4 \<le> Suc n" for ts
    using that by simp (rule rbind_pair_fuel, simp add: ih, drule parser_shortens_length, simp add: ih)
  moreover have "expr_loop (Suc n) A r x ts \<noteq> Inl OutOfFuel" if "6 * length ts + 1 \<le> Suc n" for x ts
    using that starts_length[of "''+-''" ts]
    by simp (intro impI, rule rbind_pair_fuel, simp add: ih, drule parser_shortens_length, simp add: ih)
  moreover have "parse_term (Suc n) A r ts \<noteq> Inl OutOfFuel" if "6 * length ts + 3 \<le> Suc n" for ts
    using that by simp (rule rbind_pair_fuel, simp add: ih, drule parser_shortens_length, simp add: ih)
  moreover have "term_loop (Suc n) A r x ts \<noteq> Inl OutOfFuel" if "6 * length ts + 1 \<le> Suc n" for x ts
    using that starts_length[of "''*/%''" ts]
    by simp (intro impI, rule rbind_pair_fuel, simp add: ih, drule parser_shortens_length, rule rbind_fuel, simp, simp add: ih)
  moreover have "parse_factor (Suc n) A r ts \<noteq> Inl OutOfFuel" if "6 * length ts + 2 \<le> Suc n" for ts
    using that starts_length[of "''+-''" ts] by simp (intro conjI impI, rule rbind_pair_fuel, simp_all add: ih)
  moreover have "parse_primary (Suc n) A r ts \<noteq> Inl OutOfFuel" if "6 * length ts + 1 \<le> Suc n" for ts
  proof (cases ts)
    case (Cons t rest)
    with that starts_length[of "''(''" rest] show ?thesis
      by (cases t; simp; (intro conjI impI rbind_pair_fuel rbind_fuel)?; simp add: ih require_Inl)
  qed simp
  moreover have "parse_args (Suc n) A r ts \<noteq> Inl OutOfFuel" if "6 * length ts + 5 \<le> Suc n" for ts
    using that by simp (intro impI, rule rbind_pair_fuel, simp add: ih, drule parser_shortens_length, rule rbind_pair_fuel, simp_all add: ih)
  moreover have "args_loop (Suc n) A r ts \<noteq> Inl OutOfFuel" if "6 * length ts + 1 \<le> Suc n" for ts
    using that starts_length[of "'',''" ts]
    by simp (intro impI, rule rbind_pair_fuel, simp add: ih, drule parser_shortens_length, rule rbind_pair_fuel, simp_all add: ih)
  ultimately show ?thesis by (simp add: fuel_ok_def)
qed

lemma fuel_ok: "fuel_ok A r n"
  by (induction n) (simp add: fuel_ok_def, rule fuel_ok_Suc)

lemmas parser_fuel = fuel_okD[OF fuel_ok]

declare parse_expr.simps [simp del] expr_loop.simps [simp del] parse_term.simps [simp del] term_loop.simps [simp del]
  parse_factor.simps [simp del] parse_primary.simps [simp del] parse_args.simps [simp del] args_loop.simps [simp del]

lemmas parser_simps = parse_expr.simps expr_loop.simps parse_term.simps term_loop.simps parse_factor.simps parse_primary.simps
  parse_args.simps args_loop.simps

definition more_ok :: "('s, 'v) arith \<Rightarrow> (string \<Rightarrow> 'v option) \<Rightarrow> nat \<Rightarrow> bool" where
  "more_ok A r n \<longleftrightarrow>
   (\<forall>ts. parse_expr n A r ts \<noteq> Inl OutOfFuel \<longrightarrow> parse_expr (Suc n) A r ts = parse_expr n A r ts) \<and>
   (\<forall>x ts. expr_loop n A r x ts \<noteq> Inl OutOfFuel \<longrightarrow> expr_loop (Suc n) A r x ts = expr_loop n A r x ts) \<and>
   (\<forall>ts. parse_term n A r ts \<noteq> Inl OutOfFuel \<longrightarrow> parse_term (Suc n) A r ts = parse_term n A r ts) \<and>
   (\<forall>x ts. term_loop n A r x ts \<noteq> Inl OutOfFuel \<longrightarrow> term_loop (Suc n) A r x ts = term_loop n A r x ts) \<and>
   (\<forall>ts. parse_factor n A r ts \<noteq> Inl OutOfFuel \<longrightarrow> parse_factor (Suc n) A r ts = parse_factor n A r ts) \<and>
   (\<forall>ts. parse_primary n A r ts \<noteq> Inl OutOfFuel \<longrightarrow> parse_primary (Suc n) A r ts = parse_primary n A r ts) \<and>
   (\<forall>ts. parse_args n A r ts \<noteq> Inl OutOfFuel \<longrightarrow> parse_args (Suc n) A r ts = parse_args n A r ts) \<and>
   (\<forall>ts. args_loop n A r ts \<noteq> Inl OutOfFuel \<longrightarrow> args_loop (Suc n) A r ts = args_loop n A r ts)"

lemma more_okD: assumes "more_ok A r n"
  shows "parse_expr n A r ts \<noteq> Inl OutOfFuel \<Longrightarrow> parse_expr (Suc n) A r ts = parse_expr n A r ts"
    and "expr_loop n A r x ts \<noteq> Inl OutOfFuel \<Longrightarrow> expr_loop (Suc n) A r x ts = expr_loop n A r x ts"
    and "parse_term n A r ts \<noteq> Inl OutOfFuel \<Longrightarrow> parse_term (Suc n) A r ts = parse_term n A r ts"
    and "term_loop n A r x ts \<noteq> Inl OutOfFuel \<Longrightarrow> term_loop (Suc n) A r x ts = term_loop n A r x ts"
    and "parse_factor n A r ts \<noteq> Inl OutOfFuel \<Longrightarrow> parse_factor (Suc n) A r ts = parse_factor n A r ts"
    and "parse_primary n A r ts \<noteq> Inl OutOfFuel \<Longrightarrow> parse_primary (Suc n) A r ts = parse_primary n A r ts"
    and "parse_args n A r ts \<noteq> Inl OutOfFuel \<Longrightarrow> parse_args (Suc n) A r ts = parse_args n A r ts"
    and "args_loop n A r ts \<noteq> Inl OutOfFuel \<Longrightarrow> args_loop (Suc n) A r ts = args_loop n A r ts"
  using assms unfolding more_ok_def by blast+

lemma more_ok_Suc: assumes "more_ok A r n" shows "more_ok A r (Suc n)"
proof -
  note ih = more_okD[OF assms]
  let ?d = "Suc n"
  have "parse_expr (Suc ?d) A r ts = parse_expr (Suc n) A r ts" if "parse_expr (Suc n) A r ts \<noteq> Inl OutOfFuel" for ts
    using that unfolding parse_expr.simps(2)[of n A r ts] parse_expr.simps(2)[of ?d A r ts]
    by - (erule rbind_pair_more; simp add: ih)
  moreover have "expr_loop (Suc ?d) A r x ts = expr_loop (Suc n) A r x ts" if "expr_loop (Suc n) A r x ts \<noteq> Inl OutOfFuel" for x ts
    using that unfolding expr_loop.simps(2)[of n A r x ts] expr_loop.simps(2)[of ?d A r x ts]
    by (simp split: if_splits; (elim rbind_pair_more rbind_more)?; simp add: ih)
  moreover have "parse_term (Suc ?d) A r ts = parse_term (Suc n) A r ts" if "parse_term (Suc n) A r ts \<noteq> Inl OutOfFuel" for ts
    using that unfolding parse_term.simps(2)[of n A r ts] parse_term.simps(2)[of ?d A r ts]
    by - (erule rbind_pair_more; simp add: ih)
  moreover have "term_loop (Suc ?d) A r x ts = term_loop (Suc n) A r x ts" if "term_loop (Suc n) A r x ts \<noteq> Inl OutOfFuel" for x ts
    using that unfolding term_loop.simps(2)[of n A r x ts] term_loop.simps(2)[of ?d A r x ts]
    by (simp split: if_splits; (elim rbind_pair_more rbind_more)?; simp add: ih)
  moreover have "parse_factor (Suc ?d) A r ts = parse_factor (Suc n) A r ts" if "parse_factor (Suc n) A r ts \<noteq> Inl OutOfFuel" for ts
    using that unfolding parse_factor.simps(2)[of n A r ts] parse_factor.simps(2)[of ?d A r ts]
    by (simp split: if_splits; (elim rbind_pair_more rbind_more)?; simp add: ih)
  moreover have "parse_primary (Suc ?d) A r ts = parse_primary (Suc n) A r ts" if "parse_primary (Suc n) A r ts \<noteq> Inl OutOfFuel" for ts
  proof (cases ts)
    case (Cons t rest)
    with that show ?thesis
      by (cases t; simp only: parse_primary.simps; simp split: if_splits; (elim rbind_pair_more rbind_more)?; simp add: ih)
  qed (simp add: parse_primary.simps)
  moreover have "parse_args (Suc ?d) A r ts = parse_args (Suc n) A r ts" if "parse_args (Suc n) A r ts \<noteq> Inl OutOfFuel" for ts
    using that unfolding parse_args.simps(2)[of n A r ts] parse_args.simps(2)[of ?d A r ts]
    by (cases "ts = [] \<or> starts '')'' ts"; simp; (elim rbind_pair_more rbind_more)?; simp add: ih)
  moreover have "args_loop (Suc ?d) A r ts = args_loop (Suc n) A r ts" if "args_loop (Suc n) A r ts \<noteq> Inl OutOfFuel" for ts
    using that unfolding args_loop.simps(2)[of n A r ts] args_loop.simps(2)[of ?d A r ts]
    by (simp split: if_splits; (elim rbind_pair_more rbind_more)?; simp add: ih)
  ultimately show ?thesis by (simp add: more_ok_def)
qed

lemma more_ok: "more_ok A r n"
  by (induction n) (simp add: more_ok_def parser_simps, rule more_ok_Suc)

lemmas parser_step = more_okD[OF more_ok]

lemma keeps:
  assumes "\<And>n. f n \<noteq> Inl OutOfFuel \<Longrightarrow> f (Suc n) = f n" and "\<And>n. b \<le> n \<Longrightarrow> f n \<noteq> Inl OutOfFuel" and "b \<le> n"
  shows "f n = f b"
  using assms(3) by (induction rule: dec_induct) (simp_all add: assms(1,2))

lemma parser_enough:
  "6 * length ts + 4 \<le> n \<Longrightarrow> parse_expr n A r ts = parse_expr (6 * length ts + 4) A r ts"
  "6 * length ts + 1 \<le> n \<Longrightarrow> expr_loop n A r x ts = expr_loop (6 * length ts + 1) A r x ts"
  "6 * length ts + 3 \<le> n \<Longrightarrow> parse_term n A r ts = parse_term (6 * length ts + 3) A r ts"
  "6 * length ts + 1 \<le> n \<Longrightarrow> term_loop n A r x ts = term_loop (6 * length ts + 1) A r x ts"
  "6 * length ts + 2 \<le> n \<Longrightarrow> parse_factor n A r ts = parse_factor (6 * length ts + 2) A r ts"
  "6 * length ts + 1 \<le> n \<Longrightarrow> parse_primary n A r ts = parse_primary (6 * length ts + 1) A r ts"
  "6 * length ts + 5 \<le> n \<Longrightarrow> parse_args n A r ts = parse_args (6 * length ts + 5) A r ts"
  "6 * length ts + 1 \<le> n \<Longrightarrow> args_loop n A r ts = args_loop (6 * length ts + 1) A r ts"
proof -
  show "6 * length ts + 4 \<le> n \<Longrightarrow> parse_expr n A r ts = parse_expr (6 * length ts + 4) A r ts"
    by (rule keeps[where f = "\<lambda>n. parse_expr n A r ts", OF parser_step(1) parser_fuel(1)])
  show "6 * length ts + 1 \<le> n \<Longrightarrow> expr_loop n A r x ts = expr_loop (6 * length ts + 1) A r x ts"
    by (rule keeps[where f = "\<lambda>n. expr_loop n A r x ts", OF parser_step(2) parser_fuel(2)])
  show "6 * length ts + 3 \<le> n \<Longrightarrow> parse_term n A r ts = parse_term (6 * length ts + 3) A r ts"
    by (rule keeps[where f = "\<lambda>n. parse_term n A r ts", OF parser_step(3) parser_fuel(3)])
  show "6 * length ts + 1 \<le> n \<Longrightarrow> term_loop n A r x ts = term_loop (6 * length ts + 1) A r x ts"
    by (rule keeps[where f = "\<lambda>n. term_loop n A r x ts", OF parser_step(4) parser_fuel(4)])
  show "6 * length ts + 2 \<le> n \<Longrightarrow> parse_factor n A r ts = parse_factor (6 * length ts + 2) A r ts"
    by (rule keeps[where f = "\<lambda>n. parse_factor n A r ts", OF parser_step(5) parser_fuel(5)])
  show "6 * length ts + 1 \<le> n \<Longrightarrow> parse_primary n A r ts = parse_primary (6 * length ts + 1) A r ts"
    by (rule keeps[where f = "\<lambda>n. parse_primary n A r ts", OF parser_step(6) parser_fuel(6)])
  show "6 * length ts + 5 \<le> n \<Longrightarrow> parse_args n A r ts = parse_args (6 * length ts + 5) A r ts"
    by (rule keeps[where f = "\<lambda>n. parse_args n A r ts", OF parser_step(7) parser_fuel(7)])
  show "6 * length ts + 1 \<le> n \<Longrightarrow> args_loop n A r ts = args_loop (6 * length ts + 1) A r ts"
    by (rule keeps[where f = "\<lambda>n. args_loop n A r ts", OF parser_step(8) parser_fuel(8)])
qed

text \<open>The parser with enough fuel, and its equations without fuel.\<close>

definition expr_p :: "('s, 'v) arith \<Rightarrow> (string \<Rightarrow> 'v option) \<Rightarrow> token list \<Rightarrow> formula_error + 'v \<times> token list" where
  "expr_p A r ts = parse_expr (6 * length ts + 4) A r ts"

definition expr_l :: "('s, 'v) arith \<Rightarrow> (string \<Rightarrow> 'v option) \<Rightarrow> 'v \<Rightarrow> token list \<Rightarrow> formula_error + 'v \<times> token list" where
  "expr_l A r x ts = expr_loop (6 * length ts + 1) A r x ts"

definition term_p :: "('s, 'v) arith \<Rightarrow> (string \<Rightarrow> 'v option) \<Rightarrow> token list \<Rightarrow> formula_error + 'v \<times> token list" where
  "term_p A r ts = parse_term (6 * length ts + 3) A r ts"

definition term_l :: "('s, 'v) arith \<Rightarrow> (string \<Rightarrow> 'v option) \<Rightarrow> 'v \<Rightarrow> token list \<Rightarrow> formula_error + 'v \<times> token list" where
  "term_l A r x ts = term_loop (6 * length ts + 1) A r x ts"

definition factor_p :: "('s, 'v) arith \<Rightarrow> (string \<Rightarrow> 'v option) \<Rightarrow> token list \<Rightarrow> formula_error + 'v \<times> token list" where
  "factor_p A r ts = parse_factor (6 * length ts + 2) A r ts"

definition primary_p :: "('s, 'v) arith \<Rightarrow> (string \<Rightarrow> 'v option) \<Rightarrow> token list \<Rightarrow> formula_error + 'v \<times> token list" where
  "primary_p A r ts = parse_primary (6 * length ts + 1) A r ts"

definition args_p :: "('s, 'v) arith \<Rightarrow> (string \<Rightarrow> 'v option) \<Rightarrow> token list \<Rightarrow> formula_error + 'v list \<times> token list" where
  "args_p A r ts = parse_args (6 * length ts + 5) A r ts"

definition args_l :: "('s, 'v) arith \<Rightarrow> (string \<Rightarrow> 'v option) \<Rightarrow> token list \<Rightarrow> formula_error + 'v list \<times> token list" where
  "args_l A r ts = args_loop (6 * length ts + 1) A r ts"

lemmas parser_p_defs = expr_p_def expr_l_def term_p_def term_l_def factor_p_def primary_p_def args_p_def args_l_def

lemma parser_p:
  "6 * length ts + 4 \<le> n \<Longrightarrow> parse_expr n A r ts = expr_p A r ts"
  "6 * length ts + 1 \<le> n \<Longrightarrow> expr_loop n A r x ts = expr_l A r x ts"
  "6 * length ts + 3 \<le> n \<Longrightarrow> parse_term n A r ts = term_p A r ts"
  "6 * length ts + 1 \<le> n \<Longrightarrow> term_loop n A r x ts = term_l A r x ts"
  "6 * length ts + 2 \<le> n \<Longrightarrow> parse_factor n A r ts = factor_p A r ts"
  "6 * length ts + 1 \<le> n \<Longrightarrow> parse_primary n A r ts = primary_p A r ts"
  "6 * length ts + 5 \<le> n \<Longrightarrow> parse_args n A r ts = args_p A r ts"
  "6 * length ts + 1 \<le> n \<Longrightarrow> args_loop n A r ts = args_l A r ts"
  unfolding parser_p_defs by (rule parser_enough, assumption)+

lemma p_length:
  "expr_p A r ts = Inr (v, ts1) \<Longrightarrow> length ts1 < length ts"
  "term_p A r ts = Inr (v, ts1) \<Longrightarrow> length ts1 < length ts"
  "factor_p A r ts = Inr (v, ts1) \<Longrightarrow> length ts1 < length ts"
  unfolding parser_p_defs by (drule parser_shortens_length, assumption)+

lemma expr_p: "expr_p A r ts = rbind (term_p A r ts) (\<lambda>(x, ts1). expr_l A r x ts1)"
proof -
  have "expr_p A r ts = parse_expr (Suc (6 * length ts + 3)) A r ts" by (simp add: expr_p_def eval_nat_numeral)
  also have "\<dots> = rbind (term_p A r ts) (\<lambda>(x, ts1). expr_l A r x ts1)"
    unfolding parse_expr.simps
    by (auto simp: parser_p dest!: p_length intro!: rbind_cong)
  finally show ?thesis .
qed

lemma expr_l: "expr_l A r x ts = (if starts ''+-'' ts
    then rbind (term_p A r (tl ts)) (\<lambda>(y, ts1). expr_l A r (add_op A (op_of ts) x y) ts1) else Inr (x, ts))"
proof -
  have "expr_l A r x ts = expr_loop (Suc (6 * length ts)) A r x ts" by (simp add: expr_l_def eval_nat_numeral)
  also have "\<dots> = (if starts ''+-'' ts
    then rbind (term_p A r (tl ts)) (\<lambda>(y, ts1). expr_l A r (add_op A (op_of ts) x y) ts1) else Inr (x, ts))"
    unfolding expr_loop.simps
    by (auto simp: parser_p dest!: starts_length p_length intro!: rbind_cong)
  finally show ?thesis .
qed

lemma term_p: "term_p A r ts = rbind (factor_p A r ts) (\<lambda>(x, ts1). term_l A r x ts1)"
proof -
  have "term_p A r ts = parse_term (Suc (6 * length ts + 2)) A r ts" by (simp add: term_p_def eval_nat_numeral)
  also have "\<dots> = rbind (factor_p A r ts) (\<lambda>(x, ts1). term_l A r x ts1)"
    unfolding parse_term.simps
    by (auto simp: parser_p dest!: p_length intro!: rbind_cong)
  finally show ?thesis .
qed

lemma term_l: "term_l A r x ts = (if starts ''*/%'' ts
    then rbind (factor_p A r (tl ts)) (\<lambda>(y, ts1). rbind (mul_op A (op_of ts) x y) (\<lambda>v. term_l A r v ts1)) else Inr (x, ts))"
proof -
  have "term_l A r x ts = term_loop (Suc (6 * length ts)) A r x ts" by (simp add: term_l_def eval_nat_numeral)
  also have "\<dots> = (if starts ''*/%'' ts
    then rbind (factor_p A r (tl ts)) (\<lambda>(y, ts1). rbind (mul_op A (op_of ts) x y) (\<lambda>v. term_l A r v ts1)) else Inr (x, ts))"
    unfolding term_loop.simps
    by (auto simp: parser_p dest!: starts_length p_length intro!: rbind_cong)
  finally show ?thesis .
qed

lemma factor_p: "factor_p A r ts = (if starts ''+-'' ts
    then rbind (factor_p A r (tl ts)) (\<lambda>(v, ts1). Inr (if op_of ts = CHR ''-'' then ar_neg A v else v, ts1))
    else primary_p A r ts)"
proof -
  have "factor_p A r ts = parse_factor (Suc (6 * length ts + 1)) A r ts" by (simp add: factor_p_def eval_nat_numeral)
  also have "\<dots> = (if starts ''+-'' ts
    then rbind (factor_p A r (tl ts)) (\<lambda>(v, ts1). Inr (if op_of ts = CHR ''-'' then ar_neg A v else v, ts1))
    else primary_p A r ts)"
    unfolding parse_factor.simps
    by (auto dest!: starts_length simp: parser_p intro!: rbind_cong)
  finally show ?thesis .
qed

lemma args_p: "args_p A r ts = (if ts = [] \<or> starts '')'' ts then Inr ([], ts)
    else rbind (expr_p A r ts) (\<lambda>(v, ts1). rbind (args_l A r ts1) (\<lambda>(vs, ts2). Inr (v # vs, ts2))))"
proof -
  have "args_p A r ts = parse_args (Suc (6 * length ts + 4)) A r ts" by (simp add: args_p_def eval_nat_numeral)
  also have "\<dots> = (if ts = [] \<or> starts '')'' ts then Inr ([], ts)
    else rbind (expr_p A r ts) (\<lambda>(v, ts1). rbind (args_l A r ts1) (\<lambda>(vs, ts2). Inr (v # vs, ts2))))"
    unfolding parse_args.simps
    by (auto simp: parser_p dest!: p_length intro!: rbind_cong)
  finally show ?thesis .
qed

lemma args_l: "args_l A r ts = (if starts '','' ts
    then rbind (expr_p A r (tl ts)) (\<lambda>(v, ts1). rbind (args_l A r ts1) (\<lambda>(vs, ts2). Inr (v # vs, ts2)))
    else Inr ([], ts))"
proof -
  have "args_l A r ts = args_loop (Suc (6 * length ts)) A r ts" by (simp add: args_l_def eval_nat_numeral)
  also have "\<dots> = (if starts '','' ts
    then rbind (expr_p A r (tl ts)) (\<lambda>(v, ts1). rbind (args_l A r ts1) (\<lambda>(vs, ts2). Inr (v # vs, ts2)))
    else Inr ([], ts))"
    unfolding args_loop.simps
    by (auto simp: parser_p dest!: starts_length p_length intro!: rbind_cong)
  finally show ?thesis .
qed

lemma primary_Suc: "primary_p A r ts = parse_primary (Suc (6 * length ts)) A r ts"
  by (simp add: primary_p_def)

lemma primary_p:
  "primary_p A r [] = Inl (Syntax ''unexpected end of formula'')"
  "primary_p A r (Num raw # rest) = rbind (require (ar_num A raw) (Arithmetic ''numeral'')) (\<lambda>v. Inr (v, rest))"
  "primary_p A r (Sym c # rest) =
    (if c = CHR ''('' then rbind (expr_p A r rest) (\<lambda>(v, ts1). rbind (expect CHR '')'' ts1) (\<lambda>ts2. Inr (v, ts2)))
     else Inl (Syntax ''unexpected token''))"
  "primary_p A r (Ident x # rest) =
    (if starts ''('' rest then
       rbind (require (lookup_fn A (js_toLower x)) (UnknownFunction x)) (\<lambda>f.
       rbind (args_p A r (tl rest)) (\<lambda>(vs, ts1). rbind (expect CHR '')'' ts1) (\<lambda>ts2.
       rbind (require (f vs) (Arithmetic ''function'')) (\<lambda>v. Inr (v, ts2)))))
     else rbind (require (r x) (UnknownVariable x)) (\<lambda>v. Inr (v, rest)))"
  unfolding primary_Suc parse_primary.simps by (simp_all add: parser_p(1,7) starts_length)

lemma makeParser_p:
  "makeParser A r ts = rbind (expr_p A r ts) (\<lambda>(v, rest).
     if rest \<noteq> [] then Inl (Syntax ''trailing tokens in formula'') else Inr v)"
  by (simp add: makeParser_def expr_p_def)

lemma tokenize_fuel: "tokenize cs \<noteq> Inl OutOfFuel"
  by (induction cs rule: tokenize.induct) (auto simp: result_simps Let_def)

lemma makeParser_fuel: "makeParser A r ts \<noteq> Inl OutOfFuel"
  by (auto simp: makeParser_def result_simps parser_fuel)

text \<open>C26. Evaluating a formula always ends: the recursion never runs out of the six steps for each token and four more it is
  given, and with more steps it gives the same result.\<close>

theorem evaluateFormula_ends:
  "evaluateFormula A formula scope \<noteq> Inl OutOfFuel \<and>
   parse_expr (6 * length ts + 4 + k) A r ts = parse_expr (6 * length ts + 4) A r ts"
  by (simp add: evaluateFormula_def result_simps tokenize_fuel makeParser_fuel parser_p(1))

section \<open>What a formula means\<close>

datatype ast = Lit string | Var string | Neg ast | Pos ast | Bin char ast ast | Call string "ast list"

fun denote :: "('s, 'v) arith \<Rightarrow> (string \<Rightarrow> 'v option) \<Rightarrow> ast \<Rightarrow> formula_error + 'v"
  and denotes :: "('s, 'v) arith \<Rightarrow> (string \<Rightarrow> 'v option) \<Rightarrow> ast list \<Rightarrow> formula_error + 'v list" where
  "denote A r (Lit raw) = require (ar_num A raw) (Arithmetic ''numeral'')"
| "denote A r (Var x) = require (r x) (UnknownVariable x)"
| "denote A r (Neg e) = rbind (denote A r e) (\<lambda>v. Inr (ar_neg A v))"
| "denote A r (Pos e) = denote A r e"
| "denote A r (Bin c a b) = rbind (denote A r a) (\<lambda>x. rbind (denote A r b) (\<lambda>y.
     if c \<in> set ''+-'' then Inr (add_op A c x y) else mul_op A c x y))"
| "denote A r (Call f args) = rbind (require (lookup_fn A (js_toLower f)) (UnknownFunction f)) (\<lambda>g.
     rbind (denotes A r args) (\<lambda>vs. require (g vs) (Arithmetic ''function'')))"
| "denotes A r [] = Inr []"
| "denotes A r (e # es) = rbind (denote A r e) (\<lambda>v. rbind (denotes A r es) (\<lambda>vs. Inr (v # vs)))"

definition paren :: "bool \<Rightarrow> token list \<Rightarrow> token list" where
  "paren b ts = (if b then Sym CHR ''('' # ts @ [Sym CHR '')''] else ts)"

fun print :: "nat \<Rightarrow> ast \<Rightarrow> token list" and print_more :: "ast list \<Rightarrow> token list" where
  "print p (Lit raw) = [Num raw]"
| "print p (Var x) = [Ident x]"
| "print p (Neg e) = Sym CHR ''-'' # print 2 e"
| "print p (Pos e) = Sym CHR ''+'' # print 2 e"
| "print p (Bin c a b) =
     (if c \<in> set ''+-'' then paren (0 < p) (print 0 a @ Sym c # print 1 b)
      else paren (1 < p) (print 1 a @ Sym c # print 2 b))"
| "print p (Call f args) = Ident f # Sym CHR ''('' #
     (case args of [] \<Rightarrow> [] | e # es \<Rightarrow> print 0 e @ print_more es) @ [Sym CHR '')'']"
| "print_more [] = []"
| "print_more (e # es) = Sym CHR '','' # print 0 e @ print_more es"

fun wf_ops :: "ast \<Rightarrow> bool" where
  "wf_ops (Lit raw) = True"
| "wf_ops (Var x) = True"
| "wf_ops (Neg e) = wf_ops e"
| "wf_ops (Pos e) = wf_ops e"
| "wf_ops (Bin c a b) = (c \<in> set ''+-*/%'' \<and> wf_ops a \<and> wf_ops b)"
| "wf_ops (Call f args) = list_all wf_ops args"

lemma starts_simps [simp]:
  "\<not> starts cs []" "starts cs (Sym c # ts) \<longleftrightarrow> c \<in> set cs" "\<not> starts cs (Num s # ts)" "\<not> starts cs (Ident x # ts)"
  by (simp_all add: starts_def)

lemma op_of_Sym [simp]: "op_of (Sym c # ts) = c"
  by (simp add: op_of_def)

lemma expect_Sym [simp]: "expect c (Sym c # ts) = Inr ts"
  by (simp add: expect_def)

definition reads_expr :: "('s, 'v) arith \<Rightarrow> (string \<Rightarrow> 'v option) \<Rightarrow> ast \<Rightarrow> bool" where
  "reads_expr A r e \<longleftrightarrow> (\<forall>rest. \<not> starts ''*/%('' rest \<longrightarrow>
     expr_p A r (print 0 e @ rest) = rbind (denote A r e) (\<lambda>v. expr_l A r v rest))"

definition reads_term :: "('s, 'v) arith \<Rightarrow> (string \<Rightarrow> 'v option) \<Rightarrow> ast \<Rightarrow> bool" where
  "reads_term A r e \<longleftrightarrow> (\<forall>rest. \<not> starts ''('' rest \<longrightarrow>
     term_p A r (print 1 e @ rest) = rbind (denote A r e) (\<lambda>v. term_l A r v rest))"

definition reads_factor :: "('s, 'v) arith \<Rightarrow> (string \<Rightarrow> 'v option) \<Rightarrow> ast \<Rightarrow> bool" where
  "reads_factor A r e \<longleftrightarrow> (\<forall>rest. \<not> starts ''('' rest \<longrightarrow>
     factor_p A r (print 2 e @ rest) = rbind (denote A r e) (\<lambda>v. Inr (v, rest)))"

lemma not_starts: "\<not> starts ''*/%('' ts \<Longrightarrow> \<not> starts ''('' ts \<and> \<not> starts ''*/%'' ts"
  by (auto simp: starts_def split: list.splits token.splits)

lemma loops_stop: "\<not> starts ''*/%'' ts \<Longrightarrow> term_l A r x ts = Inr (x, ts)" "\<not> starts ''+-'' ts \<Longrightarrow> expr_l A r x ts = Inr (x, ts)"
  by (simp_all add: term_l expr_l)

lemma reads_term_expr:
  assumes "reads_term A r e" and "print 0 e = print 1 e" shows "reads_expr A r e"
  unfolding reads_expr_def
proof (intro allI impI)
  fix rest assume "\<not> starts ''*/%('' rest"
  then have "\<not> starts ''('' rest" "\<not> starts ''*/%'' rest" by (auto dest: not_starts)
  with assms show "expr_p A r (print 0 e @ rest) = rbind (denote A r e) (\<lambda>v. expr_l A r v rest)"
    by (simp add: expr_p reads_term_def rbind_assoc loops_stop)
qed

lemma reads_factor_term:
  assumes "reads_factor A r e" and "print 1 e = print 2 e" shows "reads_term A r e"
  using assms by (simp add: reads_factor_def reads_term_def term_p rbind_assoc)

lemma reads_paren:
  assumes "reads_expr A r e" and "print 2 e = paren True (print 0 e)" shows "reads_factor A r e"
  using assms by (simp add: reads_factor_def reads_expr_def paren_def factor_p primary_p rbind_assoc loops_stop)

lemma reads_add:
  assumes "reads_expr A r a" "reads_term A r b" "c \<in> set ''+-''" shows "reads_expr A r (Bin c a b)"
  unfolding reads_expr_def
proof (intro allI impI)
  fix rest assume "\<not> starts ''*/%('' rest"
  then have "\<not> starts ''('' rest" "\<not> starts ''*/%'' rest" by (auto dest: not_starts)
  with assms show "expr_p A r (print 0 (Bin c a b) @ rest) = rbind (denote A r (Bin c a b)) (\<lambda>v. expr_l A r v rest)"
    by (auto simp: reads_expr_def reads_term_def paren_def rbind_assoc loops_stop expr_l[of A r _ "Sym _ # _"])
qed

lemma reads_mul:
  assumes "reads_term A r a" "reads_factor A r b" "c \<in> set ''*/%''" shows "reads_term A r (Bin c a b)"
  using assms by (auto simp: reads_factor_def reads_term_def paren_def rbind_assoc term_l[of A r _ "Sym _ # _"])

definition reads :: "('s, 'v) arith \<Rightarrow> (string \<Rightarrow> 'v option) \<Rightarrow> ast \<Rightarrow> bool" where
  "reads A r e \<longleftrightarrow> reads_expr A r e \<and> reads_term A r e \<and> reads_factor A r e"

lemma readsI: "reads_factor A r e \<Longrightarrow> print 0 e = print 1 e \<Longrightarrow> print 1 e = print 2 e \<Longrightarrow> reads A r e"
  by (simp add: reads_def reads_factor_term reads_term_expr)

lemma print_starts: "\<not> starts '')'' (print p e @ ts) \<and> print p e \<noteq> []"
  by (induction e arbitrary: p ts rule: ast.induct) (auto simp: paren_def)

lemma print_more_starts [simp]:
  "\<not> starts ''*/%('' (print_more es @ Sym CHR '')'' # rest)" "\<not> starts ''+-'' (print_more es @ Sym CHR '')'' # rest)"
  by (cases es; simp)+

lemma args_l_print:
  "\<forall>e \<in> set es. reads_expr A r e \<Longrightarrow>
   args_l A r (print_more es @ Sym CHR '')'' # rest) = rbind (denotes A r es) (\<lambda>vs. Inr (vs, Sym CHR '')'' # rest))"
proof (induction es)
  case Nil
  then show ?case by (simp add: args_l)
next
  case (Cons e es)
  then show ?case
    by (subst args_l) (simp add: reads_expr_def rbind_assoc loops_stop)
qed

lemma args_p_print:
  assumes "\<forall>e \<in> set es. reads_expr A r e"
  shows "args_p A r ((case es of [] \<Rightarrow> [] | e # es \<Rightarrow> print 0 e @ print_more es) @ Sym CHR '')'' # rest)
    = rbind (denotes A r es) (\<lambda>vs. Inr (vs, Sym CHR '')'' # rest))"
  using assms print_starts by (cases es) (simp_all add: args_p args_l_print reads_expr_def rbind_assoc loops_stop)

lemma reads_wf: "wf_ops e \<Longrightarrow> reads A r e"
proof (induction e)
  case (Bin c a b)
  then have ab: "reads A r a" "reads A r b" by simp_all
  show ?case
  proof (cases "c \<in> set ''+-''")
    case True
    with ab have e: "reads_expr A r (Bin c a b)" by (intro reads_add) (simp_all add: reads_def)
    with True have "reads_factor A r (Bin c a b)" by (intro reads_paren) (auto simp: paren_def)
    with e True show ?thesis unfolding reads_def by (auto intro!: reads_factor_term simp: paren_def)
  next
    case False
    with ab Bin.prems have t: "reads_term A r (Bin c a b)" by (intro reads_mul) (auto simp: reads_def)
    with False have e: "reads_expr A r (Bin c a b)" by (intro reads_term_expr) (auto simp: paren_def)
    with False have "reads_factor A r (Bin c a b)" by (intro reads_paren) (auto simp: paren_def)
    with e t show ?thesis by (simp add: reads_def)
  qed
next
  case (Call f args)
  then have "\<forall>e \<in> set args. reads_expr A r e" by (auto simp: list_all_iff reads_def)
  then show ?case
    by (intro readsI) (simp_all add: reads_factor_def factor_p primary_p args_p_print rbind_assoc)
next
  case (Lit raw)
  show ?case by (intro readsI) (simp_all add: reads_factor_def factor_p primary_p rbind_assoc)
next
  case (Var x)
  show ?case by (intro readsI) (simp_all add: reads_factor_def factor_p primary_p rbind_assoc)
next
  case (Neg e)
  then show ?case by (intro readsI) (simp_all add: reads_def reads_factor_def factor_p[of A r "Sym _ # _"] rbind_assoc)
next
  case (Pos e)
  then show ?case by (intro readsI) (simp_all add: reads_def reads_factor_def factor_p[of A r "Sym _ # _"] rbind_assoc)
qed

lemma makeParser_denote:
  assumes "wf_ops e" shows "makeParser A r (print 0 e) = denote A r e"
proof -
  have "expr_p A r (print 0 e @ []) = rbind (denote A r e) (\<lambda>v. expr_l A r v [])"
    using reads_wf[OF assms] unfolding reads_def reads_expr_def by (metis starts_simps(1))
  then show ?thesis by (simp add: makeParser_p rbind_assoc loops_stop) (cases "denote A r e"; simp)
qed

section \<open>The text of a formula\<close>

fun token_text :: "token \<Rightarrow> string" where
  "token_text (Sym c) = [c]"
| "token_text (Num s) = s"
| "token_text (Ident s) = s"

definition render :: "token list \<Rightarrow> string" where
  "render ts = concat (map (\<lambda>t. token_text t @ '' '') ts)"

fun lexical :: "token \<Rightarrow> bool" where
  "lexical (Sym c) = (c \<in> set ''+-*/%(),'')"
| "lexical (Num s) = (s \<noteq> [] \<and> list_all num_char s \<and> length (filter (\<lambda>d. d = CHR ''.'') s) \<le> 1)"
| "lexical (Ident s) = (s \<noteq> [] \<and> ident_start (hd s) \<and> list_all ident_char s)"

lemma char_classes:
  "num_char c \<Longrightarrow> c \<notin> set blanks \<and> c \<notin> set ''+-*/%(),''"
  "ident_start c \<Longrightarrow> c \<notin> set blanks \<and> c \<notin> set ''+-*/%(),'' \<and> \<not> num_char c"
  "\<not> num_char CHR '' ''" "\<not> ident_char CHR '' ''"
  by (auto simp: num_char_def ident_start_def ident_char_def is_digit_def blanks_def Let_def)

lemma takeWhile_blank:
  "list_all P s \<Longrightarrow> \<not> P b \<Longrightarrow> takeWhile P (s @ b # cs) = s \<and> dropWhile P (s @ b # cs) = b # cs"
  by (induction s) auto

lemma space_blank: "CHR '' '' \<in> set blanks"
  by (simp add: blanks_def)

lemma tokenize_blank: "tokenize (CHR '' '' # cs) = tokenize cs"
  by (simp add: blanks_def)

lemma tokenize_sym: "c \<in> set ''+-*/%(),'' \<Longrightarrow> tokenize (c # cs) = rbind (tokenize cs) (\<lambda>ts. Inr (Sym c # ts))"
  by (auto simp: blanks_def)

lemma tokenize_token: "lexical t \<Longrightarrow> tokenize (token_text t @ '' '' @ cs) = rbind (tokenize cs) (\<lambda>ts. Inr (t # ts))"
proof (induction t)
  case (Sym c)
  then show ?case by (simp add: tokenize_sym tokenize_blank del: tokenize.simps(2))
next
  case (Num s)
  then obtain c s' where s: "s = c # s'" by (cases s) auto
  with Num show ?case
    using takeWhile_blank[of num_char s' "CHR '' ''" cs] char_classes(1)[of c] char_classes(3) space_blank
    by (simp add: Let_def tokenize_blank not_less)
next
  case (Ident s)
  then obtain c s' where s: "s = c # s'" by (cases s) auto
  with Ident show ?case
    using takeWhile_blank[of ident_char s' "CHR '' ''" cs] char_classes(2)[of c] char_classes(4) space_blank
    by (simp add: Let_def tokenize_blank)
qed

lemma tokenize_render: "list_all lexical ts \<Longrightarrow> tokenize (render ts) = Inr ts"
  using tokenize_token by (induction ts) (simp_all add: render_def)

section \<open>Validated formulas\<close>

text \<open>\<open>safe rest m\<close>: the run \<open>m\<close> gives a value and leaves \<open>rest\<close>, or stops at an arithmetic error.\<close>

definition safe :: "token list \<Rightarrow> formula_error + 'a \<times> token list \<Rightarrow> bool" where
  "safe rest m \<longleftrightarrow> (\<exists>v. m = Inr (v, rest)) \<or> (\<exists>msg. m = Inl (Arithmetic msg))"

definition binds_all :: "(string \<Rightarrow> 'v option) \<Rightarrow> token list \<Rightarrow> bool" where
  "binds_all r ts \<longleftrightarrow> (\<forall>x \<in> set (idents ts). r x \<noteq> None)"

lemma safe_Inr [simp]: "safe rest (Inr (v, rest))"
  by (simp add: safe_def)

lemma safe_bind:
  "safe rest m \<Longrightarrow> (\<And>v. safe rest' (f v rest)) \<Longrightarrow> safe rest' (rbind m (\<lambda>(v, ts). f v ts))"
  by (cases m) (auto simp: safe_def[of rest] safe_def[of _ "Inl _"])

lemma safe_arith: "safe rest (rbind (require x (Arithmetic msg)) (\<lambda>v. Inr (f v, rest)))"
  by (cases x) (auto simp: safe_def)

lemma safe_mul: "(\<And>v. safe rest (f v)) \<Longrightarrow> safe rest (rbind (mul_op A c x y) f)"
  by (auto simp: safe_def mul_op_def)

lemma binds_all_shorter: "binds_all r ts \<Longrightarrow> shorter ts1 ts \<Longrightarrow> binds_all r ts1" "binds_all r ts \<Longrightarrow> no_longer ts1 ts \<Longrightarrow> binds_all r ts1"
  by (auto simp: binds_all_def shorter_def no_longer_def)

definition agree :: "('s, 'v) arith \<Rightarrow> (string \<Rightarrow> 'v option) \<Rightarrow> (string \<Rightarrow> 'v option) \<Rightarrow> nat \<Rightarrow> bool" where
  "agree A r r' n \<longleftrightarrow>
   (\<forall> ts v rest. parse_expr n A r ts = Inr (v, rest) \<longrightarrow> binds_all r' ts \<longrightarrow> safe rest (parse_expr n A r' ts)) \<and>
   (\<forall>x y ts v rest. expr_loop n A r x ts = Inr (v, rest) \<longrightarrow> binds_all r' ts \<longrightarrow> safe rest (expr_loop n A r' y ts)) \<and>
   (\<forall> ts v rest. parse_term n A r ts = Inr (v, rest) \<longrightarrow> binds_all r' ts \<longrightarrow> safe rest (parse_term n A r' ts)) \<and>
   (\<forall>x y ts v rest. term_loop n A r x ts = Inr (v, rest) \<longrightarrow> binds_all r' ts \<longrightarrow> safe rest (term_loop n A r' y ts)) \<and>
   (\<forall> ts v rest. parse_factor n A r ts = Inr (v, rest) \<longrightarrow> binds_all r' ts \<longrightarrow> safe rest (parse_factor n A r' ts)) \<and>
   (\<forall> ts v rest. parse_primary n A r ts = Inr (v, rest) \<longrightarrow> binds_all r' ts \<longrightarrow> safe rest (parse_primary n A r' ts)) \<and>
   (\<forall> ts v rest. parse_args n A r ts = Inr (v, rest) \<longrightarrow> binds_all r' ts \<longrightarrow> safe rest (parse_args n A r' ts)) \<and>
   (\<forall> ts v rest. args_loop n A r ts = Inr (v, rest) \<longrightarrow> binds_all r' ts \<longrightarrow> safe rest (args_loop n A r' ts))"

lemma agreeD: assumes "agree A r r' n"
  shows "parse_expr n A r ts = Inr (v, rest) \<Longrightarrow> binds_all r' ts \<Longrightarrow> safe rest (parse_expr n A r' ts)"
    and "expr_loop n A r x ts = Inr (v, rest) \<Longrightarrow> binds_all r' ts \<Longrightarrow> safe rest (expr_loop n A r' y ts)"
    and "parse_term n A r ts = Inr (v, rest) \<Longrightarrow> binds_all r' ts \<Longrightarrow> safe rest (parse_term n A r' ts)"
    and "term_loop n A r x ts = Inr (v, rest) \<Longrightarrow> binds_all r' ts \<Longrightarrow> safe rest (term_loop n A r' y ts)"
    and "parse_factor n A r ts = Inr (v, rest) \<Longrightarrow> binds_all r' ts \<Longrightarrow> safe rest (parse_factor n A r' ts)"
    and "parse_primary n A r ts = Inr (v, rest) \<Longrightarrow> binds_all r' ts \<Longrightarrow> safe rest (parse_primary n A r' ts)"
    and "parse_args n A r ts = Inr (vs, rest) \<Longrightarrow> binds_all r' ts \<Longrightarrow> safe rest (parse_args n A r' ts)"
    and "args_loop n A r ts = Inr (vs, rest) \<Longrightarrow> binds_all r' ts \<Longrightarrow> safe rest (args_loop n A r' ts)"
  using assms unfolding agree_def by meson+

lemma agree_expr:
  assumes ih: "agree A r r' n" and run: "parse_expr (Suc n) A r ts = Inr (v, rest)" and c: "binds_all r' ts"
  shows "safe rest (parse_expr (Suc n) A r' ts)"
proof -
  from run obtain x ts1 where 1: "parse_term n A r ts = Inr (x, ts1)" "expr_loop n A r x ts1 = Inr (v, rest)"
    by (auto simp: parser_simps result_simps)
  have "binds_all r' ts1" using c 1(1) by (blast intro: binds_all_shorter parser_shortens)
  with 1 c show ?thesis unfolding parser_simps by (intro safe_bind[OF agreeD(3)[OF ih]]) (auto intro: agreeD[OF ih])
qed

lemma agree_expr_loop:
  assumes ih: "agree A r r' n" and run: "expr_loop (Suc n) A r x ts = Inr (v, rest)" and c: "binds_all r' ts"
  shows "safe rest (expr_loop (Suc n) A r' y ts)"
proof (cases "starts ''+-'' ts")
  case True
  with run obtain z ts1 where 1: "parse_term n A r (tl ts) = Inr (z, ts1)" "expr_loop n A r (add_op A (op_of ts) x z) ts1 = Inr (v, rest)"
    by (auto simp: result_simps expr_loop.simps)
  have c1: "binds_all r' (tl ts)" using c True by (blast intro: binds_all_shorter starts_tl)
  then have "binds_all r' ts1" using 1(1) by (blast intro: binds_all_shorter parser_shortens)
  with 1 c1 True show ?thesis by (simp add: expr_loop.simps) (intro safe_bind[OF agreeD(3)[OF ih]]; auto intro: agreeD[OF ih])
qed (use run in \<open>simp add: expr_loop.simps\<close>)

lemma agree_term:
  assumes ih: "agree A r r' n" and run: "parse_term (Suc n) A r ts = Inr (v, rest)" and c: "binds_all r' ts"
  shows "safe rest (parse_term (Suc n) A r' ts)"
proof -
  from run obtain x ts1 where 1: "parse_factor n A r ts = Inr (x, ts1)" "term_loop n A r x ts1 = Inr (v, rest)"
    by (auto simp: parser_simps result_simps)
  have "binds_all r' ts1" using c 1(1) by (blast intro: binds_all_shorter parser_shortens)
  with 1 c show ?thesis unfolding parser_simps by (intro safe_bind[OF agreeD(5)[OF ih]]) (auto intro: agreeD[OF ih])
qed

lemma agree_term_loop:
  assumes ih: "agree A r r' n" and run: "term_loop (Suc n) A r x ts = Inr (v, rest)" and c: "binds_all r' ts"
  shows "safe rest (term_loop (Suc n) A r' y ts)"
proof (cases "starts ''*/%'' ts")
  case True
  with run obtain z u ts1 where 1: "parse_factor n A r (tl ts) = Inr (z, ts1)" "term_loop n A r u ts1 = Inr (v, rest)"
    by (auto simp: result_simps term_loop.simps)
  have c1: "binds_all r' (tl ts)" using c True by (blast intro: binds_all_shorter starts_tl)
  then have "binds_all r' ts1" using 1(1) by (blast intro: binds_all_shorter parser_shortens)
  with 1 c1 True show ?thesis by (simp add: term_loop.simps) (intro safe_bind[OF agreeD(5)[OF ih]] safe_mul; auto intro: agreeD[OF ih])
qed (use run in \<open>simp add: term_loop.simps\<close>)

lemma agree_factor:
  assumes ih: "agree A r r' n" and run: "parse_factor (Suc n) A r ts = Inr (v, rest)" and c: "binds_all r' ts"
  shows "safe rest (parse_factor (Suc n) A r' ts)"
proof (cases "starts ''+-'' ts")
  case True
  with run obtain z where 1: "parse_factor n A r (tl ts) = Inr (z, rest)" by (auto simp: result_simps parse_factor.simps)
  have "binds_all r' (tl ts)" using c True by (blast intro: binds_all_shorter starts_tl)
  with 1 True show ?thesis by (simp add: parse_factor.simps) (intro safe_bind[OF agreeD(5)[OF ih]]; (simp; fail)?; simp only: safe_Inr)
qed (use run c in \<open>simp add: parse_factor.simps agreeD[OF ih]\<close>)

lemma agree_primary:
  assumes ih: "agree A r r' n" and run: "parse_primary (Suc n) A r ts = Inr (v, rest)" and c: "binds_all r' ts"
  shows "safe rest (parse_primary (Suc n) A r' ts)"
proof (cases ts)
  case (Cons t ts')
  have c': "binds_all r' ts'" using c Cons by (blast intro: binds_all_shorter shorter_Cons)
  show ?thesis
  proof (cases t)
    case (Sym d)
    with run Cons have "d = CHR ''(''" and p: "parse_expr n A r ts' = Inr (v, Sym CHR '')'' # rest)"
      by (auto simp: result_simps expect_Inr parse_primary.simps split: if_splits)
    with Cons Sym show ?thesis by (simp add: parse_primary.simps) (rule safe_bind[OF agreeD(1)[OF ih, OF p c']], simp)
  next
    case (Num raw)
    with run Cons show ?thesis by (auto simp: result_simps parse_primary.simps safe_def)
  next
    case (Ident x)
    show ?thesis
    proof (cases "starts ''('' ts'")
      case True
      with run Cons Ident obtain f vs where f: "lookup_fn A (js_toLower x) = Some f"
        and p: "parse_args n A r (tl ts') = Inr (vs, Sym CHR '')'' # rest)"
        by (auto simp: result_simps expect_Inr parse_primary.simps)
      have cc: "binds_all r' (tl ts')" using c' True by (blast intro: binds_all_shorter starts_tl)
      with True f Cons Ident show ?thesis
        by (simp add: parse_primary.simps) (rule safe_bind[OF agreeD(7)[OF ih, OF p cc]], simp add: safe_arith)
    next
      case False
      with c Cons Ident have "r' x \<noteq> None" by (simp add: binds_all_def)
      with False run Cons Ident show ?thesis by (auto simp: result_simps parse_primary.simps)
    qed
  qed
qed (use run in \<open>simp add: parse_primary.simps\<close>)

lemma agree_args:
  assumes ih: "agree A r r' n" and run: "parse_args (Suc n) A r ts = Inr (vs, rest)" and c: "binds_all r' ts"
  shows "safe rest (parse_args (Suc n) A r' ts)"
proof (cases "ts = [] \<or> starts '')'' ts")
  case False
  with run obtain z us ts1 where 1: "parse_expr n A r ts = Inr (z, ts1)" "args_loop n A r ts1 = Inr (us, rest)"
    by (auto simp: result_simps parse_args.simps)
  have "binds_all r' ts1" using c 1(1) by (blast intro: binds_all_shorter parser_shortens)
  with 1 c False show ?thesis by (simp add: parse_args.simps) (rule safe_bind[OF agreeD(1)[OF ih]], assumption+, rule safe_bind[OF agreeD(8)[OF ih]], assumption+, simp)
qed (use run in \<open>auto simp: parse_args.simps\<close>)

lemma agree_args_loop:
  assumes ih: "agree A r r' n" and run: "args_loop (Suc n) A r ts = Inr (vs, rest)" and c: "binds_all r' ts"
  shows "safe rest (args_loop (Suc n) A r' ts)"
proof (cases "starts '','' ts")
  case True
  with run obtain z us ts1 where 1: "parse_expr n A r (tl ts) = Inr (z, ts1)" "args_loop n A r ts1 = Inr (us, rest)"
    by (auto simp: result_simps args_loop.simps)
  have c1: "binds_all r' (tl ts)" using c True by (blast intro: binds_all_shorter starts_tl)
  then have "binds_all r' ts1" using 1(1) by (blast intro: binds_all_shorter parser_shortens)
  with 1 c1 True show ?thesis by (simp add: args_loop.simps) (rule safe_bind[OF agreeD(1)[OF ih]], assumption+, rule safe_bind[OF agreeD(8)[OF ih]], assumption+, simp)
qed (use run in \<open>simp add: args_loop.simps\<close>)

lemma agree_Suc: "agree A r r' n \<Longrightarrow> agree A r r' (Suc n)"
  by (unfold agree_def[of A r r' "Suc n"])
    (blast intro: agree_expr agree_expr_loop agree_term agree_term_loop agree_factor agree_primary agree_args agree_args_loop)

lemma agree: "agree A r r' n"
proof (induction n)
  case 0
  show ?case by (simp add: agree_def parser_simps)
qed (rule agree_Suc)

lemma makeParser_safe:
  assumes "makeParser A r ts = Inr v" and "binds_all r' ts"
  shows "(\<exists>v'. makeParser A r' ts = Inr v') \<or> (\<exists>msg. makeParser A r' ts = Inl (Arithmetic msg))"
proof -
  from assms(1) have "parse_expr (6 * length ts + 4) A r ts = Inr (v, [])"
    by (auto simp: makeParser_def result_simps split: if_splits)
  then have "safe [] (parse_expr (6 * length ts + 4) A r' ts)" by (rule agreeD(1)[OF agree _ assms(2)])
  then show ?thesis by (auto simp: makeParser_def safe_def)
qed

definition int_arith :: "(int, int) arith" where
  "int_arith = \<lparr>ar_num = \<lambda>s. Some (int (parse_nat s)), ar_read = Some, ar_zero = 0, ar_plus = (+), ar_minus = (-), ar_times = (*),
     ar_div = (div), ar_mod = (mod), ar_neg = uminus, ar_isZero = (\<lambda>x. x = 0), ar_isFinite = (\<lambda>_. True), ar_text = (\<lambda>_. []),
     ar_call = (\<lambda>f vs. if f = ''max'' then Some (foldr max vs 0) else None)\<rparr>"

text \<open>C25. Evaluating the text of an expression, token by token, gives what the expression denotes: the precedence of \<^verbatim>\<open>*\<close>, \<^verbatim>\<open>/\<close>, \<^verbatim>\<open>%\<close>
  over \<^verbatim>\<open>+\<close>, \<^verbatim>\<open>-\<close>, association to the left, signs, brackets and the arguments of calls are as usual, and errors
  are those of the leftmost failing part.\<close>

theorem evaluateFormula_denotes:
  assumes "wf_ops e" and "list_all lexical (print 0 e)"
  shows "evaluateFormula A (render (print 0 e)) scope = denote A (resolve_in A scope) e"
  using assms by (simp add: evaluateFormula_def tokenize_render makeParser_denote)

definition sample_formula :: ast where
  "sample_formula = Bin CHR ''*'' (Bin CHR ''+'' (Var ''BASIC'') (Neg (Call ''Max'' [Var ''HRA'', Lit ''2'']))) (Lit ''10'')"

theorem evaluateFormula_denotes_witness:
  "evaluateFormula int_arith (render (print 0 sample_formula)) [(''basic'', 9), (''hra'', 4)] = Inr 50"
proof -
  have "wf_ops sample_formula" "list_all lexical (print 0 sample_formula)" by code_simp+
  then have "evaluateFormula int_arith (render (print 0 sample_formula)) [(''basic'', 9), (''hra'', 4)] =
    denote int_arith (resolve_in int_arith [(''basic'', 9), (''hra'', 4)]) sample_formula"
    by (rule evaluateFormula_denotes)
  also have "\<dots> = Inr 50" by code_simp
  finally show ?thesis .
qed

lemma tokenize_errors: "tokenize cs = Inl e \<Longrightarrow> \<exists>msg. e = Syntax msg"
  by (induction cs rule: tokenize.induct) (auto simp: result_simps Let_def split: if_splits)

text \<open>C24. A formula that passes validation does not go wrong: in a scope that defines its identifiers it gives a value or an
  arithmetic error, never a syntax error, an unknown function or an unknown variable.\<close>

theorem validateFormula_sound:
  assumes ok: "validateFormula A formula allowedVars = Inr ids"
    and scope: "\<forall>x \<in> set ids. resolve_in A scope x \<noteq> None"
  shows "(\<exists>v. evaluateFormula A formula scope = Inr v) \<or> (\<exists>msg. evaluateFormula A formula scope = Inl (Arithmetic msg))"
proof -
  from ok obtain ts v where ts: "tokenize formula = Inr ts" "ids = nub (idents ts)"
    and run: "makeParser A (resolve_in A (map (\<lambda>v. (v, ar_zero A)) ids)) ts = Inr v"
    by (auto simp: validateFormula_def extractIdentifiers_def evaluateFormula_def result_simps)
  from scope ts(2) have "binds_all (resolve_in A scope) ts" by (simp add: binds_all_def)
  with run ts show ?thesis by (simp add: evaluateFormula_def makeParser_safe)
qed

theorem validateFormula_sound_witness:
  "(\<exists>v. evaluateFormula int_arith ''max(BASIC, 3) - hra / (2 + GROSS)'' [(''basic'', 9), (''HRA'', 4), (''gross'', 0)] = Inr v) \<or>
   (\<exists>msg. evaluateFormula int_arith ''max(BASIC, 3) - hra / (2 + GROSS)'' [(''basic'', 9), (''HRA'', 4), (''gross'', 0)] = Inl (Arithmetic msg))"
proof (rule validateFormula_sound)
  show "validateFormula int_arith ''max(BASIC, 3) - hra / (2 + GROSS)'' (Some [''basic'', ''HRA'', ''GROSS'']) = Inr [''BASIC'', ''hra'', ''GROSS'']"
    by code_simp
  show "\<forall>x \<in> set [''BASIC'', ''hra'', ''GROSS'']. resolve_in int_arith [(''basic'', 9), (''HRA'', 4), (''gross'', 0)] x \<noteq> None"
    by code_simp
qed

text \<open>Validation runs a formula with zeros, so it rejects a division by a variable; and an inherited name can be called.\<close>

lemma validate_rejects_division:
  "validateFormula int_arith ''100 / GROSS'' None = Inl (Arithmetic ''division or modulo by zero'')"
  "evaluateFormula int_arith ''100 / GROSS'' [(''gross'', 4)] = Inr 25"
  by code_simp+

lemma constructor_is_callable: "lookup_fn A ''constructor'' \<noteq> None" "''constructor'' \<notin> set FORMULA_FUNCTIONS"
  by code_simp+

end
