(* ===== verification/Separation.thy ===== *)
theory Separation
  imports ApprovalEngine
begin

text \<open>
  The employment separation case: the tables, and the shared operations of
  \<^verbatim>\<open>src/src/services/separation/base.js\<close>. The state is one tenant's database; a command gets the
  environment \<^verbatim>\<open>run\<close> builds and returns the new state or the error that rolls the transaction back.
  Instants are milliseconds, calendar dates are day numbers. The package \<^verbatim>\<open>@trusoft/contracts\<close> is not in
  the repository: its functions are the record \<open>rules\<close>, an argument of every operation that calls them.
\<close>

section \<open>Tables\<close>

datatype sep_state =
    Draft | Submitted | ManagerReview | HrVerification | ManagementDecision | Approved
  | NoticePeriod | HandoverInProgress | Clearance | ExitCompleted | Withdrawn | Cancelled

record sep_employee =
  em_id :: int
  em_code :: string
  em_userId :: "int option"
  em_managerId :: "int option"
  em_status :: string
  em_employment :: string
  em_category :: "string option"
  em_gradeId :: "int option"
  em_noticeDays :: "int option"
  em_separatedAt :: "int option"
  em_rehire :: "bool option"
  em_version :: nat

record authority_rule =
  ar_category :: string
  ar_gradeCode :: string
  ar_approverCodes :: "string list"

record type_rule =
  tr_type :: string
  tr_initiators :: "string list"
  tr_requiredDocs :: "string list"
  tr_noticeTreatment :: string
  tr_postApproval :: bool

record grade_notice =
  gn_category :: string
  gn_gradeCode :: string
  gn_days :: int

record department_rule =
  dp_code :: string
  dp_owner :: string
  dp_signers :: "string list"

record template_rule =
  te_kind :: string
  te_approvedRef :: string
  te_body :: string

record sep_policy =
  po_typeRules :: "type_rule list"
  po_authority :: "authority_rule list"
  po_noticeByGrade :: "grade_notice list"
  po_departments :: "department_rule list"
  po_templates :: "template_rule list"
  po_hrCodes :: "string list"
  po_itOwner :: string
  po_payrollOwner :: string
  po_timeZone :: string
  po_currency :: string
  po_minorUnits :: nat
  po_leaveEncashment :: bool
  po_noticeRecovery :: bool
  po_noticePay :: bool
  po_reminderDays :: int

record recommendation =
  rc_recommendation :: string
  rc_reason :: string
  rc_replacementCode :: "string option"
  rc_interimOwnerCode :: string
  rc_requisitionRef :: "int option"
  rc_topics :: "string list"
  rc_deliverables :: "string list"
  rc_deferredUntil :: "int option"

record separation =
  sx_id :: nat
  sx_employeeCode :: string
  sx_type :: string
  sx_state :: sep_state
  sx_reasonCode :: string
  sx_reason :: string
  sx_proposedAt :: int
  sx_lastWorkingAt :: "int option"
  sx_submittedAt :: "int option"
  sx_approvedAt :: "int option"
  sx_deferredUntil :: "int option"
  sx_withdrawalAt :: "int option"
  sx_completedAt :: "int option"
  sx_accessDueAt :: "int option"
  sx_createdBy :: string
  sx_managerCode :: string
  sx_category :: string
  sx_gradeCode :: string
  sx_policy :: sep_policy
  sx_recommendation :: "recommendation option"
  sx_verification :: "string option"
  sx_verifiedBy :: "string option"
  sx_documents :: "(string \<times> string) list"
  sx_rehire :: "bool option"
  sx_version :: nat

text \<open>
  The workstream tables share their columns and differ in the payload. The pair of the separation and
  the key is unique in each table.
\<close>

record 'p task_row =
  tk_id :: nat
  tk_sep :: nat
  tk_employeeCode :: string
  tk_key :: string
  tk_status :: string
  tk_owner :: "string option"
  tk_dueAt :: "int option"
  tk_evidence :: "string list"
  tk_actor :: "string option"
  tk_version :: nat
  tk_payload :: 'p

record notice_facts =
  nf_submittedOn :: int
  nf_lastWorkingOn :: int
  nf_requiredDays :: int
  nf_servedDays :: int
  nf_shortfallDays :: int
  nf_buyoutDays :: int
  nf_waivedDays :: int

record notice_request =
  nr_action :: string
  nr_days :: int
  nr_lastWorkingAt :: "int option"
  nr_reason :: string
  nr_requestedBy :: string

record notice =
  np_facts :: notice_facts
  np_disposition :: "string option"
  np_gardenLeave :: bool
  np_pending :: "notice_request option"
  np_approvedBy :: "string option"
  np_lastDecision :: "(string \<times> string \<times> string \<times> int) option"

record plan =
  pl_replacementCode :: "string option"
  pl_requisitionRef :: "int option"
  pl_topics :: "string list"
  pl_readinessBy :: "string option"

record training =
  se_title :: string
  se_replacementCode :: string
  se_acknowledgedBy :: "string option"

record transfer_item =
  kt_kind :: string
  kt_title :: string
  kt_completedAt :: "int option"
  kt_leaverBy :: "string option"
  kt_receiverBy :: "string option"

record asset_item =
  as_ref :: string
  as_serial :: string
  as_sourceRef :: string
  as_disposition :: "string option"
  as_condition :: string
  as_serialVerified :: bool
  as_approvalRef :: "string option"
  as_approvedBy :: "string option"
  as_recoveryMinor :: int

record access_item =
  ac_system :: string
  ac_confirmationRef :: "string option"
  ac_confirmedAt :: "int option"

record due =
  du_description :: string
  du_amountMinor :: int

record clearance_item =
  cl_department :: string
  cl_noDues :: "bool option"
  cl_dues :: "due list"
  cl_reason :: string
  cl_signedBy :: "string option"
  cl_signedAt :: "int option"

record interview =
  iv_taxonomy :: "string option"
  iv_responses :: string
  iv_notes :: string

text \<open>The source of a line is a row of another table, or the reference an integration sent.\<close>

datatype line_source = RowRef nat | External string

record settlement_line =
  sl_kind :: string
  sl_amountMinor :: int
  sl_direction :: string
  sl_sourceRef :: line_source
  sl_description :: string

type_synonym row_versions = "(nat \<times> nat) list list"

record settlement =
  st_inputs :: row_versions
  st_lines :: "settlement_line list"
  st_netMinor :: int
  st_sourceVersion :: nat
  st_incentiveVersion :: nat
  st_preparedBy :: "string option"
  st_receiptRef :: "string option"

record document =
  dc_kind :: string
  dc_templateRef :: string
  dc_body :: string

record financial =
  fi_leaveDays :: rat
  fi_dailyRateMinor :: rat
  fi_loansMinor :: int
  fi_advancesMinor :: int
  fi_bondsMinor :: int

record source_payload =
  sr_source :: string
  sr_employeeCode :: string
  sr_sep :: nat
  sr_sourceRef :: string
  sr_sourceVersion :: nat
  sr_asOf :: int
  sr_evidence :: "string list"
  sr_assets :: "(string \<times> string) list option"
  sr_financial :: "financial option"
  sr_clawbackMinor :: "int option"

record review_note =
  rv_recommendation :: "recommendation option"
  rv_verification :: "string option"
  rv_verifiedBy :: "string option"

record transition =
  tn_sep :: nat
  tn_employeeCode :: string
  tn_version :: nat
  tn_action :: string
  tn_reason :: string
  tn_from :: sep_state
  tn_to :: sep_state
  tn_actor :: "string option"
  tn_at :: int
  tn_review :: "review_note option"

record sep_event =
  vt_name :: string
  vt_sep :: nat
  vt_employeeCode :: string
  vt_state :: sep_state
  vt_version :: nat
  vt_effectiveAt :: int
  vt_replacement :: "string option"

record delivery =
  dv_key :: string
  dv_kind :: string
  dv_employeeCode :: string
  dv_sep :: nat
  dv_recipients :: "string list"
  dv_message :: string
  dv_row :: "(nat \<times> nat) option"

record hr_approval =
  ha_kind :: string
  ha_ref :: string
  ha_stage :: string
  ha_sourceHash :: string
  ha_execution :: string

record sep_db =
  sd_aliases :: aliases
  sd_employees :: "sep_employee list"
  sd_grades :: "(int \<times> string) list"
  sd_requisitions :: "int list"
  sd_policy :: "sep_policy option"
  sd_separations :: "separation list"
  sd_notices :: "notice task_row list"
  sd_plans :: "plan task_row list"
  sd_sessions :: "training task_row list"
  sd_transfers :: "transfer_item task_row list"
  sd_assets :: "asset_item task_row list"
  sd_access :: "access_item task_row list"
  sd_clearances :: "clearance_item task_row list"
  sd_interviews :: "interview task_row list"
  sd_settlements :: "settlement task_row list"
  sd_documents :: "document task_row list"
  sd_sources :: "source_payload task_row list"
  sd_audit :: "transition list"
  sd_events :: "sep_event list"
  sd_deliveries :: "delivery list"
  sd_approvals :: "hr_approval list"
  sd_expired :: "string list"
  sd_outbox :: bool
  sd_next :: nat

record rules =
  ru_transition :: "sep_state \<Rightarrow> sep_state \<Rightarrow> bool"
  ru_notice :: "notice_facts \<Rightarrow> hr_error + notice_facts"
  ru_clearanceComplete :: "clearance_item task_row list \<Rightarrow> asset_item task_row list \<Rightarrow> bool"
  ru_settlementTotal :: "settlement_line list \<Rightarrow> hr_error + int"
  ru_revertTarget :: "string \<Rightarrow> string"
  ru_companyDate :: "int \<Rightarrow> string \<Rightarrow> int"
  ru_isoInstant :: "int \<Rightarrow> string"
  ru_sourceHash :: "sep_db \<Rightarrow> string \<Rightarrow> string \<Rightarrow> string"

record sep_env =
  sv_who :: "sep_employee option"
  sv_now :: int
  sv_isAdmin :: bool
  sv_permissions :: "string list"
  sv_identityCodes :: "string list"

section \<open>Who acts\<close>

abbreviation throw :: "nat \<Rightarrow> string \<Rightarrow> hr_error + 'a" where
  "throw status message \<equiv> Inl (AppError status message)"

definition terminal :: "sep_state \<Rightarrow> bool" where
  "terminal s \<longleftrightarrow> s \<in> set [ExitCompleted, Withdrawn, Cancelled]"

definition has :: "sep_env \<Rightarrow> string \<Rightarrow> bool" where
  "has env permission \<longleftrightarrow> sv_isAdmin env \<or> permission \<in> set (sv_permissions env)"

definition permit :: "sep_env \<Rightarrow> string \<Rightarrow> hr_error + unit" where
  "permit env permission = ensure (has env permission) (AppError 403 (''Requires '' @ permission))"

definition isHr :: "sep_env \<Rightarrow> bool" where
  "isHr env \<longleftrightarrow> has env ''hr.separation.manage'' \<or> has env ''hr.separation.verify''"

text \<open>The code of the actor, \<open>''''\<close> for the background worker.\<close>

definition who_code :: "sep_env \<Rightarrow> string" where
  "who_code env = (case sv_who env of None \<Rightarrow> [] | Some e \<Rightarrow> em_code e)"

definition actor_code :: "sep_env \<Rightarrow> string option" where
  "actor_code env = map_option em_code (sv_who env)"

definition owns_code :: "sep_env \<Rightarrow> string \<Rightarrow> bool" where
  "owns_code env code \<longleftrightarrow> code \<in> set (sv_identityCodes env) \<or> actor_code env = Some code"

definition includesActor :: "sep_env \<Rightarrow> string list \<Rightarrow> bool" where
  "includesActor env codes = list_ex (owns_code env) codes"

definition employee :: "sep_db \<Rightarrow> string \<Rightarrow> hr_error + sep_employee" where
  "employee db code =
    rbind (currentCode (sd_aliases db) [] code) (\<lambda>code.
    require (find (\<lambda>e. em_code e = code) (sd_employees db)) (AppError 404 ''Employee not found''))"

definition status_matches :: "string list \<Rightarrow> sep_employee \<Rightarrow> bool" where
  "status_matches words e \<longleftrightarrow>
    list_ex (\<lambda>w. contains w (js_toLower (em_status e @ '' '' @ em_employment e))) words"

definition actor :: "sep_db \<Rightarrow> int \<Rightarrow> hr_error + sep_employee" where
  "actor db uid =
    rbind (ensure (0 < uid) (AppError 403 ''A linked employee account is required'')) (\<lambda>_.
    case take 2 (filter (\<lambda>e. em_userId e = Some uid) (sd_employees db)) of
      [e] \<Rightarrow>
        rbind (ensure (em_code e \<noteq> [] \<and> \<not> status_matches [''inactive'', ''terminated'', ''exited'', ''offboard'', ''separated''] e)
          (AppError 403 ''An active linked employee code is required'')) (\<lambda>_. Inr e)
    | _ \<Rightarrow> throw 403 ''An active linked employee code is required'')"

text \<open>The environment \<^verbatim>\<open>run\<close> builds: the actor with every code an alias leads to the actor's code from.\<close>

definition run_env :: "sep_db \<Rightarrow> int \<Rightarrow> bool \<Rightarrow> string list \<Rightarrow> int \<Rightarrow> hr_error + sep_env" where
  "run_env db uid isAdmin permissions now =
    rbind (actor db uid) (\<lambda>who.
    Inr \<lparr>sv_who = Some who, sv_now = now, sv_isAdmin = isAdmin, sv_permissions = permissions,
      sv_identityCodes = alias_close (sd_aliases db) [em_code who]\<rparr>)"

section \<open>Rows\<close>

definition update_sep :: "nat \<Rightarrow> (separation \<Rightarrow> separation) \<Rightarrow> sep_db \<Rightarrow> hr_error + sep_db \<times> separation" where
  "update_sep k f db =
    (case find (\<lambda>r. sx_id r = k) (sd_separations db) of
       None \<Rightarrow> Inl (PlainError ''Record to update not found'')
     | Some r \<Rightarrow> Inr (db\<lparr>sd_separations := map (\<lambda>r. if sx_id r = k then f r else r) (sd_separations db)\<rparr>, f r))"

definition rows_of :: "nat \<Rightarrow> 'p task_row list \<Rightarrow> 'p task_row list" where
  "rows_of k = filter (\<lambda>t. tk_sep t = k)"

definition first_row :: "nat \<Rightarrow> 'p task_row list \<Rightarrow> 'p task_row option" where
  "first_row k = find (\<lambda>t. tk_sep t = k)"

definition keyed_row :: "nat \<Rightarrow> string \<Rightarrow> 'p task_row list \<Rightarrow> 'p task_row option" where
  "keyed_row k key = find (\<lambda>t. tk_sep t = k \<and> tk_key t = key)"

definition completed :: "'p task_row \<Rightarrow> bool" where
  "completed t \<longleftrightarrow> tk_status t = ''COMPLETED''"

definition add_row :: "sep_db \<Rightarrow> 'p task_row \<Rightarrow> 'p task_row list \<Rightarrow> hr_error + 'p task_row list" where
  "add_row db t rows =
    rbind (ensure (keyed_row (tk_sep t) (tk_key t) rows = None) (PlainError ''Unique constraint failed'')) (\<lambda>_.
    Inr (rows @ [t]))"

text \<open>
  A new row of the workstream table \<open>rows\<close>: its owner is stored under the current code. Identifiers
  are drawn from the counter of the state.
\<close>

definition createTask :: "sep_env \<Rightarrow> separation \<Rightarrow> string \<Rightarrow> 'p \<Rightarrow> string option \<Rightarrow> int option \<Rightarrow> 'p task_row list \<Rightarrow>
    sep_db \<Rightarrow> hr_error + 'p task_row list \<times> sep_db \<times> 'p task_row" where
  "createTask env s key payload owner due rows db =
    rbind (case owner of
        Some c \<Rightarrow> if c = [] then Inr None else rbind (employee db c) (\<lambda>e. Inr (Some (em_code e)))
      | None \<Rightarrow> Inr None) (\<lambda>owner.
    let t = \<lparr>tk_id = sd_next db, tk_sep = sx_id s, tk_employeeCode = sx_employeeCode s, tk_key = key,
        tk_status = ''PENDING'', tk_owner = owner, tk_dueAt = due, tk_evidence = [], tk_actor = actor_code env,
        tk_version = 1, tk_payload = payload\<rparr> in
    rbind (add_row db t rows) (\<lambda>rows. Inr (rows, db\<lparr>sd_next := sd_next db + 1\<rparr>, t)))"

text \<open>Finding a task and updating it: an identifier names one row of one separation.\<close>

definition task :: "separation \<Rightarrow> nat \<Rightarrow> nat \<Rightarrow> 'p task_row list \<Rightarrow> hr_error + 'p task_row" where
  "task s ref version rows =
    rbind (require (find (\<lambda>t. tk_sep t = sx_id s \<and> tk_id t = ref) rows) (AppError 404 ''Task not found'')) (\<lambda>t.
    rbind (ensure (tk_version t = version) (AppError 409 ''This record changed'')) (\<lambda>_. Inr t))"

definition updateTask :: "sep_env \<Rightarrow> 'p task_row \<Rightarrow> ('p task_row \<Rightarrow> 'p task_row) \<Rightarrow> 'p task_row list \<Rightarrow> 'p task_row list" where
  "updateTask env t data rows =
    map (\<lambda>r. if tk_sep r = tk_sep t \<and> tk_id r = tk_id t
             then (data r)\<lparr>tk_actor := actor_code env, tk_version := tk_version r + 1\<rparr> else r) rows"

section \<open>Events, notices to people, history\<close>

definition emit :: "sep_env \<Rightarrow> separation \<Rightarrow> string \<Rightarrow> sep_db \<Rightarrow> hr_error + sep_db" where
  "emit env s name db =
    rbind (ensure (sd_outbox db) (AppError 503 ''Transactional outbox unavailable'')) (\<lambda>_.
    Inr (db\<lparr>sd_events := sd_events db @ [\<lparr>vt_name = name, vt_sep = sx_id s, vt_employeeCode = sx_employeeCode s,
      vt_state = sx_state s, vt_version = sx_version s,
      vt_effectiveAt = (case sx_lastWorkingAt s of Some t \<Rightarrow> t
         | None \<Rightarrow> (case sx_deferredUntil s of Some t \<Rightarrow> t | None \<Rightarrow> sv_now env)),
      vt_replacement = (case sx_recommendation s of None \<Rightarrow> None
         | Some r \<Rightarrow> (case rc_replacementCode r of Some c \<Rightarrow> Some c | None \<Rightarrow> Some (rc_interimOwnerCode r)))\<rparr>]\<rparr>))"

definition authority_of :: "separation \<Rightarrow> authority_rule option" where
  "authority_of s = find (\<lambda>a. ar_category a = sx_category s \<and> ar_gradeCode a = sx_gradeCode s) (po_authority (sx_policy s))"

definition approver_codes :: "separation \<Rightarrow> string list" where
  "approver_codes s = (case authority_of s of None \<Rightarrow> [] | Some a \<Rightarrow> ar_approverCodes a)"

definition recipients :: "separation \<Rightarrow> string list" where
  "recipients s =
    (let assigned = (case sx_state s of
         Draft \<Rightarrow> [sx_createdBy s]
       | HrVerification \<Rightarrow> po_hrCodes (sx_policy s)
       | ManagementDecision \<Rightarrow> approver_codes s
       | _ \<Rightarrow> [sx_managerCode s])
     in nub (filter (\<lambda>c. c \<noteq> []) ([sx_employeeCode s, sx_createdBy s] @ assigned @ po_hrCodes (sx_policy s))))"

definition add_delivery :: "delivery \<Rightarrow> sep_db \<Rightarrow> sep_db" where
  "add_delivery d db =
    (if list_ex (\<lambda>x. dv_key x = dv_key d) (sd_deliveries db) then db
     else db\<lparr>sd_deliveries := sd_deliveries db @ [d]\<rparr>)"

definition notify :: "separation \<Rightarrow> string \<Rightarrow> string \<Rightarrow> sep_db \<Rightarrow> sep_db" where
  "notify s message key =
    add_delivery \<lparr>dv_key = key, dv_kind = ''NOTIFICATION'', dv_employeeCode = sx_employeeCode s, dv_sep = sx_id s,
      dv_recipients = recipients s, dv_message = message, dv_row = None\<rparr>"

text \<open>The key of a history row is the version with the action, and unique for the separation.\<close>

definition audit :: "sep_env \<Rightarrow> separation \<Rightarrow> string \<Rightarrow> string \<Rightarrow> sep_state \<Rightarrow> review_note option \<Rightarrow> sep_db \<Rightarrow> hr_error + sep_db" where
  "audit env s action reason prior rv db =
    rbind (ensure (\<not> list_ex (\<lambda>t. tn_sep t = sx_id s \<and> tn_version t = sx_version s \<and> tn_action t = action) (sd_audit db))
      (PlainError ''Unique constraint failed'')) (\<lambda>_.
    Inr (db\<lparr>sd_audit := sd_audit db @ [\<lparr>tn_sep = sx_id s, tn_employeeCode = sx_employeeCode s, tn_version = sx_version s,
      tn_action = action, tn_reason = reason, tn_from = prior, tn_to = sx_state s, tn_actor = actor_code env,
      tn_at = sv_now env, tn_review = rv\<rparr>]\<rparr>))"

definition review_of :: "separation \<Rightarrow> review_note" where
  "review_of s = \<lparr>rv_recommendation = sx_recommendation s, rv_verification = sx_verification s, rv_verifiedBy = sx_verifiedBy s\<rparr>"

text \<open>
  \<open>change\<close> moves a separation to another state, \<open>touch\<close> only writes columns; both raise the version and
  append to the history.
\<close>

definition change :: "rules \<Rightarrow> sep_env \<Rightarrow> separation \<Rightarrow> sep_state \<Rightarrow> string \<Rightarrow> string \<Rightarrow> (separation \<Rightarrow> separation) \<Rightarrow>
    string option \<Rightarrow> sep_db \<Rightarrow> hr_error + sep_db \<times> separation" where
  "change ru env s to_state action reason data eventName db =
    rbind (ensure (ru_transition ru (sx_state s) to_state) (AppError 409 ''Transition not allowed'')) (\<lambda>_.
    rbind (update_sep (sx_id s) (\<lambda>r. (data r)\<lparr>sx_state := to_state, sx_version := sx_version r + 1\<rparr>) db) (\<lambda>(db, row).
    let rv = (if action \<in> set [''MANAGER_RECOMMENDED'', ''HR_VERIFIED''] then Some (review_of row)
              else if action \<in> set [''REVERTED'', ''DEFERRAL_DUE''] then Some (review_of s) else None) in
    rbind (audit env row action reason (sx_state s) rv db) (\<lambda>db.
    rbind (case eventName of None \<Rightarrow> Inr db | Some name \<Rightarrow> emit env row name db) (\<lambda>db.
    Inr (notify row action (''transition:'' @ show_nat (sx_id s) @ '':'' @ show_nat (sx_version row)) db, row)))))"

definition touch :: "sep_env \<Rightarrow> separation \<Rightarrow> string \<Rightarrow> string \<Rightarrow> (separation \<Rightarrow> separation) \<Rightarrow> sep_db \<Rightarrow> hr_error + sep_db \<times> separation" where
  "touch env s action reason data db =
    rbind (update_sep (sx_id s) (\<lambda>r. (data r)\<lparr>sx_version := sx_version r + 1\<rparr>) db) (\<lambda>(db, row).
    rbind (audit env row action reason (sx_state row) None db) (\<lambda>db. Inr (db, row)))"

section \<open>Who may act on a separation\<close>

definition owned_task :: "sep_env \<Rightarrow> nat \<Rightarrow> 'p task_row list \<Rightarrow> bool" where
  "owned_task env k rows \<longleftrightarrow>
    list_ex (\<lambda>t. tk_sep t = k \<and> (case tk_owner t of None \<Rightarrow> False | Some c \<Rightarrow> c \<in> set (sv_identityCodes env))) rows"

definition ownsTask :: "sep_env \<Rightarrow> separation \<Rightarrow> sep_db \<Rightarrow> bool" where
  "ownsTask env s db \<longleftrightarrow>
    (has env ''hr.separation.task'' \<or> has env ''hr.separation.clear'') \<and>
    (list_ex (\<lambda>d. includesActor env (dp_signers d)) (po_departments (sx_policy s)) \<or>
     owned_task env (sx_id s) (sd_plans db) \<or> owned_task env (sx_id s) (sd_sessions db) \<or>
     owned_task env (sx_id s) (sd_transfers db) \<or> owned_task env (sx_id s) (sd_assets db) \<or>
     owned_task env (sx_id s) (sd_access db))"

definition is_who :: "sep_env \<Rightarrow> int option \<Rightarrow> bool" where
  "is_who env k = (case sv_who env of None \<Rightarrow> False | Some w \<Rightarrow> k = Some (em_id w))"

definition mayAccess :: "sep_env \<Rightarrow> bool \<Rightarrow> separation \<Rightarrow> sep_employee \<Rightarrow> sep_db \<Rightarrow> bool" where
  "mayAccess env lock s target db \<longleftrightarrow>
    (owns_code env (sx_employeeCode s) \<and> has env ''hr.separation.self'') \<or> isHr env \<or>
    (has env ''hr.separation.read'' \<and> \<not> lock) \<or>
    (is_who env (em_managerId target) \<and> has env ''hr.separation.manager'') \<or>
    (has env ''hr.separation.approve'' \<and> includesActor env (approver_codes s)) \<or>
    ownsTask env s db \<or> has env ''hr.separation.integrate'' \<or> has env ''hr.separation.settle''"

record sep_ref =
  si_ref :: nat
  si_employeeCode :: string
  si_version :: nat

definition authorizedSeparation :: "sep_env \<Rightarrow> bool \<Rightarrow> sep_ref \<Rightarrow> sep_db \<Rightarrow> hr_error + separation" where
  "authorizedSeparation env lock input db =
    rbind (employeeCodes (sd_aliases db) (si_employeeCode input)) (\<lambda>codes.
    rbind (require (find (\<lambda>s. sx_id s = si_ref input \<and> sx_employeeCode s \<in> set codes) (sd_separations db))
      (AppError 404 ''Separation not found'')) (\<lambda>s.
    rbind (employee db (sx_employeeCode s)) (\<lambda>target.
    rbind (ensure (mayAccess env lock s target db) (AppError 404 ''Separation not found'')) (\<lambda>_.
    if lock then
      rbind (ensure (sx_version s = si_version input) (AppError 409 ''This record changed'')) (\<lambda>_.
      rbind (ensure (\<not> terminal (sx_state s)) (AppError 409 ''This separation is closed'')) (\<lambda>_. Inr s))
    else Inr s))))"

definition managerOnly :: "sep_env \<Rightarrow> separation \<Rightarrow> sep_db \<Rightarrow> hr_error + unit" where
  "managerOnly env s db =
    rbind (permit env ''hr.separation.manager'') (\<lambda>_.
    rbind (employee db (sx_employeeCode s)) (\<lambda>target.
    ensure (is_who env (em_managerId target) \<and> sx_employeeCode s \<noteq> who_code env)
      (AppError 403 ''Only the current direct manager may act'')))"

text \<open>
  The walk up the reporting line of the approver. It ends: every round either leaves the table or
  marks one more employee as seen.
\<close>

function reporting_line :: "sep_employee list \<Rightarrow> int \<Rightarrow> int list \<Rightarrow> int option \<Rightarrow> hr_error + unit" where
  "reporting_line es target seen cursor =
    (case cursor of
       None \<Rightarrow> Inr ()
     | Some c \<Rightarrow>
         if c = 0 then Inr ()
         else if c = target then throw 403 ''Approving a superior in your reporting line is prohibited''
         else if c \<in> set seen then throw 409 ''Resolve the reporting-line cycle before approval''
         else reporting_line es target (c # seen) (Option.bind (find (\<lambda>e. em_id e = c) es) em_managerId))"
  by pat_completeness auto

termination reporting_line
proof (relation "measure (\<lambda>(es, target, seen, cursor).
    2 * length (filter (\<lambda>e. em_id e \<notin> set seen) es) + (if cursor = None then 0 else 1))")
  fix es :: "sep_employee list" and target :: int and seen cursor c
  assume c: "cursor = Some c" "c \<noteq> 0" "c \<noteq> target" "c \<notin> set seen"
  let ?n = "\<lambda>seen. length (filter (\<lambda>e. em_id e \<notin> set seen) es)"
  have le: "?n (c # seen) \<le> ?n seen"
    by (induction es) auto
  have lt: "?n (c # seen) < ?n seen" if "find (\<lambda>e. em_id e = c) es = Some e" for e
    by (rule filter_length_less [where y = e]) (use that c(4) in \<open>auto simp: find_Some_iff\<close>)
  show "((es, target, c # seen, Option.bind (find (\<lambda>e. em_id e = c) es) em_managerId), es, target, seen, cursor) \<in>
      measure (\<lambda>(es, target, seen, cursor). 2 * length (filter (\<lambda>e. em_id e \<notin> set seen) es) + (if cursor = None then 0 else 1))"
  proof (cases "find (\<lambda>e. em_id e = c) es")
    case None
    then show ?thesis using c(1) le by simp
  next
    case (Some e)
    then show ?thesis using c(1) lt [OF Some] by (auto simp: if_splits)
  qed
qed simp

declare reporting_line.simps [simp del]

definition approverOnly :: "sep_env \<Rightarrow> separation \<Rightarrow> sep_db \<Rightarrow> hr_error + unit" where
  "approverOnly env s db =
    rbind (permit env ''hr.separation.approve'') (\<lambda>_.
    rbind (ensure (includesActor env (approver_codes s) \<and> sx_employeeCode s \<noteq> who_code env)
      (AppError 403 ''The authority matrix requires an independent approver'')) (\<lambda>_.
    rbind (employee db (sx_employeeCode s)) (\<lambda>target.
    reporting_line (sd_employees db) (em_id target) [] (Option.bind (sv_who env) em_managerId))))"

definition use_approval :: "rules \<Rightarrow> string \<Rightarrow> string \<Rightarrow> bool \<Rightarrow> sep_db \<Rightarrow> hr_error + sep_db" where
  "use_approval ru kind ref approved db =
    (case find (\<lambda>a. ha_kind a = kind \<and> ha_ref a = ref) (sd_approvals db) of
       None \<Rightarrow> throw 409 ''Complete the approval workflow in HR Approval Centre''
     | Some a \<Rightarrow>
         rbind (ensure (ha_stage a = (if approved then ''APPROVED'' else ''REJECTED''))
           (AppError 409 ''Complete the approval workflow in HR Approval Centre'')) (\<lambda>_.
         rbind (ensure (ru_sourceHash ru db kind ref = ha_sourceHash a)
           (AppError 409 ''The approved source changed; a fresh approval is required'')) (\<lambda>_.
         Inr (db\<lparr>sd_approvals := map (\<lambda>x. if ha_kind x = kind \<and> ha_ref x = ref then x\<lparr>ha_execution := ''APPLIED''\<rparr> else x)
           (sd_approvals db)\<rparr>))))"

end
