(* ===== verification/SeparationFlow.thy ===== *)
theory SeparationFlow
  imports Separation
begin

text \<open>
  The lifecycle of a separation: \<^verbatim>\<open>src/src/services/separation/service.js\<close>, with the workstreams an
  approval generates and the gates of handover and exit (\<^verbatim>\<open>src/src/services/separation/workstreams.js\<close>).
\<close>

section \<open>Documents and workstreams\<close>

definition doc_value :: "rules \<Rightarrow> separation \<Rightarrow> string \<Rightarrow> string option" where
  "doc_value ru s key =
    (if key = ''{{employeeCode}}'' then Some (sx_employeeCode s)
     else if key = ''{{separationRef}}'' then Some (show_nat (sx_id s))
     else if key = ''{{lastWorkingAt}}'' then Some (case sx_lastWorkingAt s of None \<Rightarrow> [] | Some t \<Rightarrow> ru_isoInstant ru t)
     else if key = ''{{type}}'' then Some (sx_type s)
     else None)"

definition doc_keys :: "string list" where
  "doc_keys = [''{{employeeCode}}'', ''{{separationRef}}'', ''{{lastWorkingAt}}'', ''{{type}}'']"

text \<open>Replacing every placeholder of a template body, left to right.\<close>

fun fill :: "(string \<Rightarrow> string option) \<Rightarrow> nat \<Rightarrow> string \<Rightarrow> string" where
  "fill f n [] = []"
| "fill f (Suc n) (c # s) = fill f n s"
| "fill f 0 (c # s) =
    (case find (\<lambda>k. take (length k) (c # s) = k) doc_keys of
       None \<Rightarrow> c # fill f 0 s
     | Some k \<Rightarrow> (case f k of None \<Rightarrow> c # fill f 0 s | Some v \<Rightarrow> v @ fill f (length k - 1) s))"

definition generateDocument :: "rules \<Rightarrow> sep_env \<Rightarrow> separation \<Rightarrow> string \<Rightarrow> sep_db \<Rightarrow> hr_error + sep_db" where
  "generateDocument ru env s kind db =
    rbind (require (find (\<lambda>t. te_kind t = kind) (po_templates (sx_policy s)))
      (AppError 409 ''An approved document template is required'')) (\<lambda>t.
    if keyed_row (sx_id s) kind (sd_documents db) \<noteq> None then Inr db
    else
      rbind (createTask env s kind
          \<lparr>dc_kind = kind, dc_templateRef = te_approvedRef t, dc_body = fill (doc_value ru s) 0 (te_body t)\<rparr>
          (case po_hrCodes (sx_policy s) of [] \<Rightarrow> None | c # _ \<Rightarrow> Some c) (sx_lastWorkingAt s) (sd_documents db) db)
        (\<lambda>(rows, db, row).
      Inr (db\<lparr>sd_documents := updateTask env row (\<lambda>r. r\<lparr>tk_status := ''COMPLETED''\<rparr>) rows\<rparr>)))"

definition add_plan :: "sep_env \<Rightarrow> separation \<Rightarrow> recommendation \<Rightarrow> sep_db \<Rightarrow> hr_error + sep_db" where
  "add_plan env s r db =
    rbind (createTask env s ''PLAN'' \<lparr>pl_replacementCode = rc_replacementCode r, pl_requisitionRef = rc_requisitionRef r,
        pl_topics = rc_topics r, pl_readinessBy = None\<rparr> (Some (rc_interimOwnerCode r)) (sx_lastWorkingAt s) (sd_plans db) db)
      (\<lambda>(rows, db, _). Inr (db\<lparr>sd_plans := rows\<rparr>))"

definition add_session :: "sep_env \<Rightarrow> separation \<Rightarrow> recommendation \<Rightarrow> nat \<times> string \<Rightarrow> sep_db \<Rightarrow> hr_error + sep_db" where
  "add_session env s r it db =
    rbind (createTask env s (''SESSION-'' @ show_nat (fst it))
        \<lparr>se_title = snd it, se_replacementCode = (case rc_replacementCode r of Some c \<Rightarrow> c | None \<Rightarrow> rc_interimOwnerCode r),
         se_acknowledgedBy = None\<rparr> (Some (rc_interimOwnerCode r)) (sx_lastWorkingAt s) (sd_sessions db) db)
      (\<lambda>(rows, db, _). Inr (db\<lparr>sd_sessions := rows\<rparr>))"

definition add_transfer :: "sep_env \<Rightarrow> separation \<Rightarrow> recommendation \<Rightarrow> string \<Rightarrow> string \<Rightarrow> nat \<times> string \<Rightarrow> sep_db \<Rightarrow> hr_error + sep_db" where
  "add_transfer env s r prefix kind it db =
    rbind (createTask env s (prefix @ show_nat (fst it))
        \<lparr>kt_kind = kind, kt_title = snd it, kt_completedAt = None, kt_leaverBy = None, kt_receiverBy = None\<rparr>
        (Some (rc_interimOwnerCode r)) (sx_lastWorkingAt s) (sd_transfers db) db)
      (\<lambda>(rows, db, _). Inr (db\<lparr>sd_transfers := rows\<rparr>))"

definition add_access :: "sep_env \<Rightarrow> separation \<Rightarrow> string \<Rightarrow> sep_db \<Rightarrow> hr_error + sep_db" where
  "add_access env s system db =
    rbind (createTask env s system \<lparr>ac_system = system, ac_confirmationRef = None, ac_confirmedAt = None\<rparr>
        (Some (po_itOwner (sx_policy s))) (sx_lastWorkingAt s) (sd_access db) db)
      (\<lambda>(rows, db, _). Inr (db\<lparr>sd_access := rows\<rparr>))"

definition add_clearance :: "sep_env \<Rightarrow> separation \<Rightarrow> department_rule \<Rightarrow> sep_db \<Rightarrow> hr_error + sep_db" where
  "add_clearance env s d db =
    rbind (createTask env s (dp_code d)
        \<lparr>cl_department = dp_code d, cl_noDues = None, cl_dues = [], cl_reason = [], cl_signedBy = None, cl_signedAt = None\<rparr>
        (Some (dp_owner d)) (sx_lastWorkingAt s) (sd_clearances db) db)
      (\<lambda>(rows, db, _). Inr (db\<lparr>sd_clearances := rows\<rparr>))"

definition add_interview :: "sep_env \<Rightarrow> separation \<Rightarrow> sep_db \<Rightarrow> hr_error + sep_db" where
  "add_interview env s db =
    rbind (createTask env s ''INTERVIEW'' \<lparr>iv_taxonomy = None, iv_responses = [], iv_notes = []\<rparr>
        (case po_hrCodes (sx_policy s) of [] \<Rightarrow> None | c # _ \<Rightarrow> Some c) (sx_lastWorkingAt s) (sd_interviews db) db)
      (\<lambda>(rows, db, _). Inr (db\<lparr>sd_interviews := rows\<rparr>))"

definition no_settlement :: settlement where
  "no_settlement = \<lparr>st_inputs = [], st_lines = [], st_netMinor = 0, st_sourceVersion = 0, st_incentiveVersion = 0,
     st_preparedBy = None, st_receiptRef = None\<rparr>"

definition add_settlement :: "sep_env \<Rightarrow> separation \<Rightarrow> sep_db \<Rightarrow> hr_error + sep_db" where
  "add_settlement env s db =
    rbind (createTask env s ''SETTLEMENT'' no_settlement (Some (po_payrollOwner (sx_policy s))) (sx_lastWorkingAt s)
        (sd_settlements db) db)
      (\<lambda>(rows, db, _). Inr (db\<lparr>sd_settlements := rows\<rparr>))"

definition add_fetch :: "separation \<Rightarrow> string \<Rightarrow> sep_db \<Rightarrow> hr_error + sep_db" where
  "add_fetch s source db =
    (let d = \<lparr>dv_key = ''source:'' @ show_nat (sx_id s) @ '':'' @ source, dv_kind = ''FETCH_'' @ source,
        dv_employeeCode = sx_employeeCode s, dv_sep = sx_id s, dv_recipients = [], dv_message = [], dv_row = None\<rparr> in
     rbind (ensure (\<not> list_ex (\<lambda>x. dv_key x = dv_key d) (sd_deliveries db)) (PlainError ''Unique constraint failed''))
       (\<lambda>_. Inr (db\<lparr>sd_deliveries := sd_deliveries db @ [d]\<rparr>)))"

definition generateWorkstreams :: "sep_env \<Rightarrow> separation \<Rightarrow> sep_db \<Rightarrow> hr_error + sep_db" where
  "generateWorkstreams env s db =
    rbind (require (sx_recommendation s) (PlainError ''TypeError'')) (\<lambda>r.
    rbind (add_plan env s r db) (\<lambda>db.
    rbind (rfold (\<lambda>it db. rbind (add_session env s r it db) (add_transfer env s r ''KT-'' ''SYSTEM'' it))
      (enumerate 0 (rc_topics r)) db) (\<lambda>db.
    rbind (rfold (add_transfer env s r ''DELIVERABLE-'' ''IN_FLIGHT_WORK'') (enumerate 0 (rc_deliverables r)) db) (\<lambda>db.
    rbind (rfold (add_access env s) [''SYSTEM'', ''VPN'', ''BUILDING''] db) (\<lambda>db.
    rbind (rfold (add_clearance env s) (po_departments (sx_policy s)) db) (\<lambda>db.
    rbind (add_interview env s db) (\<lambda>db.
    rbind (add_settlement env s db) (\<lambda>db.
    rfold (add_fetch s) [''ASSETS'', ''PAYROLL'', ''INCENTIVES''] db))))))))"

section \<open>The gates of handover and exit\<close>

definition assertHandoverComplete :: "separation \<Rightarrow> sep_db \<Rightarrow> hr_error + unit" where
  "assertHandoverComplete s db =
    (let k = sx_id s; sessions = rows_of k (sd_sessions db); transfers = rows_of k (sd_transfers db) in
     rbind (ensure ((case first_row k (sd_plans db) of None \<Rightarrow> False | Some p \<Rightarrow> pl_readinessBy (tk_payload p) \<noteq> None) \<and>
         sessions \<noteq> [] \<and> list_all (\<lambda>t. completed t \<and> se_acknowledgedBy (tk_payload t) \<noteq> None) sessions)
       (AppError 409 ''Replacement training and readiness sign-off are incomplete'')) (\<lambda>_.
     rbind (ensure (transfers \<noteq> [] \<and>
         list_all (\<lambda>t. completed t \<and> kt_leaverBy (tk_payload t) \<noteq> None \<and> kt_receiverBy (tk_payload t) \<noteq> None) transfers)
       (AppError 409 ''Both leaver and receiver must acknowledge each knowledge-transfer item'')) (\<lambda>_.
     rbind (ensure (keyed_row k ''ASSETS'' (sd_sources db) \<noteq> None)
       (AppError 409 ''A verified asset-custody snapshot is required'')) (\<lambda>_.
     ensure (list_all completed (rows_of k (sd_assets db))) (AppError 409 ''Resolve every asset before clearance'')))))"

definition line_covers :: "clearance_item task_row \<Rightarrow> due \<Rightarrow> settlement_line \<Rightarrow> bool" where
  "line_covers c d l \<longleftrightarrow> sl_sourceRef l = RowRef (tk_id c) \<and> sl_description l = du_description d \<and> sl_amountMinor l = du_amountMinor d"

definition dues_settled :: "settlement \<Rightarrow> clearance_item task_row list \<Rightarrow> bool" where
  "dues_settled st clearances \<longleftrightarrow>
    list_all (\<lambda>c. list_all (\<lambda>d. list_ex (line_covers c d) (st_lines st)) (cl_dues (tk_payload c))) clearances"

definition assertExitComplete :: "rules \<Rightarrow> separation \<Rightarrow> sep_db \<Rightarrow> hr_error + unit" where
  "assertExitComplete ru s db =
    (let k = sx_id s; clearances = rows_of k (sd_clearances db); access = rows_of k (sd_access db) in
     rbind (assertHandoverComplete s db) (\<lambda>_.
     rbind (ensure (ru_clearanceComplete ru clearances (rows_of k (sd_assets db)))
       (AppError 409 ''Every required department must sign clearance'')) (\<lambda>_.
     rbind (ensure (length access = 3 \<and> list_all completed access)
       (AppError 409 ''Confirm system, VPN and building access revocation'')) (\<lambda>_.
     case (first_row k (sd_interviews db), first_row k (sd_settlements db)) of
       (Some iv, Some sheet) \<Rightarrow>
         rbind (ensure (completed iv \<and> completed sheet \<and> st_receiptRef (tk_payload sheet) \<noteq> None)
           (AppError 409 ''Complete the HR interview and obtain payroll settlement handoff receipt'')) (\<lambda>_.
         rbind (ensure (case first_row k (sd_notices db) of None \<Rightarrow> True
             | Some n \<Rightarrow> np_pending (tk_payload n) = None \<and> nf_shortfallDays (np_facts (tk_payload n)) \<le> 0)
           (AppError 409 ''Resolve notice shortfall or pending notice actions'')) (\<lambda>_.
         ensure (dues_settled (tk_payload sheet) clearances)
           (AppError 409 ''Include all clearance dues in the settlement'')))
     | _ \<Rightarrow> throw 409 ''Complete the HR interview and obtain payroll settlement handoff receipt''))))"

section \<open>Opening and editing a case\<close>

record create_input =
  ci_employeeCode :: string
  ci_version :: nat
  ci_type :: string
  ci_reasonCode :: string
  ci_reason :: string
  ci_proposedAt :: int
  ci_documents :: "(string \<times> string) list"

definition initiator_role :: "sep_env \<Rightarrow> sep_employee \<Rightarrow> string option" where
  "initiator_role env e =
    (if em_code e = who_code env then Some ''SELF''
     else if isHr env then Some ''HR''
     else if is_who env (em_managerId e) then Some ''MANAGER''
     else None)"

definition grade_code :: "sep_db \<Rightarrow> sep_employee \<Rightarrow> string" where
  "grade_code db e =
    (case em_gradeId e of None \<Rightarrow> []
     | Some g \<Rightarrow> if g = 0 then [] else (case find (\<lambda>x. fst x = g) (sd_grades db) of None \<Rightarrow> [] | Some x \<Rightarrow> snd x))"

definition manager_code :: "sep_db \<Rightarrow> sep_employee \<Rightarrow> string" where
  "manager_code db e =
    (case em_managerId e of None \<Rightarrow> []
     | Some m \<Rightarrow> if m = 0 then [] else (case find (\<lambda>x. em_id x = m) (sd_employees db) of None \<Rightarrow> [] | Some x \<Rightarrow> em_code x))"

definition open_case :: "string \<Rightarrow> separation \<Rightarrow> bool" where
  "open_case code s \<longleftrightarrow> sx_employeeCode s = code \<and> \<not> terminal (sx_state s)"

definition new_separation :: "sep_env \<Rightarrow> create_input \<Rightarrow> sep_employee \<Rightarrow> string \<Rightarrow> string \<Rightarrow> string \<Rightarrow> sep_policy \<Rightarrow> nat \<Rightarrow> separation" where
  "new_separation env input e managerCode category gradeCode p k =
    \<lparr>sx_id = k, sx_employeeCode = em_code e, sx_type = ci_type input, sx_state = Draft,
     sx_reasonCode = ci_reasonCode input, sx_reason = ci_reason input, sx_proposedAt = ci_proposedAt input,
     sx_lastWorkingAt = None, sx_submittedAt = None, sx_approvedAt = None, sx_deferredUntil = None,
     sx_withdrawalAt = None, sx_completedAt = None, sx_accessDueAt = None, sx_createdBy = who_code env,
     sx_managerCode = managerCode, sx_category = category, sx_gradeCode = gradeCode, sx_policy = p,
     sx_recommendation = None, sx_verification = None, sx_verifiedBy = None, sx_documents = ci_documents input,
     sx_rehire = None, sx_version = 1\<rparr>"

definition may_initiate :: "sep_env \<Rightarrow> sep_policy \<Rightarrow> create_input \<Rightarrow> sep_employee \<Rightarrow> hr_error + unit" where
  "may_initiate env p input e =
    (let role = initiator_role env e in
     rbind (ensure (case find (\<lambda>t. tr_type t = ci_type input) (po_typeRules p) of None \<Rightarrow> False
           | Some r \<Rightarrow> (case role of None \<Rightarrow> False | Some x \<Rightarrow> x \<in> set (tr_initiators r)))
         (AppError 403 ''This separation type cannot be initiated by your role'')) (\<lambda>_.
     rbind (if role = Some ''SELF'' then
         rbind (permit env ''hr.separation.self'') (\<lambda>_.
         ensure (ci_type input = ''RESIGNATION'') (AppError 403 ''Employees may initiate only their own resignation''))
       else Inr ()) (\<lambda>_.
     if role = Some ''MANAGER'' then permit env ''hr.separation.manager'' else Inr ())))"

definition createSeparation :: "sep_env \<Rightarrow> create_input \<Rightarrow> sep_db \<Rightarrow> hr_error + sep_db \<times> separation" where
  "createSeparation env input db =
    rbind (ensure (ci_version input = 0) (AppError 409 ''This record changed'')) (\<lambda>_.
    rbind (employee db (ci_employeeCode input)) (\<lambda>e.
    rbind (require (sd_policy db) (AppError 409 ''Configure and publish company separation policy first'')) (\<lambda>p.
    rbind (may_initiate env p input e) (\<lambda>_.
    rbind (ensure (\<not> status_matches [''inactive'', ''terminated'', ''exited'', ''separated''] e)
      (AppError 409 ''Employee is already inactive'')) (\<lambda>_.
    rbind (require (em_category e) (AppError 409 ''HR must verify the employee category before separation'')) (\<lambda>category.
    let gradeCode = grade_code db e; managerCode = manager_code db e in
    rbind (ensure (gradeCode \<noteq> [] \<and> list_ex (\<lambda>a. ar_category a = category \<and> ar_gradeCode a = gradeCode) (po_authority p))
      (AppError 409 ''Configure the category and grade authority matrix first'')) (\<lambda>_.
    rbind (ensure (managerCode \<noteq> []) (AppError 409 ''A verified direct manager is required'')) (\<lambda>_.
    rbind (ensure (\<not> list_ex (open_case (em_code e)) (sd_separations db)) (AppError 409 ''An open separation already exists'')) (\<lambda>_.
    rbind (ensure (sv_now env \<le> ci_proposedAt input) (AppError 422 ''Proposed last working day must not be in the past'')) (\<lambda>_.
    let row = new_separation env input e managerCode category gradeCode p (sd_next db);
        db = db\<lparr>sd_separations := sd_separations db @ [row], sd_next := sd_next db + 1\<rparr> in
    rbind (audit env row ''DRAFT_CREATED'' (ci_reason input) (sx_state row) None db) (\<lambda>db.
    Inr (notify row ''DRAFT_CREATED'' (''draft:'' @ show_nat (sx_id row)) db, row))))))))))))"

record edit_input =
  ed_reasonCode :: string
  ed_reason :: string
  ed_proposedAt :: int
  ed_documents :: "(string \<times> string) list"

definition editSeparation :: "sep_env \<Rightarrow> sep_ref \<Rightarrow> edit_input \<Rightarrow> sep_db \<Rightarrow> hr_error + sep_db \<times> separation" where
  "editSeparation env ref input db =
    rbind (authorizedSeparation env True ref db) (\<lambda>s.
    rbind (ensure (sx_state s = Draft \<and> owns_code env (sx_createdBy s))
      (AppError 403 ''Only the initiator may edit a draft or reverted request'')) (\<lambda>_.
    rbind (ensure (sv_now env < ed_proposedAt input) (AppError 422 ''Proposed last working time must be in the future'')) (\<lambda>_.
    touch env s ''DRAFT_EDITED'' (ed_reason input)
      (\<lambda>r. r\<lparr>sx_proposedAt := ed_proposedAt input, sx_reasonCode := ed_reasonCode input, sx_reason := ed_reason input,
         sx_documents := ed_documents input, sx_recommendation := None, sx_verification := None,
         sx_verifiedBy := None, sx_deferredUntil := None\<rparr>) db)))"

section \<open>Actions\<close>

definition required_days :: "separation \<Rightarrow> type_rule \<Rightarrow> sep_employee \<Rightarrow> int option" where
  "required_days s rule e =
    (if tr_noticeTreatment rule = ''NONE'' then Some 0
     else (case em_noticeDays e of Some d \<Rightarrow> Some d
       | None \<Rightarrow> map_option gn_days (find (\<lambda>n. gn_category n = sx_category s \<and> gn_gradeCode n = sx_gradeCode s)
           (po_noticeByGrade (sx_policy s)))))"

definition type_rule_of :: "separation \<Rightarrow> hr_error + type_rule" where
  "type_rule_of s = require (find (\<lambda>t. tr_type t = sx_type s) (po_typeRules (sx_policy s))) (PlainError ''TypeError'')"

text \<open>The facts a notice starts from; the contract's calculation fills in the others.\<close>

definition notice_start :: "int \<Rightarrow> int \<Rightarrow> int \<Rightarrow> notice_facts" where
  "notice_start submitted last_day days =
    \<lparr>nf_submittedOn = submitted, nf_lastWorkingOn = last_day, nf_requiredDays = days, nf_servedDays = 0,
     nf_shortfallDays = 0, nf_buyoutDays = 0, nf_waivedDays = 0\<rparr>"

definition fresh_notice :: "notice_facts \<Rightarrow> notice" where
  "fresh_notice f = \<lparr>np_facts = f, np_disposition = None, np_gardenLeave = False, np_pending = None,
     np_approvedBy = None, np_lastDecision = None\<rparr>"

definition write_notice :: "sep_env \<Rightarrow> separation \<Rightarrow> notice \<Rightarrow> int \<Rightarrow> sep_db \<Rightarrow> hr_error + sep_db" where
  "write_notice env s payload due db =
    (case first_row (sx_id s) (sd_notices db) of
       Some n \<Rightarrow> Inr (db\<lparr>sd_notices := updateTask env n (\<lambda>r. r\<lparr>tk_payload := payload, tk_dueAt := Some due\<rparr>) (sd_notices db)\<rparr>)
     | None \<Rightarrow>
         rbind (createTask env s ''NOTICE'' payload (case po_hrCodes (sx_policy s) of [] \<Rightarrow> None | c # _ \<Rightarrow> Some c)
           (Some due) (sd_notices db) db) (\<lambda>(rows, db, _). Inr (db\<lparr>sd_notices := rows\<rparr>)))"

definition submitSeparation :: "rules \<Rightarrow> sep_env \<Rightarrow> separation \<Rightarrow> string \<Rightarrow> sep_db \<Rightarrow> hr_error + sep_db \<times> separation" where
  "submitSeparation ru env s reason db =
    rbind (ensure (owns_code env (sx_createdBy s)) (AppError 403 ''Only the employee initiator may submit'')) (\<lambda>_.
    rbind (ensure (sx_state s = Draft) (AppError 409 ''Only a draft can be submitted'')) (\<lambda>_.
    rbind (type_rule_of s) (\<lambda>rule.
    rbind (ensure (list_all (\<lambda>k. list_ex (\<lambda>d. fst d = k) (sx_documents s)) (tr_requiredDocs rule))
      (AppError 422 ''Required supporting documents are missing'')) (\<lambda>_.
    rbind (employee db (sx_employeeCode s)) (\<lambda>e.
    rbind (require (required_days s rule e)
      (AppError 409 ''Configure contractual or grade notice days before submission'')) (\<lambda>days.
    rbind (ru_notice ru (notice_start (ru_companyDate ru (sv_now env) (po_timeZone (sx_policy s)))
        (ru_companyDate ru (sx_proposedAt s) (po_timeZone (sx_policy s))) days)) (\<lambda>f.
    rbind (write_notice env s (fresh_notice f) (sx_proposedAt s) db) (\<lambda>db.
    rbind (change ru env s Submitted ''SUBMITTED'' reason (\<lambda>r. r\<lparr>sx_submittedAt := Some (sv_now env)\<rparr>)
      (Some ''hr.separation.submitted.v1'') db) (\<lambda>(db, s).
    change ru env s ManagerReview ''MANAGER_REVIEW'' ''Submitted for direct manager review'' id None db)))))))))"

definition withdrawSeparation :: "rules \<Rightarrow> sep_env \<Rightarrow> separation \<Rightarrow> string \<Rightarrow> sep_db \<Rightarrow> hr_error + sep_db \<times> separation" where
  "withdrawSeparation ru env s reason db =
    rbind (permit env ''hr.separation.self'') (\<lambda>_.
    rbind (ensure (sx_employeeCode s = who_code env \<and> sx_type s = ''RESIGNATION'')
      (AppError 403 ''Only the employee may withdraw their own resignation'')) (\<lambda>_.
    if sx_approvedAt s \<noteq> None then
      rbind (type_rule_of s) (\<lambda>rule.
      rbind (ensure (tr_postApproval rule) (AppError 403 ''Policy does not allow withdrawal after approval'')) (\<lambda>_.
      rbind (touch env s ''WITHDRAWAL_REQUESTED'' reason (\<lambda>r. r\<lparr>sx_withdrawalAt := Some (sv_now env)\<rparr>) db) (\<lambda>(db, s).
      Inr (notify s ''WITHDRAWAL_REQUESTED''
        (''withdrawal:'' @ show_nat (sx_id s) @ '':'' @ show_nat (sx_version s)) db, s))))
    else change ru env s Withdrawn ''WITHDRAWN'' reason id (Some ''hr.separation.withdrawn.v1'') db))"

definition startHandover :: "rules \<Rightarrow> sep_env \<Rightarrow> separation \<Rightarrow> string \<Rightarrow> sep_db \<Rightarrow> hr_error + sep_db \<times> separation" where
  "startHandover ru env s reason db =
    rbind (if isHr env then Inr () else managerOnly env s db) (\<lambda>_.
    change ru env s HandoverInProgress ''HANDOVER_STARTED'' reason id None db)"

definition startClearance :: "rules \<Rightarrow> sep_env \<Rightarrow> separation \<Rightarrow> string \<Rightarrow> sep_db \<Rightarrow> hr_error + sep_db \<times> separation" where
  "startClearance ru env s reason db =
    rbind (permit env ''hr.separation.verify'') (\<lambda>_.
    rbind (assertHandoverComplete s db) (\<lambda>_.
    change ru env s Clearance ''CLEARANCE_STARTED'' reason id None db))"

definition separate_employee :: "int \<Rightarrow> int option \<Rightarrow> bool \<Rightarrow> sep_db \<Rightarrow> sep_db" where
  "separate_employee k instant rehire db =
    db\<lparr>sd_employees := map (\<lambda>e. if em_id e = k then e\<lparr>em_status := ''Separated'', em_employment := ''Separated'',
        em_separatedAt := instant, em_rehire := Some rehire, em_version := em_version e + 1\<rparr> else e) (sd_employees db)\<rparr>"

text \<open>Capabilities and the assessment identity expire with the employee: \<open>sd_expired\<close> records the code.\<close>

definition completeExit :: "rules \<Rightarrow> sep_env \<Rightarrow> separation \<Rightarrow> string \<Rightarrow> bool option \<Rightarrow> sep_db \<Rightarrow> hr_error + sep_db \<times> separation" where
  "completeExit ru env s reason rehireEligible db =
    rbind (permit env ''hr.separation.manage'') (\<lambda>_.
    rbind (require rehireEligible (AppError 422 ''Record rehire eligibility'')) (\<lambda>rehire.
    rbind (ensure (case sx_lastWorkingAt s of None \<Rightarrow> False | Some t \<Rightarrow> t \<le> sv_now env)
      (AppError 409 ''Exit cannot be completed before the last working time'')) (\<lambda>_.
    rbind (assertExitComplete ru s db) (\<lambda>_.
    rbind (change ru env s ExitCompleted ''EXIT_COMPLETED'' reason
      (\<lambda>r. r\<lparr>sx_completedAt := Some (sv_now env), sx_rehire := Some rehire\<rparr>)
      (Some ''hr.separation.exit_completed.v1'') db) (\<lambda>(db, s).
    rbind (employee db (sx_employeeCode s)) (\<lambda>e.
    let db = separate_employee (em_id e) (sx_lastWorkingAt s) rehire db;
        db = db\<lparr>sd_expired := sd_expired db @ [sx_employeeCode s]\<rparr> in
    rbind (emit env s ''hr.employee.separated.v1'' db) (\<lambda>db.
    rbind (generateDocument ru env s ''EXPERIENCE'' db) (\<lambda>db. Inr (db, s)))))))))"

definition separationAction :: "rules \<Rightarrow> sep_env \<Rightarrow> sep_ref \<Rightarrow> string \<Rightarrow> string \<Rightarrow> bool option \<Rightarrow> sep_db \<Rightarrow> hr_error + sep_db \<times> separation" where
  "separationAction ru env ref action reason rehire db =
    rbind (authorizedSeparation env True ref db) (\<lambda>s.
    if action = ''SUBMIT'' then submitSeparation ru env s reason db
    else if action = ''WITHDRAW'' then withdrawSeparation ru env s reason db
    else if action = ''CANCEL'' then
      rbind (permit env ''hr.separation.manage'') (\<lambda>_.
      change ru env s Cancelled ''CANCELLED'' reason id (Some ''hr.separation.cancelled.v1'') db)
    else if action = ''START_HANDOVER'' then startHandover ru env s reason db
    else if action = ''START_CLEARANCE'' then startClearance ru env s reason db
    else if action = ''COMPLETE_EXIT'' then completeExit ru env s reason rehire db
    else Inr (db, s))"

section \<open>Reviews\<close>

definition recommendSeparation :: "rules \<Rightarrow> sep_env \<Rightarrow> sep_ref \<Rightarrow> recommendation \<Rightarrow> sep_db \<Rightarrow> hr_error + sep_db \<times> separation" where
  "recommendSeparation ru env ref input db =
    rbind (permit env ''hr.separation.manager'') (\<lambda>_.
    rbind (authorizedSeparation env True ref db) (\<lambda>s.
    rbind (managerOnly env s db) (\<lambda>_.
    rbind (ensure (sx_state s = ManagerReview) (AppError 409 ''Not awaiting manager review'')) (\<lambda>_.
    rbind (employee db (rc_interimOwnerCode input)) (\<lambda>_.
    rbind (case rc_replacementCode input of None \<Rightarrow> Inr () | Some c \<Rightarrow> rbind (employee db c) (\<lambda>_. Inr ())) (\<lambda>_.
    rbind (ensure (rc_replacementCode input \<noteq> Some (sx_employeeCode s) \<and> rc_interimOwnerCode input \<noteq> sx_employeeCode s)
      (AppError 422 ''The leaver cannot be the receiving owner'')) (\<lambda>_.
    rbind (ensure (case rc_requisitionRef input of None \<Rightarrow> True | Some q \<Rightarrow> q \<in> set (sd_requisitions db))
      (AppError 404 ''Recruitment requisition not found'')) (\<lambda>_.
    rbind (ensure (\<not> (rc_recommendation input = ''DEFER'' \<and> rc_deferredUntil input = None))
      (AppError 422 ''A deferral date is required'')) (\<lambda>_.
    change ru env s HrVerification ''MANAGER_RECOMMENDED'' (rc_reason input)
      (\<lambda>r. r\<lparr>sx_recommendation := Some input, sx_managerCode := who_code env\<rparr>) None db)))))))))"

definition verifySeparation :: "rules \<Rightarrow> sep_env \<Rightarrow> sep_ref \<Rightarrow> string \<Rightarrow> sep_db \<Rightarrow> hr_error + sep_db \<times> separation" where
  "verifySeparation ru env ref findings db =
    rbind (permit env ''hr.separation.verify'') (\<lambda>_.
    rbind (authorizedSeparation env True ref db) (\<lambda>s.
    rbind (ensure (sx_employeeCode s \<noteq> who_code env) (AppError 403 ''An independent HR officer must verify'')) (\<lambda>_.
    change ru env s ManagementDecision ''HR_VERIFIED'' ''HR verification recorded''
      (\<lambda>r. r\<lparr>sx_verification := Some findings, sx_verifiedBy := Some (who_code env)\<rparr>) None db)))"

record decision_input =
  di_decision :: string
  di_reason :: string
  di_lastWorkingAt :: "int option"
  di_deferredUntil :: "int option"

definition ends_with :: "string \<Rightarrow> string \<Rightarrow> bool" where
  "ends_with s w \<longleftrightarrow> length w \<le> length s \<and> drop (length s - length w) s = w"

definition decide_withdrawal :: "rules \<Rightarrow> sep_env \<Rightarrow> separation \<Rightarrow> decision_input \<Rightarrow> sep_db \<Rightarrow> hr_error + sep_db \<times> separation" where
  "decide_withdrawal ru env s input db =
    rbind (require (sx_withdrawalAt s) (AppError 409 ''No withdrawal request is pending'')) (\<lambda>instant.
    rbind (use_approval ru ''SEPARATION_WITHDRAWAL'' (show_nat (sx_id s) @ ''@'' @ show_nat (nat instant))
      (di_decision input = ''APPROVE_WITHDRAWAL'') db) (\<lambda>db.
    if di_decision input = ''APPROVE_WITHDRAWAL'' then
      change ru env s Withdrawn ''WITHDRAWN'' (di_reason input) (\<lambda>r. r\<lparr>sx_withdrawalAt := None\<rparr>)
        (Some ''hr.separation.withdrawn.v1'') db
    else touch env s ''WITHDRAWAL_REJECTED'' (di_reason input) (\<lambda>r. r\<lparr>sx_withdrawalAt := None\<rparr>) db))"

definition approve_separation :: "rules \<Rightarrow> sep_env \<Rightarrow> separation \<Rightarrow> decision_input \<Rightarrow> sep_db \<Rightarrow> hr_error + sep_db \<times> separation" where
  "approve_separation ru env s input db =
    (let lastAt = (case di_lastWorkingAt input of Some t \<Rightarrow> t | None \<Rightarrow> sx_proposedAt s) in
     rbind (ensure (sv_now env \<le> lastAt) (AppError 422 ''Last working time cannot be in the past'')) (\<lambda>_.
     rbind (require (first_row (sx_id s) (sd_notices db)) (PlainError ''TypeError'')) (\<lambda>n.
     rbind (ru_notice ru ((np_facts (tk_payload n))\<lparr>nf_lastWorkingOn :=
         ru_companyDate ru lastAt (po_timeZone (sx_policy s))\<rparr>)) (\<lambda>f.
     let payload = (fresh_notice f)\<lparr>np_disposition :=
           Some (if nf_shortfallDays f \<noteq> 0 then ''PENDING_NOTICE_ACTION'' else ''COMPLIANT'')\<rparr>;
         db = db\<lparr>sd_notices := updateTask env n (\<lambda>r. r\<lparr>tk_payload := payload, tk_dueAt := Some lastAt\<rparr>) (sd_notices db)\<rparr> in
     rbind (change ru env s Approved ''APPROVED'' (di_reason input)
       (\<lambda>r. r\<lparr>sx_approvedAt := Some (sv_now env), sx_lastWorkingAt := Some lastAt\<rparr>) (Some ''hr.separation.approved.v1'') db) (\<lambda>(db, s).
     rbind (generateWorkstreams env s db) (\<lambda>db.
     rbind (generateDocument ru env s (if sx_type s = ''RESIGNATION'' then ''ACCEPTANCE'' else ''TERMINATION'') db) (\<lambda>db.
     rbind (emit env s ''hr.separation.clawback_requested.v1'' db) (\<lambda>db.
     change ru env s NoticePeriod ''NOTICE_STARTED'' ''Notice tracking started'' id
       (Some ''hr.separation.notice_started.v1'') db))))))))"

definition decideSeparation :: "rules \<Rightarrow> sep_env \<Rightarrow> sep_ref \<Rightarrow> decision_input \<Rightarrow> sep_db \<Rightarrow> hr_error + sep_db \<times> separation" where
  "decideSeparation ru env ref input db =
    rbind (permit env ''hr.separation.approve'') (\<lambda>_.
    rbind (authorizedSeparation env True ref db) (\<lambda>s.
    rbind (approverOnly env s db) (\<lambda>_.
    if ends_with (di_decision input) ''_WITHDRAWAL'' then decide_withdrawal ru env s input db
    else
      rbind (ensure (sx_state s = ManagementDecision \<and> sx_verification s \<noteq> None)
        (AppError 409 ''Complete manager and HR review first'')) (\<lambda>_.
      rbind (ensure (sx_deferredUntil s = None) (AppError 409 ''Decision is deferred until its scheduled review'')) (\<lambda>_.
      if di_decision input = ''REJECT'' then
        change ru env s Cancelled ''REJECTED'' (di_reason input) id (Some ''hr.separation.rejected.v1'') db
      else if di_decision input = ''DEFER'' then
        (case di_deferredUntil input of
           None \<Rightarrow> throw 422 ''Deferral date must be in the future''
         | Some day \<Rightarrow>
             rbind (ensure (ru_companyDate ru (sv_now env) (po_timeZone (sx_policy s)) < day)
               (AppError 422 ''Deferral date must be in the future'')) (\<lambda>_.
             rbind (touch env s ''DEFERRED'' (di_reason input) (\<lambda>r. r\<lparr>sx_deferredUntil := Some (day * 86400000)\<rparr>) db) (\<lambda>(db, s).
             rbind (emit env s ''hr.separation.deferred.v1'' db) (\<lambda>db.
             Inr (notify s ''DEFERRED'' (''deferred:'' @ show_nat (sx_id s) @ '':'' @ show_nat (sx_version s)) db, s)))))
      else approve_separation ru env s input db)))))"

definition revertSeparation :: "rules \<Rightarrow> sep_env \<Rightarrow> sep_ref \<Rightarrow> string \<Rightarrow> sep_db \<Rightarrow> hr_error + sep_db \<times> separation" where
  "revertSeparation ru env ref reason db =
    rbind (authorizedSeparation env True ref db) (\<lambda>s.
    rbind (case sx_state s of
        ManagerReview \<Rightarrow> rbind (managerOnly env s db) (\<lambda>_. Inr ''LINE_MANAGER'')
      | HrVerification \<Rightarrow>
          rbind (permit env ''hr.separation.verify'') (\<lambda>_.
          rbind (ensure (sx_employeeCode s \<noteq> who_code env) (AppError 403 ''Independent HR verification is required'')) (\<lambda>_.
          Inr ''HR''))
      | ManagementDecision \<Rightarrow> rbind (approverOnly env s db) (\<lambda>_. Inr ''MANAGEMENT'')
      | _ \<Rightarrow> throw 409 ''Only an active review stage may revert a request'') (\<lambda>stage.
    let to_state = (if ru_revertTarget ru stage = ''HR'' then HrVerification else Draft) in
    change ru env s to_state ''REVERTED'' reason
      (\<lambda>r. (if to_state = Draft then r\<lparr>sx_recommendation := None\<rparr> else r)
         \<lparr>sx_verification := None, sx_verifiedBy := None, sx_deferredUntil := None\<rparr>)
      (Some ''hr.separation.reverted.v1'') db))"

section \<open>Notice\<close>

record notice_input =
  ni_action :: string
  ni_reason :: string
  ni_version :: nat
  ni_days :: "int option"
  ni_lastWorkingAt :: "int option"

definition null0 :: "int option \<Rightarrow> int" where
  "null0 x = (case x of None \<Rightarrow> 0 | Some t \<Rightarrow> t)"

definition settlement_held :: "nat \<Rightarrow> sep_db \<Rightarrow> bool" where
  "settlement_held k db \<longleftrightarrow> list_ex (\<lambda>t. tk_status t \<in> set [''HANDED_OFF'', ''COMPLETED'']) (rows_of k (sd_settlements db))"

definition request_notice :: "sep_env \<Rightarrow> separation \<Rightarrow> notice_input \<Rightarrow> notice \<Rightarrow> hr_error + notice" where
  "request_notice env s input payload =
    rbind (ensure (sx_employeeCode s = who_code env \<or> isHr env)
      (AppError 403 ''Only the employee or HR may request a notice change'')) (\<lambda>_.
    rbind (ensure (np_pending payload = None) (AppError 409 ''A notice request is awaiting decision'')) (\<lambda>_.
    rbind (ensure (ni_action input = ''REQUEST_EARLY_RELEASE'' \<longrightarrow>
        (case ni_lastWorkingAt input of None \<Rightarrow> False | Some t \<Rightarrow> sv_now env \<le> t \<and> t < null0 (sx_lastWorkingAt s)))
      (AppError 422 ''Early release must be in the future and before the current last working time'')) (\<lambda>_.
    rbind (ensure (ni_action input = ''REQUEST_BUYOUT'' \<longrightarrow> (case ni_days input of None \<Rightarrow> False | Some d \<Rightarrow> 0 < d))
      (AppError 422 ''Specify buyout days'')) (\<lambda>_.
    Inr (payload\<lparr>np_pending := Some \<lparr>nr_action = ni_action input, nr_days = null0 (ni_days input),
      nr_lastWorkingAt = ni_lastWorkingAt input, nr_reason = ni_reason input, nr_requestedBy = who_code env\<rparr>\<rparr>)))))"

definition granted_notice :: "rules \<Rightarrow> sep_env \<Rightarrow> separation \<Rightarrow> notice_request \<Rightarrow> notice \<Rightarrow> hr_error + notice \<times> int option" where
  "granted_notice ru env s p payload =
    (let f = np_facts payload;
         f = (if nr_action p = ''REQUEST_BUYOUT'' then f\<lparr>nf_buyoutDays := nr_days p\<rparr> else f);
         instant = (if nr_action p = ''REQUEST_EARLY_RELEASE'' then Some (null0 (nr_lastWorkingAt p)) else None);
         f = (case instant of None \<Rightarrow> f
            | Some t \<Rightarrow>
                let day = ru_companyDate ru t (po_timeZone (sx_policy s)) in
                f\<lparr>nf_lastWorkingOn := day,
                  nf_waivedDays := max 0 (nf_requiredDays f - (day - nf_submittedOn f) - nf_buyoutDays f)\<rparr>) in
     rbind (ru_notice ru f) (\<lambda>f.
     Inr (payload\<lparr>np_facts := f, np_approvedBy := Some (who_code env),
        np_gardenLeave := (np_gardenLeave payload \<or> nr_action p = ''REQUEST_GARDEN_LEAVE'')\<rparr>, instant)))"

definition decide_notice :: "rules \<Rightarrow> sep_env \<Rightarrow> separation \<Rightarrow> notice task_row \<Rightarrow> notice_input \<Rightarrow> sep_db \<Rightarrow>
    hr_error + (notice \<times> int option) \<times> sep_db" where
  "decide_notice ru env s n input db =
    rbind (approverOnly env s db) (\<lambda>_.
    rbind (require (np_pending (tk_payload n)) (AppError 409 ''No notice request is pending'')) (\<lambda>p.
    rbind (use_approval ru ''NOTICE_CHANGE'' (show_nat (tk_id n) @ ''@'' @ show_nat (tk_version n))
      (ni_action input = ''APPROVE'') db) (\<lambda>db.
    rbind (ensure (\<not> owns_code env (nr_requestedBy p))
      (AppError 403 ''Notice changes require an independent approver'')) (\<lambda>_.
    rbind (if ni_action input = ''APPROVE'' then granted_notice ru env s p (tk_payload n) else Inr (tk_payload n, None)) (\<lambda>(payload, instant).
    Inr ((payload\<lparr>np_lastDecision := Some (ni_action input, ni_reason input, who_code env, sv_now env), np_pending := None\<rparr>, instant), db))))))"

definition due_open :: "nat \<Rightarrow> int \<Rightarrow> 'p task_row list \<Rightarrow> 'p task_row list" where
  "due_open k instant = map (\<lambda>r. if tk_sep r = k \<and> \<not> completed r then r\<lparr>tk_dueAt := Some instant, tk_version := tk_version r + 1\<rparr> else r)"

definition reschedule :: "nat \<Rightarrow> int \<Rightarrow> sep_db \<Rightarrow> sep_db" where
  "reschedule k instant db =
    db\<lparr>sd_access := due_open k instant (sd_access db), sd_clearances := due_open k instant (sd_clearances db),
       sd_transfers := due_open k instant (sd_transfers db), sd_assets := due_open k instant (sd_assets db),
       sd_plans := due_open k instant (sd_plans db), sd_sessions := due_open k instant (sd_sessions db)\<rparr>"

definition noticeAction :: "rules \<Rightarrow> sep_env \<Rightarrow> sep_ref \<Rightarrow> notice_input \<Rightarrow> sep_db \<Rightarrow> hr_error + sep_db \<times> separation" where
  "noticeAction ru env ref input db =
    rbind (authorizedSeparation env True ref db) (\<lambda>s.
    rbind (ensure (sx_state s \<in> set [NoticePeriod, HandoverInProgress, Clearance])
      (AppError 409 ''Notice actions require an approved active separation'')) (\<lambda>_.
    rbind (ensure (\<not> settlement_held (sx_id s) db) (AppError 409 ''Notice is locked after payroll handoff'')) (\<lambda>_.
    rbind (require (first_row (sx_id s) (sd_notices db)) (PlainError ''TypeError'')) (\<lambda>n.
    rbind (ensure (tk_version n = ni_version input) (AppError 409 ''This record changed'')) (\<lambda>_.
    rbind (if take 8 (ni_action input) = ''REQUEST_''
           then rbind (request_notice env s input (tk_payload n)) (\<lambda>payload. Inr ((payload, None), db))
           else decide_notice ru env s n input db) (\<lambda>((payload, instant), db).
    let db = db\<lparr>sd_notices := updateTask env n
          (\<lambda>r. r\<lparr>tk_payload := payload, tk_dueAt := (if instant = None then tk_dueAt r else instant)\<rparr>) (sd_notices db)\<rparr> in
    rbind (touch env s (ni_action input) (ni_reason input)
      (\<lambda>r. r\<lparr>sx_lastWorkingAt := (if instant = None then sx_lastWorkingAt r else instant)\<rparr>) db) (\<lambda>(db, s).
    rbind (case instant of None \<Rightarrow> Inr db
        | Some t \<Rightarrow> emit env s ''hr.separation.updated.v1'' (reschedule (sx_id s) t db)) (\<lambda>db.
    Inr (notify s (ni_action input) (''notice:'' @ show_nat (sx_id s) @ '':'' @ show_nat (sx_version s)) db, s)))))))))"

end
