(* ===== verification/Workstreams.thy ===== *)
theory Workstreams
  imports SeparationFlow
begin

text \<open>
  The workstreams of an approved separation (\<^verbatim>\<open>src/src/services/separation/workstreams.js\<close>), the source
  snapshots (\<^verbatim>\<open>src/src/services/separation/integrations.js\<close>) and the background sweep
  (\<^verbatim>\<open>src/src/services/separation/automation.js\<close>).
\<close>

section \<open>Shared guards\<close>

record work_input =
  wi_action :: string
  wi_task :: nat
  wi_version :: nat
  wi_evidence :: "string list"
  wi_requestKey :: string
  wi_owner :: "string option"
  wi_dueAt :: "int option"
  wi_title :: "string option"
  wi_kind :: "string option"
  wi_replacement :: "string option"
  wi_requisition :: "int option"
  wi_topics :: "string list option"

definition owner_only :: "sep_env \<Rightarrow> 'p task_row \<Rightarrow> hr_error + unit" where
  "owner_only env t =
    ensure (case tk_owner t of None \<Rightarrow> False | Some c \<Rightarrow> owns_code env c)
      (AppError 403 ''Only the assigned owner may complete this task'')"

definition requireEvidence :: "string list \<Rightarrow> hr_error + unit" where
  "requireEvidence refs = ensure (refs \<noteq> []) (AppError 422 ''Completion evidence is required'')"

definition workstream_active :: "separation \<Rightarrow> hr_error + unit" where
  "workstream_active s = ensure (sx_approvedAt s \<noteq> None) (AppError 409 ''Workstreams start after approval'')"

definition handoverWritable :: "separation \<Rightarrow> hr_error + unit" where
  "handoverWritable s =
    rbind (workstream_active s) (\<lambda>_.
    ensure (sx_state s \<noteq> Clearance) (AppError 409 ''Handover is frozen after clearance starts''))"

text \<open>Finishing a task: the row keeps its evidence when the command brings none, the case is touched.\<close>

definition finish_row :: "string list \<Rightarrow> 'p \<Rightarrow> string \<Rightarrow> 'p task_row \<Rightarrow> 'p task_row" where
  "finish_row evidence payload status r =
    r\<lparr>tk_payload := payload, tk_status := status, tk_evidence := (if evidence = [] then tk_evidence r else evidence)\<rparr>"

definition known_requisition :: "sep_db \<Rightarrow> int option \<Rightarrow> hr_error + unit" where
  "known_requisition db q =
    ensure (case q of None \<Rightarrow> True | Some q \<Rightarrow> q \<in> set (sd_requisitions db)) (AppError 404 ''Recruitment requisition not found'')"

section \<open>Replacement\<close>

definition create_session :: "sep_env \<Rightarrow> separation \<Rightarrow> work_input \<Rightarrow> sep_db \<Rightarrow> hr_error + sep_db \<times> separation" where
  "create_session env s input db =
    rbind (managerOnly env s db) (\<lambda>_.
    (case (wi_owner input, wi_dueAt input, wi_title input) of
      (Some owner, Some due, Some title) \<Rightarrow>
        rbind (ensure (wi_version input = 0) (AppError 422 ''New sessions require owner, due date and title'')) (\<lambda>_.
        rbind (createTask env s (wi_requestKey input)
          \<lparr>se_title = title, se_replacementCode = (case wi_replacement input of Some c \<Rightarrow> c | None \<Rightarrow> owner), se_acknowledgedBy = None\<rparr>
          (Some owner) (Some due) (sd_sessions db) db) (\<lambda>(rows, db, _).
        touch env s ''SESSION_CREATED'' title id (db\<lparr>sd_sessions := rows\<rparr>)))
    | _ \<Rightarrow> throw 422 ''New sessions require owner, due date and title''))"

definition plan_action :: "sep_env \<Rightarrow> separation \<Rightarrow> work_input \<Rightarrow> plan task_row \<Rightarrow> sep_db \<Rightarrow> hr_error + plan \<times> string" where
  "plan_action env s input row db =
    (let payload = tk_payload row in
     rbind (managerOnly env s db) (\<lambda>_.
     if wi_action input = ''PLAN'' then
       rbind (case wi_replacement input of None \<Rightarrow> Inr () | Some c \<Rightarrow> rbind (employee db c) (\<lambda>_. Inr ())) (\<lambda>_.
       rbind (ensure (wi_replacement input \<noteq> None \<or> wi_requisition input \<noteq> None)
         (AppError 422 ''Choose an employee code or recruitment requisition'')) (\<lambda>_.
       rbind (known_requisition db (wi_requisition input)) (\<lambda>_.
       Inr (payload\<lparr>pl_replacementCode := wi_replacement input, pl_requisitionRef := wi_requisition input,
           pl_topics := (case wi_topics input of Some t \<Rightarrow> t | None \<Rightarrow> pl_topics payload), pl_readinessBy := None\<rparr>,
         ''IN_PROGRESS''))))
     else
       rbind (requireEvidence (wi_evidence input)) (\<lambda>_.
       rbind (ensure (rows_of (sx_id s) (sd_sessions db) \<noteq> [] \<and> list_all completed (rows_of (sx_id s) (sd_sessions db)))
         (AppError 409 ''Complete and acknowledge every session first'')) (\<lambda>_.
       Inr (payload\<lparr>pl_readinessBy := Some (who_code env)\<rparr>, ''COMPLETED'')))))"

definition session_action :: "sep_env \<Rightarrow> work_input \<Rightarrow> training task_row \<Rightarrow> hr_error + training \<times> string" where
  "session_action env input row =
    (let payload = tk_payload row in
     if wi_action input = ''COMPLETE_SESSION'' then
       rbind (owner_only env row) (\<lambda>_.
       rbind (requireEvidence (wi_evidence input)) (\<lambda>_. Inr (payload, ''AWAITING_ACK'')))
     else
       rbind (ensure (owns_code env (se_replacementCode payload)) (AppError 403 ''The replacement must acknowledge personally'')) (\<lambda>_.
       rbind (ensure (tk_status row = ''AWAITING_ACK'') (AppError 409 ''Complete the session first'')) (\<lambda>_.
       Inr (payload\<lparr>se_acknowledgedBy := Some (who_code env)\<rparr>, ''COMPLETED''))))"

definition replacementAction :: "sep_env \<Rightarrow> sep_ref \<Rightarrow> work_input \<Rightarrow> sep_db \<Rightarrow> hr_error + sep_db \<times> separation" where
  "replacementAction env ref input db =
    rbind (permit env ''hr.separation.task'') (\<lambda>_.
    rbind (authorizedSeparation env True ref db) (\<lambda>s.
    rbind (handoverWritable s) (\<lambda>_.
    if wi_action input = ''SESSION'' then create_session env s input db
    else if wi_action input \<in> set [''COMPLETE_SESSION'', ''ACKNOWLEDGE_SESSION''] then
      rbind (task s (wi_task input) (wi_version input) (sd_sessions db)) (\<lambda>row.
      rbind (session_action env input row) (\<lambda>(payload, status).
      touch env s (wi_action input) (wi_action input) id
        (db\<lparr>sd_sessions := updateTask env row (finish_row (wi_evidence input) payload status) (sd_sessions db)\<rparr>)))
    else
      rbind (task s (wi_task input) (wi_version input) (sd_plans db)) (\<lambda>row.
      rbind (plan_action env s input row db) (\<lambda>(payload, status).
      touch env s (wi_action input) (wi_action input) id
        (db\<lparr>sd_plans := updateTask env row (finish_row (wi_evidence input) payload status) (sd_plans db)\<rparr>))))))"

section \<open>Knowledge transfer\<close>

definition create_transfer :: "sep_env \<Rightarrow> separation \<Rightarrow> work_input \<Rightarrow> sep_db \<Rightarrow> hr_error + sep_db \<times> separation" where
  "create_transfer env s input db =
    rbind (if isHr env then Inr () else managerOnly env s db) (\<lambda>_.
    (case (wi_owner input, wi_dueAt input, wi_title input, wi_kind input) of
      (Some owner, Some due, Some title, Some kind) \<Rightarrow>
        rbind (ensure (wi_version input = 0) (AppError 422 ''New KT items require kind, title, owner and due date'')) (\<lambda>_.
        rbind (ensure (owner \<noteq> sx_employeeCode s) (AppError 422 ''The receiver must be another employee'')) (\<lambda>_.
        rbind (createTask env s (wi_requestKey input)
          \<lparr>kt_kind = kind, kt_title = title, kt_completedAt = None, kt_leaverBy = None, kt_receiverBy = None\<rparr>
          (Some owner) (Some due) (sd_transfers db) db) (\<lambda>(rows, db, _).
        touch env s ''KT_CREATED'' title id (db\<lparr>sd_transfers := rows\<rparr>))))
    | _ \<Rightarrow> throw 422 ''New KT items require kind, title, owner and due date''))"

definition transfer_action :: "sep_env \<Rightarrow> separation \<Rightarrow> work_input \<Rightarrow> transfer_item task_row \<Rightarrow> hr_error + transfer_item \<times> string" where
  "transfer_action env s input row =
    (let payload = tk_payload row in
     if wi_action input = ''COMPLETE'' then
       rbind (ensure (who_code env = sx_employeeCode s \<or> tk_owner row = Some (who_code env))
         (AppError 403 ''Only the leaver or receiver may record completion'')) (\<lambda>_.
       rbind (requireEvidence (wi_evidence input)) (\<lambda>_.
       Inr (payload\<lparr>kt_completedAt := Some (sv_now env), kt_leaverBy := None, kt_receiverBy := None\<rparr>, ''AWAITING_ACK'')))
     else
       rbind (ensure (kt_completedAt payload \<noteq> None) (AppError 409 ''Record completion evidence before acknowledging'')) (\<lambda>_.
       rbind (if wi_action input = ''ACK_LEAVER'' then
           rbind (ensure (who_code env = sx_employeeCode s) (AppError 403 ''Leaver acknowledgment must be personal'')) (\<lambda>_.
           Inr (payload\<lparr>kt_leaverBy := Some (who_code env)\<rparr>))
         else rbind (owner_only env row) (\<lambda>_. Inr (payload\<lparr>kt_receiverBy := Some (who_code env)\<rparr>))) (\<lambda>payload.
       Inr (payload, if kt_leaverBy payload \<noteq> None \<and> kt_receiverBy payload \<noteq> None then ''COMPLETED'' else tk_status row))))"

definition ktAction :: "sep_env \<Rightarrow> sep_ref \<Rightarrow> work_input \<Rightarrow> sep_db \<Rightarrow> hr_error + sep_db \<times> separation" where
  "ktAction env ref input db =
    rbind (permit env ''hr.separation.task'') (\<lambda>_.
    rbind (authorizedSeparation env True ref db) (\<lambda>s.
    rbind (handoverWritable s) (\<lambda>_.
    if wi_action input = ''CREATE'' then create_transfer env s input db
    else
      rbind (task s (wi_task input) (wi_version input) (sd_transfers db)) (\<lambda>row.
      rbind (transfer_action env s input row) (\<lambda>(payload, status).
      touch env s (wi_action input) (wi_action input) id
        (db\<lparr>sd_transfers := updateTask env row (finish_row (wi_evidence input) payload status) (sd_transfers db)\<rparr>))))))"

section \<open>Assets and access\<close>

record asset_input =
  ai_task :: nat
  ai_version :: nat
  ai_evidence :: "string list"
  ai_disposition :: string
  ai_condition :: string
  ai_approvalRef :: "string option"
  ai_recoveryMinor :: "int option"

definition assetAction :: "sep_env \<Rightarrow> sep_ref \<Rightarrow> asset_input \<Rightarrow> sep_db \<Rightarrow> hr_error + sep_db \<times> separation" where
  "assetAction env ref input db =
    rbind (permit env ''hr.separation.task'') (\<lambda>_.
    rbind (authorizedSeparation env True ref db) (\<lambda>s.
    rbind (task s (ai_task input) (ai_version input) (sd_assets db)) (\<lambda>row.
    rbind (handoverWritable s) (\<lambda>_.
    rbind (requireEvidence (ai_evidence input)) (\<lambda>_.
    rbind (if ai_disposition input = ''RETURNED'' then owner_only env row
           else rbind (approverOnly env s db) (\<lambda>_.
             ensure (ai_approvalRef input \<noteq> None) (AppError 422 ''Approved write-off/recovery evidence is required''))) (\<lambda>_.
    rbind (ensure (\<not> (ai_disposition input = ''SETTLEMENT_RECOVERY'' \<and> null0 (ai_recoveryMinor input) \<le> 0))
      (AppError 422 ''Recovery amount is required'')) (\<lambda>_.
    touch env s ''ASSET_RESOLVED'' ''ASSET_RESOLVED'' id
      (db\<lparr>sd_assets := updateTask env row (finish_row (ai_evidence input)
        ((tk_payload row)\<lparr>as_disposition := Some (ai_disposition input), as_condition := ai_condition input,
           as_serialVerified := True, as_approvalRef := ai_approvalRef input, as_approvedBy := Some (who_code env),
           as_recoveryMinor := null0 (ai_recoveryMinor input)\<rparr>) ''COMPLETED'') (sd_assets db)\<rparr>))))))))"

record access_input =
  xi_task :: nat
  xi_version :: nat
  xi_evidence :: "string list"
  xi_system :: string
  xi_confirmationRef :: string

definition accessAction :: "sep_env \<Rightarrow> sep_ref \<Rightarrow> access_input \<Rightarrow> sep_db \<Rightarrow> hr_error + sep_db \<times> separation" where
  "accessAction env ref input db =
    rbind (permit env ''hr.separation.task'') (\<lambda>_.
    rbind (authorizedSeparation env True ref db) (\<lambda>s.
    rbind (task s (xi_task input) (xi_version input) (sd_access db)) (\<lambda>row.
    rbind (owner_only env row) (\<lambda>_.
    rbind (requireEvidence (xi_evidence input)) (\<lambda>_.
    rbind (ensure (case sx_lastWorkingAt s of None \<Rightarrow> True | Some t \<Rightarrow> t \<le> sv_now env)
      (AppError 409 ''Access revocation is scheduled for the last working time'')) (\<lambda>_.
    rbind (ensure (ac_system (tk_payload row) = xi_system input) (AppError 422 ''Access system does not match the task'')) (\<lambda>_.
    touch env s ''ACCESS_REVOKED'' ''ACCESS_REVOKED'' id
      (db\<lparr>sd_access := updateTask env row (finish_row (xi_evidence input)
        ((tk_payload row)\<lparr>ac_confirmationRef := Some (xi_confirmationRef input), ac_confirmedAt := Some (sv_now env)\<rparr>)
        ''COMPLETED'') (sd_access db)\<rparr>))))))))"

section \<open>Clearance and interview\<close>

record clearance_input =
  ki_task :: nat
  ki_version :: nat
  ki_evidence :: "string list"
  ki_department :: string
  ki_noDues :: bool
  ki_dues :: "due list"
  ki_reason :: string

definition clearanceAction :: "rules \<Rightarrow> sep_env \<Rightarrow> sep_ref \<Rightarrow> clearance_input \<Rightarrow> sep_db \<Rightarrow> hr_error + sep_db \<times> separation" where
  "clearanceAction ru env ref input db =
    rbind (permit env ''hr.separation.clear'') (\<lambda>_.
    rbind (authorizedSeparation env True ref db) (\<lambda>s.
    rbind (ensure (sx_state s = Clearance) (AppError 409 ''Separation is not in clearance'')) (\<lambda>_.
    rbind (ensure ((case find (\<lambda>d. dp_code d = ki_department input) (po_departments (sx_policy s)) of
          None \<Rightarrow> False | Some d \<Rightarrow> includesActor env (dp_signers d)) \<and> who_code env \<noteq> sx_employeeCode s)
      (AppError 403 ''Only an independent signer for this department may sign'')) (\<lambda>_.
    rbind (assertHandoverComplete s db) (\<lambda>_.
    rbind (requireEvidence (ki_evidence input)) (\<lambda>_.
    rbind (ensure (case first_row (sx_id s) (sd_settlements db) of None \<Rightarrow> True
        | Some t \<Rightarrow> tk_status t \<notin> set [''HANDED_OFF'', ''COMPLETED''])
      (AppError 409 ''Payroll already holds the settlement; clearance is locked'')) (\<lambda>_.
    rbind (ensure (ki_noDues input = (ki_dues input = [])) (AppError 422 ''Choose no dues or supply itemized dues'')) (\<lambda>_.
    rbind (task s (ki_task input) (ki_version input) (sd_clearances db)) (\<lambda>row.
    rbind (ensure (tk_key row = ki_department input) (AppError 422 ''Department does not match the clearance task'')) (\<lambda>_.
    let db = db\<lparr>sd_clearances := updateTask env row (\<lambda>r. r\<lparr>tk_status := ''COMPLETED'',
          tk_payload := (tk_payload row)\<lparr>cl_noDues := Some (ki_noDues input), cl_dues := ki_dues input,
            cl_reason := ki_reason input, cl_signedBy := Some (who_code env), cl_signedAt := Some (sv_now env)\<rparr>,
          tk_evidence := ki_evidence input\<rparr>) (sd_clearances db)\<rparr> in
    rbind (touch env s ''CLEARANCE_SIGNED'' (ki_reason input) id db) (\<lambda>(db, s).
    if list_all completed (rows_of (sx_id s) (sd_clearances db)) then
      rbind (emit env s ''hr.separation.clearance_completed.v1'' db) (\<lambda>db.
      rbind (generateDocument ru env s ''CLEARANCE'' db) (\<lambda>db. Inr (db, s)))
    else Inr (db, s))))))))))))"

definition interviewAction :: "sep_env \<Rightarrow> sep_ref \<Rightarrow> nat \<Rightarrow> string list \<Rightarrow> interview \<Rightarrow> sep_db \<Rightarrow> hr_error + sep_db \<times> separation" where
  "interviewAction env ref version evidence payload db =
    rbind (permit env ''hr.separation.verify'') (\<lambda>_.
    rbind (authorizedSeparation env True ref db) (\<lambda>s.
    rbind (workstream_active s) (\<lambda>_.
    rbind (ensure (who_code env \<noteq> sx_employeeCode s) (AppError 403 ''An independent HR interviewer is required'')) (\<lambda>_.
    rbind (require (first_row (sx_id s) (sd_interviews db)) (PlainError ''TypeError'')) (\<lambda>row.
    rbind (ensure (tk_version row = version) (AppError 409 ''This record changed'')) (\<lambda>_.
    touch env s ''INTERVIEW_RECORDED'' ''INTERVIEW_RECORDED'' id
      (db\<lparr>sd_interviews := updateTask env row (finish_row evidence payload ''COMPLETED'') (sd_interviews db)\<rparr>)))))))"

section \<open>Settlement\<close>

definition row_version_list :: "nat \<Rightarrow> 'p task_row list \<Rightarrow> (nat \<times> nat) list" where
  "row_version_list k rows = map (\<lambda>t. (tk_id t, tk_version t)) (sort_key tk_id (rows_of k rows))"

definition settlementInputs :: "nat \<Rightarrow> sep_db \<Rightarrow> row_versions" where
  "settlementInputs k db =
    [row_version_list k (sd_sources db), row_version_list k (sd_notices db),
     row_version_list k (sd_assets db), row_version_list k (sd_clearances db)]"

definition line :: "string \<Rightarrow> rat \<Rightarrow> string \<Rightarrow> line_source \<Rightarrow> string \<Rightarrow> settlement_line" where
  "line kind amount direction ref description =
    \<lparr>sl_kind = kind, sl_amountMinor = js_round amount, sl_direction = direction, sl_sourceRef = ref, sl_description = description\<rparr>"

definition source_lines :: "separation \<Rightarrow> financial \<Rightarrow> string \<Rightarrow> notice task_row \<Rightarrow> settlement_line list" where
  "source_lines s f ref n =
    (let p = sx_policy s; facts = np_facts (tk_payload n) in
     (if po_leaveEncashment p
      then [line ''LEAVE_ENCASHMENT'' (fi_leaveDays f * fi_dailyRateMinor f) ''EARNING'' (External ref) ''LEAVE_ENCASHMENT''] else []) @
     (if po_noticeRecovery p
      then [line ''NOTICE_RECOVERY'' (of_int (nf_buyoutDays facts + nf_shortfallDays facts) * fi_dailyRateMinor f) ''DEDUCTION''
        (RowRef (tk_id n)) ''NOTICE_RECOVERY''] else []) @
     (if po_noticePay p \<and> sx_type s = ''TERMINATION_WITHOUT_CAUSE''
      then [line ''NOTICE_PAY'' (of_int (max 0 (nf_requiredDays facts - nf_servedDays facts)) * fi_dailyRateMinor f) ''EARNING''
        (RowRef (tk_id n)) ''NOTICE_PAY''] else []) @
     [line ''LOAN'' (of_int (fi_loansMinor f)) ''DEDUCTION'' (External ref) ''LOAN'',
      line ''ADVANCE'' (of_int (fi_advancesMinor f)) ''DEDUCTION'' (External ref) ''ADVANCE'',
      line ''BOND'' (of_int (fi_bondsMinor f)) ''DEDUCTION'' (External ref) ''BOND''])"

definition asset_lines :: "asset_item task_row list \<Rightarrow> settlement_line list" where
  "asset_lines assets =
    map (\<lambda>a. line ''ASSET_RECOVERY'' (of_int (as_recoveryMinor (tk_payload a))) ''DEDUCTION'' (RowRef (tk_id a)) ''ASSET_RECOVERY'')
      (filter (\<lambda>a. as_disposition (tk_payload a) = Some ''SETTLEMENT_RECOVERY'') assets)"

definition due_lines :: "clearance_item task_row list \<Rightarrow> settlement_line list" where
  "due_lines clearances =
    concat (map (\<lambda>c. map (\<lambda>d. line ''CLEARANCE_DUE'' (of_int (du_amountMinor d)) ''DEDUCTION'' (RowRef (tk_id c)) (du_description d))
      (cl_dues (tk_payload c))) clearances)"

record settle_input =
  li_action :: string
  li_version :: nat
  li_evidence :: "string list"
  li_sourceVersion :: nat
  li_receiptRef :: "string option"

definition payroll_held :: "string \<Rightarrow> bool" where
  "payroll_held status \<longleftrightarrow> status \<in> set [''HANDED_OFF'', ''COMPLETED'']"

definition prepare_settlement :: "rules \<Rightarrow> sep_env \<Rightarrow> separation \<Rightarrow> settlement task_row \<Rightarrow> settle_input \<Rightarrow> sep_db \<Rightarrow> hr_error + settlement" where
  "prepare_settlement ru env s row input db =
    (let k = sx_id s in
     rbind (ensure (\<not> payroll_held (tk_status row)) (AppError 409 ''Payroll already holds this settlement'')) (\<lambda>_.
     case (keyed_row k ''PAYROLL'' (sd_sources db), keyed_row k ''INCENTIVES'' (sd_sources db)) of
       (Some source, Some clawback) \<Rightarrow>
         rbind (ensure (tk_version source = li_sourceVersion input) (AppError 409 ''This record changed'')) (\<lambda>_.
         case (sr_financial (tk_payload source), first_row k (sd_notices db)) of
           (Some f, Some n) \<Rightarrow>
             let lines = source_lines s f (sr_sourceRef (tk_payload source)) n @
                 [line ''INCENTIVE_CLAWBACK'' (of_int (null0 (sr_clawbackMinor (tk_payload clawback)))) ''DEDUCTION''
                    (External (sr_sourceRef (tk_payload clawback))) ''INCENTIVE_CLAWBACK''] @
                 asset_lines (rows_of k (sd_assets db)) @ due_lines (rows_of k (sd_clearances db)) in
             rbind (ru_settlementTotal ru lines) (\<lambda>net.
             Inr \<lparr>st_inputs = settlementInputs k db, st_lines = lines, st_netMinor = net,
               st_sourceVersion = tk_version source, st_incentiveVersion = tk_version clawback,
               st_preparedBy = Some (who_code env), st_receiptRef = None\<rparr>)
         | _ \<Rightarrow> Inl (PlainError ''TypeError''))
     | _ \<Rightarrow> throw 409 ''Verified payroll and incentive source snapshots are required''))"

definition handoff_settlement :: "rules \<Rightarrow> sep_env \<Rightarrow> separation \<Rightarrow> settlement task_row \<Rightarrow> settle_input \<Rightarrow> sep_db \<Rightarrow> hr_error + sep_db" where
  "handoff_settlement ru env s row input db =
    (let k = sx_id s; payload = tk_payload row in
     rbind (ensure (tk_status row = ''PREPARED'') (AppError 409 ''Prepare the settlement first'')) (\<lambda>_.
     rbind (ensure (st_inputs payload = settlementInputs k db)
       (AppError 409 ''Settlement inputs changed; prepare the settlement again'')) (\<lambda>_.
     rbind (require (keyed_row k ''PAYROLL'' (sd_sources db)) (PlainError ''TypeError'')) (\<lambda>source.
     rbind (ensure (tk_version source = st_sourceVersion payload \<and> li_sourceVersion input = tk_version source)
       (AppError 409 ''Payroll inputs changed; prepare the settlement again'')) (\<lambda>_.
     rbind (ensure (list_all completed (rows_of k (sd_clearances db)))
       (AppError 409 ''Complete all departmental clearances before payroll handoff'')) (\<lambda>_.
     rbind (use_approval ru ''SETTLEMENT'' (show_nat (tk_id row) @ ''@'' @ show_nat (tk_version row)) True db) (\<lambda>db.
     rbind (emit env s ''hr.separation.settlement_ready.v1'' db) (\<lambda>db.
     Inr (add_delivery \<lparr>dv_key = ''settlement:'' @ show_nat (tk_id row) @ '':'' @ show_nat (tk_version row),
        dv_kind = ''PAYROLL_HANDOFF'', dv_employeeCode = sx_employeeCode s, dv_sep = k, dv_recipients = [], dv_message = [],
        dv_row = Some (tk_id row, tk_version row + 1)\<rparr> db)))))))))"

definition settlementAction :: "rules \<Rightarrow> sep_env \<Rightarrow> sep_ref \<Rightarrow> settle_input \<Rightarrow> sep_db \<Rightarrow> hr_error + sep_db \<times> separation" where
  "settlementAction ru env ref input db =
    rbind (permit env ''hr.separation.settle'') (\<lambda>_.
    rbind (authorizedSeparation env True ref db) (\<lambda>s.
    rbind (workstream_active s) (\<lambda>_.
    rbind (ensure (sx_employeeCode s \<noteq> who_code env) (AppError 403 ''Settlement requires an independent payroll officer'')) (\<lambda>_.
    rbind (require (first_row (sx_id s) (sd_settlements db)) (PlainError ''TypeError'')) (\<lambda>row.
    rbind (ensure (tk_version row = li_version input) (AppError 409 ''This record changed'')) (\<lambda>_.
    rbind (if li_action input = ''PREPARE'' then
        rbind (prepare_settlement ru env s row input db) (\<lambda>payload. Inr ((payload, ''PREPARED''), db))
      else if li_action input = ''HANDOFF'' then
        rbind (handoff_settlement ru env s row input db) (\<lambda>db. Inr ((tk_payload row, ''HANDED_OFF''), db))
      else
        rbind (ensure (tk_status row = ''HANDED_OFF'' \<and> li_receiptRef input \<noteq> None)
          (AppError 409 ''A payroll receipt is required for the handed-off settlement'')) (\<lambda>_.
        rbind (ensure (owns_code env (po_payrollOwner (sx_policy s)))
          (AppError 403 ''Only the configured payroll owner can acknowledge receipt'')) (\<lambda>_.
        Inr (((tk_payload row)\<lparr>st_receiptRef := li_receiptRef input\<rparr>, ''COMPLETED''), db)))) (\<lambda>((payload, status), db).
    touch env s (''SETTLEMENT_'' @ li_action input) (''SETTLEMENT_'' @ li_action input) id
      (db\<lparr>sd_settlements := updateTask env row (finish_row (li_evidence input) payload status) (sd_settlements db)\<rparr>))))))))"

section \<open>Source snapshots\<close>

definition storable :: "source_payload \<Rightarrow> hr_error + unit" where
  "storable input =
    rbind (ensure (sr_source input = ''ASSETS'' \<longrightarrow> sr_assets input \<noteq> None) (AppError 422 ''Asset snapshot must explicitly include an array'')) (\<lambda>_.
    rbind (ensure (sr_source input = ''PAYROLL'' \<longrightarrow> sr_financial input \<noteq> None) (AppError 422 ''Payroll financial snapshot is required'')) (\<lambda>_.
    ensure (sr_source input = ''INCENTIVES'' \<longrightarrow> sr_clawbackMinor input \<noteq> None) (AppError 422 ''Explicit incentive clawback amount is required'')))"

definition asset_department :: "separation \<Rightarrow> department_rule option" where
  "asset_department s =
    (case find (\<lambda>d. dp_code d = ''ADMINISTRATION'') (po_departments (sx_policy s)) of
       Some d \<Rightarrow> Some d | None \<Rightarrow> find (\<lambda>d. dp_code d = ''HR'') (po_departments (sx_policy s)))"

definition store_asset :: "sep_env \<Rightarrow> separation \<Rightarrow> source_payload \<Rightarrow> department_rule \<Rightarrow> string \<times> string \<Rightarrow> sep_db \<Rightarrow> hr_error + sep_db" where
  "store_asset env s input d a db =
    (case keyed_row (sx_id s) (fst a) (sd_assets db) of
       Some old \<Rightarrow>
         rbind (ensure (as_serial (tk_payload old) = snd a)
           (AppError 409 ''Asset serial changed; reconcile custody evidence before clearance'')) (\<lambda>_. Inr db)
     | None \<Rightarrow>
         rbind (createTask env s (fst a)
           \<lparr>as_ref = fst a, as_serial = snd a, as_sourceRef = sr_sourceRef input, as_disposition = None, as_condition = [],
            as_serialVerified = False, as_approvalRef = None, as_approvedBy = None, as_recoveryMinor = 0\<rparr>
           (Some (dp_owner d)) (sx_lastWorkingAt s) (sd_assets db) db) (\<lambda>(rows, db, _). Inr (db\<lparr>sd_assets := rows\<rparr>)))"

definition write_source :: "sep_env \<Rightarrow> separation \<Rightarrow> source_payload \<Rightarrow> sep_db \<Rightarrow> hr_error + sep_db" where
  "write_source env s input db =
    (case keyed_row (sx_id s) (sr_source input) (sd_sources db) of
       Some old \<Rightarrow> Inr (db\<lparr>sd_sources := updateTask env old (\<lambda>r. r\<lparr>tk_payload := input, tk_evidence := sr_evidence input\<rparr>) (sd_sources db)\<rparr>)
     | None \<Rightarrow>
         rbind (createTask env s (sr_source input) input (case po_hrCodes (sx_policy s) of [] \<Rightarrow> None | c # _ \<Rightarrow> Some c)
           (sx_lastWorkingAt s) (sd_sources db) db) (\<lambda>(rows, db, _). Inr (db\<lparr>sd_sources := rows\<rparr>)))"

definition storeSourceSnapshot :: "sep_env \<Rightarrow> separation \<Rightarrow> source_payload \<Rightarrow> sep_db \<Rightarrow> hr_error + sep_db \<times> separation" where
  "storeSourceSnapshot env s input db =
    rbind (ensure (sr_employeeCode input = sx_employeeCode s \<and> sr_sep input = sx_id s)
      (AppError 422 ''Source identity does not match the separation'')) (\<lambda>_.
    rbind (ensure (sr_asOf input \<le> sv_now env + 300000) (AppError 422 ''Source timestamp is in the future'')) (\<lambda>_.
    let existing = keyed_row (sx_id s) (sr_source input) (sd_sources db) in
    rbind (ensure (case existing of None \<Rightarrow> True | Some old \<Rightarrow> sr_sourceVersion (tk_payload old) \<le> sr_sourceVersion input)
      (AppError 409 ''Source version is stale'')) (\<lambda>_.
    if (case existing of None \<Rightarrow> False | Some old \<Rightarrow> sr_sourceVersion (tk_payload old) = sr_sourceVersion input) then
      rbind (ensure (map_option tk_payload existing = Some input)
        (AppError 409 ''Source revision was replayed with different content'')) (\<lambda>_. Inr (db, s))
    else
      rbind (storable input) (\<lambda>_.
      rbind (ensure (\<not> settlement_held (sx_id s) db)
        (AppError 409 ''Payroll already holds the settlement; reconcile the handoff before changing source data'')) (\<lambda>_.
      rbind (write_source env s input db) (\<lambda>db.
      rbind (if sr_source input = ''ASSETS'' then
          rbind (require (asset_department s) (AppError 422 ''Configure Administration or HR asset custody ownership'')) (\<lambda>d.
          rfold (store_asset env s input d) (case sr_assets input of None \<Rightarrow> [] | Some xs \<Rightarrow> xs) db)
        else Inr db) (\<lambda>db.
      touch env s ''SOURCE_SYNCED'' (sr_source input @ '' revision '' @ show_nat (sr_sourceVersion input)) id db)))))))"

definition syncSource :: "sep_env \<Rightarrow> sep_ref \<Rightarrow> source_payload \<Rightarrow> sep_db \<Rightarrow> hr_error + sep_db \<times> separation" where
  "syncSource env ref input db =
    rbind (permit env ''hr.separation.integrate'') (\<lambda>_.
    rbind (authorizedSeparation env True ref db) (\<lambda>s. storeSourceSnapshot env s input db))"

section \<open>The background worker\<close>

definition sweep_env :: "int \<Rightarrow> sep_env" where
  "sweep_env now = \<lparr>sv_who = None, sv_now = now, sv_isAdmin = False, sv_permissions = [], sv_identityCodes = []\<rparr>"

definition deferral_due :: "rules \<Rightarrow> sep_env \<Rightarrow> separation \<Rightarrow> sep_db \<Rightarrow> hr_error + sep_db \<times> separation" where
  "deferral_due ru env s db =
    (if (case sx_deferredUntil s of None \<Rightarrow> False
         | Some t \<Rightarrow> t div 86400000 \<le> ru_companyDate ru (sv_now env) (po_timeZone (sx_policy s)))
     then change ru env s ManagerReview ''DEFERRAL_DUE'' ''Deferred review date reached''
       (\<lambda>r. r\<lparr>sx_deferredUntil := None, sx_recommendation := None, sx_verification := None, sx_verifiedBy := None\<rparr>) None db
     else Inr (db, s))"

definition access_due :: "sep_env \<Rightarrow> separation \<Rightarrow> sep_db \<Rightarrow> hr_error + sep_db \<times> separation" where
  "access_due env s db =
    (if sx_approvedAt s \<noteq> None \<and> null0 (sx_lastWorkingAt s) \<le> sv_now env \<and> sx_accessDueAt s = None then
       rbind (touch env s ''ACCESS_DUE'' ''Last working time reached'' (\<lambda>r. r\<lparr>sx_accessDueAt := Some (sv_now env)\<rparr>) db) (\<lambda>(db, s).
       rbind (emit env s ''hr.separation.access_due.v1'' db) (\<lambda>db.
       Inr (db\<lparr>sd_expired := sd_expired db @ [sx_employeeCode s]\<rparr>, s)))
     else Inr (db, s))"

text \<open>A reminder for an open task that is overdue or near: one delivery per task and company day.\<close>

definition remind :: "rules \<Rightarrow> sep_env \<Rightarrow> separation \<Rightarrow> 'p task_row \<Rightarrow> sep_db \<Rightarrow> sep_db" where
  "remind ru env s t db =
    (let overdue = null0 (tk_dueAt t) \<le> sv_now env;
         remaining = - ((sv_now env - null0 (sx_lastWorkingAt s)) div 86400000);
         key = ''reminder:'' @ show_nat (tk_id t) @ '':'' @ show_nat (nat (ru_companyDate ru (sv_now env) (po_timeZone (sx_policy s)))) in
     if overdue \<or> remaining \<le> po_reminderDays (sx_policy s) then
       let db = notify s (if overdue then ''TASK_OVERDUE'' else ''EXIT_DUE_SOON'') key db in
       (case tk_owner t of None \<Rightarrow> db
        | Some c \<Rightarrow> db\<lparr>sd_deliveries := map (\<lambda>d. if dv_key d = key
            then d\<lparr>dv_recipients := nub (dv_recipients d @ [c]), dv_row := Some (tk_id t, 0)\<rparr> else d) (sd_deliveries db)\<rparr>)
     else db)"

definition remind_all :: "rules \<Rightarrow> sep_env \<Rightarrow> separation \<Rightarrow> sep_db \<Rightarrow> sep_db" where
  "remind_all ru env s db =
    (let due = (\<lambda>rows. filter (\<lambda>t. \<not> completed t) (rows_of (sx_id s) rows));
         db = fold (remind ru env s) (due (sd_sessions db)) db;
         db = fold (remind ru env s) (filter (\<lambda>t. \<not> completed t) (rows_of (sx_id s) (sd_transfers db))) db;
         db = fold (remind ru env s) (filter (\<lambda>t. \<not> completed t) (rows_of (sx_id s) (sd_assets db))) db;
         db = fold (remind ru env s) (filter (\<lambda>t. \<not> completed t) (rows_of (sx_id s) (sd_access db))) db
     in fold (remind ru env s) (filter (\<lambda>t. \<not> completed t) (rows_of (sx_id s) (sd_clearances db))) db)"

text \<open>One separation of the sweep, read again under its lock.\<close>

definition sweep_separation :: "rules \<Rightarrow> int \<Rightarrow> nat \<Rightarrow> sep_db \<Rightarrow> hr_error + sep_db" where
  "sweep_separation ru now k db =
    (let env = sweep_env now in
     rbind (require (find (\<lambda>s. sx_id s = k) (sd_separations db)) (PlainError ''TypeError'')) (\<lambda>s.
     if terminal (sx_state s) then Inr db
     else
       rbind (deferral_due ru env s db) (\<lambda>(db, s).
       rbind (access_due env s db) (\<lambda>(db, s).
       Inr (if sx_approvedAt s = None then db else remind_all ru env s db)))))"

definition sweepCompany :: "rules \<Rightarrow> int \<Rightarrow> sep_db \<Rightarrow> hr_error + sep_db" where
  "sweepCompany ru now db =
    rfold (sweep_separation ru now) (map sx_id (filter (\<lambda>s. \<not> terminal (sx_state s)) (sd_separations db))) db"

text \<open>What a confirmed payroll hand-over does to the settlement sheet.\<close>

definition accept_receipt :: "sep_env \<Rightarrow> separation \<Rightarrow> nat \<Rightarrow> nat \<Rightarrow> string \<Rightarrow> sep_db \<Rightarrow> hr_error + sep_db \<times> separation" where
  "accept_receipt env s ref version receipt db =
    rbind (ensure (receipt \<noteq> []) (AppError 502 ''Payroll did not confirm receipt'')) (\<lambda>_.
    rbind (require (find (\<lambda>t. tk_id t = ref) (sd_settlements db)) (PlainError ''TypeError'')) (\<lambda>sheet.
    rbind (ensure (tk_version sheet = version \<and> tk_status sheet = ''HANDED_OFF'')
      (AppError 409 ''Settlement changed during handoff'')) (\<lambda>_.
    touch env s ''PAYROLL_ACKNOWLEDGED'' ''Verified payroll receipt accepted'' id
      (db\<lparr>sd_settlements := map (\<lambda>r. if tk_sep r = tk_sep sheet \<and> tk_id r = tk_id sheet
          then r\<lparr>tk_status := ''COMPLETED'', tk_payload := (tk_payload sheet)\<lparr>st_receiptRef := Some receipt\<rparr>,
            tk_version := tk_version r + 1\<rparr> else r) (sd_settlements db)\<rparr>))))"

end
