(* ===== verification/CaseLog.thy ===== *)
theory CaseLog
  imports Workstreams
begin

text \<open>
  The abstract lifecycle of a separation: the writes of a case row, one constructor per kind, and the
  refinement of every command to a sequence of them.
\<close>

section \<open>Results of a command\<close>

definition post :: "('a \<Rightarrow> bool) \<Rightarrow> 'e + 'a \<Rightarrow> bool" where
  "post P m \<longleftrightarrow> (\<forall>x. m = Inr x \<longrightarrow> P x)"

named_theorems post_rules \<open>what a command that returns has established\<close>

lemma post_Inr [post_rules]: "P x \<Longrightarrow> post P (Inr x)" by (simp add: post_def)
lemma post_Inl [post_rules]: "post P (Inl e)" by (simp add: post_def)
lemma post_ensure [post_rules]: "(b \<Longrightarrow> P ()) \<Longrightarrow> post P (ensure b e)" by (simp add: post_def ensure_def)

lemma post_bind: "post Q m \<Longrightarrow> (\<And>x. Q x \<Longrightarrow> post P (f x)) \<Longrightarrow> post P (rbind m f)"
  by (cases m) (simp_all add: post_def)

lemma post_bind_any: "(\<And>x. m = Inr x \<Longrightarrow> post P (f x)) \<Longrightarrow> post P (rbind m f)"
  by (cases m) (simp_all add: post_def)

lemma post_ensure_bind [post_rules]: "(b \<Longrightarrow> post P (f ())) \<Longrightarrow> post P (rbind (ensure b e) f)"
  by (simp add: post_def)

lemma post_if [post_rules]: "(b \<Longrightarrow> post P m) \<Longrightarrow> (\<not> b \<Longrightarrow> post P n) \<Longrightarrow> post P (if b then m else n)"
  by simp

lemma post_option [post_rules]:
  "(x = None \<Longrightarrow> post P m) \<Longrightarrow> (\<And>y. x = Some y \<Longrightarrow> post P (f y)) \<Longrightarrow> post P (case x of None \<Rightarrow> m | Some y \<Rightarrow> f y)"
  by (cases x) simp_all

lemma post_prod [post_rules]: "(\<And>a b. x = (a, b) \<Longrightarrow> post P (f a b)) \<Longrightarrow> post P (case x of (a, b) \<Rightarrow> f a b)"
  by (cases x) simp

lemma post_Let [post_rules]: "(\<And>x. x = a \<Longrightarrow> post P (f x)) \<Longrightarrow> post P (let x = a in f x)"
  by simp

lemma post_mono: "post P m \<Longrightarrow> (\<And>x. P x \<Longrightarrow> Q x) \<Longrightarrow> post Q m"
  by (simp add: post_def)

lemma postD: "post P m \<Longrightarrow> m = Inr x \<Longrightarrow> P x"
  by (simp add: post_def)

lemma post_rfold:
  assumes "\<And>x s. Q s \<Longrightarrow> post Q (f x s)" and "Q s"
  shows "post Q (rfold f xs s)"
  using assms(2)
proof (induction xs arbitrary: s)
  case Nil
  then show ?case by (simp add: post_def)
next
  case (Cons x xs)
  then show ?case by (auto intro: post_bind assms(1))
qed

section \<open>The abstract lifecycle\<close>

inductive lifecycle :: "rules \<Rightarrow> sep_env \<Rightarrow> separation \<Rightarrow> separation \<Rightarrow> bool" for ru env where
  edited: "sx_state s = Draft \<Longrightarrow> lifecycle ru env s (s\<lparr>sx_proposedAt := t, sx_reasonCode := c, sx_reason := r, sx_documents := d,
    sx_recommendation := None, sx_verification := None, sx_verifiedBy := None, sx_deferredUntil := None, sx_version := sx_version s + 1\<rparr>)"
| submitted: "sx_state s = Draft \<Longrightarrow> owns_code env (sx_createdBy s) \<Longrightarrow>
    lifecycle ru env s (s\<lparr>sx_submittedAt := Some (sv_now env), sx_state := Submitted, sx_version := sx_version s + 1\<rparr>)"
| under_review: "sx_state s = Submitted \<Longrightarrow> lifecycle ru env s (s\<lparr>sx_state := ManagerReview, sx_version := sx_version s + 1\<rparr>)"
| recommended: "sx_state s = ManagerReview \<Longrightarrow> rc_interimOwnerCode r \<noteq> sx_employeeCode s \<Longrightarrow>
    lifecycle ru env s (s\<lparr>sx_recommendation := Some r, sx_managerCode := m, sx_state := HrVerification, sx_version := sx_version s + 1\<rparr>)"
| verified: "ru_transition ru (sx_state s) ManagementDecision \<Longrightarrow> who_code env \<noteq> sx_employeeCode s \<Longrightarrow>
    lifecycle ru env s (s\<lparr>sx_verification := Some f, sx_verifiedBy := Some (who_code env), sx_state := ManagementDecision, sx_version := sx_version s + 1\<rparr>)"
| reverted: "sx_state s \<in> {ManagerReview, HrVerification, ManagementDecision} \<Longrightarrow> target \<in> {HrVerification, Draft} \<Longrightarrow>
    lifecycle ru env s (s\<lparr>sx_recommendation := (if target = Draft then None else sx_recommendation s), sx_verification := None,
      sx_verifiedBy := None, sx_deferredUntil := None, sx_state := target, sx_version := sx_version s + 1\<rparr>)"
| deferred: "sx_state s = ManagementDecision \<Longrightarrow> lifecycle ru env s (s\<lparr>sx_deferredUntil := Some t, sx_version := sx_version s + 1\<rparr>)"
| deferral_ended: "sx_deferredUntil s \<noteq> None \<Longrightarrow> lifecycle ru env s (s\<lparr>sx_deferredUntil := None, sx_recommendation := None,
    sx_verification := None, sx_verifiedBy := None, sx_state := ManagerReview, sx_version := sx_version s + 1\<rparr>)"
| approved: "sx_state s = ManagementDecision \<Longrightarrow> sx_verification s \<noteq> None \<Longrightarrow> sx_deferredUntil s = None \<Longrightarrow> sv_now env \<le> t \<Longrightarrow>
    lifecycle ru env s (s\<lparr>sx_approvedAt := Some (sv_now env), sx_lastWorkingAt := Some t, sx_state := Approved, sx_version := sx_version s + 1\<rparr>)"
| on_notice: "sx_state s = Approved \<Longrightarrow> lifecycle ru env s (s\<lparr>sx_state := NoticePeriod, sx_version := sx_version s + 1\<rparr>)"
| noticed: "sx_state s \<in> {NoticePeriod, HandoverInProgress, Clearance} \<Longrightarrow>
    lifecycle ru env s (s\<lparr>sx_lastWorkingAt := t, sx_version := sx_version s + 1\<rparr>)"
| withdrawal: "sx_approvedAt s \<noteq> None \<Longrightarrow> lifecycle ru env s (s\<lparr>sx_withdrawalAt := t, sx_version := sx_version s + 1\<rparr>)"
| withdrawal_refused: "sx_withdrawalAt s \<noteq> None \<Longrightarrow> lifecycle ru env s (s\<lparr>sx_withdrawalAt := None, sx_version := sx_version s + 1\<rparr>)"
| ended: "ru_transition ru (sx_state s) target \<Longrightarrow> target \<in> {Withdrawn, Cancelled} \<Longrightarrow> t \<in> {sx_withdrawalAt s, None} \<Longrightarrow>
    lifecycle ru env s (s\<lparr>sx_withdrawalAt := t, sx_state := target, sx_version := sx_version s + 1\<rparr>)"
| handed_over: "ru_transition ru (sx_state s) target \<Longrightarrow> target \<in> {HandoverInProgress, Clearance} \<Longrightarrow>
    lifecycle ru env s (s\<lparr>sx_state := target, sx_version := sx_version s + 1\<rparr>)"
| exited: "ru_transition ru (sx_state s) ExitCompleted \<Longrightarrow> sx_lastWorkingAt s = Some t \<Longrightarrow> t \<le> sv_now env \<Longrightarrow>
    lifecycle ru env s (s\<lparr>sx_completedAt := Some (sv_now env), sx_rehire := Some b, sx_state := ExitCompleted, sx_version := sx_version s + 1\<rparr>)"
| access_noted: "sx_approvedAt s \<noteq> None \<Longrightarrow> lifecycle ru env s (s\<lparr>sx_accessDueAt := t, sx_version := sx_version s + 1\<rparr>)"
| recorded: "lifecycle ru env s (s\<lparr>sx_version := sx_version s + 1\<rparr>)"

text \<open>The introduction rules in the form simplification leaves the version in.\<close>

lemmas lifecycle_moves = lifecycle.intros [unfolded Suc_eq_plus1 [symmetric]]

lemma lifecycle_identity:
  "lifecycle ru env s s' \<Longrightarrow> sx_id s' = sx_id s \<and> sx_employeeCode s' = sx_employeeCode s \<and> sx_policy s' = sx_policy s \<and>
     sx_category s' = sx_category s \<and> sx_gradeCode s' = sx_gradeCode s \<and> sx_version s' = sx_version s + 1"
  by (cases rule: lifecycle.cases) auto

section \<open>Steps of the database\<close>

definition row_of :: "nat \<Rightarrow> sep_db \<Rightarrow> separation option" where
  "row_of k db = find (\<lambda>s. sx_id s = k) (sd_separations db)"

definition same_tasks :: "nat \<Rightarrow> sep_db \<Rightarrow> sep_db \<Rightarrow> bool" where
  "same_tasks k db db' \<longleftrightarrow>
    rows_of k (sd_notices db') = rows_of k (sd_notices db) \<and> rows_of k (sd_plans db') = rows_of k (sd_plans db) \<and>
    rows_of k (sd_sessions db') = rows_of k (sd_sessions db) \<and> rows_of k (sd_transfers db') = rows_of k (sd_transfers db) \<and>
    rows_of k (sd_assets db') = rows_of k (sd_assets db) \<and> rows_of k (sd_access db') = rows_of k (sd_access db) \<and>
    rows_of k (sd_clearances db') = rows_of k (sd_clearances db) \<and> rows_of k (sd_interviews db') = rows_of k (sd_interviews db) \<and>
    rows_of k (sd_settlements db') = rows_of k (sd_settlements db) \<and> rows_of k (sd_documents db') = rows_of k (sd_documents db) \<and>
    rows_of k (sd_sources db') = rows_of k (sd_sources db)"

text \<open>A quiet step writes neither a case row nor the history, and no workstream row of another case.\<close>

definition quiet :: "nat \<Rightarrow> sep_db \<Rightarrow> sep_db \<Rightarrow> bool" where
  "quiet j db db' \<longleftrightarrow>
    sd_separations db' = sd_separations db \<and> sd_audit db' = sd_audit db \<and> sd_next db \<le> sd_next db' \<and>
    (\<forall>k. k \<noteq> j \<longrightarrow> same_tasks k db db')"

definition history_entry :: "separation \<Rightarrow> separation \<Rightarrow> transition \<Rightarrow> bool" where
  "history_entry s s' t \<longleftrightarrow>
    tn_sep t = sx_id s \<and> tn_version t = sx_version s' \<and> tn_from t = sx_state s \<and> tn_to t = sx_state s'"

text \<open>A move replaces the row of an open case along the lifecycle and appends its history entry.\<close>

definition moved :: "rules \<Rightarrow> sep_env \<Rightarrow> bool \<Rightarrow> nat \<Rightarrow> sep_db \<Rightarrow> sep_db \<Rightarrow> bool" where
  "moved ru env may_exit j db db' \<longleftrightarrow>
    (\<exists>s s' t. row_of j db = Some s \<and> \<not> terminal (sx_state s) \<and> lifecycle ru env s s' \<and>
       (may_exit \<or> sx_state s' \<noteq> ExitCompleted) \<and> history_entry s s' t \<and>
       sd_separations db' = map (\<lambda>r. if sx_id r = j then s' else r) (sd_separations db) \<and>
       sd_audit db' = sd_audit db @ [t] \<and> sd_next db' = sd_next db \<and> (\<forall>k. same_tasks k db db'))"

definition case_step :: "rules \<Rightarrow> sep_env \<Rightarrow> bool \<Rightarrow> nat \<Rightarrow> sep_db \<Rightarrow> sep_db \<Rightarrow> bool" where
  "case_step ru env may_exit j db db' \<longleftrightarrow> quiet j db db' \<or> moved ru env may_exit j db db'"

definition live :: "rules \<Rightarrow> sep_env \<Rightarrow> bool \<Rightarrow> nat \<Rightarrow> sep_db \<Rightarrow> sep_db \<times> separation \<Rightarrow> bool" where
  "live ru env may_exit j db0 ds \<longleftrightarrow>
    (case_step ru env may_exit j)\<^sup>*\<^sup>* db0 (fst ds) \<and> row_of j (fst ds) = Some (snd ds) \<and> sx_id (snd ds) = j \<and>
    distinct (map sx_id (sd_separations (fst ds)))"

lemma same_tasks_refl [simp]: "same_tasks k db db" by (simp add: same_tasks_def)

lemma same_tasks_trans: "same_tasks k a b \<Longrightarrow> same_tasks k b c \<Longrightarrow> same_tasks k a c"
  by (simp add: same_tasks_def)

lemma quiet_refl [simp]: "quiet j db db" by (simp add: quiet_def)

lemma quiet_trans: "quiet j a b \<Longrightarrow> quiet j b c \<Longrightarrow> quiet j a c"
  by (auto simp: quiet_def intro: same_tasks_trans)

lemma quiet_row: "quiet j db db' \<Longrightarrow> row_of k db' = row_of k db"
  by (simp add: quiet_def row_of_def)

lemma live_quiet: "live ru env x j db0 (db, s) \<Longrightarrow> quiet j db db' \<Longrightarrow> live ru env x j db0 (db', s)"
  using quiet_row [of j db db' j]
  by (auto simp: live_def case_step_def quiet_def intro: rtranclp.rtrancl_into_rtrancl)

text \<open>The tables outside the cases.\<close>

lemma quiet_aside [simp]:
  "quiet j db (db\<lparr>sd_deliveries := d\<rparr>)" "quiet j db (db\<lparr>sd_events := e\<rparr>)" "quiet j db (db\<lparr>sd_approvals := a\<rparr>)"
  "quiet j db (db\<lparr>sd_employees := m\<rparr>)" "quiet j db (db\<lparr>sd_expired := p\<rparr>)"
  by (simp_all add: quiet_def same_tasks_def)

lemma rows_of_update:
  assumes "tk_sep t \<noteq> k" and "\<And>r. tk_sep (f r) = tk_sep r"
  shows "rows_of k (updateTask env t f rows) = rows_of k rows"
  using assms by (induction rows) (auto simp: updateTask_def rows_of_def)

lemma rows_of_append [simp]: "rows_of k (xs @ ys) = rows_of k xs @ rows_of k ys"
  by (simp add: rows_of_def)

lemma rows_of_single [simp]: "rows_of k [t] = (if tk_sep t = k then [t] else [])"
  by (simp add: rows_of_def)

lemma rows_of_due_open [simp]: "j \<noteq> k \<Longrightarrow> rows_of k (due_open j t rows) = rows_of k rows"
  by (induction rows) (auto simp: due_open_def rows_of_def)

lemma createTask_post:
  "post (\<lambda>(rows', db', t). rows' = rows @ [t] \<and> tk_sep t = sx_id s \<and> db' = db\<lparr>sd_next := sd_next db + 1\<rparr>)
     (createTask env s key payload own due rows db)"
  unfolding createTask_def add_row_def rbind_assoc
  by (rule post_bind_any, rule post_Let, rule post_bind_any) (auto simp: result_simps post_def)

section \<open>Quiet operations\<close>

lemma quiet_post_trans: "quiet j a b \<Longrightarrow> post (quiet j b) m \<Longrightarrow> post (quiet j a) m"
  by (auto simp: post_def intro: quiet_trans)

lemma quiet_bind: "post (quiet j db) m \<Longrightarrow> (\<And>db'. post (quiet j db') (f db')) \<Longrightarrow> post (quiet j db) (rbind m f)"
  by (rule post_bind, assumption) (rule quiet_post_trans)

lemma quiet_rfold: "(\<And>x db. post (quiet j db) (f x db)) \<Longrightarrow> post (quiet j db) (rfold f xs db)"
  by (rule post_rfold [where Q = "quiet j db"]) (auto intro: quiet_post_trans)

text \<open>Adding a row to one of the workstream tables.\<close>

lemma add_row_quiet:
  assumes "\<And>rows db' t. rows = get db @ [t] \<Longrightarrow> tk_sep t = j \<Longrightarrow> db' = db\<lparr>sd_next := sd_next db + 1\<rparr> \<Longrightarrow> quiet j db (put rows db')"
    and "sx_id s = j"
  shows "post (quiet j db) (rbind (createTask env s key payload own due (get db) db) (\<lambda>(rows, db, _). Inr (put rows db)))"
  by (rule post_bind [OF createTask_post]) (use assms in \<open>auto simp: post_def\<close>)

lemma add_plan_quiet: "sx_id s = j \<Longrightarrow> post (quiet j db) (add_plan env s r db)"
  unfolding add_plan_def
  by (rule add_row_quiet [where put = "\<lambda>rows db. db\<lparr>sd_plans := rows\<rparr>"]) (auto simp: quiet_def same_tasks_def)

lemma add_session_quiet: "sx_id s = j \<Longrightarrow> post (quiet j db) (add_session env s r it db)"
  unfolding add_session_def
  by (rule add_row_quiet [where put = "\<lambda>rows db. db\<lparr>sd_sessions := rows\<rparr>"]) (auto simp: quiet_def same_tasks_def)

lemma add_transfer_quiet: "sx_id s = j \<Longrightarrow> post (quiet j db) (add_transfer env s r prefix kind it db)"
  unfolding add_transfer_def
  by (rule add_row_quiet [where put = "\<lambda>rows db. db\<lparr>sd_transfers := rows\<rparr>"]) (auto simp: quiet_def same_tasks_def)

lemma add_access_quiet: "sx_id s = j \<Longrightarrow> post (quiet j db) (add_access env s sys db)"
  unfolding add_access_def
  by (rule add_row_quiet [where put = "\<lambda>rows db. db\<lparr>sd_access := rows\<rparr>"]) (auto simp: quiet_def same_tasks_def)

lemma add_clearance_quiet: "sx_id s = j \<Longrightarrow> post (quiet j db) (add_clearance env s d db)"
  unfolding add_clearance_def
  by (rule add_row_quiet [where put = "\<lambda>rows db. db\<lparr>sd_clearances := rows\<rparr>"]) (auto simp: quiet_def same_tasks_def)

lemma add_interview_quiet: "sx_id s = j \<Longrightarrow> post (quiet j db) (add_interview env s db)"
  unfolding add_interview_def
  by (rule add_row_quiet [where put = "\<lambda>rows db. db\<lparr>sd_interviews := rows\<rparr>"]) (auto simp: quiet_def same_tasks_def)

lemma add_settlement_quiet: "sx_id s = j \<Longrightarrow> post (quiet j db) (add_settlement env s db)"
  unfolding add_settlement_def
  by (rule add_row_quiet [where put = "\<lambda>rows db. db\<lparr>sd_settlements := rows\<rparr>"]) (auto simp: quiet_def same_tasks_def)

lemma add_fetch_quiet: "post (quiet j db) (add_fetch s source db)"
  unfolding add_fetch_def by (auto intro!: post_rules)

lemma generateWorkstreams_quiet: "sx_id s = j \<Longrightarrow> post (quiet j db) (generateWorkstreams env s db)"
  unfolding generateWorkstreams_def
  by (rule post_bind_any)
    (intro quiet_bind quiet_rfold add_plan_quiet add_session_quiet add_transfer_quiet add_access_quiet add_clearance_quiet
      add_interview_quiet add_settlement_quiet add_fetch_quiet; assumption)

lemma generateDocument_quiet:
  assumes "sx_id s = j"
  shows "post (quiet j db) (generateDocument ru env s kind db)"
  unfolding generateDocument_def
  by (rule post_bind_any, rule post_if, rule post_Inr, rule quiet_refl, rule post_bind [OF createTask_post])
    (use assms in \<open>auto simp: post_def quiet_def same_tasks_def rows_of_update\<close>)

lemma write_notice_quiet:
  assumes "sx_id s = j"
  shows "post (quiet j db) (write_notice env s payload due db)"
  unfolding write_notice_def
proof (rule post_option)
  assume "first_row (sx_id s) (sd_notices db) = None"
  show "post (quiet j db) (rbind (createTask env s ''NOTICE'' payload (case po_hrCodes (sx_policy s) of [] \<Rightarrow> None | c # _ \<Rightarrow> Some c)
      (Some due) (sd_notices db) db) (\<lambda>(rows, db, _). Inr (db\<lparr>sd_notices := rows\<rparr>)))"
    by (rule add_row_quiet [where put = "\<lambda>rows db. db\<lparr>sd_notices := rows\<rparr>", OF _ assms]) (auto simp: quiet_def same_tasks_def)
next
  fix n
  assume "first_row (sx_id s) (sd_notices db) = Some n"
  then have "tk_sep n = j" using assms by (auto simp: first_row_def find_Some_iff)
  then show "post (quiet j db) (Inr (db\<lparr>sd_notices := updateTask env n (\<lambda>r. r\<lparr>tk_payload := payload, tk_dueAt := Some due\<rparr>) (sd_notices db)\<rparr>))"
    by (simp add: post_def quiet_def same_tasks_def rows_of_update)
qed

lemma emit_quiet: "post (quiet j db) (emit env s name db)"
  unfolding emit_def by (auto intro!: post_rules)

lemma add_delivery_quiet [simp]: "quiet j db (add_delivery d db)"
  by (simp add: add_delivery_def)

lemma notify_quiet [simp]: "quiet j db (notify s m key db)"
  by (simp add: notify_def)

lemma use_approval_quiet: "post (quiet j db) (use_approval ru kind ref ok db)"
  unfolding use_approval_def by (auto intro!: post_rules split: option.split)

section \<open>Writes of a case\<close>

lemma find_map_replace:
  assumes "\<And>r. sx_id r = j \<Longrightarrow> sx_id (f r) = j"
  shows "find (\<lambda>s. sx_id s = j) (map (\<lambda>r. if sx_id r = j then f r else r) xs) = map_option f (find (\<lambda>s. sx_id s = j) xs)"
  using assms by (induction xs) auto

lemma map_replace_unique:
  assumes "find (\<lambda>s. sx_id s = j) xs = Some s" and "distinct (map sx_id xs)"
  shows "map (\<lambda>r. if sx_id r = j then f r else r) xs = map (\<lambda>r. if sx_id r = j then f s else r) xs"
proof -
  have "r = s" if "r \<in> set xs" "sx_id r = j" for r
    using assms that by (auto simp: find_Some_iff in_set_conv_nth distinct_conv_nth)
  then show ?thesis by (intro map_cong) auto
qed

lemma distinct_replace:
  assumes "distinct (map sx_id xs)" and "sx_id s' = j"
  shows "distinct (map sx_id (map (\<lambda>r. if sx_id r = j then s' else r) xs))"
proof -
  have eq: "map sx_id (map (\<lambda>r. if sx_id r = j then s' else r) xs) = map sx_id xs"
    using assms(2) by (induction xs) auto
  show ?thesis unfolding eq by (rule assms(1))
qed

text \<open>\<open>logged\<close>: the row and the history entry are written together, and only aside tables change after.\<close>

lemma live_moved:
  assumes l: "live ru env x j db0 (db, s)" and open_case: "\<not> terminal (sx_state s)"
    and step: "lifecycle ru env s s'" and exit_ok: "x \<or> sx_state s' \<noteq> ExitCompleted"
    and entry: "history_entry s s' t"
    and db': "sd_separations db' = map (\<lambda>r. if sx_id r = j then s' else r) (sd_separations db)"
      "sd_audit db' = sd_audit db @ [t]" "sd_next db' = sd_next db" "\<And>k. same_tasks k db db'"
  shows "live ru env x j db0 (db', s')"
proof -
  have id: "sx_id s' = j" using lifecycle_identity [OF step] l by (simp add: live_def)
  have m: "moved ru env x j db db'"
    unfolding moved_def using l open_case step exit_ok entry db' by (auto simp: live_def)
  have row: "row_of j db' = Some s'"
    using l db'(1) id find_map_replace [of j "\<lambda>_. s'" "sd_separations db"] by (auto simp: live_def row_of_def)
  have "(case_step ru env x j)\<^sup>*\<^sup>* db0 db'"
    using l m by (auto simp: live_def case_step_def intro: rtranclp.rtrancl_into_rtrancl)
  then show ?thesis
    using l row id distinct_replace [of "sd_separations db" s' j] db'(1) by (simp add: live_def)
qed

lemma update_sep_post:
  assumes "row_of j db = Some s" and "distinct (map sx_id (sd_separations db))"
  shows "post (\<lambda>(db', s'). s' = f s \<and> db' = db\<lparr>sd_separations := map (\<lambda>r. if sx_id r = j then f s else r) (sd_separations db)\<rparr>)
    (update_sep j f db)"
  using assms map_replace_unique [of j "sd_separations db" s f] by (simp add: post_def update_sep_def row_of_def)

lemma audit_post:
  "post (\<lambda>db'. \<exists>t. db' = db\<lparr>sd_audit := sd_audit db @ [t]\<rparr> \<and> tn_sep t = sx_id s \<and> tn_version t = sx_version s \<and>
       tn_from t = prior \<and> tn_to t = sx_state s \<and> tn_action t = action \<and> tn_actor t = actor_code env)
     (audit env s action reason prior rv db)"
  unfolding audit_def by (rule post_ensure_bind, rule post_Inr, rule exI, rule conjI, rule refl) simp

lemma aside_same [simp]:
  "sd_separations (notify s m key db) = sd_separations db" "sd_audit (notify s m key db) = sd_audit db"
  by (simp_all add: notify_def add_delivery_def)

lemma change_post:
  assumes l: "live ru env x j db0 (db, s)" and open_case: "\<not> terminal (sx_state s)"
    and step: "ru_transition ru (sx_state s) target \<Longrightarrow> lifecycle ru env s ((data s)\<lparr>sx_state := target, sx_version := sx_version s + 1\<rparr>)"
    and exit_ok: "x \<or> target \<noteq> ExitCompleted"
  shows "post (\<lambda>(db', s'). live ru env x j db0 (db', s') \<and> s' = (data s)\<lparr>sx_state := target, sx_version := sx_version s + 1\<rparr>)
    (change ru env s target action reason data ev db)"
proof -
  let ?s = "(data s)\<lparr>sx_state := target, sx_version := sx_version s + 1\<rparr>"
  have sid: "sx_id s = j" and row: "row_of j db = Some s" and d: "distinct (map sx_id (sd_separations db))"
    using l by (simp_all add: live_def)
  have logged: "live ru env x j db0 (db\<lparr>sd_separations := map (\<lambda>r. if sx_id r = j then ?s else r) (sd_separations db),
      sd_audit := sd_audit db @ [t]\<rparr>, ?s)"
    if "ru_transition ru (sx_state s) target" "tn_sep t = sx_id ?s" "tn_version t = sx_version ?s" "tn_from t = sx_state s" "tn_to t = sx_state ?s" for t
    by (rule live_moved [OF l open_case step [OF that(1)], where t = t])
      (use that exit_ok lifecycle_identity [OF step [OF that(1)]] sid in \<open>auto simp: history_entry_def same_tasks_def\<close>)
  have "live ru env x j db0 (db', s') \<and> s' = ?s" if r: "change ru env s target action reason data ev db = Inr (db', s')" for db' s'
  proof -
    obtain db1 row rv db2 db3 where ok: "ru_transition ru (sx_state s) target"
      and u: "update_sep j (\<lambda>r. (data r)\<lparr>sx_state := target, sx_version := sx_version r + 1\<rparr>) db = Inr (db1, row)"
      and a: "audit env row action reason (sx_state s) rv db1 = Inr db2"
      and e: "(case ev of None \<Rightarrow> Inr db2 | Some name \<Rightarrow> emit env row name db2) = Inr db3"
      and fin: "quiet j db3 db'" "s' = row"
      using r unfolding change_def sid Let_def rbind_Inr_iff ensure_Inr_iff
      by (auto simp: rbind_Inr_iff simp del: add_Suc_right list.set split: prod.splits)
    have row': "row = ?s" and db1: "db1 = db\<lparr>sd_separations := map (\<lambda>r. if sx_id r = j then ?s else r) (sd_separations db)\<rparr>"
      using postD [OF update_sep_post [OF row d] u] by simp_all
    obtain t where t: "db2 = db1\<lparr>sd_audit := sd_audit db1 @ [t]\<rparr>" "tn_sep t = sx_id ?s" "tn_version t = sx_version ?s"
      "tn_from t = sx_state s" "tn_to t = sx_state ?s"
      using postD [OF audit_post a] unfolding row' by blast
    have "live ru env x j db0 (db2, ?s)"
      using logged [OF ok t(2-5)] unfolding t(1) db1 by simp
    moreover have "quiet j db2 db3"
      using e postD [OF emit_quiet [of j]] by (auto split: option.splits)
    ultimately show ?thesis using fin row' by (auto intro: live_quiet)
  qed
  then show ?thesis by (auto simp: post_def)
qed

lemma touch_post:
  assumes l: "live ru env x j db0 (db, s)" and open_case: "\<not> terminal (sx_state s)"
    and step: "lifecycle ru env s ((data s)\<lparr>sx_version := sx_version s + 1\<rparr>)" and same_state: "sx_state (data s) = sx_state s"
  shows "post (\<lambda>(db', s'). live ru env x j db0 (db', s') \<and> s' = (data s)\<lparr>sx_version := sx_version s + 1\<rparr>) (touch env s action reason data db)"
proof -
  let ?s = "(data s)\<lparr>sx_version := sx_version s + 1\<rparr>"
  have sid: "sx_id s = j" and row: "row_of j db = Some s" and d: "distinct (map sx_id (sd_separations db))"
    using l by (simp_all add: live_def)
  have "live ru env x j db0 (db', s') \<and> s' = ?s" if r: "touch env s action reason data db = Inr (db', s')" for db' s'
  proof -
    obtain db1 row where u: "update_sep j (\<lambda>r. (data r)\<lparr>sx_version := sx_version r + 1\<rparr>) db = Inr (db1, row)"
      and a: "audit env row action reason (sx_state row) None db1 = Inr db'" and fin: "s' = row"
      using r unfolding touch_def sid rbind_Inr_iff by (auto simp: rbind_Inr_iff simp del: add_Suc_right split: prod.splits)
    have row': "row = ?s" and db1: "db1 = db\<lparr>sd_separations := map (\<lambda>r. if sx_id r = j then ?s else r) (sd_separations db)\<rparr>"
      using postD [OF update_sep_post [OF row d] u] by simp_all
    obtain t where t: "db' = db1\<lparr>sd_audit := sd_audit db1 @ [t]\<rparr>" "tn_sep t = sx_id ?s" "tn_version t = sx_version ?s"
      "tn_from t = sx_state ?s" "tn_to t = sx_state ?s"
      using postD [OF audit_post a] unfolding row' by blast
    have "live ru env x j db0 (db', ?s)"
      unfolding t(1) db1
      by (rule live_moved [OF l open_case step, where t = t])
        (use t open_case same_state lifecycle_identity [OF step] sid in \<open>auto simp: history_entry_def same_tasks_def terminal_def\<close>)
    then show ?thesis using fin row' by simp
  qed
  then show ?thesis by (auto simp: post_def)
qed

lemma find_sound: "find P xs = Some y \<Longrightarrow> y \<in> set xs \<and> P y"
  by (induction xs) (auto split: if_splits)

lemma find_by_id:
  assumes "find (\<lambda>s. sx_id s = k \<and> P s) xs = Some s" and "distinct (map sx_id xs)"
  shows "find (\<lambda>s. sx_id s = k) xs = Some s"
  using assms
proof (induction xs)
  case (Cons x xs)
  show ?case
  proof (cases "sx_id x = k \<and> P x")
    case True
    then show ?thesis using Cons.prems by simp
  next
    case False
    then have f: "find (\<lambda>s. sx_id s = k \<and> P s) xs = Some s" using Cons.prems(1) by auto
    then have "k \<in> sx_id ` set xs" using find_sound [OF f] by force
    then have "sx_id x \<noteq> k" using Cons.prems(2) by auto
    then show ?thesis using Cons.IH [OF f] Cons.prems(2) by simp
  qed
qed simp

lemma authorized_post:
  assumes d: "distinct (map sx_id (sd_separations db))"
  shows "post (\<lambda>s. \<not> terminal (sx_state s) \<and> live ru env x (si_ref ref) db (db, s)) (authorizedSeparation env True ref db)"
  unfolding authorizedSeparation_def
proof (rule post_bind_any, rule post_bind_any, rule post_bind_any, rule post_ensure_bind, rule post_if)
  fix codes s
  assume "require (find (\<lambda>s. sx_id s = si_ref ref \<and> sx_employeeCode s \<in> set codes) (sd_separations db))
    (AppError 404 ''Separation not found'') = Inr s"
  then have f: "find (\<lambda>s. sx_id s = si_ref ref \<and> sx_employeeCode s \<in> set codes) (sd_separations db) = Some s"
    by (simp only: require_Inr_iff)
  have "live ru env x (si_ref ref) db (db, s)"
    unfolding live_def row_of_def fst_conv snd_conv
    using find_by_id [OF f d] find_sound [OF f] d by simp
  then show "post (\<lambda>s. \<not> terminal (sx_state s) \<and> live ru env x (si_ref ref) db (db, s))
     (rbind (ensure (sx_version s = si_version ref) (AppError 409 ''This record changed'')) (\<lambda>_.
      rbind (ensure (\<not> terminal (sx_state s)) (AppError 409 ''This separation is closed'')) (\<lambda>_. Inr s)))"
    by (intro post_ensure_bind post_Inr conjI)
qed simp

lemma change_live:
  assumes "live ru env x j db0 (db, s)" and "\<not> terminal (sx_state s)"
    and "ru_transition ru (sx_state s) target \<Longrightarrow> lifecycle ru env s ((data s)\<lparr>sx_state := target, sx_version := sx_version s + 1\<rparr>)"
    and "x \<or> target \<noteq> ExitCompleted"
  shows "post (live ru env x j db0) (change ru env s target action reason data ev db)"
  by (rule post_mono, rule change_post [where data = data and target = target]) (use assms in auto)

lemma touch_live:
  assumes "live ru env x j db0 (db, s)" and "\<not> terminal (sx_state s)"
    and "lifecycle ru env s ((data s)\<lparr>sx_version := sx_version s + 1\<rparr>)" and "sx_state (data s) = sx_state s"
  shows "post (live ru env x j db0) (touch env s action reason data db)"
  by (rule post_mono, rule touch_post [where data = data]) (use assms in auto)

lemma quiet_live:
  assumes "live ru env x j db0 (db, s)" and "post (quiet j db) m" and "\<And>db'. live ru env x j db0 (db', s) \<Longrightarrow> post P (f db')"
  shows "post P (rbind m f)"
  by (rule post_bind [OF assms(2)], rule assms(3), rule live_quiet [OF assms(1)])

lemma live_id: "live ru env x j db0 (db, s) \<Longrightarrow> sx_id s = j"
  by (simp add: live_def)

section \<open>Every command refines the lifecycle\<close>

text \<open>The commands of the flow on the row the authorization found.\<close>

lemma edit_refines:
  assumes "distinct (map sx_id (sd_separations db))"
  shows "post (live ru env x (si_ref ref) db) (editSeparation env ref input db)"
  unfolding editSeparation_def
  by (rule post_bind [OF authorized_post [OF assms, where x = x and ru = ru and env = env]], elim conjE, intro post_ensure_bind, rule touch_live, assumption+)
    (auto intro: lifecycle_moves)

lemma submit_refines:
  assumes l: "live ru env x j db0 (db, s)" and o: "\<not> terminal (sx_state s)"
  shows "post (live ru env x j db0) (submitSeparation ru env s reason db)"
  unfolding submitSeparation_def
proof (intro post_ensure_bind post_bind_any)
  fix rule e days f db1 ds
  assume owner: "owns_code env (sx_createdBy s)" and draft: "sx_state s = Draft"
    and w: "write_notice env s (fresh_notice f) (sx_proposedAt s) db = Inr db1"
    and c: "change ru env s Submitted ''SUBMITTED'' reason (\<lambda>r. r\<lparr>sx_submittedAt := Some (sv_now env)\<rparr>)
      (Some ''hr.separation.submitted.v1'') db1 = Inr ds"
  have l1: "live ru env x j db0 (db1, s)"
    using live_quiet [OF l] postD [OF write_notice_quiet [OF live_id [OF l]] w] .
  obtain db2 s2 where ds: "ds = (db2, s2)" by (cases ds)
  have "live ru env x j db0 (db2, s2) \<and> sx_state s2 = Submitted"
    using postD [OF change_post [OF l1 o] c [unfolded ds]] lifecycle.submitted [OF draft owner] by auto
  then show "post (live ru env x j db0) (case ds of (db, s) \<Rightarrow>
      change ru env s ManagerReview ''MANAGER_REVIEW'' ''Submitted for direct manager review'' id None db)"
    unfolding ds prod.case
    by (intro change_live) (auto simp: terminal_def intro: lifecycle_moves)
qed

lemma withdraw_refines:
  assumes l: "live ru env x j db0 (db, s)" and o: "\<not> terminal (sx_state s)"
  shows "post (live ru env x j db0) (withdrawSeparation ru env s reason db)"
  unfolding withdrawSeparation_def
proof (intro post_bind_any post_if post_ensure_bind)
  fix rule ds
  assume "sx_approvedAt s \<noteq> None"
    and t: "touch env s ''WITHDRAWAL_REQUESTED'' reason (\<lambda>r. r\<lparr>sx_withdrawalAt := Some (sv_now env)\<rparr>) db = Inr ds"
  then have "live ru env x j db0 ds"
    using postD [OF touch_live [OF l o] t] lifecycle.withdrawal [of s] by simp
  then show "post (live ru env x j db0) (case ds of (db, s) \<Rightarrow> Inr (notify s ''WITHDRAWAL_REQUESTED''
      (''withdrawal:'' @ show_nat (sx_id s) @ '':'' @ show_nat (sx_version s)) db, s))"
    by (cases ds) (auto simp: post_def intro: live_quiet)
next
  assume "\<not> sx_approvedAt s \<noteq> None"
  show "post (live ru env x j db0) (change ru env s Withdrawn ''WITHDRAWN'' reason id (Some ''hr.separation.withdrawn.v1'') db)"
    using lifecycle.ended [of ru s Withdrawn "sx_withdrawalAt s"] by (intro change_live [OF l o]) auto
qed

lemma cancel_refines:
  assumes l: "live ru env x j db0 (db, s)" and o: "\<not> terminal (sx_state s)"
  shows "post (live ru env x j db0) (change ru env s Cancelled action reason id ev db)"
  using lifecycle.ended [of ru s Cancelled "sx_withdrawalAt s"] by (intro change_live [OF l o]) auto

lemma handover_refines:
  assumes l: "live ru env x j db0 (db, s)" and o: "\<not> terminal (sx_state s)" and "target \<in> {HandoverInProgress, Clearance}"
  shows "post (live ru env x j db0) (change ru env s target action reason id ev db)"
  using lifecycle.handed_over [OF _ assms(3)] assms(3) by (intro change_live [OF l o]) auto

lemma separate_employee_quiet [simp]: "quiet j db (separate_employee k t b db)"
  by (simp add: separate_employee_def)

lemma exit_refines:
  assumes l: "live ru env True j db0 (db, s)" and o: "\<not> terminal (sx_state s)"
  shows "post (live ru env True j db0) (completeExit ru env s reason rehire db)"
  unfolding completeExit_def
proof (rule post_bind_any, rule post_bind_any, rule post_ensure_bind, rule post_bind_any, rule post_bind)
  fix b
  assume "case sx_lastWorkingAt s of None \<Rightarrow> False | Some t \<Rightarrow> t \<le> sv_now env"
  then show "post (live ru env True j db0) (change ru env s ExitCompleted ''EXIT_COMPLETED'' reason
      (\<lambda>r. r\<lparr>sx_completedAt := Some (sv_now env), sx_rehire := Some b\<rparr>) (Some ''hr.separation.exit_completed.v1'') db)"
    by (intro change_live [OF l o]) (auto split: option.splits intro: lifecycle_moves)
next
  fix b ds
  assume l1: "live ru env True j db0 ds"
  show "post (live ru env True j db0) (case ds of (db, s) \<Rightarrow>
    rbind (employee db (sx_employeeCode s)) (\<lambda>e.
    let db = separate_employee (em_id e) (sx_lastWorkingAt s) b db;
        db = db\<lparr>sd_expired := sd_expired db @ [sx_employeeCode s]\<rparr> in
    rbind (emit env s ''hr.employee.separated.v1'' db) (\<lambda>db.
    rbind (generateDocument ru env s ''EXPERIENCE'' db) (\<lambda>db. Inr (db, s)))))"
  proof (rule post_prod, rule post_bind_any)
    fix db1 s1 e
    assume ds: "ds = (db1, s1)"
    let ?db = "(separate_employee (em_id e) (sx_lastWorkingAt s1) b db1)
      \<lparr>sd_expired := sd_expired (separate_employee (em_id e) (sx_lastWorkingAt s1) b db1) @ [sx_employeeCode s1]\<rparr>"
    have l2: "live ru env True j db0 (?db, s1)"
      by (rule live_quiet [OF l1 [unfolded ds]], rule quiet_trans [OF separate_employee_quiet quiet_aside(5)])
    show "post (live ru env True j db0) (let db = separate_employee (em_id e) (sx_lastWorkingAt s1) b db1;
        db = db\<lparr>sd_expired := sd_expired db @ [sx_employeeCode s1]\<rparr> in
      rbind (emit env s1 ''hr.employee.separated.v1'' db) (\<lambda>db.
      rbind (generateDocument ru env s1 ''EXPERIENCE'' db) (\<lambda>db. Inr (db, s1))))"
      unfolding Let_def
      by (rule quiet_live [OF l2 emit_quiet], rule quiet_live, assumption, rule generateDocument_quiet, rule live_id, assumption, rule post_Inr)
  qed
qed

lemma action_refines:
  assumes "distinct (map sx_id (sd_separations db))"
  shows "post (live ru env (action = ''COMPLETE_EXIT'') (si_ref ref) db) (separationAction ru env ref action reason rehire db)"
  unfolding separationAction_def startHandover_def startClearance_def
  apply (rule post_bind [OF authorized_post [OF assms]], elim conjE, intro post_if post_bind_any)
        apply (rule submit_refines, assumption+)
       apply (rule withdraw_refines, assumption+)
      apply (rule cancel_refines, assumption+)
     apply (rule handover_refines, assumption+, simp)
    apply (rule handover_refines, assumption+, simp)
   apply (simp, rule exit_refines, simp, assumption)
  apply (rule post_Inr, assumption)
  done

lemma recommend_refines:
  assumes "distinct (map sx_id (sd_separations db))"
  shows "post (live ru env x (si_ref ref) db) (recommendSeparation ru env ref input db)"
  unfolding recommendSeparation_def
  by (rule post_bind_any, rule post_bind [OF authorized_post [OF assms, where x = x and ru = ru and env = env]], elim conjE, rule post_bind_any, intro post_ensure_bind post_bind_any,
      rule change_live, assumption+) (auto intro: lifecycle_moves)

lemma verify_refines:
  assumes "distinct (map sx_id (sd_separations db))"
  shows "post (live ru env x (si_ref ref) db) (verifySeparation ru env ref findings db)"
  unfolding verifySeparation_def
  by (rule post_bind_any, rule post_bind [OF authorized_post [OF assms, where x = x and ru = ru and env = env]], elim conjE, intro post_ensure_bind,
      rule change_live, assumption+) (auto intro: lifecycle_moves)

lemma revert_refines:
  assumes "distinct (map sx_id (sd_separations db))"
  shows "post (live ru env x (si_ref ref) db) (revertSeparation ru env ref reason db)"
  unfolding revertSeparation_def
proof (rule post_bind [OF authorized_post [OF assms, where x = x and ru = ru and env = env]], elim conjE, rule post_bind_any, rule post_Let)
  fix s stage target
  assume o: "\<not> terminal (sx_state s)" and l: "live ru env x (si_ref ref) db (db, s)"
    and target: "target = (if ru_revertTarget ru stage = ''HR'' then HrVerification else Draft)"
    and "(case sx_state s of
        ManagerReview \<Rightarrow> rbind (managerOnly env s db) (\<lambda>_. Inr ''LINE_MANAGER'')
      | HrVerification \<Rightarrow>
          rbind (permit env ''hr.separation.verify'') (\<lambda>_.
          rbind (ensure (sx_employeeCode s \<noteq> who_code env) (AppError 403 ''Independent HR verification is required'')) (\<lambda>_.
          Inr ''HR''))
      | ManagementDecision \<Rightarrow> rbind (approverOnly env s db) (\<lambda>_. Inr ''MANAGEMENT'')
      | _ \<Rightarrow> throw 409 ''Only an active review stage may revert a request'') = Inr stage"
  then have "sx_state s \<in> {ManagerReview, HrVerification, ManagementDecision}" and "target \<in> {HrVerification, Draft}"
    by (auto split: sep_state.splits)
  from lifecycle.reverted [OF this]
  show "post (live ru env x (si_ref ref) db) (change ru env s target ''REVERTED'' reason
      (\<lambda>r. (if target = Draft then r\<lparr>sx_recommendation := None\<rparr> else r)
         \<lparr>sx_verification := None, sx_verifiedBy := None, sx_deferredUntil := None\<rparr>)
      (Some ''hr.separation.reverted.v1'') db)"
    by (intro change_live [OF l o]) (auto simp: target split: if_splits)
qed

lemma decide_withdrawal_refines:
  assumes l: "live ru env x j db0 (db, s)" and o: "\<not> terminal (sx_state s)"
  shows "post (live ru env x j db0) (decide_withdrawal ru env s input db)"
  unfolding decide_withdrawal_def
  apply (rule post_bind_any, rule quiet_live [OF l use_approval_quiet], rule post_if)
   apply (rule change_live, assumption, rule o)
    apply (use lifecycle.ended [of ru s Withdrawn None] in simp, simp)
  apply (rule touch_live, assumption, rule o)
   apply (use lifecycle.withdrawal_refused [of s] in simp, simp)
  done

lemma approve_refines:
  assumes l: "live ru env x j db0 (db, s)" and o: "\<not> terminal (sx_state s)"
    and ready: "sx_state s = ManagementDecision" "sx_verification s \<noteq> None" "sx_deferredUntil s = None"
  shows "post (live ru env x j db0) (approve_separation ru env s input db)"
  unfolding approve_separation_def
proof (rule post_Let, rule post_ensure_bind, rule post_bind_any, rule post_bind_any, rule post_Let, rule post_Let, rule post_bind)
  fix t n f payload db1
  assume t: "sv_now env \<le> t" and n: "require (first_row (sx_id s) (sd_notices db)) (PlainError ''TypeError'') = Inr n"
    and db1: "db1 = db\<lparr>sd_notices := updateTask env n (\<lambda>r. r\<lparr>tk_payload := payload, tk_dueAt := Some t\<rparr>) (sd_notices db)\<rparr>"
  have "tk_sep n = j" using n live_id [OF l] by (auto simp: first_row_def dest: find_sound)
  then have "quiet j db db1" unfolding db1 by (simp add: quiet_def same_tasks_def rows_of_update)
  from live_quiet [OF l this]
  show "post (\<lambda>(db', s'). live ru env x j db0 (db', s') \<and>
        s' = s\<lparr>sx_approvedAt := Some (sv_now env), sx_lastWorkingAt := Some t, sx_state := Approved, sx_version := sx_version s + 1\<rparr>)
      (change ru env s Approved ''APPROVED'' (di_reason input)
       (\<lambda>r. r\<lparr>sx_approvedAt := Some (sv_now env), sx_lastWorkingAt := Some t\<rparr>) (Some ''hr.separation.approved.v1'') db1)"
    by (intro change_post [OF _ o]) (use lifecycle.approved [OF ready t] in auto)
next
  fix t ds
  assume "case ds of (db', s') \<Rightarrow> live ru env x j db0 (db', s') \<and>
        s' = s\<lparr>sx_approvedAt := Some (sv_now env), sx_lastWorkingAt := Some t, sx_state := Approved, sx_version := sx_version s + 1\<rparr>"
  then obtain db2 s2 where ds: "ds = (db2, s2)" and l2: "live ru env x j db0 (db2, s2)" and st: "sx_state s2 = Approved" by auto
  show "post (live ru env x j db0) (case ds of (db, s) \<Rightarrow>
     rbind (generateWorkstreams env s db) (\<lambda>db.
     rbind (generateDocument ru env s (if sx_type s = ''RESIGNATION'' then ''ACCEPTANCE'' else ''TERMINATION'') db) (\<lambda>db.
     rbind (emit env s ''hr.separation.clawback_requested.v1'' db) (\<lambda>db.
     change ru env s NoticePeriod ''NOTICE_STARTED'' ''Notice tracking started'' id
       (Some ''hr.separation.notice_started.v1'') db))))"
    unfolding ds prod.case
    by (rule quiet_live [OF l2 generateWorkstreams_quiet [OF live_id [OF l2]]], rule quiet_live, assumption,
        rule generateDocument_quiet, rule live_id, assumption, rule quiet_live, assumption, rule emit_quiet, rule change_live, assumption)
      (auto simp: st terminal_def intro: lifecycle_moves)
qed

lemma live_emit: "live ru env x j db0 (db, s) \<Longrightarrow> (\<And>db'. live ru env x j db0 (db', s) \<Longrightarrow> post P (f db')) \<Longrightarrow>
    post P (rbind (emit env s name db) f)"
  by (rule quiet_live [OF _ emit_quiet])

lemma decide_refines:
  assumes "distinct (map sx_id (sd_separations db))"
  shows "post (live ru env x (si_ref ref) db) (decideSeparation ru env ref input db)"
  unfolding decideSeparation_def
proof (rule post_bind_any, rule post_bind [OF authorized_post [OF assms, where x = x and ru = ru and env = env]], elim conjE, rule post_bind_any, rule post_if)
  fix s
  assume o: "\<not> terminal (sx_state s)" and l: "live ru env x (si_ref ref) db (db, s)"
  then show "post (live ru env x (si_ref ref) db) (decide_withdrawal ru env s input db)" by (intro decide_withdrawal_refines)
  show "post (live ru env x (si_ref ref) db) (rbind (ensure (sx_state s = ManagementDecision \<and> sx_verification s \<noteq> None)
        (AppError 409 ''Complete manager and HR review first'')) (\<lambda>_.
      rbind (ensure (sx_deferredUntil s = None) (AppError 409 ''Decision is deferred until its scheduled review'')) (\<lambda>_.
      if di_decision input = ''REJECT'' then
        change ru env s Cancelled ''REJECTED'' (di_reason input) id (Some ''hr.separation.rejected.v1'') db
      else if di_decision input = ''DEFER'' then
        (case di_deferredUntil input of
           None \<Rightarrow> throw 422 ''Deferral date must be in the future''
         | Some day \<Rightarrow>
             rbind (ensure (ru_companyDate ru (sv_now env) (po_timeZone (sx_policy s)) < day)
               (AppError 422 ''Deferral date must be in the future'')) (\<lambda>_.
             rbind (touch env s ''DEFERRED'' (di_reason input) (\<lambda>r. r\<lparr>sx_deferredUntil := Some (day * 86400000)\<rparr>) db) (\<lambda>(db, s).
             rbind (emit env s ''hr.separation.deferred.v1'' db) (\<lambda>db.
             Inr (notify s ''DEFERRED'' (''deferred:'' @ show_nat (sx_id s) @ '':'' @ show_nat (sx_version s)) db, s)))))
      else approve_separation ru env s input db)))"
  proof (intro post_ensure_bind post_if post_option post_Inl, goal_cases)
    case 1
    then show ?case by (intro cancel_refines [OF l o])
  next
    case (2 day)
    have t: "post (live ru env x (si_ref ref) db) (touch env s ''DEFERRED'' (di_reason input) (\<lambda>r. r\<lparr>sx_deferredUntil := Some (day * 86400000)\<rparr>) db)"
      by (rule touch_live [OF l o]) (use 2 lifecycle.deferred [of s] in auto)
    show ?case
      by (rule post_bind [OF t], rule post_prod, rule live_emit) (auto simp: post_def intro: live_quiet)
  next
    case 3
    then show ?case by (intro approve_refines [OF l o]) auto
  qed
qed

lemma reschedule_quiet [simp]: "quiet j db (reschedule j t db)"
  by (simp add: quiet_def same_tasks_def reschedule_def)

lemma decide_notice_quiet: "post (\<lambda>y. quiet j db (snd y)) (decide_notice ru env s n input db)"
  unfolding decide_notice_def
  by (rule post_bind_any, rule post_bind_any, rule post_bind [OF use_approval_quiet], rule post_ensure_bind, rule post_bind_any, rule post_prod, rule post_Inr) simp

lemma notice_refines:
  assumes "distinct (map sx_id (sd_separations db))"
  shows "post (live ru env x (si_ref ref) db) (noticeAction ru env ref input db)"
  unfolding noticeAction_def
proof (rule post_bind [OF authorized_post [OF assms, where x = x and ru = ru and env = env]], elim conjE, rule post_ensure_bind, rule post_ensure_bind, rule post_bind_any,
    rule post_ensure_bind, rule post_bind)
  fix s n
  show "post (\<lambda>y. quiet (si_ref ref) db (snd y)) (if take 8 (ni_action input) = ''REQUEST_''
           then rbind (request_notice env s input (tk_payload n)) (\<lambda>payload. Inr ((payload, None), db))
           else decide_notice ru env s n input db)"
    by (rule post_if, rule post_bind_any, rule post_Inr, simp, rule decide_notice_quiet)
next
  fix s n and y :: "(notice \<times> int option) \<times> sep_db"
  assume o: "\<not> terminal (sx_state s)" and l: "live ru env x (si_ref ref) db (db, s)"
    and active: "sx_state s \<in> set [NoticePeriod, HandoverInProgress, Clearance]"
    and n: "require (first_row (sx_id s) (sd_notices db)) (PlainError ''TypeError'') = Inr n"
    and q: "quiet (si_ref ref) db (snd y)"
  obtain payload due db1 where y: "y = ((payload, due), db1)" by (metis surj_pair)
  have "tk_sep n = si_ref ref" using n live_id [OF l] by (auto simp: first_row_def dest: find_sound)
  then have "quiet (si_ref ref) db1 (db1\<lparr>sd_notices := updateTask env n
      (\<lambda>r. r\<lparr>tk_payload := payload, tk_dueAt := (if due = None then tk_dueAt r else due)\<rparr>) (sd_notices db1)\<rparr>)"
    by (simp add: quiet_def same_tasks_def rows_of_update)
  from live_quiet [OF live_quiet [OF l] this]
  have l1: "live ru env x (si_ref ref) db (db1\<lparr>sd_notices := updateTask env n
      (\<lambda>r. r\<lparr>tk_payload := payload, tk_dueAt := (if due = None then tk_dueAt r else due)\<rparr>) (sd_notices db1)\<rparr>, s)"
    using q y by simp
  have t: "post (live ru env x (si_ref ref) db) (touch env s (ni_action input) (ni_reason input)
      (\<lambda>r. r\<lparr>sx_lastWorkingAt := (if due = None then sx_lastWorkingAt r else due)\<rparr>) (db1\<lparr>sd_notices := updateTask env n
      (\<lambda>r. r\<lparr>tk_payload := payload, tk_dueAt := (if due = None then tk_dueAt r else due)\<rparr>) (sd_notices db1)\<rparr>))"
    by (rule touch_live [OF l1 o]) (use active lifecycle.noticed [of s] in auto)
  show "post (live ru env x (si_ref ref) db) (case y of (x, db) \<Rightarrow> (case x of (payload, instant) \<Rightarrow> \<lambda>db.
    let db = db\<lparr>sd_notices := updateTask env n
          (\<lambda>r. r\<lparr>tk_payload := payload, tk_dueAt := (if instant = None then tk_dueAt r else instant)\<rparr>) (sd_notices db)\<rparr> in
    rbind (touch env s (ni_action input) (ni_reason input)
      (\<lambda>r. r\<lparr>sx_lastWorkingAt := (if instant = None then sx_lastWorkingAt r else instant)\<rparr>) db) (\<lambda>(db, s).
    rbind (case instant of None \<Rightarrow> Inr db
        | Some t \<Rightarrow> emit env s ''hr.separation.updated.v1'' (reschedule (sx_id s) t db)) (\<lambda>db.
    Inr (notify s (ni_action input) (''notice:'' @ show_nat (sx_id s) @ '':'' @ show_nat (sx_version s)) db, s)))) db)"
    unfolding y prod.case Let_def
  proof (rule post_bind [OF t], rule post_prod, goal_cases)
    case (1 ds db2 s2)
    then have l2: "live ru env x (si_ref ref) db (db2, s2)" by simp
    have "post (quiet (si_ref ref) db2) (case due of None \<Rightarrow> Inr db2
        | Some t \<Rightarrow> emit env s2 ''hr.separation.updated.v1'' (reschedule (sx_id s2) t db2))"
      using live_id [OF l2]
      by (intro post_option post_Inr) (auto intro: quiet_post_trans [OF reschedule_quiet] emit_quiet)
    then show ?case by (rule quiet_live [OF l2]) (auto simp: post_def intro: live_quiet)
  qed
qed

text \<open>The commands of the workstreams write rows of the case, then touch it.\<close>

lemma record_live:
  assumes "live ru env x j db0 (db, s)" and "\<not> terminal (sx_state s)" and "quiet j db db'"
  shows "post (live ru env x j db0) (touch env s action reason id db')"
  by (rule touch_live [OF live_quiet [OF assms(1,3)] assms(2)]) (auto intro: lifecycle_moves)

lemma task_post: "post (\<lambda>t. tk_sep t = sx_id s) (task s ref version rows)"
  unfolding task_def by (rule post_bind_any, rule post_ensure_bind, rule post_Inr) (auto dest: find_sound)

lemma first_row_post: "require (first_row k rows) e = Inr n \<Longrightarrow> tk_sep n = k"
  by (auto simp: first_row_def dest: find_sound)

lemma first_row_sound: "first_row k rows = Some n \<Longrightarrow> tk_sep n = k"
  by (auto simp: first_row_def dest: find_sound)

lemma keyed_row_sound: "keyed_row k key rows = Some n \<Longrightarrow> tk_sep n = k \<and> tk_key n = key"
  by (auto simp: keyed_row_def dest: find_sound)

lemma finish_row_sep [simp]: "tk_sep (finish_row ev p st r) = tk_sep r"
  by (simp add: finish_row_def)

lemma create_session_refines:
  assumes l: "live ru env x j db0 (db, s)" and o: "\<not> terminal (sx_state s)"
  shows "post (live ru env x j db0) (create_session env s input db)"
  unfolding create_session_def
  by (rule post_bind_any, intro post_prod post_option post_Inl post_ensure_bind, rule post_bind [OF createTask_post], clarify,
      rule record_live [OF l o]) (use live_id [OF l] in \<open>auto simp: quiet_def same_tasks_def\<close>)

lemma create_transfer_refines:
  assumes l: "live ru env x j db0 (db, s)" and o: "\<not> terminal (sx_state s)"
  shows "post (live ru env x j db0) (create_transfer env s input db)"
  unfolding create_transfer_def
  by (rule post_bind_any, intro post_prod post_option post_Inl post_ensure_bind, rule post_bind [OF createTask_post], clarify,
      rule record_live [OF l o]) (use live_id [OF l] in \<open>auto simp: quiet_def same_tasks_def\<close>)

lemma replacement_refines:
  assumes "distinct (map sx_id (sd_separations db))"
  shows "post (live ru env x (si_ref ref) db) (replacementAction env ref input db)"
  unfolding replacementAction_def
proof (rule post_bind_any, rule post_bind [OF authorized_post [OF assms, where x = x and ru = ru and env = env]], elim conjE, rule post_bind_any, intro post_if, goal_cases)
  case (1 _ s)
  then show ?case by (intro create_session_refines)
next
  case (2 _ s)
  show ?case
    by (rule post_bind [OF task_post], rule post_bind_any, rule post_prod, rule record_live [OF 2(3) 2(2)])
      (use live_id [OF 2(3)] in \<open>auto simp: quiet_def same_tasks_def rows_of_update\<close>)
next
  case (3 _ s)
  show ?case
    by (rule post_bind [OF task_post], rule post_bind_any, rule post_prod, rule record_live [OF 3(3) 3(2)])
      (use live_id [OF 3(3)] in \<open>auto simp: quiet_def same_tasks_def rows_of_update\<close>)
qed

lemma kt_refines:
  assumes "distinct (map sx_id (sd_separations db))"
  shows "post (live ru env x (si_ref ref) db) (ktAction env ref input db)"
  unfolding ktAction_def
proof (rule post_bind_any, rule post_bind [OF authorized_post [OF assms, where x = x and ru = ru and env = env]], elim conjE, rule post_bind_any, intro post_if, goal_cases)
  case (1 _ s)
  then show ?case by (intro create_transfer_refines)
next
  case (2 _ s)
  show ?case
    by (rule post_bind [OF task_post], rule post_bind_any, rule post_prod, rule record_live [OF 2(3) 2(2)])
      (use live_id [OF 2(3)] in \<open>auto simp: quiet_def same_tasks_def rows_of_update\<close>)
qed

lemma asset_refines:
  assumes "distinct (map sx_id (sd_separations db))"
  shows "post (live ru env x (si_ref ref) db) (assetAction env ref input db)"
  unfolding assetAction_def
  by (rule post_bind_any, rule post_bind [OF authorized_post [OF assms, where x = x and ru = ru and env = env]], elim conjE, rule post_bind [OF task_post],
      rule post_bind_any, rule post_bind_any, rule post_bind_any, rule post_ensure_bind, rule record_live, assumption, assumption)
    (auto dest: live_id simp: quiet_def same_tasks_def rows_of_update)

lemma access_refines:
  assumes "distinct (map sx_id (sd_separations db))"
  shows "post (live ru env x (si_ref ref) db) (accessAction env ref input db)"
  unfolding accessAction_def
  by (rule post_bind_any, rule post_bind [OF authorized_post [OF assms, where x = x and ru = ru and env = env]], elim conjE, rule post_bind [OF task_post],
      rule post_bind_any, rule post_bind_any, rule post_ensure_bind, rule post_ensure_bind, rule record_live, assumption, assumption)
    (auto dest: live_id simp: quiet_def same_tasks_def rows_of_update)

lemma interview_refines:
  assumes "distinct (map sx_id (sd_separations db))"
  shows "post (live ru env x (si_ref ref) db) (interviewAction env ref version evidence payload db)"
  unfolding interviewAction_def
  by (rule post_bind_any, rule post_bind [OF authorized_post [OF assms, where x = x and ru = ru and env = env]], elim conjE, rule post_bind_any, rule post_ensure_bind,
      rule post_bind_any, rule post_ensure_bind, rule record_live, assumption, assumption)
    (auto dest!: live_id first_row_sound simp: quiet_def same_tasks_def rows_of_update)

lemma clearance_refines:
  assumes "distinct (map sx_id (sd_separations db))"
  shows "post (live ru env x (si_ref ref) db) (clearanceAction ru env ref input db)"
  unfolding clearanceAction_def
proof (rule post_bind_any, rule post_bind [OF authorized_post [OF assms, where x = x and ru = ru and env = env]], elim conjE, rule post_ensure_bind, rule post_ensure_bind,
    rule post_bind_any, rule post_bind_any, rule post_ensure_bind, rule post_ensure_bind, rule post_bind [OF task_post],
    rule post_ensure_bind, rule post_Let, rule post_bind [where Q = "live ru env x (si_ref ref) db"], goal_cases)
  case (1 _ s _ _ row db1)
  show ?case
    by (rule record_live [OF 1(3) 1(2)]) (use 1 live_id [OF 1(3)] in \<open>auto simp: quiet_def same_tasks_def rows_of_update\<close>)
next
  case (2 _ s _ _ row db1 ds)
  obtain db2 s2 where ds: "ds = (db2, s2)" by (cases ds)
  then have l2: "live ru env x (si_ref ref) db (db2, s2)" using 2 by simp
  show ?case
    unfolding ds prod.case
    by (rule post_if, rule live_emit [OF l2], rule quiet_live, assumption, rule generateDocument_quiet, rule live_id, assumption)
      (auto simp: post_def l2)
qed

lemma handoff_quiet: "post (quiet j db) (handoff_settlement ru env s row input db)"
  unfolding handoff_settlement_def Let_def
  by (rule post_ensure_bind, rule post_ensure_bind, rule post_bind_any, rule post_ensure_bind, rule post_ensure_bind,
      intro quiet_bind use_approval_quiet emit_quiet post_Inr add_delivery_quiet)

lemma settlement_refines:
  assumes "distinct (map sx_id (sd_separations db))"
  shows "post (live ru env x (si_ref ref) db) (settlementAction ru env ref input db)"
  unfolding settlementAction_def
proof (rule post_bind_any, rule post_bind [OF authorized_post [OF assms, where x = x and ru = ru and env = env]], elim conjE, rule post_bind_any, rule post_ensure_bind,
    rule post_bind_any, rule post_ensure_bind, rule post_bind [where Q = "\<lambda>y. quiet (si_ref ref) db (snd y)"], goal_cases)
  case (1 _ s _ row)
  show ?case
  proof (intro post_if)
    show "post (\<lambda>y. quiet (si_ref ref) db (snd y)) (rbind (prepare_settlement ru env s row input db) (\<lambda>payload. Inr ((payload, ''PREPARED''), db)))"
      by (rule post_bind_any, rule post_Inr) simp
    show "post (\<lambda>y. quiet (si_ref ref) db (snd y)) (rbind (handoff_settlement ru env s row input db) (\<lambda>db. Inr ((tk_payload row, ''HANDED_OFF''), db)))"
      by (rule post_bind [OF handoff_quiet], rule post_Inr) simp
  qed (auto intro!: post_rules)
next
  case (2 _ s _ row y)
  then have row: "tk_sep row = si_ref ref" using live_id first_row_post by fastforce
  obtain payload status db1 where y: "y = ((payload, status), db1)" by (metis surj_pair)
  have "live ru env x (si_ref ref) db (db1, s)" using 2 y by (auto intro: live_quiet)
  then show ?case
    unfolding y prod.case using 2(2)
    by (intro record_live) (auto simp: row quiet_def same_tasks_def rows_of_update)
qed

lemma store_asset_quiet:
  assumes "sx_id s = j"
  shows "post (quiet j db) (store_asset env s input d a db)"
  unfolding store_asset_def
proof (rule post_option)
  show "post (quiet j db) (rbind (createTask env s (fst a)
           \<lparr>as_ref = fst a, as_serial = snd a, as_sourceRef = sr_sourceRef input, as_disposition = None, as_condition = [],
            as_serialVerified = False, as_approvalRef = None, as_approvedBy = None, as_recoveryMinor = 0\<rparr>
           (Some (dp_owner d)) (sx_lastWorkingAt s) (sd_assets db) db) (\<lambda>(rows, db, _). Inr (db\<lparr>sd_assets := rows\<rparr>)))"
    by (rule add_row_quiet [where put = "\<lambda>rows db. db\<lparr>sd_assets := rows\<rparr>", OF _ assms]) (auto simp: quiet_def same_tasks_def)
qed (auto intro!: post_rules)

lemma write_source_quiet:
  assumes "sx_id s = j"
  shows "post (quiet j db) (write_source env s input db)"
  unfolding write_source_def
proof (rule post_option)
  show "post (quiet j db) (rbind (createTask env s (sr_source input) input (case po_hrCodes (sx_policy s) of [] \<Rightarrow> None | c # _ \<Rightarrow> Some c)
           (sx_lastWorkingAt s) (sd_sources db) db) (\<lambda>(rows, db, _). Inr (db\<lparr>sd_sources := rows\<rparr>)))"
    by (rule add_row_quiet [where put = "\<lambda>rows db. db\<lparr>sd_sources := rows\<rparr>", OF _ assms]) (auto simp: quiet_def same_tasks_def)
next
  fix old
  assume "keyed_row (sx_id s) (sr_source input) (sd_sources db) = Some old"
  then have "tk_sep old = j" using assms keyed_row_sound by blast
  then show "post (quiet j db) (Inr (db\<lparr>sd_sources := updateTask env old (\<lambda>r. r\<lparr>tk_payload := input, tk_evidence := sr_evidence input\<rparr>) (sd_sources db)\<rparr>))"
    by (simp add: post_def quiet_def same_tasks_def rows_of_update)
qed

lemma source_refines:
  assumes l: "live ru env x j db0 (db, s)" and o: "\<not> terminal (sx_state s)"
  shows "post (live ru env x j db0) (storeSourceSnapshot env s input db)"
  unfolding storeSourceSnapshot_def
proof (rule post_ensure_bind, rule post_ensure_bind, rule post_Let, rule post_ensure_bind, rule post_if, goal_cases)
  case (1 existing)
  show ?case by (rule post_ensure_bind, rule post_Inr, rule l)
next
  case (2 existing)
  have assets: "post (quiet j db1) (if sr_source input = ''ASSETS'' then
          rbind (require (asset_department s) (AppError 422 ''Configure Administration or HR asset custody ownership'')) (\<lambda>d.
          rfold (store_asset env s input d) (case sr_assets input of None \<Rightarrow> [] | Some xs \<Rightarrow> xs) db1)
        else Inr db1)" for db1
    by (rule post_if, rule post_bind_any, rule quiet_rfold, rule store_asset_quiet [OF live_id [OF l]], rule post_Inr, simp)
  show ?case
    by (rule post_bind_any, rule post_ensure_bind, rule quiet_live [OF l write_source_quiet [OF live_id [OF l]]],
        rule quiet_live, assumption, rule assets, rule record_live, assumption, rule o, rule quiet_refl)
qed

lemma sync_refines:
  assumes "distinct (map sx_id (sd_separations db))"
  shows "post (live ru env x (si_ref ref) db) (syncSource env ref input db)"
  unfolding syncSource_def
  by (rule post_bind_any, rule post_bind [OF authorized_post [OF assms]], elim conjE, rule source_refines)

lemma deferral_refines:
  assumes l: "live ru env x j db0 (db, s)" and o: "\<not> terminal (sx_state s)"
  shows "post (\<lambda>(db', s'). live ru env x j db0 (db', s') \<and> \<not> terminal (sx_state s')) (deferral_due ru env s db)"
  unfolding deferral_due_def
proof (rule post_if)
  assume "case sx_deferredUntil s of None \<Rightarrow> False
    | Some t \<Rightarrow> t div 86400000 \<le> ru_companyDate ru (sv_now env) (po_timeZone (sx_policy s))"
  then have "sx_deferredUntil s \<noteq> None" by (auto split: option.splits)
  then show "post (\<lambda>(db', s'). live ru env x j db0 (db', s') \<and> \<not> terminal (sx_state s')) (change ru env s ManagerReview ''DEFERRAL_DUE'' ''Deferred review date reached''
       (\<lambda>r. r\<lparr>sx_deferredUntil := None, sx_recommendation := None, sx_verification := None, sx_verifiedBy := None\<rparr>) None db)"
    by (intro post_mono [OF change_post [OF l o]]) (auto simp: terminal_def intro: lifecycle_moves)
qed (use l o in \<open>simp add: post_def\<close>)

lemma access_due_refines:
  assumes l: "live ru env x j db0 (db, s)" and o: "\<not> terminal (sx_state s)"
  shows "post (live ru env x j db0) (access_due env s db)"
  unfolding access_due_def
proof (rule post_if)
  assume "sx_approvedAt s \<noteq> None \<and> null0 (sx_lastWorkingAt s) \<le> sv_now env \<and> sx_accessDueAt s = None"
  then have t: "post (live ru env x j db0) (touch env s ''ACCESS_DUE'' ''Last working time reached'' (\<lambda>r. r\<lparr>sx_accessDueAt := Some (sv_now env)\<rparr>) db)"
    using lifecycle.access_noted [of s] by (intro touch_live [OF l o]) auto
  show "post (live ru env x j db0) (rbind (touch env s ''ACCESS_DUE'' ''Last working time reached'' (\<lambda>r. r\<lparr>sx_accessDueAt := Some (sv_now env)\<rparr>) db) (\<lambda>(db, s).
       rbind (emit env s ''hr.separation.access_due.v1'' db) (\<lambda>db.
       Inr (db\<lparr>sd_expired := sd_expired db @ [sx_employeeCode s]\<rparr>, s))))"
    by (rule post_bind [OF t], rule post_prod, rule live_emit) (auto simp: post_def intro: live_quiet)
qed (use l in \<open>simp add: post_def\<close>)

lemma quiet_if: "(b \<Longrightarrow> quiet j db c) \<Longrightarrow> (\<not> b \<Longrightarrow> quiet j db d) \<Longrightarrow> quiet j db (if b then c else d)"
  by simp

lemma quiet_option:
  "quiet j db c \<Longrightarrow> (\<And>y. quiet j db (f y)) \<Longrightarrow> quiet j db (case x of None \<Rightarrow> c | Some y \<Rightarrow> f y)"
  by (cases x) simp_all

lemma remind_quiet: "quiet j db (remind ru env s t db)"
  unfolding remind_def Let_def
  by (rule quiet_if, rule quiet_option, rule notify_quiet, rule quiet_trans [OF notify_quiet quiet_aside(1)], rule quiet_refl)

lemma remind_fold_quiet: "quiet j db (fold (remind ru env s) ts db)"
proof (induction ts arbitrary: db)
  case (Cons t ts)
  show ?case by (simp only: fold_simps) (rule quiet_trans [OF remind_quiet Cons.IH])
qed simp

lemma remind_all_quiet: "quiet j db (remind_all ru env s db)"
  unfolding remind_all_def Let_def
  by (rule quiet_trans [OF _ remind_fold_quiet])+ (rule quiet_refl)

lemma find_live:
  assumes "find (\<lambda>s. sx_id s = k) (sd_separations db) = Some s" and "distinct (map sx_id (sd_separations db))"
  shows "live ru env x k db (db, s)"
  unfolding live_def row_of_def fst_conv snd_conv using assms find_sound [OF assms(1)] by simp

lemma sweep_refines:
  assumes d: "distinct (map sx_id (sd_separations db))"
  shows "post (\<lambda>db'. db' = db \<or> (\<exists>s s'. row_of k db = Some s \<and> \<not> terminal (sx_state s) \<and> live ru (sweep_env now) x k db (db', s')))
    (sweep_separation ru now k db)"
  unfolding sweep_separation_def
proof (rule post_Let, rule post_bind_any, rule post_if, goal_cases)
  case (1 env s)
  then show ?case by (simp add: post_def)
next
  case (2 env s)
  then have row: "row_of k db = Some s" by (simp add: row_of_def)
  have l: "live ru env x k db (db, s)" by (rule find_live [OF row [unfolded row_of_def] d])
  show ?case
  proof (rule post_bind [OF deferral_refines [OF l 2(3)]], rule post_prod, rule post_bind)
    fix y db1 s1
    assume "case y of (db', s') \<Rightarrow> live ru env x k db (db', s') \<and> \<not> terminal (sx_state s')" and y: "y = (db1, s1)"
    then show "post (live ru env x k db) (access_due env s1 db1)" by (intro access_due_refines) auto
  next
    fix y db1 s1 z
    assume z: "live ru env x k db z"
    show "post (\<lambda>db'. db' = db \<or> (\<exists>s s'. row_of k db = Some s \<and> \<not> terminal (sx_state s) \<and> live ru (sweep_env now) x k db (db', s')))
      (case z of (db, s) \<Rightarrow> Inr (if sx_approvedAt s = None then db else remind_all ru env s db))"
    proof (rule post_prod, intro post_Inr disjI2)
      fix db2 s2
      assume "z = (db2, s2)"
      then have "live ru env x k db (if sx_approvedAt s2 = None then db2 else remind_all ru env s2 db2, s2)"
        using z live_quiet [OF _ remind_all_quiet] by auto
      then show "\<exists>s s'. row_of k db = Some s \<and> \<not> terminal (sx_state s) \<and>
          live ru (sweep_env now) x k db (if sx_approvedAt s2 = None then db2 else remind_all ru env s2 db2, s')"
        using row 2 by blast
    qed
  qed
qed

lemma receipt_refines:
  assumes d: "distinct (map sx_id (sd_separations db))" and s: "find (\<lambda>s. sx_id s = k) (sd_separations db) = Some s" "\<not> terminal (sx_state s)"
    and sheet: "\<And>t. find (\<lambda>t. tk_id t = ref) (sd_settlements db) = Some t \<Longrightarrow> tk_sep t = k"
  shows "post (live ru env x k db) (accept_receipt env s ref version receipt db)"
  unfolding accept_receipt_def
proof (rule post_ensure_bind, rule post_bind_any, rule post_ensure_bind, rule record_live [OF find_live [OF s(1) d] s(2)])
  fix t
  assume "require (find (\<lambda>t. tk_id t = ref) (sd_settlements db)) (PlainError ''TypeError'') = Inr t"
  then have "tk_sep t = k" using sheet by simp
  then have "rows_of j (map (\<lambda>r. if tk_sep r = tk_sep t \<and> tk_id r = tk_id t then f r else r) rows) = rows_of j rows"
    if "j \<noteq> k" "\<And>r. tk_sep (f r) = tk_sep r" for j f and rows :: "settlement task_row list"
    using that by (induction rows) (auto simp: rows_of_def)
  then show "quiet k db (db\<lparr>sd_settlements := map (\<lambda>r. if tk_sep r = tk_sep t \<and> tk_id r = tk_id t
          then r\<lparr>tk_status := ''COMPLETED'', tk_payload := (tk_payload t)\<lparr>st_receiptRef := Some receipt\<rparr>,
            tk_version := tk_version r + 1\<rparr> else r) (sd_settlements db)\<rparr>)"
    by (simp add: quiet_def same_tasks_def)
qed

text \<open>Opening a case: one row and one history entry, under a number no case has had.\<close>

definition opened :: "sep_db \<Rightarrow> sep_db \<Rightarrow> separation \<Rightarrow> bool" where
  "opened db db' s \<longleftrightarrow>
    sx_id s = sd_next db \<and> sx_state s = Draft \<and> sx_version s = 1 \<and> sx_approvedAt s = None \<and> sx_verification s = None \<and>
    sx_verifiedBy s = None \<and> (\<forall>r \<in> set (sd_separations db). \<not> open_case (sx_employeeCode s) r) \<and>
    sd_separations db' = sd_separations db @ [s] \<and> sd_next db' = sd_next db + 1 \<and> (\<forall>k. same_tasks k db db') \<and>
    (\<exists>t. sd_audit db' = sd_audit db @ [t] \<and> tn_sep t = sx_id s \<and> tn_version t = 1 \<and> tn_from t = Draft \<and> tn_to t = Draft)"

lemma create_refines: "post (\<lambda>(db', s). opened db db' s) (createSeparation env input db)"
proof -
  have n: "sd_separations (notify s m key db) = sd_separations db" "sd_audit (notify s m key db) = sd_audit db"
    "sd_next (notify s m key db) = sd_next db" "same_tasks k d (notify s m key db) = same_tasks k d db" for s m key k d db
    by (simp_all add: notify_def add_delivery_def same_tasks_def)
  have same: "same_tasks k d (d\<lparr>sd_separations := a, sd_next := b, sd_audit := c\<rparr>)" for k d a b c
    by (simp add: same_tasks_def)
  show ?thesis
    unfolding createSeparation_def
  proof (rule post_ensure_bind, rule post_bind_any, rule post_bind_any, rule post_bind_any, rule post_ensure_bind, rule post_bind_any,
      rule post_Let, rule post_Let, rule post_ensure_bind, rule post_ensure_bind, rule post_ensure_bind, rule post_ensure_bind,
      rule post_Let, rule post_Let, rule post_bind [OF audit_post], goal_cases)
    case (1 e p u category gradeCode managerCode row db1 db2)
    then show ?case
      by (auto simp: post_def opened_def n new_separation_def list_ex_iff same)
  qed
qed

end
