(* ===== verification/SeparationCases.thy ===== *)
theory SeparationCases
  imports CaseLog
begin

text \<open>
  What holds of the separations of a company whatever commands run, in whatever order: the step
  relation of the whole component, its invariants, and the properties that rest on them.
\<close>

section \<open>Steps\<close>

text \<open>
  One constructor per command, under any environment; the worker's sweep of one case, a fetched source, a
  confirmed hand-over (the delivery names a sheet of its own case); and what other services do to
  the directory, the approvals and the delivery tables.
\<close>

inductive sep_step :: "rules \<Rightarrow> sep_db \<Rightarrow> sep_db \<Rightarrow> bool" for ru where
  created: "createSeparation env ci db = Inr (db', s) \<Longrightarrow> sep_step ru db db'"
| edited: "editSeparation env ref ei db = Inr (db', s) \<Longrightarrow> sep_step ru db db'"
| acted: "separationAction ru env ref action reason rehire db = Inr (db', s) \<Longrightarrow> sep_step ru db db'"
| recommended: "recommendSeparation ru env ref rec db = Inr (db', s) \<Longrightarrow> sep_step ru db db'"
| verified: "verifySeparation ru env ref findings db = Inr (db', s) \<Longrightarrow> sep_step ru db db'"
| decided: "decideSeparation ru env ref di db = Inr (db', s) \<Longrightarrow> sep_step ru db db'"
| reverted: "revertSeparation ru env ref reason db = Inr (db', s) \<Longrightarrow> sep_step ru db db'"
| noticed: "noticeAction ru env ref ni db = Inr (db', s) \<Longrightarrow> sep_step ru db db'"
| replaced: "replacementAction env ref wi db = Inr (db', s) \<Longrightarrow> sep_step ru db db'"
| transferred: "ktAction env ref wi db = Inr (db', s) \<Longrightarrow> sep_step ru db db'"
| asset: "assetAction env ref ai db = Inr (db', s) \<Longrightarrow> sep_step ru db db'"
| access: "accessAction env ref xi db = Inr (db', s) \<Longrightarrow> sep_step ru db db'"
| cleared: "clearanceAction ru env ref ki db = Inr (db', s) \<Longrightarrow> sep_step ru db db'"
| interviewed: "interviewAction env ref v ev iv db = Inr (db', s) \<Longrightarrow> sep_step ru db db'"
| settled: "settlementAction ru env ref li db = Inr (db', s) \<Longrightarrow> sep_step ru db db'"
| synced: "syncSource env ref src db = Inr (db', s) \<Longrightarrow> sep_step ru db db'"
| swept: "sweep_separation ru now k db = Inr db' \<Longrightarrow> sep_step ru db db'"
| fetched: "find (\<lambda>s. sx_id s = k) (sd_separations db) = Some s0 \<Longrightarrow> \<not> terminal (sx_state s0) \<Longrightarrow>
    storeSourceSnapshot (sweep_env now) s0 src db = Inr (db', s) \<Longrightarrow> sep_step ru db db'"
| confirmed: "find (\<lambda>s. sx_id s = k) (sd_separations db) = Some s0 \<Longrightarrow> \<not> terminal (sx_state s0) \<Longrightarrow>
    list_all (\<lambda>t. tk_id t = sheet \<longrightarrow> tk_sep t = k) (sd_settlements db) \<Longrightarrow>
    accept_receipt (sweep_env now) s0 sheet v receipt db = Inr (db', s) \<Longrightarrow> sep_step ru db db'"
| elsewhere: "sep_step ru db (db\<lparr>sd_aliases := al, sd_employees := es, sd_grades := gr, sd_requisitions := rq, sd_policy := po,
    sd_approvals := ap, sd_deliveries := dv, sd_events := vt, sd_expired := ex, sd_outbox := ob\<rparr>)"

definition unrelated :: "sep_db \<Rightarrow> sep_db \<Rightarrow> bool" where
  "unrelated db db' \<longleftrightarrow> sd_separations db' = sd_separations db \<and> sd_audit db' = sd_audit db \<and> sd_next db' = sd_next db \<and>
     (\<forall>k. same_tasks k db db')"

text \<open>Every command on a case begins with its authorization.\<close>

definition authorized :: "sep_env \<Rightarrow> sep_ref \<Rightarrow> sep_db \<Rightarrow> bool" where
  "authorized env ref db \<longleftrightarrow> (\<exists>s. authorizedSeparation env True ref db = Inr s)"

lemma bind_authorized:
  "rbind (authorizedSeparation env True ref db) f = Inr y \<Longrightarrow> authorized env ref db"
  by (auto simp: authorized_def rbind_Inr_iff)

lemma bind_after: "rbind m f = Inr y \<Longrightarrow> (\<And>x. f x = Inr y \<Longrightarrow> Q) \<Longrightarrow> Q"
  by (cases m) auto

lemma starts_authorized:
  "editSeparation env ref ei db = Inr y \<Longrightarrow> authorized env ref db"
  "separationAction ru env ref action reason rehire db = Inr y \<Longrightarrow> authorized env ref db"
  "revertSeparation ru env ref reason db = Inr y \<Longrightarrow> authorized env ref db"
  "noticeAction ru env ref ni db = Inr y \<Longrightarrow> authorized env ref db"
  unfolding editSeparation_def separationAction_def revertSeparation_def noticeAction_def
  by (erule bind_authorized)+

lemma starts_permitted:
  "recommendSeparation ru env ref rec db = Inr y \<Longrightarrow> authorized env ref db"
  "verifySeparation ru env ref findings db = Inr y \<Longrightarrow> authorized env ref db"
  "decideSeparation ru env ref di db = Inr y \<Longrightarrow> authorized env ref db"
  "replacementAction env ref wi db = Inr y \<Longrightarrow> authorized env ref db"
  "ktAction env ref wi db = Inr y \<Longrightarrow> authorized env ref db"
  "assetAction env ref ai db = Inr y \<Longrightarrow> authorized env ref db"
  "accessAction env ref xi db = Inr y \<Longrightarrow> authorized env ref db"
  "clearanceAction ru env ref ki db = Inr y \<Longrightarrow> authorized env ref db"
  "interviewAction env ref v ev iv db = Inr y \<Longrightarrow> authorized env ref db"
  "settlementAction ru env ref li db = Inr y \<Longrightarrow> authorized env ref db"
  "syncSource env ref src db = Inr y \<Longrightarrow> authorized env ref db"
  unfolding recommendSeparation_def verifySeparation_def decideSeparation_def replacementAction_def ktAction_def assetAction_def
    accessAction_def clearanceAction_def interviewAction_def settlementAction_def syncSource_def
  by (erule bind_after, erule bind_authorized)+

definition on_case :: "rules \<Rightarrow> sep_env \<Rightarrow> bool \<Rightarrow> nat \<Rightarrow> sep_db \<Rightarrow> sep_db \<Rightarrow> bool" where
  "on_case ru env x j db db' \<longleftrightarrow>
    (\<exists>s. row_of j db = Some s \<and> \<not> terminal (sx_state s)) \<and> (\<exists>s'. live ru env x j db (db', s'))"

lemma on_caseI:
  assumes d: "distinct (map sx_id (sd_separations db))" and a: "authorized env ref db" and p: "post (live ru env x (si_ref ref) db) m" and r: "m = Inr (db', s)"
  shows "on_case ru env x (si_ref ref) db db'"
proof -
  obtain s0 where "authorizedSeparation env True ref db = Inr s0" using a by (auto simp: authorized_def)
  then have "\<not> terminal (sx_state s0)" "live ru env x (si_ref ref) db (db, s0)"
    using postD [OF authorized_post [OF d]] by blast+
  then show ?thesis using postD [OF p r] by (auto simp: on_case_def live_def)
qed

section \<open>The exit gate\<close>

definition same_gate :: "nat \<Rightarrow> sep_db \<Rightarrow> sep_db \<Rightarrow> bool" where
  "same_gate k db db' \<longleftrightarrow>
    rows_of k (sd_notices db') = rows_of k (sd_notices db) \<and> rows_of k (sd_plans db') = rows_of k (sd_plans db) \<and>
    rows_of k (sd_sessions db') = rows_of k (sd_sessions db) \<and> rows_of k (sd_transfers db') = rows_of k (sd_transfers db) \<and>
    rows_of k (sd_assets db') = rows_of k (sd_assets db) \<and> rows_of k (sd_access db') = rows_of k (sd_access db) \<and>
    rows_of k (sd_clearances db') = rows_of k (sd_clearances db) \<and> rows_of k (sd_interviews db') = rows_of k (sd_interviews db) \<and>
    rows_of k (sd_settlements db') = rows_of k (sd_settlements db) \<and> rows_of k (sd_sources db') = rows_of k (sd_sources db)"

lemma same_gate_trans: "same_gate k a b \<Longrightarrow> same_gate k b c \<Longrightarrow> same_gate k a c"
  by (simp add: same_gate_def)

lemma same_tasks_gate: "same_tasks k a b \<Longrightarrow> same_gate k a b"
  by (simp add: same_tasks_def same_gate_def)

lemma find_filter: "find (\<lambda>t. P t \<and> Q t) xs = find Q (filter P xs)"
  by (induction xs) auto

lemma first_row_rows: "first_row k rows = find (\<lambda>_. True) (rows_of k rows)"
  using find_filter [of "\<lambda>t. tk_sep t = k" "\<lambda>_. True" rows] by (simp add: first_row_def rows_of_def)

lemma keyed_row_rows: "keyed_row k key rows = find (\<lambda>t. tk_key t = key) (rows_of k rows)"
  using find_filter [of "\<lambda>t. tk_sep t = k" "\<lambda>t. tk_key t = key" rows] by (simp add: keyed_row_def rows_of_def)

text \<open>The gate reads nothing but the workstream rows of the case.\<close>

lemma gate_local:
  assumes g: "same_gate (sx_id s) db db'" and k: "sx_id s' = sx_id s"
  shows "assertExitComplete ru s' db' = assertExitComplete ru s db"
proof -
  have rows: "rows_of (sx_id s) (sd_notices db') = rows_of (sx_id s) (sd_notices db)"
    "rows_of (sx_id s) (sd_plans db') = rows_of (sx_id s) (sd_plans db)"
    "rows_of (sx_id s) (sd_sessions db') = rows_of (sx_id s) (sd_sessions db)"
    "rows_of (sx_id s) (sd_transfers db') = rows_of (sx_id s) (sd_transfers db)"
    "rows_of (sx_id s) (sd_assets db') = rows_of (sx_id s) (sd_assets db)"
    "rows_of (sx_id s) (sd_access db') = rows_of (sx_id s) (sd_access db)"
    "rows_of (sx_id s) (sd_clearances db') = rows_of (sx_id s) (sd_clearances db)"
    "rows_of (sx_id s) (sd_interviews db') = rows_of (sx_id s) (sd_interviews db)"
    "rows_of (sx_id s) (sd_settlements db') = rows_of (sx_id s) (sd_settlements db)"
    "rows_of (sx_id s) (sd_sources db') = rows_of (sx_id s) (sd_sources db)"
    using g by (simp_all add: same_gate_def)
  show ?thesis
    unfolding assertExitComplete_def assertHandoverComplete_def first_row_rows keyed_row_rows Let_def k rows by (rule refl)
qed

lemma post_trans: "(\<And>a b c. R a b \<Longrightarrow> R b c \<Longrightarrow> R a c) \<Longrightarrow> R db d \<Longrightarrow> post (R d) m \<Longrightarrow> post (R db) m"
  by (auto simp: post_def)

lemma emit_tasks: "post (same_tasks k db) (emit env s name db)"
  unfolding emit_def by (rule post_ensure_bind, rule post_Inr) (simp add: same_tasks_def)

lemma change_tasks: "post (\<lambda>y. same_tasks k db (fst y)) (change ru env s target action reason data ev db)"
proof -
  have u: "post (\<lambda>y. same_tasks k db (fst y)) (update_sep j f db)" for j f
    unfolding update_sep_def by (rule post_option, rule post_Inl, rule post_Inr) (simp add: same_tasks_def)
  have n: "same_tasks k d (notify s m key d)" for s m key d
    by (simp add: notify_def add_delivery_def same_tasks_def)
  show ?thesis
    unfolding change_def
  proof (rule post_ensure_bind, rule post_bind [OF u], rule post_prod, rule post_Let, rule post_bind [OF audit_post], rule post_bind)
    fix y d rv d2 and row :: separation
    assume y: "y = (d, row)" "same_tasks k db (fst y)" and d2: "\<exists>t. d2 = d\<lparr>sd_audit := sd_audit d @ [t]\<rparr> \<and> tn_sep t = sx_id row \<and> tn_version t = sx_version row \<and>
       tn_from t = sx_state s \<and> tn_to t = sx_state row \<and> tn_action t = action \<and> tn_actor t = actor_code env"
    then have "same_tasks k db d2" by (auto simp: same_tasks_def)
    then show "post (same_tasks k db) (case ev of None \<Rightarrow> Inr d2 | Some name \<Rightarrow> emit env row name d2)"
      by (intro post_option post_Inr post_mono [OF emit_tasks]) (auto intro: same_tasks_trans)
  next
    fix y d rv d2 d3 and row :: separation
    assume "same_tasks k db d3"
    then show "post (\<lambda>y. same_tasks k db (fst y)) (Inr (notify row action (''transition:'' @ show_nat (sx_id s) @ '':'' @ show_nat (sx_version row)) d3, row))"
      using same_tasks_trans [OF _ n] by (simp add: post_def)
  qed
qed

lemma document_gate: "post (same_gate k db) (generateDocument ru env s kind db)"
  unfolding generateDocument_def
  by (rule post_bind_any, rule post_if, rule post_Inr, simp add: same_gate_def, rule post_bind [OF createTask_post])
    (auto simp: post_def same_gate_def)

text \<open>An exit passes the gate, and leaves the rows the gate reads as they were.\<close>

lemma exit_post: "post (\<lambda>y. assertExitComplete ru s db = Inr () \<and> same_gate k db (fst y)) (completeExit ru env s reason rehire db)"
  unfolding completeExit_def
proof (rule post_bind_any, rule post_bind_any, rule post_ensure_bind, rule post_bind_any, rule post_bind [OF change_tasks [where k = k]], rule post_prod,
    rule post_bind_any, rule post_Let, rule post_Let, rule post_bind [OF emit_tasks [where k = k]], rule post_bind [OF document_gate [where k = k]], rule post_Inr, goal_cases)
  case (1 u rehire g y d1 s1 e d2 d3 d4 d5)
  have "same_gate k d1 d3" unfolding 1 by (simp add: same_gate_def separate_employee_def)
  moreover have "same_gate k db d1" using 1 by (simp add: same_tasks_gate)
  moreover have "same_gate k d3 d4" using 1 same_tasks_gate by blast
  moreover have "same_gate k d4 d5" using 1 by blast
  ultimately have "same_gate k db d5" by (meson same_gate_trans)
  then show ?case using 1 by simp
qed

definition exit_passed :: "rules \<Rightarrow> nat \<Rightarrow> sep_db \<Rightarrow> sep_db \<Rightarrow> bool" where
  "exit_passed ru j db db' \<longleftrightarrow>
    (\<exists>s. row_of j db = Some s \<and> assertExitComplete ru s db = Inr () \<and> same_gate j db db')"

lemma acted_exit:
  assumes r: "separationAction ru env ref ''COMPLETE_EXIT'' reason rehire db = Inr (db', s')" and d: "distinct (map sx_id (sd_separations db))"
  shows "exit_passed ru (si_ref ref) db db'"
proof -
  obtain s where a: "authorizedSeparation env True ref db = Inr s" and c: "completeExit ru env s reason rehire db = Inr (db', s')"
    using r unfolding separationAction_def rbind_Inr_iff by auto
  have "row_of (si_ref ref) db = Some s"
    using postD [OF authorized_post [OF d] a] by (auto simp: live_def)
  then show ?thesis
    using postD [OF exit_post [where k = "si_ref ref"] c] by (auto simp: exit_passed_def)
qed

section \<open>Every step refines the lifecycle\<close>

definition refined :: "rules \<Rightarrow> sep_db \<Rightarrow> sep_db \<Rightarrow> bool" where
  "refined ru db db' \<longleftrightarrow> (\<exists>env j x. on_case ru env x j db db' \<and> (x \<longrightarrow> exit_passed ru j db db'))"

lemma refinedI:
  assumes "distinct (map sx_id (sd_separations db))" and "authorized env ref db" and "post (live ru env False (si_ref ref) db) m"
    and "m = Inr (db', s)"
  shows "refined ru db db'"
  using on_caseI [OF assms] by (auto simp: refined_def)

text \<open>Every step opens a case, moves one open case along the lifecycle, or leaves all cases alone.\<close>

lemma step_refines:
  assumes "sep_step ru db db'" and d: "distinct (map sx_id (sd_separations db))"
  shows "(\<exists>s. opened db db' s) \<or> refined ru db db' \<or> unrelated db db'"
  using assms(1)
proof cases
  case (created env ci s)
  then show ?thesis using postD [OF create_refines] by fastforce
next
  case (edited env ref ei s)
  show ?thesis using refinedI [OF d starts_authorized(1) [OF edited] edit_refines [OF d] edited] by blast
next
  case (acted env ref action reason rehire s)
  have "action = ''COMPLETE_EXIT'' \<longrightarrow> exit_passed ru (si_ref ref) db db'" using acted_exit [OF _ d] acted by blast
  then have "refined ru db db'"
    using on_caseI [OF d starts_authorized(2) [OF acted] action_refines [OF d] acted] unfolding refined_def by blast
  then show ?thesis by blast
next
  case (recommended env ref rec s)
  show ?thesis using refinedI [OF d starts_permitted(1) [OF recommended] recommend_refines [OF d] recommended] by blast
next
  case (verified env ref findings s)
  show ?thesis using refinedI [OF d starts_permitted(2) [OF verified] verify_refines [OF d] verified] by blast
next
  case (decided env ref di s)
  show ?thesis using refinedI [OF d starts_permitted(3) [OF decided] decide_refines [OF d] decided] by blast
next
  case (reverted env ref reason s)
  show ?thesis using refinedI [OF d starts_authorized(3) [OF reverted] revert_refines [OF d] reverted] by blast
next
  case (noticed env ref ni s)
  show ?thesis using refinedI [OF d starts_authorized(4) [OF noticed] notice_refines [OF d] noticed] by blast
next
  case (replaced env ref wi s)
  show ?thesis using refinedI [OF d starts_permitted(4) [OF replaced] replacement_refines [OF d] replaced] by blast
next
  case (transferred env ref wi s)
  show ?thesis using refinedI [OF d starts_permitted(5) [OF transferred] kt_refines [OF d] transferred] by blast
next
  case (asset env ref ai s)
  show ?thesis using refinedI [OF d starts_permitted(6) [OF asset] asset_refines [OF d] asset] by blast
next
  case (access env ref xi s)
  show ?thesis using refinedI [OF d starts_permitted(7) [OF access] access_refines [OF d] access] by blast
next
  case (cleared env ref ki s)
  show ?thesis using refinedI [OF d starts_permitted(8) [OF cleared] clearance_refines [OF d] cleared] by blast
next
  case (interviewed env ref v ev iv s)
  show ?thesis using refinedI [OF d starts_permitted(9) [OF interviewed] interview_refines [OF d] interviewed] by blast
next
  case (settled env ref li s)
  show ?thesis using refinedI [OF d starts_permitted(10) [OF settled] settlement_refines [OF d] settled] by blast
next
  case (synced env ref src s)
  show ?thesis using refinedI [OF d starts_permitted(11) [OF synced] sync_refines [OF d] synced] by blast
next
  case (swept now k)
  show ?thesis
    using postD [OF sweep_refines [OF d, where x = False] swept] by (fastforce simp: refined_def on_case_def unrelated_def)
next
  case (fetched k s0 src s)
  then have "row_of k db = Some s0" by (simp add: row_of_def)
  then show ?thesis
    using postD [OF source_refines [OF find_live [OF fetched(1) d, where x = False] fetched(2)] fetched(3)] fetched(2)
    by (fastforce simp: refined_def on_case_def)
next
  case (confirmed k s0 sheet v receipt s)
  have "tk_sep t = k" if "find (\<lambda>t. tk_id t = sheet) (sd_settlements db) = Some t" for t
    using confirmed(3) find_sound [OF that] by (auto simp: list_all_iff)
  then show ?thesis
    using postD [OF receipt_refines [OF d confirmed(1,2), where x = False] confirmed(4)] confirmed(1,2)
    by (fastforce simp: refined_def on_case_def row_of_def)
next
  case elsewhere
  then show ?thesis by (auto simp: unrelated_def same_tasks_def)
qed

section \<open>Invariants\<close>

definition history :: "nat \<Rightarrow> sep_db \<Rightarrow> transition list" where
  "history k db = filter (\<lambda>t. tn_sep t = k) (sd_audit db)"

fun replays :: "sep_state \<Rightarrow> nat \<Rightarrow> transition list \<Rightarrow> (sep_state \<times> nat) option" where
  "replays st v [] = Some (st, v)"
| "replays st v (t # ts) = (if tn_from t = st \<and> tn_version t = v + 1 then replays (tn_to t) (v + 1) ts else None)"

lemma replays_append:
  "replays st v (ts @ [t]) = (case replays st v ts of None \<Rightarrow> None
     | Some (a, b) \<Rightarrow> if tn_from t = a \<and> tn_version t = b + 1 then Some (tn_to t, b + 1) else None)"
  by (induction ts arbitrary: st v) auto

definition cases_ok :: "sep_db \<Rightarrow> bool" where
  "cases_ok db \<longleftrightarrow>
    distinct (map sx_id (sd_separations db)) \<and> (\<forall>s \<in> set (sd_separations db). sx_id s < sd_next db) \<and>
    (\<forall>t \<in> set (sd_audit db). tn_sep t < sd_next db) \<and>
    (\<forall>s \<in> set (sd_separations db). \<forall>r \<in> set (sd_separations db).
       \<not> terminal (sx_state s) \<and> open_case (sx_employeeCode s) r \<longrightarrow> sx_id s = sx_id r) \<and>
    (\<forall>s \<in> set (sd_separations db). replays Draft 0 (history (sx_id s) db) = Some (sx_state s, sx_version s))"

lemma quiet_cases: "quiet j db db' \<Longrightarrow> cases_ok db \<Longrightarrow> cases_ok db'"
  by (fastforce simp: quiet_def cases_ok_def history_def)

lemma moved_cases:
  assumes m: "moved ru env x j db db'" and ok: "cases_ok db"
  shows "cases_ok db'"
proof -
  obtain s s' t where row: "row_of j db = Some s" and o: "\<not> terminal (sx_state s)" and step: "lifecycle ru env s s'"
    and h: "history_entry s s' t" and seps: "sd_separations db' = map (\<lambda>r. if sx_id r = j then s' else r) (sd_separations db)"
    and audit: "sd_audit db' = sd_audit db @ [t]" and nxt: "sd_next db' = sd_next db"
    using m unfolding moved_def by blast
  have s: "s \<in> set (sd_separations db)" "sx_id s = j" using find_sound [OF row [unfolded row_of_def]] by simp_all
  note same = lifecycle_identity [OF step]
  have hist: "history k db' = history k db @ (if k = j then [t] else [])" for k
    using h s by (auto simp: history_def audit history_entry_def)
  have "replays Draft 0 (history (sx_id r) db') = Some (sx_state r, sx_version r)" if "r \<in> set (sd_separations db')" for r
  proof (cases "sx_id r = j")
    case True
    then have "r = s'" using that same s(2) by (auto simp: seps)
    then show ?thesis
      using ok s h same by (auto simp: hist True cases_ok_def replays_append history_entry_def)
  next
    case False
    then have "r \<in> set (sd_separations db)" using that same s by (auto simp: seps split: if_splits)
    then show ?thesis using ok False by (simp add: hist cases_ok_def)
  qed
  moreover have "sx_id a = sx_id b" if "a \<in> set (sd_separations db')" "b \<in> set (sd_separations db')" "\<not> terminal (sx_state a)"
    "open_case (sx_employeeCode a) b" for a b
  proof -
    have old: "\<exists>r0 \<in> set (sd_separations db). sx_id r0 = sx_id r \<and> sx_employeeCode r0 = sx_employeeCode r \<and> \<not> terminal (sx_state r0)"
      if "r \<in> set (sd_separations db')" "\<not> terminal (sx_state r)" for r
      using that s o same by (auto simp: seps split: if_splits)
    show ?thesis using old [OF that(1,3)] old [of b] that ok unfolding cases_ok_def open_case_def by metis
  qed
  moreover have "distinct (map sx_id (sd_separations db'))"
    unfolding seps using ok s same by (intro distinct_replace) (simp_all add: cases_ok_def)
  moreover have "sx_id r < sd_next db'" if "r \<in> set (sd_separations db')" for r
    using that ok s same unfolding seps nxt cases_ok_def by (auto split: if_splits)
  moreover have "tn_sep e < sd_next db'" if "e \<in> set (sd_audit db')" for e
    using that ok s h unfolding audit nxt cases_ok_def history_entry_def by auto
  ultimately show ?thesis unfolding cases_ok_def by blast
qed

lemma cases_distinct: "cases_ok db \<Longrightarrow> distinct (map sx_id (sd_separations db))"
  by (simp add: cases_ok_def)

lemma opened_cases:
  assumes n: "opened db db' s" and ok: "cases_ok db"
  shows "cases_ok db'"
proof -
  obtain t where t: "sd_audit db' = sd_audit db @ [t]" "tn_sep t = sx_id s" "tn_version t = 1" "tn_from t = Draft" "tn_to t = Draft"
    using n unfolding opened_def by blast
  have s: "sx_id s = sd_next db" "sx_state s = Draft" "sx_version s = 1" "sd_separations db' = sd_separations db @ [s]"
    "sd_next db' = sd_next db + 1" "\<forall>r \<in> set (sd_separations db). \<not> open_case (sx_employeeCode s) r"
    using n by (simp_all add: opened_def)
  have audited: "tn_sep e < sd_next db" if "e \<in> set (sd_audit db)" for e
    using ok that unfolding cases_ok_def by (elim conjE) (rule bspec)
  have ids: "sx_id r < sd_next db" if "r \<in> set (sd_separations db)" for r
    using ok that unfolding cases_ok_def by (elim conjE) (rule bspec)
  have "history (sx_id s) db = []" using audited by (force simp: history_def filter_empty_conv s(1))
  then have "replays Draft 0 (history (sx_id s) db') = Some (sx_state s, sx_version s)"
    using t s by (simp add: history_def)
  moreover have "history (sx_id r) db' = history (sx_id r) db" if "r \<in> set (sd_separations db)" for r
    using ids [OF that] by (simp add: history_def t(1,2) s(1))
  ultimately have "\<forall>r \<in> set (sd_separations db'). replays Draft 0 (history (sx_id r) db') = Some (sx_state r, sx_version r)"
    using ok unfolding s(4) cases_ok_def by (elim conjE) simp
  moreover have "distinct (map sx_id (sd_separations db'))"
    using cases_distinct [OF ok] ids by (force simp: s(1,4))
  moreover have "\<forall>r \<in> set (sd_separations db'). sx_id r < sd_next db'" "\<forall>e \<in> set (sd_audit db'). tn_sep e < sd_next db'"
    using ids audited by (auto simp: s(1,4,5) t(1,2) less_Suc_eq)
  moreover have "sx_id a = sx_id b" if "a \<in> set (sd_separations db')" "b \<in> set (sd_separations db')"
    "\<not> terminal (sx_state a)" "open_case (sx_employeeCode a) b" for a b
  proof -
    have no: "sx_employeeCode r \<noteq> sx_employeeCode s" if "r \<in> set (sd_separations db)" "\<not> terminal (sx_state r)" for r
      using that s(6) by (auto simp: open_case_def)
    show ?thesis
    proof (cases "a = s \<or> b = s")
      case True
      then show ?thesis using that no unfolding s(4) open_case_def by (metis Un_iff empty_iff empty_set list.simps(15) insert_iff set_append)
    next
      case False
      then show ?thesis using that ok unfolding s(4) cases_ok_def by auto
    qed
  qed
  ultimately show ?thesis unfolding cases_ok_def by blast
qed

lemma unrelated_cases: "unrelated db db' \<Longrightarrow> cases_ok db \<Longrightarrow> cases_ok db'"
  by (simp add: unrelated_def cases_ok_def history_def)

lemma case_steps_ok: "(case_step ru env x j)\<^sup>*\<^sup>* db db' \<Longrightarrow> cases_ok db \<Longrightarrow> cases_ok db'"
  by (induction rule: rtranclp_induct) (auto simp: case_step_def intro: quiet_cases moved_cases)

lemma refined_cases: "refined ru db db' \<Longrightarrow> cases_ok db \<Longrightarrow> cases_ok db'"
  by (auto simp: refined_def on_case_def live_def intro: case_steps_ok)

lemma step_cases: "sep_step ru db db' \<Longrightarrow> cases_ok db \<Longrightarrow> cases_ok db'"
  using step_refines [of ru db db'] opened_cases refined_cases unrelated_cases cases_distinct by blast

definition no_cases :: "sep_db \<Rightarrow> bool" where
  "no_cases db \<longleftrightarrow> sd_separations db = [] \<and> sd_audit db = []"

definition reached :: "rules \<Rightarrow> sep_db \<Rightarrow> sep_db \<Rightarrow> bool" where
  "reached ru db0 db \<longleftrightarrow> no_cases db0 \<and> (sep_step ru)\<^sup>*\<^sup>* db0 db"

lemma steps_cases: "(sep_step ru)\<^sup>*\<^sup>* db db' \<Longrightarrow> cases_ok db \<Longrightarrow> cases_ok db'"
  by (induction rule: rtranclp_induct) (auto intro: step_cases)

lemma reached_cases: "reached ru db0 db \<Longrightarrow> cases_ok db"
proof -
  have "no_cases db0 \<Longrightarrow> cases_ok db0" by (simp add: no_cases_def cases_ok_def)
  then show "reached ru db0 db \<Longrightarrow> cases_ok db" using steps_cases unfolding reached_def by blast
qed

text \<open>A case other than the one a step is about keeps its row, its workstream rows and its history.\<close>

definition same_case :: "nat \<Rightarrow> sep_db \<Rightarrow> sep_db \<Rightarrow> bool" where
  "same_case k db db' \<longleftrightarrow> row_of k db' = row_of k db \<and> same_tasks k db db' \<and> history k db' = history k db"

lemma same_case_refl [simp]: "same_case k db db" by (simp add: same_case_def)

lemma same_case_trans: "same_case k a b \<Longrightarrow> same_case k b c \<Longrightarrow> same_case k a c"
  using same_tasks_trans by (fastforce simp: same_case_def)

lemma moved_other:
  assumes m: "moved ru env x j db db'" and k: "k \<noteq> j"
  shows "same_case k db db'"
proof -
  obtain s s' t where row: "row_of j db = Some s" and step: "lifecycle ru env s s'" and h: "history_entry s s' t"
    and seps: "sd_separations db' = map (\<lambda>r. if sx_id r = j then s' else r) (sd_separations db)"
    and audit: "sd_audit db' = sd_audit db @ [t]" and tasks: "\<And>k. same_tasks k db db'"
    using m unfolding moved_def by blast
  have "sx_id s = j" using find_sound [OF row [unfolded row_of_def]] by simp
  then have id: "sx_id s' = j" "tn_sep t = j" using lifecycle_identity [OF step] h by (simp_all add: history_entry_def)
  have "find (\<lambda>r. sx_id r = k) (map (\<lambda>r. if sx_id r = j then s' else r) xs) = find (\<lambda>r. sx_id r = k) xs" for xs
    using k id by (induction xs) auto
  then show ?thesis using tasks id k by (simp add: same_case_def row_of_def seps history_def audit)
qed

lemma case_steps_other: "(case_step ru env x j)\<^sup>*\<^sup>* db db' \<Longrightarrow> k \<noteq> j \<Longrightarrow> same_case k db db'"
proof (induction rule: rtranclp_induct)
  case (step b c)
  have "same_case k b c"
    using step.hyps(2) step.prems moved_other
    by (auto simp: case_step_def same_case_def quiet_def row_of_def history_def)
  then show ?case using step.IH step.prems same_case_trans by blast
qed simp

lemma on_case_other: "on_case ru env x j db db' \<Longrightarrow> k \<noteq> j \<Longrightarrow> same_case k db db'"
  by (auto simp: on_case_def live_def intro: case_steps_other)

lemma row_of_iff:
  assumes "distinct (map sx_id (sd_separations db))"
  shows "row_of k db = Some s \<longleftrightarrow> s \<in> set (sd_separations db) \<and> sx_id s = k"
proof
  assume "row_of k db = Some s"
  then show "s \<in> set (sd_separations db) \<and> sx_id s = k" using find_sound unfolding row_of_def by fastforce
next
  assume s: "s \<in> set (sd_separations db) \<and> sx_id s = k"
  have "find (\<lambda>s. sx_id s = k) xs = Some s" if "s \<in> set xs" "distinct (map sx_id xs)" "sx_id s = k" for xs
    using that by (induction xs) auto
  then show "row_of k db = Some s" using s assms unfolding row_of_def by blast
qed

lemma step_terminal:
  assumes st: "sep_step ru db db'" and ok: "cases_ok db" and s: "s \<in> set (sd_separations db)" and t: "terminal (sx_state s)"
  shows "s \<in> set (sd_separations db') \<and> same_case (sx_id s) db db'"
proof -
  have d: "distinct (map sx_id (sd_separations db))" and d': "distinct (map sx_id (sd_separations db'))"
    using ok step_cases [OF st ok] by (simp_all add: cases_ok_def)
  have row: "row_of (sx_id s) db = Some s" using s row_of_iff [OF d] by blast
  consider (open_new) n where "opened db db' n" | (on) env j x where "on_case ru env x j db db'" | (un) "unrelated db db'"
    using step_refines [OF st d] unfolding refined_def by blast
  then have "same_case (sx_id s) db db'"
  proof cases
    case (open_new n)
    then obtain e where e: "sd_audit db' = sd_audit db @ [e]" "tn_sep e = sx_id n" "sx_id n = sd_next db"
      and seps: "sd_separations db' = sd_separations db @ [n]" and tasks: "\<And>k. same_tasks k db db'"
      unfolding opened_def by blast
    have "sx_id s < sd_next db" using ok s by (simp add: cases_ok_def)
    moreover have "row_of (sx_id s) db' = Some s" using s seps row_of_iff [OF d'] by simp
    ultimately show ?thesis using row e tasks by (auto simp: same_case_def history_def)
  next
    case (on env j x)
    then have "sx_id s \<noteq> j" using row t by (auto simp: on_case_def)
    then show ?thesis using on_case_other [OF on] by blast
  next
    case un
    then show ?thesis by (simp add: unrelated_def same_case_def row_of_def history_def)
  qed
  then show ?thesis using row row_of_iff [OF d'] by (simp add: same_case_def)
qed

section \<open>Rows along the lifecycle\<close>

text \<open>What the lifecycle keeps of a row is an invariant of every case.\<close>

lemma case_steps_row:
  assumes "(case_step ru env x j)\<^sup>*\<^sup>* db db'" and "\<And>s s'. lifecycle ru env s s' \<Longrightarrow> P s \<Longrightarrow> P s'"
    and "\<forall>s \<in> set (sd_separations db). P s"
  shows "\<forall>s \<in> set (sd_separations db'). P s"
  using assms(1,3)
proof (induction rule: rtranclp_induct)
  case (step b c)
  then have b: "\<forall>s \<in> set (sd_separations b). P s" by blast
  from step.hyps(2) show ?case
    unfolding case_step_def
  proof
    assume "quiet j b c"
    then show ?thesis using b by (simp add: quiet_def)
  next
    assume "moved ru env x j b c"
    then obtain s s' where row: "row_of j b = Some s" "lifecycle ru env s s'"
      and seps: "sd_separations c = map (\<lambda>r. if sx_id r = j then s' else r) (sd_separations b)"
      unfolding moved_def by blast
    have "P s'" using assms(2) [OF row(2)] find_sound [OF row(1) [unfolded row_of_def]] b by blast
    then show ?thesis using b by (auto simp: seps)
  qed
qed blast

lemma step_row:
  assumes "sep_step ru db db'" and "cases_ok db" and "\<And>env s s'. lifecycle ru env s s' \<Longrightarrow> P s \<Longrightarrow> P s'"
    and "\<And>s. sx_state s = Draft \<Longrightarrow> sx_approvedAt s = None \<Longrightarrow> sx_verification s = None \<Longrightarrow> sx_verifiedBy s = None \<Longrightarrow> P s"
    and "\<forall>s \<in> set (sd_separations db). P s"
  shows "\<forall>s \<in> set (sd_separations db'). P s"
  using step_refines [OF assms(1) cases_distinct [OF assms(2)]]
proof (elim disjE)
  assume "\<exists>s. opened db db' s"
  then obtain s where "sd_separations db' = sd_separations db @ [s]" "P s" using assms(4) unfolding opened_def by blast
  then show ?thesis using assms(5) by simp
next
  assume "refined ru db db'"
  then show ?thesis
    using case_steps_row [OF _ assms(3) assms(5)] unfolding refined_def on_case_def live_def by auto
next
  assume "unrelated db db'"
  then show ?thesis using assms(5) by (simp add: unrelated_def)
qed

lemma reached_row:
  assumes "reached ru db0 db" and "\<And>env s s'. lifecycle ru env s s' \<Longrightarrow> P s \<Longrightarrow> P s'"
    and "\<And>s. sx_state s = Draft \<Longrightarrow> sx_approvedAt s = None \<Longrightarrow> sx_verification s = None \<Longrightarrow> sx_verifiedBy s = None \<Longrightarrow> P s"
  shows "\<forall>s \<in> set (sd_separations db). P s"
proof -
  have ok: "cases_ok db0" and start: "\<forall>s \<in> set (sd_separations db0). P s" and steps: "(sep_step ru)\<^sup>*\<^sup>* db0 db"
    using assms(1) by (simp_all add: reached_def no_cases_def cases_ok_def)
  from steps show ?thesis
  proof (induction rule: rtranclp_induct)
    case (step b c)
    show ?case by (rule step_row [OF step.hyps(2) steps_cases [OF step.hyps(1) ok] assms(2,3) step.IH])
  qed (rule start)
qed

definition in_review :: "sep_state \<Rightarrow> bool" where
  "in_review st \<longleftrightarrow> st \<in> set [Draft, Submitted, ManagerReview, HrVerification, ManagementDecision]"

lemma in_review_simps [simp]:
  "in_review Draft" "in_review Submitted" "in_review ManagerReview" "in_review HrVerification" "in_review ManagementDecision"
  "\<not> in_review Approved" "\<not> in_review NoticePeriod" "\<not> in_review HandoverInProgress" "\<not> in_review Clearance"
  "\<not> in_review ExitCompleted" "\<not> in_review Withdrawn" "\<not> in_review Cancelled"
  by (simp_all add: in_review_def)

definition reviewed :: "separation \<Rightarrow> bool" where
  "reviewed s \<longleftrightarrow>
    (sx_verification s = None \<longleftrightarrow> sx_verifiedBy s = None) \<and> sx_verifiedBy s \<noteq> Some (sx_employeeCode s) \<and>
    (sx_approvedAt s \<noteq> None \<longrightarrow> sx_verification s \<noteq> None \<and> sx_deferredUntil s = None \<and>
       \<not> in_review (sx_state s))"

lemma lifecycle_reviewed:
  assumes "\<And>a. ru_transition ru a ManagementDecision \<Longrightarrow> a = HrVerification"
    and r: "reviewed s" and step: "lifecycle ru env s s'"
  shows "reviewed s'"
  using step
proof cases
  case (verified f)
  then have "sx_state s = HrVerification" using assms(1) by blast
  then show ?thesis using r verified by (auto simp: reviewed_def)
next
  case (reverted target)
  then show ?thesis using r by (auto simp: reviewed_def)
next
  case (handed_over target)
  then show ?thesis using r by (auto simp: reviewed_def)
next
  case (ended target t)
  then show ?thesis using r by (auto simp: reviewed_def)
qed (use r in \<open>auto simp: reviewed_def\<close>)

section \<open>Exits\<close>

lemma case_steps_not_exited:
  assumes "(case_step ru env False j)\<^sup>*\<^sup>* db db'" and "row_of j db = Some s" and "sx_state s \<noteq> ExitCompleted" and "cases_ok db"
  shows "\<exists>s'. row_of j db' = Some s' \<and> sx_state s' \<noteq> ExitCompleted"
  using assms(1)
proof (induction rule: rtranclp_induct)
  case base
  then show ?case using assms(2,3) by blast
next
  case (step b c)
  then obtain s1 where s1: "row_of j b = Some s1" "sx_state s1 \<noteq> ExitCompleted" by blast
  from step.hyps(2) show ?case
    unfolding case_step_def
  proof
    assume "quiet j b c"
    then show ?thesis using s1 quiet_row by metis
  next
    assume "moved ru env False j b c"
    then obtain s2 s' where row: "row_of j b = Some s2" "lifecycle ru env s2 s'" "sx_state s' \<noteq> ExitCompleted"
      and seps: "sd_separations c = map (\<lambda>r. if sx_id r = j then s' else r) (sd_separations b)"
      unfolding moved_def by blast
    have "sx_id s' = j"
      using find_sound [OF row(1) [unfolded row_of_def]] lifecycle_identity [OF row(2)] by simp
    then have "row_of j c = Some s'"
      using find_map_replace [of j "\<lambda>_. s'" "sd_separations b"] row(1) by (simp add: row_of_def seps)
    then show ?thesis using row(3) by blast
  qed
qed

definition exits_ok :: "rules \<Rightarrow> sep_db \<Rightarrow> bool" where
  "exits_ok ru db \<longleftrightarrow>
    (\<forall>s \<in> set (sd_separations db). sx_state s = ExitCompleted \<longrightarrow> assertExitComplete ru s db = Inr ())"

lemma step_exits:
  assumes st: "sep_step ru db db'" and ok: "cases_ok db" and ex: "exits_ok ru db"
  shows "exits_ok ru db'"
  unfolding exits_ok_def
proof (intro ballI impI)
  fix s'
  assume s': "s' \<in> set (sd_separations db')" and exited: "sx_state s' = ExitCompleted"
  have ok': "cases_ok db'" using step_cases [OF st ok] .
  have row': "row_of (sx_id s') db' = Some s'" using s' row_of_iff [OF cases_distinct [OF ok']] by blast
  have kept: "assertExitComplete ru s' db' = Inr ()" if "same_case (sx_id s') db db'"
  proof -
    have "row_of (sx_id s') db = Some s'" using row' that by (simp add: same_case_def)
    then have "s' \<in> set (sd_separations db)" using row_of_iff [OF cases_distinct [OF ok]] by blast
    then have "assertExitComplete ru s' db = Inr ()" using ex exited by (simp add: exits_ok_def)
    then show ?thesis using gate_local [OF same_tasks_gate, of s' db db' s' ru] that by (simp add: same_case_def)
  qed
  consider (new) n where "opened db db' n" | (on) env j x where "on_case ru env x j db db'" "x \<longrightarrow> exit_passed ru j db db'" | (un) "unrelated db db'"
    using step_refines [OF st cases_distinct [OF ok]] unfolding refined_def by blast
  then show "assertExitComplete ru s' db' = Inr ()"
  proof cases
    case (new n)
    then have "n \<noteq> s'" "sd_separations db' = sd_separations db @ [n]" using exited by (auto simp: opened_def)
    then have "s' \<in> set (sd_separations db)" using s' by simp
    then show ?thesis using step_terminal [OF st ok] exited kept by (simp add: terminal_def)
  next
    case (on env j x)
    show ?thesis
    proof (cases "sx_id s' = j")
      case False
      then show ?thesis using on_case_other [OF on(1)] kept by blast
    next
      case True
      obtain s where s: "row_of j db = Some s" "\<not> terminal (sx_state s)" and steps: "(case_step ru env x j)\<^sup>*\<^sup>* db db'"
        using on(1) by (auto simp: on_case_def live_def)
      show ?thesis
      proof (cases x)
        case False
        then have "sx_state s' \<noteq> ExitCompleted"
          using case_steps_not_exited [of ru env j db db' s] steps s ok row' True by (auto simp: terminal_def)
        then show ?thesis using exited by blast
      next
        case x: True
        then obtain s0 where s0: "row_of j db = Some s0" "assertExitComplete ru s0 db = Inr ()" "same_gate j db db'"
          using on(2) by (auto simp: exit_passed_def)
        then have "sx_id s0 = j" using find_sound unfolding row_of_def by fastforce
        then show ?thesis using gate_local [of s0 db db' s' ru] s0 True by simp
      qed
    qed
  next
    case un
    then have "same_case (sx_id s') db db'" by (simp add: unrelated_def same_case_def row_of_def history_def)
    then show ?thesis by (rule kept)
  qed
qed

section \<open>The approver and the reporting line\<close>

definition manager_rel :: "sep_employee list \<Rightarrow> (int \<times> int) set" where
  "manager_rel es = {(a, b). \<exists>e. find (\<lambda>e. em_id e = a) es = Some e \<and> em_managerId e = Some b \<and> b \<noteq> 0}"

lemma reporting_line_above:
  assumes "reporting_line es target seen (Some c) = Inr ()" and "c \<noteq> 0" and "(c, b) \<in> (manager_rel es)\<^sup>*"
  shows "b \<noteq> target"
  using assms(3,1,2)
proof (induction arbitrary: seen rule: converse_rtrancl_induct)
  case base
  then show ?case by (auto simp: reporting_line.simps [of es target seen "Some b"] split: if_splits)
next
  case (step y z)
  then obtain e where e: "find (\<lambda>e. em_id e = y) es = Some e" "em_managerId e = Some z" "z \<noteq> 0"
    by (auto simp: manager_rel_def)
  have "reporting_line es target (y # seen) (Some z) = Inr ()"
    using step.prems e by (auto simp: reporting_line.simps [of es target seen "Some y"] split: if_splits)
  then show ?case using step.IH e(3) by blast
qed

section \<open>An example company\<close>

definition staff :: "int \<Rightarrow> string \<Rightarrow> int option \<Rightarrow> sep_employee" where
  "staff k code manager = \<lparr>em_id = k, em_code = code, em_userId = Some k, em_managerId = manager, em_status = ''Active'',
     em_employment = ''Active'', em_category = Some ''EMPLOYEE'', em_gradeId = Some 1, em_noticeDays = None,
     em_separatedAt = None, em_rehire = None, em_version = 1\<rparr>"

definition demo_policy :: sep_policy where
  "demo_policy = \<lparr>po_typeRules = [\<lparr>tr_type = ''RESIGNATION'', tr_initiators = [''SELF''], tr_requiredDocs = [],
       tr_noticeTreatment = ''GRADE'', tr_postApproval = True\<rparr>],
     po_authority = [\<lparr>ar_category = ''EMPLOYEE'', ar_gradeCode = ''G'', ar_approverCodes = [''C'']\<rparr>],
     po_noticeByGrade = [\<lparr>gn_category = ''EMPLOYEE'', gn_gradeCode = ''G'', gn_days = 2\<rparr>],
     po_departments = [\<lparr>dp_code = ''HR'', dp_owner = ''H'', dp_signers = [''H'']\<rparr>],
     po_templates = map (\<lambda>k. \<lparr>te_kind = k, te_approvedRef = k, te_body = ''{{type}}''\<rparr>) [''ACCEPTANCE'', ''CLEARANCE'', ''EXPERIENCE''],
     po_hrCodes = [''H''], po_itOwner = ''H'', po_payrollOwner = ''H'', po_timeZone = ''UTC'', po_currency = ''PKR'', po_minorUnits = 2,
     po_leaveEncashment = True, po_noticeRecovery = True, po_noticePay = False, po_reminderDays = 5\<rparr>"

definition demo_start :: sep_db where
  "demo_start = \<lparr>sd_aliases = [], sd_employees = [staff 1 ''L'' (Some 2), staff 2 ''M'' (Some 4), staff 3 ''H'' (Some 4), staff 4 ''C'' None],
     sd_grades = [(1, ''G'')], sd_requisitions = [], sd_policy = Some demo_policy, sd_separations = [], sd_notices = [], sd_plans = [],
     sd_sessions = [], sd_transfers = [], sd_assets = [], sd_access = [], sd_clearances = [], sd_interviews = [], sd_settlements = [],
     sd_documents = [], sd_sources = [], sd_audit = [], sd_events = [], sd_deliveries = [],
     sd_approvals = [\<lparr>ha_kind = ''SETTLEMENT'', ha_ref = ''10@2'', ha_stage = ''APPROVED'', ha_sourceHash = [], ha_execution = []\<rparr>],
     sd_expired = [], sd_outbox = True, sd_next = 0\<rparr>"

definition demo_allowed :: "(sep_state \<times> sep_state) list" where
  "demo_allowed = [(Draft, Submitted), (Submitted, ManagerReview), (ManagerReview, HrVerification), (HrVerification, ManagementDecision),
     (HrVerification, Draft), (ManagerReview, Draft), (ManagementDecision, HrVerification), (ManagementDecision, ManagerReview),
     (ManagementDecision, Approved), (ManagementDecision, Cancelled), (Approved, NoticePeriod), (NoticePeriod, HandoverInProgress),
     (HandoverInProgress, Clearance), (Clearance, ExitCompleted), (ManagerReview, Withdrawn), (NoticePeriod, Withdrawn)]"

definition demo_rules :: rules where
  "demo_rules = \<lparr>ru_transition = (\<lambda>a b. (a, b) \<in> set demo_allowed),
     ru_notice = (\<lambda>f. let served = nf_lastWorkingOn f - nf_submittedOn f in
        Inr (f\<lparr>nf_servedDays := served,
          nf_shortfallDays := max 0 (nf_requiredDays f - served - nf_buyoutDays f - nf_waivedDays f)\<rparr>)),
     ru_clearanceComplete = (\<lambda>cs as. list_all completed cs \<and> list_all completed as),
     ru_settlementTotal = (\<lambda>ls. Inr (sum_list (map (\<lambda>l. if sl_direction l = ''EARNING'' then sl_amountMinor l else - sl_amountMinor l) ls))),
     ru_revertTarget = (\<lambda>stage. if stage = ''MANAGEMENT'' then ''HR'' else ''EMPLOYEE''),
     ru_companyDate = (\<lambda>t zone. t div 86400000), ru_isoInstant = (\<lambda>t. []), ru_sourceHash = (\<lambda>db kind ref. [])\<rparr>"

definition demo_env :: "int \<Rightarrow> string \<Rightarrow> int option \<Rightarrow> int \<Rightarrow> sep_env" where
  "demo_env k code manager now = \<lparr>sv_who = Some (staff k code manager), sv_now = now, sv_isAdmin = False,
     sv_permissions = map (\<lambda>p. ''hr.separation.'' @ p) [''self'', ''manager'', ''verify'', ''manage'', ''approve'', ''task'', ''clear'', ''settle'', ''integrate''],
     sv_identityCodes = [code]\<rparr>"

definition leaver where "leaver = demo_env 1 ''L'' (Some 2)"
definition manager where "manager = demo_env 2 ''M'' (Some 4)"
definition hr where "hr = demo_env 3 ''H'' (Some 4)"
definition chief where "chief = demo_env 4 ''C'' None"

definition at_version :: "nat \<Rightarrow> sep_ref" where
  "at_version v = \<lparr>si_ref = 0, si_employeeCode = ''L'', si_version = v\<rparr>"

definition db_only :: "hr_error + sep_db \<times> separation \<Rightarrow> hr_error + sep_db" where
  "db_only m = rbind m (\<lambda>(db, _). Inr db)"

definition demo_create :: create_input where
  "demo_create = \<lparr>ci_employeeCode = ''L'', ci_version = 0, ci_type = ''RESIGNATION'', ci_reasonCode = ''R'', ci_reason = ''R'',
     ci_proposedAt = 432000000, ci_documents = []\<rparr>"

definition demo_recommendation :: recommendation where
  "demo_recommendation = \<lparr>rc_recommendation = ''APPROVE'', rc_reason = ''ok'', rc_replacementCode = Some ''H'', rc_interimOwnerCode = ''H'',
     rc_requisitionRef = None, rc_topics = [''T''], rc_deliverables = [], rc_deferredUntil = None\<rparr>"

definition demo_decision :: decision_input where
  "demo_decision = \<lparr>di_decision = ''APPROVE'', di_reason = ''ok'', di_lastWorkingAt = None, di_deferredUntil = None\<rparr>"

text \<open>From the draft to the approval.\<close>

definition review_run :: "(sep_db \<Rightarrow> hr_error + sep_db) list" where
  "review_run = [
     (\<lambda>db. db_only (createSeparation (leaver 0) demo_create db)),
     (\<lambda>db. db_only (separationAction demo_rules (leaver 0) (at_version 1) ''SUBMIT'' ''go'' None db)),
     (\<lambda>db. db_only (recommendSeparation demo_rules (manager 0) (at_version 3) demo_recommendation db)),
     (\<lambda>db. db_only (verifySeparation demo_rules (hr 0) (at_version 4) ''checked'' db)),
     (\<lambda>db. db_only (decideSeparation demo_rules (chief 0) (at_version 5) demo_decision db))]"

text \<open>From the approval to the exit.\<close>

definition work :: "string \<Rightarrow> nat \<Rightarrow> nat \<Rightarrow> work_input" where
  "work action ref v = \<lparr>wi_action = action, wi_task = ref, wi_version = v, wi_evidence = [''e''], wi_requestKey = ''k'', wi_owner = None,
     wi_dueAt = None, wi_title = None, wi_kind = None, wi_replacement = None, wi_requisition = None, wi_topics = None\<rparr>"

definition snapshot :: "string \<Rightarrow> source_payload" where
  "snapshot source = \<lparr>sr_source = source, sr_employeeCode = ''L'', sr_sep = 0, sr_sourceRef = ''s'', sr_sourceVersion = 1, sr_asOf = 0,
     sr_evidence = [], sr_assets = Some [], sr_financial = Some \<lparr>fi_leaveDays = 2, fi_dailyRateMinor = 100, fi_loansMinor = 5,
     fi_advancesMinor = 0, fi_bondsMinor = 0\<rparr>, sr_clawbackMinor = Some 0\<rparr>"

definition clear_hr :: clearance_input where
  "clear_hr = \<lparr>ki_task = 8, ki_version = 1, ki_evidence = [''e''], ki_department = ''HR'', ki_noDues = False,
     ki_dues = [\<lparr>du_description = ''card'', du_amountMinor = 7\<rparr>], ki_reason = ''r''\<rparr>"

definition revoke :: "nat \<Rightarrow> string \<Rightarrow> access_input" where
  "revoke ref system = \<lparr>xi_task = ref, xi_version = 1, xi_evidence = [''e''], xi_system = system, xi_confirmationRef = ''c''\<rparr>"

definition settle :: "string \<Rightarrow> nat \<Rightarrow> settle_input" where
  "settle action v = \<lparr>li_action = action, li_version = v, li_evidence = [], li_sourceVersion = 1, li_receiptRef = Some ''p''\<rparr>"

definition exit_run :: "(sep_db \<Rightarrow> hr_error + sep_db) list" where
  "exit_run = [
     (\<lambda>db. db_only (separationAction demo_rules (hr 0) (at_version 7) ''START_HANDOVER'' ''r'' None db)),
     (\<lambda>db. db_only (replacementAction (hr 0) (at_version 8) (work ''COMPLETE_SESSION'' 3 1) db)),
     (\<lambda>db. db_only (replacementAction (hr 0) (at_version 9) (work ''ACKNOWLEDGE_SESSION'' 3 2) db)),
     (\<lambda>db. db_only (replacementAction (manager 0) (at_version 10) (work ''READY'' 2 1) db)),
     (\<lambda>db. db_only (ktAction (hr 0) (at_version 11) (work ''COMPLETE'' 4 1) db)),
     (\<lambda>db. db_only (ktAction (leaver 0) (at_version 12) (work ''ACK_LEAVER'' 4 2) db)),
     (\<lambda>db. db_only (ktAction (hr 0) (at_version 13) (work ''ACK_RECEIVER'' 4 3) db)),
     (\<lambda>db. db_only (syncSource (hr 0) (at_version 14) (snapshot ''ASSETS'') db)),
     (\<lambda>db. db_only (syncSource (hr 0) (at_version 15) (snapshot ''PAYROLL'') db)),
     (\<lambda>db. db_only (syncSource (hr 0) (at_version 16) (snapshot ''INCENTIVES'') db)),
     (\<lambda>db. db_only (separationAction demo_rules (hr 0) (at_version 17) ''START_CLEARANCE'' ''r'' None db)),
     (\<lambda>db. db_only (clearanceAction demo_rules (hr 0) (at_version 18) clear_hr db)),
     (\<lambda>db. db_only (accessAction (hr 432000000) (at_version 19) (revoke 5 ''SYSTEM'') db)),
     (\<lambda>db. db_only (accessAction (hr 432000000) (at_version 20) (revoke 6 ''VPN'') db)),
     (\<lambda>db. db_only (accessAction (hr 432000000) (at_version 21) (revoke 7 ''BUILDING'') db)),
     (\<lambda>db. db_only (interviewAction (hr 0) (at_version 22) 1 [''e''] \<lparr>iv_taxonomy = None, iv_responses = [], iv_notes = []\<rparr> db)),
     (\<lambda>db. db_only (settlementAction demo_rules (hr 0) (at_version 23) (settle ''PREPARE'' 1) db)),
     (\<lambda>db. db_only (settlementAction demo_rules (hr 0) (at_version 24) (settle ''HANDOFF'' 2) db)),
     (\<lambda>db. db_only (settlementAction demo_rules (hr 0) (at_version 25) (settle ''RECEIPT'' 3) db)),
     (\<lambda>db. db_only (separationAction demo_rules (hr 432000000) (at_version 26) ''COMPLETE_EXIT'' ''r'' (Some True) db))]"


text \<open>Somebody else resigns after the exit.\<close>

definition later_resignation :: "sep_db \<Rightarrow> hr_error + sep_db" where
  "later_resignation db = db_only (createSeparation (hr 432000000) (demo_create\<lparr>ci_employeeCode := ''H'', ci_proposedAt := 532000000\<rparr>) db)"

definition states_of :: "sep_db \<Rightarrow> (sep_state \<times> nat) list" where
  "states_of db = map (\<lambda>s. (sx_state s, sx_version s)) (sd_separations db)"

lemma review_reaches:
  "(case rfold (\<lambda>f. f) review_run demo_start of Inl e \<Rightarrow> None
    | Inr db \<Rightarrow> Some (states_of db, map sx_approvedAt (sd_separations db))) = Some ([(NoticePeriod, 7)], [Some 0])"
  by code_simp

lemma exit_reaches:
  "(case rfold (\<lambda>f. f) (review_run @ exit_run) demo_start of Inl e \<Rightarrow> None
    | Inr db \<Rightarrow> (case later_resignation db of Inl e \<Rightarrow> None | Inr db' \<Rightarrow> Some (states_of db, states_of db'))) =
   Some ([(ExitCompleted, 27)], [(ExitCompleted, 27), (Draft, 1)])"
  by code_simp

lemma db_only_Inr: "db_only m = Inr db \<longleftrightarrow> (\<exists>s. m = Inr (db, s))"
  by (cases m) (auto simp: db_only_def)

lemma run_steps:
  assumes "rfold (\<lambda>f. f) fs db = Inr db'" and "\<And>f a b. f \<in> set fs \<Longrightarrow> f a = Inr b \<Longrightarrow> sep_step ru a b"
  shows "(sep_step ru)\<^sup>*\<^sup>* db db'"
  using assms
proof (induction fs arbitrary: db)
  case (Cons f fs)
  then obtain b where b: "f db = Inr b" "rfold (\<lambda>f. f) fs b = Inr db'" by (auto simp: rbind_Inr_iff)
  have "(sep_step ru)\<^sup>*\<^sup>* b db'" by (rule Cons.IH [OF b(2)]) (use Cons.prems(2) in auto)
  then show ?case using Cons.prems(2) [of f db b] b(1) by (auto intro: converse_rtranclp_into_rtranclp)
qed simp

lemma run_is_steps: "f \<in> set (review_run @ exit_run) \<Longrightarrow> f a = Inr b \<Longrightarrow> sep_step demo_rules a b"
  by (auto simp: review_run_def exit_run_def db_only_Inr intro: sep_step.intros)

lemma demo_reached: "rfold (\<lambda>f. f) fs demo_start = Inr db \<Longrightarrow> set fs \<subseteq> set (review_run @ exit_run) \<Longrightarrow> reached demo_rules demo_start db"
  using run_steps [of fs demo_start db demo_rules] run_is_steps by (auto simp: reached_def no_cases_def demo_start_def)

lemma review_state:
  obtains db s where "reached demo_rules demo_start db" "sd_separations db = [s]" "sx_state s = NoticePeriod" "sx_version s = 7"
    "sx_approvedAt s = Some 0"
proof -
  obtain db where db: "rfold (\<lambda>f. f) review_run demo_start = Inr db"
    "states_of db = [(NoticePeriod, 7)]" "map sx_approvedAt (sd_separations db) = [Some 0]"
    using review_reaches by (auto split: sum.splits)
  then show ?thesis using demo_reached [OF db(1)] that by (auto simp: states_of_def map_eq_Cons_conv)
qed

lemma exit_state:
  obtains db db' s r n where "reached demo_rules demo_start db" "sep_step demo_rules db db'" "sd_separations db = [s]"
    "sx_state s = ExitCompleted" "sd_separations db' = [r, n]" "sx_state n = Draft"
proof -
  obtain db db' where db: "rfold (\<lambda>f. f) (review_run @ exit_run) demo_start = Inr db" "later_resignation db = Inr db'"
    "states_of db = [(ExitCompleted, 27)]" "states_of db' = [(ExitCompleted, 27), (Draft, 1)]"
    using exit_reaches by (auto split: sum.splits)
  have "sep_step demo_rules db db'"
    using db(2) by (auto simp: later_resignation_def db_only_Inr intro: sep_step.created)
  then show ?thesis using demo_reached [OF db(1)] db(3,4) that by (auto simp: states_of_def map_eq_Cons_conv)
qed

end
