(* ===== verification/SeparationLaws.thy ===== *)
theory SeparationLaws
  imports SeparationCases
begin

text \<open>
  The properties of the separation component, over every sequence of commands, sweeps and integrations
  from a company without cases, each with the example company as its witness.
\<close>





lemma cases_one:
  assumes "cases_ok db" and "s \<in> set (sd_separations db)" "r \<in> set (sd_separations db)" "\<not> terminal (sx_state s)" "open_case (sx_employeeCode s) r"
  shows "sx_id s = sx_id r"
proof -
  have "\<forall>s \<in> set (sd_separations db). \<forall>r \<in> set (sd_separations db).
      \<not> terminal (sx_state s) \<and> open_case (sx_employeeCode s) r \<longrightarrow> sx_id s = sx_id r"
    using assms(1) unfolding cases_ok_def by (elim conjE)
  with assms(2-) show ?thesis by blast
qed

text \<open>C6. An employee code has at most one separation that is not closed.\<close>

theorem one_open_case:
  assumes "reached ru db0 db" and "s \<in> set (sd_separations db)" and "r \<in> set (sd_separations db)"
    and "sx_employeeCode s = sx_employeeCode r" and "\<not> terminal (sx_state s)" and "\<not> terminal (sx_state r)"
  shows "s = r"
proof -
  have ok: "cases_ok db" by (rule reached_cases [OF assms(1)])
  have "open_case (sx_employeeCode s) r" using assms(4,6) by (simp add: open_case_def)
  then have same_id: "sx_id s = sx_id r" by (rule cases_one [OF ok assms(2,3,5)])
  have rows: "row_of (sx_id s) db = Some s" "row_of (sx_id r) db = Some r"
    using assms(2,3) by (simp_all add: row_of_iff [OF cases_distinct [OF ok]])
  have "Some s = Some r" unfolding rows [symmetric] same_id by (rule refl)
  then show ?thesis by (rule option.inject [THEN iffD1])
qed

theorem one_open_case_witness:
  "\<exists>db s. reached demo_rules demo_start db \<and> sx_state s = NoticePeriod \<and> length (sd_separations db) = 1 \<and> list_all (\<lambda>r. r = s) (sd_separations db)"
proof -
  obtain db s where st: "reached demo_rules demo_start db" "sd_separations db = [s]" "sx_state s = NoticePeriod" by (rule review_state)
  have one: "r = s" if "r \<in> set (sd_separations db)" for r
  proof (rule one_open_case [OF st(1) that])
    have "r = s" using that by (simp add: st(2))
    then show "sx_employeeCode r = sx_employeeCode s" "\<not> terminal (sx_state r)" by (simp_all add: st(3) terminal_def)
  qed (simp_all add: st(2,3) terminal_def)
  then have "list_all (\<lambda>r. r = s) (sd_separations db)" unfolding list_all_iff by blast
  with st show ?thesis by (intro exI [of _ db] exI [of _ s]) simp
qed



text \<open>C4. Where only the HR verification leads to the Management decision, a separation that was approved has a verification, made by somebody other than the leaver, and is past its review.\<close>

theorem approved_after_review:
  assumes "reached ru db0 db" and "\<And>a. ru_transition ru a ManagementDecision \<Longrightarrow> a = HrVerification"
    and "s \<in> set (sd_separations db)" and "sx_approvedAt s \<noteq> None"
  shows "sx_verification s \<noteq> None \<and> (\<exists>v. sx_verifiedBy s = Some v \<and> v \<noteq> sx_employeeCode s) \<and> \<not> in_review (sx_state s)"
proof -
  have "\<forall>s \<in> set (sd_separations db). reviewed s"
  proof (rule reached_row [OF assms(1)])
    show "reviewed s'" if "lifecycle ru env s s'" "reviewed s" for env s s'
      using lifecycle_reviewed [OF assms(2)] that by blast
  qed (simp add: reviewed_def)
  then have "reviewed s" using assms(3) by blast
  then show ?thesis using assms(4) by (auto simp: reviewed_def)
qed

theorem approved_after_review_witness:
  "\<exists>db s v. reached demo_rules demo_start db \<and> sd_separations db = [s] \<and> sx_verifiedBy s = Some v \<and> v \<noteq> sx_employeeCode s"
proof -
  obtain db s where st: "reached demo_rules demo_start db" "sd_separations db = [s]" "sx_approvedAt s = Some 0" by (rule review_state)
  have "a = HrVerification" if "ru_transition demo_rules a ManagementDecision" for a
    using that by (auto simp: demo_rules_def demo_allowed_def)
  from approved_after_review [OF st(1) this, of s] st show ?thesis by auto
qed

lemma authorized_row:
  assumes "authorizedSeparation env lock ref db = Inr s"
  shows "s \<in> set (sd_separations db) \<and> sx_id s = si_ref ref"
proof -
  have "post (\<lambda>s. s \<in> set (sd_separations db) \<and> sx_id s = si_ref ref) (authorizedSeparation env lock ref db)"
    unfolding authorizedSeparation_def
  proof (rule post_bind_any, rule post_bind_any, rule post_bind_any, rule post_ensure_bind)
    fix codes s
    assume "require (find (\<lambda>s. sx_id s = si_ref ref \<and> sx_employeeCode s \<in> set codes) (sd_separations db))
      (AppError 404 ''Separation not found'') = Inr s"
    then have f: "find (\<lambda>s. sx_id s = si_ref ref \<and> sx_employeeCode s \<in> set codes) (sd_separations db) = Some s"
      by (simp only: require_Inr_iff)
    from find_sound [OF f] have "s \<in> set (sd_separations db) \<and> sx_id s = si_ref ref" by simp
    then show "post (\<lambda>s. s \<in> set (sd_separations db) \<and> sx_id s = si_ref ref) (if lock then
        rbind (ensure (sx_version s = si_version ref) (AppError 409 ''This record changed'')) (\<lambda>_.
        rbind (ensure (\<not> terminal (sx_state s)) (AppError 409 ''This separation is closed'')) (\<lambda>_. Inr s)) else Inr s)"
      by (intro post_if post_ensure_bind post_Inr)
  qed
  then show ?thesis using assms by (rule postD)
qed

lemma rbind_InrE: "rbind m f = Inr y \<Longrightarrow> (\<And>x. m = Inr x \<Longrightarrow> f x = Inr y \<Longrightarrow> Q) \<Longrightarrow> Q"
  by (cases m) auto

text \<open>C5. Whoever decides on a separation holds the approval permission, is named for the category and grade in the matrix frozen at initiation, is not the leaver, and has no leaver above in the reporting line, however long the line is.\<close>

theorem decision_independent:
  assumes "decideSeparation ru env ref input db = Inr (db', s')" and "sv_who env = Some w"
  shows "\<exists>s target. s \<in> set (sd_separations db) \<and> sx_id s = si_ref ref \<and> employee db (sx_employeeCode s) = Inr target \<and>
    has env ''hr.separation.approve'' \<and> (\<exists>c \<in> set (approver_codes s). owns_code env c) \<and> em_code w \<noteq> sx_employeeCode s \<and>
    (\<forall>m b. em_managerId w = Some m \<longrightarrow> m \<noteq> 0 \<longrightarrow> (m, b) \<in> (manager_rel (sd_employees db))\<^sup>* \<longrightarrow> b \<noteq> em_id target)"
proof -
  obtain s u where a: "authorizedSeparation env True ref db = Inr s" and o: "approverOnly env s db = Inr u"
    using assms(1) [unfolded decideSeparation_def] by (elim rbind_InrE) (rule that)
  have s: "s \<in> set (sd_separations db)" "sx_id s = si_ref ref" using authorized_row [OF a] by blast+
  obtain target where p: "\<exists>u. permit env ''hr.separation.approve'' = Inr u"
    and b: "includesActor env (approver_codes s) \<and> sx_employeeCode s \<noteq> who_code env"
    and e: "employee db (sx_employeeCode s) = Inr target"
    and l: "reporting_line (sd_employees db) (em_id target) [] (Option.bind (sv_who env) em_managerId) = Inr u"
    using o unfolding approverOnly_def rbind_Inr_iff ensure_Inr_iff by blast
  have t: "has env ''hr.separation.approve''" "\<exists>c \<in> set (approver_codes s). owns_code env c" "em_code w \<noteq> sx_employeeCode s"
    "reporting_line (sd_employees db) (em_id target) [] (em_managerId w) = Inr ()"
    using p b l assms(2) by (auto simp: permit_def includesActor_def list_ex_iff who_code_def)
  have above: "b \<noteq> em_id target" if "em_managerId w = Some m" "m \<noteq> 0" "(m, b) \<in> (manager_rel (sd_employees db))\<^sup>*" for m b
    using reporting_line_above [OF _ that(2,3)] t(4) that(1) by simp
  show ?thesis
    by (rule exI [of _ s], rule exI [of _ target]) (intro conjI allI impI s e t(1-3), rule above)
qed

theorem decision_independent_witness:
  "\<exists>db db' s' s. decideSeparation demo_rules (chief 0) (at_version 5) demo_decision db = Inr (db', s') \<and> s \<in> set (sd_separations db) \<and>
     sx_id s = 0 \<and> ''C'' \<noteq> sx_employeeCode s \<and> (\<exists>c \<in> set (approver_codes s). owns_code (chief 0) c)"
proof -
  obtain db where "rfold (\<lambda>f. f) review_run demo_start = Inr db"
    using review_reaches by (auto split: sum.splits)
  then obtain a where "db_only (decideSeparation demo_rules (chief 0) (at_version 5) demo_decision a) = Inr db"
    unfolding review_run_def rfold.simps by (elim rbind_InrE) simp
  then obtain s' where d: "decideSeparation demo_rules (chief 0) (at_version 5) demo_decision a = Inr (db, s')"
    by (auto simp: db_only_Inr)
  have who: "sv_who (chief 0) = Some (staff 4 ''C'' None)" by (simp add: chief_def demo_env_def)
  from decision_independent [OF d who]
  obtain s where "s \<in> set (sd_separations a)" "sx_id s = si_ref (at_version 5)" "em_code (staff 4 ''C'' None) \<noteq> sx_employeeCode s"
    "\<exists>c \<in> set (approver_codes s). owns_code (chief 0) c" by (elim exE conjE)
  then have "s \<in> set (sd_separations a) \<and> sx_id s = 0 \<and> ''C'' \<noteq> sx_employeeCode s \<and> (\<exists>c \<in> set (approver_codes s). owns_code (chief 0) c)"
    by (simp add: at_version_def staff_def)
  from conjI [OF d this] show ?thesis by (intro exI)
qed

end
