(* ===== verification/Spec2Isabelle.thy ===== *)
theory Spec2Isabelle
  imports PayrollEngine ApprovalFlow BankFile PayrollRuns TaxSlabs Idempotency Outbox AttendanceEvaluator WorkingDay Replay Leave PayrollFormula SeparationLaws
begin

text \<open>
  The HR backend keeps the people, attendance, approvals and payroll of several companies (tenants) in
  one database. This development models the part of it that decides about money and about employment:
  exact arithmetic, rosters and working days, the punches and their verdict, leave, the attendance facts that
  cost days, the payslip engine, the approval workflow, the life of a payroll run with its loans, the payment of
  payslips, the tax slabs, the case of somebody who leaves the company, the idempotency of retried calls and the
  dispatch of the events the operations leave behind.
  Sources are named relative to \<^verbatim>\<open>src/src\<close>.

  \<^bold>\<open>How the parts interact.\<close> A roster gives the windows of a day, and the day resolver
  decides from roster, holidays, leave and profile whether somebody was due to work. Punches are grouped into the
  shifts they belong to, the punches of a shift are paired, accounted and scored; what deviates
  from the roster becomes a case. An approved leave request marks the days the resolver
  found due and takes them from the balance. Attendance cases decided in the Approval centre are priced in days by the
  anomaly rules; the payslip engine turns days, salary terms, tax slabs, loans and corrections into the
  lines of a payslip; a payroll run calls the engine once for each employee, stores the payslips and
  reserves loan repayments; the approval request of the run must be approved by somebody else before the
  run is finalised, which posts the repayments, makes the payslips final and announces them; only then
  can payslips be distributed and their payment recorded. All amounts go through the money library.
  The case of a leaver passes the direct manager, HR and the Management approver; its approval generates the
  workstreams (handover, training, assets, access, clearances, interview, settlement), integrations bring in the
  figures of the settlement, a worker reminds, ends deferrals and hands the settlement to payroll, and the exit
  is completed only through a gate over all of them.

  \<^bold>\<open>Theories and sources.\<close>
  \<^item> \<open>Prelude\<close>: results (\<open>hr_error + 'a\<close>) with bind, guards and folds, JavaScript rounding, trimming and number
    texts, civil dates, lists without repetition, reachability, and the interfaces of a system with an invariant
    (\<open>invariant_system\<close>) and of one that refines another (\<open>refinement_map\<close>).
  \<^item> \<open>Money\<close>: \<^verbatim>\<open>lib/money.js\<close>. A bigint is an \<open>int\<close>, a number a rational, a decimal text a \<open>string\<close>; every thrown
    code is an error value.
  \<^item> \<open>AnomalyRules\<close>: \<^verbatim>\<open>lib/attendanceAnomalyRules.js\<close>: grace in force, the facts of a day, the pricing of cases.
  \<^item> \<open>AttendanceIntervals\<close>: \<^verbatim>\<open>lib/attendanceIntervals.js\<close>: the pairing of punches and the accounting of minutes, against the
    sets of instants they cover.
  \<^item> \<open>AttendanceEvaluator\<close>: \<^verbatim>\<open>lib/attendanceEvaluator.js\<close> and the deadline of \<^verbatim>\<open>lib/shiftCheckout.js\<close>: the verdict on a shift, which
    calls the pairing, the accounting and the anomaly rules.
  \<^item> \<open>Roster\<close>: \<^verbatim>\<open>lib/attendanceShift.js\<close>, \<^verbatim>\<open>lib/schedulePattern.js\<close> and the roster part of \<^verbatim>\<open>lib/shiftCheckout.js\<close>: the
    windows of a pattern on a day, the shift of an arrival, the next shift, and the validation of patterns.
  \<^item> \<open>WorkingDay\<close>: \<^verbatim>\<open>services/workingDay.service.js\<close> with \<^verbatim>\<open>lib/attendanceSetup.js\<close>, \<^verbatim>\<open>lib/attendanceRuntime.js\<close> and
    \<^verbatim>\<open>lib/attendanceDates.js\<close>: the verdict on a day and the days of a range.
  \<^item> \<open>Sessions\<close>, \<open>Replay\<close>: \<^verbatim>\<open>lib/attendanceReplay.js\<close> with \<^verbatim>\<open>lib/attendanceDirectionRepair.js\<close>,
    \<^verbatim>\<open>lib/attendanceSiteRules.js\<close> and \<^verbatim>\<open>lib/attendanceOvertime.js\<close>: the grouping of punches into shifts; manual overlays,
    direction repair, the verdict on a session and the overtime budget of a day.
  \<^item> \<open>Leave\<close>: \<^verbatim>\<open>services/leave.service.js\<close> with the leave decisions of \<^verbatim>\<open>services/approval\<close>: policies, requests,
    balances, accrual and carry over.
  \<^item> \<open>Proration\<close>: the share of a month somebody was employed, hand-entered months and cut-off instants
    (\<^verbatim>\<open>lib/monthlyPayrollAttendance.js\<close>, \<^verbatim>\<open>services/payrollCycleDates.js\<close>, \<^verbatim>\<open>services/payrollService.js\<close>).
  \<^item> \<open>PayrollEngine\<close>: \<^verbatim>\<open>buildPayslipFromInputs\<close> of \<^verbatim>\<open>services/payrollService.js\<close>, one definition for each of its steps in its
    order, and the pricing of days in \<^verbatim>\<open>services/attendanceRulePayroll.service.js\<close>.
  \<^item> \<open>PayrollFormula\<close>: \<^verbatim>\<open>lib/payrollFormula.js\<close>: the formulas of salary components, the parser that evaluates them and their
    validation, against a reference meaning of expressions.
  \<^item> \<open>ApprovalMatrix\<close>, \<open>ApprovalEngine\<close>, \<open>ApprovalFlow\<close>: \<^verbatim>\<open>lib/approvalMatrix.js\<close>, \<^verbatim>\<open>lib/approvalStagePolicy.js\<close> and
    \<^verbatim>\<open>services/approval\<close>: published levels, the route sealed at submission, every action on a request, and the
    system of requests with its invariant.
  \<^item> \<open>Payments\<close>: \<^verbatim>\<open>services/payrollPayments.service.js\<close>: bank evidence and cash, as a state machine over the evidence of
    each payslip that refines a ledger of stages.
  \<^item> \<open>BankFile\<close>: \<^verbatim>\<open>lib/bankFileFormats.js\<close> and \<^verbatim>\<open>services/bankFileService.js\<close>: the NACHA and CSV files a finalised run is paid with.
  \<^item> \<open>LoanLedger\<close>: \<^verbatim>\<open>services/loan.service.js\<close>, \<^verbatim>\<open>services/payrollLoans.service.js\<close> and the loan decisions of
    \<^verbatim>\<open>services/approval/adapters.js\<close>.
  \<^item> \<open>PayrollRuns\<close>: the runs of \<^verbatim>\<open>services/payrollService.js\<close> with the payslip actions of
    \<^verbatim>\<open>services/payrollDashboard.service.js\<close>: one state with runs, payslips, loan ledger, approval requests, corrections,
    audit rows and outbox; one step for each operation.
  \<^item> \<open>TaxSlabs\<close>: \<^verbatim>\<open>services/payrollTaxSlab.service.js\<close>.
  \<^item> \<open>Separation\<close>, \<open>SeparationFlow\<close>, \<open>Workstreams\<close>: \<^verbatim>\<open>services/separation\<close>: the tables and shared operations of
    \<^verbatim>\<open>base.js\<close>; the commands of \<^verbatim>\<open>service.js\<close> with the documents, the generation of workstreams and the two gates of
    \<^verbatim>\<open>workstreams.js\<close>; its commands, the snapshots of \<^verbatim>\<open>integrations.js\<close>, the daily sweep and the payroll receipt of
    \<^verbatim>\<open>automation.js\<close>.
  \<^item> \<open>CaseLog\<close>, \<open>SeparationCases\<close>, \<open>SeparationLaws\<close>: an abstract life of a case (\<open>lifecycle\<close>), the proof that every
    command follows it on its own case and leaves the others alone, the system of all commands with its
    invariant and an example company, and the properties.
  \<^item> \<open>Idempotency\<close>: \<^verbatim>\<open>lib/idempotency-store.js\<close> and \<^verbatim>\<open>middlewares/idempotency.middleware.js\<close>; the interface of a store is a
    locale, and the memory store is interpreted as one.
  \<^item> \<open>Outbox\<close>: \<^verbatim>\<open>jobs/outbox.dispatcher.js\<close>: a batch as the code runs it, and the table under any number of workers
    whose database operations interleave and which may crash between any two.

  \<^bold>\<open>How code becomes definitions.\<close> A row is a record with the columns the code reads or writes; a table is a
  list in the order of the ids; a transaction is a function from the state to an error or the new state, so
  an error leaves no write behind; where the code commits in pieces (the employees of a run) the model
  returns the state it stops in together with the error. A guard that throws is \<open>ensure\<close>, a lookup that must
  succeed is \<open>require\<close>, in the order of the code. The clock, the signed-in person and what other tables hold are
  arguments. Conditional updates keep their \<^verbatim>\<open>where\<close> clause. Rows are locked or written under an advisory
  lock in the code, so operations are atomic steps of a transition system and any order of them is covered.

  \<^bold>\<open>What the lemmas show.\<close> Money: exact rounding, round trips and error bounds. Attendance: no punch is lost
  and no minute paid twice, a shift closes and is credited only when it was on time, a case is charged
  once and never for an excused day. Formulas: evaluation ends, gives what
  the expression means, and does not go wrong on a validated formula. Payslips: lines, gross, deductions and net agree, loans stay under the cap,
  tax is monotone. Approvals: independence of the approver, no action on closed requests, no lost update,
  and the one way a request can be stranded. Payments: a payslip is paid once, and a bank file carries
  exactly what is due and reads back as it was written. Loans: no
  debt is lost or repaid twice. Runs: no day is paid by two runs, two people are needed, nothing
  changes after finalisation, and no payslip is handed out before.
  Rosters and days: windows are bounded, the verdict on a day does not depend on the range it is asked in, and leave
  charges exactly the days it marks. Sessions: no punch is lost, doubled or invented, a session is settled all or
  nothing, and overtime stays within its budget. Separation: a closed case is frozen, its history is complete, an employee
  has one open case, nobody is approved without review or by somebody who reports to them, and the exit gate holds for
  good. Slabs: no income is taxed by two slabs.
  Retries: a call that succeeded is replayed. Events: what is marked as published is on the stream, and the
  outbox drains.

  \<^bold>\<open>Bounds and fuel.\<close> Loops over lists are structural, automatic levels of a route are settled by a recursion whose
  measure is the number of levels left, and the walk up a reporting line ends because it visits each employee once. Only the
  parser of formulas has fuel: six steps for each token and four more, which is proved to be enough for every text. The search
  for the next shift looks at most 371 days ahead, as the code does; a validated weekly roster needs eight. Numbers of minor units are unbounded
  integers as the bigints of the code; JavaScript numbers are rationals, with the safe-integer checks the code makes
  and the rounding of \<^verbatim>\<open>Math.round\<close>; floating-point error inside a product of rates (the interest of a loan, the
  share of a month) is not modelled. Instants are milliseconds as integers.

  \<^bold>\<open>Not modelled.\<close> Reads and reports (timesheets, readiness of a roster, dashboards); the queries that gather the
  inputs of the engine; the Redis store and other services behind a network; tokens, encryption and row-level security, which
  rest on third-party code; the conversion between time zones, which is an argument; the capture and import of punches
  from devices and files; the validation of attendance settings and policies. Of the separation case: the package
  \<^verbatim>\<open>@trusoft/contracts\<close> with its transition table and notice arithmetic (the record \<open>rules\<close>, an argument), the schemas of
  the inputs, the replay of request keys, the claims and retries of the delivery worker, and the conversion of employee
  codes in the middle of a case. Assessments, appraisals, recruitment, onboarding and contracts are document workflows whose
  templates and rating rules are stored data or in packages outside the repository; their approvals are those of the
  Approval centre. Controllers, routes and seeds are wiring.
\<close>

end
